(* ===== verification/Prelude.thy ===== *)
theory Prelude
  imports Main "HOL-Library.Word"
begin

text \<open>
  Shared vocabulary of the development: bytes, the result type of fallible Go functions
  with its sequencing operator, the big-endian integer encodings of Go's
  \<open>encoding/binary\<close>, and generic list lemmas. The collections \<open>go_simps\<close> (evaluation of
  operations on their inputs) and \<open>res_simps\<close> (results of sequenced calls) carry the
  component proofs.
\<close>

unbundle bit_operations_syntax

named_theorems go_simps \<open>evaluation rules of the modelled operations\<close>
named_theorems res_simps \<open>rules for results of fallible calls\<close>

type_synonym byte = "8 word"
type_synonym i64 = "64 word"
type_synonym u32 = "32 word"
type_synonym u16 = "16 word"

section \<open>Results: a Go pair (value, error) with exactly one of the two\<close>

definition bindR :: "'e + 'a \<Rightarrow> ('a \<Rightarrow> 'e + 'b) \<Rightarrow> 'e + 'b" where
  "bindR m f = (case m of Inl e \<Rightarrow> Inl e | Inr x \<Rightarrow> f x)"

lemma bindR_simps [simp, res_simps]:
  "bindR (Inl e) f = Inl e"
  "bindR (Inr x) f = f x"
  by (simp_all add: bindR_def)

lemma bindR_eq_Inr [res_simps]: "bindR m f = Inr y \<longleftrightarrow> (\<exists>x. m = Inr x \<and> f x = Inr y)"
  by (cases m) auto

lemma bindR_eq_Inl [res_simps]:
  "bindR m f = Inl e \<longleftrightarrow> m = Inl e \<or> (\<exists>x. m = Inr x \<and> f x = Inl e)"
  by (cases m) auto

lemma bindR_cong [fundef_cong]:
  "m = m' \<Longrightarrow> (\<And>x. m' = Inr x \<Longrightarrow> f x = f' x) \<Longrightarrow> bindR m f = bindR m' f'"
  by (cases m') auto

definition isOk :: "'e + 'a \<Rightarrow> bool" where
  "isOk m = (case m of Inl _ \<Rightarrow> False | Inr _ \<Rightarrow> True)"

lemma isOk_simps [simp, res_simps]: "isOk (Inr x)" "\<not> isOk (Inl e)"
  by (simp_all add: isOk_def)

lemma isOk_iff: "isOk m \<longleftrightarrow> (\<exists>x. m = Inr x)"
  by (cases m) auto

definition guardR :: "bool \<Rightarrow> 'e \<Rightarrow> 'e + unit" where
  "guardR b e = (if b then Inr () else Inl e)"

lemma guardR_eq [simp, res_simps]:
  "guardR b e = Inr u \<longleftrightarrow> b"
  "guardR b e = Inl e' \<longleftrightarrow> \<not> b \<and> e = e'"
  by (auto simp: guardR_def)

section \<open>Big-endian encodings (\<open>encoding/binary\<close>, BigEndian)\<close>

text \<open>
  \<open>be_bytes k v\<close> is the low \<open>k\<close> bytes of \<open>v\<close>, most significant first (\<open>AppendUint16/32/64\<close>,
  \<open>PutUint16/32\<close>); \<open>un_be\<close> folds bytes back into a word (\<open>Uint16/32/64\<close>).
\<close>

primrec be_bytes :: "nat \<Rightarrow> 'a::len word \<Rightarrow> byte list" where
  "be_bytes 0 v = []"
| "be_bytes (Suc k) v = ucast (drop_bit (8 * k) v) # be_bytes k v"

definition un_be :: "byte list \<Rightarrow> 'a::len word" where
  "un_be bs = foldl (\<lambda>acc b. push_bit 8 acc OR ucast b) 0 bs"

definition be16 :: "u16 \<Rightarrow> byte list" where "be16 v = be_bytes 2 v"
definition be32 :: "u32 \<Rightarrow> byte list" where "be32 v = be_bytes 4 v"
definition be64 :: "i64 \<Rightarrow> byte list" where "be64 v = be_bytes 8 v"

definition un16 :: "byte list \<Rightarrow> u16" where "un16 bs = un_be (take 2 bs)"
definition un32 :: "byte list \<Rightarrow> u32" where "un32 bs = un_be (take 4 bs)"
definition un64 :: "byte list \<Rightarrow> i64" where "un64 bs = un_be (take 8 bs)"

lemma length_be_bytes [simp]: "length (be_bytes k v) = k"
  by (induction k) auto

lemma bit_fold_be_bytes:
  fixes v acc :: "'a::len word"
  shows "bit (foldl (\<lambda>acc b. push_bit 8 acc OR ucast b) acc (be_bytes k v)) n \<longleftrightarrow>
    n < LENGTH('a) \<and> (if n < 8 * k then bit v n else bit acc (n - 8 * k))"
proof (induction k arbitrary: acc)
  case 0
  show ?case using bit_imp_le_length by fastforce
next
  case (Suc k)
  let ?acc = "push_bit 8 acc OR ucast (ucast (drop_bit (8 * k) v) :: byte)"
  have acc: "bit ?acc m \<longleftrightarrow>
      m < LENGTH('a) \<and> (if m < 8 then bit v (8 * k + m) else bit acc (m - 8))" for m
    by (auto simp: bit_simps)
  consider "n < 8 * k" | "8 * k \<le> n" "n < 8 * Suc k" | "8 * Suc k \<le> n" by linarith
  then show ?case
  proof cases
    case 1
    then show ?thesis by (simp add: Suc.IH)
  next
    case 2
    then have "n - 8 * k < 8" "8 * k + (n - 8 * k) = n" by simp_all
    with 2 show ?thesis
      using bit_imp_le_length [of v n] by (simp add: Suc.IH acc) linarith
  next
    case 3
    then have "\<not> n < 8 * k" "\<not> n - 8 * k < 8" "n - 8 * k - 8 = n - 8 * Suc k" by simp_all
    with 3 show ?thesis
      by (simp only: be_bytes.simps foldl_Cons Suc.IH acc if_False) auto
  qed
qed

lemma un_be_bytes: "LENGTH('a::len) \<le> 8 * k \<Longrightarrow> un_be (be_bytes k v) = (v :: 'a word)"
  by (rule bit_word_eqI) (auto simp: un_be_def bit_fold_be_bytes)

lemma bit_fold_un_be:
  fixes acc :: "'a::len word" and bs :: "byte list"
  shows "n < LENGTH('a) \<Longrightarrow>
    bit (foldl (\<lambda>acc b. push_bit 8 acc OR ucast b) acc bs) n \<longleftrightarrow>
    (if n < 8 * length bs then bit (bs ! (length bs - 1 - n div 8)) (n mod 8)
     else bit acc (n - 8 * length bs))"
proof (induction bs arbitrary: n rule: rev_induct)
  case Nil
  then show ?case by simp
next
  case (snoc b bs)
  show ?case
  proof (cases "n < 8")
    case True
    then show ?thesis using snoc.prems by (auto simp: bit_simps nth_append)
  next
    case False
    then have n: "n div 8 = Suc ((n - 8) div 8)" "(n - 8) mod 8 = n mod 8"
      by (simp_all add: div_if le_mod_geq)
    have "bit (ucast b :: 'a word) n = False"
      using False bit_imp_le_length [of b n] by (auto simp: bit_simps)
    then show ?thesis
      using False snoc.prems snoc.IH [of "n - 8"] n
      by (auto simp: bit_simps nth_append)
  qed
qed

lemma nth_be_bytes: "i < k \<Longrightarrow> be_bytes k v ! i = ucast (drop_bit (8 * (k - 1 - i)) v)"
  by (induction k arbitrary: i) (auto simp: nth_Cons split: nat.splits)

lemma be_bytes_un_be:
  assumes "8 * length bs \<le> LENGTH('a::len)"
  shows "be_bytes (length bs) (un_be bs :: 'a word) = bs"
proof (rule nth_equalityI)
  fix i assume i: "i < length (be_bytes (length bs) (un_be bs :: 'a word))"
  let ?k = "length bs - 1 - i"
  have k: "i < length bs" "length bs - 1 - ?k = i" "8 * ?k + 8 \<le> 8 * length bs"
    using i by auto
  show "be_bytes (length bs) (un_be bs :: 'a word) ! i = bs ! i"
  proof (rule bit_word_eqI)
    fix n assume n: "n < LENGTH(8)"
    then have "(8 * ?k + n) div 8 = ?k" "(8 * ?k + n) mod 8 = n" by auto
    then show "bit (be_bytes (length bs) (un_be bs :: 'a word) ! i) n = bit (bs ! i) n"
      using n k assms bit_fold_un_be [of "8 * ?k + n" "0 :: 'a word" bs]
      by (simp add: nth_be_bytes bit_simps un_be_def)
  qed
qed simp

lemma length_be [simp, go_simps]:
  "length (be16 v) = 2" "length (be32 w) = 4" "length (be64 x) = 8"
  by (simp_all add: be16_def be32_def be64_def)

lemma un_be_app [simp, go_simps]:
  "un16 (be16 v @ xs) = v" "un32 (be32 w @ xs) = w" "un64 (be64 x @ xs) = x"
  by (simp_all add: un16_def un32_def un64_def be16_def be32_def be64_def un_be_bytes)

lemma be_un:
  "2 \<le> length bs \<Longrightarrow> be16 (un16 bs) = take 2 bs"
  "4 \<le> length bs \<Longrightarrow> be32 (un32 bs) = take 4 bs"
  "8 \<le> length bs \<Longrightarrow> be64 (un64 bs) = take 8 bs"
  unfolding un16_def un32_def un64_def be16_def be32_def be64_def
  using be_bytes_un_be [of "take 2 bs", where 'a = 16] be_bytes_un_be [of "take 4 bs", where 'a = 32]
    be_bytes_un_be [of "take 8 bs", where 'a = 64]
  by simp_all

section \<open>Pages of a list\<close>

lemma concat_pages: "concat (map (\<lambda>i. take n (drop (i * n) xs)) [0..<P]) = take (P * n) xs"
  by (induction P) (simp_all add: take_add [symmetric] add.commute)

section \<open>Searching lists by a key\<close>

lemma find_SomeD: "find P xs = Some x \<Longrightarrow> x \<in> set xs \<and> P x"
  by (auto simp: find_Some_iff)

lemma filter_key: "distinct (map f xs) \<Longrightarrow> x \<in> set xs \<Longrightarrow> filter (\<lambda>y. f y = f x) xs = [x]"
  by (induction xs) (auto simp: filter_empty_conv image_iff)

lemma case_filter_find:
  "(case filter P xs of [] \<Rightarrow> a | x # ys \<Rightarrow> f x) = (case find P xs of None \<Rightarrow> a | Some x \<Rightarrow> f x)"
  by (induction xs) auto

lemma find_append: "find P (xs @ ys) = (case find P xs of None \<Rightarrow> find P ys | Some x \<Rightarrow> Some x)"
  by (induction xs) simp_all

lemma find_map: "find P (map f xs) = map_option f (find (\<lambda>x. P (f x)) xs)"
  by (induction xs) auto

lemma find_filter: "find P xs = (case filter P xs of [] \<Rightarrow> None | x # ys \<Rightarrow> Some x)"
  by (induction xs) auto

lemma find_key:
  "distinct (map f xs) \<Longrightarrow> find (\<lambda>x. f x = k) xs = Some x \<longleftrightarrow> x \<in> set xs \<and> f x = k"
  by (induction xs) (auto simp: inj_on_def)

lemma find_key_and:
  assumes "distinct (map f xs)"
  shows "find (\<lambda>x. f x = k \<and> Q x) xs =
    (case find (\<lambda>x. f x = k) xs of None \<Rightarrow> None | Some x \<Rightarrow> if Q x then Some x else None)"
  using assms
proof (induction xs)
  case (Cons a xs)
  show ?case
  proof (cases "f a = k")
    case True
    then have "find (\<lambda>x. f x = k \<and> Q x) xs = None" using Cons.prems by (auto simp: find_None_iff image_iff)
    with True show ?thesis by simp
  qed (use Cons in simp)
qed simp

lemma find_upd_key:
  assumes "\<And>x. f (g x) = f x"
  shows "find (\<lambda>x. f x = k) (map (\<lambda>x. if P x then g x else x) xs) =
    map_option (\<lambda>x. if P x then g x else x) (find (\<lambda>x. f x = k) xs)"
  using assms by (induction xs) auto

lemma case_map_list: "(case map f xs of [] \<Rightarrow> a | x # ys \<Rightarrow> g x) = (case xs of [] \<Rightarrow> a | x # ys \<Rightarrow> g (f x))"
  by (cases xs) auto

section \<open>Association lists as Go maps\<close>

fun al_put :: "'k \<Rightarrow> 'v \<Rightarrow> ('k \<times> 'v) list \<Rightarrow> ('k \<times> 'v) list" where
  "al_put k v [] = [(k, v)]"
| "al_put k v ((k', v') # m) = (if k' = k then (k, v) # m else (k', v') # al_put k v m)"

lemma map_of_al_put [simp]: "map_of (al_put k v m) = (map_of m)(k \<mapsto> v)"
  by (induction k v m rule: al_put.induct) auto

lemma al_put_keys: "fst ` set (al_put k v m) = insert k (fst ` set m)"
  by (induction k v m rule: al_put.induct) auto

lemma distinct_al_put: "distinct (map fst m) \<Longrightarrow> distinct (map fst (al_put k v m))"
proof (induction k v m rule: al_put.induct)
  case (2 k v k' v' m)
  have "fst ` set (al_put k v m) = insert k (fst ` set m)" by (rule al_put_keys)
  with 2 show ?case by auto
qed simp

lemma al_put_mem: "(a, b) \<in> set (al_put k v m) \<Longrightarrow> (a = k \<and> b = v) \<or> (a, b) \<in> set m"
  by (induction k v m rule: al_put.induct) (auto split: if_splits)

section \<open>An injective encoding\<close>

text \<open>A concrete marshaller for the witnesses: strings with an escape before each character.\<close>

definition esc :: "string \<Rightarrow> string" where "esc x = concat (map (\<lambda>c. [CHR ''c'', c]) x) @ ''.''"

fun unesc :: "string list \<Rightarrow> string \<Rightarrow> string \<Rightarrow> string list option" where
  "unesc out cur [] = (if cur = [] then Some out else None)"
| "unesc out cur [c] = (if c = CHR ''.'' then Some (out @ [cur]) else None)"
| "unesc out cur (c # d # r) = (if c = CHR ''.'' then unesc (out @ [cur]) [] (d # r) else unesc out (cur @ [d]) r)"

lemma unesc_dot: "unesc out cur (CHR ''.'' # r) = unesc (out @ [cur]) [] r"
  by (cases r) simp_all

lemma unesc_esc: "unesc out cur (esc x @ r) = unesc (out @ [cur @ x]) [] r"
  by (induction x arbitrary: cur) (simp_all add: esc_def unesc_dot)

lemma unesc_all: "unesc out [] (concat (map esc xs)) = Some (out @ xs)"
  by (induction xs arbitrary: out) (simp_all add: unesc_esc)

end
