(* ===== verification/GoStrings.thy ===== *)
theory GoStrings
  imports Prelude
begin

text \<open>
  The part of Go's \<open>strings\<close>, \<open>strconv\<close> and \<open>unicode/utf8\<close> that the program uses, on byte
  strings: an Isabelle \<open>string\<close> is a list of 8-bit characters, as a Go string is a sequence of
  bytes. White space is Unicode white space recognised in its UTF-8 form, as
  \<open>strings.TrimSpace\<close> and \<open>strings.Fields\<close> do. Case mapping is exact on ASCII; for strings
  with a byte above 127 the Unicode tables of package \<open>unicode\<close> are an argument.
\<close>

section \<open>Characters\<close>

definition ordc :: "char \<Rightarrow> nat" where "ordc c = of_char c"

definition is_lower_c :: "char \<Rightarrow> bool" where "is_lower_c c \<longleftrightarrow> 97 \<le> ordc c \<and> ordc c \<le> 122"
definition is_upper_c :: "char \<Rightarrow> bool" where "is_upper_c c \<longleftrightarrow> 65 \<le> ordc c \<and> ordc c \<le> 90"
definition is_digit_c :: "char \<Rightarrow> bool" where "is_digit_c c \<longleftrightarrow> 48 \<le> ordc c \<and> ordc c \<le> 57"
definition is_ascii_c :: "char \<Rightarrow> bool" where "is_ascii_c c \<longleftrightarrow> ordc c < 128"

definition lower_c :: "char \<Rightarrow> char" where
  "lower_c c = (if is_upper_c c then char_of (ordc c + 32) else c)"
definition upper_c :: "char \<Rightarrow> char" where
  "upper_c c = (if is_lower_c c then char_of (ordc c - 32) else c)"

definition is_ascii :: "string \<Rightarrow> bool" where "is_ascii s \<longleftrightarrow> list_all is_ascii_c s"

text \<open>\<open>strings.ToLower\<close> and \<open>strings.ToUpper\<close>; \<open>u\<close> is the Unicode mapping of non-ASCII strings.\<close>

definition to_lower :: "(string \<Rightarrow> string) \<Rightarrow> string \<Rightarrow> string" where
  "to_lower u s = (if is_ascii s then map lower_c s else u s)"
definition to_upper :: "(string \<Rightarrow> string) \<Rightarrow> string \<Rightarrow> string" where
  "to_upper u s = (if is_ascii s then map upper_c s else u s)"

section \<open>Prefixes, suffixes, searching\<close>

definition has_prefix :: "string \<Rightarrow> string \<Rightarrow> bool" where
  "has_prefix s p \<longleftrightarrow> take (length p) s = p"
definition has_suffix :: "string \<Rightarrow> string \<Rightarrow> bool" where
  "has_suffix s p \<longleftrightarrow> length p \<le> length s \<and> drop (length s - length p) s = p"
definition trim_prefix :: "string \<Rightarrow> string \<Rightarrow> string" where
  "trim_prefix s p = (if has_prefix s p then drop (length p) s else s)"
definition trim_suffix :: "string \<Rightarrow> string \<Rightarrow> string" where
  "trim_suffix s p = (if has_suffix s p then take (length s - length p) s else s)"

fun str_index :: "string \<Rightarrow> string \<Rightarrow> nat option" where
  "str_index [] p = (if p = [] then Some 0 else None)"
| "str_index (c # s) p =
     (if has_prefix (c # s) p then Some 0 else map_option Suc (str_index s p))"

definition str_contains :: "string \<Rightarrow> string \<Rightarrow> bool" where
  "str_contains s p \<longleftrightarrow> str_index s p \<noteq> None"
definition contains_any :: "string \<Rightarrow> string \<Rightarrow> bool" where
  "contains_any s cs \<longleftrightarrow> list_ex (\<lambda>c. c \<in> set cs) s"

fun last_index :: "string \<Rightarrow> char \<Rightarrow> nat option" where
  "last_index [] c = None"
| "last_index (x # s) c =
     (case last_index s c of Some i \<Rightarrow> Some (Suc i) | None \<Rightarrow> if x = c then Some 0 else None)"

definition str_cut :: "string \<Rightarrow> string \<Rightarrow> string \<times> string \<times> bool" where
  "str_cut s p = (case str_index s p of
     None \<Rightarrow> (s, [], False)
   | Some i \<Rightarrow> (take i s, drop (i + length p) s, True))"

text \<open>\<open>strings.Split\<close> with a one-byte separator, \<open>strings.Join\<close>, \<open>strings.ReplaceAll\<close>
  of one byte.\<close>

fun split_on :: "char \<Rightarrow> string \<Rightarrow> string list" where
  "split_on c [] = [[]]"
| "split_on c (x # xs) =
     (if x = c then [] # split_on c xs
      else case split_on c xs of [] \<Rightarrow> [[x]] | y # ys \<Rightarrow> (x # y) # ys)"

fun str_join :: "string \<Rightarrow> string list \<Rightarrow> string" where
  "str_join sep [] = []"
| "str_join sep [x] = x"
| "str_join sep (x # y # ys) = x @ sep @ str_join sep (y # ys)"

definition replace_byte :: "char \<Rightarrow> char \<Rightarrow> string \<Rightarrow> string" where
  "replace_byte a b s = map (\<lambda>c. if c = a then b else c) s"

text \<open>\<open>strings.Trim\<close>, \<open>TrimLeft\<close>, \<open>TrimRight\<close> with a set of ASCII characters.\<close>

definition trim_left_set :: "string \<Rightarrow> string \<Rightarrow> string" where
  "trim_left_set cs s = dropWhile (\<lambda>c. c \<in> set cs) s"
definition trim_right_set :: "string \<Rightarrow> string \<Rightarrow> string" where
  "trim_right_set cs s = rev (dropWhile (\<lambda>c. c \<in> set cs) (rev s))"
definition trim_set :: "string \<Rightarrow> string \<Rightarrow> string" where
  "trim_set cs s = trim_right_set cs (trim_left_set cs s)"

section \<open>White space\<close>

text \<open>The UTF-8 forms of the code points with \<open>unicode.IsSpace\<close>.\<close>

definition ws_seqs :: "string list" where
  "ws_seqs =
     [[CHR 0x20], [CHR 0x09], [CHR 0x0A], [CHR 0x0B], [CHR 0x0C], [CHR 0x0D],
      [CHR 0xC2, CHR 0x85], [CHR 0xC2, CHR 0xA0],
      [CHR 0xE1, CHR 0x9A, CHR 0x80]]
     @ map (\<lambda>n. [CHR 0xE2, CHR 0x80, char_of (n :: nat)]) [0x80..<0x8B]
     @ [[CHR 0xE2, CHR 0x80, CHR 0xA8], [CHR 0xE2, CHR 0x80, CHR 0xA9],
        [CHR 0xE2, CHR 0x80, CHR 0xAF], [CHR 0xE2, CHR 0x81, CHR 0x9F],
        [CHR 0xE3, CHR 0x80, CHR 0x80]]"

definition ws_head :: "string \<Rightarrow> nat" where
  "ws_head s = (case find (has_prefix s) ws_seqs of None \<Rightarrow> 0 | Some p \<Rightarrow> length p)"
definition ws_tail :: "string \<Rightarrow> nat" where
  "ws_tail s = (case find (has_suffix s) ws_seqs of None \<Rightarrow> 0 | Some p \<Rightarrow> length p)"

lemma ws_seqs_nonempty: "p \<in> set ws_seqs \<Longrightarrow> p \<noteq> []"
  by (auto simp: ws_seqs_def)

lemma ws_head_le: "ws_head s \<le> length s"
proof (cases "find (has_prefix s) ws_seqs")
  case (Some p)
  then have "has_prefix s p" by (auto simp: find_Some_iff)
  then have "length (take (length p) s) = length p" by (simp add: has_prefix_def)
  with Some show ?thesis by (simp add: ws_head_def)
qed (simp add: ws_head_def)

lemma ws_tail_le: "ws_tail s \<le> length s"
  by (auto simp: ws_tail_def find_Some_iff has_suffix_def split: option.splits)

lemma ws_shrinks [termination_simp]:
  "0 < ws_head s \<Longrightarrow> length s - ws_head s < length s"
  "0 < ws_tail s \<Longrightarrow> length s - ws_tail s < length s"
  using ws_head_le [of s] ws_tail_le [of s] by linarith+

function trim_left_ws :: "string \<Rightarrow> string" where
  "trim_left_ws s = (if ws_head s = 0 then s else trim_left_ws (drop (ws_head s) s))"
  by pat_completeness auto
termination
  by (relation "measure length") (auto simp: ws_shrinks)

function trim_right_ws :: "string \<Rightarrow> string" where
  "trim_right_ws s =
     (if ws_tail s = 0 then s else trim_right_ws (take (length s - ws_tail s) s))"
  by pat_completeness auto
termination
  by (relation "measure length") (auto simp: min_def dest: ws_shrinks(2))

declare trim_left_ws.simps [simp del] trim_right_ws.simps [simp del]

definition trim_space :: "string \<Rightarrow> string" where
  "trim_space s = trim_right_ws (trim_left_ws s)"

text \<open>\<open>strings.Fields\<close>: the maximal runs without white space. \<open>cur\<close> is the run being read.\<close>

function fields_from :: "string \<Rightarrow> string \<Rightarrow> string list" where
  "fields_from cur s =
     (if s = [] then (if cur = [] then [] else [cur])
      else if ws_head s = 0 then fields_from (cur @ [hd s]) (tl s)
      else (if cur = [] then [] else [cur]) @ fields_from [] (drop (ws_head s) s))"
  by pat_completeness auto
termination
  by (relation "measure (\<lambda>(cur, s). length s)") auto

declare fields_from.simps [simp del]

definition str_fields :: "string \<Rightarrow> string list" where
  "str_fields s = fields_from [] s"

section \<open>Runes\<close>

text \<open>\<open>utf8.DecodeRuneInString\<close>: the number of bytes of the first rune (1 for a malformed byte).\<close>

definition cont_in :: "nat \<Rightarrow> nat \<Rightarrow> string \<Rightarrow> nat \<Rightarrow> bool" where
  "cont_in lo hi s i \<longleftrightarrow> i < length s \<and> lo \<le> ordc (s ! i) \<and> ordc (s ! i) \<le> hi"

definition rune_size :: "string \<Rightarrow> nat" where
  "rune_size s = (case s of [] \<Rightarrow> 0 | c # _ \<Rightarrow>
     let b = ordc c in
     if b < 0xC2 then 1
     else if b \<le> 0xDF then (if cont_in 0x80 0xBF s 1 then 2 else 1)
     else if b \<le> 0xEF then
       (if cont_in (if b = 0xE0 then 0xA0 else 0x80) (if b = 0xED then 0x9F else 0xBF) s 1
           \<and> cont_in 0x80 0xBF s 2 then 3 else 1)
     else if b \<le> 0xF4 then
       (if cont_in (if b = 0xF0 then 0x90 else 0x80) (if b = 0xF4 then 0x8F else 0xBF) s 1
           \<and> cont_in 0x80 0xBF s 2 \<and> cont_in 0x80 0xBF s 3 then 4 else 1)
     else 1)"

function rune_count :: "string \<Rightarrow> nat" where
  "rune_count s = (if s = [] then 0 else Suc (rune_count (drop (max 1 (rune_size s)) s)))"
  by pat_completeness auto
termination
  by (relation "measure length") auto

declare rune_count.simps [simp del]

section \<open>Decimal integers\<close>

fun digits_nat :: "nat \<Rightarrow> string \<Rightarrow> nat option" where
  "digits_nat acc [] = Some acc"
| "digits_nat acc (c # s) =
     (if is_digit_c c then digits_nat (10 * acc + (ordc c - 48)) s else None)"

text \<open>
  \<open>strconv.Atoi\<close> and \<open>ParseInt(s, 10, 64)\<close>: the value and whether the error is nil. Out of
  range the value is clamped and the error set, on malformed text the value is 0.
\<close>

definition go_atoi :: "string \<Rightarrow> int \<times> bool" where
  "go_atoi s =
     (let neg = (case s of c # _ \<Rightarrow> c = CHR ''-'' | [] \<Rightarrow> False);
          body = (case s of c # t \<Rightarrow> if c = CHR ''-'' \<or> c = CHR ''+'' then t else s | [] \<Rightarrow> s)
      in if body = [] then (0, False)
         else case digits_nat 0 body of
           None \<Rightarrow> (0, False)
         | Some n \<Rightarrow>
             if neg then (if int n \<le> 2 ^ 63 then (- int n, True) else (- (2 ^ 63), False))
             else (if int n < 2 ^ 63 then (int n, True) else (2 ^ 63 - 1, False)))"

fun nat_str :: "nat \<Rightarrow> string" where
  "nat_str n = (if n < 10 then [char_of (48 + n)] else nat_str (n div 10) @ [char_of (48 + n mod 10)])"

declare nat_str.simps [simp del]

definition go_itoa :: "int \<Rightarrow> string" where
  "go_itoa i = (if i < 0 then CHR ''-'' # nat_str (nat (- i)) else nat_str (nat i))"

lemma has_prefix_iff: "has_prefix s p \<longleftrightarrow> (\<exists>t. s = p @ t)"
  by (metis append_eq_conv_conj append_take_drop_id has_prefix_def)

lemma has_prefix_append [simp]: "has_prefix (p @ t) p" "has_prefix s []"
  by (auto simp: has_prefix_iff)

lemma has_suffix_iff: "has_suffix s p \<longleftrightarrow> (\<exists>t. s = t @ p)"
proof
  assume "has_suffix s p"
  then show "\<exists>t. s = t @ p"
    by (metis append_take_drop_id has_suffix_def)
qed (auto simp: has_suffix_def)

lemma trim_prefix_append [simp]: "trim_prefix (p @ t) p = t"
  by (simp add: trim_prefix_def)

lemma str_index_Some: "str_index s p = Some i \<Longrightarrow> s = take i s @ p @ drop (i + length p) s"
proof (induction s p arbitrary: i rule: str_index.induct)
  case (1 p)
  then show ?case by (auto split: if_splits)
next
  case (2 c s p)
  show ?case
  proof (cases "has_prefix (c # s) p")
    case True
    with 2 show ?thesis by (auto simp: has_prefix_iff)
  next
    case False
    with "2.prems" obtain j where "str_index s p = Some j" "i = Suc j" by auto
    with 2 False show ?thesis by auto
  qed
qed

lemma str_cut_True: "str_cut s p = (a, b, True) \<Longrightarrow> s = a @ p @ b"
  using str_index_Some by (auto simp: str_cut_def split: option.splits)

lemma str_cut_False: "str_cut s p = (a, b, False) \<Longrightarrow> a = s \<and> b = []"
  by (auto simp: str_cut_def split: option.splits)

lemma split_on_not_Nil [simp]: "split_on c s \<noteq> []"
  by (cases s) (auto split: list.splits)

lemma join_split_on: "str_join [c] (split_on c s) = s"
proof (induction s)
  case (Cons x s)
  obtain y ys where "split_on c s = y # ys" by (cases "split_on c s") auto
  with Cons show ?case by (cases ys) auto
qed simp

lemma split_on_no_sep: "p \<in> set (split_on c s) \<Longrightarrow> c \<notin> set p"
proof (induction s arbitrary: p)
  case (Cons x s)
  obtain y ys where y: "split_on c s = y # ys" by (cases "split_on c s") auto
  show ?case
    using Cons.prems Cons.IH [of p] Cons.IH [of y] y by (auto split: if_splits)
qed simp

lemma split_on_segment: "c \<notin> set s \<Longrightarrow> split_on c s = [s]"
  by (induction s) auto

lemma split_on_append: "c \<notin> set s \<Longrightarrow> split_on c (s @ c # t) = s # split_on c t"
  by (induction s) auto

text \<open>Trimmed strings.\<close>

lemma trim_left_ws_head: "ws_head (trim_left_ws s) = 0"
  by (induction s rule: trim_left_ws.induct) (simp add: trim_left_ws.simps)

lemma trim_right_ws_tail: "ws_tail (trim_right_ws s) = 0"
  by (induction s rule: trim_right_ws.induct) (simp add: trim_right_ws.simps)

lemma ws_head_0_iff: "ws_head s = 0 \<longleftrightarrow> (\<forall>p\<in>set ws_seqs. \<not> has_prefix s p)"
  by (auto simp: ws_head_def find_None_iff find_Some_iff dest: ws_seqs_nonempty split: option.splits)
    (use nth_mem ws_seqs_nonempty in blast)

lemma ws_tail_0_iff: "ws_tail s = 0 \<longleftrightarrow> (\<forall>p\<in>set ws_seqs. \<not> has_suffix s p)"
  by (auto simp: ws_tail_def find_None_iff find_Some_iff dest: ws_seqs_nonempty split: option.splits)
    (use nth_mem ws_seqs_nonempty in blast)

lemma ws_head_take: "ws_head s = 0 \<Longrightarrow> ws_head (take n s) = 0"
  unfolding ws_head_0_iff has_prefix_iff by (metis append.assoc append_take_drop_id)

lemma trim_right_ws_take: "\<exists>n. trim_right_ws s = take n s"
proof (induction s rule: trim_right_ws.induct)
  case (1 s)
  show ?case
  proof (cases "ws_tail s = 0")
    case True
    then show ?thesis by (auto simp: trim_right_ws.simps [of s] intro: exI [of _ "length s"])
  next
    case False
    then show ?thesis using "1.IH" by (auto simp: trim_right_ws.simps [of s])
  qed
qed

lemma trim_space_no_ws [simp]: "ws_head (trim_space s) = 0" "ws_tail (trim_space s) = 0"
  using trim_right_ws_take [of "trim_left_ws s"]
  by (auto simp: trim_space_def trim_right_ws_tail ws_head_take trim_left_ws_head)

lemma trim_space_id: "ws_head s = 0 \<Longrightarrow> ws_tail s = 0 \<Longrightarrow> trim_space s = s"
  by (simp add: trim_space_def trim_left_ws.simps trim_right_ws.simps)

lemma trim_space_idem [simp]: "trim_space (trim_space s) = trim_space s"
  by (simp add: trim_space_id)

text \<open>A string of ASCII characters above the space is its own trimmed form.\<close>

definition plain_c :: "char \<Rightarrow> bool" where "plain_c c \<longleftrightarrow> 32 < ordc c \<and> ordc c < 128"

lemma ws_seqs_not_plain: "p \<in> set ws_seqs \<Longrightarrow> c \<in> set p \<Longrightarrow> \<not> plain_c c"
  by (auto simp: ws_seqs_def plain_c_def ordc_def)

lemma plain_no_ws:
  assumes "list_all plain_c s"
  shows "ws_head s = 0" "ws_tail s = 0"
proof -
  have "\<not> has_prefix s p \<and> \<not> has_suffix s p" if "p \<in> set ws_seqs" for p
  proof -
    from ws_seqs_nonempty [OF that] obtain c where "c \<in> set p" by (cases p) auto
    then have "\<not> plain_c c" using that ws_seqs_not_plain by blast
    with assms \<open>c \<in> set p\<close> show ?thesis
      by (auto simp: has_prefix_iff has_suffix_iff list_all_iff)
  qed
  then show "ws_head s = 0" "ws_tail s = 0"
    by (simp_all add: ws_head_0_iff ws_tail_0_iff)
qed

text \<open>Evaluation: a string that starts or ends with a plain character or with one space.\<close>

lemma ws_find_none:
  assumes "plain_c c"
  shows "find (has_prefix (c # s)) ws_seqs = None" "find (has_suffix (s @ [c])) ws_seqs = None"
proof -
  have "\<not> has_prefix (c # s) p \<and> \<not> has_suffix (s @ [c]) p" if p: "p \<in> set ws_seqs" for p
  proof -
    have "p \<noteq> []" using p by (rule ws_seqs_nonempty)
    moreover have "c \<notin> set p" using assms ws_seqs_not_plain [OF p] by blast
    then have "hd p \<noteq> c" "last p \<noteq> c" using \<open>p \<noteq> []\<close> by auto
    moreover have "c # s = p @ t \<Longrightarrow> hd p = c" "s @ [c] = t @ p \<Longrightarrow> last p = c" for t
      using \<open>p \<noteq> []\<close> by (metis hd_append2 list.sel(1), metis last_appendR last_snoc)
    ultimately show ?thesis by (auto simp: has_prefix_iff has_suffix_iff)
  qed
  then show "find (has_prefix (c # s)) ws_seqs = None" "find (has_suffix (s @ [c])) ws_seqs = None"
    by (simp_all add: find_None_iff)
qed

lemma ws_head_code [code]:
  "ws_head s = (if s = [] then 0
     else if plain_c (hd s) then 0 else if hd s = CHR 0x20 then 1
     else case find (has_prefix s) ws_seqs of None \<Rightarrow> 0 | Some p \<Rightarrow> length p)"
proof (cases s)
  case (Cons c t)
  show ?thesis
  proof (cases "plain_c c")
    case True
    then show ?thesis using Cons ws_find_none(1) [of c t] by (simp add: ws_head_def)
  next
    case False
    have "c = CHR 0x20 \<Longrightarrow> ws_head s = 1" using Cons
      by (simp add: ws_head_def ws_seqs_def has_prefix_def)
    then show ?thesis using Cons False by (auto simp: ws_head_def)
  qed
qed (simp add: ws_head_def ws_seqs_def has_prefix_def)

lemma ws_tail_code [code]:
  "ws_tail s = (if s = [] then 0
     else if plain_c (last s) then 0 else if last s = CHR 0x20 then 1
     else case find (has_suffix s) ws_seqs of None \<Rightarrow> 0 | Some p \<Rightarrow> length p)"
proof (cases s rule: rev_cases)
  case (snoc t c)
  show ?thesis
  proof (cases "plain_c c")
    case True
    then show ?thesis using snoc ws_find_none(2) [of c t] by (simp add: ws_tail_def)
  next
    case False
    have "c = CHR 0x20 \<Longrightarrow> ws_tail s = 1" using snoc
      by (simp add: ws_tail_def ws_seqs_def has_suffix_def)
    then show ?thesis using snoc False by (auto simp: ws_tail_def)
  qed
qed (simp add: ws_tail_def ws_seqs_def has_suffix_def)

lemma trim_space_plain [simp]: "list_all plain_c s \<Longrightarrow> trim_space s = s"
  by (simp add: plain_no_ws trim_space_id)

text \<open>Decimal round trip.\<close>

lemma ordc_char_of [simp]: "n < 256 \<Longrightarrow> ordc (char_of n) = n"
  by (simp add: ordc_def)

lemma digits_nat_append:
  "digits_nat acc (s @ t) = (case digits_nat acc s of None \<Rightarrow> None | Some n \<Rightarrow> digits_nat n t)"
  by (induction s arbitrary: acc) auto

lemma digits_nat_str: "digits_nat 0 (nat_str n) = Some n"
proof (induction n rule: nat_str.induct)
  case (1 n)
  show ?case
    by (cases "n < 10") (use 1 in \<open>auto simp: nat_str.simps [of n] digits_nat_append is_digit_c_def\<close>)
qed

text \<open>The same over integers, for evaluation.\<close>

function int_str :: "int \<Rightarrow> string" where
  "int_str i = (if i < 10 then [char_of (48 + nat i)] else int_str (i div 10) @ [char_of (48 + nat (i mod 10))])"
  by pat_completeness auto
termination
  by (relation "measure nat") auto

declare int_str.simps [simp del]

lemma nat_str_int [code]: "nat_str n = int_str (int n)"
proof (induction n rule: nat_str.induct)
  case (1 n)
  then show ?case
    by (subst nat_str.simps, subst int_str.simps) (simp add: zdiv_int nat_mod_distrib)
qed
fun digits_int :: "int \<Rightarrow> string \<Rightarrow> int option" where
  "digits_int acc [] = Some acc"
| "digits_int acc (c # s) = (if is_digit_c c then digits_int (10 * acc + int (ordc c - 48)) s else None)"

lemma digits_int: "digits_int (int acc) s = map_option int (digits_nat acc s)"
proof (induction s arbitrary: acc)
  case (Cons c s)
  show ?case using Cons.IH [of "10 * acc + (ordc c - 48)"] by simp
qed simp

lemma go_atoi_code [code]:
  "go_atoi s =
     (let neg = (case s of c # _ \<Rightarrow> c = CHR ''-'' | [] \<Rightarrow> False);
          body = (case s of c # t \<Rightarrow> if c = CHR ''-'' \<or> c = CHR ''+'' then t else s | [] \<Rightarrow> s)
      in if body = [] then (0, False)
         else case digits_int 0 body of
           None \<Rightarrow> (0, False)
         | Some n \<Rightarrow>
             if neg then (if n \<le> 2 ^ 63 then (- n, True) else (- (2 ^ 63), False))
             else (if n < 2 ^ 63 then (n, True) else (2 ^ 63 - 1, False)))"
proof -
  have d: "digits_int 0 t = map_option int (digits_nat 0 t)" for t using digits_int [of 0 t] by simp
  show ?thesis unfolding go_atoi_def Let_def d case_map_option comp_def by (rule refl)
qed

lemma nat_str_digits: "list_all is_digit_c (nat_str n)"
proof (induction n rule: nat_str.induct)
  case (1 n)
  then show ?case by (subst nat_str.simps) (auto simp: is_digit_c_def [of "char_of _"])
qed

lemma nat_str_not_Nil [simp]: "nat_str n \<noteq> []"
  by (subst nat_str.simps) simp

lemma atoi_itoa:
  assumes "- (2 ^ 63) \<le> i" "i < 2 ^ 63"
  shows "go_atoi (go_itoa i) = (i, True)"
proof (cases "i < 0")
  case True
  then show ?thesis using assms by (simp add: go_atoi_def go_itoa_def digits_nat_str nat_le_iff)
next
  case False
  obtain c t where ct: "nat_str (nat i) = c # t" by (cases "nat_str (nat i)") auto
  then have "is_digit_c c" using nat_str_digits [of "nat i"] by simp
  then have "c \<noteq> CHR ''-''" "c \<noteq> CHR ''+''" by (auto simp: is_digit_c_def ordc_def)
  with False assms ct digits_nat_str [of "nat i"] show ?thesis
    by (simp add: go_atoi_def go_itoa_def nat_less_iff)
qed

text \<open>Two's complement wrap-around of a 64-bit \<open>int\<close>.\<close>

definition wrap64 :: "int \<Rightarrow> int" where
  "wrap64 x = (x + 2 ^ 63) mod 2 ^ 64 - 2 ^ 63"

lemma wrap64_id: "- (2 ^ 63) \<le> x \<Longrightarrow> x < 2 ^ 63 \<Longrightarrow> wrap64 x = x"
  by (simp add: wrap64_def)

lemma wrap64_range: "- (2 ^ 63) \<le> wrap64 x" "wrap64 x < 2 ^ 63"
proof -
  have "0 \<le> (x + 2 ^ 63) mod 2 ^ 64" "(x + 2 ^ 63) mod 2 ^ 64 < (2 ^ 64 :: int)" by simp_all
  then show "- (2 ^ 63) \<le> wrap64 x" "wrap64 x < 2 ^ 63" by (simp_all add: wrap64_def)
qed

text \<open>\<open>hex.EncodeToString\<close>.\<close>

definition hex_digit :: "nat \<Rightarrow> char" where
  "hex_digit n = ''0123456789abcdef'' ! n"

definition hex_encode :: "byte list \<Rightarrow> string" where
  "hex_encode bs = concat (map (\<lambda>b. [hex_digit (unat b div 16), hex_digit (unat b mod 16)]) bs)"

lemma length_hex_encode [simp]: "length (hex_encode bs) = 2 * length bs"
  by (induction bs) (simp_all add: hex_encode_def)

section \<open>Regular expressions for names\<close>

text \<open>\<open>^[first][rest]{0,n}$\<close>: a byte of one set and at most \<open>n\<close> of the other.\<close>

definition match_name :: "(char \<Rightarrow> bool) \<Rightarrow> (char \<Rightarrow> bool) \<Rightarrow> nat \<Rightarrow> string \<Rightarrow> bool" where
  "match_name first rest n s =
     (case s of [] \<Rightarrow> False | c # t \<Rightarrow> first c \<and> list_all rest t \<and> length t \<le> n)"

definition lower_digit :: "char \<Rightarrow> bool" where "lower_digit c \<longleftrightarrow> is_lower_c c \<or> is_digit_c c"
definition alpha_digit :: "char \<Rightarrow> bool" where
  "alpha_digit c \<longleftrightarrow> is_lower_c c \<or> is_upper_c c \<or> is_digit_c c"

lemma match_name_code [code]:
  "match_name first rest n s =
     (case s of [] \<Rightarrow> False | c # t \<Rightarrow> first c \<and> list_all rest t \<and> int (length t) \<le> int n)"
  by (simp add: match_name_def split: list.split)

end
