(* ===== verification/Idl.thy ===== *)
theory Idl
  imports GoStrings
begin

text \<open>
  Package \<open>idl\<close> (idl/idl.go): the contract (service, structs, field ids) and its line-based
  parser. The Go map \<open>Structs\<close> is an association list with one entry per key. The pointer
  \<open>cur\<close> that \<open>Parse\<close> keeps to the struct being read is the key of its entry. Errors carry
  the data their messages are made of.
\<close>

section \<open>Data\<close>

record field =
  f_ID :: int
  f_Type :: string
  f_Name :: string

record strct =
  st_Name :: string
  st_Fields :: "field list"

record imethod =
  m_Name :: string
  m_Req :: string
  m_Resp :: string
  m_HTTPMethod :: string
  m_URI :: string

record spec =
  sp_Service :: string
  sp_Methods :: "imethod list"
  sp_Structs :: "(string \<times> strct) list"

datatype idl_err =
    EmptyServiceName | EmptyStructName | Unexpected string
  | BadMethod string | BadField string | BadFieldId string | UnsupportedType string
  | EmptyReq | LineTooLong
  | MissingService | NoMethods | UnknownStruct string
  | MethodReq string idl_err | MethodResp string idl_err
  | FieldReused string int string string

section \<open>Lookups\<close>

definition spec_Method :: "spec \<Rightarrow> string \<Rightarrow> imethod option" where
  "spec_Method s name = find (\<lambda>m. m_Name m = name) (sp_Methods s)"

definition spec_Struct :: "spec \<Rightarrow> string \<Rightarrow> idl_err + strct" where
  "spec_Struct s name = (case map_of (sp_Structs s) name of
     None \<Rightarrow> Inl (UnknownStruct name) | Some st \<Rightarrow> Inr st)"

definition FieldByID :: "strct \<Rightarrow> int \<Rightarrow> field option" where
  "FieldByID st i = find (\<lambda>f. f_ID f = i) (st_Fields st)"

definition FieldByName :: "strct \<Rightarrow> string \<Rightarrow> field option" where
  "FieldByName st n = find (\<lambda>f. f_Name f = n) (st_Fields st)"

section \<open>Validation\<close>

fun check_methods :: "spec \<Rightarrow> imethod list \<Rightarrow> idl_err + unit" where
  "check_methods s [] = Inr ()"
| "check_methods s (m # ms) =
     (case spec_Struct s (m_Req m) of Inl e \<Rightarrow> Inl (MethodReq (m_Name m) e)
      | Inr _ \<Rightarrow> (case spec_Struct s (m_Resp m) of Inl e \<Rightarrow> Inl (MethodResp (m_Name m) e)
                  | Inr _ \<Rightarrow> check_methods s ms))"

fun check_ids :: "string \<Rightarrow> (int \<rightharpoonup> string) \<Rightarrow> field list \<Rightarrow> idl_err + unit" where
  "check_ids sn seen [] = Inr ()"
| "check_ids sn seen (f # fs) =
     (case seen (f_ID f) of Some prev \<Rightarrow> Inl (FieldReused sn (f_ID f) prev (f_Name f))
      | None \<Rightarrow> check_ids sn (seen(f_ID f \<mapsto> f_Name f)) fs)"

fun check_structs :: "(string \<times> strct) list \<Rightarrow> idl_err + unit" where
  "check_structs [] = Inr ()"
| "check_structs ((_, st) # sts) =
     bindR (check_ids (st_Name st) Map.empty (st_Fields st)) (\<lambda>_. check_structs sts)"

definition validate :: "spec \<Rightarrow> idl_err + unit" where
  "validate s =
     (if sp_Service s = [] then Inl MissingService
      else if sp_Methods s = [] then Inl NoMethods
      else bindR (check_methods s (sp_Methods s)) (\<lambda>_. check_structs (sp_Structs s)))"

section \<open>Names of the generated code\<close>

definition GoName :: "(string \<Rightarrow> string) \<Rightarrow> string \<Rightarrow> string" where
  "GoName u name =
     (if name = ''id'' then ''ID''
      else if name = [] then []
      else if is_ascii name then upper_c (hd name) # tl name
      else u name)"

definition GoType :: "string \<Rightarrow> string" where
  "GoType t = (if t = ''i64'' then ''int64'' else if t = ''string'' then ''string''
               else if t = ''bool'' then ''bool'' else t)"

section \<open>Lines\<close>

definition cut_at :: "string \<Rightarrow> string \<Rightarrow> string" where
  "cut_at s p = (case str_index s p of Some i \<Rightarrow> take i s | None \<Rightarrow> s)"

definition stripComment :: "string \<Rightarrow> string" where
  "stripComment s = trim_space (cut_at (cut_at s ''#'') ''//'')"

text \<open>Annotations: from the last byte backwards, the parenthesis that closes at depth 0.\<close>

fun annot_open :: "string \<Rightarrow> int \<Rightarrow> nat \<Rightarrow> nat option" where
  "annot_open line depth 0 = None"
| "annot_open line depth (Suc i) =
     (if line ! i = CHR '')'' then annot_open line (depth + 1) i
      else if line ! i = CHR ''('' then
        (if depth - 1 \<noteq> 0 then annot_open line (depth - 1) i else Some i)
      else annot_open line depth i)"

definition splitAnnot :: "string \<Rightarrow> string \<times> string" where
  "splitAnnot line0 =
     (let line = trim_space line0 in
      if \<not> has_suffix line '')'' then (line, [])
      else case annot_open line 0 (length line) of
        None \<Rightarrow> (line, [])
      | Some i \<Rightarrow>
          (let inner = drop (i + 1) (take (length line - 1) line) in
           if str_contains inner ''='' \<or> str_contains inner ''agw.''
           then (trim_space (take i line), inner) else (line, [])))"

definition kv_add :: "(string \<times> string) list \<Rightarrow> string \<Rightarrow> (string \<times> string) list" where
  "kv_add out p =
     (case str_cut (trim_space p) ''='' of
        (k, v, ok) \<Rightarrow>
          if ok then al_put (trim_space k) (trim_set [CHR 0x22, CHR 0x27] (trim_space v)) out else out)"

definition parseKV :: "string \<Rightarrow> (string \<times> string) list" where
  "parseKV annot = (if annot = [] then [] else foldl kv_add [] (split_on (CHR '','') annot))"

definition parseReqType :: "string \<Rightarrow> idl_err + string" where
  "parseReqType inside0 =
     (let inside = trim_space inside0 in
      if inside = [] then Inl EmptyReq
      else case str_index inside '':'' of
        Some colon \<Rightarrow>
          (case str_fields (trim_space (drop (colon + 1) inside)) of
             [] \<Rightarrow> Inl EmptyReq | r # _ \<Rightarrow> Inr r)
      | None \<Rightarrow> Inr inside)"

definition parseMethodCore :: "string \<Rightarrow> idl_err + (string \<times> string \<times> string)" where
  "parseMethodCore line =
     (case (str_index line ''('', last_index line (CHR '')'')) of
        (Some i, Some j) \<Rightarrow>
          if i < 1 \<or> j < i then Inl (BadMethod line)
          else
            (let before = str_fields (trim_space (take i line));
                 inside = trim_space (drop (i + 1) (take j line));
                 after = trim_space (drop (j + 1) line)
             in case parseReqType inside of
                  Inl _ \<Rightarrow> Inl (BadMethod line)
                | Inr req \<Rightarrow>
                    (let r = (case before of
                                [a] \<Rightarrow> Some (a, after)
                              | [a, b] \<Rightarrow> Some (b, a)
                              | _ \<Rightarrow> None)
                     in case r of
                          None \<Rightarrow> Inl (BadMethod line)
                        | Some (name, resp) \<Rightarrow>
                            if name = [] \<or> req = [] \<or> resp = [] then Inl (BadMethod line)
                            else Inr (name, req, resp)))
      | _ \<Rightarrow> Inl (BadMethod line))"

definition clean_line :: "string \<Rightarrow> string" where
  "clean_line line = trim_space (trim_suffix (trim_suffix line '';'') '','')"

definition parseMethod :: "(string \<Rightarrow> string) \<Rightarrow> string \<Rightarrow> idl_err + imethod" where
  "parseMethod u line0 =
     (let line = clean_line line0; (core, annot) = splitAnnot line in
      bindR (parseMethodCore core) (\<lambda>(name, req, resp).
        let kv = map_of (parseKV annot) in
        Inr \<lparr>m_Name = name, m_Req = req, m_Resp = resp,
             m_HTTPMethod = (case kv ''agw.method'' of Some v \<Rightarrow> to_upper u v | None \<Rightarrow> []),
             m_URI = (case kv ''agw.uri'' of Some v \<Rightarrow> v | None \<Rightarrow> [])\<rparr>))"

definition field_types :: "string list" where
  "field_types = [''i64'', ''string'', ''bool'']"

definition parseField :: "string \<Rightarrow> idl_err + field" where
  "parseField line0 =
     (let line = clean_line line0;
          core0 = fst (splitAnnot line);
          core = (case str_index core0 ''='' of Some i \<Rightarrow> trim_space (take i core0) | None \<Rightarrow> core0)
      in case str_index core '':'' of
           None \<Rightarrow> Inl (BadField line)
         | Some colon \<Rightarrow>
             if colon < 1 then Inl (BadField line)
             else case go_atoi (trim_space (take colon core)) of (i, ok) \<Rightarrow>
               if \<not> ok then Inl (BadFieldId line)
               else
                 (let rest0 = str_fields (trim_space (drop (colon + 1) core));
                      rest = (if length rest0 = 3 \<and> hd rest0 \<in> set [''required'', ''optional'']
                              then tl rest0 else rest0)
                  in case rest of
                       [ty, nm] \<Rightarrow>
                         if ty \<notin> set field_types then Inl (UnsupportedType ty)
                         else Inr \<lparr>f_ID = i, f_Type = ty, f_Name = nm\<rparr>
                     | _ \<Rightarrow> Inl (BadField line)))"

section \<open>The parser\<close>

text \<open>
  \<open>bufio.Scanner\<close> on the text: lines without their newline and one trailing carriage
  return; a line of 65536 bytes or more stops the scan with \<open>ErrTooLong\<close>.
\<close>

definition raw_lines :: "string \<Rightarrow> string list" where
  "raw_lines s = (let ls = split_on (CHR 0x0A) s in if last ls = [] then butlast ls else ls)"

definition short_line :: "string \<Rightarrow> bool" where "short_line l \<longleftrightarrow> length l < 65536"

lemma short_line_code [code]: "short_line l \<longleftrightarrow> int (length l) < 65536"
  by (simp add: short_line_def)

definition scan_lines :: "string \<Rightarrow> string list \<times> bool" where
  "scan_lines s =
     (map (\<lambda>l. trim_suffix l [CHR 0x0D]) (takeWhile short_line (raw_lines s)),
      list_all short_line (raw_lines s))"

datatype pmode = StTop | StService | StStruct

record pstate =
  ps_spec :: spec
  ps_mode :: pmode
  ps_cur :: "string option"

definition init_pstate :: pstate where
  "init_pstate = \<lparr>ps_spec = \<lparr>sp_Service = [], sp_Methods = [], sp_Structs = []\<rparr>,
                  ps_mode = StTop, ps_cur = None\<rparr>"

definition decl_name :: "string \<Rightarrow> string \<Rightarrow> string" where
  "decl_name kw line = trim_space (trim_suffix (trim_prefix line kw) ''{'')"

definition add_field :: "string \<Rightarrow> field \<Rightarrow> spec \<Rightarrow> spec" where
  "add_field n f sp = (case map_of (sp_Structs sp) n of
     None \<Rightarrow> sp
   | Some st \<Rightarrow> sp\<lparr>sp_Structs := al_put n (st\<lparr>st_Fields := st_Fields st @ [f]\<rparr>) (sp_Structs sp)\<rparr>)"

definition top_line :: "string \<Rightarrow> pstate \<Rightarrow> idl_err + pstate" where
  "top_line line ps =
     (if list_ex (has_prefix line) [''namespace '', ''include '', ''const '', ''typedef ''] then Inr ps
      else if has_prefix line ''service '' then
        (let n = decl_name ''service '' line in
         if n = [] then Inl EmptyServiceName
         else Inr (ps\<lparr>ps_spec := (ps_spec ps)\<lparr>sp_Service := n\<rparr>, ps_mode := StService\<rparr>))
      else if has_prefix line ''struct '' then
        (let n = decl_name ''struct '' line in
         if n = [] then Inl EmptyStructName
         else Inr (ps\<lparr>ps_spec := (ps_spec ps)\<lparr>sp_Structs :=
                        al_put n \<lparr>st_Name = n, st_Fields = []\<rparr> (sp_Structs (ps_spec ps))\<rparr>,
                      ps_mode := StStruct, ps_cur := Some n\<rparr>))
      else Inl (Unexpected line))"

definition parse_line :: "(string \<Rightarrow> string) \<Rightarrow> string \<Rightarrow> pstate \<Rightarrow> idl_err + pstate" where
  "parse_line u text ps =
     (let line = stripComment text in
      if line = [] \<or> line = ''{'' then Inr ps
      else if has_prefix line ''}'' then Inr (ps\<lparr>ps_mode := StTop, ps_cur := None\<rparr>)
      else case ps_mode ps of
        StTop \<Rightarrow> top_line line ps
      | StService \<Rightarrow>
          bindR (parseMethod u line) (\<lambda>m.
            Inr (ps\<lparr>ps_spec := (ps_spec ps)\<lparr>sp_Methods := sp_Methods (ps_spec ps) @ [m]\<rparr>\<rparr>))
      | StStruct \<Rightarrow>
          bindR (parseField line) (\<lambda>f.
            Inr (case ps_cur ps of
                   None \<Rightarrow> ps
                 | Some n \<Rightarrow> ps\<lparr>ps_spec := add_field n f (ps_spec ps)\<rparr>)))"

fun parse_lines :: "(string \<Rightarrow> string) \<Rightarrow> string list \<Rightarrow> pstate \<Rightarrow> idl_err + pstate" where
  "parse_lines u [] ps = Inr ps"
| "parse_lines u (l # ls) ps = bindR (parse_line u l ps) (parse_lines u ls)"

definition Parse :: "(string \<Rightarrow> string) \<Rightarrow> string \<Rightarrow> idl_err + spec" where
  "Parse u txt =
     (case scan_lines txt of (ls, whole) \<Rightarrow>
        bindR (parse_lines u ls init_pstate) (\<lambda>ps.
          if \<not> whole then Inl LineTooLong
          else bindR (validate (ps_spec ps)) (\<lambda>_. Inr (ps_spec ps))))"

section \<open>Well-formed specifications\<close>

definition wf_struct :: "string \<Rightarrow> strct \<Rightarrow> bool" where
  "wf_struct n st \<longleftrightarrow> st_Name st = n \<and>
     (\<forall>f\<in>set (st_Fields st). f_Type f \<in> set field_types \<and> f_Name f \<noteq> [])"

definition wf_structs :: "(string \<times> strct) list \<Rightarrow> bool" where
  "wf_structs sts \<longleftrightarrow> distinct (map fst sts) \<and> (\<forall>(n, st)\<in>set sts. wf_struct n st)"

definition wf_spec :: "spec \<Rightarrow> bool" where
  "wf_spec s \<longleftrightarrow> sp_Service s \<noteq> [] \<and> sp_Methods s \<noteq> [] \<and> wf_structs (sp_Structs s) \<and>
     (\<forall>m\<in>set (sp_Methods s). m_Name m \<noteq> [] \<and>
        m_Req m \<in> dom (map_of (sp_Structs s)) \<and> m_Resp m \<in> dom (map_of (sp_Structs s))) \<and>
     (\<forall>(n, st)\<in>set (sp_Structs s). distinct (map f_ID (st_Fields st)))"

lemma check_ids_iff:
  "check_ids sn seen fs = Inr u \<longleftrightarrow>
     distinct (map f_ID fs) \<and> (\<forall>f\<in>set fs. seen (f_ID f) = None)"
proof (induction fs arbitrary: seen)
  case (Cons f fs)
  show ?case
  proof (cases "seen (f_ID f)")
    case None
    then have eq: "check_ids sn seen (f # fs) = check_ids sn (seen(f_ID f \<mapsto> f_Name f)) fs" by simp
    have "check_ids sn seen (f # fs) = Inr u \<longleftrightarrow> distinct (map f_ID fs) \<and>
        (\<forall>g\<in>set fs. (seen(f_ID f \<mapsto> f_Name f)) (f_ID g) = None)"
      unfolding eq by (rule Cons.IH)
    then show ?thesis by (rule trans) (use None in \<open>simp, metis imageE image_eqI option.distinct(1)\<close>)
  qed simp
qed simp

lemma check_structs_iff:
  "check_structs sts = Inr u \<longleftrightarrow> (\<forall>(n, st)\<in>set sts. distinct (map f_ID (st_Fields st)))"
  by (induction sts rule: check_structs.induct) (auto simp: bindR_eq_Inr check_ids_iff)

lemma check_methods_iff:
  "check_methods s ms = Inr u \<longleftrightarrow>
     (\<forall>m\<in>set ms. m_Req m \<in> dom (map_of (sp_Structs s)) \<and> m_Resp m \<in> dom (map_of (sp_Structs s)))"
  by (induction s ms rule: check_methods.induct)
    (auto simp: spec_Struct_def dom_def split: sum.splits option.splits)

lemma validate_iff:
  "validate s = Inr u \<longleftrightarrow> sp_Service s \<noteq> [] \<and> sp_Methods s \<noteq> [] \<and>
     (\<forall>m\<in>set (sp_Methods s).
        m_Req m \<in> dom (map_of (sp_Structs s)) \<and> m_Resp m \<in> dom (map_of (sp_Structs s))) \<and>
     (\<forall>(n, st)\<in>set (sp_Structs s). distinct (map f_ID (st_Fields st)))"
  by (simp add: validate_def bindR_eq_Inr check_methods_iff check_structs_iff)

lemma fields_from_nonempty: "f \<in> set (fields_from cur s) \<Longrightarrow> f \<noteq> []"
  by (induction cur s rule: fields_from.induct)
    (subst (asm) (2) fields_from.simps, auto split: if_splits)

lemma str_fields_nonempty: "f \<in> set (str_fields s) \<Longrightarrow> f \<noteq> []"
  by (simp add: str_fields_def fields_from_nonempty)

lemma str_fields_second:
  "str_fields s = [a, b] \<Longrightarrow> b \<noteq> []" "tl (str_fields s) = [a, b] \<Longrightarrow> b \<noteq> []"
  using str_fields_nonempty [of b s] by (force, cases "str_fields s") auto

lemma parseField_wf: "parseField l = Inr f \<Longrightarrow> f_Type f \<in> set field_types \<and> f_Name f \<noteq> []"
  unfolding parseField_def Let_def
  by (auto split: option.splits if_splits prod.splits list.splits dest: str_fields_second)

lemma parseMethod_wf: "parseMethod u l = Inr m \<Longrightarrow> m_Name m \<noteq> []"
  by (auto simp: parseMethod_def parseMethodCore_def bindR_eq_Inr Let_def
      split: prod.splits option.splits if_splits sum.splits list.splits)

definition wf_pstate :: "pstate \<Rightarrow> bool" where
  "wf_pstate ps \<longleftrightarrow> wf_structs (sp_Structs (ps_spec ps)) \<and>
     (\<forall>m\<in>set (sp_Methods (ps_spec ps)). m_Name m \<noteq> []) \<and>
     (ps_mode ps = StStruct \<longrightarrow>
        (\<exists>n. ps_cur ps = Some n \<and> n \<in> dom (map_of (sp_Structs (ps_spec ps)))))"

lemma wf_structs_put:
  "wf_structs sts \<Longrightarrow> wf_struct n st \<Longrightarrow> wf_structs (al_put n st sts)"
  by (fastforce simp: wf_structs_def distinct_al_put dest: al_put_mem)

lemma wf_pstate_init: "wf_pstate init_pstate"
  by (simp add: wf_pstate_def init_pstate_def wf_structs_def)

lemma wf_struct_new [simp]: "wf_struct n \<lparr>st_Name = n, st_Fields = []\<rparr>"
  by (simp add: wf_struct_def)

lemma top_line_cases:
  assumes "top_line l ps = Inr ps'"
  obtains (skip) "ps' = ps"
    | (service) n where "n \<noteq> []"
        "ps' = ps\<lparr>ps_spec := (ps_spec ps)\<lparr>sp_Service := n\<rparr>, ps_mode := StService\<rparr>"
    | (struct) n where "n \<noteq> []"
        "ps' = ps\<lparr>ps_spec := (ps_spec ps)\<lparr>sp_Structs :=
                   al_put n \<lparr>st_Name = n, st_Fields = []\<rparr> (sp_Structs (ps_spec ps))\<rparr>,
                 ps_mode := StStruct, ps_cur := Some n\<rparr>"
  using assms unfolding top_line_def Let_def
  by (simp only: sum.inject sum.distinct split: if_split_asm)

lemma top_line_wf:
  assumes "wf_pstate ps" and "top_line l ps = Inr ps'"
  shows "wf_pstate ps'"
  using assms(2)
proof (cases rule: top_line_cases)
  case (struct n)
  then show ?thesis using assms(1) by (simp add: wf_pstate_def wf_structs_put)
qed (use assms(1) in \<open>simp_all add: wf_pstate_def\<close>)

lemma add_field_wf:
  assumes wf: "wf_pstate ps" and f: "parseField l = Inr f" and m: "ps_mode ps = StStruct"
    and n: "ps_cur ps = Some n"
  shows "wf_pstate (ps\<lparr>ps_spec := add_field n f (ps_spec ps)\<rparr>)"
proof -
  obtain st where st: "map_of (sp_Structs (ps_spec ps)) n = Some st"
    using wf m n by (auto simp: wf_pstate_def)
  have "wf_struct n st" using wf map_of_SomeD [OF st] by (auto simp: wf_pstate_def wf_structs_def)
  then have "wf_struct n (st\<lparr>st_Fields := st_Fields st @ [f]\<rparr>)"
    using parseField_wf [OF f] by (simp add: wf_struct_def)
  then show ?thesis using wf n st m
    by (simp add: wf_pstate_def add_field_def wf_structs_put)
qed

lemma parse_line_cases:
  assumes "parse_line u l ps = Inr ps'"
  obtains (blank) "ps' = ps"
    | (close) "ps' = ps\<lparr>ps_mode := StTop, ps_cur := None\<rparr>"
    | (top) "ps_mode ps = StTop" "top_line (stripComment l) ps = Inr ps'"
    | (service) m where "ps_mode ps = StService" "parseMethod u (stripComment l) = Inr m"
        "ps' = ps\<lparr>ps_spec := (ps_spec ps)\<lparr>sp_Methods := sp_Methods (ps_spec ps) @ [m]\<rparr>\<rparr>"
    | (struct) f where "ps_mode ps = StStruct" "parseField (stripComment l) = Inr f"
        "ps' = (case ps_cur ps of None \<Rightarrow> ps
                | Some n \<Rightarrow> ps\<lparr>ps_spec := add_field n f (ps_spec ps)\<rparr>)"
proof -
  let ?l = "stripComment l"
  consider "?l = [] \<or> ?l = ''{''" | "\<not> (?l = [] \<or> ?l = ''{'')" "has_prefix ?l ''}''"
    | "\<not> (?l = [] \<or> ?l = ''{'')" "\<not> has_prefix ?l ''}''" by blast
  then show thesis
  proof cases
    case 1
    with assms show thesis by (intro blank) (simp add: parse_line_def Let_def)
  next
    case 2
    with assms show thesis by (intro close) (simp add: parse_line_def Let_def)
  next
    case 3
    show thesis
    proof (cases "ps_mode ps")
      case StTop
      with 3 assms show thesis by (intro top) (simp_all add: parse_line_def Let_def)
    next
      case StService
      with 3 assms show thesis
        by (simp add: parse_line_def Let_def bindR_eq_Inr) (metis service)
    next
      case StStruct
      with 3 assms show thesis
        by (simp add: parse_line_def Let_def bindR_eq_Inr) (metis struct)
    qed
  qed
qed

lemma parse_line_wf:
  assumes wf: "wf_pstate ps" and p: "parse_line u l ps = Inr ps'"
  shows "wf_pstate ps'"
  using p
proof (cases rule: parse_line_cases)
  case (service m)
  then show ?thesis using wf parseMethod_wf [of u "stripComment l" m]
    by (simp add: wf_pstate_def)
next
  case (struct f)
  then show ?thesis using wf add_field_wf [OF wf struct(2,1)] by (simp split: option.splits)
next
  case top
  then show ?thesis using wf top_line_wf by blast
qed (use wf in \<open>simp_all add: wf_pstate_def\<close>)

lemma parse_lines_wf: "wf_pstate ps \<Longrightarrow> parse_lines u ls ps = Inr ps' \<Longrightarrow> wf_pstate ps'"
  by (induction u ls ps rule: parse_lines.induct) (auto simp: bindR_eq_Inr intro: parse_line_wf)

lemma Parse_InrD:
  assumes "Parse u txt = Inr sp"
  obtains ps where "parse_lines u (fst (scan_lines txt)) init_pstate = Inr ps"
    "validate (ps_spec ps) = Inr ()" "sp = ps_spec ps"
proof (cases "scan_lines txt")
  case (Pair ls whole)
  show thesis
  proof (cases "parse_lines u ls init_pstate")
    case (Inr ps)
    have "whole \<and> validate (ps_spec ps) = Inr () \<and> ps_spec ps = sp"
      using assms Pair Inr by (auto simp: Parse_def bindR_eq_Inr split: if_splits)
    then show thesis using that [of ps] Pair Inr by (metis fst_conv)
  qed (use assms Pair in \<open>simp add: Parse_def\<close>)
qed

lemma Parse_wf_spec: "Parse u txt = Inr sp \<Longrightarrow> wf_spec sp"
  by (elim Parse_InrD, drule parse_lines_wf [OF wf_pstate_init])
    (simp add: wf_pstate_def wf_spec_def validate_iff)

text \<open>What a client of a parsed specification uses.\<close>

lemma wf_spec_StructD:
  assumes "wf_spec s" and "spec_Struct s n = Inr st"
  shows "st_Name st = n" "distinct (map f_ID (st_Fields st))"
    "\<And>f. f \<in> set (st_Fields st) \<Longrightarrow> f_Type f \<in> set field_types"
proof -
  have "(n, st) \<in> set (sp_Structs s)"
    using assms(2) by (auto simp: spec_Struct_def dest: map_of_SomeD split: option.splits)
  then have "wf_struct n st" "distinct (map f_ID (st_Fields st))"
    using assms(1) by (auto simp: wf_spec_def wf_structs_def)
  then show "st_Name st = n" "distinct (map f_ID (st_Fields st))"
    "\<And>f. f \<in> set (st_Fields st) \<Longrightarrow> f_Type f \<in> set field_types"
    by (auto simp: wf_struct_def)
qed

lemma wf_spec_MethodD:
  assumes "wf_spec s" and "spec_Method s n = Some m"
  shows "m_Name m = n" "\<exists>st. spec_Struct s (m_Req m) = Inr st"
    "\<exists>st. spec_Struct s (m_Resp m) = Inr st"
proof -
  have m: "m \<in> set (sp_Methods s)" and n: "m_Name m = n"
    using assms(2) unfolding spec_Method_def find_Some_iff by auto
  have "m_Req m \<in> dom (map_of (sp_Structs s))" "m_Resp m \<in> dom (map_of (sp_Structs s))"
    using assms(1) m by (simp_all add: wf_spec_def)
  then show "\<exists>st. spec_Struct s (m_Req m) = Inr st" "\<exists>st. spec_Struct s (m_Resp m) = Inr st"
    by (auto simp: spec_Struct_def dom_def split: option.splits)
  show "m_Name m = n" by (rule n)
qed

lemma FieldByID_mem: "distinct (map f_ID (st_Fields st)) \<Longrightarrow> f \<in> set (st_Fields st) \<Longrightarrow>
    FieldByID st (f_ID f) = Some f"
proof -
  have "distinct (map f_ID fs) \<Longrightarrow> f \<in> set fs \<Longrightarrow> find (\<lambda>g. f_ID g = f_ID f) fs = Some f" for fs
    by (induction fs) force+
  then show "distinct (map f_ID (st_Fields st)) \<Longrightarrow> f \<in> set (st_Fields st) \<Longrightarrow>
    FieldByID st (f_ID f) = Some f" by (simp add: FieldByID_def)
qed

section \<open>Properties\<close>

text \<open>C25 Every specification that the parser accepts is well formed: it has a service and methods,
  every method's request and response are structs of it, every struct is filed under its own
  name, its fields have distinct ids and one of the three supported types, and no two
  structs share a name.\<close>

theorem parsed_specs_well_formed:
  assumes "Parse u txt = Inr sp"
  shows "wf_spec sp"
  using assms by (rule Parse_wf_spec)

definition order_idl :: string where
  "order_idl = str_join [CHR 0x0A]
     [''namespace go order'', [], ''struct GetOrderReq {'', ''    1: i64 id'', ''}'', [],
      ''struct GetOrderResp {'', ''    1: i64 id'', ''    2: i64 userId'', ''    3: string status'',
      ''    4: string userName'', ''}'', [],
      ''service OrderService {'',
      ''    GetOrderResp GetOrder(1: GetOrderReq req) (agw.method = '' @ [CHR 0x22] @ ''post'' @ [CHR 0x22]
        @ '', agw.uri = '' @ [CHR 0x22] @ ''/order/get_by_id'' @ [CHR 0x22] @ '')'', ''}'', []]"

definition order_idl_spec :: spec where
  "order_idl_spec =
     \<lparr>sp_Service = ''OrderService'',
      sp_Methods = [\<lparr>m_Name = ''GetOrder'', m_Req = ''GetOrderReq'', m_Resp = ''GetOrderResp'',
                     m_HTTPMethod = ''POST'', m_URI = ''/order/get_by_id''\<rparr>],
      sp_Structs =
        [(''GetOrderReq'', \<lparr>st_Name = ''GetOrderReq'',
            st_Fields = [\<lparr>f_ID = 1, f_Type = ''i64'', f_Name = ''id''\<rparr>]\<rparr>),
         (''GetOrderResp'', \<lparr>st_Name = ''GetOrderResp'',
            st_Fields = [\<lparr>f_ID = 1, f_Type = ''i64'', f_Name = ''id''\<rparr>,
                         \<lparr>f_ID = 2, f_Type = ''i64'', f_Name = ''userId''\<rparr>,
                         \<lparr>f_ID = 3, f_Type = ''string'', f_Name = ''status''\<rparr>,
                         \<lparr>f_ID = 4, f_Type = ''string'', f_Name = ''userName''\<rparr>]\<rparr>)]\<rparr>"

lemma order_idl_parses: "Parse (\<lambda>s. s) order_idl = Inr order_idl_spec"
  by code_simp

theorem parsed_specs_well_formed_witness: "wf_spec order_idl_spec"
  using parsed_specs_well_formed [OF order_idl_parses] .

end
