(* ===== verification/Sql.thy ===== *)
theory Sql
  imports GoStrings
begin

text \<open>
  The use the stores make of \<open>database/sql\<close>: statements that run one after the other on
  tables, and transactions. The tables are the parameter \<open>'t\<close>; what a statement does to them
  is written next to the code that sends it. A database can fail at any statement: the fate of
  the next statements is the list \<open>db_faults\<close>, and a statement that fails changes nothing. A
  transaction whose body or commit fails leaves the tables it began with, as the deferred
  \<open>Rollback\<close> of the code does. Requests of other clients between two statements are not
  modelled.
\<close>

datatype sql_err = NoRows | Duplicate | DataTooLong | ForeignKey | DbFail string

record 't db =
  db_tab :: 't
  db_faults :: "sql_err option list"

type_synonym ('t, 'e, 'a) dbm = "'t db \<Rightarrow> ('e + 'a) \<times> 't db"

section \<open>Sequencing\<close>

definition retS :: "'a \<Rightarrow> ('t, 'e, 'a) dbm" where
  "retS x s = (Inr x, s)"

definition failS :: "'e \<Rightarrow> ('t, 'e, 'a) dbm" where
  "failS e s = (Inl e, s)"

definition bindS :: "('t, 'e, 'a) dbm \<Rightarrow> ('a \<Rightarrow> ('t, 'e, 'b) dbm) \<Rightarrow> ('t, 'e, 'b) dbm" where
  "bindS m f s = (case m s of (Inl e, s1) \<Rightarrow> (Inl e, s1) | (Inr x, s1) \<Rightarrow> f x s1)"

definition liftS :: "'e + 'a \<Rightarrow> ('t, 'e, 'a) dbm" where
  "liftS r s = (r, s)"

text \<open>\<open>if err != nil { ... }\<close> with a body of its own: the handler sees the error.\<close>

definition catchS :: "('t, 'd, 'a) dbm \<Rightarrow> ('d \<Rightarrow> ('t, 'e, 'a) dbm) \<Rightarrow> ('t, 'e, 'a) dbm" where
  "catchS m h s = (case m s of (Inl e, s1) \<Rightarrow> h e s1 | (Inr x, s1) \<Rightarrow> (Inr x, s1))"

definition orElse :: "('t, 'd, 'a) dbm \<Rightarrow> ('d \<Rightarrow> 'e) \<Rightarrow> ('t, 'e, 'a) dbm" where
  "orElse m h = catchS m (\<lambda>e. failS (h e))"

section \<open>Statements\<close>

definition stmt :: "('t \<Rightarrow> sql_err + 'a \<times> 't) \<Rightarrow> ('t, sql_err, 'a) dbm" where
  "stmt f s =
     (case db_faults s of
        Some e # fs \<Rightarrow> (Inl e, s\<lparr>db_faults := fs\<rparr>)
      | _ \<Rightarrow>
        (let s1 = s\<lparr>db_faults := tl (db_faults s)\<rparr> in
         case f (db_tab s) of
           Inl e \<Rightarrow> (Inl e, s1)
         | Inr (x, t) \<Rightarrow> (Inr x, s1\<lparr>db_tab := t\<rparr>)))"

definition query :: "('t \<Rightarrow> 'a) \<Rightarrow> ('t, sql_err, 'a) dbm" where
  "query f = stmt (\<lambda>t. Inr (f t, t))"

definition queryRow :: "('t \<Rightarrow> 'a list) \<Rightarrow> ('t, sql_err, 'a) dbm" where
  "queryRow f = stmt (\<lambda>t. case f t of [] \<Rightarrow> Inl NoRows | x # _ \<Rightarrow> Inr (x, t))"

definition execS :: "('t \<Rightarrow> 't) \<Rightarrow> ('t, sql_err, unit) dbm" where
  "execS f = stmt (\<lambda>t. Inr ((), f t))"

text \<open>A transaction; \<open>conv\<close> is how the code returns an error of \<open>Begin\<close> or \<open>Commit\<close>.\<close>

definition transaction :: "(sql_err \<Rightarrow> 'e) \<Rightarrow> ('t, 'e, 'a) dbm \<Rightarrow> ('t, 'e, 'a) dbm" where
  "transaction conv body s =
     (case stmt (\<lambda>t. Inr ((), t)) s of
        (Inl e, s1) \<Rightarrow> (Inl (conv e), s1)
      | (Inr _, s1) \<Rightarrow>
        (case body s1 of
           (Inl e, s2) \<Rightarrow> (Inl e, s2\<lparr>db_tab := db_tab s\<rparr>)
         | (Inr x, s2) \<Rightarrow>
           (case stmt (\<lambda>t. Inr ((), t)) s2 of
              (Inl e, s3) \<Rightarrow> (Inl (conv e), s3\<lparr>db_tab := db_tab s\<rparr>)
            | (Inr _, s3) \<Rightarrow> (Inr x, s3))))"

section \<open>Rules\<close>

lemmas seqS_defs = retS_def failS_def bindS_def liftS_def catchS_def orElse_def

text \<open>A database without faults: the statements do what they say.\<close>

abbreviation healthy :: "'t \<Rightarrow> 't db" where
  "healthy t \<equiv> \<lparr>db_tab = t, db_faults = []\<rparr>"

lemma stmt_healthy [simp]:
  "stmt f (healthy t) = (case f t of Inl e \<Rightarrow> (Inl e, healthy t) | Inr (x, t1) \<Rightarrow> (Inr x, healthy t1))"
  by (simp add: stmt_def split: sum.split)

lemma query_healthy [simp]: "query f (healthy t) = (Inr (f t), healthy t)"
  by (simp add: query_def)

lemma queryRow_healthy [simp]:
  "queryRow f (healthy t) = (case f t of [] \<Rightarrow> (Inl NoRows, healthy t) | x # _ \<Rightarrow> (Inr x, healthy t))"
  by (simp add: queryRow_def split: list.split)

lemma execS_healthy [simp]: "execS f (healthy t) = (Inr (), healthy (f t))"
  by (simp add: execS_def)

lemma transaction_healthy:
  "body (healthy t) = (Inr x, healthy t1) \<Longrightarrow> transaction conv body (healthy t) = (Inr x, healthy t1)"
  "body (healthy t) = (Inl e, healthy t1) \<Longrightarrow> transaction conv body (healthy t) = (Inl e, healthy t)"
  by (simp_all add: transaction_def)

text \<open>Transactions are atomic: whatever fails, wherever, the tables are those of the start.\<close>

lemma stmt_err_tab: "stmt f s = (Inl e, s1) \<Longrightarrow> db_tab s1 = db_tab s"
  by (auto simp: stmt_def Let_def split: list.splits option.splits sum.splits)

lemma transaction_atomic: "transaction conv body s = (Inl e, s1) \<Longrightarrow> db_tab s1 = db_tab s"
  by (auto simp: transaction_def split: prod.splits sum.splits dest: stmt_err_tab)

text \<open>Statements that only read.\<close>

definition reads :: "('t, 'e, 'a) dbm \<Rightarrow> bool" where
  "reads m \<longleftrightarrow> (\<forall>s. db_tab (snd (m s)) = db_tab s)"

lemma reads_intros [intro]:
  "reads (retS x)" "reads (failS e)" "reads (liftS r)" "reads (query f)" "reads (queryRow g)"
  by (auto simp: reads_def seqS_defs query_def queryRow_def stmt_def Let_def
      split: list.splits option.splits)

lemma reads_bindS [intro]: "reads m \<Longrightarrow> (\<And>x. reads (f x)) \<Longrightarrow> reads (bindS m f)"
  by (simp add: reads_def bindS_def split: prod.splits sum.splits) (metis snd_conv)

lemma reads_catchS [intro]: "reads m \<Longrightarrow> (\<And>e. reads (h e)) \<Longrightarrow> reads (catchS m h)"
  by (simp add: reads_def catchS_def split: prod.splits sum.splits) (metis snd_conv)

lemma reads_orElse [intro]: "reads m \<Longrightarrow> reads (orElse m h)"
  by (auto simp: orElse_def)

end
