(* ===== verification/Content.thy ===== *)
theory Content
  imports Idl Sql
begin

text \<open>
  projects/board/content.go: the tree of content nodes (module, detail, block), the pages, the
  checks on what clients send, and the interface \<open>ContentStore\<close>. Whether a text is JSON
  (\<open>json.Valid\<close>) is the parameter \<open>valid\<close>. Error values carry the data of their messages.
\<close>

section \<open>Data\<close>

definition NodeModule :: string where "NodeModule = ''module''"
definition NodeDetail :: string where "NodeDetail = ''detail''"
definition NodeBlock :: string where "NodeBlock = ''block''"

lemmas node_type_defs = NodeModule_def NodeDetail_def NodeBlock_def

lemma node_types_distinct [simp]:
  "NodeModule \<noteq> NodeDetail" "NodeDetail \<noteq> NodeModule" "NodeModule \<noteq> NodeBlock" "NodeBlock \<noteq> NodeModule"
  "NodeDetail \<noteq> NodeBlock" "NodeBlock \<noteq> NodeDetail" "NodeModule \<noteq> []" "NodeDetail \<noteq> []" "NodeBlock \<noteq> []"
  by (simp_all add: node_type_defs)

definition parentType :: "string \<Rightarrow> string option" where
  "parentType t = (if t = NodeModule then Some [] else if t = NodeDetail then Some NodeModule
                   else if t = NodeBlock then Some NodeDetail else None)"

datatype content_err =
    NotFound | Conflict | ReservedModule string | BadSlug string | BadJson | DataTooBig
  | BadSchemaVersion int | BadType string | ModuleNotRoot | NoParent string string
  | WrongParent string string string | BadPagePath string | BadPageSeg string
  | BadFileName string | FileTooDeep string | NoFiles | TooManyFiles | PageTooBig | NoIndex
  | IndexPanic | StoreErr sql_err

record node =
  nd_ID :: int
  nd_ParentID :: int
  nd_Type :: string
  nd_Slug :: string
  nd_Title :: string
  nd_Data :: string
  nd_SchemaVersion :: int
  nd_CreatedAt :: string
  nd_UpdatedAt :: string

definition brief :: "node \<Rightarrow> node" where "brief n = n\<lparr>nd_Data := []\<rparr>"

record node_input =
  ni_ParentID :: int
  ni_Type :: string
  ni_Slug :: string
  ni_Title :: string
  ni_Data :: string
  ni_SchemaVersion :: int

record node_page =
  np_Items :: "node list"
  np_Page :: int
  np_PageSize :: int
  np_Total :: int

record page_version =
  pv_Path :: string
  pv_Version :: int
  pv_Files :: "string list"
  pv_Current :: bool
  pv_CreatedAt :: string

type_synonym files = "(string \<times> string) list"

section \<open>Checks of nodes\<close>

definition reservedModuleSlugs :: "string list" where "reservedModuleSlugs = [''modules'']"

definition checkModuleSlug :: "string \<Rightarrow> string \<Rightarrow> content_err + unit" where
  "checkModuleSlug typ slug =
     (if typ = NodeModule \<and> slug \<in> set reservedModuleSlugs then Inl (ReservedModule slug) else Inr ())"

definition slugRe :: "string \<Rightarrow> bool" where
  "slugRe = match_name lower_digit (\<lambda>c. lower_digit c \<or> c \<in> set ''._-'') 127"
definition pageSegRe :: "string \<Rightarrow> bool" where
  "pageSegRe = match_name lower_digit (\<lambda>c. lower_digit c \<or> c \<in> set ''_-'') 63"
definition pageFileRe :: "string \<Rightarrow> bool" where
  "pageFileRe = match_name alpha_digit (\<lambda>c. alpha_digit c \<or> c \<in> set ''._-'') 127"

definition cleanSlug :: "string \<Rightarrow> content_err + string" where
  "cleanSlug s0 = (let s = trim_space s0 in if \<not> slugRe s then Inl (BadSlug s) else Inr s)"

definition cleanNodeData :: "(string \<Rightarrow> bool) \<Rightarrow> string \<Rightarrow> content_err + string" where
  "cleanNodeData valid raw =
     (if length (trim_space raw) = 0 then Inr ''{}''
      else if \<not> valid raw then Inl BadJson
      else if 4 * 2 ^ 20 < length raw then Inl DataTooBig
      else Inr raw)"

definition cleanSchemaVersion :: "int \<Rightarrow> content_err + int" where
  "cleanSchemaVersion v =
     (if v = 0 then Inr 1 else if v < 0 then Inl (BadSchemaVersion v) else Inr v)"

definition checkParent :: "string \<Rightarrow> node option \<Rightarrow> content_err + unit" where
  "checkParent typ parent =
     (case parentType typ of
        None \<Rightarrow> Inl (BadType typ)
      | Some want \<Rightarrow>
          if want = [] then (case parent of Some _ \<Rightarrow> Inl ModuleNotRoot | None \<Rightarrow> Inr ())
          else (case parent of
                  None \<Rightarrow> Inl (NoParent typ want)
                | Some p \<Rightarrow> if nd_Type p \<noteq> want then Inl (WrongParent typ want (nd_Type p)) else Inr ()))"

definition nodePageArgs :: "int \<Rightarrow> int \<Rightarrow> int \<times> int" where
  "nodePageArgs page sz =
     (let page = (if page < 1 then 1 else page);
          sz = (if sz < 1 then 20 else sz);
          sz = (if sz > 100 then 100 else sz)
      in (page, sz))"

section \<open>Checks of pages\<close>

definition maxPageDepth :: nat where "maxPageDepth = 4"
definition maxPageFiles :: nat where "maxPageFiles = 64"
definition maxPageBytes :: nat where "maxPageBytes = 4 * 2 ^ 20"

definition cleanPagePath :: "string \<Rightarrow> content_err + string" where
  "cleanPagePath p0 =
     (let p = trim_set ''/'' (trim_space p0); segs = split_on (CHR ''/'') p in
      if p = [] \<or> maxPageDepth < length segs then Inl (BadPagePath p)
      else case find (\<lambda>s. \<not> pageSegRe s) segs of Some s \<Rightarrow> Inl (BadPageSeg s) | None \<Rightarrow> Inr p)"

text \<open>\<open>path.Clean\<close>: the lexical normal form of a slash-separated path.\<close>

fun clean_segs :: "bool \<Rightarrow> string list \<Rightarrow> string list \<Rightarrow> string list" where
  "clean_segs rooted out [] = out"
| "clean_segs rooted out (s # segs) =
     (if s = [] \<or> s = ''.'' then clean_segs rooted out segs
      else if s = ''..'' then
        (if out \<noteq> [] \<and> last out \<noteq> ''..'' then clean_segs rooted (butlast out) segs
         else if rooted then clean_segs rooted out segs
         else clean_segs rooted (out @ [s]) segs)
      else clean_segs rooted (out @ [s]) segs)"

definition path_Clean :: "string \<Rightarrow> string" where
  "path_Clean p =
     (let rooted = has_prefix p ''/'';
          r = (if rooted then ''/'' else []) @ str_join ''/'' (clean_segs rooted [] (split_on (CHR ''/'') p))
      in if r = [] then ''.'' else r)"

definition cleanPageFileName :: "string \<Rightarrow> content_err + string" where
  "cleanPageFileName name0 =
     (let name = trim_space name0 in
      if name = [] \<or> has_prefix name ''/'' \<or> str_contains name [CHR 0x5C] then Inl (BadFileName name)
      else
        (let segs = split_on (CHR ''/'') name in
         if 3 < length segs then Inl (FileTooDeep name)
         else if list_ex (\<lambda>s. s = ''.'' \<or> s = ''..'' \<or> \<not> pageFileRe s) segs then Inl (BadFileName name)
         else if path_Clean name \<noteq> name then Inl (BadFileName name)
         else Inr name))"

text \<open>The loop of \<open>cleanPageFiles\<close> over the map's entries, in the order they are visited.\<close>

fun clean_files :: "files \<Rightarrow> files \<Rightarrow> nat \<Rightarrow> content_err + files \<times> nat" where
  "clean_files out [] tot = Inr (out, tot)"
| "clean_files out ((k, v) # fs) tot =
     (case cleanPageFileName k of
        Inl e \<Rightarrow> Inl e
      | Inr n \<Rightarrow> clean_files (al_put n v out) fs (tot + length v))"

definition cleanPageFiles :: "files \<Rightarrow> content_err + files" where
  "cleanPageFiles fs =
     (if length fs = 0 then Inl NoFiles
      else if maxPageFiles < length fs then Inl TooManyFiles
      else case clean_files [] fs 0 of
        Inl e \<Rightarrow> Inl e
      | Inr (out, tot) \<Rightarrow>
          if maxPageBytes < tot then Inl PageTooBig
          else if map_of out ''index.html'' = None then Inl NoIndex
          else Inr out)"

text \<open>Evaluation compares the large limits as integers.\<close>

lemma cleanNodeData_code [code]:
  "cleanNodeData valid raw =
     (if trim_space raw = [] then Inr ''{}''
      else if \<not> valid raw then Inl BadJson
      else if 4194304 < int (length raw) then Inl DataTooBig
      else Inr raw)"
  by (simp add: cleanNodeData_def)

lemma cleanPageFiles_code [code]:
  "cleanPageFiles fs =
     (if fs = [] then Inl NoFiles
      else if 64 < int (length fs) then Inl TooManyFiles
      else case clean_files [] fs 0 of
        Inl e \<Rightarrow> Inl e
      | Inr (out, tot) \<Rightarrow>
          if 4194304 < int tot then Inl PageTooBig
          else if map_of out ''index.html'' = None then Inl NoIndex
          else Inr out)"
  by (simp add: cleanPageFiles_def maxPageFiles_def maxPageBytes_def split: sum.split)

section \<open>What the checks accept\<close>

lemma cleanSlug_Inr: "cleanSlug s = Inr t \<longleftrightarrow> t = trim_space s \<and> slugRe t"
  by (auto simp: cleanSlug_def Let_def)

lemma slugRe_chars: "slugRe s \<Longrightarrow> s \<noteq> [] \<and> length s \<le> 128 \<and> list_all plain_c s"
  by (cases s)
    (auto simp: slugRe_def match_name_def list_all_iff plain_c_def lower_digit_def is_lower_c_def
      is_digit_c_def ordc_def)

lemma cleanSlug_idem: "cleanSlug s = Inr t \<Longrightarrow> cleanSlug t = Inr t"
  by (auto simp: cleanSlug_Inr)

lemma cleanSchemaVersion_Inr: "cleanSchemaVersion v = Inr w \<Longrightarrow> 1 \<le> w"
  by (auto simp: cleanSchemaVersion_def split: if_splits)

lemma cleanNodeData_Inr:
  "cleanNodeData valid raw = Inr d \<Longrightarrow> valid ''{}'' \<Longrightarrow> valid d \<and> length d \<le> 4 * 2 ^ 20"
  by (auto simp: cleanNodeData_def split: if_splits)

lemma nodePageArgs_bounds:
  "nodePageArgs page sz = (p, n) \<Longrightarrow> 1 \<le> p \<and> 1 \<le> n \<and> n \<le> 100 \<and> (1 \<le> page \<longrightarrow> p = page)"
  by (auto simp: nodePageArgs_def Let_def split: if_splits)

lemma checkParent_Inr:
  "checkParent typ parent = Inr u \<longleftrightarrow>
     typ = NodeModule \<and> parent = None \<or>
     (\<exists>p. parent = Some p \<and> typ \<noteq> NodeModule \<and> parentType typ = Some (nd_Type p))"
  by (cases parent) (auto simp: checkParent_def parentType_def)

text \<open>A file name that passes is relative, has no empty, dot or dot-dot segment and is its own
  normal form: the last check of \<open>cleanPageFileName\<close> never fails after the others.\<close>

lemma clean_segs_id:
  "list_all (\<lambda>s. s \<noteq> [] \<and> s \<noteq> ''.'' \<and> s \<noteq> ''..'') segs \<Longrightarrow> clean_segs r out segs = out @ segs"
  by (induction r out segs rule: clean_segs.induct) auto

lemma path_Clean_id:
  assumes "list_all (\<lambda>s. s \<noteq> [] \<and> s \<noteq> ''.'' \<and> s \<noteq> ''..'') (split_on (CHR ''/'') p)"
    and "\<not> has_prefix p ''/''" and "p \<noteq> []"
  shows "path_Clean p = p"
  using assms join_split_on [of "CHR ''/''" p] by (simp add: path_Clean_def clean_segs_id)

lemma pageFileRe_seg: "pageFileRe s \<Longrightarrow> s \<noteq> [] \<and> list_all plain_c s"
  by (cases s)
    (auto simp: pageFileRe_def match_name_def list_all_iff plain_c_def alpha_digit_def is_lower_c_def
      is_upper_c_def is_digit_c_def ordc_def)

definition file_name_ok :: "string \<Rightarrow> bool" where
  "file_name_ok n \<longleftrightarrow> n \<noteq> [] \<and> length (split_on (CHR ''/'') n) \<le> 3 \<and>
     list_all (\<lambda>s. pageFileRe s) (split_on (CHR ''/'') n)"

lemma pageFileRe_not_dots: "\<not> pageFileRe ''.''" "\<not> pageFileRe ''..''" "\<not> pageFileRe []"
  by (simp_all add: pageFileRe_def match_name_def alpha_digit_def is_lower_c_def is_upper_c_def
      is_digit_c_def ordc_def)

lemma file_name_ok_chars:
  assumes "file_name_ok n" and "c \<in> set n"
  shows "c = CHR ''/'' \<or> plain_c c \<and> c \<noteq> CHR 0x5C"
proof -
  have seg: "d \<noteq> CHR 0x5C \<and> plain_c d" if "pageFileRe s" "d \<in> set s" for s d
    using that by (cases s)
      (auto simp: pageFileRe_def match_name_def list_all_iff plain_c_def alpha_digit_def is_lower_c_def
        is_upper_c_def is_digit_c_def ordc_def)
  have "set n \<subseteq> insert (CHR ''/'') (\<Union>(set ` set (split_on (CHR ''/'') n)))"
  proof -
    have "set (str_join [c] xs) \<subseteq> insert c (\<Union>(set ` set xs))" for c xs
      by (induction "[c]" xs rule: str_join.induct) auto
    from this [of "CHR ''/''" "split_on (CHR ''/'') n"] show ?thesis by (simp add: join_split_on)
  qed
  then show ?thesis using assms seg by (auto simp: file_name_ok_def list_all_iff)
qed

lemma cleanPageFileName_iff: "cleanPageFileName s = Inr n \<longleftrightarrow> n = trim_space s \<and> file_name_ok n"
proof -
  let ?n = "trim_space s"
  have facts: "\<not> has_prefix ?n ''/'' \<and> \<not> str_contains ?n [CHR 0x5C] \<and> path_Clean ?n = ?n \<and>
      \<not> list_ex (\<lambda>s. s = ''.'' \<or> s = ''..'' \<or> \<not> pageFileRe s) (split_on (CHR ''/'') ?n)"
    if ok: "file_name_ok ?n"
  proof -
    have segs: "list_all pageFileRe (split_on (CHR ''/'') ?n)" "?n \<noteq> []"
      using ok by (simp_all add: file_name_ok_def)
    have np: "\<not> has_prefix ?n ''/''"
    proof
      assume "has_prefix ?n ''/''"
      then obtain t where "?n = [] @ CHR ''/'' # t" by (auto simp: has_prefix_iff)
      then have "[] \<in> set (split_on (CHR ''/'') ?n)" using split_on_append [of "CHR ''/''" "[]" t] by simp
      then show False using segs(1) pageFileRe_not_dots by (auto simp: list_all_iff)
    qed
    have bs: "\<not> str_contains ?n [CHR 0x5C]"
    proof
      assume "str_contains ?n [CHR 0x5C]"
      then obtain i where "?n = take i ?n @ [CHR 0x5C] @ drop (i + 1) ?n"
        using str_index_Some [of ?n "[CHR 0x5C]"] by (auto simp: str_contains_def)
      then have "CHR 0x5C \<in> set ?n" by (metis append_Cons in_set_conv_decomp)
      then show False using file_name_ok_chars [OF ok] by fastforce
    qed
    have nd: "list_all (\<lambda>s. s \<noteq> [] \<and> s \<noteq> ''.'' \<and> s \<noteq> ''..'') (split_on (CHR ''/'') ?n)"
      using segs(1) pageFileRe_not_dots by (auto simp: list_all_iff)
    show ?thesis using np bs path_Clean_id [OF nd np segs(2)] segs(1) nd
      by (auto simp: list_ex_iff list_all_iff)
  qed
  show ?thesis
  proof (cases "file_name_ok ?n")
    case True
    then have "?n \<noteq> []" "\<not> 3 < length (split_on (CHR ''/'') ?n)" by (simp_all add: file_name_ok_def)
    then have "cleanPageFileName s = Inr ?n"
      using facts [OF True] by (simp only: cleanPageFileName_def Let_def if_False simp_thms)
    then show ?thesis using True by auto
  next
    case False
    have seg: "pageFileRe t" if "\<not> list_ex (\<lambda>s. s = ''.'' \<or> s = ''..'' \<or> \<not> pageFileRe s) ts" "t \<in> set ts" for t ts
      using that by (simp add: list_ex_iff)
    have "cleanPageFileName s \<noteq> Inr m" for m
    proof
      assume "cleanPageFileName s = Inr m"
      then have "?n \<noteq> [] \<and> \<not> 3 < length (split_on (CHR ''/'') ?n) \<and>
        \<not> list_ex (\<lambda>s. s = ''.'' \<or> s = ''..'' \<or> \<not> pageFileRe s) (split_on (CHR ''/'') ?n)"
        unfolding cleanPageFileName_def Let_def
        by (simp only: sum.distinct de_Morgan_disj simp_thms split: if_split_asm)
      with False seg show False by (auto simp: file_name_ok_def list_all_iff)
    qed
    then show ?thesis using False by auto
  qed
qed

end
