(* ===== verification/ContentMem.thy ===== *)
theory ContentMem
  imports Content "HOL-Library.List_Lexorder"
begin

text \<open>
  projects/board/content_mem.go: the in-memory ContentStore. The Go maps \<open>nodes\<close>, \<open>pages\<close>
  and \<open>current\<close> are association lists; \<open>entries\<close> are the pairs a range loop visits. The time
  of each call is an argument. An index out of range, which panics in Go, is the error
  \<open>IndexPanic\<close>. A failing call returns the state too: \<open>UpdateNode\<close> can have changed it.
\<close>

section \<open>State\<close>

record memNode =
  mn_node :: node
  mn_deleted :: bool
  mn_seq :: int

record memPageVer =
  pg_ver :: int
  pg_files :: files
  pg_at :: string

record memContent =
  mc_nextID :: int
  mc_nodes :: "(int \<times> memNode) list"
  mc_pages :: "(string \<times> memPageVer list) list"
  mc_current :: "(string \<times> int) list"

definition newMemContent :: memContent where
  "newMemContent = \<lparr>mc_nextID = 0, mc_nodes = [], mc_pages = [], mc_current = []\<rparr>"

definition entries :: "('k \<times> 'v) list \<Rightarrow> ('k \<times> 'v) list" where
  "entries m = filter (\<lambda>(k, v). map_of m k = Some v) m"

lemma entries_iff: "(k, v) \<in> set (entries m) \<longleftrightarrow> map_of m k = Some v"
  by (auto simp: entries_def dest: map_of_SomeD)

lemma entries_distinct: "distinct (map fst m) \<Longrightarrow> entries m = m"
  by (auto simp: entries_def filter_id_conv)

definition map_get :: "'v \<Rightarrow> ('k \<times> 'v) list \<Rightarrow> 'k \<Rightarrow> 'v" where
  "map_get zero m k = (case map_of m k of Some v \<Rightarrow> v | None \<Rightarrow> zero)"

section \<open>Nodes\<close>

definition liveLocked :: "memContent \<Rightarrow> int \<Rightarrow> content_err + memNode" where
  "liveLocked s i =
     (case map_of (mc_nodes s) i of
        None \<Rightarrow> Inl NotFound
      | Some n \<Rightarrow> if mn_deleted n then Inl NotFound else Inr n)"

text \<open>The checks of \<open>PutNode\<close>, in its order.\<close>

definition put_checks ::
  "(string \<Rightarrow> bool) \<Rightarrow> node_input \<Rightarrow> memContent \<Rightarrow> content_err + (string \<times> string \<times> int)" where
  "put_checks valid inp s =
     bindR (cleanSlug (ni_Slug inp)) (\<lambda>slug.
     bindR (cleanNodeData valid (ni_Data inp)) (\<lambda>data.
     bindR (cleanSchemaVersion (ni_SchemaVersion inp)) (\<lambda>sv.
     bindR (if ni_ParentID inp \<noteq> 0
            then bindR (liveLocked s (ni_ParentID inp)) (\<lambda>p. Inr (Some (mn_node p)))
            else Inr None) (\<lambda>parent.
     bindR (checkModuleSlug (ni_Type inp) slug) (\<lambda>_.
     bindR (checkParent (ni_Type inp) parent) (\<lambda>_. Inr (slug, data, sv)))))))"

definition PutNode ::
  "(string \<Rightarrow> bool) \<Rightarrow> string \<Rightarrow> node_input \<Rightarrow> memContent \<Rightarrow> (content_err + node) \<times> memContent" where
  "PutNode valid now inp s =
     (case put_checks valid inp s of
        Inl e \<Rightarrow> (Inl e, s)
      | Inr (slug, data, sv) \<Rightarrow>
          (case find (\<lambda>(_, n). nd_ParentID (mn_node n) = ni_ParentID inp \<and> nd_Slug (mn_node n) = slug)
                  (entries (mc_nodes s)) of
             Some (k, n) \<Rightarrow>
               (let nd = (mn_node n)\<lparr>nd_Type := ni_Type inp, nd_Title := ni_Title inp, nd_Data := data,
                                    nd_SchemaVersion := sv, nd_UpdatedAt := now\<rparr>
                in (Inr nd, s\<lparr>mc_nodes :=
                      al_put k (n\<lparr>mn_node := nd, mn_deleted := False\<rparr>) (mc_nodes s)\<rparr>))
           | None \<Rightarrow>
               (let i = mc_nextID s + 1;
                    nd = \<lparr>nd_ID = i, nd_ParentID = ni_ParentID inp, nd_Type = ni_Type inp,
                          nd_Slug = slug, nd_Title = ni_Title inp, nd_Data = data,
                          nd_SchemaVersion = sv, nd_CreatedAt = now, nd_UpdatedAt = now\<rparr>
                in (Inr nd, s\<lparr>mc_nextID := i,
                      mc_nodes := al_put i \<lparr>mn_node = nd, mn_deleted = False, mn_seq = i\<rparr> (mc_nodes s)\<rparr>))))"

definition set_node :: "int \<Rightarrow> (memNode \<Rightarrow> memNode) \<Rightarrow> memContent \<Rightarrow> memContent" where
  "set_node i f s =
     (case map_of (mc_nodes s) i of None \<Rightarrow> s | Some n \<Rightarrow> s\<lparr>mc_nodes := al_put i (f n) (mc_nodes s)\<rparr>)"

text \<open>The statements of \<open>UpdateNode\<close> write through the pointer to the node, one after the other.\<close>

definition upd :: "int \<Rightarrow> (node \<Rightarrow> node) \<Rightarrow> memContent \<Rightarrow> memContent" where
  "upd i f s = set_node i (\<lambda>n. n\<lparr>mn_node := f (mn_node n)\<rparr>) s"

definition data_arg :: "(string \<Rightarrow> bool) \<Rightarrow> string option \<Rightarrow> content_err + (node \<Rightarrow> node)" where
  "data_arg valid data = (case data of None \<Rightarrow> Inr (\<lambda>x. x)
     | Some d0 \<Rightarrow> bindR (cleanNodeData valid d0) (\<lambda>d. Inr (\<lambda>x. x\<lparr>nd_Data := d\<rparr>)))"

definition version_arg :: "int option \<Rightarrow> content_err + (node \<Rightarrow> node)" where
  "version_arg v = (case v of None \<Rightarrow> Inr (\<lambda>x. x)
     | Some v0 \<Rightarrow> bindR (cleanSchemaVersion v0) (\<lambda>sv. Inr (\<lambda>x. x\<lparr>nd_SchemaVersion := sv\<rparr>)))"

definition title_arg :: "string option \<Rightarrow> node \<Rightarrow> node" where
  "title_arg title x = (case title of None \<Rightarrow> x | Some t \<Rightarrow> x\<lparr>nd_Title := t\<rparr>)"

definition UpdateNode ::
  "(string \<Rightarrow> bool) \<Rightarrow> string \<Rightarrow> int \<Rightarrow> string option \<Rightarrow> string option \<Rightarrow> int option \<Rightarrow> memContent \<Rightarrow>
     (content_err + node) \<times> memContent" where
  "UpdateNode valid now i title data schemaVersion s =
     (case liveLocked s i of
        Inl e \<Rightarrow> (Inl e, s)
      | Inr n \<Rightarrow>
          (case data_arg valid data of
             Inl e \<Rightarrow> (Inl e, s)
           | Inr f1 \<Rightarrow>
               (case version_arg schemaVersion of
                  Inl e \<Rightarrow> (Inl e, upd i f1 s)
                | Inr f2 \<Rightarrow>
                    (let f = (\<lambda>x. (title_arg title (f2 (f1 x)))\<lparr>nd_UpdatedAt := now\<rparr>)
                     in (Inr (f (mn_node n)), upd i f s)))))"

definition live_keys :: "(int \<times> memNode) list \<Rightarrow> int set" where
  "live_keys m = {k. \<exists>n. map_of m k = Some n \<and> \<not> mn_deleted n}"

lemma finite_live_keys [simp]: "finite (live_keys m)"
  by (rule finite_subset [of _ "dom (map_of m)"]) (auto simp: live_keys_def finite_dom_map_of)

definition kill :: "int \<Rightarrow> (int \<times> memNode) list \<Rightarrow> (int \<times> memNode) list" where
  "kill k m = (case map_of m k of Some n \<Rightarrow> al_put k (n\<lparr>mn_deleted := True\<rparr>) m | None \<Rightarrow> m)"

definition kids :: "(int \<times> memNode) list \<Rightarrow> int \<Rightarrow> int list" where
  "kids m cur = map fst (filter (\<lambda>(_, c). nd_ParentID (mn_node c) = cur \<and> \<not> mn_deleted c) (entries m))"

lemma live_kill: "live_keys (kill k m) = live_keys m - {k}"
  by (auto simp: live_keys_def kill_def split: option.splits if_splits)

lemma kids_live: "set (kids m cur) \<subseteq> live_keys m"
  by (auto simp: kids_def live_keys_def entries_iff)

text \<open>
  The queue of \<open>DeleteNode\<close>. Each turn kills a live node, or takes an id off the queue that is
  not live and adds live ones only.
\<close>

function del_loop :: "(int \<times> memNode) list \<Rightarrow> int list \<Rightarrow> int \<Rightarrow> (int \<times> memNode) list \<times> int" where
  "del_loop m [] cnt = (m, cnt)"
| "del_loop m (cur # q) cnt =
     (case map_of m cur of
        Some n \<Rightarrow>
          if \<not> mn_deleted n then del_loop (kill cur m) (q @ kids (kill cur m) cur) (cnt + 1)
          else del_loop m (q @ kids m cur) cnt
      | None \<Rightarrow> del_loop m (q @ kids m cur) cnt)"
  by pat_completeness auto
termination
proof (relation "measures [\<lambda>(m, _, _). card (live_keys m), \<lambda>(m, q, _). length (filter (\<lambda>k. k \<notin> live_keys m) q)]",
    goal_cases)
  case (3 m cur q cnt n)
  then have "cur \<in> live_keys m" by (simp add: live_keys_def)
  then have "card (live_keys (kill cur m)) < card (live_keys m)"
    by (simp only: live_kill card_Diff1_less finite_live_keys)
  then show ?case by simp
next
  case (4 m cur q cnt n)
  then have "cur \<notin> live_keys m" by (simp add: live_keys_def)
  moreover have "filter (\<lambda>k. k \<notin> live_keys m) (kids m cur) = []"
    using kids_live by (auto simp: filter_empty_conv)
  ultimately show ?case by simp
next
  case (2 m cur q cnt)
  then have "cur \<notin> live_keys m" by (simp add: live_keys_def)
  moreover have "filter (\<lambda>k. k \<notin> live_keys m) (kids m cur) = []"
    using kids_live by (auto simp: filter_empty_conv)
  ultimately show ?case by simp
qed simp

definition DeleteNode :: "int \<Rightarrow> memContent \<Rightarrow> (content_err + int) \<times> memContent" where
  "DeleteNode i s =
     (case liveLocked s i of
        Inl e \<Rightarrow> (Inl e, s)
      | Inr _ \<Rightarrow> (case del_loop (mc_nodes s) [i] 0 of (m, cnt) \<Rightarrow> (Inr cnt, s\<lparr>mc_nodes := m\<rparr>)))"

definition GetNode :: "int \<Rightarrow> memContent \<Rightarrow> content_err + node" where
  "GetNode i s = bindR (liveLocked s i) (\<lambda>n. Inr (mn_node n))"

definition FindChild :: "int \<Rightarrow> string \<Rightarrow> string \<Rightarrow> memContent \<Rightarrow> content_err + node" where
  "FindChild parent typ slug s =
     (case find (\<lambda>(_, n). \<not> mn_deleted n \<and> nd_ParentID (mn_node n) = parent \<and>
                          nd_Type (mn_node n) = typ \<and> nd_Slug (mn_node n) = slug) (entries (mc_nodes s)) of
        Some (_, n) \<Rightarrow> Inr (mn_node n)
      | None \<Rightarrow> Inl NotFound)"

text \<open>\<open>int\<close> arithmetic wraps at 64 bits: a huge page number gives a negative first index.\<close>

definition page_slice :: "int \<Rightarrow> int \<Rightarrow> 'a list \<Rightarrow> content_err + 'a list" where
  "page_slice page sz xs =
     (let start = wrap64 ((page - 1) * sz); stop = wrap64 (page * sz) in
      if int (length xs) \<le> start \<or> stop \<le> start then Inr []
      else if start < 0 then Inl IndexPanic
      else Inr (take (nat (stop - start)) (drop (nat start) xs)))"

definition children_of :: "int \<Rightarrow> string \<Rightarrow> memContent \<Rightarrow> node list" where
  "children_of parent typ s =
     map mn_node (sort_key (\<lambda>n. - mn_seq n)
       (filter (\<lambda>n. \<not> mn_deleted n \<and> nd_ParentID (mn_node n) = parent \<and> nd_Type (mn_node n) = typ)
         (map snd (entries (mc_nodes s)))))"

definition ListChildren :: "int \<Rightarrow> string \<Rightarrow> int \<Rightarrow> int \<Rightarrow> memContent \<Rightarrow> content_err + node_page" where
  "ListChildren parent typ page0 size0 s =
     (case nodePageArgs page0 size0 of (page, sz) \<Rightarrow>
       (let xs = children_of parent typ s in
        bindR (page_slice page sz xs) (\<lambda>items.
          Inr \<lparr>np_Items = items, np_Page = page, np_PageSize = sz, np_Total = int (length xs)\<rparr>)))"

definition MoveNode :: "int \<Rightarrow> int \<Rightarrow> memContent \<Rightarrow> (content_err + unit) \<times> memContent" where
  "MoveNode i parent s =
     (case liveLocked s i of
        Inl e \<Rightarrow> (Inl e, s)
      | Inr n \<Rightarrow>
          if nd_ParentID (mn_node n) = parent then (Inr (), s)
          else if list_ex (\<lambda>(_, m). nd_ParentID (mn_node m) = parent \<and>
                                    nd_Slug (mn_node m) = nd_Slug (mn_node n)) (entries (mc_nodes s))
          then (Inl Conflict, s)
          else (Inr (), upd i (\<lambda>x. x\<lparr>nd_ParentID := parent\<rparr>) s))"

section \<open>Pages\<close>

definition sortedKeys :: "files \<Rightarrow> string list" where
  "sortedKeys m = sort_key (map ordc) (map fst (entries m))"

definition PutPage :: "string \<Rightarrow> string \<Rightarrow> files \<Rightarrow> memContent \<Rightarrow> (content_err + page_version) \<times> memContent" where
  "PutPage now p0 files0 s =
     (case bindR (cleanPagePath p0) (\<lambda>p. bindR (cleanPageFiles files0) (\<lambda>fs. Inr (p, fs))) of
        Inl e \<Rightarrow> (Inl e, s)
      | Inr (p, fs) \<Rightarrow>
          (let vs = map_get [] (mc_pages s) p; v = int (length vs) + 1;
               pv = \<lparr>pg_ver = v, pg_files = fs, pg_at = now\<rparr>
           in (Inr \<lparr>pv_Path = p, pv_Version = v, pv_Files = sortedKeys fs, pv_Current = True,
                    pv_CreatedAt = now\<rparr>,
               s\<lparr>mc_pages := al_put p (vs @ [pv]) (mc_pages s), mc_current := al_put p v (mc_current s)\<rparr>)))"

definition ListPageVersions :: "string \<Rightarrow> memContent \<Rightarrow> content_err + page_version list" where
  "ListPageVersions p0 s =
     bindR (cleanPagePath p0) (\<lambda>p.
       let vs = map_get [] (mc_pages s) p in
       if vs = [] then Inl NotFound
       else Inr (map (\<lambda>v. \<lparr>pv_Path = p, pv_Version = pg_ver v, pv_Files = sortedKeys (pg_files v),
                          pv_Current = (pg_ver v = map_get 0 (mc_current s) p), pv_CreatedAt = pg_at v\<rparr>)
                   (rev vs)))"

definition RollbackPage :: "string \<Rightarrow> int \<Rightarrow> memContent \<Rightarrow> (content_err + page_version) \<times> memContent" where
  "RollbackPage p0 version s =
     (case cleanPagePath p0 of
        Inl e \<Rightarrow> (Inl e, s)
      | Inr p \<Rightarrow>
          (let vs = map_get [] (mc_pages s) p in
           if version < 1 \<or> int (length vs) < version then (Inl NotFound, s)
           else (let v = vs ! nat (version - 1) in
             (Inr \<lparr>pv_Path = p, pv_Version = pg_ver v, pv_Files = sortedKeys (pg_files v),
                   pv_Current = True, pv_CreatedAt = pg_at v\<rparr>,
              s\<lparr>mc_current := al_put p version (mc_current s)\<rparr>))))"

definition PageFiles :: "string \<Rightarrow> memContent \<Rightarrow> content_err + files" where
  "PageFiles p s =
     (let cur = map_get 0 (mc_current s) p; vs = map_get [] (mc_pages s) p in
      if cur = 0 then Inl NotFound
      else if cur < 1 \<or> int (length vs) < cur then Inl IndexPanic
      else Inr (pg_files (vs ! nat (cur - 1))))"

definition ListPagePaths :: "memContent \<Rightarrow> string list" where
  "ListPagePaths s = sort_key (map ordc) (map fst (filter (\<lambda>(_, cur). 0 < cur) (entries (mc_current s))))"

end
