(* ===== verification/ContentTree.thy ===== *)
theory ContentTree
  imports ContentMem
begin

text \<open>
  The tree that a memory store holds: its live nodes by id. \<open>DeleteNode\<close> removes exactly a
  subtree, the other operations change one node; what they keep of the tree are the
  invariants \<open>nodes_inv\<close> and \<open>tree_ok\<close>.
\<close>

section \<open>The tree a store holds\<close>

text \<open>The abstract state: the live nodes by id.\<close>

type_synonym tree = "int \<rightharpoonup> node"

definition tree_of :: "(int \<times> memNode) list \<Rightarrow> tree" where
  "tree_of m = (\<lambda>k. case map_of m k of None \<Rightarrow> None | Some n \<Rightarrow> if mn_deleted n then None else Some (mn_node n))"

definition child :: "tree \<Rightarrow> (int \<times> int) set" where
  "child T = {(p, k). \<exists>n. T k = Some n \<and> nd_ParentID n = p}"

definition subtree :: "tree \<Rightarrow> int \<Rightarrow> int set" where
  "subtree T i = {k. (i, k) \<in> (child T)\<^sup>*}"

lemma dom_tree_of: "dom (tree_of m) = live_keys m"
  by (auto simp: tree_of_def live_keys_def split: option.splits if_splits)

lemma tree_of_kill: "tree_of (kill k m) = (tree_of m)(k := None)"
  by (rule ext) (auto simp: tree_of_def kill_def split: option.splits)

lemma tree_of_Some: "tree_of m k = Some nd \<longleftrightarrow> (\<exists>n. map_of m k = Some n \<and> \<not> mn_deleted n \<and> mn_node n = nd)"
  by (auto simp: tree_of_def split: option.splits)

lemma kids_child: "k \<in> set (kids m cur) \<longleftrightarrow> (cur, k) \<in> child (tree_of m)"
  by (force simp: kids_def child_def tree_of_Some entries_iff)

lemma child_mono: "T \<subseteq>\<^sub>m U \<Longrightarrow> child T \<subseteq> child U"
  by (force simp: child_def map_le_def dom_def)

definition mark :: "int set \<Rightarrow> (int \<times> memNode) list \<Rightarrow> int \<Rightarrow> memNode option" where
  "mark D m k = map_option (\<lambda>n. if k \<in> D then n\<lparr>mn_deleted := True\<rparr> else n) (map_of m k)"

lemma mark_kill: "mark D (kill k m) = mark (insert k D) m"
proof
  fix j show "mark D (kill k m) j = mark (insert k D) m j"
    by (cases "map_of m k"; cases "j = k") (auto simp: mark_def kill_def)
qed

lemma del_loop_spec:
  "del_loop m q cnt = (m', cnt') \<Longrightarrow>
   \<exists>D. D \<subseteq> live_keys m \<and> map_of m' = mark D m \<and> cnt' = cnt + int (card D) \<and>
       D \<subseteq> {k. \<exists>x\<in>set q. (x, k) \<in> (child (tree_of m))\<^sup>*} \<and>
       (\<forall>k n. tree_of m k = Some n \<longrightarrow> k \<notin> D \<longrightarrow> k \<notin> set q \<and> nd_ParentID n \<notin> D \<union> set q)"
proof (induction m q cnt arbitrary: m' cnt' rule: del_loop.induct)
  case (1 m cnt)
  then show ?case by (intro exI [of _ "{}"]) (auto simp: mark_def map_option.id [unfolded id_def])
next
  case (2 m cur q cnt)
  show ?case
  proof (cases "cur \<in> live_keys m")
    case True
    then obtain n where n: "map_of m cur = Some n" "\<not> mn_deleted n" by (auto simp: live_keys_def)
    let ?m = "kill cur m"
    have run: "del_loop ?m (q @ kids ?m cur) (cnt + 1) = (m', cnt')" using "2.prems" n by simp
    obtain D where D: "D \<subseteq> live_keys ?m" "map_of m' = mark D ?m" "cnt' = cnt + 1 + int (card D)"
      "D \<subseteq> {k. \<exists>x\<in>set (q @ kids ?m cur). (x, k) \<in> (child (tree_of ?m))\<^sup>*}"
      "\<And>k n. tree_of ?m k = Some n \<Longrightarrow> k \<notin> D \<Longrightarrow>
         k \<notin> set (q @ kids ?m cur) \<and> nd_ParentID n \<notin> D \<union> set (q @ kids ?m cur)"
      using "2.IH"(2) [OF n run] by blast
    have le: "child (tree_of ?m) \<subseteq> child (tree_of m)"
      by (rule child_mono) (auto simp: tree_of_kill map_le_def)
    have fin: "finite D" using D(1) by (rule finite_subset) simp
    have cur: "cur \<notin> D" using D(1) by (auto simp: live_kill)
    have reach: "\<exists>x\<in>set (cur # q). (x, k) \<in> (child (tree_of m))\<^sup>*" if k: "k \<in> D" for k
    proof -
      obtain x where x: "x \<in> set q \<or> x \<in> set (kids ?m cur)" "(x, k) \<in> (child (tree_of ?m))\<^sup>*"
        using D(4) k by auto
      have xk: "(x, k) \<in> (child (tree_of m))\<^sup>*" using x(2) rtrancl_mono [OF le] by blast
      show ?thesis
      proof (cases "x \<in> set q")
        case False
        then have "(cur, x) \<in> child (tree_of m)" using x(1) le by (auto simp: kids_child)
        then show ?thesis using xk by (meson converse_rtrancl_into_rtrancl list.set_intros(1))
      qed (use xk in auto)
    qed
    have closed: "k \<notin> set (cur # q) \<and> nd_ParentID n \<notin> insert cur D \<union> set (cur # q)"
      if k: "tree_of m k = Some n" "k \<notin> insert cur D" for k n
    proof -
      have k': "tree_of ?m k = Some n" using k by (simp add: tree_of_kill)
      then have c: "k \<notin> set (q @ kids ?m cur)" "nd_ParentID n \<notin> D \<union> set (q @ kids ?m cur)"
        using D(5) k(2) by blast+
      moreover have "nd_ParentID n \<noteq> cur" using c(1) k' kids_child [of k ?m cur] by (auto simp: child_def)
      ultimately show ?thesis using k(2) by auto
    qed
    show ?thesis
      using D(1,2,3) True fin cur reach closed
      by (intro exI [of _ "insert cur D"]) (auto simp: mark_kill live_kill)
  next
    case False
    have run: "del_loop m (q @ kids m cur) cnt = (m', cnt')" using "2.prems" False
      by (auto simp: live_keys_def split: option.splits)
    have "\<exists>D. D \<subseteq> live_keys m \<and> map_of m' = mark D m \<and> cnt' = cnt + int (card D) \<and>
        D \<subseteq> {k. \<exists>x\<in>set (q @ kids m cur). (x, k) \<in> (child (tree_of m))\<^sup>*} \<and>
       (\<forall>k n. tree_of m k = Some n \<longrightarrow> k \<notin> D \<longrightarrow>
         k \<notin> set (q @ kids m cur) \<and> nd_ParentID n \<notin> D \<union> set (q @ kids m cur))"
    proof (cases "map_of m cur")
      case None
      then show ?thesis using "2.IH"(1) run by blast
    next
      case (Some n)
      then have "\<not> \<not> mn_deleted n" using False by (auto simp: live_keys_def)
      then show ?thesis using "2.IH"(3) [OF Some _ run] by blast
    qed
    then obtain D where D: "D \<subseteq> live_keys m" "map_of m' = mark D m" "cnt' = cnt + int (card D)"
      "D \<subseteq> {k. \<exists>x\<in>set (q @ kids m cur). (x, k) \<in> (child (tree_of m))\<^sup>*}"
      "\<And>k n. tree_of m k = Some n \<Longrightarrow> k \<notin> D \<Longrightarrow>
         k \<notin> set (q @ kids m cur) \<and> nd_ParentID n \<notin> D \<union> set (q @ kids m cur)" by blast
    have "\<exists>x\<in>set (cur # q). (x, k) \<in> (child (tree_of m))\<^sup>*" if k: "k \<in> D" for k
    proof -
      obtain x where x: "x \<in> set q \<or> x \<in> set (kids m cur)" "(x, k) \<in> (child (tree_of m))\<^sup>*"
        using D(4) k by auto
      then show ?thesis by (meson converse_rtrancl_into_rtrancl kids_child list.set_intros)
    qed
    moreover have "k \<notin> set (cur # q) \<and> nd_ParentID n \<notin> D \<union> set (cur # q)"
      if k: "tree_of m k = Some n" "k \<notin> D" for k n
    proof -
      have c: "k \<notin> set (q @ kids m cur)" "nd_ParentID n \<notin> D \<union> set (q @ kids m cur)" using D(5) k by blast+
      moreover have "k \<noteq> cur" using k(1) False dom_tree_of [of m] by auto
      moreover have "nd_ParentID n \<noteq> cur" using c(1) k kids_child [of k m cur] by (auto simp: child_def)
      ultimately show ?thesis by auto
    qed
    ultimately show ?thesis using D(1,2,3) by (intro exI [of _ D]) auto
  qed
qed

lemma del_loop_subtree:
  assumes "del_loop m [i] 0 = (m', cnt)" and "i \<in> live_keys m"
  shows "map_of m' = mark (subtree (tree_of m) i) m" "cnt = int (card (subtree (tree_of m) i))"
    "subtree (tree_of m) i \<subseteq> live_keys m"
proof -
  obtain D where D: "D \<subseteq> live_keys m" "map_of m' = mark D m" "cnt = int (card D)"
    "D \<subseteq> subtree (tree_of m) i"
    "\<And>k n. tree_of m k = Some n \<Longrightarrow> k \<notin> D \<Longrightarrow> k \<noteq> i \<and> nd_ParentID n \<notin> D"
    using del_loop_spec [OF assms(1)] by (auto simp: subtree_def)
  have "k \<in> D" if "(i, k) \<in> (child (tree_of m))\<^sup>*" for k
    using that
  proof (induction rule: rtrancl_induct)
    case base
    then show ?case using D(5) assms(2) dom_tree_of [of m] by blast
  next
    case (step p k)
    then show ?case using D(5) by (auto simp: child_def)
  qed
  then have "D = subtree (tree_of m) i" using D(4) by (auto simp: subtree_def)
  with D show "map_of m' = mark (subtree (tree_of m) i) m" "cnt = int (card (subtree (tree_of m) i))"
    "subtree (tree_of m) i \<subseteq> live_keys m" by simp_all
qed

lemma tree_of_mark: "map_of m' = mark D m \<Longrightarrow> tree_of m' = tree_of m |` (- D)"
  by (rule ext) (auto simp: tree_of_def mark_def restrict_map_def split: option.splits)


section \<open>Invariants\<close>

text \<open>Ids are the keys, lie below the counter, and no two nodes share a parent and a slug.\<close>

definition nodes_inv :: "memContent \<Rightarrow> bool" where
  "nodes_inv s \<longleftrightarrow> distinct (map fst (mc_nodes s)) \<and> 0 \<le> mc_nextID s \<and>
     (\<forall>k n. map_of (mc_nodes s) k = Some n \<longrightarrow>
        nd_ID (mn_node n) = k \<and> mn_seq n = k \<and> 1 \<le> k \<and> k \<le> mc_nextID s) \<and>
     (\<forall>k n k' n'. map_of (mc_nodes s) k = Some n \<longrightarrow> map_of (mc_nodes s) k' = Some n' \<longrightarrow>
        nd_ParentID (mn_node n) = nd_ParentID (mn_node n') \<longrightarrow> nd_Slug (mn_node n) = nd_Slug (mn_node n') \<longrightarrow>
        k = k')"

lemma nodes_invD:
  assumes "nodes_inv s"
  shows "distinct (map fst (mc_nodes s))" "0 \<le> mc_nextID s"
    "map_of (mc_nodes s) k = Some n \<Longrightarrow> nd_ID (mn_node n) = k \<and> mn_seq n = k \<and> 1 \<le> k \<and> k \<le> mc_nextID s"
    "map_of (mc_nodes s) k = Some n \<Longrightarrow> map_of (mc_nodes s) k' = Some n' \<Longrightarrow>
     nd_ParentID (mn_node n) = nd_ParentID (mn_node n') \<Longrightarrow> nd_Slug (mn_node n) = nd_Slug (mn_node n') \<Longrightarrow> k = k'"
  using assms unfolding nodes_inv_def by blast+

text \<open>A live module is at the root, any other live node has a live parent of the type that
  \<open>parentType\<close> gives.\<close>

definition place_ok :: "tree \<Rightarrow> string \<Rightarrow> int \<Rightarrow> bool" where
  "place_ok T t p \<longleftrightarrow>
     (if t = NodeModule then p = 0
      else p \<noteq> 0 \<and> (\<exists>n. T p = Some n \<and> parentType t = Some (nd_Type n)))"

definition tree_ok :: "tree \<Rightarrow> bool" where
  "tree_ok T \<longleftrightarrow> T 0 = None \<and> (\<forall>k n. T k = Some n \<longrightarrow> place_ok T (nd_Type n) (nd_ParentID n))"

lemma liveLocked_Inr: "liveLocked s i = Inr n \<longleftrightarrow> map_of (mc_nodes s) i = Some n \<and> \<not> mn_deleted n"
  by (auto simp: liveLocked_def split: option.splits)

lemma liveLocked_tree: "isOk (liveLocked s i) \<longleftrightarrow> tree_of (mc_nodes s) i \<noteq> None"
  by (auto simp: liveLocked_def tree_of_def split: option.splits)

lemma put_checks_Inr:
  assumes "put_checks valid inp s = Inr (slug, data, sv)"
  shows "cleanSlug (ni_Slug inp) = Inr slug" "cleanNodeData valid (ni_Data inp) = Inr data"
    "cleanSchemaVersion (ni_SchemaVersion inp) = Inr sv"
    "place_ok (tree_of (mc_nodes s)) (ni_Type inp) (ni_ParentID inp)"
proof -
  obtain parent where p: "(if ni_ParentID inp \<noteq> 0
            then bindR (liveLocked s (ni_ParentID inp)) (\<lambda>p. Inr (Some (mn_node p)))
            else Inr None) = Inr parent" "checkParent (ni_Type inp) parent = Inr ()"
    and c: "cleanSlug (ni_Slug inp) = Inr slug" "cleanNodeData valid (ni_Data inp) = Inr data"
    "cleanSchemaVersion (ni_SchemaVersion inp) = Inr sv"
    using assms by (auto simp: put_checks_def bindR_eq_Inr)
  show "cleanSlug (ni_Slug inp) = Inr slug" "cleanNodeData valid (ni_Data inp) = Inr data"
    "cleanSchemaVersion (ni_SchemaVersion inp) = Inr sv" by (rule c)+
  show "place_ok (tree_of (mc_nodes s)) (ni_Type inp) (ni_ParentID inp)"
    using p by (auto simp: checkParent_Inr place_ok_def bindR_eq_Inr liveLocked_Inr tree_of_Some
        split: if_splits)
qed

lemma parentType_inj: "parentType t = Some p \<Longrightarrow> parentType t' = Some p \<Longrightarrow> p \<noteq> [] \<Longrightarrow> t = t'"
  by (auto simp: parentType_def split: if_splits)

lemma parentType_irrefl: "parentType t \<noteq> Some t"
  by (auto simp: parentType_def node_type_defs)

lemma parentType_not_Nil: "parentType t = Some [] \<longleftrightarrow> t = NodeModule"
  by (auto simp: parentType_def)

lemma place_type_unique:
  assumes "place_ok T t p" and "place_ok T t' p" and "T 0 = None"
  shows "t = t'"
proof (cases "p = 0")
  case False
  then obtain n where "T p = Some n" "parentType t = Some (nd_Type n)" "parentType t' = Some (nd_Type n)"
    "t \<noteq> NodeModule" using assms by (auto simp: place_ok_def split: if_splits)
  then show ?thesis using parentType_inj parentType_not_Nil by metis
qed (use assms in \<open>auto simp: place_ok_def split: if_splits\<close>)

lemma tree_ok_put:
  assumes ok: "tree_ok T" and place: "place_ok T (nd_Type nd) (nd_ParentID nd)" and k: "k \<noteq> 0"
    and old: "\<And>n. T k = Some n \<Longrightarrow> nd_ParentID n = nd_ParentID nd"
  shows "tree_ok (T(k \<mapsto> nd))"
proof -
  have T0: "T 0 = None" using ok by (simp add: tree_ok_def)
  have self: "nd_ParentID nd \<noteq> k"
  proof
    assume e: "nd_ParentID nd = k"
    then obtain p where p: "T k = Some p" using place k by (auto simp: place_ok_def split: if_splits)
    then have "place_ok T (nd_Type p) k" using ok old [OF p] e by (auto simp: tree_ok_def)
    then show False using p k parentType_irrefl by (auto simp: place_ok_def split: if_splits)
  qed
  have same: "nd_Type n = nd_Type nd" if n: "T k = Some n" for n
  proof -
    have "place_ok T (nd_Type n) (nd_ParentID n)" using ok n by (simp add: tree_ok_def)
    then have "place_ok T (nd_Type n) (nd_ParentID nd)" using old [OF n] by simp
    then show ?thesis using place T0 by (rule place_type_unique)
  qed
  have "place_ok (T(k \<mapsto> nd)) (nd_Type n) (nd_ParentID n)" if n: "(T(k \<mapsto> nd)) j = Some n" for j n
  proof (cases "j = k")
    case True
    then show ?thesis using n place self by (auto simp: place_ok_def)
  next
    case False
    then have "place_ok T (nd_Type n) (nd_ParentID n)" using n ok by (auto simp: tree_ok_def)
    then show ?thesis using same by (auto simp: place_ok_def)
  qed
  then show ?thesis using T0 k by (auto simp: tree_ok_def)
qed

lemma tree_ok_delete:
  assumes "tree_ok T" and "i \<noteq> 0"
  shows "tree_ok (T |` (- subtree T i))"
  unfolding tree_ok_def
proof (intro conjI allI impI)
  show "(T |` (- subtree T i)) 0 = None" using assms by (simp add: tree_ok_def restrict_map_def)
  fix k n assume n: "(T |` (- subtree T i)) k = Some n"
  then have k: "T k = Some n" "(i, k) \<notin> (child T)\<^sup>*"
    by (auto simp: restrict_map_def subtree_def split: if_splits)
  then have p: "place_ok T (nd_Type n) (nd_ParentID n)" using assms(1) by (auto simp: tree_ok_def)
  have "nd_ParentID n \<notin> subtree T i"
    using k by (auto simp: subtree_def child_def intro: rtrancl_into_rtrancl)
  then show "place_ok (T |` (- subtree T i)) (nd_Type n) (nd_ParentID n)"
    using p by (auto simp: place_ok_def restrict_map_def)
qed


section \<open>What the operations do to the tree\<close>

lemma tree_of_put: "tree_of (al_put k n m) = (tree_of m)(k := (if mn_deleted n then None else Some (mn_node n)))"
  by (rule ext) (simp add: tree_of_def)

definition other_state :: "memContent \<Rightarrow> memContent \<Rightarrow> bool" where
  "other_state s s' \<longleftrightarrow> mc_pages s' = mc_pages s \<and> mc_current s' = mc_current s"

lemma find_entry:
  assumes "find P (entries m) = Some (k, n)"
  shows "map_of m k = Some n" "P (k, n)"
  using assms by (auto simp: find_Some_iff entries_iff [symmetric] in_set_conv_nth)

lemma find_no_entry: "find P (entries m) = None \<Longrightarrow> map_of m k = Some n \<Longrightarrow> \<not> P (k, n)"
  by (auto simp: find_None_iff entries_iff)

lemma nodes_inv_put:
  assumes inv: "nodes_inv s" and i: "i = k" "1 \<le> k" "mc_nextID s \<le> i'" "k \<le> i'"
    and n: "nd_ID (mn_node n) = k" "mn_seq n = k"
    and u: "\<And>k' n'. map_of (mc_nodes s) k' = Some n' \<Longrightarrow> nd_ParentID (mn_node n') = nd_ParentID (mn_node n) \<Longrightarrow>
       nd_Slug (mn_node n') = nd_Slug (mn_node n) \<Longrightarrow> k' = k"
  shows "nodes_inv (s\<lparr>mc_nextID := i', mc_nodes := al_put k n (mc_nodes s)\<rparr>)"
  unfolding nodes_inv_def
proof (intro conjI allI impI)
  show "distinct (map fst (mc_nodes (s\<lparr>mc_nextID := i', mc_nodes := al_put k n (mc_nodes s)\<rparr>)))"
    using nodes_invD(1) [OF inv] by (simp add: distinct_al_put)
  show "0 \<le> mc_nextID (s\<lparr>mc_nextID := i', mc_nodes := al_put k n (mc_nodes s)\<rparr>)"
    using i by simp
  fix j m assume m: "map_of (mc_nodes (s\<lparr>mc_nextID := i', mc_nodes := al_put k n (mc_nodes s)\<rparr>)) j = Some m"
  then have j: "j = k \<and> m = n \<or> j \<noteq> k \<and> map_of (mc_nodes s) j = Some m" by (auto split: if_splits)
  then show "nd_ID (mn_node m) = j" "mn_seq m = j" "1 \<le> j"
    "j \<le> mc_nextID (s\<lparr>mc_nextID := i', mc_nodes := al_put k n (mc_nodes s)\<rparr>)"
    using nodes_invD(3) [OF inv, of j m] n i by auto
  fix j' m' assume m': "map_of (mc_nodes (s\<lparr>mc_nextID := i', mc_nodes := al_put k n (mc_nodes s)\<rparr>)) j' = Some m'"
    and e: "nd_ParentID (mn_node m) = nd_ParentID (mn_node m')" "nd_Slug (mn_node m) = nd_Slug (mn_node m')"
  have j': "j' = k \<and> m' = n \<or> j' \<noteq> k \<and> map_of (mc_nodes s) j' = Some m'" using m' by (auto split: if_splits)
  show "j = j'"
    using j
  proof (elim disjE conjE)
    assume a: "j = k" "m = n"
    show ?thesis using j'
    proof (elim disjE conjE)
      assume "j' \<noteq> k" "map_of (mc_nodes s) j' = Some m'"
      with u [of j' m'] e a show ?thesis by simp
    qed (simp add: a)
  next
    assume a: "j \<noteq> k" "map_of (mc_nodes s) j = Some m"
    show ?thesis using j'
    proof (elim disjE conjE)
      assume "j' = k" "m' = n"
      with u [of j m] e a show ?thesis by simp
    next
      assume "map_of (mc_nodes s) j' = Some m'"
      with nodes_invD(4) [OF inv a(2)] e show ?thesis by blast
    qed
  qed
qed

lemma PutNode_spec:
  assumes inv: "nodes_inv s" and put: "PutNode valid now inp s = (Inr nd, s')"
  shows "nodes_inv s'" "other_state s s'"
    "tree_of (mc_nodes s') = (tree_of (mc_nodes s))(nd_ID nd \<mapsto> nd)" "1 \<le> nd_ID nd"
    "put_checks valid inp s = Inr (nd_Slug nd, nd_Data nd, nd_SchemaVersion nd)"
    "nd_ParentID nd = ni_ParentID inp" "nd_Type nd = ni_Type inp" "nd_Title nd = ni_Title inp"
    "nd_UpdatedAt nd = now"
    "\<And>k n. map_of (mc_nodes s) k = Some n \<Longrightarrow>
       nd_ID nd = k \<longleftrightarrow> nd_ParentID (mn_node n) = ni_ParentID inp \<and> nd_Slug (mn_node n) = nd_Slug nd"
proof -
  obtain slug data sv where c: "put_checks valid inp s = Inr (slug, data, sv)"
    using put by (auto simp: PutNode_def split: sum.splits)
  have "nodes_inv s' \<and> other_state s s' \<and>
    tree_of (mc_nodes s') = (tree_of (mc_nodes s))(nd_ID nd \<mapsto> nd) \<and> 1 \<le> nd_ID nd \<and>
    nd_Slug nd = slug \<and> nd_Data nd = data \<and> nd_SchemaVersion nd = sv \<and>
    nd_ParentID nd = ni_ParentID inp \<and> nd_Type nd = ni_Type inp \<and> nd_Title nd = ni_Title inp \<and>
    nd_UpdatedAt nd = now \<and> (\<forall>k n. map_of (mc_nodes s) k = Some n \<longrightarrow>
       (nd_ID nd = k \<longleftrightarrow> nd_ParentID (mn_node n) = ni_ParentID inp \<and> nd_Slug (mn_node n) = slug))"
  proof (cases "find (\<lambda>(_, n). nd_ParentID (mn_node n) = ni_ParentID inp \<and> nd_Slug (mn_node n) = slug)
                  (entries (mc_nodes s))")
    case (Some x)
    obtain k n where x: "x = (k, n)" by fastforce
    note kn = find_entry [OF Some [unfolded x], simplified]
    let ?nd = "(mn_node n)\<lparr>nd_Type := ni_Type inp, nd_Title := ni_Title inp, nd_Data := data,
                                    nd_SchemaVersion := sv, nd_UpdatedAt := now\<rparr>"
    have r: "nd = ?nd" "s' = s\<lparr>mc_nodes := al_put k (n\<lparr>mn_node := ?nd, mn_deleted := False\<rparr>) (mc_nodes s)\<rparr>"
      using put Some by (auto simp: PutNode_def c x Let_def)
    note id = nodes_invD(3) [OF inv kn(1)]
    have "nodes_inv (s\<lparr>mc_nextID := mc_nextID s, mc_nodes := al_put k (n\<lparr>mn_node := ?nd, mn_deleted := False\<rparr>) (mc_nodes s)\<rparr>)"
    proof (rule nodes_inv_put [OF inv refl])
      fix k' n' assume e: "map_of (mc_nodes s) k' = Some n'"
        "nd_ParentID (mn_node n') = nd_ParentID (mn_node (n\<lparr>mn_node := ?nd, mn_deleted := False\<rparr>))"
        "nd_Slug (mn_node n') = nd_Slug (mn_node (n\<lparr>mn_node := ?nd, mn_deleted := False\<rparr>))"
      then show "k' = k" by (intro nodes_invD(4) [OF inv e(1) kn(1)]) simp_all
    qed (use id in simp_all)
    then have i: "nodes_inv s'" by (simp add: r(2))
    have same: "k = j \<longleftrightarrow> nd_ParentID (mn_node m) = ni_ParentID inp \<and> nd_Slug (mn_node m) = slug"
      if "map_of (mc_nodes s) j = Some m" for j m
      using that kn nodes_invD(4) [OF inv that kn(1)] by auto
    show ?thesis using i kn id same by (auto simp: r tree_of_put other_state_def)
  next
    case None
    let ?i = "mc_nextID s + 1"
    let ?nd = "\<lparr>nd_ID = ?i, nd_ParentID = ni_ParentID inp, nd_Type = ni_Type inp,
                          nd_Slug = slug, nd_Title = ni_Title inp, nd_Data = data,
                          nd_SchemaVersion = sv, nd_CreatedAt = now, nd_UpdatedAt = now\<rparr>"
    have r: "nd = ?nd" "s' = s\<lparr>mc_nextID := ?i,
        mc_nodes := al_put ?i \<lparr>mn_node = ?nd, mn_deleted = False, mn_seq = ?i\<rparr> (mc_nodes s)\<rparr>"
      using put None by (auto simp: PutNode_def c Let_def)
    note no = find_no_entry [OF None, simplified]
    have i: "nodes_inv s'" unfolding r(2)
      by (rule nodes_inv_put [OF inv refl]) (use nodes_invD(2) [OF inv] no in auto)
    have "?i \<noteq> j" if "map_of (mc_nodes s) j = Some m" for j m
      using nodes_invD(3) [OF inv that] by auto
    then show ?thesis using i no nodes_invD(2) [OF inv] by (auto simp: r tree_of_put other_state_def)
  qed
  then show "nodes_inv s'" "other_state s s'"
    "tree_of (mc_nodes s') = (tree_of (mc_nodes s))(nd_ID nd \<mapsto> nd)" "1 \<le> nd_ID nd"
    "put_checks valid inp s = Inr (nd_Slug nd, nd_Data nd, nd_SchemaVersion nd)"
    "nd_ParentID nd = ni_ParentID inp" "nd_Type nd = ni_Type inp" "nd_Title nd = ni_Title inp"
    "nd_UpdatedAt nd = now"
    "\<And>k n. map_of (mc_nodes s) k = Some n \<Longrightarrow>
       nd_ID nd = k \<longleftrightarrow> nd_ParentID (mn_node n) = ni_ParentID inp \<and> nd_Slug (mn_node n) = nd_Slug nd"
    using c by auto
qed


lemma set_node_simps [simp]:
  "mc_nextID (set_node i f s) = mc_nextID s" "mc_pages (set_node i f s) = mc_pages s"
  "mc_current (set_node i f s) = mc_current s"
  by (simp_all add: set_node_def split: option.split)

lemma upd_nodes:
  assumes "map_of (mc_nodes s) i = Some n"
  shows "upd i f s = s\<lparr>mc_nodes := al_put i (n\<lparr>mn_node := f (mn_node n)\<rparr>) (mc_nodes s)\<rparr>"
  using assms by (simp add: upd_def set_node_def)

definition keeps_place :: "(node \<Rightarrow> node) \<Rightarrow> bool" where
  "keeps_place f \<longleftrightarrow> (\<forall>n. nd_ID (f n) = nd_ID n \<and> nd_ParentID (f n) = nd_ParentID n \<and>
     nd_Slug (f n) = nd_Slug n \<and> nd_Type (f n) = nd_Type n)"

lemma upd_spec:
  assumes inv: "nodes_inv s" and n: "map_of (mc_nodes s) i = Some n" "\<not> mn_deleted n" and f: "keeps_place f"
  shows "nodes_inv (upd i f s)" "other_state s (upd i f s)"
    "tree_of (mc_nodes (upd i f s)) = (tree_of (mc_nodes s))(i \<mapsto> f (mn_node n))"
proof -
  have "nodes_inv (s\<lparr>mc_nextID := mc_nextID s, mc_nodes := al_put i (n\<lparr>mn_node := f (mn_node n)\<rparr>) (mc_nodes s)\<rparr>)"
  proof (rule nodes_inv_put [OF inv refl])
    fix k' n' assume e: "map_of (mc_nodes s) k' = Some n'"
      "nd_ParentID (mn_node n') = nd_ParentID (mn_node (n\<lparr>mn_node := f (mn_node n)\<rparr>))"
      "nd_Slug (mn_node n') = nd_Slug (mn_node (n\<lparr>mn_node := f (mn_node n)\<rparr>))"
    then show "k' = i" using f by (intro nodes_invD(4) [OF inv e(1) n(1)]) (simp_all add: keeps_place_def)
  qed (use nodes_invD(3) [OF inv n(1)] f in \<open>simp_all add: keeps_place_def\<close>)
  then show "nodes_inv (upd i f s)" by (simp add: upd_nodes [OF n(1)])
  show "other_state s (upd i f s)" "tree_of (mc_nodes (upd i f s)) = (tree_of (mc_nodes s))(i \<mapsto> f (mn_node n))"
    using n(2) by (simp_all add: upd_nodes [OF n(1)] other_state_def tree_of_put)
qed

lemma tree_ok_upd:
  assumes "tree_ok T" and "T i = Some n" and "keeps_place f"
  shows "tree_ok (T(i \<mapsto> f n))"
proof (rule tree_ok_put)
  show "i \<noteq> 0" using assms(1,2) by (auto simp: tree_ok_def)
  show "place_ok T (nd_Type (f n)) (nd_ParentID (f n))"
    using assms by (simp add: tree_ok_def keeps_place_def)
qed (use assms in \<open>auto simp: keeps_place_def\<close>)

text \<open>An update changes one live node, its place excepted, or nothing; it may change it when it fails.\<close>

lemma args_keep:
  "data_arg valid data = Inr f \<Longrightarrow> keeps_place f"
  "version_arg v = Inr g \<Longrightarrow> keeps_place g"
  "keeps_place (title_arg title)"
  by (auto simp: data_arg_def version_arg_def title_arg_def keeps_place_def bindR_eq_Inr split: option.splits)

lemma keeps_place_comp: "keeps_place f \<Longrightarrow> keeps_place g \<Longrightarrow> keeps_place (\<lambda>x. f (g x))"
  by (simp add: keeps_place_def)

lemma UpdateNode_step:
  assumes "UpdateNode valid now i title data sv s = (r, s')"
  shows "s' = s \<or> (\<exists>f n. keeps_place f \<and> map_of (mc_nodes s) i = Some n \<and> \<not> mn_deleted n \<and> s' = upd i f s \<and>
           (case r of Inl _ \<Rightarrow> True | Inr nd \<Rightarrow> nd = f (mn_node n)))"
proof (cases "liveLocked s i")
  case (Inr n)
  note n = Inr [unfolded liveLocked_Inr]
  show ?thesis
  proof (cases "data_arg valid data")
    case d: (Inr f1)
    note f1 = args_keep(1) [OF d]
    show ?thesis
    proof (cases "version_arg sv")
      case (Inl e)
      then have "s' = upd i f1 s \<and> r = Inl e" using assms d
        by (simp add: UpdateNode_def \<open>liveLocked s i = Inr n\<close>)
      then show ?thesis using f1 n by auto
    next
      case v: (Inr f2)
      let ?f = "\<lambda>x. (title_arg title (f2 (f1 x)))\<lparr>nd_UpdatedAt := now\<rparr>"
      have "r = Inr (?f (mn_node n)) \<and> s' = upd i ?f s" using assms d v
        by (auto simp: UpdateNode_def \<open>liveLocked s i = Inr n\<close> Let_def)
      moreover have "keeps_place ?f"
        using keeps_place_comp [OF args_keep(3) keeps_place_comp [OF args_keep(2) [OF v] f1], of title]
        by (simp add: keeps_place_def)
      ultimately show ?thesis using n by auto
    qed
  qed (use assms Inr in \<open>simp add: UpdateNode_def\<close>)
qed (use assms in \<open>simp add: UpdateNode_def\<close>)

lemma UpdateNode_inv:
  assumes "nodes_inv s" and "UpdateNode valid now i title data sv s = (r, s')"
  shows "nodes_inv s'" "other_state s s'" "tree_ok (tree_of (mc_nodes s)) \<Longrightarrow> tree_ok (tree_of (mc_nodes s'))"
proof -
  have "nodes_inv s' \<and> other_state s s' \<and> (tree_ok (tree_of (mc_nodes s)) \<longrightarrow> tree_ok (tree_of (mc_nodes s')))"
    using UpdateNode_step [OF assms(2)]
  proof (elim disjE exE conjE)
    fix f n assume h: "keeps_place f" "map_of (mc_nodes s) i = Some n" "\<not> mn_deleted n" "s' = upd i f s"
    have "tree_of (mc_nodes s) i = Some (mn_node n)" using h by (simp add: tree_of_def)
    then show ?thesis using upd_spec [OF assms(1) h(2,3,1)] tree_ok_upd [OF _ _ h(1)] h(4) by simp
  qed (use assms in \<open>simp add: other_state_def\<close>)
  then show "nodes_inv s'" "other_state s s'" "tree_ok (tree_of (mc_nodes s)) \<Longrightarrow> tree_ok (tree_of (mc_nodes s'))"
    by blast+
qed

lemma distinct_kill: "distinct (map fst m) \<Longrightarrow> distinct (map fst (kill k m))"
  by (simp add: kill_def distinct_al_put split: option.split)

lemma del_loop_distinct:
  "del_loop m q cnt = (m', cnt') \<Longrightarrow> distinct (map fst m) \<Longrightarrow> distinct (map fst m')"
  by (induction m q cnt rule: del_loop.induct) (auto simp: distinct_kill split: option.splits if_splits)

lemma DeleteNode_spec:
  assumes inv: "nodes_inv s" and del: "DeleteNode i s = (Inr cnt, s')"
  shows "nodes_inv s'" "other_state s s'" "tree_of (mc_nodes s) i \<noteq> None"
    "tree_of (mc_nodes s') = tree_of (mc_nodes s) |` (- subtree (tree_of (mc_nodes s)) i)"
    "cnt = int (card (subtree (tree_of (mc_nodes s)) i))"
proof -
  let ?D = "subtree (tree_of (mc_nodes s)) i"
  obtain n m where n: "liveLocked s i = Inr n" and l: "del_loop (mc_nodes s) [i] 0 = (m, cnt)"
    and s': "s' = s\<lparr>mc_nodes := m\<rparr>"
    using del by (auto simp: DeleteNode_def split: sum.splits prod.splits)
  have live: "i \<in> live_keys (mc_nodes s)" using n by (auto simp: liveLocked_Inr live_keys_def)
  note d = del_loop_subtree [OF l live]
  show "tree_of (mc_nodes s) i \<noteq> None" using live dom_tree_of by blast
  show "other_state s s'" by (simp add: s' other_state_def)
  show "tree_of (mc_nodes s') = tree_of (mc_nodes s) |` (- ?D)" using tree_of_mark [OF d(1)] by (simp add: s')
  show "cnt = int (card ?D)" by (rule d(2))
  have m: "map_of m k = Some x \<Longrightarrow> \<exists>y. map_of (mc_nodes s) k = Some y \<and> mn_node x = mn_node y \<and> mn_seq x = mn_seq y" for k x
    by (auto simp: d(1) mark_def split: if_splits)
  show "nodes_inv s'" unfolding nodes_inv_def
  proof (intro conjI allI impI)
    show "distinct (map fst (mc_nodes s'))" using del_loop_distinct [OF l] nodes_invD(1) [OF inv] by (simp add: s')
    show "0 \<le> mc_nextID s'" using nodes_invD(2) [OF inv] by (simp add: s')
    fix k x assume x: "map_of (mc_nodes s') k = Some x"
    then obtain y where y: "map_of (mc_nodes s) k = Some y" "mn_node x = mn_node y" "mn_seq x = mn_seq y"
      using m by (auto simp: s')
    show "nd_ID (mn_node x) = k" "mn_seq x = k" "1 \<le> k" "k \<le> mc_nextID s'"
      using nodes_invD(3) [OF inv y(1)] y by (simp_all add: s')
    fix k' x' assume x': "map_of (mc_nodes s') k' = Some x'"
      and e: "nd_ParentID (mn_node x) = nd_ParentID (mn_node x')" "nd_Slug (mn_node x) = nd_Slug (mn_node x')"
    obtain y' where y': "map_of (mc_nodes s) k' = Some y'" "mn_node x' = mn_node y'" using x' m by (auto simp: s')
    show "k = k'"
      by (rule nodes_invD(4) [OF inv y(1) y'(1)]) (use e in \<open>simp_all only: y(2) y'(2)\<close>)
  qed
qed

lemma DeleteNode_error: "DeleteNode i s = (Inl e, s') \<Longrightarrow> s' = s \<and> e = NotFound \<and> tree_of (mc_nodes s) i = None"
  by (auto simp: DeleteNode_def liveLocked_def tree_of_def split: sum.splits prod.splits option.splits if_splits)

lemma MoveNode_spec:
  assumes inv: "nodes_inv s" and mv: "MoveNode i p s = (Inr u, s')"
  obtains n where "tree_of (mc_nodes s) i = Some n" "nodes_inv s'" "other_state s s'"
    "tree_of (mc_nodes s') = (tree_of (mc_nodes s))(i \<mapsto> n\<lparr>nd_ParentID := p\<rparr>)"
proof -
  obtain n where n: "map_of (mc_nodes s) i = Some n" "\<not> mn_deleted n"
    using mv by (auto simp: MoveNode_def liveLocked_def split: sum.splits option.splits if_splits)
  then have l: "liveLocked s i = Inr n" by (simp add: liveLocked_Inr)
  have t: "tree_of (mc_nodes s) i = Some (mn_node n)" using n by (simp add: tree_of_def)
  show thesis
  proof (cases "nd_ParentID (mn_node n) = p")
    case True
    then have "s' = s" using mv l by (simp add: MoveNode_def)
    moreover have "mn_node n = (mn_node n)\<lparr>nd_ParentID := p\<rparr>" using True by simp
    ultimately show thesis using that [OF t] inv t by (simp add: other_state_def fun_upd_idem)
  next
    case False
    let ?n = "n\<lparr>mn_node := (mn_node n)\<lparr>nd_ParentID := p\<rparr>\<rparr>"
    have s': "s' = s\<lparr>mc_nodes := al_put i ?n (mc_nodes s)\<rparr>"
      and free: "\<And>k m. map_of (mc_nodes s) k = Some m \<Longrightarrow>
        \<not> (nd_ParentID (mn_node m) = p \<and> nd_Slug (mn_node m) = nd_Slug (mn_node n))"
      using mv l False upd_nodes [OF n(1), of "\<lambda>x. x\<lparr>nd_ParentID := p\<rparr>"]
      by (auto simp: MoveNode_def list_ex_iff entries_iff split: if_splits)
    have "nodes_inv (s\<lparr>mc_nextID := mc_nextID s, mc_nodes := al_put i ?n (mc_nodes s)\<rparr>)"
      by (rule nodes_inv_put [OF inv refl]) (use nodes_invD(3) [OF inv n(1)] free in auto)
    then show thesis using that [OF t] n(2) by (simp add: s' other_state_def tree_of_put)
  qed
qed

lemma MoveNode_error: "MoveNode i p s = (Inl e, s') \<Longrightarrow> s' = s \<and> (e = NotFound \<or> e = Conflict)"
  by (auto simp: MoveNode_def liveLocked_def split: sum.splits prod.splits option.splits if_splits)

end
