(* ===== verification/ContentRuns.thy ===== *)
theory ContentRuns
  imports ContentTree
begin

text \<open>
  Reads of the memory store (children, pages of a list, pages of the site with their versions),
  runs of its operations and the properties of the content store.
\<close>

section \<open>Children\<close>

lemma nodes_seq_fst: "nodes_inv s \<Longrightarrow> map (\<lambda>x. mn_seq (snd x)) (mc_nodes s) = map fst (mc_nodes s)"
  by (auto simp: nodes_inv_def)

lemma live_entry: "nodes_inv s \<Longrightarrow> (k, n) \<in> set (mc_nodes s) \<longleftrightarrow> map_of (mc_nodes s) k = Some n"
  by (simp add: nodes_inv_def)

lemma children_of_set:
  "set (children_of p t s) = {n. \<exists>k. tree_of (mc_nodes s) k = Some n \<and> nd_ParentID n = p \<and> nd_Type n = t}"
proof -
  have "set (map snd (entries (mc_nodes s))) = {n. \<exists>k. map_of (mc_nodes s) k = Some n}"
    by (force simp: entries_iff [symmetric])
  then show ?thesis by (auto simp: children_of_def tree_of_Some)
qed

lemma children_of_sorted:
  assumes "nodes_inv s"
  shows "sorted_wrt (\<lambda>a b. nd_ID b < nd_ID a) (children_of p t s)"
proof -
  let ?P = "\<lambda>n. \<not> mn_deleted n \<and> nd_ParentID (mn_node n) = p \<and> nd_Type (mn_node n) = t"
  let ?L = "filter ?P (map snd (mc_nodes s))"
  have "map mn_seq (map snd (mc_nodes s)) = map fst (mc_nodes s)"
    using nodes_seq_fst [OF assms] by (simp only: map_map comp_def)
  then have "distinct (map mn_seq (map snd (mc_nodes s)))" using nodes_invD(1) [OF assms] by metis
  then have d: "distinct (map mn_seq ?L)" by (rule distinct_map_filter)
  have id: "mn_seq n = nd_ID (mn_node n)" if n: "n \<in> set ?L" for n
  proof -
    obtain k where "(k, n) \<in> set (mc_nodes s)" using n by auto
    then show ?thesis using nodes_invD(3) [OF assms] live_entry [OF assms] by auto
  qed
  let ?S = "sort_key (\<lambda>n. - mn_seq n) ?L"
  have "sorted (map (\<lambda>n. - mn_seq n) ?S)" by simp
  moreover have "distinct (map mn_seq ?S)" using d by (simp add: distinct_map)
  then have "distinct (map (\<lambda>n. - mn_seq n) ?S)" by (auto simp: distinct_map inj_on_def)
  ultimately have "sorted_wrt (<) (map (\<lambda>n. - mn_seq n) ?S)" by (simp add: strict_sorted_iff)
  then have "sorted_wrt (\<lambda>a b. mn_seq b < mn_seq a) ?S" by (simp add: sorted_wrt_map)
  then have "sorted_wrt (\<lambda>a b. nd_ID (mn_node b) < nd_ID (mn_node a)) ?S"
    by (rule sorted_wrt_mono_rel [rotated]) (use id in simp)
  then show ?thesis
    using nodes_invD(1) [OF assms] by (simp add: children_of_def entries_distinct sorted_wrt_map)
qed

section \<open>Pages of a list\<close>

lemma page_slice_take:
  assumes "1 \<le> page" and "1 \<le> sz" and "page * sz < 2 ^ 63"
  shows "page_slice page sz xs = Inr (take (nat sz) (drop (nat ((page - 1) * sz)) xs))"
proof -
  have s: "0 \<le> (page - 1) * sz" "(page - 1) * sz < page * sz" using assms by (simp_all add: left_diff_distrib)
  then have "wrap64 ((page - 1) * sz) = (page - 1) * sz" "wrap64 (page * sz) = page * sz"
    using assms(3) by (auto intro!: wrap64_id)
  moreover have "page * sz - (page - 1) * sz = sz" by (simp add: left_diff_distrib)
  ultimately show ?thesis using s by (auto simp: page_slice_def Let_def not_le)
qed

lemma ListChildren_page:
  assumes "1 \<le> sz" and "sz \<le> 100" and "(int i + 1) * sz < 2 ^ 63"
  shows "ListChildren p t (int i + 1) sz s =
    Inr \<lparr>np_Items = take (nat sz) (drop (i * nat sz) (children_of p t s)), np_Page = int i + 1,
         np_PageSize = sz, np_Total = int (length (children_of p t s))\<rparr>"
proof -
  have "nat (int i * sz) = i * nat sz" using assms(1) by (simp add: nat_mult_distrib)
  then show ?thesis using assms page_slice_take [of "int i + 1" sz "children_of p t s"]
    by (simp add: ListChildren_def nodePageArgs_def Let_def)
qed

section \<open>Pages of the site\<close>

definition versions :: "memContent \<Rightarrow> string \<Rightarrow> memPageVer list" where
  "versions s p = map_get [] (mc_pages s) p"

definition current :: "memContent \<Rightarrow> string \<Rightarrow> int" where
  "current s p = map_get 0 (mc_current s) p"

text \<open>The versions of a path are numbered from 1 and the current one is one of them.\<close>

definition page_inv :: "memContent \<Rightarrow> bool" where
  "page_inv s \<longleftrightarrow> distinct (map fst (mc_current s)) \<and>
     (\<forall>p. map pg_ver (versions s p) = [1..int (length (versions s p))] \<and>
          0 \<le> current s p \<and> current s p \<le> int (length (versions s p)) \<and>
          (current s p = 0 \<longleftrightarrow> versions s p = []))"

lemma map_get_put: "map_get z (al_put k v m) j = (if j = k then v else map_get z m j)"
  by (simp add: map_get_def)

lemma PutPage_Inr:
  "PutPage now p0 fs0 s = (Inr pv, s') \<longleftrightarrow>
     (\<exists>p fs. cleanPagePath p0 = Inr p \<and> cleanPageFiles fs0 = Inr fs \<and>
        pv = \<lparr>pv_Path = p, pv_Version = int (length (versions s p)) + 1, pv_Files = sortedKeys fs,
              pv_Current = True, pv_CreatedAt = now\<rparr> \<and>
        s' = s\<lparr>mc_pages := al_put p (versions s p @ [\<lparr>pg_ver = int (length (versions s p)) + 1,
                  pg_files = fs, pg_at = now\<rparr>]) (mc_pages s),
               mc_current := al_put p (int (length (versions s p)) + 1) (mc_current s)\<rparr>)"
  by (auto simp: PutPage_def versions_def bindR_def Let_def split: sum.splits)

lemma PutPage_Inl: "PutPage now p0 fs0 s = (Inl e, s') \<Longrightarrow> s' = s"
  by (auto simp: PutPage_def Let_def split: sum.splits prod.splits)

lemma RollbackPage_Inr:
  "RollbackPage p0 v s = (Inr pv, s') \<longleftrightarrow>
     (\<exists>p. cleanPagePath p0 = Inr p \<and> 1 \<le> v \<and> v \<le> int (length (versions s p)) \<and>
        pv = \<lparr>pv_Path = p, pv_Version = pg_ver (versions s p ! nat (v - 1)),
              pv_Files = sortedKeys (pg_files (versions s p ! nat (v - 1))), pv_Current = True,
              pv_CreatedAt = pg_at (versions s p ! nat (v - 1))\<rparr> \<and>
        s' = s\<lparr>mc_current := al_put p v (mc_current s)\<rparr>)"
  by (auto simp: RollbackPage_def versions_def Let_def split: sum.splits if_splits)

lemma RollbackPage_Inl: "RollbackPage p0 v s = (Inl e, s') \<Longrightarrow> s' = s"
  by (auto simp: RollbackPage_def Let_def split: sum.splits if_splits)

lemma page_inv_other: "other_state s s' \<Longrightarrow> page_inv s' = page_inv s"
  by (simp add: other_state_def page_inv_def versions_def current_def)

lemma upto_snoc: "0 \<le> n \<Longrightarrow> [1..n + 1] = [1..n] @ [n + 1]" "0 \<le> n \<Longrightarrow> [1..1 + n] = [1..n] @ [n + 1]" for n :: int
  by (simp_all add: upto_rec2)

lemma PutPage_inv:
  assumes inv: "page_inv s" and put: "PutPage now p0 fs0 s = (r, s')"
  shows "page_inv s'" "mc_nodes s' = mc_nodes s \<and> mc_nextID s' = mc_nextID s"
    "\<exists>more. versions s' p = versions s p @ more"
proof -
  have "page_inv s' \<and> (mc_nodes s' = mc_nodes s \<and> mc_nextID s' = mc_nextID s) \<and>
      (\<exists>more. versions s' p = versions s p @ more)"
  proof (cases r)
    case (Inl e)
    then show ?thesis using put inv PutPage_Inl by blast
  next
    case (Inr pv)
    then obtain q fs where s': "s' = s\<lparr>mc_pages := al_put q (versions s q @ [\<lparr>pg_ver = int (length (versions s q)) + 1,
                  pg_files = fs, pg_at = now\<rparr>]) (mc_pages s),
               mc_current := al_put q (int (length (versions s q)) + 1) (mc_current s)\<rparr>"
      using put PutPage_Inr by blast
    have v: "versions s' = (versions s)(q := versions s q @ [\<lparr>pg_ver = int (length (versions s q)) + 1,
                  pg_files = fs, pg_at = now\<rparr>])"
      by (rule ext) (simp add: s' versions_def map_get_put)
    have c: "current s' = (current s)(q := int (length (versions s q)) + 1)"
      by (rule ext) (simp add: s' current_def map_get_put)
    have "map pg_ver (versions s q) = [1..int (length (versions s q))]" using inv by (simp add: page_inv_def)
    moreover have "distinct (map fst (mc_current s'))"
      using inv by (simp add: s' page_inv_def distinct_al_put)
    ultimately have "page_inv s'" using inv unfolding page_inv_def v c by (simp add: upto_snoc)
    then show ?thesis by (simp add: v) (simp add: s')
  qed
  then show "page_inv s'" "mc_nodes s' = mc_nodes s \<and> mc_nextID s' = mc_nextID s"
    "\<exists>more. versions s' p = versions s p @ more" by simp_all
qed

lemma RollbackPage_inv:
  assumes inv: "page_inv s" and rb: "RollbackPage p0 v s = (r, s')"
  shows "page_inv s'" "mc_nodes s' = mc_nodes s \<and> mc_nextID s' = mc_nextID s" "versions s' p = versions s p"
proof -
  have "page_inv s' \<and> (mc_nodes s' = mc_nodes s \<and> mc_nextID s' = mc_nextID s) \<and> versions s' p = versions s p"
  proof (cases r)
    case (Inl e)
    then show ?thesis using rb inv RollbackPage_Inl by blast
  next
    case (Inr pv)
    then obtain q where q: "1 \<le> v" "v \<le> int (length (versions s q))"
      and s': "s' = s\<lparr>mc_current := al_put q v (mc_current s)\<rparr>"
      using rb RollbackPage_Inr by blast
    have ver: "versions s' = versions s" by (rule ext) (simp add: s' versions_def)
    have cur: "current s' = (current s)(q := v)" by (rule ext) (simp add: s' current_def map_get_put)
    have "distinct (map fst (mc_current s'))" using inv by (simp add: s' page_inv_def distinct_al_put)
    then have "page_inv s'" using inv q unfolding page_inv_def ver cur by auto
    then show ?thesis by (simp add: ver) (simp add: s')
  qed
  then show "page_inv s'" "mc_nodes s' = mc_nodes s \<and> mc_nextID s' = mc_nextID s" "versions s' p = versions s p"
    by simp_all
qed

lemma PageFiles_current:
  "page_inv s \<Longrightarrow> PageFiles p s =
     (if versions s p = [] then Inl NotFound else Inr (pg_files (versions s p ! nat (current s p - 1))))"
  unfolding page_inv_def PageFiles_def Let_def versions_def [symmetric] current_def [symmetric]
  by (metis int_one_le_iff_zero_less less_le not_less)

section \<open>Runs\<close>

datatype content_op =
    OpPut node_input
  | OpUpdate int "string option" "string option" "int option"
  | OpDelete int
  | OpMove int int
  | OpPutPage string files
  | OpRollback string int

fun exec :: "(string \<Rightarrow> bool) \<Rightarrow> string \<Rightarrow> content_op \<Rightarrow> memContent \<Rightarrow> memContent" where
  "exec valid now (OpPut inp) s = snd (PutNode valid now inp s)"
| "exec valid now (OpUpdate i title data sv) s = snd (UpdateNode valid now i title data sv s)"
| "exec valid now (OpDelete i) s = snd (DeleteNode i s)"
| "exec valid now (OpMove i p) s = snd (MoveNode i p s)"
| "exec valid now (OpPutPage p fs) s = snd (PutPage now p fs s)"
| "exec valid now (OpRollback p v) s = snd (RollbackPage p v s)"

text \<open>States reached by the operations that \<open>A\<close> admits, whatever they answer.\<close>

inductive reached :: "(string \<Rightarrow> bool) \<Rightarrow> (content_op \<Rightarrow> bool) \<Rightarrow> memContent \<Rightarrow> bool" for valid A where
  reached_new: "reached valid A newMemContent"
| reached_exec: "reached valid A s \<Longrightarrow> A op \<Longrightarrow> reached valid A (exec valid now op s)"

definition not_move :: "content_op \<Rightarrow> bool" where
  "not_move op = (case op of OpMove _ _ \<Rightarrow> False | _ \<Rightarrow> True)"

lemma new_inv: "nodes_inv newMemContent" "tree_ok (tree_of (mc_nodes newMemContent))" "page_inv newMemContent"
  by (simp_all add: newMemContent_def nodes_inv_def tree_ok_def tree_of_def page_inv_def versions_def
      current_def map_get_def)

lemma PutNode_error: "PutNode valid now inp s = (Inl e, s') \<Longrightarrow> s' = s"
  by (auto simp: PutNode_def Let_def split: sum.splits prod.splits option.splits)

lemma PutNode_tree_ok:
  assumes inv: "nodes_inv s" and ok: "tree_ok (tree_of (mc_nodes s))" and put: "PutNode valid now inp s = (Inr nd, s')"
  shows "tree_ok (tree_of (mc_nodes s'))"
proof -
  note p = PutNode_spec [OF inv put]
  show ?thesis unfolding p(3)
  proof (rule tree_ok_put [OF ok])
    show "place_ok (tree_of (mc_nodes s)) (nd_Type nd) (nd_ParentID nd)"
      unfolding p(6,7) by (rule put_checks_Inr(4) [OF p(5)])
    show "nd_ID nd \<noteq> 0" using p(4) by simp
    fix n assume "tree_of (mc_nodes s) (nd_ID nd) = Some n"
    then obtain m where "map_of (mc_nodes s) (nd_ID nd) = Some m" "mn_node m = n" by (auto simp: tree_of_Some)
    then show "nd_ParentID n = nd_ParentID nd" using p(10) [of "nd_ID nd" m] p(6) by auto
  qed
qed

lemma exec_inv:
  assumes "nodes_inv s" and "page_inv s"
  shows "nodes_inv (exec valid now op s) \<and> page_inv (exec valid now op s) \<and>
    (not_move op \<and> tree_ok (tree_of (mc_nodes s)) \<longrightarrow> tree_ok (tree_of (mc_nodes (exec valid now op s)))) \<and>
    (\<exists>more. versions (exec valid now op s) p = versions s p @ more)"
proof -
  have other: "?thesis" if "nodes_inv (exec valid now op s)" "other_state s (exec valid now op s)"
    "not_move op \<Longrightarrow> tree_ok (tree_of (mc_nodes s)) \<Longrightarrow> tree_ok (tree_of (mc_nodes (exec valid now op s)))"
    using that assms page_inv_other [OF that(2)] by (simp add: other_state_def versions_def)
  have same: "other_state s s" by (simp add: other_state_def)
  show ?thesis
  proof (cases op)
    case (OpPut inp)
    obtain r s' where r: "PutNode valid now inp s = (r, s')" by fastforce
    show ?thesis
    proof (cases r)
      case (Inr nd)
      then show ?thesis using OpPut r PutNode_spec(1,2) [OF assms(1)] PutNode_tree_ok [OF assms(1)]
        by (intro other) auto
    qed (use OpPut r PutNode_error assms in fastforce)
  next
    case (OpUpdate i title data sv)
    obtain r s' where r: "UpdateNode valid now i title data sv s = (r, s')" by fastforce
    show ?thesis using OpUpdate r UpdateNode_inv [OF assms(1) r] by (intro other) simp_all
  next
    case (OpDelete i)
    obtain r s' where r: "DeleteNode i s = (r, s')" by fastforce
    show ?thesis
    proof (cases r)
      case (Inr c)
      note d = DeleteNode_spec [OF assms(1) r [unfolded Inr]]
      have "tree_ok (tree_of (mc_nodes s)) \<Longrightarrow> i \<noteq> 0" using d(3) by (auto simp: tree_ok_def)
      then show ?thesis using OpDelete r Inr d(1,2,4) tree_ok_delete by (intro other) auto
    qed (use OpDelete r DeleteNode_error assms in fastforce)
  next
    case (OpMove i q)
    obtain r s' where r: "MoveNode i q s = (r, s')" by fastforce
    show ?thesis
    proof (cases r)
      case (Inr u)
      then show ?thesis using OpMove r MoveNode_spec [OF assms(1) r [unfolded Inr]]
        by (intro other) (auto simp: not_move_def)
    qed (use OpMove r MoveNode_error assms in fastforce)
  next
    case (OpPutPage q fs)
    obtain r s' where r: "PutPage now q fs s = (r, s')" by fastforce
    note pp = PutPage_inv [OF assms(2) r]
    have "nodes_inv s'" using assms(1) pp(2) by (simp add: nodes_inv_def)
    then show ?thesis using OpPutPage r pp by simp
  next
    case (OpRollback q v)
    obtain r s' where r: "RollbackPage q v s = (r, s')" by fastforce
    note rb = RollbackPage_inv [OF assms(2) r]
    have "nodes_inv s'" using assms(1) rb(2) by (simp add: nodes_inv_def)
    then show ?thesis using OpRollback r rb by simp
  qed
qed

lemma reached_inv: "reached valid A s \<Longrightarrow> nodes_inv s \<and> page_inv s"
  by (induction rule: reached.induct) (auto simp: new_inv exec_inv)

lemma reached_tree_ok: "reached valid A s \<Longrightarrow> (\<And>op. A op \<Longrightarrow> not_move op) \<Longrightarrow> tree_ok (tree_of (mc_nodes s))"
proof (induction rule: reached.induct)
  case (reached_exec s op now)
  then show ?case using exec_inv reached_inv by blast
qed (rule new_inv)

section \<open>Properties\<close>


definition demo_module :: node_input where
  "demo_module = \<lparr>ni_ParentID = 0, ni_Type = ''module'', ni_Slug = ''finance'', ni_Title = ''F'', ni_Data = [],
     ni_SchemaVersion = 0\<rparr>"

definition demo_detail :: node_input where
  "demo_detail = \<lparr>ni_ParentID = 1, ni_Type = ''detail'', ni_Slug = ''d-1'', ni_Title = ''D'', ni_Data = [],
     ni_SchemaVersion = 2\<rparr>"

definition demo_block :: node_input where
  "demo_block = \<lparr>ni_ParentID = 2, ni_Type = ''block'', ni_Slug = ''b'', ni_Title = ''B'', ni_Data = [],
     ni_SchemaVersion = 2\<rparr>"

definition demo_store :: memContent where
  "demo_store = fold (exec (\<lambda>_. True) ''t0'')
     [OpPut demo_module, OpPut demo_detail, OpPut demo_block,
      OpPutPage ''finance/home'' [(''index.html'', ''v1'')], OpPutPage ''finance/home'' [(''index.html'', ''v2'')]]
     newMemContent"

lemma demo_reached: "reached (\<lambda>_. True) not_move demo_store"
  unfolding demo_store_def fold_simps comp_def id_def
  by (intro reached_exec reached_new) (simp_all add: not_move_def)

lemma demo_store_tree:
  "map (\<lambda>k. map_option nd_Slug (tree_of (mc_nodes demo_store) k)) [1, 2, 3, 4] =
     [Some ''finance'', Some ''d-1'', Some ''b'', None]"
  by code_simp


lemma FindChild_live:
  assumes inv: "nodes_inv s" and k: "tree_of (mc_nodes s) k = Some n"
  shows "FindChild (nd_ParentID n) (nd_Type n) (nd_Slug n) s = Inr n"
proof -
  let ?P = "\<lambda>(_, m). \<not> mn_deleted m \<and> nd_ParentID (mn_node m) = nd_ParentID n \<and>
                  nd_Type (mn_node m) = nd_Type n \<and> nd_Slug (mn_node m) = nd_Slug n"
  obtain m where m: "map_of (mc_nodes s) k = Some m" "\<not> mn_deleted m" "mn_node m = n"
    using k by (auto simp: tree_of_Some)
  show ?thesis
  proof (cases "find ?P (entries (mc_nodes s))")
    case None
    then show ?thesis using find_no_entry [OF None m(1)] m by simp
  next
    case (Some x)
    obtain j x' where x: "x = (j, x')" by fastforce
    note f = find_entry [OF Some [unfolded x]]
    then have "j = k" using m by (intro nodes_invD(4) [OF inv f(1) m(1)]) auto
    then have "x' = m" using f(1) m(1) by simp
    then show ?thesis using Some m x by (simp add: FindChild_def)
  qed
qed

text \<open>C8 PutNode is an upsert by parent and slug: when it succeeds, the tree gains or replaces exactly
  the node it returns; the id is that of the node, deleted or not, that had the same parent and
  slug, or else the next unused one; the node is found under its parent by type and slug.\<close>

theorem put_node_upserts:
  assumes "reached valid A s" and "PutNode valid now inp s = (Inr nd, s')"
  shows "tree_of (mc_nodes s') = (tree_of (mc_nodes s))(nd_ID nd \<mapsto> nd) \<and>
    nd_ParentID nd = ni_ParentID inp \<and> nd_Type nd = ni_Type inp \<and> nd_Title nd = ni_Title inp \<and>
    cleanSlug (ni_Slug inp) = Inr (nd_Slug nd) \<and> cleanNodeData valid (ni_Data inp) = Inr (nd_Data nd) \<and>
    cleanSchemaVersion (ni_SchemaVersion inp) = Inr (nd_SchemaVersion nd) \<and>
    ((\<exists>n. map_of (mc_nodes s) (nd_ID nd) = Some n \<and> nd_ParentID (mn_node n) = ni_ParentID inp \<and>
          nd_Slug (mn_node n) = nd_Slug nd) \<or>
     nd_ID nd \<notin> dom (map_of (mc_nodes s)) \<and>
     (\<nexists>k n. map_of (mc_nodes s) k = Some n \<and> nd_ParentID (mn_node n) = ni_ParentID inp \<and>
          nd_Slug (mn_node n) = nd_Slug nd)) \<and>
    FindChild (ni_ParentID inp) (ni_Type inp) (nd_Slug nd) s' = Inr nd"
proof -
  have inv: "nodes_inv s" using reached_inv [OF assms(1)] by simp
  note p = PutNode_spec [OF inv assms(2)]
  have "tree_of (mc_nodes s') (nd_ID nd) = Some nd" by (simp add: p(3))
  from FindChild_live [OF p(1) this] have "FindChild (ni_ParentID inp) (ni_Type inp) (nd_Slug nd) s' = Inr nd"
    by (simp add: p(6,7))
  moreover have "(\<exists>n. map_of (mc_nodes s) (nd_ID nd) = Some n \<and> nd_ParentID (mn_node n) = ni_ParentID inp \<and>
          nd_Slug (mn_node n) = nd_Slug nd) \<or>
     nd_ID nd \<notin> dom (map_of (mc_nodes s)) \<and>
     (\<nexists>k n. map_of (mc_nodes s) k = Some n \<and> nd_ParentID (mn_node n) = ni_ParentID inp \<and>
          nd_Slug (mn_node n) = nd_Slug nd)"
    using p(10) by blast
  ultimately show ?thesis using p(3,6-8) put_checks_Inr(1-3) [OF p(5)] by simp
qed

definition demo_put :: node where
  "demo_put = \<lparr>nd_ID = 3, nd_ParentID = 2, nd_Type = ''block'', nd_Slug = ''b'', nd_Title = ''B2'', nd_Data = ''{}'',
     nd_SchemaVersion = 1, nd_CreatedAt = ''t0'', nd_UpdatedAt = ''t1''\<rparr>"

lemma demo_put_again:
  "fst (PutNode (\<lambda>_. True) ''t1'' (demo_block\<lparr>ni_Title := ''B2'', ni_SchemaVersion := 0\<rparr>) demo_store) = Inr demo_put"
  by code_simp

theorem put_node_upserts_witness:
  "FindChild 2 ''block'' ''b''
     (snd (PutNode (\<lambda>_. True) ''t1'' (demo_block\<lparr>ni_Title := ''B2'', ni_SchemaVersion := 0\<rparr>) demo_store)) = Inr demo_put"
proof -
  have "PutNode (\<lambda>_. True) ''t1'' (demo_block\<lparr>ni_Title := ''B2'', ni_SchemaVersion := 0\<rparr>) demo_store =
    (Inr demo_put, snd (PutNode (\<lambda>_. True) ''t1'' (demo_block\<lparr>ni_Title := ''B2'', ni_SchemaVersion := 0\<rparr>) demo_store))"
    using demo_put_again by (metis prod.collapse)
  from put_node_upserts [OF demo_reached this] show ?thesis
    by (simp add: demo_block_def demo_put_def)
qed

text \<open>C1 DeleteNode removes from the tree exactly the node and its live descendants, and returns how
  many they are; on a node that is not live it fails and changes nothing.\<close>

theorem delete_node_removes_subtree:
  assumes "reached valid A s" and "DeleteNode i s = (r, s')"
  shows "case r of
      Inl e \<Rightarrow> e = NotFound \<and> s' = s \<and> tree_of (mc_nodes s) i = None
    | Inr cnt \<Rightarrow> tree_of (mc_nodes s) i \<noteq> None \<and> cnt = int (card (subtree (tree_of (mc_nodes s)) i)) \<and>
        tree_of (mc_nodes s') = tree_of (mc_nodes s) |` (- subtree (tree_of (mc_nodes s)) i)"
proof (cases r)
  case (Inl e)
  then show ?thesis using DeleteNode_error assms(2) by auto
next
  case (Inr cnt)
  have "nodes_inv s" using reached_inv [OF assms(1)] by simp
  from DeleteNode_spec [OF this assms(2) [unfolded Inr]] show ?thesis by (simp add: Inr)
qed

lemma demo_delete: "fst (DeleteNode 2 demo_store) = Inr 2"
  by code_simp

theorem delete_node_removes_subtree_witness:
  "2 = int (card (subtree (tree_of (mc_nodes demo_store)) 2))"
proof -
  have "DeleteNode 2 demo_store = (Inr 2, snd (DeleteNode 2 demo_store))"
    using demo_delete by (metis prod.collapse)
  from delete_node_removes_subtree [OF demo_reached this] show ?thesis by simp
qed

text \<open>The pages of a list, from the first on, are together every live child of the given type once,
  newest first, and each page reports the number of all of them (page numbers small enough for
  the 64-bit product).\<close>

lemma pages_list_every_child:
  assumes "reached valid A s" and "1 \<le> sz" and "sz \<le> 100" and "int P * sz < 2 ^ 63"
    and "int (length (children_of p t s)) \<le> int P * sz"
  shows "\<exists>pages. map (\<lambda>i. ListChildren p t (int i + 1) sz s) [0..<P] = map Inr pages \<and>
    list_all (\<lambda>pg. np_Total pg = int (length (concat (map np_Items pages)))) pages \<and>
    sorted_wrt (\<lambda>a b. nd_ID b < nd_ID a) (concat (map np_Items pages)) \<and>
    set (concat (map np_Items pages)) =
      {n. \<exists>k. tree_of (mc_nodes s) k = Some n \<and> nd_ParentID n = p \<and> nd_Type n = t}"
proof -
  have inv: "nodes_inv s" using reached_inv [OF assms(1)] by simp
  let ?xs = "children_of p t s"
  let ?pg = "\<lambda>i. \<lparr>np_Items = take (nat sz) (drop (i * nat sz) ?xs), np_Page = int i + 1,
         np_PageSize = sz, np_Total = int (length ?xs)\<rparr>"
  have "ListChildren p t (int i + 1) sz s = Inr (?pg i)" if "i < P" for i
  proof (rule ListChildren_page [OF assms(2,3)])
    have "(int i + 1) * sz \<le> int P * sz" using that assms(2) by (intro mult_right_mono) auto
    then show "(int i + 1) * sz < 2 ^ 63" using assms(4) by linarith
  qed
  then have l: "map (\<lambda>i. ListChildren p t (int i + 1) sz s) [0..<P] = map Inr (map ?pg [0..<P])"
    by (simp add: comp_def)
  have "int (P * nat sz) = int P * sz" using assms(2) by simp
  then have "length ?xs \<le> P * nat sz" using assms(5) by (metis of_nat_le_iff)
  then have "concat (map np_Items (map ?pg [0..<P])) = ?xs"
    by (simp add: comp_def concat_pages)
  moreover have "list_all (\<lambda>pg. np_Total pg = int (length ?xs)) (map ?pg [0..<P])"
    by (simp add: list_all_iff)
  ultimately show ?thesis
    using l children_of_sorted [OF inv, of p t] children_of_set [of p t s]
    by (intro exI [of _ "map ?pg [0..<P]"]) simp
qed

lemma pages_list_every_child_witness:
  "\<exists>pages. map (\<lambda>i. ListChildren 2 ''block'' (int i + 1) 1 demo_store) [0..<3] = map Inr pages \<and>
     set (concat (map np_Items pages)) =
      {n. \<exists>k. tree_of (mc_nodes demo_store) k = Some n \<and> nd_ParentID n = 2 \<and> nd_Type n = ''block''}"
proof -
  have "length (children_of 2 ''block'' demo_store) = 1" by code_simp
  then show ?thesis using pages_list_every_child [OF demo_reached, of 1 3 2 "''block''"] by auto
qed

text \<open>A page number near the largest int makes the list panic: the 64-bit product (page - 1) * size
  wraps to a negative index, whatever the list.\<close>

lemma huge_page_number_panics:
  "ListChildren p t (2 ^ 63 - 1) 20 s = Inl IndexPanic"
  by (simp add: ListChildren_def nodePageArgs_def page_slice_def wrap64_def)

text \<open>An update that fails on its schema version has stored its data already: the error is
  returned, and the node read afterwards has the new data.\<close>

lemma failed_update_keeps_data:
  assumes "GetNode i s = Inr n" and "cleanNodeData valid d0 = Inr d" and "v < 0"
  shows "fst (UpdateNode valid now i title (Some d0) (Some v) s) = Inl (BadSchemaVersion v) \<and>
    GetNode i (snd (UpdateNode valid now i title (Some d0) (Some v) s)) = Inr (n\<lparr>nd_Data := d\<rparr>)"
proof -
  obtain m where m: "liveLocked s i = Inr m" "mn_node m = n"
    using assms(1) by (auto simp: GetNode_def bindR_eq_Inr)
  then have l: "map_of (mc_nodes s) i = Some m" "\<not> mn_deleted m" by (simp_all add: liveLocked_Inr)
  have "UpdateNode valid now i title (Some d0) (Some v) s =
      (Inl (BadSchemaVersion v), upd i (\<lambda>x. x\<lparr>nd_Data := d\<rparr>) s)"
    using m(1) assms(2,3) by (simp add: UpdateNode_def data_arg_def version_arg_def cleanSchemaVersion_def)
  then show ?thesis using l m(2)
    by (simp add: upd_nodes [OF l(1)] GetNode_def liveLocked_def)
qed

lemma failed_update_keeps_data_witness:
  "\<exists>n. GetNode 2 (snd (UpdateNode (\<lambda>_. True) ''t2'' 2 None (Some ''[1]'') (Some (-1)) demo_store)) = Inr n \<and>
     nd_Data n = ''[1]''"
proof -
  have "isOk (GetNode 2 demo_store)" by code_simp
  then obtain n where "GetNode 2 demo_store = Inr n" by (auto simp: isOk_iff)
  moreover have "cleanNodeData (\<lambda>_. True) ''[1]'' = Inr ''[1]''" by code_simp
  ultimately show ?thesis
    using failed_update_keeps_data [of 2 demo_store n "\<lambda>_. True" "''[1]''" "''[1]''" "-1" "''t2''" None] by simp
qed

text \<open>States after further operations, whatever they answer.\<close>

inductive after_ops :: "(string \<Rightarrow> bool) \<Rightarrow> memContent \<Rightarrow> memContent \<Rightarrow> bool" for valid s where
  after_refl: "after_ops valid s s"
| after_exec: "after_ops valid s s1 \<Longrightarrow> after_ops valid s (exec valid now op s1)"

lemma after_versions:
  "after_ops valid s s' \<Longrightarrow> nodes_inv s \<Longrightarrow> page_inv s \<Longrightarrow>
   nodes_inv s' \<and> page_inv s' \<and> (\<exists>more. versions s' p = versions s p @ more)"
proof (induction rule: after_ops.induct)
  case (after_exec s1 now op)
  then have "nodes_inv s1" "page_inv s1" "\<exists>more. versions s1 p = versions s p @ more" by blast+
  with exec_inv [OF this(1,2), of valid now op p] show ?case by auto
qed simp

text \<open>C7 A published version of a page is never lost: after any further operations, rolling back to its
  number succeeds, makes it the current one, and readers get exactly the files it was
  published with.\<close>

theorem rollback_restores_version:
  assumes "reached valid A s" and "PutPage now p0 fs0 s = (Inr pv, s1)" and "after_ops valid s1 s2"
  shows "\<exists>rv s3 fs. RollbackPage p0 (pv_Version pv) s2 = (Inr rv, s3) \<and> cleanPageFiles fs0 = Inr fs \<and>
    pv_Version rv = pv_Version pv \<and> pv_Files rv = sortedKeys fs \<and> PageFiles (pv_Path pv) s3 = Inr fs \<and>
    mc_nodes s3 = mc_nodes s2"
proof -
  have inv: "nodes_inv s" "page_inv s" using reached_inv [OF assms(1)] by simp_all
  obtain p fs where c: "cleanPagePath p0 = Inr p" "cleanPageFiles fs0 = Inr fs"
    and pv: "pv_Version pv = int (length (versions s p)) + 1" "pv_Path pv = p"
    and s1: "s1 = s\<lparr>mc_pages := al_put p (versions s p @ [\<lparr>pg_ver = int (length (versions s p)) + 1,
                  pg_files = fs, pg_at = now\<rparr>]) (mc_pages s),
               mc_current := al_put p (int (length (versions s p)) + 1) (mc_current s)\<rparr>"
    using assms(2) unfolding PutPage_Inr by auto
  have i1: "page_inv s1" "nodes_inv s1"
    using PutPage_inv(1,2) [OF inv(2) assms(2)] inv(1) by (simp_all add: nodes_inv_def)
  let ?new = "\<lparr>pg_ver = int (length (versions s p)) + 1, pg_files = fs, pg_at = now\<rparr>"
  have "versions s1 p = versions s p @ [?new]" by (simp add: s1 versions_def map_get_put)
  then obtain more where v2: "versions s2 p = versions s p @ ?new # more" and i2: "page_inv s2"
    using after_versions [OF assms(3) i1(2,1), of p] by auto
  have at: "versions s2 p ! nat (pv_Version pv - 1) = ?new" by (simp add: v2 pv)
  let ?s3 = "s2\<lparr>mc_current := al_put p (pv_Version pv) (mc_current s2)\<rparr>"
  have r: "\<exists>rv. RollbackPage p0 (pv_Version pv) s2 = (Inr rv, ?s3) \<and> pv_Version rv = pv_Version pv \<and>
      pv_Files rv = sortedKeys fs"
    unfolding RollbackPage_Inr using c(1) at by (auto simp: pv v2)
  then obtain rv where rv: "RollbackPage p0 (pv_Version pv) s2 = (Inr rv, ?s3)" "pv_Version rv = pv_Version pv"
    "pv_Files rv = sortedKeys fs" by blast
  note i3 = RollbackPage_inv [OF i2 rv(1)]
  have "current ?s3 p = pv_Version pv" by (simp add: current_def map_get_put)
  then have "PageFiles p ?s3 = Inr fs"
    unfolding PageFiles_current [OF i3(1)] i3(3) using v2 at by simp
  then show ?thesis using rv c(2) pv(2) by fastforce
qed

lemma demo_publish:
  "\<exists>pv. fst (PutPage ''t3'' ''/finance/home/'' [(''index.html'', ''v3'')] demo_store) = Inr pv \<and>
     pv_Version pv = 3 \<and> pv_Path pv = ''finance/home''"
proof -
  have "(case fst (PutPage ''t3'' ''/finance/home/'' [(''index.html'', ''v3'')] demo_store) of
      Inl _ \<Rightarrow> False | Inr pv \<Rightarrow> pv_Version pv = 3 \<and> pv_Path pv = ''finance/home'')" by code_simp
  then show ?thesis by (simp split: sum.splits)
qed

theorem rollback_restores_version_witness:
  "\<exists>s3 fs. PageFiles ''finance/home'' s3 = Inr fs \<and> cleanPageFiles [(''index.html'', ''v3'')] = Inr fs"
proof -
  obtain pv where pv: "fst (PutPage ''t3'' ''/finance/home/'' [(''index.html'', ''v3'')] demo_store) = Inr pv"
    "pv_Path pv = ''finance/home''" using demo_publish by blast
  let ?s1 = "snd (PutPage ''t3'' ''/finance/home/'' [(''index.html'', ''v3'')] demo_store)"
  have put: "PutPage ''t3'' ''/finance/home/'' [(''index.html'', ''v3'')] demo_store = (Inr pv, ?s1)"
    using pv(1) by (metis prod.collapse)
  have "after_ops (\<lambda>_. True) ?s1 (exec (\<lambda>_. True) ''t4'' (OpRollback ''finance/home'' 1) ?s1)"
    by (intro after_exec after_refl)
  from rollback_restores_version [OF demo_reached put this]
  show ?thesis using pv(2) by auto
qed

end
