(* ===== verification/ContentSql.thy ===== *)
theory ContentSql
  imports ContentRuns "HOL-Library.Product_Lexorder"
begin

text \<open>
  projects/board/content_mysql.go: the \<open>ContentStore\<close> on MySQL, on the three tables of
  \<open>migrate\<close>. \<open>content_env\<close> holds \<open>json.Valid\<close>, what a JSON column returns for a text, the
  encoding of a file map as JSON and \<open>fmtTime\<close>. The argument \<open>now\<close> is the database's time of
  the call in seconds. Columns hold at most 255 characters of a title or a path and 32-bit schema
  versions. Paths and slugs compare byte by byte: those stored are lower case, and a lookup by a name
  with upper case letters, which the collation of MySQL would match, is not modelled. Ids of inserts
  that are rolled back are used again.
\<close>

section \<open>Tables\<close>

record node_row =
  nr_id :: int
  nr_parent :: int
  nr_type :: string
  nr_slug :: string
  nr_title :: string
  nr_data :: string
  nr_schema :: int
  nr_deleted :: bool
  nr_created :: int
  nr_updated :: int

record page_row =
  pr_path :: string
  pr_current :: int

record ver_row =
  vr_path :: string
  vr_version :: int
  vr_files :: string
  vr_created :: int

record content_tabs =
  ct_nodes :: "node_row list"
  ct_pages :: "page_row list"
  ct_vers :: "ver_row list"
  ct_next :: int

record content_env =
  ce_valid :: "string \<Rightarrow> bool"
  ce_json :: "string \<Rightarrow> string"
  ce_marshal :: "files \<Rightarrow> string"
  ce_unmarshal :: "string \<Rightarrow> files option"
  ce_fmt :: "int \<Rightarrow> string"

type_synonym 'a cdb = "(content_tabs, content_err, 'a) dbm"

definition content_migrate :: content_tabs where
  "content_migrate = \<lparr>ct_nodes = [], ct_pages = [], ct_vers = [], ct_next = 1\<rparr>"

definition varchar :: "nat \<Rightarrow> string \<Rightarrow> bool" where "varchar n s \<longleftrightarrow> int (rune_count s) \<le> int n"
definition int32 :: "int \<Rightarrow> bool" where "int32 i \<longleftrightarrow> - (2 ^ 31) \<le> i \<and> i < 2 ^ 31"

definition on_store :: "(content_tabs, sql_err, 'a) dbm \<Rightarrow> 'a cdb" where
  "on_store m = orElse m StoreErr"

text \<open>\<open>if errors.Is(err, sql.ErrNoRows) { return errNotFound }\<close>\<close>

definition or_missing :: "(content_tabs, sql_err, 'a) dbm \<Rightarrow> 'a cdb" where
  "or_missing m = orElse m (\<lambda>e. if e = NoRows then NotFound else StoreErr e)"

section \<open>Nodes\<close>

definition scanNode :: "content_env \<Rightarrow> node_row \<Rightarrow> node" where
  "scanNode ce r =
     \<lparr>nd_ID = nr_id r, nd_ParentID = nr_parent r, nd_Type = nr_type r, nd_Slug = nr_slug r,
      nd_Title = nr_title r, nd_Data = (if nr_data r = [] then ''{}'' else nr_data r),
      nd_SchemaVersion = nr_schema r, nd_CreatedAt = ce_fmt ce (nr_created r), nd_UpdatedAt = ce_fmt ce (nr_updated r)\<rparr>"

definition liveNode :: "content_env \<Rightarrow> int \<Rightarrow> node cdb" where
  "liveNode ce i =
     or_missing (queryRow (\<lambda>t. map (scanNode ce) (filter (\<lambda>r. nr_id r = i \<and> \<not> nr_deleted r) (ct_nodes t))))"

definition sel_slug :: "int \<Rightarrow> string \<Rightarrow> (content_tabs, sql_err, int) dbm" where
  "sel_slug parent slug = queryRow (\<lambda>t. map nr_id (filter (\<lambda>r. nr_parent r = parent \<and> nr_slug r = slug) (ct_nodes t)))"

definition ins_node :: "content_env \<Rightarrow> int \<Rightarrow> node_input \<Rightarrow> string \<Rightarrow> string \<Rightarrow> int \<Rightarrow> (content_tabs, sql_err, int) dbm" where
  "ins_node ce now inp slug data sv = stmt (\<lambda>t.
     if \<not> varchar 255 (ni_Title inp) then Inl DataTooLong
     else if \<not> int32 sv then Inl (DbFail ''out of range'')
     else if list_ex (\<lambda>r. nr_parent r = ni_ParentID inp \<and> nr_slug r = slug) (ct_nodes t) then Inl Duplicate
     else Inr (ct_next t, t\<lparr>ct_next := ct_next t + 1,
       ct_nodes := ct_nodes t @ [\<lparr>nr_id = ct_next t, nr_parent = ni_ParentID inp, nr_type = ni_Type inp, nr_slug = slug,
         nr_title = ni_Title inp, nr_data = ce_json ce data, nr_schema = sv, nr_deleted = False,
         nr_created = now, nr_updated = now\<rparr>]\<rparr>))"

text \<open>An UPDATE of one row; \<open>updated_at\<close> is set when a column changes.\<close>

definition touch :: "int \<Rightarrow> (node_row \<Rightarrow> node_row) \<Rightarrow> node_row \<Rightarrow> node_row" where
  "touch now f r = (if f r = r then r else (f r)\<lparr>nr_updated := now\<rparr>)"

definition map_rows :: "(node_row \<Rightarrow> bool) \<Rightarrow> (node_row \<Rightarrow> node_row) \<Rightarrow> content_tabs \<Rightarrow> content_tabs" where
  "map_rows P f t = t\<lparr>ct_nodes := map (\<lambda>r. if P r then f r else r) (ct_nodes t)\<rparr>"

definition revive :: "content_env \<Rightarrow> int \<Rightarrow> node_input \<Rightarrow> string \<Rightarrow> int \<Rightarrow> int \<Rightarrow> (content_tabs, sql_err, unit) dbm" where
  "revive ce now inp data sv i = stmt (\<lambda>t.
     if \<not> varchar 255 (ni_Title inp) then Inl DataTooLong
     else if \<not> int32 sv then Inl (DbFail ''out of range'')
     else Inr ((), map_rows (\<lambda>r. nr_id r = i)
       (touch now (\<lambda>r. r\<lparr>nr_type := ni_Type inp, nr_title := ni_Title inp, nr_data := ce_json ce data,
                          nr_schema := sv, nr_deleted := False\<rparr>)) t))"

definition sql_PutNode :: "content_env \<Rightarrow> int \<Rightarrow> node_input \<Rightarrow> node cdb" where
  "sql_PutNode ce now inp =
     bindS (liftS (cleanSlug (ni_Slug inp))) (\<lambda>slug.
     bindS (liftS (cleanNodeData (ce_valid ce) (ni_Data inp))) (\<lambda>data.
     bindS (liftS (cleanSchemaVersion (ni_SchemaVersion inp))) (\<lambda>sv.
     transaction StoreErr (
       bindS (if ni_ParentID inp \<noteq> 0 then bindS (liveNode ce (ni_ParentID inp)) (\<lambda>p. retS (Some p)) else retS None) (\<lambda>parent.
       bindS (liftS (checkModuleSlug (ni_Type inp) slug)) (\<lambda>_.
       bindS (liftS (checkParent (ni_Type inp) parent)) (\<lambda>_.
       bindS (catchS (bindS (sel_slug (ni_ParentID inp) slug) (\<lambda>i. retS (Some i)))
                     (\<lambda>e. if e = NoRows then retS None else failS (StoreErr e))) (\<lambda>found.
       bindS (case found of
                None \<Rightarrow> on_store (ins_node ce now inp slug data sv)
              | Some i \<Rightarrow> bindS (on_store (revive ce now inp data sv i)) (\<lambda>_. retS i)) (\<lambda>i.
       liveNode ce i)))))))))"

definition upd_node ::
  "content_env \<Rightarrow> int \<Rightarrow> string option \<Rightarrow> string option \<Rightarrow> int option \<Rightarrow> int \<Rightarrow> (content_tabs, sql_err, unit) dbm" where
  "upd_node ce now title data sv i = stmt (\<lambda>t.
     if (case title of None \<Rightarrow> False | Some x \<Rightarrow> \<not> varchar 255 x) then Inl DataTooLong
     else if (case sv of None \<Rightarrow> False | Some v \<Rightarrow> \<not> int32 v) then Inl (DbFail ''out of range'')
     else Inr ((), map_rows (\<lambda>r. nr_id r = i \<and> \<not> nr_deleted r)
       (touch now (\<lambda>r. r\<lparr>nr_title := (case title of None \<Rightarrow> nr_title r | Some x \<Rightarrow> x),
                          nr_data := (case data of None \<Rightarrow> nr_data r | Some d \<Rightarrow> ce_json ce d),
                          nr_schema := (case sv of None \<Rightarrow> nr_schema r | Some v \<Rightarrow> v)\<rparr>)) t))"

definition check_opt :: "('a \<Rightarrow> 'e + 'b) \<Rightarrow> 'a option \<Rightarrow> 'e + 'b option" where
  "check_opt f x = (case x of None \<Rightarrow> Inr None | Some y \<Rightarrow> bindR (f y) (\<lambda>z. Inr (Some z)))"

definition sql_UpdateNode ::
  "content_env \<Rightarrow> int \<Rightarrow> int \<Rightarrow> string option \<Rightarrow> string option \<Rightarrow> int option \<Rightarrow> node cdb" where
  "sql_UpdateNode ce now i title data schemaVersion =
     bindS (liftS (check_opt (cleanNodeData (ce_valid ce)) data)) (\<lambda>d.
     bindS (liftS (check_opt cleanSchemaVersion schemaVersion)) (\<lambda>sv.
     bindS (liveNode ce i) (\<lambda>_.
     bindS (if title \<noteq> None \<or> d \<noteq> None \<or> sv \<noteq> None then on_store (upd_node ce now title d sv i) else retS ()) (\<lambda>_.
     liveNode ce i))))"

section \<open>Deleting a subtree\<close>

definition sel_kids :: "int list \<Rightarrow> content_tabs \<Rightarrow> int list" where
  "sel_kids frontier t = map nr_id (filter (\<lambda>r. \<not> nr_deleted r \<and> nr_parent r \<in> set frontier) (ct_nodes t))"

text \<open>The levels of the subtree, until one is empty or 100000 nodes are found.\<close>

function collect :: "int list \<Rightarrow> int list \<Rightarrow> content_tabs db \<Rightarrow> (content_err + int list) \<times> content_tabs db" where
  "collect found frontier s =
     (if frontier = [] \<or> \<not> int (length found) < 100000 then (Inr found, s)
      else (case on_store (query (sel_kids frontier)) s of
              (Inl e, s1) \<Rightarrow> (Inl e, s1)
            | (Inr deeper, s1) \<Rightarrow> collect (found @ deeper) deeper s1))"
  by pat_completeness auto
termination
  by (relation "measure (\<lambda>(found, frontier, _). if frontier = [] then 0 else 100001 - length found)")
    (auto simp flip: length_greater_0_conv)

declare collect.simps [simp del]

definition mark_deleted :: "int list \<Rightarrow> (content_tabs, sql_err, unit) dbm" where
  "mark_deleted ids = execS (map_rows (\<lambda>r. \<not> nr_deleted r \<and> nr_id r \<in> set ids) (\<lambda>r. r\<lparr>nr_deleted := True\<rparr>))"

function mark_chunks :: "int list \<Rightarrow> unit cdb" where
  "mark_chunks ids =
     (if ids = [] then retS ()
      else bindS (on_store (mark_deleted (take 500 ids))) (\<lambda>_. mark_chunks (drop 500 ids)))"
  by pat_completeness auto
termination
  by (relation "measure length") auto

declare mark_chunks.simps [simp del]

definition sql_DeleteNode :: "content_env \<Rightarrow> int \<Rightarrow> int cdb" where
  "sql_DeleteNode ce i =
     transaction StoreErr (
       bindS (liveNode ce i) (\<lambda>_.
       bindS (collect [i] [i]) (\<lambda>found.
       bindS (mark_chunks found) (\<lambda>_.
       retS (int (length found))))))"

definition sql_GetNode :: "content_env \<Rightarrow> int \<Rightarrow> node cdb" where
  "sql_GetNode ce i = liveNode ce i"

definition sql_FindChild :: "content_env \<Rightarrow> int \<Rightarrow> string \<Rightarrow> string \<Rightarrow> node cdb" where
  "sql_FindChild ce parent typ slug =
     or_missing (queryRow (\<lambda>t. map (scanNode ce)
       (filter (\<lambda>r. nr_parent r = parent \<and> nr_type r = typ \<and> nr_slug r = slug \<and> \<not> nr_deleted r) (ct_nodes t))))"

definition live_kids :: "int \<Rightarrow> string \<Rightarrow> content_tabs \<Rightarrow> node_row list" where
  "live_kids parent typ t =
     filter (\<lambda>r. nr_parent r = parent \<and> nr_type r = typ \<and> \<not> nr_deleted r) (ct_nodes t)"

definition sel_children :: "content_env \<Rightarrow> int \<Rightarrow> string \<Rightarrow> int \<Rightarrow> int \<Rightarrow> (content_tabs, sql_err, node list) dbm" where
  "sel_children ce parent typ lim off = stmt (\<lambda>t.
     if off < 0 then Inl (DbFail ''OFFSET'')
     else Inr (map (scanNode ce) (take (nat lim) (drop (nat off)
            (rev (sort_key (\<lambda>r. (nr_created r, nr_id r)) (live_kids parent typ t))))), t))"

definition sql_ListChildren :: "content_env \<Rightarrow> int \<Rightarrow> string \<Rightarrow> int \<Rightarrow> int \<Rightarrow> node_page cdb" where
  "sql_ListChildren ce parent typ page0 size0 =
     (case nodePageArgs page0 size0 of (page, sz) \<Rightarrow>
        bindS (on_store (query (\<lambda>t. int (length (live_kids parent typ t))))) (\<lambda>total.
        bindS (on_store (sel_children ce parent typ sz (wrap64 ((page - 1) * sz)))) (\<lambda>items.
        retS \<lparr>np_Items = items, np_Page = page, np_PageSize = sz, np_Total = total\<rparr>)))"

definition sql_MoveNode :: "content_env \<Rightarrow> int \<Rightarrow> int \<Rightarrow> int \<Rightarrow> unit cdb" where
  "sql_MoveNode ce now i parent =
     bindS (liveNode ce i) (\<lambda>n.
       if nd_ParentID n = parent then retS ()
       else bindS (catchS (bindS (sel_slug parent (nd_Slug n)) (\<lambda>j. retS (Some j)))
                          (\<lambda>e. if e = NoRows then retS None else failS (StoreErr e))) (\<lambda>other.
         case other of
           Some _ \<Rightarrow> failS Conflict
         | None \<Rightarrow> on_store (stmt (\<lambda>t.
             if list_ex (\<lambda>r. nr_id r = i \<and> \<not> nr_deleted r) (ct_nodes t) \<and>
                list_ex (\<lambda>r. nr_id r \<noteq> i \<and> nr_parent r = parent \<and> nr_slug r = nd_Slug n) (ct_nodes t) then Inl Duplicate
             else Inr ((), map_rows (\<lambda>r. nr_id r = i \<and> \<not> nr_deleted r) (\<lambda>r. r\<lparr>nr_parent := parent\<rparr>) t)))))"

section \<open>Pages\<close>

definition files_of :: "content_env \<Rightarrow> string \<Rightarrow> files" where
  "files_of ce raw = (case ce_unmarshal ce raw of None \<Rightarrow> [] | Some fs \<Rightarrow> fs)"

definition ins_page :: "string \<Rightarrow> (content_tabs, sql_err, unit) dbm" where
  "ins_page p = stmt (\<lambda>t.
     if \<not> varchar 255 p then Inl DataTooLong
     else if list_ex (\<lambda>r. pr_path r = p) (ct_pages t) then Inr ((), t)
     else Inr ((), t\<lparr>ct_pages := ct_pages t @ [\<lparr>pr_path = p, pr_current = 0\<rparr>]\<rparr>))"

definition sel_current :: "string \<Rightarrow> (content_tabs, sql_err, int) dbm" where
  "sel_current p = queryRow (\<lambda>t. map pr_current (filter (\<lambda>r. pr_path r = p) (ct_pages t)))"

definition max_version :: "string \<Rightarrow> content_tabs \<Rightarrow> int" where
  "max_version p t = foldl max 0 (map vr_version (filter (\<lambda>r. vr_path r = p) (ct_vers t)))"

definition ins_version :: "int \<Rightarrow> string \<Rightarrow> int \<Rightarrow> string \<Rightarrow> (content_tabs, sql_err, unit) dbm" where
  "ins_version now p v raw = stmt (\<lambda>t.
     if list_ex (\<lambda>r. vr_path r = p \<and> vr_version r = v) (ct_vers t) then Inl Duplicate
     else Inr ((), t\<lparr>ct_vers := ct_vers t @ [\<lparr>vr_path = p, vr_version = v, vr_files = raw, vr_created = now\<rparr>]\<rparr>))"

definition set_current :: "string \<Rightarrow> int \<Rightarrow> (content_tabs, sql_err, unit) dbm" where
  "set_current p v = execS (\<lambda>t. t\<lparr>ct_pages :=
     map (\<lambda>r. if pr_path r = p then r\<lparr>pr_current := v\<rparr> else r) (ct_pages t)\<rparr>)"

definition sql_PutPage :: "content_env \<Rightarrow> int \<Rightarrow> string \<Rightarrow> files \<Rightarrow> page_version cdb" where
  "sql_PutPage ce now p0 files0 =
     bindS (liftS (cleanPagePath p0)) (\<lambda>p.
     bindS (liftS (cleanPageFiles files0)) (\<lambda>fs.
     transaction StoreErr (
       bindS (on_store (ins_page p)) (\<lambda>_.
       bindS (on_store (sel_current p)) (\<lambda>cur.
       bindS (on_store (query (max_version p))) (\<lambda>maxV.
       bindS (on_store (ins_version now p (maxV + 1) (ce_marshal ce fs))) (\<lambda>_.
       bindS (on_store (set_current p (maxV + 1))) (\<lambda>_.
       retS \<lparr>pv_Path = p, pv_Version = maxV + 1, pv_Files = sortedKeys fs, pv_Current = True,
             pv_CreatedAt = ce_fmt ce now\<rparr>))))))))"

definition sel_versions :: "string \<Rightarrow> content_tabs \<Rightarrow> ver_row list" where
  "sel_versions p t = take 200 (rev (sort_key vr_version (filter (\<lambda>r. vr_path r = p) (ct_vers t))))"

definition sql_ListPageVersions :: "content_env \<Rightarrow> string \<Rightarrow> page_version list cdb" where
  "sql_ListPageVersions ce p0 =
     bindS (liftS (cleanPagePath p0)) (\<lambda>p.
     bindS (or_missing (sel_current p)) (\<lambda>cur.
     bindS (on_store (query (sel_versions p))) (\<lambda>rows.
     retS (map (\<lambda>r. \<lparr>pv_Path = p, pv_Version = vr_version r, pv_Files = sortedKeys (files_of ce (vr_files r)),
                     pv_Current = (vr_version r = cur), pv_CreatedAt = ce_fmt ce (vr_created r)\<rparr>) rows))))"

definition sql_RollbackPage :: "content_env \<Rightarrow> string \<Rightarrow> int \<Rightarrow> page_version cdb" where
  "sql_RollbackPage ce p0 version =
     bindS (liftS (cleanPagePath p0)) (\<lambda>p.
     bindS (or_missing (queryRow (\<lambda>t. filter (\<lambda>r. vr_path r = p \<and> vr_version r = version) (ct_vers t)))) (\<lambda>r.
     bindS (on_store (set_current p version)) (\<lambda>_.
     retS \<lparr>pv_Path = p, pv_Version = version, pv_Files = sortedKeys (files_of ce (vr_files r)),
           pv_Current = True, pv_CreatedAt = ce_fmt ce (vr_created r)\<rparr>)))"

definition sql_PageFiles :: "content_env \<Rightarrow> string \<Rightarrow> files cdb" where
  "sql_PageFiles ce p =
     bindS (or_missing (queryRow (\<lambda>t. concat (map (\<lambda>pg. map vr_files
        (filter (\<lambda>v. vr_path v = pr_path pg \<and> vr_version v = pr_current pg) (ct_vers t)))
        (filter (\<lambda>pg. pr_path pg = p) (ct_pages t)))))) (\<lambda>raw.
     case ce_unmarshal ce raw of None \<Rightarrow> failS BadJson | Some fs \<Rightarrow> retS fs)"

definition sql_ListPagePaths :: "string list cdb" where
  "sql_ListPagePaths =
     on_store (query (\<lambda>t. take 1000 (sort_key (map ordc) (map pr_path (filter (\<lambda>r. 0 < pr_current r) (ct_pages t))))))"

end
