(* ===== verification/ContentSqlOk.thy ===== *)
theory ContentSqlOk
  imports ContentSql
begin

text \<open>
  The MySQL content store against the memory one: a relation between their states and, for each
  operation, that it answers the same and keeps the relation. Answers are compared without
  \<open>UpdatedAt\<close>, which MySQL keeps when an update changes nothing, and with the data as a JSON column
  returns it.
\<close>

section \<open>The simulation relation\<close>

definition row :: "content_tabs \<Rightarrow> int \<Rightarrow> node_row option" where
  "row t k = find (\<lambda>r. nr_id r = k) (ct_nodes t)"

definition mem_nd :: "content_env \<Rightarrow> node \<Rightarrow> node" where
  "mem_nd ce n = n\<lparr>nd_Data := ce_json ce (nd_Data n), nd_UpdatedAt := []\<rparr>"

definition sql_nd :: "node \<Rightarrow> node" where
  "sql_nd n = n\<lparr>nd_UpdatedAt := []\<rparr>"

definition same_node :: "content_env \<Rightarrow> memNode option \<Rightarrow> node_row option \<Rightarrow> bool" where
  "same_node ce m r \<longleftrightarrow>
     (case (m, r) of
        (None, None) \<Rightarrow> True
      | (Some n, Some x) \<Rightarrow> mem_nd ce (mn_node n) = sql_nd (scanNode ce x) \<and> mn_deleted n = nr_deleted x
      | _ \<Rightarrow> False)"

definition ver_of :: "content_env \<Rightarrow> ver_row \<Rightarrow> memPageVer" where
  "ver_of ce r = \<lparr>pg_ver = vr_version r, pg_files = files_of ce (vr_files r), pg_at = ce_fmt ce (vr_created r)\<rparr>"

definition path_vers :: "string \<Rightarrow> content_tabs \<Rightarrow> ver_row list" where
  "path_vers p t = filter (\<lambda>r. vr_path r = p) (ct_vers t)"

definition page_of :: "content_tabs \<Rightarrow> string \<Rightarrow> page_row option" where
  "page_of t p = find (\<lambda>r. pr_path r = p) (ct_pages t)"

definition sim_nodes :: "content_env \<Rightarrow> int \<Rightarrow> memContent \<Rightarrow> content_tabs \<Rightarrow> bool" where
  "sim_nodes ce T s t \<longleftrightarrow> nodes_inv s \<and> sorted_wrt (\<lambda>a b. nr_id a < nr_id b \<and> nr_created a \<le> nr_created b) (ct_nodes t) \<and>
     ct_next t = mc_nextID s + 1 \<and> (\<forall>r\<in>set (ct_nodes t). nr_created r \<le> T) \<and>
     (\<forall>k. same_node ce (map_of (mc_nodes s) k) (row t k))"

definition sim_pages :: "content_env \<Rightarrow> memContent \<Rightarrow> content_tabs \<Rightarrow> bool" where
  "sim_pages ce s t \<longleftrightarrow> page_inv s \<and> distinct (map pr_path (ct_pages t)) \<and>
     (\<forall>p. versions s p = map (ver_of ce) (path_vers p t)) \<and>
     (\<forall>p. current s p = (case page_of t p of None \<Rightarrow> 0 | Some r \<Rightarrow> pr_current r)) \<and>
     (\<forall>p. page_of t p = None \<longleftrightarrow> versions s p = []) \<and>
     (\<forall>r\<in>set (ct_vers t). ce_unmarshal ce (vr_files r) \<noteq> None)"

definition content_env_ok :: "content_env \<Rightarrow> bool" where
  "content_env_ok ce \<longleftrightarrow> (\<forall>d. ce_json ce d \<noteq> []) \<and>
     (\<forall>fs. distinct (map fst fs) \<longrightarrow> ce_unmarshal ce (ce_marshal ce fs) = Some fs)"

definition sim :: "content_env \<Rightarrow> int \<Rightarrow> memContent \<Rightarrow> content_tabs \<Rightarrow> bool" where
  "sim ce T s t \<longleftrightarrow> sim_nodes ce T s t \<and> sim_pages ce s t"

text \<open>What both stores answer, times of change left out.\<close>

definition same_res :: "content_env \<Rightarrow> content_err + node \<Rightarrow> content_err + node \<Rightarrow> bool" where
  "same_res ce a b \<longleftrightarrow> map_sum id (mem_nd ce) a = map_sum id sql_nd b"

section \<open>Rows\<close>

lemma sim_distinct:
  assumes "sim_nodes ce T s t"
  shows "distinct (map nr_id (ct_nodes t))"
proof -
  have "sorted_wrt (\<lambda>a b. nr_id a < nr_id b \<and> nr_created a \<le> nr_created b) (ct_nodes t)"
    using assms by (simp add: sim_nodes_def)
  then have "sorted_wrt (\<lambda>a b. nr_id a < nr_id b) (ct_nodes t)"
    by (rule sorted_wrt_mono_rel [rotated]) simp
  then have "sorted_wrt (<) (map nr_id (ct_nodes t))" by (simp add: sorted_wrt_map)
  then show ?thesis by (simp add: strict_sorted_iff)
qed

lemma same_nodeD:
  "same_node ce (Some n) r \<Longrightarrow> \<exists>x. r = Some x \<and> mem_nd ce (mn_node n) = sql_nd (scanNode ce x) \<and> mn_deleted n = nr_deleted x"
  "same_node ce m (Some x) \<Longrightarrow> \<exists>n. m = Some n \<and> mem_nd ce (mn_node n) = sql_nd (scanNode ce x) \<and> mn_deleted n = nr_deleted x"
  "same_node ce None r \<Longrightarrow> r = None" "same_node ce m None \<Longrightarrow> m = None"
  by (auto simp: same_node_def split: option.splits)

lemma same_node_simps [simp]:
  "same_node ce None None" "\<not> same_node ce None (Some x)" "\<not> same_node ce (Some n) None"
  "same_node ce (Some n) (Some x) \<longleftrightarrow> mem_nd ce (mn_node n) = sql_nd (scanNode ce x) \<and> mn_deleted n = nr_deleted x"
  by (simp_all add: same_node_def)

lemma same_fields:
  assumes "mem_nd ce n = sql_nd (scanNode ce x)"
  shows "nd_ID n = nr_id x" "nd_ParentID n = nr_parent x" "nd_Type n = nr_type x" "nd_Slug n = nr_slug x"
    "nd_Title n = nr_title x" "nd_SchemaVersion n = nr_schema x" "nd_CreatedAt n = ce_fmt ce (nr_created x)"
  using assms by (cases n, simp add: mem_nd_def sql_nd_def scanNode_def)+

lemma liveNode_find:
  assumes "distinct (map nr_id (ct_nodes t))"
  shows "liveNode ce i (healthy t) =
     (case row t i of None \<Rightarrow> Inl NotFound
      | Some r \<Rightarrow> if nr_deleted r then Inl NotFound else Inr (scanNode ce r), healthy t)"
  by (simp add: liveNode_def or_missing_def orElse_def catchS_def failS_def case_map_list case_filter_find
      find_key_and [OF assms] row_def split: option.split)

lemma live_sim:
  assumes "sim_nodes ce T s t"
  shows "liveLocked s i = Inl NotFound \<and> liveNode ce i (healthy t) = (Inl NotFound, healthy t) \<or>
    (\<exists>n r. liveLocked s i = Inr n \<and> map_of (mc_nodes s) i = Some n \<and> row t i = Some r \<and> \<not> mn_deleted n \<and> \<not> nr_deleted r \<and>
       mem_nd ce (mn_node n) = sql_nd (scanNode ce r) \<and> liveNode ce i (healthy t) = (Inr (scanNode ce r), healthy t))"
proof -
  note live = liveNode_find [OF sim_distinct [OF assms], of ce i]
  have same: "same_node ce (map_of (mc_nodes s) i) (row t i)" using assms by (simp add: sim_nodes_def)
  show ?thesis
  proof (cases "map_of (mc_nodes s) i")
    case None
    with same live show ?thesis by (auto simp: liveLocked_def dest!: same_nodeD(3))
  next
    case (Some n)
    with same live show ?thesis by (auto simp: liveLocked_def dest!: same_nodeD(1))
  qed
qed

lemma row_Some: "distinct (map nr_id (ct_nodes t)) \<Longrightarrow> row t k = Some r \<longleftrightarrow> r \<in> set (ct_nodes t) \<and> nr_id r = k"
  by (simp add: row_def find_key)

lemma slug_sim:
  assumes "sim_nodes ce T s t"
  shows "map nr_id (filter (\<lambda>r. nr_parent r = p \<and> nr_slug r = sl) (ct_nodes t)) =
    (case find (\<lambda>(_, n). nd_ParentID (mn_node n) = p \<and> nd_Slug (mn_node n) = sl) (entries (mc_nodes s)) of
       None \<Rightarrow> [] | Some (k, _) \<Rightarrow> [k])"
proof -
  note d = sim_distinct [OF assms]
  have inv: "nodes_inv s" using assms by (simp add: sim_nodes_def)
  have same: "\<And>k. same_node ce (map_of (mc_nodes s) k) (row t k)" using assms by (simp add: sim_nodes_def)
  have mem: "\<exists>n. map_of (mc_nodes s) (nr_id r) = Some n \<and> nd_ParentID (mn_node n) = nr_parent r \<and> nd_Slug (mn_node n) = nr_slug r"
    if "r \<in> set (ct_nodes t)" for r
  proof -
    have "row t (nr_id r) = Some r" using that by (simp add: row_Some [OF d])
    with same [of "nr_id r"] obtain n where "map_of (mc_nodes s) (nr_id r) = Some n"
      "mem_nd ce (mn_node n) = sql_nd (scanNode ce r)" by (auto dest!: same_nodeD(2))
    with same_fields(2,4) show ?thesis by metis
  qed
  show ?thesis
  proof (cases "find (\<lambda>(_, n). nd_ParentID (mn_node n) = p \<and> nd_Slug (mn_node n) = sl) (entries (mc_nodes s))")
    case None
    have "\<not> (nr_parent r = p \<and> nr_slug r = sl)" if "r \<in> set (ct_nodes t)" for r
      using mem [OF that] find_no_entry [OF None] by fastforce
    with None show ?thesis by (auto simp: filter_empty_conv)
  next
    case (Some x)
    obtain k n where kn: "x = (k, n)" by fastforce
    then have n: "map_of (mc_nodes s) k = Some n" "nd_ParentID (mn_node n) = p" "nd_Slug (mn_node n) = sl"
      using find_entry [OF Some [unfolded kn]] by auto
    from same [of k] n obtain r where "row t k = Some r" "mem_nd ce (mn_node n) = sql_nd (scanNode ce r)"
      by (auto dest!: same_nodeD(1))
    with same_fields(2,4) n have r: "row t k = Some r" "nr_parent r = p" "nr_slug r = sl" by metis+
    have "nr_id r' = k" if "r' \<in> set (ct_nodes t)" "nr_parent r' = p" "nr_slug r' = sl" for r'
      using mem [OF that(1)] nodes_invD(4) [OF inv _ n(1)] n that by fastforce
    then have "filter (\<lambda>r. nr_parent r = p \<and> nr_slug r = sl) (ct_nodes t) = filter (\<lambda>x. nr_id x = nr_id r) (ct_nodes t)"
      using r d by (intro filter_cong) (auto simp: row_Some distinct_map dest: inj_onD)
    also have "\<dots> = [r]"
      using d r by (auto simp: row_Some intro!: filter_key)
    finally show ?thesis using Some kn r d by (simp add: row_Some)
  qed
qed

section \<open>Changing rows\<close>

lemma row_map_rows:
  assumes "\<And>r. nr_id (f r) = nr_id r"
  shows "row (map_rows P f t) k = map_option (\<lambda>r. if P r then f r else r) (row t k)"
  using find_upd_key [of nr_id f, OF assms] by (simp add: row_def map_rows_def)

lemma touch_keeps:
  assumes "\<And>r. nr_id (f r) = nr_id r \<and> nr_created (f r) = nr_created r"
  shows "nr_id (touch now f r) = nr_id r \<and> nr_created (touch now f r) = nr_created r"
  using assms by (simp add: touch_def)

lemma sql_touch: "sql_nd (scanNode ce (touch now f r)) = sql_nd (scanNode ce (f r))"
  by (simp add: touch_def sql_nd_def scanNode_def)

lemma deleted_touch: "nr_deleted (touch now f r) = nr_deleted (f r)"
  by (simp add: touch_def)

lemma sim_rows:
  assumes sim: "sim_nodes ce T s t" and f: "\<And>r. nr_id (f r) = nr_id r \<and> nr_created (f r) = nr_created r"
    and inv: "nodes_inv s'" and "mc_nextID s' = mc_nextID s" and "T \<le> now"
    and rows: "\<And>k. same_node ce (map_of (mc_nodes s') k) (map_option (\<lambda>r. if P r then f r else r) (row t k))"
  shows "sim_nodes ce now s' (map_rows P f t)"
proof -
  have g: "nr_id (if P r then f r else r) = nr_id r" "nr_created (if P r then f r else r) = nr_created r" for r
    using f by simp_all
  have "sorted_wrt (\<lambda>a b. nr_id a < nr_id b \<and> nr_created a \<le> nr_created b) (ct_nodes t)"
    and old: "\<forall>r\<in>set (ct_nodes t). nr_created r \<le> T" using sim by (simp_all add: sim_nodes_def)
  then have "sorted_wrt (\<lambda>a b. nr_id a < nr_id b \<and> nr_created a \<le> nr_created b) (ct_nodes (map_rows P f t))"
    by (simp add: map_rows_def sorted_wrt_map g)
  moreover have "nr_created r \<le> now" if "r \<in> set (ct_nodes (map_rows P f t))" for r
  proof -
    from that obtain x where "x \<in> set (ct_nodes t)" "nr_created r = nr_created x"
      using f by (auto simp: map_rows_def split: if_splits)
    with old assms(5) show ?thesis by fastforce
  qed
  moreover have "ct_next (map_rows P f t) = mc_nextID s' + 1"
    using sim assms(4) by (simp add: sim_nodes_def map_rows_def)
  moreover have "\<forall>k. same_node ce (map_of (mc_nodes s') k) (row (map_rows P f t) k)"
    using rows row_map_rows [of f P t] f by simp
  ultimately show ?thesis using inv by (simp add: sim_nodes_def)
qed

lemma sim_pages_other:
  assumes "sim_pages ce s t" and "other_state s s'" and "ct_pages t' = ct_pages t" and "ct_vers t' = ct_vers t"
  shows "sim_pages ce s' t'"
  using assms page_inv_other [OF assms(2)]
  by (simp add: sim_pages_def other_state_def versions_def current_def path_vers_def page_of_def)

lemma sim_mono: "sim_nodes ce T s t \<Longrightarrow> T \<le> now \<Longrightarrow> sim_nodes ce now s t"
  by (fastforce simp: sim_nodes_def)

lemma sorted_wrt_last: "sorted_wrt R (xs @ [y]) \<longleftrightarrow> sorted_wrt R xs \<and> (\<forall>x\<in>set xs. R x y)"
  by (auto simp: sorted_wrt_append)

lemma row_bounds:
  assumes "sim_nodes ce T s t" and "r \<in> set (ct_nodes t)"
  shows "1 \<le> nr_id r \<and> nr_id r < ct_next t"
proof -
  have "row t (nr_id r) = Some r" using assms(2) by (simp add: row_Some [OF sim_distinct [OF assms(1)]])
  moreover have "same_node ce (map_of (mc_nodes s) (nr_id r)) (row t (nr_id r))" using assms(1) by (simp add: sim_nodes_def)
  ultimately obtain n where "map_of (mc_nodes s) (nr_id r) = Some n" by (auto dest!: same_nodeD(2))
  with nodes_invD(3) [of s "nr_id r" n] assms(1) show ?thesis by (simp add: sim_nodes_def)
qed

lemma sim_insert:
  assumes sim: "sim_nodes ce T s t" and inv: "nodes_inv s'"
    and s': "s' = s\<lparr>mc_nextID := ct_next t, mc_nodes := al_put (ct_next t) n (mc_nodes s)\<rparr>"
    and t': "t' = t\<lparr>ct_next := ct_next t + 1, ct_nodes := ct_nodes t @ [r]\<rparr>"
    and r: "nr_id r = ct_next t" "nr_created r = now" "T \<le> now" "same_node ce (Some n) (Some r)"
  shows "sim_nodes ce now s' t'"
proof -
  have "row t (ct_next t) = None"
    using row_bounds [OF sim] by (fastforce simp: row_def find_None_iff)
  then have "row t' k = (if k = ct_next t then Some r else row t k)" for k
    by (simp add: row_def t' find_append r(1) split: option.split)
  moreover have "sorted_wrt (\<lambda>a b. nr_id a < nr_id b \<and> nr_created a \<le> nr_created b) (ct_nodes t')"
    using sim row_bounds [OF sim] r by (fastforce simp: t' sorted_wrt_last sim_nodes_def)
  moreover have "\<forall>x\<in>set (ct_nodes t'). nr_created x \<le> now"
    using sim r by (fastforce simp: t' sim_nodes_def)
  ultimately show ?thesis using sim inv r(4) by (auto simp: sim_nodes_def s' t')
qed

section \<open>PutNode\<close>

lemma parent_sim:
  assumes "sim_nodes ce T s t"
  shows "\<exists>P. (if i \<noteq> 0 then bindS (liveNode ce i) (\<lambda>p. retS (Some p)) else retS None) (healthy t) = (P, healthy t) \<and>
    ((\<exists>e. (if i \<noteq> 0 then bindR (liveLocked s i) (\<lambda>p. Inr (Some (mn_node p))) else Inr None) = Inl e \<and> P = Inl e) \<or>
     (\<exists>a b. (if i \<noteq> 0 then bindR (liveLocked s i) (\<lambda>p. Inr (Some (mn_node p))) else Inr None) = Inr a \<and> P = Inr b \<and>
        (\<forall>typ. checkParent typ b = checkParent typ a)))"
proof (cases "i = 0")
  case True
  then show ?thesis by (auto simp: retS_def)
next
  case False
  from live_sim [OF assms, of i] show ?thesis
  proof (elim disjE exE conjE)
    assume "liveLocked s i = Inl NotFound" "liveNode ce i (healthy t) = (Inl NotFound, healthy t)"
    with False show ?thesis by (auto simp: bindS_def)
  next
    fix n r assume h: "liveLocked s i = Inr n" "mem_nd ce (mn_node n) = sql_nd (scanNode ce r)"
      "liveNode ce i (healthy t) = (Inr (scanNode ce r), healthy t)"
    have "nd_Type (scanNode ce r) = nd_Type (mn_node n)" using same_fields(3) [OF h(2)] by (simp add: scanNode_def)
    then have "checkParent ty (Some (scanNode ce r)) = checkParent ty (Some (mn_node n))" for ty
      by (simp add: checkParent_def split: option.split)
    with False h show ?thesis by (auto simp: bindS_def retS_def)
  qed
qed

definition fits_put :: "node_input \<Rightarrow> bool" where
  "fits_put inp \<longleftrightarrow> varchar 255 (ni_Title inp) \<and> int32 (ni_SchemaVersion inp)"

lemma clean_version_int32: "cleanSchemaVersion v = Inr sv \<Longrightarrow> int32 v \<Longrightarrow> int32 sv"
  by (auto simp: cleanSchemaVersion_def int32_def split: if_splits)

lemma put_sim:
  assumes env: "content_env_ok ce" and sim: "sim ce T s t" and T: "T \<le> now" and fits: "fits_put inp"
  shows "\<exists>b t'. sql_PutNode ce now inp (healthy t) = (b, healthy t') \<and>
    same_res ce (fst (PutNode (ce_valid ce) (ce_fmt ce now) inp s)) b \<and>
    sim ce now (snd (PutNode (ce_valid ce) (ce_fmt ce now) inp s)) t'"
proof -
  have sn: "sim_nodes ce T s t" and sp: "sim_pages ce s t" using sim by (simp_all add: sim_def)
  have inv: "nodes_inv s" using sn by (simp add: sim_nodes_def)
  have keep: "sim ce now s t" using sim_mono [OF sn T] sp by (simp add: sim_def)
  let ?par = "if ni_ParentID inp \<noteq> 0 then bindS (liveNode ce (ni_ParentID inp)) (\<lambda>p. retS (Some p)) else retS None"
  obtain P where P: "?par (healthy t) = (P, healthy t)"
    and Q: "(\<exists>e. (if ni_ParentID inp \<noteq> 0 then bindR (liveLocked s (ni_ParentID inp)) (\<lambda>p. Inr (Some (mn_node p))) else Inr None) = Inl e \<and> P = Inl e) \<or>
     (\<exists>a b. (if ni_ParentID inp \<noteq> 0 then bindR (liveLocked s (ni_ParentID inp)) (\<lambda>p. Inr (Some (mn_node p))) else Inr None) = Inr a \<and> P = Inr b \<and>
        (\<forall>typ. checkParent typ b = checkParent typ a))"
    using parent_sim [OF sn, of "ni_ParentID inp"] by blast
  show ?thesis
  proof (cases "put_checks (ce_valid ce) inp s")
    case (Inl e)
    then have "sql_PutNode ce now inp (healthy t) = (Inl e, healthy t)"
      using Q P
      by (cases "cleanSlug (ni_Slug inp)"; cases "cleanNodeData (ce_valid ce) (ni_Data inp)";
          cases "cleanSchemaVersion (ni_SchemaVersion inp)")
        (auto simp: put_checks_def sql_PutNode_def bindS_def [of "liftS _"] liftS_def transaction_def
          bindS_def [of "if ni_ParentID inp \<noteq> 0 then _ else _"] bindR_eq_Inl split: if_splits)
    with Inl keep show ?thesis by (simp add: PutNode_def same_res_def)
  next
    case (Inr x)
    then obtain slug data sv where c: "put_checks (ce_valid ce) inp s = Inr (slug, data, sv)" by (cases x) auto
    note cl = put_checks_Inr(1,2,3) [OF c]
    have i32: "int32 sv" and tl: "varchar 255 (ni_Title inp)"
      using clean_version_int32 [OF cl(3)] fits by (simp_all add: fits_put_def)
    obtain b where b: "P = Inr b" "checkModuleSlug (ni_Type inp) slug = Inr ()" "checkParent (ni_Type inp) b = Inr ()"
      using c Q by (auto simp: put_checks_def bindR_eq_Inr split: if_splits)
    let ?fin = "\<lambda>found. bindS (case found of None \<Rightarrow> on_store (ins_node ce now inp slug data sv)
              | Some i \<Rightarrow> bindS (on_store (revive ce now inp data sv i)) (\<lambda>_. retS i)) (\<lambda>i. liveNode ce i)"
    let ?found = "find (\<lambda>(_, n). nd_ParentID (mn_node n) = ni_ParentID inp \<and> nd_Slug (mn_node n) = slug) (entries (mc_nodes s))"
    have sel: "catchS (bindS (sel_slug (ni_ParentID inp) slug) (\<lambda>i. retS (Some i)))
        (\<lambda>e. if e = NoRows then retS None else failS (StoreErr e)) (healthy t) =
        (Inr (map_option fst ?found), healthy t)"
      by (simp add: catchS_def bindS_def sel_slug_def slug_sim [OF sn] retS_def split: option.split)
    let ?body = "bindS ?par (\<lambda>parent.
       bindS (liftS (checkModuleSlug (ni_Type inp) slug)) (\<lambda>_.
       bindS (liftS (checkParent (ni_Type inp) parent)) (\<lambda>_.
       bindS (catchS (bindS (sel_slug (ni_ParentID inp) slug) (\<lambda>i. retS (Some i)))
                     (\<lambda>e. if e = NoRows then retS None else failS (StoreErr e))) ?fin)))"
    have body: "?body (healthy t) =
        ?fin (map_option fst ?found) (healthy t)"
      using P b sel by (simp add: bindS_def [of ?par] bindS_def [of "liftS _"] liftS_def bindS_def [of "catchS _ _"])
    have run: "sql_PutNode ce now inp (healthy t) = (Inr nd, healthy t1)"
      if "?fin (map_option fst ?found) (healthy t) = (Inr nd, healthy t1)" for nd t1
    proof -
      have "transaction StoreErr ?body (healthy t) = (Inr nd, healthy t1)"
        by (rule transaction_healthy(1)) (simp only: body that)
      with cl show ?thesis by (simp add: sql_PutNode_def bindS_def [of "liftS _"] liftS_def)
    qed
    obtain a s' where m: "PutNode (ce_valid ce) (ce_fmt ce now) inp s = (a, s')" by fastforce
    obtain nd where a: "a = Inr nd" using m c by (auto simp: PutNode_def Let_def split: option.splits)
    note spec = PutNode_spec [OF inv m [unfolded a]]
    have id: "liveLocked s' (nd_ID nd) = Inr y \<Longrightarrow> mn_node y = nd" for y
      using spec(3) by (auto simp: liveLocked_Inr fun_upd_def tree_of_Some dest!: fun_cong [where x = "nd_ID nd"])
    have finish: ?thesis
      if t1: "(case map_option fst ?found of None \<Rightarrow> on_store (ins_node ce now inp slug data sv)
              | Some i \<Rightarrow> bindS (on_store (revive ce now inp data sv i)) (\<lambda>_. retS i)) (healthy t) = (Inr (nd_ID nd), healthy t1)"
        and n1: "sim_nodes ce now s' t1" and pg: "ct_pages t1 = ct_pages t" "ct_vers t1 = ct_vers t" for t1
    proof -
      have "tree_of (mc_nodes s') (nd_ID nd) = Some nd" using spec(3) by simp
      then have "isOk (liveLocked s' (nd_ID nd))" by (simp add: liveLocked_tree)
      with live_sim [OF n1, of "nd_ID nd"] obtain y r where yr: "liveLocked s' (nd_ID nd) = Inr y"
        "mem_nd ce (mn_node y) = sql_nd (scanNode ce r)"
        "liveNode ce (nd_ID nd) (healthy t1) = (Inr (scanNode ce r), healthy t1)" by auto
      have "?fin (map_option fst ?found) (healthy t) = (Inr (scanNode ce r), healthy t1)"
        unfolding bindS_def [of "case map_option fst ?found of None \<Rightarrow> _ | Some i \<Rightarrow> _ i"] t1 using yr(3) by simp
      from run [OF this] yr id [OF yr(1)] m a sim_pages_other [OF sp spec(2) pg] n1 show ?thesis
        by (auto simp: same_res_def sim_def)
    qed
    show ?thesis
    proof (cases ?found)
      case None
      let ?row = "\<lparr>nr_id = ct_next t, nr_parent = ni_ParentID inp, nr_type = ni_Type inp, nr_slug = slug,
         nr_title = ni_Title inp, nr_data = ce_json ce data, nr_schema = sv, nr_deleted = False,
         nr_created = now, nr_updated = now\<rparr>"
      let ?t1 = "t\<lparr>ct_next := ct_next t + 1, ct_nodes := ct_nodes t @ [?row]\<rparr>"
      have nx: "mc_nextID s + 1 = ct_next t" using sn by (simp add: sim_nodes_def)
      have nd: "nd = \<lparr>nd_ID = ct_next t, nd_ParentID = ni_ParentID inp, nd_Type = ni_Type inp, nd_Slug = slug,
           nd_Title = ni_Title inp, nd_Data = data, nd_SchemaVersion = sv, nd_CreatedAt = ce_fmt ce now,
           nd_UpdatedAt = ce_fmt ce now\<rparr>"
        and s': "s' = s\<lparr>mc_nextID := ct_next t, mc_nodes := al_put (ct_next t) \<lparr>mn_node = nd, mn_deleted = False, mn_seq = ct_next t\<rparr> (mc_nodes s)\<rparr>"
        using m a c None nx by (auto simp: PutNode_def Let_def)
      have "sim_nodes ce now s' ?t1"
        by (rule sim_insert [OF sn spec(1) s' refl _ _ T]) (use env nd in \<open>simp_all add: mem_nd_def sql_nd_def scanNode_def content_env_ok_def\<close>)
      moreover have free: "\<not> list_ex (\<lambda>r. nr_parent r = ni_ParentID inp \<and> nr_slug r = slug) (ct_nodes t)"
        using slug_sim [OF sn, of "ni_ParentID inp" slug] None by (auto simp: list_ex_iff filter_empty_conv)
      moreover have "on_store (ins_node ce now inp slug data sv) (healthy t) = (Inr (nd_ID nd), healthy ?t1)"
        using tl i32 free nd by (simp add: on_store_def orElse_def catchS_def ins_node_def)
      ultimately show ?thesis by (intro finish [of ?t1]) (simp_all add: None)
    next
      case (Some kn)
      obtain k n where kn: "kn = (k, n)" by fastforce
      have n: "map_of (mc_nodes s) k = Some n" "nd_ParentID (mn_node n) = ni_ParentID inp" "nd_Slug (mn_node n) = slug"
        using find_entry [OF Some [unfolded kn]] by auto
      let ?f = "\<lambda>r. r\<lparr>nr_type := ni_Type inp, nr_title := ni_Title inp, nr_data := ce_json ce data,
                          nr_schema := sv, nr_deleted := False\<rparr>"
      let ?t1 = "map_rows (\<lambda>r. nr_id r = k) (touch now ?f) t"
      have nd: "nd = (mn_node n)\<lparr>nd_Type := ni_Type inp, nd_Title := ni_Title inp, nd_Data := data,
                                    nd_SchemaVersion := sv, nd_UpdatedAt := ce_fmt ce now\<rparr>"
        and s': "s' = s\<lparr>mc_nodes := al_put k (n\<lparr>mn_node := nd, mn_deleted := False\<rparr>) (mc_nodes s)\<rparr>"
        using m a c Some kn by (auto simp: PutNode_def Let_def)
      have idk: "nd_ID nd = k" using nodes_invD(3) [OF inv n(1)] nd by simp
      have "sim_nodes ce now s' ?t1"
      proof (rule sim_rows [OF sn _ spec(1) _ T])
        show "nr_id (touch now ?f r) = nr_id r \<and> nr_created (touch now ?f r) = nr_created r" for r
          by (rule touch_keeps) simp
        show "mc_nextID s' = mc_nextID s" by (simp add: s')
        have same: "same_node ce (map_of (mc_nodes s) j) (row t j)" for j using sn by (simp add: sim_nodes_def)
        obtain r where r: "row t k = Some r" "mem_nd ce (mn_node n) = sql_nd (scanNode ce r)"
          using same [of k] n(1) by (auto dest!: same_nodeD(1))
        have rid: "nr_id r = k" using r(1) sim_distinct [OF sn] by (simp add: row_Some)
        have "mem_nd ce nd = sql_nd (scanNode ce (?f r))"
          using r(2) same_fields [OF r(2)] env nd
          by (cases "mn_node n") (simp add: mem_nd_def sql_nd_def scanNode_def content_env_ok_def)
        moreover have "nr_id x = k \<Longrightarrow> row t j = Some x \<Longrightarrow> j = k" for x j
          using sim_distinct [OF sn] by (simp add: row_Some)
        ultimately show "same_node ce (map_of (mc_nodes s') j) (map_option (\<lambda>r. if nr_id r = k then touch now ?f r else r) (row t j))" for j
          using same [of j] r(1) rid by (cases "j = k"; cases "row t j") (auto simp: s' sql_touch deleted_touch)
      qed
      moreover have "bindS (on_store (revive ce now inp data sv k)) (\<lambda>_. retS k) (healthy t) = (Inr (nd_ID nd), healthy ?t1)"
        using tl i32 idk by (simp add: on_store_def orElse_def catchS_def revive_def bindS_def retS_def)
      ultimately show ?thesis by (intro finish [of ?t1]) (simp_all add: Some kn map_rows_def)
    qed
  qed
qed

text \<open>Both fail, or both return the same node.\<close>

definition agree :: "content_env \<Rightarrow> content_err + node \<Rightarrow> content_err + node \<Rightarrow> bool" where
  "agree ce a b \<longleftrightarrow>
     (case (a, b) of (Inl _, Inl _) \<Rightarrow> True | (Inr x, Inr y) \<Rightarrow> mem_nd ce x = sql_nd y | _ \<Rightarrow> False)"

lemma same_res_agree: "same_res ce a b \<Longrightarrow> agree ce a b"
  by (cases a; cases b) (auto simp: same_res_def agree_def)

lemma rows_at:
  assumes "sim_nodes ce T s t" and "row t i = Some r" and "\<not> nr_deleted r" and "row t j = Some x"
  shows "nr_id x = i \<and> \<not> nr_deleted x \<longleftrightarrow> j = i"
proof -
  have "nr_id x = j" using assms(4) by (simp add: row_Some [OF sim_distinct [OF assms(1)]])
  then show ?thesis using assms by auto
qed

section \<open>UpdateNode\<close>

definition fits_update :: "string option \<Rightarrow> int option \<Rightarrow> bool" where
  "fits_update title sv \<longleftrightarrow> (case title of None \<Rightarrow> True | Some x \<Rightarrow> varchar 255 x) \<and>
     (case sv of None \<Rightarrow> True | Some v \<Rightarrow> 0 \<le> v \<and> int32 v)"

lemma data_arg_check:
  "data_arg valid data = (case check_opt (cleanNodeData valid) data of
     Inl e \<Rightarrow> Inl e | Inr d \<Rightarrow> Inr (\<lambda>x. case d of None \<Rightarrow> x | Some y \<Rightarrow> x\<lparr>nd_Data := y\<rparr>))"
  by (auto simp: data_arg_def check_opt_def bindR_def split: option.splits sum.splits)

lemma version_arg_check:
  "version_arg sv = (case check_opt cleanSchemaVersion sv of
     Inl e \<Rightarrow> Inl e | Inr d \<Rightarrow> Inr (\<lambda>x. case d of None \<Rightarrow> x | Some y \<Rightarrow> x\<lparr>nd_SchemaVersion := y\<rparr>))"
  by (auto simp: version_arg_def check_opt_def bindR_def split: option.splits sum.splits)

lemma mem_nd_eq:
  "mem_nd ce n = sql_nd (scanNode ce r) \<longleftrightarrow>
     nd_ID n = nr_id r \<and> nd_ParentID n = nr_parent r \<and> nd_Type n = nr_type r \<and> nd_Slug n = nr_slug r \<and>
     nd_Title n = nr_title r \<and> ce_json ce (nd_Data n) = (if nr_data r = [] then ''{}'' else nr_data r) \<and>
     nd_SchemaVersion n = nr_schema r \<and> nd_CreatedAt n = ce_fmt ce (nr_created r)"
  by (cases n) (auto simp: mem_nd_def sql_nd_def scanNode_def)

lemma update_sim:
  assumes env: "content_env_ok ce" and sim: "sim ce T s t" and T: "T \<le> now" and fits: "fits_update title sv"
  shows "\<exists>b t'. sql_UpdateNode ce now i title data sv (healthy t) = (b, healthy t') \<and>
    agree ce (fst (UpdateNode (ce_valid ce) (ce_fmt ce now) i title data sv s)) b \<and>
    sim ce now (snd (UpdateNode (ce_valid ce) (ce_fmt ce now) i title data sv s)) t'"
proof -
  have sn: "sim_nodes ce T s t" and sp: "sim_pages ce s t" using sim by (simp_all add: sim_def)
  have inv: "nodes_inv s" using sn by (simp add: sim_nodes_def)
  have keep: "sim ce now s t" using sim_mono [OF sn T] sp by (simp add: sim_def)
  obtain v where v: "check_opt cleanSchemaVersion sv = Inr v" "\<forall>x. v = Some x \<longrightarrow> int32 x"
  proof (cases sv)
    case None
    then show thesis by (intro that [of None]) (simp_all add: check_opt_def)
  next
    case (Some x)
    with fits show thesis
      by (intro that [of "Some (if x = 0 then 1 else x)"])
        (auto simp: check_opt_def fits_update_def cleanSchemaVersion_def int32_def)
  qed
  show ?thesis
  proof (cases "check_opt (cleanNodeData (ce_valid ce)) data")
    case (Inl e)
    then have "sql_UpdateNode ce now i title data sv (healthy t) = (Inl e, healthy t)"
      by (simp add: sql_UpdateNode_def bindS_def liftS_def)
    moreover have "\<exists>e'. UpdateNode (ce_valid ce) (ce_fmt ce now) i title data sv s = (Inl e', s)"
      using Inl by (cases "liveLocked s i") (simp_all add: UpdateNode_def data_arg_check)
    ultimately show ?thesis using keep by (auto simp: agree_def)
  next
    case (Inr d)
    from live_sim [OF sn, of i] show ?thesis
    proof (elim disjE exE conjE)
      assume "liveLocked s i = Inl NotFound" "liveNode ce i (healthy t) = (Inl NotFound, healthy t)"
      with Inr v keep show ?thesis
        by (simp add: sql_UpdateNode_def UpdateNode_def bindS_def liftS_def agree_def)
    next
      fix n r assume h: "liveLocked s i = Inr n" "map_of (mc_nodes s) i = Some n" "row t i = Some r" "\<not> mn_deleted n"
        "\<not> nr_deleted r" "mem_nd ce (mn_node n) = sql_nd (scanNode ce r)"
        "liveNode ce i (healthy t) = (Inr (scanNode ce r), healthy t)"
      let ?mf = "\<lambda>x. (title_arg title ((case v of None \<Rightarrow> (case d of None \<Rightarrow> x | Some y \<Rightarrow> x\<lparr>nd_Data := y\<rparr>)
          | Some y \<Rightarrow> (case d of None \<Rightarrow> x | Some y \<Rightarrow> x\<lparr>nd_Data := y\<rparr>)\<lparr>nd_SchemaVersion := y\<rparr>)))\<lparr>nd_UpdatedAt := ce_fmt ce now\<rparr>"
      let ?rf = "\<lambda>r. r\<lparr>nr_title := (case title of None \<Rightarrow> nr_title r | Some x \<Rightarrow> x),
                          nr_data := (case d of None \<Rightarrow> nr_data r | Some d \<Rightarrow> ce_json ce d),
                          nr_schema := (case v of None \<Rightarrow> nr_schema r | Some v \<Rightarrow> v)\<rparr>"
      have m: "UpdateNode (ce_valid ce) (ce_fmt ce now) i title data sv s = (Inr (?mf (mn_node n)), upd i ?mf s)"
        using h(1) Inr v by (simp add: UpdateNode_def data_arg_check version_arg_check Let_def)
      have kp: "keeps_place ?mf" by (auto simp: keeps_place_def title_arg_def split: option.split)
      note us = upd_spec [OF inv h(2,4) kp]
      have nd: "mem_nd ce (?mf (mn_node n)) = sql_nd (scanNode ce (?rf r))"
        using h(6) env by (auto simp: mem_nd_eq title_arg_def content_env_ok_def split: option.split)
      have rows: "nr_id x = i \<and> \<not> nr_deleted x \<longleftrightarrow> j = i" if "row t j = Some x" for x j
        using rows_at [OF sn h(3,5) that] .
      have same: "same_node ce (map_of (mc_nodes s) j) (row t j)" for j using sn by (simp add: sim_nodes_def)
      have sim': "sim_nodes ce now (upd i ?mf s) (map_rows (\<lambda>r. nr_id r = i \<and> \<not> nr_deleted r) (touch now ?rf) t)"
      proof (rule sim_rows [OF sn _ us(1) _ T])
        show "nr_id (touch now ?rf r) = nr_id r \<and> nr_created (touch now ?rf r) = nr_created r" for r
          by (rule touch_keeps) simp
        show "mc_nextID (upd i ?mf s) = mc_nextID s" by (simp add: upd_nodes [OF h(2)])
        show "same_node ce (map_of (mc_nodes (upd i ?mf s)) j)
            (map_option (\<lambda>r. if nr_id r = i \<and> \<not> nr_deleted r then touch now ?rf r else r) (row t j))" for j
        proof (cases "j = i")
          case True
          then show ?thesis using h(3,4,5) rows [OF h(3)] nd
            by (simp add: upd_nodes [OF h(2)] sql_touch deleted_touch)
        next
          case False
          then show ?thesis using same [of j] rows [of j] by (cases "row t j") (auto simp: upd_nodes [OF h(2)])
        qed
      qed
      have sp': "sim_pages ce (upd i ?mf s) t'" if "ct_pages t' = ct_pages t" "ct_vers t' = ct_vers t" for t'
        by (rule sim_pages_other [OF sp us(2) that])
      have live': "liveLocked (upd i ?mf s) i = Inr (n\<lparr>mn_node := ?mf (mn_node n)\<rparr>)"
        using h(2,4) by (simp add: liveLocked_Inr upd_nodes [OF h(2)])
      show ?thesis
      proof (cases "title \<noteq> None \<or> d \<noteq> None \<or> v \<noteq> None")
        case True
        let ?t1 = "map_rows (\<lambda>r. nr_id r = i \<and> \<not> nr_deleted r) (touch now ?rf) t"
        have up: "on_store (upd_node ce now title d v i) (healthy t) = (Inr (), healthy ?t1)"
          using fits v(2) by (auto simp: on_store_def orElse_def catchS_def upd_node_def fits_update_def split: option.splits)
        from live_sim [OF sim', of i] live' obtain y where
          y: "mem_nd ce (?mf (mn_node n)) = sql_nd (scanNode ce y)" "liveNode ce i (healthy ?t1) = (Inr (scanNode ce y), healthy ?t1)"
          by auto
        have "sql_UpdateNode ce now i title data sv (healthy t) = (Inr (scanNode ce y), healthy ?t1)"
          using True Inr v h(7) up y(2)
          by (simp add: sql_UpdateNode_def bindS_def [of "liftS _"] liftS_def bindS_def [of "liveNode _ _"]
              bindS_def [of "on_store _"])
        then show ?thesis using m y(1) sim' sp' by (auto simp: agree_def sim_def map_rows_def)
      next
        case False
        then have "?rf r = r" by simp
        have t1: "map_rows (\<lambda>r. nr_id r = i \<and> \<not> nr_deleted r) (touch now ?rf) t = t"
          using False by (simp add: map_rows_def touch_def [abs_def] cong: if_cong)
        have "sql_UpdateNode ce now i title data sv (healthy t) = (Inr (scanNode ce r), healthy t)"
          using False Inr v h(7)
          by (simp add: sql_UpdateNode_def bindS_def [of "liftS _"] liftS_def bindS_def [of "liveNode _ _"]
              bindS_def [of "retS _"] retS_def)
        then show ?thesis using m nd sim' sp' \<open>?rf r = r\<close> t1 by (simp add: agree_def sim_def)
      qed
    qed
  qed
qed

section \<open>MoveNode\<close>

lemma move_sim:
  assumes sim: "sim ce T s t" and T: "T \<le> now"
  shows "\<exists>b t'. sql_MoveNode ce now i p (healthy t) = (fst (MoveNode i p s), healthy t') \<and>
    sim ce now (snd (MoveNode i p s)) t'"
proof -
  have sn: "sim_nodes ce T s t" and sp: "sim_pages ce s t" using sim by (simp_all add: sim_def)
  have inv: "nodes_inv s" using sn by (simp add: sim_nodes_def)
  have keep: "sim ce now s t" using sim_mono [OF sn T] sp by (simp add: sim_def)
  from live_sim [OF sn, of i] show ?thesis
  proof (elim disjE exE conjE)
    assume "liveLocked s i = Inl NotFound" "liveNode ce i (healthy t) = (Inl NotFound, healthy t)"
    with keep show ?thesis by (simp add: sql_MoveNode_def MoveNode_def bindS_def)
  next
    fix n r assume h: "liveLocked s i = Inr n" "map_of (mc_nodes s) i = Some n" "row t i = Some r" "\<not> mn_deleted n"
      "\<not> nr_deleted r" "mem_nd ce (mn_node n) = sql_nd (scanNode ce r)"
      "liveNode ce i (healthy t) = (Inr (scanNode ce r), healthy t)"
    note eq = h(6) [unfolded mem_nd_eq]
    have scan: "nd_ParentID (scanNode ce r) = nd_ParentID (mn_node n)" "nd_Slug (scanNode ce r) = nd_Slug (mn_node n)"
      using eq by (simp_all add: scanNode_def)
    show ?thesis
    proof (cases "nd_ParentID (mn_node n) = p")
      case True
      with h keep scan show ?thesis by (simp add: sql_MoveNode_def MoveNode_def bindS_def retS_def)
    next
      case False
      let ?found = "find (\<lambda>(_, m). nd_ParentID (mn_node m) = p \<and> nd_Slug (mn_node m) = nd_Slug (mn_node n)) (entries (mc_nodes s))"
      have sel: "catchS (bindS (sel_slug p (nd_Slug (scanNode ce r))) (\<lambda>i. retS (Some i)))
          (\<lambda>e. if e = NoRows then retS None else failS (StoreErr e)) (healthy t) =
          (Inr (map_option fst ?found), healthy t)"
        by (simp add: scan catchS_def bindS_def sel_slug_def slug_sim [OF sn] retS_def split: option.split)
      show ?thesis
      proof (cases ?found)
        case (Some x)
        then have "list_ex (\<lambda>(_, m). nd_ParentID (mn_node m) = p \<and> nd_Slug (mn_node m) = nd_Slug (mn_node n)) (entries (mc_nodes s))"
          using find_SomeD [OF Some] by (auto simp: list_ex_iff)
        with h keep scan False Some sel show ?thesis
          by (simp add: sql_MoveNode_def MoveNode_def bindS_def [of "liveNode _ _"] bindS_def [of "catchS _ _"] failS_def)
      next
        case None
        then have no: "\<not> list_ex (\<lambda>(_, m). nd_ParentID (mn_node m) = p \<and> nd_Slug (mn_node m) = nd_Slug (mn_node n)) (entries (mc_nodes s))"
          by (auto simp: list_ex_iff find_None_iff)
        have free: "\<not> (nr_parent x = p \<and> nr_slug x = nd_Slug (mn_node n))" if "x \<in> set (ct_nodes t)" for x
          using slug_sim [OF sn, of p "nd_Slug (mn_node n)"] None that by (auto simp: filter_empty_conv)
        let ?f = "\<lambda>r. r\<lparr>nr_parent := p\<rparr>"
        let ?t1 = "map_rows (\<lambda>r. nr_id r = i \<and> \<not> nr_deleted r) ?f t"
        let ?s1 = "upd i (\<lambda>x. x\<lparr>nd_ParentID := p\<rparr>) s"
        have m: "MoveNode i p s = (Inr (), ?s1)" using h(1) False no by (simp add: MoveNode_def)
        have inv': "nodes_inv ?s1" "other_state s ?s1"
          using MoveNode_spec [OF inv m] by blast+
        have "\<not> list_ex (\<lambda>r. nr_id r \<noteq> i \<and> nr_parent r = p \<and> nr_slug r = nd_Slug (scanNode ce r')) (ct_nodes t)"
          if "nd_Slug (scanNode ce r') = nd_Slug (mn_node n)" for r'
          using free that by (auto simp: list_ex_iff)
        then have run: "sql_MoveNode ce now i p (healthy t) = (Inr (), healthy ?t1)"
          using h(7) False None sel scan
          by (simp add: sql_MoveNode_def bindS_def [of "liveNode _ _"] bindS_def [of "catchS _ _"] on_store_def
              orElse_def catchS_def [of "stmt _"])
        have rows: "nr_id x = i \<and> \<not> nr_deleted x \<longleftrightarrow> j = i" if "row t j = Some x" for x j
          using rows_at [OF sn h(3,5) that] .
        have same: "same_node ce (map_of (mc_nodes s) j) (row t j)" for j using sn by (simp add: sim_nodes_def)
        have "sim_nodes ce now ?s1 ?t1"
        proof (rule sim_rows [OF sn _ inv'(1) _ T])
          show "mc_nextID ?s1 = mc_nextID s" by (simp add: upd_nodes [OF h(2)])
          show "same_node ce (map_of (mc_nodes ?s1) j)
              (map_option (\<lambda>r. if nr_id r = i \<and> \<not> nr_deleted r then ?f r else r) (row t j))" for j
          proof (cases "j = i")
            case True
            then show ?thesis using h(3,4,5) rows [OF h(3)] eq by (simp add: upd_nodes [OF h(2)] mem_nd_eq)
          next
            case False
            then show ?thesis using same [of j] rows [of j] by (cases "row t j") (auto simp: upd_nodes [OF h(2)])
          qed
        qed simp
        moreover have "sim_pages ce ?s1 ?t1" by (rule sim_pages_other [OF sp inv'(2)]) (simp_all add: map_rows_def)
        ultimately show ?thesis using run m by (auto simp: sim_def)
      qed
    qed
  qed
qed

section \<open>DeleteNode\<close>

definition rank :: "string \<Rightarrow> nat" where
  "rank ty = (if ty = NodeModule then 0 else if ty = NodeDetail then 1 else 2)"

lemma parent_rank: "parentType ty = Some p \<Longrightarrow> p \<noteq> [] \<Longrightarrow> rank ty = Suc (rank p)"
  by (auto simp: parentType_def rank_def split: if_splits)

lemma child_rank:
  assumes "tree_ok T" and "T k = Some n" and "T c = Some m" and "nd_ParentID m = k"
  shows "rank (nd_Type m) = Suc (rank (nd_Type n))"
proof -
  have "place_ok T (nd_Type m) k" "k \<noteq> 0" using assms by (auto simp: tree_ok_def)
  then have "parentType (nd_Type m) = Some (nd_Type n)" using assms(2) by (auto simp: place_ok_def split: if_splits)
  moreover have "nd_Type n \<noteq> []"
  proof -
    have "place_ok T (nd_Type n) (nd_ParentID n)" using assms(1,2) by (simp add: tree_ok_def)
    then show ?thesis by (auto simp: place_ok_def parentType_def split: if_splits)
  qed
  ultimately show ?thesis by (rule parent_rank)
qed

abbreviation live_tree :: "memContent \<Rightarrow> tree" where
  "live_tree s \<equiv> tree_of (mc_nodes s)"

lemma live_rows:
  assumes "sim_nodes ce T s t"
  shows "c \<in> set (sel_kids fr t) \<longleftrightarrow> (\<exists>p\<in>set fr. (p, c) \<in> child (live_tree s))" and "distinct (sel_kids fr t)"
proof -
  note d = sim_distinct [OF assms]
  have same: "same_node ce (map_of (mc_nodes s) j) (row t j)" for j using assms by (simp add: sim_nodes_def)
  show "distinct (sel_kids fr t)" using d by (simp add: sel_kids_def distinct_map_filter)
  show "c \<in> set (sel_kids fr t) \<longleftrightarrow> (\<exists>p\<in>set fr. (p, c) \<in> child (live_tree s))"
  proof
    assume "c \<in> set (sel_kids fr t)"
    then obtain r where r: "row t c = Some r" "\<not> nr_deleted r" "nr_parent r \<in> set fr"
      using d by (auto simp: sel_kids_def row_Some)
    with same [of c] obtain n where "map_of (mc_nodes s) c = Some n" "\<not> mn_deleted n" "nd_ParentID (mn_node n) = nr_parent r"
      by (auto dest!: same_nodeD(2) simp: mem_nd_eq)
    then have "(nr_parent r, c) \<in> child (live_tree s)" by (auto simp: child_def tree_of_Some)
    with r(3) show "\<exists>p\<in>set fr. (p, c) \<in> child (live_tree s)" by blast
  next
    assume "\<exists>p\<in>set fr. (p, c) \<in> child (live_tree s)"
    then obtain n where "map_of (mc_nodes s) c = Some n" "\<not> mn_deleted n" "nd_ParentID (mn_node n) \<in> set fr"
      by (auto simp: child_def tree_of_Some)
    with same [of c] obtain r where "row t c = Some r" "\<not> nr_deleted r" "nr_parent r \<in> set fr"
      by (auto dest!: same_nodeD(1) simp: mem_nd_eq)
    with d show "c \<in> set (sel_kids fr t)" by (auto simp: sel_kids_def row_Some)
  qed
qed

text \<open>What the loop of levels keeps: what it has found is in the subtree and closed below the frontier.\<close>

definition level_inv :: "tree \<Rightarrow> int \<Rightarrow> int list \<Rightarrow> int list \<Rightarrow> bool" where
  "level_inv T i found fr \<longleftrightarrow> distinct found \<and> i \<in> set found \<and> set found \<subseteq> subtree T i \<and> set fr \<subseteq> set found \<and>
     (\<forall>k\<in>set found - set fr. \<forall>c. (k, c) \<in> child T \<longrightarrow> c \<in> set found) \<and>
     (\<exists>d. (\<forall>k\<in>set fr. \<exists>n. T k = Some n \<and> rank (nd_Type n) = d) \<and>
          (\<forall>k\<in>set found. \<exists>n. T k = Some n \<and> rank (nd_Type n) \<le> d))"

lemma level_step:
  assumes ok: "tree_ok T" and inv: "level_inv T i found fr"
    and more: "\<And>c. c \<in> set ks \<longleftrightarrow> (\<exists>p\<in>set fr. (p, c) \<in> child T)" and d: "distinct ks"
  shows "level_inv T i (found @ ks) ks"
proof -
  obtain dd where dd: "\<forall>k\<in>set fr. \<exists>n. T k = Some n \<and> rank (nd_Type n) = dd"
    "\<forall>k\<in>set found. \<exists>n. T k = Some n \<and> rank (nd_Type n) \<le> dd"
    using inv by (auto simp: level_inv_def)
  have ks: "\<exists>n. T c = Some n \<and> rank (nd_Type n) = Suc dd" if c: "c \<in> set ks" for c
  proof -
    obtain p m where p: "p \<in> set fr" "T c = Some m" "nd_ParentID m = p" using more c by (auto simp: child_def)
    with dd(1) obtain n where "T p = Some n" "rank (nd_Type n) = dd" by blast
    with child_rank [OF ok _ p(2,3)] p(2) show ?thesis by auto
  qed
  have disj: "set found \<inter> set ks = {}"
    using dd(2) ks by fastforce
  have sub: "set ks \<subseteq> subtree T i"
  proof
    fix c assume "c \<in> set ks"
    then obtain p where p: "p \<in> set fr" "(p, c) \<in> child T" using more by blast
    have "(i, p) \<in> (child T)\<^sup>*" using inv p(1) unfolding level_inv_def subtree_def by blast
    with p(2) have "(i, c) \<in> (child T)\<^sup>*" by (rule rtrancl_into_rtrancl [rotated])
    then show "c \<in> subtree T i" by (simp add: subtree_def)
  qed
  have closed: "\<forall>k\<in>set (found @ ks) - set ks. \<forall>c. (k, c) \<in> child T \<longrightarrow> c \<in> set (found @ ks)"
    using inv more by (auto simp: level_inv_def)
  have "\<forall>k\<in>set (found @ ks). \<exists>n. T k = Some n \<and> rank (nd_Type n) \<le> Suc dd"
    using dd(2) ks by fastforce
  with ks have ranks: "\<exists>d. (\<forall>k\<in>set ks. \<exists>n. T k = Some n \<and> rank (nd_Type n) = d) \<and>
      (\<forall>k\<in>set (found @ ks). \<exists>n. T k = Some n \<and> rank (nd_Type n) \<le> d)" by blast
  have "distinct (found @ ks) \<and> i \<in> set (found @ ks) \<and> set (found @ ks) \<subseteq> subtree T i \<and> set ks \<subseteq> set (found @ ks)"
    using disj sub d inv by (simp add: level_inv_def)
  with closed ranks show ?thesis unfolding level_inv_def by blast
qed

lemma level_end: "level_inv T i found [] \<Longrightarrow> set found = subtree T i"
proof
  assume inv: "level_inv T i found []"
  show "set found \<subseteq> subtree T i" using inv by (simp add: level_inv_def)
  show "subtree T i \<subseteq> set found"
  proof
    fix k assume "k \<in> subtree T i"
    then have "(i, k) \<in> (child T)\<^sup>*" by (simp add: subtree_def)
    then show "k \<in> set found"
      by (induction rule: rtrancl_induct) (use inv in \<open>auto simp: level_inv_def\<close>)
  qed
qed

lemma level_small:
  assumes "sim_nodes ce T s t" and "level_inv (live_tree s) i found fr"
  shows "length found \<le> length (ct_nodes t)"
proof -
  note d = sim_distinct [OF assms(1)]
  have "set found \<subseteq> set (map nr_id (ct_nodes t))"
  proof
    fix k assume "k \<in> set found"
    with assms(2) obtain n where "map_of (mc_nodes s) k = Some n" by (fastforce simp: level_inv_def tree_of_Some)
    moreover have "same_node ce (map_of (mc_nodes s) k) (row t k)" using assms(1) by (simp add: sim_nodes_def)
    ultimately obtain r where "row t k = Some r" by (auto dest!: same_nodeD(1))
    with d show "k \<in> set (map nr_id (ct_nodes t))" by (auto simp: row_Some)
  qed
  then have "card (set found) \<le> card (set (map nr_id (ct_nodes t)))" by (intro card_mono) auto
  with assms(2) d show ?thesis by (simp only: level_inv_def distinct_card length_map)
qed

lemma collect_subtree:
  assumes sn: "sim_nodes ce T s t" and ok: "tree_ok (live_tree s)" and small: "length (ct_nodes t) < 100000"
    and inv: "level_inv (live_tree s) i found fr"
  shows "\<exists>ids. collect found fr (healthy t) = (Inr ids, healthy t) \<and> distinct ids \<and> set ids = subtree (live_tree s) i"
  using inv
proof (induction "if fr = [] then 0 else 100001 - length found" arbitrary: found fr rule: less_induct)
  case less
  show ?case
  proof (cases "fr = []")
    case True
    with less.prems have inv: "level_inv (live_tree s) i found []" by simp
    have "collect found fr (healthy t) = (Inr found, healthy t)" using True by (subst collect.simps) simp
    moreover have "distinct found" using inv by (simp add: level_inv_def)
    ultimately show ?thesis using level_end [OF inv] by blast
  next
    case False
    have len: "length found < 100000" using level_small [OF sn less.prems] small by simp
    let ?ks = "sel_kids fr t"
    have "level_inv (live_tree s) i (found @ ?ks) ?ks"
      by (rule level_step [OF ok less.prems live_rows [OF sn]])
    moreover have "(if ?ks = [] then 0 else 100001 - length (found @ ?ks)) < (if fr = [] then 0 else 100001 - length found)"
      using False len by (cases ?ks) auto
    ultimately obtain ids where ids: "collect (found @ ?ks) ?ks (healthy t) = (Inr ids, healthy t)"
      "distinct ids" "set ids = subtree (live_tree s) i"
      using less.hyps [of ?ks "found @ ?ks"] by blast
    have "collect found fr (healthy t) = collect (found @ ?ks) ?ks (healthy t)"
      using False len by (subst collect.simps) (simp add: on_store_def orElse_def catchS_def)
    with ids show ?thesis by auto
  qed
qed

lemma map_rows_twice:
  assumes "\<And>r. nr_id (f r) = nr_id r" and "\<And>r. nr_deleted (f r)"
  shows "map_rows (\<lambda>r. \<not> nr_deleted r \<and> nr_id r \<in> B) f (map_rows (\<lambda>r. \<not> nr_deleted r \<and> nr_id r \<in> A) f t) =
    map_rows (\<lambda>r. \<not> nr_deleted r \<and> nr_id r \<in> A \<union> B) f t"
  using assms by (auto simp: map_rows_def)

lemma mark_chunks_all:
  "mark_chunks ids (healthy t) =
     (Inr (), healthy (map_rows (\<lambda>r. \<not> nr_deleted r \<and> nr_id r \<in> set ids) (\<lambda>r. r\<lparr>nr_deleted := True\<rparr>) t))"
proof (induction ids arbitrary: t rule: mark_chunks.induct)
  case (1 ids)
  show ?case
  proof (cases "ids = []")
    case True
    then show ?thesis by (simp add: mark_chunks.simps retS_def map_rows_def)
  next
    case False
    have "set (take 500 ids) \<union> set (drop 500 ids) = set ids"
      by (metis append_take_drop_id set_append)
    with False 1 show ?thesis
      by (subst mark_chunks.simps)
        (simp add: bindS_def on_store_def orElse_def catchS_def mark_deleted_def map_rows_twice)
  qed
qed

lemma delete_sim:
  assumes sim: "sim ce T s t" and T: "T \<le> now" and ok: "tree_ok (live_tree s)" and small: "length (ct_nodes t) < 100000"
  shows "\<exists>t'. sql_DeleteNode ce i (healthy t) = (fst (DeleteNode i s), healthy t') \<and> sim ce now (snd (DeleteNode i s)) t'"
proof -
  have sn: "sim_nodes ce T s t" and sp: "sim_pages ce s t" using sim by (simp_all add: sim_def)
  have inv: "nodes_inv s" using sn by (simp add: sim_nodes_def)
  have keep: "sim ce now s t" using sim_mono [OF sn T] sp by (simp add: sim_def)
  from live_sim [OF sn, of i] show ?thesis
  proof (elim disjE exE conjE)
    assume "liveLocked s i = Inl NotFound" "liveNode ce i (healthy t) = (Inl NotFound, healthy t)"
    with keep show ?thesis by (auto simp: sql_DeleteNode_def DeleteNode_def transaction_def bindS_def)
  next
    fix n r assume h: "liveLocked s i = Inr n" "map_of (mc_nodes s) i = Some n" "\<not> mn_deleted n"
      "liveNode ce i (healthy t) = (Inr (scanNode ce r), healthy t)"
    let ?D = "subtree (live_tree s) i"
    have live: "i \<in> live_keys (mc_nodes s)" using h by (auto simp: live_keys_def)
    obtain m cnt where l: "del_loop (mc_nodes s) [i] 0 = (m, cnt)" by fastforce
    note d = del_loop_subtree [OF l live]
    have del: "DeleteNode i s = (Inr cnt, s\<lparr>mc_nodes := m\<rparr>)" using h(1) l by (simp add: DeleteNode_def)
    note spec = DeleteNode_spec [OF inv del]
    have "live_tree s i = Some (mn_node n)" using h by (simp add: tree_of_def)
    then have "level_inv (live_tree s) i [i] [i]" by (auto simp: level_inv_def subtree_def)
    from collect_subtree [OF sn ok small this] obtain ids where
      ids: "collect [i] [i] (healthy t) = (Inr ids, healthy t)" "distinct ids" "set ids = ?D" by blast
    let ?t1 = "map_rows (\<lambda>r. \<not> nr_deleted r \<and> nr_id r \<in> set ids) (\<lambda>r. r\<lparr>nr_deleted := True\<rparr>) t"
    have len: "int (length ids) = cnt" using d(2) ids(2,3) distinct_card [OF ids(2)] by simp
    have "transaction StoreErr (bindS (liveNode ce i) (\<lambda>_. bindS (collect [i] [i]) (\<lambda>found. bindS (mark_chunks found) (\<lambda>_.
        retS (int (length found)))))) (healthy t) = (Inr cnt, healthy ?t1)"
      by (rule transaction_healthy(1))
        (simp add: bindS_def h(4) ids(1) mark_chunks_all retS_def len)
    then have run: "sql_DeleteNode ce i (healthy t) = (Inr cnt, healthy ?t1)" by (simp add: sql_DeleteNode_def)
    have same: "same_node ce (map_of (mc_nodes s) j) (row t j)" for j using sn by (simp add: sim_nodes_def)
    have "sim_nodes ce now (s\<lparr>mc_nodes := m\<rparr>) ?t1"
    proof (rule sim_rows [OF sn _ spec(1) _ T])
      show "same_node ce (map_of (mc_nodes (s\<lparr>mc_nodes := m\<rparr>)) j)
          (map_option (\<lambda>r. if \<not> nr_deleted r \<and> nr_id r \<in> set ids then r\<lparr>nr_deleted := True\<rparr> else r) (row t j))" for j
      proof (cases "row t j")
        case None
        with same [of j] show ?thesis by (auto simp: d(1) mark_def dest!: same_nodeD(4))
      next
        case (Some r)
        then have "nr_id r = j" by (simp add: row_Some [OF sim_distinct [OF sn]])
        moreover obtain n where "map_of (mc_nodes s) j = Some n" "mem_nd ce (mn_node n) = sql_nd (scanNode ce r)"
          "mn_deleted n = nr_deleted r" using same [of j] Some by (auto dest!: same_nodeD(2))
        ultimately show ?thesis using Some by (simp add: d(1) mark_def ids(3) mem_nd_eq)
      qed
    qed simp_all
    moreover have "sim_pages ce (s\<lparr>mc_nodes := m\<rparr>) ?t1"
      by (rule sim_pages_other [OF sp spec(2)]) (simp_all add: map_rows_def)
    ultimately show ?thesis using run del by (auto simp: sim_def)
  qed
qed

section \<open>Pages\<close>

lemma sim_nodes_same:
  "sim_nodes ce T s t \<Longrightarrow> mc_nodes s' = mc_nodes s \<Longrightarrow> mc_nextID s' = mc_nextID s \<Longrightarrow> ct_nodes t' = ct_nodes t \<Longrightarrow>
    ct_next t' = ct_next t \<Longrightarrow> sim_nodes ce T s' t'"
  by (simp add: sim_nodes_def nodes_inv_def row_def)

lemma ver_of_sel [simp]:
  "pg_ver (ver_of ce r) = vr_version r" "pg_files (ver_of ce r) = files_of ce (vr_files r)"
  "pg_at (ver_of ce r) = ce_fmt ce (vr_created r)"
  by (simp_all add: ver_of_def)

lemma path_versions:
  assumes "sim_pages ce s t"
  shows "map vr_version (path_vers p t) = [1..int (length (path_vers p t))]"
proof -
  have "versions s p = map (ver_of ce) (path_vers p t)" and inv: "page_inv s" using assms by (simp_all add: sim_pages_def)
  moreover have "map pg_ver (versions s p) = [1..int (length (versions s p))]" using inv by (simp add: page_inv_def)
  ultimately show ?thesis by (simp add: comp_def)
qed

lemma foldl_max_upto: "0 \<le> n \<Longrightarrow> foldl max 0 [1..n] = (n :: int)"
proof (induction n rule: int_ge_induct)
  case (step n)
  then show ?case by (simp add: upto_snoc)
qed simp

lemma max_version_length: "sim_pages ce s t \<Longrightarrow> max_version p t = int (length (path_vers p t))"
  using path_versions [of ce s t p] foldl_max_upto [of "int (length (path_vers p t))"]
  by (simp add: max_version_def path_vers_def)

lemma clean_files_distinct: "clean_files out fs n = Inr (r, m) \<Longrightarrow> distinct (map fst out) \<Longrightarrow> distinct (map fst r)"
  by (induction out fs n rule: clean_files.induct) (auto simp: distinct_al_put split: sum.splits)

lemma page_of_key: "distinct (map pr_path (ct_pages t)) \<Longrightarrow> page_of t p = Some r \<longleftrightarrow> r \<in> set (ct_pages t) \<and> pr_path r = p"
  by (simp add: page_of_def find_key)

lemma set_page:
  fixes v :: int and p q :: string
  assumes d: "distinct (map pr_path (ct_pages t))"
  defines "t1 \<equiv> t\<lparr>ct_pages := map (\<lambda>r. if pr_path r = p then r\<lparr>pr_current := v\<rparr> else r) (ct_pages t)\<rparr>"
  shows "page_of t1 q = None \<longleftrightarrow> page_of t q = None"
    and "page_of t p \<noteq> None \<Longrightarrow> (case page_of t1 q of None \<Rightarrow> 0 | Some r \<Rightarrow> pr_current r) =
      (if q = p then v else case page_of t q of None \<Rightarrow> 0 | Some r \<Rightarrow> pr_current r)"
    and "distinct (map pr_path (ct_pages t1))"
proof -
  have pg: "page_of t1 q = map_option (\<lambda>r. if pr_path r = p then r\<lparr>pr_current := v\<rparr> else r) (page_of t q)"
    using find_upd_key [of pr_path "\<lambda>r. r\<lparr>pr_current := v\<rparr>" q "\<lambda>r. pr_path r = p" "ct_pages t"]
    by (simp add: page_of_def t1_def)
  then show "page_of t1 q = None \<longleftrightarrow> page_of t q = None" by simp
  have at: "page_of t q = Some r \<Longrightarrow> pr_path r = q" for r using d by (simp add: page_of_key)
  show "(case page_of t1 q of None \<Rightarrow> 0 | Some r \<Rightarrow> pr_current r) =
      (if q = p then v else case page_of t q of None \<Rightarrow> 0 | Some r \<Rightarrow> pr_current r)" if "page_of t p \<noteq> None"
    unfolding pg using at that by (cases "page_of t q") auto
  show "distinct (map pr_path (ct_pages t1))" using d by (simp add: t1_def comp_def if_distrib cong: if_cong)
qed

definition fits_page :: "string \<Rightarrow> bool" where
  "fits_page p0 \<longleftrightarrow> (case cleanPagePath p0 of Inl _ \<Rightarrow> True | Inr p \<Rightarrow> varchar 255 p)"

lemma put_page_sim:
  assumes env: "content_env_ok ce" and sim: "sim ce T s t" and T: "T \<le> now" and fits: "fits_page p0"
  shows "\<exists>t'. sql_PutPage ce now p0 fs0 (healthy t) = (fst (PutPage (ce_fmt ce now) p0 fs0 s), healthy t') \<and>
    sim ce now (snd (PutPage (ce_fmt ce now) p0 fs0 s)) t'"
proof -
  have sn: "sim_nodes ce T s t" and sp: "sim_pages ce s t" using sim by (simp_all add: sim_def)
  have keep: "sim ce now s t" using sim_mono [OF sn T] sp by (simp add: sim_def)
  show ?thesis
  proof (cases "\<exists>p fs. cleanPagePath p0 = Inr p \<and> cleanPageFiles fs0 = Inr fs")
    case False
    then have "\<exists>e. sql_PutPage ce now p0 fs0 (healthy t) = (Inl e, healthy t) \<and> PutPage (ce_fmt ce now) p0 fs0 s = (Inl e, s)"
      by (cases "cleanPagePath p0"; cases "cleanPageFiles fs0")
        (auto simp: sql_PutPage_def PutPage_def bindS_def liftS_def)
    with keep show ?thesis by auto
  next
    case True
    then obtain p fs where c: "cleanPagePath p0 = Inr p" "cleanPageFiles fs0 = Inr fs" by blast
    have path: "varchar 255 p" using fits c by (simp add: fits_page_def)
    have dfs: "distinct (map fst fs)"
      using c(2) clean_files_distinct by (fastforce simp: cleanPageFiles_def Let_def split: if_splits sum.splits)
    let ?n = "int (length (versions s p))"
    have vers: "versions s q = map (ver_of ce) (path_vers q t)" for q using sp by (simp add: sim_pages_def)
    have n: "max_version p t = ?n" using max_version_length [OF sp] vers by simp
    let ?new = "\<lparr>vr_path = p, vr_version = ?n + 1, vr_files = ce_marshal ce fs, vr_created = now\<rparr>"
    have fresh: "\<not> list_ex (\<lambda>r. vr_path r = p \<and> vr_version r = ?n + 1) (ct_vers t)"
    proof -
      have "?n + 1 \<notin> set (map vr_version (path_vers p t))"
        unfolding path_versions [OF sp] using vers by simp
      moreover have "vr_version r \<in> set (map vr_version (path_vers p t))" if "r \<in> set (ct_vers t)" "vr_path r = p" for r
        using that by (simp add: path_vers_def)
      ultimately show ?thesis unfolding list_ex_iff by metis
    qed
    define tp where "tp = (if list_ex (\<lambda>r. pr_path r = p) (ct_pages t) then t
      else t\<lparr>ct_pages := ct_pages t @ [\<lparr>pr_path = p, pr_current = 0\<rparr>]\<rparr>)"
    have dp: "distinct (map pr_path (ct_pages t))" using sp by (simp add: sim_pages_def)
    have dtp: "distinct (map pr_path (ct_pages tp))" and ptp: "page_of tp p \<noteq> None"
      using dp by (auto simp: tp_def list_ex_iff page_of_def find_None_iff image_iff)
    have oth: "q \<noteq> p \<Longrightarrow> page_of tp q = page_of t q" for q
      by (simp add: tp_def page_of_def find_append split: option.split)
    have ins: "on_store (ins_page p) (healthy t) = (Inr (), healthy tp)"
      using path by (simp add: on_store_def orElse_def catchS_def ins_page_def tp_def)
    obtain c0 where cur: "on_store (sel_current p) (healthy tp) = (Inr c0, healthy tp)"
    proof -
      obtain r where "find (\<lambda>r. pr_path r = p) (ct_pages tp) = Some r" using ptp by (auto simp: page_of_def)
      then show thesis
        by (intro that [of "pr_current r"])
          (simp add: on_store_def orElse_def catchS_def sel_current_def case_map_list case_filter_find)
    qed
    have vt: "ct_vers tp = ct_vers t" "ct_nodes tp = ct_nodes t" "ct_next tp = ct_next t" by (simp_all add: tp_def)
    let ?t2 = "tp\<lparr>ct_vers := ct_vers t @ [?new]\<rparr>"
    let ?t3 = "?t2\<lparr>ct_pages := map (\<lambda>r. if pr_path r = p then r\<lparr>pr_current := ?n + 1\<rparr> else r) (ct_pages tp)\<rparr>"
    let ?pv = "\<lparr>pv_Path = p, pv_Version = ?n + 1, pv_Files = sortedKeys fs, pv_Current = True, pv_CreatedAt = ce_fmt ce now\<rparr>"
    have mx: "max_version p tp = ?n" using n vt by (simp add: max_version_def)
    have "transaction StoreErr (
       bindS (on_store (ins_page p)) (\<lambda>_.
       bindS (on_store (sel_current p)) (\<lambda>cur.
       bindS (on_store (query (max_version p))) (\<lambda>maxV.
       bindS (on_store (ins_version now p (maxV + 1) (ce_marshal ce fs))) (\<lambda>_.
       bindS (on_store (set_current p (maxV + 1))) (\<lambda>_.
       retS \<lparr>pv_Path = p, pv_Version = maxV + 1, pv_Files = sortedKeys fs, pv_Current = True,
             pv_CreatedAt = ce_fmt ce now\<rparr>)))))) (healthy t) = (Inr ?pv, healthy ?t3)"
    proof (rule transaction_healthy(1))
      have q: "on_store (query (max_version p)) (healthy tp) = (Inr ?n, healthy tp)"
        using mx by (simp add: on_store_def orElse_def catchS_def)
      have v: "on_store (ins_version now p (?n + 1) (ce_marshal ce fs)) (healthy tp) = (Inr (), healthy ?t2)"
        using fresh vt by (simp add: on_store_def orElse_def catchS_def ins_version_def)
      have c: "on_store (set_current p (?n + 1)) (healthy ?t2) = (Inr (), healthy ?t3)"
        by (simp add: on_store_def orElse_def catchS_def set_current_def)
      show "bindS (on_store (ins_page p)) (\<lambda>_.
       bindS (on_store (sel_current p)) (\<lambda>cur.
       bindS (on_store (query (max_version p))) (\<lambda>maxV.
       bindS (on_store (ins_version now p (maxV + 1) (ce_marshal ce fs))) (\<lambda>_.
       bindS (on_store (set_current p (maxV + 1))) (\<lambda>_.
       retS \<lparr>pv_Path = p, pv_Version = maxV + 1, pv_Files = sortedKeys fs, pv_Current = True,
             pv_CreatedAt = ce_fmt ce now\<rparr>))))) (healthy t) = (Inr ?pv, healthy ?t3)"
        by (simp add: bindS_def [of "on_store _"] ins cur q v c retS_def)
    qed
    then have run: "sql_PutPage ce now p0 fs0 (healthy t) = (Inr ?pv, healthy ?t3)"
      using c by (simp add: sql_PutPage_def bindS_def [of "liftS _"] liftS_def)
    obtain s' where m: "PutPage (ce_fmt ce now) p0 fs0 s = (Inr ?pv, s')" and
      s': "s' = s\<lparr>mc_pages := al_put p (versions s p @ [\<lparr>pg_ver = ?n + 1, pg_files = fs, pg_at = ce_fmt ce now\<rparr>]) (mc_pages s),
               mc_current := al_put p (?n + 1) (mc_current s)\<rparr>"
      using PutPage_Inr [of "ce_fmt ce now" p0 fs0 s ?pv] c by auto
    have pinv: "page_inv s'" using PutPage_inv(1) [OF _ m] sp by (simp add: sim_pages_def)
    have v': "versions s' q = (if q = p then versions s p @ [\<lparr>pg_ver = ?n + 1, pg_files = fs, pg_at = ce_fmt ce now\<rparr>] else versions s q)"
      and c': "current s' q = (if q = p then ?n + 1 else current s q)" for q
      by (simp_all add: s' versions_def current_def map_get_put)
    have new: "ver_of ce ?new = \<lparr>pg_ver = ?n + 1, pg_files = fs, pg_at = ce_fmt ce now\<rparr>"
      using env dfs by (simp add: ver_of_def files_of_def content_env_ok_def)
    have pv3: "path_vers q ?t3 = path_vers q t @ (if q = p then [?new] else [])" for q
      by (simp add: path_vers_def)
    have "sim_pages ce s' ?t3"
      unfolding sim_pages_def
    proof (intro conjI allI)
      show "distinct (map pr_path (ct_pages ?t3))" using set_page(3) [OF dtp, where p = p and v = "?n + 1"] by simp
      show "versions s' q = map (ver_of ce) (path_vers q ?t3)" for q
        unfolding pv3 v' using vers new by simp
      show "current s' q = (case page_of ?t3 q of None \<Rightarrow> 0 | Some r \<Rightarrow> pr_current r)" for q
        using sp oth [of q] set_page(2) [OF dtp ptp, where q = q and v = "?n + 1"] unfolding c' by (simp add: sim_pages_def page_of_def)
      show "page_of ?t3 q = None \<longleftrightarrow> versions s' q = []" for q
        using sp ptp oth [of q] set_page(1) [OF dtp, where q = q and p = p and v = "?n + 1"] unfolding v'
        by (cases "q = p") (auto simp: sim_pages_def page_of_def)
      show "\<forall>r\<in>set (ct_vers ?t3). ce_unmarshal ce (vr_files r) \<noteq> None"
        using sp env dfs by (auto simp: sim_pages_def content_env_ok_def)
    qed (rule pinv)
    moreover have "sim_nodes ce now s' ?t3"
      by (rule sim_nodes_same [OF sim_mono [OF sn T]]) (simp_all add: s' vt)
    ultimately show ?thesis using run m by (auto simp: sim_def)
  qed
qed

lemma version_row:
  assumes "sim_pages ce s t"
  shows "filter (\<lambda>r. vr_path r = p \<and> vr_version r = v) (ct_vers t) =
    (if 1 \<le> v \<and> v \<le> int (length (path_vers p t)) then [path_vers p t ! nat (v - 1)] else [])"
proof -
  let ?n = "length (path_vers p t)"
  note pv = path_versions [OF assms, of p]
  have "filter (\<lambda>r. vr_path r = p \<and> vr_version r = v) (ct_vers t) = filter (\<lambda>r. vr_version r = v) (path_vers p t)"
    by (simp add: path_vers_def conj_commute)
  moreover have "filter (\<lambda>r. vr_version r = v) (path_vers p t) = [path_vers p t ! nat (v - 1)]"
    if v: "1 \<le> v" "v \<le> int ?n"
  proof -
    let ?r = "path_vers p t ! nat (v - 1)"
    have i: "nat (v - 1) < ?n" using v by linarith
    have "map vr_version (path_vers p t) ! nat (v - 1) = v" unfolding pv using v by simp
    then have "vr_version ?r = v" using i by simp
    moreover have "distinct (map vr_version (path_vers p t))" unfolding pv by simp
    ultimately show ?thesis using filter_key [of vr_version "path_vers p t" ?r] nth_mem [OF i] by simp
  qed
  moreover have "filter (\<lambda>r. vr_version r = v) (path_vers p t) = []" if "\<not> (1 \<le> v \<and> v \<le> int ?n)"
  proof -
    have "v \<notin> set (map vr_version (path_vers p t))" unfolding pv using that by simp
    then show ?thesis by (auto simp: filter_empty_conv)
  qed
  ultimately show ?thesis by simp
qed

lemma rollback_sim:
  assumes sim: "sim ce T s t" and T: "T \<le> now"
  shows "\<exists>t'. sql_RollbackPage ce p0 v (healthy t) = (fst (RollbackPage p0 v s), healthy t') \<and>
    sim ce now (snd (RollbackPage p0 v s)) t'"
proof -
  have sn: "sim_nodes ce T s t" and sp: "sim_pages ce s t" using sim by (simp_all add: sim_def)
  have keep: "sim ce now s t" using sim_mono [OF sn T] sp by (simp add: sim_def)
  show ?thesis
  proof (cases "cleanPagePath p0")
    case (Inl e)
    with keep show ?thesis by (auto simp: sql_RollbackPage_def RollbackPage_def bindS_def liftS_def)
  next
    case (Inr p)
    have vers: "versions s q = map (ver_of ce) (path_vers q t)" for q using sp by (simp add: sim_pages_def)
    have len: "length (map_get [] (mc_pages s) p) = length (path_vers p t)" using vers [of p] by (simp add: versions_def)
    show ?thesis
    proof (cases "1 \<le> v \<and> v \<le> int (length (path_vers p t))")
      case False
      then have none: "filter (\<lambda>r. vr_path r = p \<and> vr_version r = v) (ct_vers t) = []"
        unfolding version_row [OF sp] by (rule if_not_P)
      have "sql_RollbackPage ce p0 v (healthy t) = (Inl NotFound, healthy t)"
        using Inr none by (simp add: sql_RollbackPage_def bindS_def liftS_def or_missing_def orElse_def catchS_def failS_def)
      moreover have "RollbackPage p0 v s = (Inl NotFound, s)"
        using Inr False len by (auto simp: RollbackPage_def Let_def)
      ultimately show ?thesis using keep by auto
    next
      case True
      let ?r = "path_vers p t ! nat (v - 1)"
      let ?t1 = "t\<lparr>ct_pages := map (\<lambda>r. if pr_path r = p then r\<lparr>pr_current := v\<rparr> else r) (ct_pages t)\<rparr>"
      let ?pv = "\<lparr>pv_Path = p, pv_Version = v, pv_Files = sortedKeys (files_of ce (vr_files ?r)),
           pv_Current = True, pv_CreatedAt = ce_fmt ce (vr_created ?r)\<rparr>"
      have run: "sql_RollbackPage ce p0 v (healthy t) = (Inr ?pv, healthy ?t1)"
        using Inr True by (simp add: sql_RollbackPage_def bindS_def liftS_def or_missing_def on_store_def orElse_def
            catchS_def version_row [OF sp] set_current_def retS_def)
      have i: "nat (v - 1) < length (path_vers p t)" using True by linarith
      have "map vr_version (path_vers p t) ! nat (v - 1) = v" unfolding path_versions [OF sp] using True by simp
      then have ver: "vr_version ?r = v" using i by simp
      obtain s' where m: "RollbackPage p0 v s = (Inr ?pv, s')" and s': "s' = s\<lparr>mc_current := al_put p v (mc_current s)\<rparr>"
        using RollbackPage_Inr [of p0 v s ?pv] Inr True i ver vers [of p] by auto
      have pinv: "page_inv s'" using RollbackPage_inv(1) [OF _ m] sp by (simp add: sim_pages_def)
      have dp: "distinct (map pr_path (ct_pages t))" using sp by (simp add: sim_pages_def)
      have v': "versions s' q = versions s q" and c': "current s' q = (if q = p then v else current s q)" for q
        by (simp_all add: s' versions_def current_def map_get_put)
      have nonempty: "page_of t p \<noteq> None"
      proof -
        have "versions s p \<noteq> []" using vers [of p] i by auto
        then show ?thesis using sp by (simp add: sim_pages_def)
      qed
      have "sim_pages ce s' ?t1"
        unfolding sim_pages_def
      proof (intro conjI allI)
        show "distinct (map pr_path (ct_pages ?t1))" by (rule set_page(3) [OF dp])
        show "versions s' q = map (ver_of ce) (path_vers q ?t1)" for q
          using vers [of q] unfolding v' by (simp add: path_vers_def)
        show "current s' q = (case page_of ?t1 q of None \<Rightarrow> 0 | Some r \<Rightarrow> pr_current r)" for q
          using sp set_page(2) [OF dp nonempty] unfolding c' by (simp add: sim_pages_def)
        show "page_of ?t1 q = None \<longleftrightarrow> versions s' q = []" for q
          using sp set_page(1) [OF dp] unfolding v' by (simp add: sim_pages_def)
        show "\<forall>r\<in>set (ct_vers ?t1). ce_unmarshal ce (vr_files r) \<noteq> None" using sp by (simp add: sim_pages_def)
      qed (rule pinv)
      moreover have "sim_nodes ce now s' ?t1"
        by (rule sim_nodes_same [OF sim_mono [OF sn T]]) (simp_all add: s')
      ultimately show ?thesis using run m by (auto simp: sim_def)
    qed
  qed
qed

end
