(* ===== verification/ContentSqlRuns.thy ===== *)
theory ContentSqlRuns
  imports ContentSqlOk
begin

text \<open>
  Reads of the MySQL content store, runs of calls on both stores, and the properties: equal answers
  and reads after any run, calls that fail change nothing, and a bound that only MySQL has.
\<close>

section \<open>Reads\<close>

lemma get_sim: "sim ce T s t \<Longrightarrow> same_res ce (GetNode i s) (fst (sql_GetNode ce i (healthy t)))"
  using live_sim [of ce T s t i] by (auto simp: sim_def GetNode_def sql_GetNode_def same_res_def)

lemma find_child_sim:
  assumes sim: "sim ce T s t"
  shows "same_res ce (FindChild p ty sl s) (fst (sql_FindChild ce p ty sl (healthy t)))"
proof -
  have sn: "sim_nodes ce T s t" using sim by (simp add: sim_def)
  then have inv: "nodes_inv s" and d: "distinct (map nr_id (ct_nodes t))" using sim_distinct by (simp_all add: sim_nodes_def)
  have same: "same_node ce (map_of (mc_nodes s) k) (row t k)" for k using sn by (simp add: sim_nodes_def)
  let ?Q = "\<lambda>r. nr_parent r = p \<and> nr_type r = ty \<and> nr_slug r = sl \<and> \<not> nr_deleted r"
  let ?M = "\<lambda>(_, m). \<not> mn_deleted m \<and> nd_ParentID (mn_node m) = p \<and> nd_Type (mn_node m) = ty \<and> nd_Slug (mn_node m) = sl"
  have run: "fst (sql_FindChild ce p ty sl (healthy t)) =
    (case find ?Q (ct_nodes t) of None \<Rightarrow> Inl NotFound | Some r \<Rightarrow> Inr (scanNode ce r))"
    by (simp add: sql_FindChild_def or_missing_def orElse_def catchS_def failS_def case_map_list case_filter_find
        split: option.split)
  show ?thesis
  proof (cases "find ?M (entries (mc_nodes s))")
    case None
    have "\<not> ?Q r" if r: "r \<in> set (ct_nodes t)" for r
    proof
      assume q: "?Q r"
      have "row t (nr_id r) = Some r" using r by (simp add: row_Some [OF d])
      with same [of "nr_id r"] obtain n where n: "map_of (mc_nodes s) (nr_id r) = Some n"
        "mem_nd ce (mn_node n) = sql_nd (scanNode ce r)" "mn_deleted n = nr_deleted r" by (auto dest!: same_nodeD(2))
      then show False using find_no_entry [OF None n(1)] q same_fields [OF n(2)] by simp
    qed
    then have "find ?Q (ct_nodes t) = None" by (simp add: find_None_iff)
    with None run show ?thesis by (simp add: FindChild_def same_res_def)
  next
    case (Some x)
    obtain k n where kn: "x = (k, n)" by fastforce
    have n: "map_of (mc_nodes s) k = Some n" "?M (k, n)" using find_entry [OF Some [unfolded kn]] by auto
    from same [of k] n obtain r where r: "row t k = Some r" "mem_nd ce (mn_node n) = sql_nd (scanNode ce r)"
      "mn_deleted n = nr_deleted r" by (auto dest!: same_nodeD(1))
    then have q: "?Q r" "r \<in> set (ct_nodes t)" using n same_fields [OF r(2)] by (auto simp: row_Some [OF d])
    have "r' = r" if r': "r' \<in> set (ct_nodes t)" "?Q r'" for r'
    proof -
      have "row t (nr_id r') = Some r'" using r' by (simp add: row_Some [OF d])
      with same [of "nr_id r'"] obtain n' where n': "map_of (mc_nodes s) (nr_id r') = Some n'"
        "mem_nd ce (mn_node n') = sql_nd (scanNode ce r')" by (auto dest!: same_nodeD(2))
      have "nr_id r' = k" using nodes_invD(4) [OF inv n'(1) n(1)] same_fields [OF n'(2)] n(2) r'(2) by simp
      then show ?thesis using r(1) d r'(1) by (auto simp: row_Some distinct_map dest: inj_onD)
    qed
    moreover have "find ?Q (ct_nodes t) \<noteq> None" using q unfolding find_None_iff by blast
    ultimately have "find ?Q (ct_nodes t) = Some r" using find_SomeD [of ?Q "ct_nodes t"] by (metis (no_types, lifting) not_None_eq)
    with Some kn run r show ?thesis by (simp add: FindChild_def same_res_def)
  qed
qed

lemma rows_by_key:
  assumes "sim_nodes ce T s t"
  shows "sort_key (\<lambda>r. (nr_created r, nr_id r)) (live_kids p ty t) = live_kids p ty t"
proof -
  have "sorted_wrt (\<lambda>a b. nr_id a < nr_id b \<and> nr_created a \<le> nr_created b) (live_kids p ty t)"
    unfolding live_kids_def using assms by (simp add: sim_nodes_def sorted_wrt_filter)
  then have "sorted (map (\<lambda>r. (nr_created r, nr_id r)) (live_kids p ty t))"
    unfolding sorted_map by (rule sorted_wrt_mono_rel [rotated]) (auto simp: less_eq_prod_def)
  then show ?thesis by (rule sort_key_id_if_sorted)
qed

lemma children_sim:
  assumes sn: "sim_nodes ce T s t"
  shows "map (mem_nd ce) (children_of p ty s) = map (\<lambda>r. sql_nd (scanNode ce r)) (rev (live_kids p ty t))"
proof -
  have inv: "nodes_inv s" using sn by (simp add: sim_nodes_def)
  note d = sim_distinct [OF sn]
  have same: "same_node ce (map_of (mc_nodes s) k) (row t k)" for k using sn by (simp add: sim_nodes_def)
  let ?C = "children_of p ty s" and ?R = "rev (live_kids p ty t)"
  have pair: "\<exists>r\<in>set ?R. nr_id r = nd_ID n \<and> mem_nd ce n = sql_nd (scanNode ce r)" if "n \<in> set ?C" for n
  proof -
    obtain k where k: "tree_of (mc_nodes s) k = Some n" "nd_ParentID n = p" "nd_Type n = ty"
      using \<open>n \<in> set ?C\<close> unfolding children_of_set by blast
    then obtain m where m: "map_of (mc_nodes s) k = Some m" "\<not> mn_deleted m" "mn_node m = n" by (auto simp: tree_of_Some)
    with same [of k] obtain r where r: "row t k = Some r" "mem_nd ce n = sql_nd (scanNode ce r)" "\<not> nr_deleted r"
      by (auto dest!: same_nodeD(1))
    then show ?thesis using k same_fields [OF r(2)] by (intro bexI [of _ r]) (auto simp: live_kids_def row_Some [OF d])
  qed
  have bck: "nr_id r \<in> nd_ID ` set ?C" if r: "r \<in> set ?R" for r
  proof -
    have r': "row t (nr_id r) = Some r" "nr_parent r = p" "nr_type r = ty" "\<not> nr_deleted r"
      using r by (auto simp: live_kids_def row_Some [OF d])
    with same [of "nr_id r"] obtain m where m: "map_of (mc_nodes s) (nr_id r) = Some m"
      "mem_nd ce (mn_node m) = sql_nd (scanNode ce r)" "\<not> mn_deleted m" by (auto dest!: same_nodeD(2))
    then have "mn_node m \<in> set ?C"
      unfolding children_of_set using r' same_fields [OF m(2)] by (auto simp: tree_of_Some)
    then show ?thesis using same_fields(1) [OF m(2)] by force
  qed
  have ids: "map nd_ID ?C = map nr_id ?R"
  proof -
    have "sorted_wrt (\<lambda>a b. nr_id a < nr_id b \<and> nr_created a \<le> nr_created b) (live_kids p ty t)"
      unfolding live_kids_def using sn by (simp add: sim_nodes_def sorted_wrt_filter)
    then have "sorted_wrt (<) (map nr_id (live_kids p ty t))"
      unfolding sorted_wrt_map by (rule sorted_wrt_mono_rel [rotated]) simp
    moreover have "sorted_wrt (<) (rev (map nd_ID ?C))"
      using children_of_sorted [OF inv] by (simp add: sorted_wrt_rev sorted_wrt_map)
    moreover have "set (rev (map nd_ID ?C)) = set (map nr_id (live_kids p ty t))"
      using pair bck by force
    ultimately have "rev (map nd_ID ?C) = map nr_id (live_kids p ty t)" by (metis strict_sorted_equal)
    then show ?thesis by (metis rev_map rev_rev_ident)
  qed
  show ?thesis
  proof (rule nth_equalityI)
    show len: "length (map (mem_nd ce) ?C) = length (map (\<lambda>r. sql_nd (scanNode ce r)) ?R)"
      using arg_cong [OF ids, of length] by simp
    fix i assume "i < length (map (mem_nd ce) ?C)"
    then have i: "i < length ?C" "i < length ?R" using len by simp_all
    obtain r where r: "r \<in> set ?R" "nr_id r = nd_ID (?C ! i)" "mem_nd ce (?C ! i) = sql_nd (scanNode ce r)"
      using pair [OF nth_mem [OF i(1)]] by blast
    have "nr_id (?R ! i) = nd_ID (?C ! i)" using i ids by (metis nth_map)
    moreover have "r \<in> set (ct_nodes t)" "?R ! i \<in> set (ct_nodes t)"
      using r(1) nth_mem [OF i(2)] by (auto simp: live_kids_def)
    ultimately have "r = ?R ! i" using r(2) d unfolding distinct_map by (metis inj_onD)
    then show "map (mem_nd ce) ?C ! i = map (\<lambda>r. sql_nd (scanNode ce r)) ?R ! i" using r i by simp
  qed
qed

definition same_page :: "content_env \<Rightarrow> content_err + node_page \<Rightarrow> content_err + node_page \<Rightarrow> bool" where
  "same_page ce a b \<longleftrightarrow> map_sum id (\<lambda>p. p\<lparr>np_Items := map (mem_nd ce) (np_Items p)\<rparr>) a =
     map_sum id (\<lambda>p. p\<lparr>np_Items := map sql_nd (np_Items p)\<rparr>) b"

lemma list_children_sim:
  assumes sim: "sim ce T s t" and small: "page * 100 < 2 ^ 63"
  shows "same_page ce (ListChildren p ty page sz s) (fst (sql_ListChildren ce p ty page sz (healthy t)))"
proof -
  have sn: "sim_nodes ce T s t" using sim by (simp add: sim_def)
  obtain pg n where ar: "nodePageArgs page sz = (pg, n)" by fastforce
  have b: "1 \<le> pg" "1 \<le> n" "n \<le> 100" using nodePageArgs_bounds [OF ar] by simp_all
  have "pg = (if page < 1 then 1 else page)" using ar by (simp add: nodePageArgs_def Let_def)
  then have "pg * 100 < 2 ^ 63" using small by (cases "page < 1") simp_all
  moreover have "pg * n \<le> pg * 100" using b by (intro mult_left_mono) auto
  ultimately have small': "pg * n < 2 ^ 63" by (rule le_less_trans [rotated])
  obtain a where a0: "(pg - 1) * n = a" "0 \<le> a" "a < 2 ^ 63"
  proof (rule that [OF refl])
    show "0 \<le> (pg - 1) * n" using b by (intro mult_nonneg_nonneg) auto
    show "(pg - 1) * n < 2 ^ 63" using small' b by (simp only: left_diff_distrib)
  qed
  have off: "wrap64 a = a" using a0 by (intro wrap64_id) auto
  note kids = children_sim [OF sn, of p ty]
  have len: "length (children_of p ty s) = length (live_kids p ty t)" using arg_cong [OF kids, of length] by simp
  have "fst (sql_ListChildren ce p ty page sz (healthy t)) =
    Inr \<lparr>np_Items = map (scanNode ce) (take (nat n) (drop (nat a) (rev (live_kids p ty t)))),
         np_Page = pg, np_PageSize = n, np_Total = int (length (live_kids p ty t))\<rparr>"
    using a0(2) by (simp add: sql_ListChildren_def ar a0(1) off bindS_def on_store_def orElse_def catchS_def sel_children_def
        rows_by_key [OF sn] retS_def)
  moreover have "ListChildren p ty page sz s =
    Inr \<lparr>np_Items = take (nat n) (drop (nat a) (children_of p ty s)), np_Page = pg, np_PageSize = n,
         np_Total = int (length (live_kids p ty t))\<rparr>"
    by (simp add: ListChildren_def ar Let_def page_slice_take [OF b(1,2) small'] len a0(1))
  ultimately show ?thesis
    by (simp add: same_page_def take_map [symmetric] drop_map [symmetric] kids comp_def)
qed

lemma sort_ordc_unique:
  assumes "distinct xs" and "distinct ys" and "set xs = set (ys :: string list)"
  shows "sort_key (map ordc) xs = sort_key (map ordc) ys"
proof -
  have "inj ordc" unfolding ordc_def by (rule injI) (simp add: of_char_eq_iff)
  then have inj: "inj (map ordc)" by (rule inj_mapI)
  have "map (map ordc) (sort_key (map ordc) xs) = map (map ordc) (sort_key (map ordc) ys)"
    using assms inj by (intro sorted_distinct_set_unique) (auto simp: distinct_map inj_on_def dest: injD)
  then show ?thesis using inj by (meson inj_map_eq_map)
qed

lemma page_files_sim:
  assumes sim: "sim ce T s t"
  shows "fst (sql_PageFiles ce p (healthy t)) = PageFiles p s"
proof -
  have sp: "sim_pages ce s t" using sim by (simp add: sim_def)
  then have inv: "page_inv s" and d: "distinct (map pr_path (ct_pages t))"
    and vers: "versions s p = map (ver_of ce) (path_vers p t)"
    and cur: "current s p = (case page_of t p of None \<Rightarrow> 0 | Some r \<Rightarrow> pr_current r)"
    and none: "page_of t p = None \<longleftrightarrow> versions s p = []"
    and raw: "\<forall>r\<in>set (ct_vers t). ce_unmarshal ce (vr_files r) \<noteq> None"
    by (simp_all add: sim_pages_def)
  show ?thesis
  proof (cases "page_of t p")
    case None
    then have "filter (\<lambda>pg. pr_path pg = p) (ct_pages t) = []" by (auto simp: page_of_def find_None_iff filter_empty_conv)
    then show ?thesis using None none PageFiles_current [OF inv, of p]
      by (simp add: sql_PageFiles_def or_missing_def orElse_def catchS_def failS_def bindS_def)
  next
    case (Some r)
    then have r: "r \<in> set (ct_pages t)" "pr_path r = p" by (simp_all add: page_of_key [OF d])
    have c: "current s p = pr_current r" using cur Some by simp
    let ?n = "length (path_vers p t)" and ?v = "path_vers p t ! nat (pr_current r - 1)"
    have "versions s p \<noteq> []" using none Some by simp
    then have v: "1 \<le> pr_current r" "pr_current r \<le> int ?n"
      using inv c vers by (auto simp: page_inv_def dest!: spec [of _ p])
    then have i: "nat (pr_current r - 1) < ?n" by linarith
    have "filter (\<lambda>pg. pr_path pg = p) (ct_pages t) = [r]" using filter_key [OF d r(1)] r(2) by simp
    then have q: "concat (map (\<lambda>pg. map vr_files (filter (\<lambda>v. vr_path v = pr_path pg \<and> vr_version v = pr_current pg) (ct_vers t)))
        (filter (\<lambda>pg. pr_path pg = p) (ct_pages t))) = [vr_files ?v]"
      using v r(2) by (simp add: version_row [OF sp])
    have "?v \<in> set (ct_vers t)" using nth_mem [OF i] by (auto simp: path_vers_def)
    then obtain fs where fs: "ce_unmarshal ce (vr_files ?v) = Some fs" using raw by blast
    have "PageFiles p s = Inr fs"
      using PageFiles_current [OF inv, of p] \<open>versions s p \<noteq> []\<close> i fs by (simp add: c vers files_of_def)
    then show ?thesis
      by (simp add: sql_PageFiles_def or_missing_def orElse_def catchS_def failS_def bindS_def q fs retS_def)
  qed
qed

lemma list_versions_sim:
  assumes sim: "sim ce T s t"
  shows "fst (sql_ListPageVersions ce p0 (healthy t)) = map_sum id (take 200) (ListPageVersions p0 s)"
proof (cases "cleanPagePath p0")
  case (Inl e)
  then show ?thesis by (simp add: sql_ListPageVersions_def ListPageVersions_def bindS_def liftS_def bindR_def)
next
  case (Inr p)
  have sp: "sim_pages ce s t" using sim by (simp add: sim_def)
  then have vers: "map_get [] (mc_pages s) p = map (ver_of ce) (path_vers p t)"
    and cur: "map_get 0 (mc_current s) p = (case page_of t p of None \<Rightarrow> 0 | Some r \<Rightarrow> pr_current r)"
    and none: "page_of t p = None \<longleftrightarrow> map_get [] (mc_pages s) p = []"
    by (simp_all add: sim_pages_def versions_def current_def)
  have "sorted (map vr_version (path_vers p t))" unfolding path_versions [OF sp] by simp
  then have srt: "sort_key vr_version (path_vers p t) = path_vers p t" by (rule sort_key_id_if_sorted)
  have sc: "or_missing (sel_current p) (healthy t) =
    (case page_of t p of None \<Rightarrow> (Inl NotFound, healthy t) | Some r \<Rightarrow> (Inr (pr_current r), healthy t))"
    by (simp add: or_missing_def orElse_def catchS_def failS_def sel_current_def case_map_list case_filter_find page_of_def
        split: option.split)
  show ?thesis
  proof (cases "page_of t p")
    case None
    then show ?thesis using Inr none sc by (simp add: sql_ListPageVersions_def ListPageVersions_def bindS_def liftS_def bindR_def)
  next
    case (Some r)
    then have ne: "path_vers p t \<noteq> []" using none vers by simp
    show ?thesis
      using Some Inr ne sc cur
      by (simp add: sql_ListPageVersions_def ListPageVersions_def bindS_def liftS_def bindR_def Let_def vers retS_def
          sel_versions_def on_store_def orElse_def catchS_def path_vers_def [symmetric] srt rev_map take_map comp_def)
  qed
qed

lemma list_paths_sim:
  assumes sim: "sim ce T s t"
  shows "fst (sql_ListPagePaths (healthy t)) = Inr (take 1000 (ListPagePaths s))"
proof -
  have sp: "sim_pages ce s t" using sim by (simp add: sim_def)
  then have inv: "page_inv s" and d: "distinct (map pr_path (ct_pages t))"
    and cur: "\<And>p. current s p = (case page_of t p of None \<Rightarrow> 0 | Some r \<Rightarrow> pr_current r)"
    by (simp_all add: sim_pages_def)
  have dm: "distinct (map fst (mc_current s))" using inv by (simp add: page_inv_def)
  let ?A = "map fst (filter (\<lambda>(_, cur). 0 < cur) (entries (mc_current s)))"
  let ?B = "map pr_path (filter (\<lambda>r. 0 < pr_current r) (ct_pages t))"
  have "p \<in> set ?A \<longleftrightarrow> 0 < current s p" for p
  proof -
    have "p \<in> set ?A \<longleftrightarrow> (\<exists>v. (p, v) \<in> set (mc_current s) \<and> 0 < v)" by (force simp: entries_distinct [OF dm])
    also have "\<dots> \<longleftrightarrow> (\<exists>v. map_of (mc_current s) p = Some v \<and> 0 < v)" using dm by (simp add: map_of_eq_Some_iff)
    also have "\<dots> \<longleftrightarrow> 0 < current s p" by (auto simp: current_def map_get_def split: option.split)
    finally show ?thesis .
  qed
  moreover have "p \<in> set ?B \<longleftrightarrow> 0 < current s p" for p
  proof (cases "page_of t p")
    case None
    then have "\<forall>r\<in>set (ct_pages t). pr_path r \<noteq> p" by (simp add: page_of_def find_None_iff)
    then show ?thesis using cur [of p] None by auto
  next
    case (Some r)
    then have r: "r \<in> set (ct_pages t)" "pr_path r = p" by (simp_all add: page_of_key [OF d])
    have one: "r' = r" if "r' \<in> set (ct_pages t)" "pr_path r' = p" for r'
      using that r d unfolding distinct_map by (metis inj_onD)
    have "p \<in> set ?B \<longleftrightarrow> (\<exists>r'. r' \<in> set (ct_pages t) \<and> pr_path r' = p \<and> 0 < pr_current r')" by auto
    also have "\<dots> \<longleftrightarrow> 0 < pr_current r" using r one by blast
    finally show ?thesis using cur [of p] Some by simp
  qed
  ultimately have "set ?A = set ?B" by blast
  moreover have "distinct ?A" using dm by (simp add: entries_distinct distinct_map_filter)
  moreover have "distinct ?B" using d by (rule distinct_map_filter)
  ultimately have "sort_key (map ordc) ?A = sort_key (map ordc) ?B" by (intro sort_ordc_unique) auto
  then show ?thesis by (simp add: sql_ListPagePaths_def ListPagePaths_def on_store_def orElse_def catchS_def)
qed

section \<open>Runs\<close>

datatype content_ans = ANode node | ACount int | ADone | AVersion page_version

fun mem_do :: "content_env \<Rightarrow> int \<Rightarrow> content_op \<Rightarrow> memContent \<Rightarrow> (content_err + content_ans) \<times> memContent" where
  "mem_do ce now (OpPut inp) s = apfst (map_sum id ANode) (PutNode (ce_valid ce) (ce_fmt ce now) inp s)"
| "mem_do ce now (OpUpdate i title data sv) s =
     apfst (map_sum id ANode) (UpdateNode (ce_valid ce) (ce_fmt ce now) i title data sv s)"
| "mem_do ce now (OpDelete i) s = apfst (map_sum id ACount) (DeleteNode i s)"
| "mem_do ce now (OpMove i p) s = apfst (map_sum id (\<lambda>_. ADone)) (MoveNode i p s)"
| "mem_do ce now (OpPutPage p fs) s = apfst (map_sum id AVersion) (PutPage (ce_fmt ce now) p fs s)"
| "mem_do ce now (OpRollback p v) s = apfst (map_sum id AVersion) (RollbackPage p v s)"

fun sql_do :: "content_env \<Rightarrow> int \<Rightarrow> content_op \<Rightarrow> content_ans cdb" where
  "sql_do ce now (OpPut inp) d = apfst (map_sum id ANode) (sql_PutNode ce now inp d)"
| "sql_do ce now (OpUpdate i title data sv) d = apfst (map_sum id ANode) (sql_UpdateNode ce now i title data sv d)"
| "sql_do ce now (OpDelete i) d = apfst (map_sum id ACount) (sql_DeleteNode ce i d)"
| "sql_do ce now (OpMove i p) d = apfst (map_sum id (\<lambda>_. ADone)) (sql_MoveNode ce now i p d)"
| "sql_do ce now (OpPutPage p fs) d = apfst (map_sum id AVersion) (sql_PutPage ce now p fs d)"
| "sql_do ce now (OpRollback p v) d = apfst (map_sum id AVersion) (sql_RollbackPage ce p v d)"

text \<open>The calls of a run with their times, the answers and the last state.\<close>

fun content_run :: "(int \<Rightarrow> content_op \<Rightarrow> 's \<Rightarrow> 'a \<times> 's) \<Rightarrow> (int \<times> content_op) list \<Rightarrow> 's \<Rightarrow> 'a list \<times> 's" where
  "content_run f [] s = ([], s)"
| "content_run f ((now, op) # ops) s =
     (case f now op s of (a, s1) \<Rightarrow> (case content_run f ops s1 of (rest, s2) \<Rightarrow> (a # rest, s2)))"

text \<open>What the columns hold; the memory store has no such bounds.\<close>

definition fits_cols :: "content_op \<Rightarrow> bool" where
  "fits_cols op = (case op of OpPut inp \<Rightarrow> fits_put inp | OpUpdate _ title _ sv \<Rightarrow> fits_update title sv
     | OpPutPage p _ \<Rightarrow> fits_page p | _ \<Rightarrow> True)"

text \<open>Equal answers; of an update that fails only that both fail, as the stores check in another order.\<close>

fun view_ans :: "(node \<Rightarrow> node) \<Rightarrow> content_ans \<Rightarrow> content_ans" where
  "view_ans f (ANode n) = ANode (f n)"
| "view_ans f a = a"

definition same_ans :: "content_env \<Rightarrow> content_op \<Rightarrow> content_err + content_ans \<Rightarrow> content_err + content_ans \<Rightarrow> bool" where
  "same_ans ce op a b \<longleftrightarrow>
     (case (a, b) of
        (Inl e, Inl e') \<Rightarrow> (case op of OpUpdate _ _ _ _ \<Rightarrow> True | _ \<Rightarrow> e = e')
      | (Inr x, Inr y) \<Rightarrow> view_ans (mem_nd ce) x = view_ans sql_nd y
      | _ \<Rightarrow> False)"

lemma same_ans_simps [simp]:
  "same_ans ce op (Inl e) (Inr y) = False" "same_ans ce op (Inr x) (Inl e') = False"
  "same_ans ce op (Inr x) (Inr y) \<longleftrightarrow> view_ans (mem_nd ce) x = view_ans sql_nd y"
  "same_ans ce op (Inl e) (Inl e') \<longleftrightarrow> (case op of OpUpdate _ _ _ _ \<Rightarrow> True | _ \<Rightarrow> e = e')"
  by (simp_all add: same_ans_def)

lemma same_ans_refl: "(case a of Inr (ANode _) \<Rightarrow> False | _ \<Rightarrow> True) \<Longrightarrow> same_ans ce op a a"
  by (auto simp: same_ans_def split: sum.splits content_ans.splits content_op.splits)

lemma same_ans_node:
  "same_res ce a b \<Longrightarrow> same_ans ce op (map_sum id ANode a) (map_sum id ANode b)"
  "agree ce a b \<Longrightarrow> same_ans ce (OpUpdate i title data sv) (map_sum id ANode a) (map_sum id ANode b)"
  by (cases a; cases b; auto simp: same_res_def agree_def split: content_op.splits)+

lemma mem_do_exec: "snd (mem_do ce now op s) = exec (ce_valid ce) (ce_fmt ce now) op s"
  by (cases op) (simp_all add: apfst_def map_prod_def split: prod.split)

lemma do_sim:
  assumes env: "content_env_ok ce" and sim: "sim ce T s t" and T: "T \<le> now" and fits: "fits_cols op"
    and ok: "tree_ok (live_tree s)" and small: "length (ct_nodes t) < 100000"
  shows "\<exists>b t'. sql_do ce now op (healthy t) = (b, healthy t') \<and> same_ans ce op (fst (mem_do ce now op s)) b \<and>
    sim ce now (snd (mem_do ce now op s)) t'"
proof (cases op)
  case (OpPut inp)
  with put_sim [OF env sim T, of inp] fits same_ans_node(1) show ?thesis by (fastforce simp: fits_cols_def)
next
  case (OpUpdate i title data sv)
  with update_sim [OF env sim T, of title sv i data] fits same_ans_node(2) show ?thesis by (fastforce simp: fits_cols_def)
next
  case (OpDelete i)
  have "same_ans ce op (map_sum id ACount a) (map_sum id ACount a)" for a by (rule same_ans_refl) (cases a; simp)
  with delete_sim [OF sim T ok small, of i] OpDelete show ?thesis by (fastforce simp: fits_cols_def)
next
  case (OpMove i p)
  have "same_ans ce op (map_sum id (\<lambda>_. ADone) a) (map_sum id (\<lambda>_. ADone) a)" for a :: "content_err + unit"
    by (rule same_ans_refl) (cases a; simp)
  with move_sim [OF sim T, of i p] OpMove show ?thesis by (fastforce simp: fits_cols_def)
next
  case (OpPutPage p fs)
  have "same_ans ce op (map_sum id AVersion a) (map_sum id AVersion a)" for a by (rule same_ans_refl) (cases a; simp)
  with put_page_sim [OF env sim T, of p fs] OpPutPage fits show ?thesis by (fastforce simp: fits_cols_def)
next
  case (OpRollback p v)
  have "same_ans ce op (map_sum id AVersion a) (map_sum id AVersion a)" for a by (rule same_ans_refl) (cases a; simp)
  with rollback_sim [OF sim T, of p v] OpRollback show ?thesis by (fastforce simp: fits_cols_def)
qed

lemma rows_le:
  assumes sn: "sim_nodes ce T s t"
  shows "int (length (ct_nodes t)) \<le> mc_nextID s"
proof -
  have nx: "ct_next t = mc_nextID s + 1" using sn by (simp add: sim_nodes_def)
  have "set (map nr_id (ct_nodes t)) \<subseteq> {1..mc_nextID s}" using row_bounds [OF sn] nx by auto
  then have "card (set (map nr_id (ct_nodes t))) \<le> card {1..mc_nextID s}" by (rule card_mono [rotated]) simp
  moreover have "card {1..mc_nextID s} = nat (mc_nextID s)" by simp
  moreover have "card (set (map nr_id (ct_nodes t))) = length (ct_nodes t)"
    using distinct_card [OF sim_distinct [OF sn]] by simp
  moreover have "0 \<le> mc_nextID s" using sn by (simp add: sim_nodes_def nodes_inv_def)
  ultimately show ?thesis by linarith
qed

lemma nextID_step: "mc_nextID (snd (mem_do ce now op s)) \<le> mc_nextID s + 1"
proof (cases op)
  case (OpPut inp)
  then show ?thesis by (auto simp: PutNode_def Let_def apfst_def split: sum.splits prod.splits option.splits)
next
  case (OpUpdate i title data sv)
  then show ?thesis by (auto simp: UpdateNode_def upd_def Let_def apfst_def split: sum.splits prod.splits option.splits)
next
  case (OpDelete i)
  then show ?thesis by (auto simp: DeleteNode_def apfst_def split: sum.splits prod.splits)
next
  case (OpMove i p)
  then show ?thesis by (auto simp: MoveNode_def upd_def apfst_def split: sum.splits prod.splits option.splits)
next
  case (OpPutPage p fs)
  then show ?thesis by (auto simp: PutPage_def Let_def apfst_def split: sum.splits prod.splits)
next
  case (OpRollback p v)
  then show ?thesis by (auto simp: RollbackPage_def Let_def apfst_def split: sum.splits prod.splits)
qed

lemma run_sim:
  assumes env: "content_env_ok ce" and "sim ce T s t" and "tree_ok (live_tree s)"
    and "mc_nextID s + int (length ops) \<le> 100000" and "sorted (T # map fst ops)"
    and "list_all (\<lambda>(_, op). fits_cols op \<and> not_move op) ops"
  shows "\<exists>bs t' T'. content_run (sql_do ce) ops (healthy t) = (bs, healthy t') \<and>
    list_all2 (\<lambda>(_, op) (a, b). same_ans ce op a b) ops (zip (fst (content_run (mem_do ce) ops s)) bs) \<and>
    length bs = length ops \<and> length (fst (content_run (mem_do ce) ops s)) = length ops \<and>
    sim ce T' (snd (content_run (mem_do ce) ops s)) t'"
  using assms(2-)
proof (induction ops arbitrary: T s t)
  case Nil
  then show ?case by auto
next
  case (Cons x ops)
  obtain now op where x: "x = (now, op)" by fastforce
  have sn: "sim_nodes ce T s t" and sp: "sim_pages ce s t" using Cons.prems(1) by (simp_all add: sim_def)
  have inv: "nodes_inv s" "page_inv s" using sn sp by (simp_all add: sim_nodes_def sim_pages_def)
  have small: "length (ct_nodes t) < 100000" using rows_le [OF sn] Cons.prems(3) by simp
  have T: "T \<le> now" and op: "fits_cols op" "not_move op" using Cons.prems(4,5) x by simp_all
  obtain a s1 where m: "mem_do ce now op s = (a, s1)" by fastforce
  obtain b t1 where q: "sql_do ce now op (healthy t) = (b, healthy t1)" "same_ans ce op a b" "sim ce now s1 t1"
    using do_sim [OF env Cons.prems(1) T op(1) Cons.prems(2) small] m by auto
  have s1: "s1 = exec (ce_valid ce) (ce_fmt ce now) op s" using mem_do_exec [of ce now op s] m by simp
  have ok1: "tree_ok (live_tree s1)" using exec_inv [OF inv] op(2) Cons.prems(2) unfolding s1 by blast
  have n1: "mc_nextID s1 + int (length ops) \<le> 100000" using nextID_step [of ce now op s] m Cons.prems(3) by simp
  obtain bs t' T' where r: "content_run (sql_do ce) ops (healthy t1) = (bs, healthy t')"
    "list_all2 (\<lambda>(_, op) (a, b). same_ans ce op a b) ops (zip (fst (content_run (mem_do ce) ops s1)) bs)"
    "length bs = length ops" "length (fst (content_run (mem_do ce) ops s1)) = length ops"
    "sim ce T' (snd (content_run (mem_do ce) ops s1)) t'"
    using Cons.IH [OF q(3) ok1 n1] Cons.prems(4,5) x by auto
  then show ?case using q m x by (auto split: prod.split)
qed

lemma sim_new: "sim ce 0 newMemContent content_migrate"
  using new_inv by (simp add: sim_def sim_nodes_def sim_pages_def content_migrate_def row_def page_of_def path_vers_def
      newMemContent_def versions_def current_def map_get_def)


text \<open>A concrete environment: files are written with an escape before each character.\<close>

fun pairs_of :: "'a list \<Rightarrow> ('a \<times> 'a) list" where
  "pairs_of (k # v # r) = (k, v) # pairs_of r"
| "pairs_of _ = []"

definition demo_ce :: content_env where
  "demo_ce = \<lparr>ce_valid = (\<lambda>_. True), ce_json = (\<lambda>d. if d = [] then ''null'' else d),
     ce_marshal = (\<lambda>fs. concat (map (\<lambda>(k, v). esc k @ esc v) fs)),
     ce_unmarshal = (\<lambda>raw. map_option pairs_of (unesc [] [] raw)), ce_fmt = (\<lambda>n. if n = 0 then ''t0'' else ''t1'')\<rparr>"

lemma unesc_files: "unesc out [] (concat (map (\<lambda>(k, v). esc k @ esc v) fs)) = Some (out @ concat (map (\<lambda>(k, v). [k, v]) fs))"
  by (induction fs arbitrary: out) (auto simp: unesc_esc)

lemma pairs_of_files: "pairs_of (concat (map (\<lambda>(k, v). [k, v]) fs)) = fs"
  by (induction fs) auto

lemma demo_ce_ok: "content_env_ok demo_ce"
  by (auto simp: content_env_ok_def demo_ce_def unesc_files pairs_of_files)

definition demo_calls :: "(int \<times> content_op) list" where
  "demo_calls = [(0, OpPut demo_module), (0, OpPut demo_detail), (1, OpPut demo_block),
     (1, OpUpdate 2 (Some ''D2'') None (Some 3)), (2, OpPutPage ''finance/home'' [(''index.html'', ''v1'')]),
     (2, OpPutPage ''finance/home'' [(''index.html'', ''v2'')]), (3, OpRollback ''finance/home'' 1), (3, OpDelete 3)]"


lemma reads_stores [intro]:
  "reads m \<Longrightarrow> reads (on_store m)" "reads m \<Longrightarrow> reads (or_missing m)"
  unfolding on_store_def or_missing_def orElse_def by (auto intro: reads_catchS)

lemma reads_live [intro]: "reads (liveNode ce i)" "reads (sel_slug p sl)"
  by (auto simp: liveNode_def sel_slug_def)

text \<open>A check or a read, then a call that fails without a change.\<close>

definition keeps_on_error :: "('t, 'e, 'a) dbm \<Rightarrow> bool" where
  "keeps_on_error m \<longleftrightarrow> (\<forall>d e d'. m d = (Inl e, d') \<longrightarrow> db_tab d' = db_tab d)"

lemma keeps_bind: "reads m \<Longrightarrow> (\<And>x. keeps_on_error (f x)) \<Longrightarrow> keeps_on_error (bindS m f)"
  unfolding keeps_on_error_def reads_def bindS_def
  by (auto split: prod.splits sum.splits) (metis snd_conv)+

lemma keeps_last: "keeps_on_error m \<Longrightarrow> keeps_on_error (bindS m (\<lambda>_. retS x))"
  unfolding keeps_on_error_def bindS_def retS_def by (auto split: prod.splits sum.splits)

lemma keeps_basic [intro]:
  "keeps_on_error (transaction conv body)" "keeps_on_error (retS x)" "keeps_on_error (failS e)" "keeps_on_error (stmt f)"
  by (auto simp: keeps_on_error_def retS_def failS_def dest: transaction_atomic stmt_err_tab)

lemma keeps_on_store: "keeps_on_error m \<Longrightarrow> keeps_on_error (on_store m)"
  by (auto simp: keeps_on_error_def on_store_def orElse_def catchS_def failS_def split: prod.splits sum.splits)

lemma keeps_apfst: "keeps_on_error m \<Longrightarrow> keeps_on_error (\<lambda>d. apfst (map_sum id f) (m d))"
  unfolding keeps_on_error_def apfst_def map_prod_def by (auto split: prod.splits sum.splits simp: map_sum_def) 

lemma calls_keep:
  "keeps_on_error (sql_PutNode ce now inp)" "keeps_on_error (sql_DeleteNode ce i)" "keeps_on_error (sql_PutPage ce now p fs)"
  "keeps_on_error (sql_RollbackPage ce p v)" "keeps_on_error (sql_MoveNode ce now i q)"
  unfolding sql_PutNode_def sql_DeleteNode_def sql_PutPage_def sql_RollbackPage_def sql_MoveNode_def set_current_def execS_def
  by (auto intro!: keeps_bind keeps_last keeps_on_store reads_catchS reads_bindS keeps_basic reads_live reads_stores reads_intros
      split: option.split)

text \<open>C27 A call of the MySQL content store that fails, wherever the database fails, has changed no table;
  UpdateNode apart, whose last read can fail after the change.\<close>

theorem content_calls_atomic:
  assumes "case op of OpUpdate _ _ _ _ \<Rightarrow> False | _ \<Rightarrow> True" and "sql_do ce now op d = (Inl e, d')"
  shows "db_tab d' = db_tab d"
proof -
  have "keeps_on_error (sql_do ce now op)"
    using assms(1) calls_keep [THEN keeps_apfst] by (cases op) (simp_all add: sql_do.simps [abs_def])
  then show ?thesis using assms(2) by (simp add: keeps_on_error_def)
qed

theorem content_calls_atomic_witness:
  "db_tab (snd (sql_do demo_ce 0 (OpPut demo_module)
     \<lparr>db_tab = content_migrate, db_faults = [None, None, None, Some (DbFail ''lost'')]\<rparr>)) = content_migrate"
proof -
  let ?d = "\<lparr>db_tab = content_migrate, db_faults = [None, None, None, Some (DbFail ''lost'')]\<rparr>"
  have "\<not> isOk (fst (sql_do demo_ce 0 (OpPut demo_module) ?d))" by code_simp
  then obtain e where "fst (sql_do demo_ce 0 (OpPut demo_module) ?d) = Inl e" by (cases "fst (sql_do demo_ce 0 (OpPut demo_module) ?d)") (auto simp: isOk_def)
  then have "sql_do demo_ce 0 (OpPut demo_module) ?d = (Inl e, snd (sql_do demo_ce 0 (OpPut demo_module) ?d))"
    by (metis prod.collapse)
  from content_calls_atomic [OF _ this] show ?thesis by simp
qed

definition long_path :: string where
  "long_path = (let s = replicate 64 CHR ''a'' in s @ ''/'' @ s @ ''/'' @ s @ ''/'' @ s)"

text \<open>A page path of four segments of 64 characters passes the checks and the memory store; the
  column of MySQL has no room for its 259 characters.\<close>

lemma long_path_refused:
  "isOk (fst (PutPage now long_path [(''index.html'', ''v'')] s)) \<and>
   fst (sql_PutPage ce n long_path [(''index.html'', ''v'')] (healthy t)) = Inl (StoreErr DataTooLong)"
proof -
  have p: "cleanPagePath long_path = Inr long_path" by code_simp
  have f: "isOk (cleanPageFiles [(''index.html'', ''v'')])" by code_simp
  have v: "\<not> varchar 255 long_path" by code_simp
  obtain fs where "cleanPageFiles [(''index.html'', ''v'')] = Inr fs" using f by (auto simp: isOk_iff)
  then show ?thesis
    using p v by (simp add: PutPage_def Let_def sql_PutPage_def bindS_def liftS_def transaction_def on_store_def orElse_def
        catchS_def failS_def ins_page_def)
qed

end
