(* ===== verification/ContentClients.thy ===== *)
theory ContentClients
  imports ContentSqlRuns
begin

text \<open>
  The interface \<open>ContentStore\<close> of projects/board/content.go and two of its clients: the migration
  \<open>flattenLists\<close> of content_flatten.go and the navigation page \<open>buildNav\<close> of content_nav.go. The
  locales state what the migration needs of a store; the memory store provides it.
\<close>

section \<open>The interface\<close>

record 's ContentStore =
  cs_PutNode :: "node_input \<Rightarrow> 's \<Rightarrow> (content_err + node) \<times> 's"
  cs_UpdateNode :: "int \<Rightarrow> string option \<Rightarrow> string option \<Rightarrow> int option \<Rightarrow> 's \<Rightarrow> (content_err + node) \<times> 's"
  cs_DeleteNode :: "int \<Rightarrow> 's \<Rightarrow> (content_err + int) \<times> 's"
  cs_GetNode :: "int \<Rightarrow> 's \<Rightarrow> (content_err + node) \<times> 's"
  cs_FindChild :: "int \<Rightarrow> string \<Rightarrow> string \<Rightarrow> 's \<Rightarrow> (content_err + node) \<times> 's"
  cs_ListChildren :: "int \<Rightarrow> string \<Rightarrow> int \<Rightarrow> int \<Rightarrow> 's \<Rightarrow> (content_err + node_page) \<times> 's"
  cs_MoveNode :: "int \<Rightarrow> int \<Rightarrow> 's \<Rightarrow> (content_err + unit) \<times> 's"
  cs_PutPage :: "string \<Rightarrow> files \<Rightarrow> 's \<Rightarrow> (content_err + page_version) \<times> 's"
  cs_ListPageVersions :: "string \<Rightarrow> 's \<Rightarrow> (content_err + page_version list) \<times> 's"
  cs_RollbackPage :: "string \<Rightarrow> int \<Rightarrow> 's \<Rightarrow> (content_err + page_version) \<times> 's"
  cs_PageFiles :: "string \<Rightarrow> 's \<Rightarrow> (content_err + files) \<times> 's"
  cs_ListPagePaths :: "'s \<Rightarrow> (content_err + string list) \<times> 's"

definition mem_Content :: "(string \<Rightarrow> bool) \<Rightarrow> string \<Rightarrow> memContent ContentStore" where
  "mem_Content valid now =
     \<lparr>cs_PutNode = PutNode valid now, cs_UpdateNode = UpdateNode valid now, cs_DeleteNode = DeleteNode,
      cs_GetNode = (\<lambda>i s. (GetNode i s, s)), cs_FindChild = (\<lambda>p ty sl s. (FindChild p ty sl s, s)),
      cs_ListChildren = (\<lambda>p ty page sz s. (ListChildren p ty page sz s, s)), cs_MoveNode = MoveNode,
      cs_PutPage = PutPage now, cs_ListPageVersions = (\<lambda>p s. (ListPageVersions p s, s)),
      cs_RollbackPage = RollbackPage, cs_PageFiles = (\<lambda>p s. (PageFiles p s, s)),
      cs_ListPagePaths = (\<lambda>s. (Inr (ListPagePaths s), s))\<rparr>"

definition sql_Content :: "content_env \<Rightarrow> int \<Rightarrow> content_tabs db ContentStore" where
  "sql_Content ce now =
     \<lparr>cs_PutNode = sql_PutNode ce now, cs_UpdateNode = sql_UpdateNode ce now, cs_DeleteNode = sql_DeleteNode ce,
      cs_GetNode = sql_GetNode ce, cs_FindChild = sql_FindChild ce, cs_ListChildren = sql_ListChildren ce,
      cs_MoveNode = sql_MoveNode ce now, cs_PutPage = sql_PutPage ce now,
      cs_ListPageVersions = sql_ListPageVersions ce, cs_RollbackPage = sql_RollbackPage ce,
      cs_PageFiles = sql_PageFiles ce, cs_ListPagePaths = sql_ListPagePaths\<rparr>"

section \<open>The migration of lists\<close>

definition legacyList :: string where "legacyList = ''list''"

text \<open>The pages of a list from \<open>page\<close> on; the loop ends when the store says so.\<close>

partial_function (option) all_nodes ::
  "'s ContentStore \<Rightarrow> int \<Rightarrow> string \<Rightarrow> int \<Rightarrow> node list \<Rightarrow> 's \<Rightarrow> ((content_err + node list) \<times> 's) option" where
  "all_nodes c parent typ page out s =
     (case cs_ListChildren c parent typ page 100 s of
        (Inl e, s1) \<Rightarrow> Some (Inl e, s1)
      | (Inr p, s1) \<Rightarrow>
          if np_Items p = [] \<or> np_Total p \<le> wrap64 (page * np_PageSize p) then Some (Inr (out @ np_Items p), s1)
          else all_nodes c parent typ (wrap64 (page + 1)) (out @ np_Items p) s1)"

record flat =
  fl_moved :: int
  fl_skipped :: int
  fl_err :: "content_err option"

text \<open>The details of one list. The counter \<open>left\<close> is of those that stay.\<close>

fun move_details :: "'s ContentStore \<Rightarrow> int \<Rightarrow> node list \<Rightarrow> flat \<Rightarrow> int \<Rightarrow> 's \<Rightarrow> (flat \<times> int) \<times> 's" where
  "move_details c m [] f left s = ((f, left), s)"
| "move_details c m (d # ds) f left s =
     (case cs_MoveNode c (nd_ID d) m s of
        (Inr _, s1) \<Rightarrow> move_details c m ds (f\<lparr>fl_moved := fl_moved f + 1\<rparr>) left s1
      | (Inl e, s1) \<Rightarrow>
          if e = Conflict then move_details c m ds (f\<lparr>fl_skipped := fl_skipped f + 1\<rparr>) (left + 1) s1
          else ((f\<lparr>fl_err := Some e\<rparr>, left), s1))"

fun flat_lists :: "'s ContentStore \<Rightarrow> int \<Rightarrow> node list \<Rightarrow> flat \<Rightarrow> 's \<Rightarrow> (flat \<times> 's) option" where
  "flat_lists c m [] f s = Some (f, s)"
| "flat_lists c m (l # ls) f s =
     (case all_nodes c (nd_ID l) NodeDetail 1 [] s of
        None \<Rightarrow> None
      | Some (Inl e, s1) \<Rightarrow> Some (f\<lparr>fl_err := Some e\<rparr>, s1)
      | Some (Inr ds, s1) \<Rightarrow>
          (case move_details c m ds f 0 s1 of
             ((f1, left), s2) \<Rightarrow>
               if fl_err f1 \<noteq> None then Some (f1, s2)
               else if left = 0
               then (case cs_DeleteNode c (nd_ID l) s2 of
                       (Inl e, s3) \<Rightarrow> Some (f1\<lparr>fl_err := Some e\<rparr>, s3)
                     | (Inr _, s3) \<Rightarrow> flat_lists c m ls f1 s3)
               else flat_lists c m ls f1 s2))"

fun flat_mods :: "'s ContentStore \<Rightarrow> node list \<Rightarrow> flat \<Rightarrow> 's \<Rightarrow> (flat \<times> 's) option" where
  "flat_mods c [] f s = Some (f, s)"
| "flat_mods c (m # ms) f s =
     (case all_nodes c (nd_ID m) legacyList 1 [] s of
        None \<Rightarrow> None
      | Some (Inl e, s1) \<Rightarrow> Some (f\<lparr>fl_err := Some e\<rparr>, s1)
      | Some (Inr ls, s1) \<Rightarrow>
          (case flat_lists c (nd_ID m) ls f s1 of
             None \<Rightarrow> None
           | Some (f1, s2) \<Rightarrow> if fl_err f1 \<noteq> None then Some (f1, s2) else flat_mods c ms f1 s2))"

definition flattenLists :: "'s ContentStore \<Rightarrow> 's \<Rightarrow> (flat \<times> 's) option" where
  "flattenLists c s =
     (case all_nodes c 0 NodeModule 1 [] s of
        None \<Rightarrow> None
      | Some (Inl e, s1) \<Rightarrow> Some (\<lparr>fl_moved = 0, fl_skipped = 0, fl_err = Some e\<rparr>, s1)
      | Some (Inr mods, s1) \<Rightarrow> flat_mods c mods \<lparr>fl_moved = 0, fl_skipped = 0, fl_err = None\<rparr> s1)"

section \<open>The navigation page\<close>

record navPage =
  nv_Path :: string
  nv_PTitle :: string

record navModule =
  nm_Slug :: string
  nm_Title :: string
  nm_Description :: string
  nm_Pages :: "navPage list"

record navView =
  nv_Modules :: "navModule list"
  nv_Orphans :: "navPage list"

text \<open>\<open>dec\<close> is \<open>json.Unmarshal\<close> into a map, and of the map the members that are strings.\<close>

definition moduleDescription :: "(string \<Rightarrow> (string \<Rightarrow> string option) option) \<Rightarrow> string \<Rightarrow> string" where
  "moduleDescription dec data =
     (case dec data of
        None \<Rightarrow> []
      | Some m \<Rightarrow>
          (case m ''description'' of
             Some x \<Rightarrow> trim_space x
           | None \<Rightarrow> (case m ''desc'' of Some x \<Rightarrow> trim_space x | None \<Rightarrow> [])))"

definition nav_mod :: "string \<Rightarrow> string" where "nav_mod p = fst (str_cut p ''/'')"

definition nav_page :: "string \<Rightarrow> navPage" where "nav_page p = \<lparr>nv_Path = p, nv_PTitle = p\<rparr>"

text \<open>\<open>byMod\<close>: the pages by the first segment of their path.\<close>

definition by_mod :: "string list \<Rightarrow> (string \<times> navPage list) list" where
  "by_mod paths = fold (\<lambda>p m. al_put (nav_mod p) (map_get [] m (nav_mod p) @ [nav_page p]) m) paths []"

fun nav_nodes ::
  "(string \<Rightarrow> (string \<Rightarrow> string option) option) \<Rightarrow> 's ContentStore \<Rightarrow> node list \<Rightarrow> (string \<times> navPage list) list \<Rightarrow>
     navModule list \<Rightarrow> 's \<Rightarrow> (navModule list \<times> (string \<times> navPage list) list) \<times> 's" where
  "nav_nodes dec c [] bm out s = ((out, bm), s)"
| "nav_nodes dec c (n0 # ns) bm out s =
     (case cs_GetNode c (nd_ID n0) s of (r, s1) \<Rightarrow>
       (let n = (case r of Inr full \<Rightarrow> full | Inl _ \<Rightarrow> n0);
            m = \<lparr>nm_Slug = nd_Slug n, nm_Title = (if nd_Title n = [] then nd_Slug n else nd_Title n),
                 nm_Description = moduleDescription dec (nd_Data n), nm_Pages = map_get [] bm (nd_Slug n)\<rparr>
        in nav_nodes dec c ns (filter (\<lambda>(k, _). k \<noteq> nd_Slug n) bm) (out @ [m]) s1))"

fun nav_pages ::
  "(string \<Rightarrow> (string \<Rightarrow> string option) option) \<Rightarrow> 's ContentStore \<Rightarrow> int list \<Rightarrow> (string \<times> navPage list) list \<Rightarrow>
     navModule list \<Rightarrow> 's \<Rightarrow> (content_err + navModule list \<times> (string \<times> navPage list) list) \<times> 's" where
  "nav_pages dec c [] bm out s = (Inr (out, bm), s)"
| "nav_pages dec c (page # pages) bm out s =
     (case cs_ListChildren c 0 NodeModule page 100 s of
        (Inl e, s1) \<Rightarrow> (Inl e, s1)
      | (Inr res, s1) \<Rightarrow>
          (case nav_nodes dec c (np_Items res) bm out s1 of
             ((out1, bm1), s2) \<Rightarrow>
               if np_Items res = [] \<or> np_Total res \<le> page * np_PageSize res then (Inr (out1, bm1), s2)
               else nav_pages dec c pages bm1 out1 s2))"

definition buildNav :: "(string \<Rightarrow> (string \<Rightarrow> string option) option) \<Rightarrow> 's ContentStore \<Rightarrow> 's \<Rightarrow> (content_err + navView) \<times> 's" where
  "buildNav dec c s =
     (case cs_ListPagePaths c s of
        (Inl e, s1) \<Rightarrow> (Inl e, s1)
      | (Inr paths, s1) \<Rightarrow>
          (case nav_pages dec c [1..20] (by_mod paths) [] s1 of
             (Inl e, s2) \<Rightarrow> (Inl e, s2)
           | (Inr (mods, bm), s2) \<Rightarrow>
               (Inr \<lparr>nv_Modules = mods,
                     nv_Orphans = map nav_page (filter (\<lambda>p. map_of bm (nav_mod p) \<noteq> None) paths)\<rparr>, s2)))"

end
