(* ===== verification/ContentClientsOk.thy ===== *)
theory ContentClientsOk
  imports ContentClients "HOL-Library.Multiset"
begin

text \<open>
  The navigation page shows every page once, for any store. The migration of lists, proved once for
  the stores of the locale \<open>content_moves\<close>: it ends, and what it may change is \<open>flat_rel\<close>. The memory
  store is such a store.
\<close>

section \<open>Navigation\<close>

lemma map_of_by_mod:
  "map_of (by_mod paths) k =
     (if filter (\<lambda>p. nav_mod p = k) paths = [] then None else Some (map nav_page (filter (\<lambda>p. nav_mod p = k) paths)))"
proof -
  have "map_of (fold (\<lambda>p m. al_put (nav_mod p) (map_get [] m (nav_mod p) @ [nav_page p]) m) paths m) k =
    (case map_of m k of
       None \<Rightarrow> if filter (\<lambda>p. nav_mod p = k) paths = [] then None else Some (map nav_page (filter (\<lambda>p. nav_mod p = k) paths))
     | Some v \<Rightarrow> Some (v @ map nav_page (filter (\<lambda>p. nav_mod p = k) paths)))" for m
    by (induction paths arbitrary: m) (auto simp: map_get_def split: option.splits)
  from this [of "[]"] show ?thesis by (simp add: by_mod_def)
qed

lemma map_of_del: "map_of (filter (\<lambda>(k, _). k \<noteq> a) m) k = (if k = a then None else map_of m k)"
  by (induction m) auto

text \<open>Every page is in one of the modules so far or still in \<open>byMod\<close>.\<close>

definition nav_inv :: "string list \<Rightarrow> (string \<times> navPage list) list \<Rightarrow> navModule list \<Rightarrow> bool" where
  "nav_inv paths bm out \<longleftrightarrow>
     (\<forall>k v. map_of bm k = Some v \<longrightarrow> v = map nav_page (filter (\<lambda>p. nav_mod p = k) paths)) \<and>
     mset (concat (map nm_Pages out)) + image_mset nav_page (filter_mset (\<lambda>p. map_of bm (nav_mod p) \<noteq> None) (mset paths)) =
       image_mset nav_page (mset paths) \<and>
     (\<forall>m\<in>set out. \<forall>pg\<in>set (nm_Pages m). nav_mod (nv_Path pg) = nm_Slug m)"

lemma nav_inv_start: "nav_inv paths (by_mod paths) []"
proof -
  have "filter_mset (\<lambda>p. map_of (by_mod paths) (nav_mod p) \<noteq> None) (mset paths) = mset paths"
    by (auto simp: map_of_by_mod filter_empty_conv intro!: filter_mset_cong [of _ _ _ "\<lambda>_. True", simplified])
  then show ?thesis by (auto simp: nav_inv_def map_of_by_mod split: if_splits)
qed

lemma nav_inv_step:
  assumes inv: "nav_inv paths bm out" and m: "nm_Pages m = map_get [] bm (nm_Slug m)"
  shows "nav_inv paths (filter (\<lambda>(k, _). k \<noteq> nm_Slug m) bm) (out @ [m])"
proof -
  let ?k = "nm_Slug m"
  have val: "map_of bm k = Some v \<Longrightarrow> v = map nav_page (filter (\<lambda>p. nav_mod p = k) paths)" for k v
    using inv by (simp add: nav_inv_def)
  have pages: "mset (nm_Pages m) + image_mset nav_page (filter_mset (\<lambda>p. map_of (filter (\<lambda>(k, _). k \<noteq> ?k) bm) (nav_mod p) \<noteq> None) (mset paths)) =
      image_mset nav_page (filter_mset (\<lambda>p. map_of bm (nav_mod p) \<noteq> None) (mset paths))"
  proof (cases "map_of bm ?k")
    case None
    then have "\<And>p. (map_of (filter (\<lambda>(k, _). k \<noteq> ?k) bm) (nav_mod p) \<noteq> None) = (map_of bm (nav_mod p) \<noteq> None)"
      by (auto simp: map_of_del)
    with None show ?thesis by (simp add: m map_get_def)
  next
    case (Some v)
    have "filter_mset (\<lambda>p. map_of bm (nav_mod p) \<noteq> None) (mset paths) =
      filter_mset (\<lambda>p. nav_mod p = ?k) (mset paths) +
      filter_mset (\<lambda>p. map_of (filter (\<lambda>(k, _). k \<noteq> ?k) bm) (nav_mod p) \<noteq> None) (mset paths)"
      using Some by (induction paths) (auto simp: map_of_del)
    moreover have "mset (nm_Pages m) = image_mset nav_page (filter_mset (\<lambda>p. nav_mod p = ?k) (mset paths))"
      using val [OF Some] Some by (simp add: m map_get_def)
    ultimately show ?thesis by simp
  qed
  have "\<forall>pg\<in>set (nm_Pages m). nav_mod (nv_Path pg) = ?k"
  proof (cases "map_of bm ?k")
    case (Some v)
    then show ?thesis using val [OF Some] by (auto simp: m map_get_def nav_page_def)
  qed (simp add: m map_get_def)
  with inv pages show ?thesis
    by (auto simp: nav_inv_def map_of_del add.assoc split: if_splits)
qed

lemma nav_nodes_inv: "nav_nodes dec c ns bm out s = ((out', bm'), s') \<Longrightarrow> nav_inv paths bm out \<Longrightarrow> nav_inv paths bm' out'"
proof (induction dec c ns bm out s rule: nav_nodes.induct)
  case (2 dec c n0 ns bm out s)
  obtain r s1 where g: "cs_GetNode c (nd_ID n0) s = (r, s1)" by fastforce
  let ?n = "case r of Inr full \<Rightarrow> full | Inl _ \<Rightarrow> n0"
  let ?m = "\<lparr>nm_Slug = nd_Slug ?n, nm_Title = (if nd_Title ?n = [] then nd_Slug ?n else nd_Title ?n),
      nm_Description = moduleDescription dec (nd_Data ?n), nm_Pages = map_get [] bm (nd_Slug ?n)\<rparr>"
  have "nav_inv paths (filter (\<lambda>(k, _). k \<noteq> nd_Slug ?n) bm) (out @ [?m])"
    using nav_inv_step [OF "2.prems"(2), of ?m] by simp
  then show ?case using "2.IH" [OF g [symmetric] refl refl] "2.prems"(1) g by (auto simp: Let_def)
qed simp

lemma nav_pages_inv:
  "nav_pages dec c pages bm out s = (Inr (out', bm'), s') \<Longrightarrow> nav_inv paths bm out \<Longrightarrow> nav_inv paths bm' out'"
proof (induction dec c pages bm out s rule: nav_pages.induct)
  case (2 dec c page pages bm out s)
  then show ?case using nav_nodes_inv
    by (fastforce split: prod.splits sum.splits if_splits)
qed simp

text \<open>C14 The navigation page shows every published page once, whatever the store answers about its
  modules: under the module whose slug is the first segment of its path, or among the orphans.\<close>

theorem nav_shows_every_page_once:
  assumes "buildNav dec c s = (Inr v, s')" and "cs_ListPagePaths c s = (Inr paths, s1)"
  shows "mset (map nv_Path (concat (map nm_Pages (nv_Modules v)) @ nv_Orphans v)) = mset paths \<and>
    (\<forall>m\<in>set (nv_Modules v). \<forall>pg\<in>set (nm_Pages m). nav_mod (nv_Path pg) = nm_Slug m)"
proof -
  obtain mods bm s2 where n: "nav_pages dec c [1..20] (by_mod paths) [] s1 = (Inr (mods, bm), s2)"
    and v: "v = \<lparr>nv_Modules = mods, nv_Orphans = map nav_page (filter (\<lambda>p. map_of bm (nav_mod p) \<noteq> None) paths)\<rparr>"
    using assms by (auto simp: buildNav_def split: prod.splits sum.splits)
  note inv = nav_pages_inv [OF n nav_inv_start]
  then have "mset (concat (map nm_Pages mods)) + image_mset nav_page (filter_mset (\<lambda>p. map_of bm (nav_mod p) \<noteq> None) (mset paths)) =
       image_mset nav_page (mset paths)" by (simp add: nav_inv_def)
  from arg_cong [OF this, of "image_mset nv_Path"] inv show ?thesis
    by (simp add: v nav_inv_def nav_page_def multiset.map_comp comp_def)
qed

section \<open>What the migration needs of a store\<close>

locale content_reads =
  fixes c :: "'s ContentStore" and ok :: "'s \<Rightarrow> bool" and live :: "'s \<Rightarrow> tree" and kids_of :: "int \<Rightarrow> string \<Rightarrow> 's \<Rightarrow> node list"
  assumes list_page: "ok s \<Longrightarrow> (int i + 1) * 100 < 2 ^ 63 \<Longrightarrow>
      cs_ListChildren c p ty (int i + 1) 100 s =
        (Inr \<lparr>np_Items = take 100 (drop (i * 100) (kids_of p ty s)), np_Page = int i + 1, np_PageSize = 100,
              np_Total = int (length (kids_of p ty s))\<rparr>, s)"
    and kids_live: "ok s \<Longrightarrow> set (kids_of p ty s) = {n. \<exists>k. live s k = Some n \<and> nd_ParentID n = p \<and> nd_Type n = ty}"
    and kids_once: "ok s \<Longrightarrow> distinct (map nd_ID (kids_of p ty s))"
    and kids_few: "ok s \<Longrightarrow> int (length (kids_of p ty s)) < 2 ^ 62"
    and live_id: "ok s \<Longrightarrow> live s k = Some n \<Longrightarrow> nd_ID n = k \<and> 1 \<le> k"
begin

text \<open>The loop over the pages ends, and with all the children.\<close>

lemma all_nodes_from:
  assumes "ok s" and "i * 100 \<le> length (kids_of p ty s)"
  shows "all_nodes c p ty (int i + 1) (take (i * 100) (kids_of p ty s)) s = Some (Inr (kids_of p ty s), s)"
  using assms(2)
proof (induction "length (kids_of p ty s) - i * 100" arbitrary: i rule: less_induct)
  case less
  let ?ks = "kids_of p ty s"
  have few: "int (length ?ks) < 2 ^ 62" using kids_few [OF assms(1)] .
  then have i: "(int i + 1) * 100 < 2 ^ 63" using less.prems by simp
  have w: "wrap64 ((int i + 1) * 100) = (int i + 1) * 100" "wrap64 (int i + 1 + 1) = int (Suc i) + 1"
    using i by (simp_all add: wrap64_id)
  have app: "take (i * 100) ?ks @ take 100 (drop (i * 100) ?ks) = take (Suc i * 100) ?ks"
    by (simp only: mult_Suc add.commute [of 100] take_add)
  show ?case
  proof (cases "length ?ks \<le> Suc i * 100")
    case True
    have all: "int (length ?ks) \<le> (int i + 1) * 100" using True by simp
    have whole: "take (Suc i * 100) ?ks = ?ks" using True by simp
    show ?thesis
      by (subst all_nodes.simps) (simp only: list_page [OF assms(1) i] w app whole all prod.case sum.case node_page.simps simp_thms if_True)
  next
    case False
    have "take 100 (drop (i * 100) ?ks) \<noteq> []" "\<not> int (length ?ks) \<le> (int i + 1) * 100" using False by auto
    moreover have "all_nodes c p ty (int (Suc i) + 1) (take (Suc i * 100) ?ks) s = Some (Inr ?ks, s)"
      using False by (intro less.hyps) auto
    ultimately show ?thesis
      by (subst all_nodes.simps) (simp only: list_page [OF assms(1) i] w app prod.case sum.case node_page.simps if_False if_not_P simp_thms)
  qed
qed

lemma all_nodes_kids: "ok s \<Longrightarrow> all_nodes c p ty 1 [] s = Some (Inr (kids_of p ty s), s)"
  using all_nodes_from [of s 0 p ty] by simp

end

locale content_moves = content_reads c ok live kids_of
  for c :: "'s ContentStore" and ok live kids_of +
  assumes move: "ok s \<Longrightarrow> live s i = Some n \<Longrightarrow>
      cs_MoveNode c i p s = (Inl Conflict, s) \<or>
      (\<exists>s'. cs_MoveNode c i p s = (Inr (), s') \<and> ok s' \<and> live s' = (live s)(i \<mapsto> n\<lparr>nd_ParentID := p\<rparr>))"
    and delete: "ok s \<Longrightarrow> live s i \<noteq> None \<Longrightarrow>
      \<exists>k s'. cs_DeleteNode c i s = (Inr k, s') \<and> ok s' \<and> live s' = live s |` (- subtree (live s) i)"

section \<open>Trees with lists\<close>

text \<open>The old shape: modules, lists in modules, details in modules or lists, blocks in details.\<close>

definition legacy_node :: "tree \<Rightarrow> node \<Rightarrow> bool" where
  "legacy_node T n \<longleftrightarrow>
     nd_Type n = NodeModule \<and> nd_ParentID n = 0 \<or>
     nd_Type n = legacyList \<and> (\<exists>m. T (nd_ParentID n) = Some m \<and> nd_Type m = NodeModule) \<or>
     nd_Type n = NodeDetail \<and> (\<exists>m. T (nd_ParentID n) = Some m \<and> (nd_Type m = NodeModule \<or> nd_Type m = legacyList)) \<or>
     nd_Type n = NodeBlock \<and> (\<exists>m. T (nd_ParentID n) = Some m \<and> nd_Type m = NodeDetail)"

definition legacy_tree :: "tree \<Rightarrow> bool" where
  "legacy_tree T \<longleftrightarrow> (\<forall>k n. T k = Some n \<longrightarrow> legacy_node T n)"

lemma types: "NodeModule \<noteq> legacyList" "NodeDetail \<noteq> legacyList" "NodeBlock \<noteq> legacyList" "NodeModule \<noteq> NodeDetail"
  "NodeModule \<noteq> NodeBlock" "NodeDetail \<noteq> NodeBlock"
  by (simp_all add: legacyList_def NodeModule_def NodeDetail_def NodeBlock_def)

lemmas types_sym = types types [symmetric]

lemma legacyD:
  assumes "legacy_tree T" and "T k = Some n"
  shows "nd_Type n = NodeModule \<Longrightarrow> nd_ParentID n = 0"
    "nd_Type n = legacyList \<Longrightarrow> \<exists>m. T (nd_ParentID n) = Some m \<and> nd_Type m = NodeModule"
    "nd_Type n = NodeDetail \<Longrightarrow> \<exists>m. T (nd_ParentID n) = Some m \<and> (nd_Type m = NodeModule \<or> nd_Type m = legacyList)"
    "T (nd_ParentID n) = Some p \<Longrightarrow> nd_Type p = legacyList \<Longrightarrow> nd_ParentID n \<noteq> 0 \<Longrightarrow> nd_Type n = NodeDetail"
proof -
  have n: "legacy_node T n" using assms by (simp add: legacy_tree_def)
  show "nd_Type n = NodeModule \<Longrightarrow> nd_ParentID n = 0"
    "nd_Type n = legacyList \<Longrightarrow> \<exists>m. T (nd_ParentID n) = Some m \<and> nd_Type m = NodeModule"
    "nd_Type n = NodeDetail \<Longrightarrow> \<exists>m. T (nd_ParentID n) = Some m \<and> (nd_Type m = NodeModule \<or> nd_Type m = legacyList)"
    using n types_sym by (auto simp: legacy_node_def)
  show "nd_Type n = NodeDetail" if "T (nd_ParentID n) = Some p" "nd_Type p = legacyList" "nd_ParentID n \<noteq> 0"
    using n that types_sym by (auto simp: legacy_node_def)
qed

text \<open>What the migration may do to a tree: details leave lists for the module above, lists go.\<close>

definition flat_rel :: "tree \<Rightarrow> tree \<Rightarrow> bool" where
  "flat_rel T0 T \<longleftrightarrow> dom T \<subseteq> dom T0 \<and> (\<forall>k n. T0 k = Some n \<longrightarrow>
     T k = Some n \<or>
     nd_Type n = legacyList \<and> T k = None \<or>
     nd_Type n = NodeDetail \<and>
       (\<exists>l. T0 (nd_ParentID n) = Some l \<and> nd_Type l = legacyList \<and> T k = Some (n\<lparr>nd_ParentID := nd_ParentID l\<rparr>)))"

lemma flat_relD:
  assumes "flat_rel T0 T" and "T0 k = Some n"
  shows "T k = Some n \<or> nd_Type n = legacyList \<and> T k = None \<or>
     nd_Type n = NodeDetail \<and>
       (\<exists>l. T0 (nd_ParentID n) = Some l \<and> nd_Type l = legacyList \<and> T k = Some (n\<lparr>nd_ParentID := nd_ParentID l\<rparr>))"
  using assms unfolding flat_rel_def by blast

lemma flat_rel_refl: "flat_rel T T"
  by (simp add: flat_rel_def)

lemma flat_rel_live:
  assumes "flat_rel T0 T" and "T k = Some n"
  obtains n0 where "T0 k = Some n0" "nd_Type n = nd_Type n0" "nd_Type n0 \<noteq> NodeDetail \<Longrightarrow> n = n0"
  using assms by (fastforce simp: flat_rel_def dom_def)

text \<open>The nodes that the steps for the lists \<open>L\<close> may change.\<close>

definition frame :: "int set \<Rightarrow> tree \<Rightarrow> tree \<Rightarrow> bool" where
  "frame L T T' \<longleftrightarrow> dom T' \<subseteq> dom T \<and>
     (\<forall>k. T' k \<noteq> T k \<longrightarrow> k \<in> L \<or> (\<exists>d. T k = Some d \<and> nd_Type d = NodeDetail \<and> nd_ParentID d \<in> L))"

lemma frame_refl: "frame L T T"
  by (simp add: frame_def)

lemma frameD: "frame L T T' \<Longrightarrow> T k = Some n \<Longrightarrow> nd_Type n \<noteq> NodeDetail \<Longrightarrow> k \<notin> L \<Longrightarrow> T' k = T k"
  unfolding frame_def by (metis option.inject)

lemma frame_trans: "frame L T T1 \<Longrightarrow> frame M T1 T2 \<Longrightarrow> frame (L \<union> M) T T2"
  unfolding frame_def by (metis UnCI subset_trans)

lemma frame_mono: "frame L T T' \<Longrightarrow> L \<subseteq> M \<Longrightarrow> frame M T T'"
  unfolding frame_def by blast

text \<open>A list is settled when it is gone or a detail had to stay in it.\<close>

definition settled :: "tree \<Rightarrow> int \<Rightarrow> bool" where
  "settled T l \<longleftrightarrow> T l = None \<or> (\<exists>k d. T k = Some d \<and> nd_Type d = NodeDetail \<and> nd_ParentID d = l)"

lemma settled_frame:
  assumes "settled T l" and "frame L T T'" and "l \<notin> L" and "legacy_tree T" and "\<And>x. x \<in> L \<Longrightarrow> T x = None \<or> (\<exists>n. T x = Some n \<and> nd_Type n = legacyList)"
  shows "settled T' l"
proof (cases "T l = None")
  case True
  then show ?thesis using assms(2) by (auto simp: settled_def frame_def dom_def)
next
  case False
  then obtain k d where d: "T k = Some d" "nd_Type d = NodeDetail" "nd_ParentID d = l" using assms(1) by (auto simp: settled_def)
  then have "k \<notin> L" using assms(5) types by force
  then have "T' k = T k" using assms(2,3) d unfolding frame_def by (metis option.inject)
  then show ?thesis using d by (auto simp: settled_def)
qed

lemma move_tree:
  assumes rel: "flat_rel T0 T" and leg0: "legacy_tree T0" and leg: "legacy_tree T"
    and d: "T i = Some d" "nd_Type d = NodeDetail" "T (nd_ParentID d) = Some l" "nd_Type l = legacyList"
  shows "flat_rel T0 (T(i \<mapsto> d\<lparr>nd_ParentID := nd_ParentID l\<rparr>))" and "legacy_tree (T(i \<mapsto> d\<lparr>nd_ParentID := nd_ParentID l\<rparr>))"
proof -
  let ?d = "d\<lparr>nd_ParentID := nd_ParentID l\<rparr>"
  obtain d0 where d0: "T0 i = Some d0" "nd_Type d0 = NodeDetail" using flat_rel_live [OF rel d(1)] d(2) by metis
  obtain l0 where "T0 (nd_ParentID d) = Some l0" "nd_Type l = nd_Type l0" "nd_Type l0 \<noteq> NodeDetail \<Longrightarrow> l = l0"
    using flat_rel_live [OF rel d(3)] by metis
  then have l0: "T0 (nd_ParentID d) = Some l" using d(4) types by simp
  have "d = d0"
  proof (rule ccontr)
    assume "d \<noteq> d0"
    then obtain l1 where l1: "T0 (nd_ParentID d0) = Some l1" "nd_Type l1 = legacyList" "d = d0\<lparr>nd_ParentID := nd_ParentID l1\<rparr>"
      using flat_relD [OF rel d0(1)] d(1) by auto
    then have "\<exists>m. T0 (nd_ParentID d) = Some m \<and> nd_Type m = NodeModule" using legacyD(2) [OF leg0 l1(1,2)] by simp
    then show False using l0 d(4) types by simp
  qed
  then have new: "nd_Type d0 = NodeDetail \<and> (\<exists>l. T0 (nd_ParentID d0) = Some l \<and> nd_Type l = legacyList \<and> ?d = d0\<lparr>nd_ParentID := nd_ParentID l\<rparr>)"
    using d0 l0 d(4) by auto
  show "flat_rel T0 (T(i \<mapsto> ?d))"
    unfolding flat_rel_def
  proof (intro conjI allI impI)
    show "dom (T(i \<mapsto> ?d)) \<subseteq> dom T0" using rel d0 by (auto simp: flat_rel_def)
    fix k n assume n: "T0 k = Some n"
    show "(T(i \<mapsto> ?d)) k = Some n \<or> nd_Type n = legacyList \<and> (T(i \<mapsto> ?d)) k = None \<or>
      nd_Type n = NodeDetail \<and> (\<exists>l. T0 (nd_ParentID n) = Some l \<and> nd_Type l = legacyList \<and>
         (T(i \<mapsto> ?d)) k = Some (n\<lparr>nd_ParentID := nd_ParentID l\<rparr>))"
    proof (cases "k = i")
      case True
      then have "n = d0" using n d0 by simp
      with True new show ?thesis by auto
    next
      case False
      with rel n show ?thesis by (simp add: flat_rel_def)
    qed
  qed
  have m: "\<exists>m. T (nd_ParentID l) = Some m \<and> nd_Type m = NodeModule" using legacyD(2) [OF leg d(3,4)] .
  have ty: "\<exists>x. (T(i \<mapsto> ?d)) k = Some x \<and> nd_Type x = nd_Type y" if "T k = Some y" for k y
    using that d(1) by auto
  show "legacy_tree (T(i \<mapsto> ?d))"
    unfolding legacy_tree_def
  proof (intro allI impI)
    fix k n assume n: "(T(i \<mapsto> ?d)) k = Some n"
    show "legacy_node (T(i \<mapsto> ?d)) n"
    proof (cases "k = i")
      case True
      then have "n = ?d" using n by simp
      then show ?thesis using d(2) m ty unfolding legacy_node_def by (metis node.select_convs(2,3) node.surjective node.update_convs(2))
    next
      case False
      then have "legacy_node T n" using n leg by (auto simp: legacy_tree_def)
      then show ?thesis using ty unfolding legacy_node_def by metis
    qed
  qed
qed

section \<open>The migration\<close>

context content_moves
begin

definition sane :: "tree \<Rightarrow> 's \<Rightarrow> bool" where
  "sane T0 s \<longleftrightarrow> ok s \<and> legacy_tree (live s) \<and> flat_rel T0 (live s)"

lemma move_details_spec:
  assumes "legacy_tree T0" and "sane T0 s" and "live s l = Some ln" and "nd_Type ln = legacyList" and "nd_ParentID ln = m"
    and "\<And>d. d \<in> set ds \<Longrightarrow> live s (nd_ID d) = Some d \<and> nd_Type d = NodeDetail \<and> nd_ParentID d = l"
    and "distinct (map nd_ID ds)" and "fl_err f = None" and "0 \<le> left"
  shows "\<exists>f' left' s'. move_details c m ds f left s = ((f', left'), s') \<and> fl_err f' = None \<and> sane T0 s' \<and>
    frame {l} (live s) (live s') \<and> live s' l = Some ln \<and> left \<le> left' \<and>
    (\<forall>k. k \<notin> nd_ID ` set ds \<longrightarrow> live s' k = live s k) \<and>
    (left' = left \<longrightarrow> (\<forall>d\<in>set ds. live s' (nd_ID d) = Some (d\<lparr>nd_ParentID := m\<rparr>))) \<and>
    (left' \<noteq> left \<longrightarrow> (\<exists>d\<in>set ds. live s' (nd_ID d) = Some d)) \<and>
    fl_moved f' + fl_skipped f' = fl_moved f + fl_skipped f + int (length ds) \<and>
    fl_skipped f' = fl_skipped f + (left' - left)"
  using assms(2-)
proof (induction ds arbitrary: f left s)
  case Nil
  then show ?case by (simp add: frame_refl)
next
  case (Cons d ds)
  have oks: "ok s" "legacy_tree (live s)" "flat_rel T0 (live s)" using Cons.prems(1) by (simp_all add: sane_def)
  have d: "live s (nd_ID d) = Some d" "nd_Type d = NodeDetail" "nd_ParentID d = l" using Cons.prems(5) [of d] by simp_all
  have nl: "nd_ID d \<noteq> l" using d(1,2) Cons.prems(2,3) types by auto
  have fresh: "nd_ID d \<notin> nd_ID ` set ds" "distinct (map nd_ID ds)" using Cons.prems(6) by simp_all
  from move [OF oks(1) d(1), of m] show ?case
  proof
    assume conf: "cs_MoveNode c (nd_ID d) m s = (Inl Conflict, s)"
    let ?f = "f\<lparr>fl_skipped := fl_skipped f + 1\<rparr>"
    have ih: "\<exists>f' left' s'. move_details c m ds ?f (left + 1) s = ((f', left'), s') \<and> fl_err f' = None \<and> sane T0 s' \<and>
      frame {l} (live s) (live s') \<and> live s' l = Some ln \<and> left + 1 \<le> left' \<and>
      (\<forall>k. k \<notin> nd_ID ` set ds \<longrightarrow> live s' k = live s k) \<and>
      (left' = left + 1 \<longrightarrow> (\<forall>d\<in>set ds. live s' (nd_ID d) = Some (d\<lparr>nd_ParentID := m\<rparr>))) \<and>
      (left' \<noteq> left + 1 \<longrightarrow> (\<exists>d\<in>set ds. live s' (nd_ID d) = Some d)) \<and>
      fl_moved f' + fl_skipped f' = fl_moved ?f + fl_skipped ?f + int (length ds) \<and>
      fl_skipped f' = fl_skipped ?f + (left' - (left + 1))"
      by (rule Cons.IH [OF Cons.prems(1-4) _ fresh(2)]) (use Cons.prems in auto)
    then obtain f' left' s' where r: "move_details c m ds ?f (left + 1) s = ((f', left'), s')" "fl_err f' = None" "sane T0 s'"
      "frame {l} (live s) (live s')" "live s' l = Some ln" "left + 1 \<le> left'" "\<forall>k. k \<notin> nd_ID ` set ds \<longrightarrow> live s' k = live s k"
      "fl_moved f' + fl_skipped f' = fl_moved ?f + fl_skipped ?f + int (length ds)" "fl_skipped f' = fl_skipped ?f + (left' - (left + 1))"
      by blast
    have "live s' (nd_ID d) = Some d" using r(7) fresh(1) d(1) by simp
    then show ?thesis using r conf by (auto intro!: exI [of _ f'] exI [of _ left'] exI [of _ s'])
  next
    assume "\<exists>s1. cs_MoveNode c (nd_ID d) m s = (Inr (), s1) \<and> ok s1 \<and> live s1 = (live s)(nd_ID d \<mapsto> d\<lparr>nd_ParentID := m\<rparr>)"
    then obtain s1 where s1: "cs_MoveNode c (nd_ID d) m s = (Inr (), s1)" "ok s1"
      "live s1 = (live s)(nd_ID d \<mapsto> d\<lparr>nd_ParentID := m\<rparr>)" by blast
    have l: "live s (nd_ParentID d) = Some ln" using Cons.prems(2) d(3) by simp
    have sane1: "sane T0 s1"
      using move_tree [OF oks(3) assms(1) oks(2) d(1,2) l Cons.prems(3)] s1(2,3) Cons.prems(4) by (simp add: sane_def)
    let ?f = "f\<lparr>fl_moved := fl_moved f + 1\<rparr>"
    have ferr: "fl_err ?f = None" using Cons.prems(7) by simp
    have l1: "live s1 l = Some ln" using s1(3) nl Cons.prems(2) by simp
    have ds1: "live s1 (nd_ID x) = Some x \<and> nd_Type x = NodeDetail \<and> nd_ParentID x = l" if "x \<in> set ds" for x
    proof -
      have "nd_ID x \<noteq> nd_ID d" using that fresh(1) by (metis image_eqI)
      then show ?thesis using Cons.prems(5) [of x] that s1(3) by simp
    qed
    obtain f' left' s' where r: "move_details c m ds ?f left s1 = ((f', left'), s')" "fl_err f' = None" "sane T0 s'"
      "frame {l} (live s1) (live s')" "live s' l = Some ln" "left \<le> left'" "\<forall>k. k \<notin> nd_ID ` set ds \<longrightarrow> live s' k = live s1 k"
      "left' = left \<longrightarrow> (\<forall>d\<in>set ds. live s' (nd_ID d) = Some (d\<lparr>nd_ParentID := m\<rparr>))"
      "left' \<noteq> left \<longrightarrow> (\<exists>d\<in>set ds. live s' (nd_ID d) = Some d)"
      "fl_moved f' + fl_skipped f' = fl_moved ?f + fl_skipped ?f + int (length ds)" "fl_skipped f' = fl_skipped ?f + (left' - left)"
      using Cons.IH [OF sane1 l1 Cons.prems(3,4) ds1 fresh(2) ferr Cons.prems(8)] by blast
    have "frame {l} (live s) (live s1)" using d s1(3) by (auto simp: frame_def)
    then have fr: "frame {l} (live s) (live s')" using frame_trans [OF _ r(4)] by (metis Un_absorb)
    have "live s' (nd_ID d) = Some (d\<lparr>nd_ParentID := m\<rparr>)" using r(7) fresh(1) s1(3) by simp
    then show ?thesis using r(1-3,5-) fr s1 by (auto intro!: exI [of _ f'] exI [of _ left'] exI [of _ s'])
  qed
qed

lemma subtree_leaf: "(\<And>k n. T k = Some n \<Longrightarrow> nd_ParentID n \<noteq> i) \<Longrightarrow> subtree T i = {i}"
proof -
  assume leaf: "\<And>k n. T k = Some n \<Longrightarrow> nd_ParentID n \<noteq> i"
  have "x = i" if "(i, x) \<in> (child T)\<^sup>*" for x
    using that
  proof (induction rule: rtrancl_induct)
    case (step y z)
    then show ?case using leaf by (auto simp: child_def)
  qed simp
  then show ?thesis by (auto simp: subtree_def)
qed

lemma drop_list:
  assumes "flat_rel T0 T" and "legacy_tree T" and "T l = Some ln" and "nd_Type ln = legacyList"
    and "\<And>k n. T k = Some n \<Longrightarrow> nd_ParentID n \<noteq> l"
  shows "flat_rel T0 (T(l := None))" and "legacy_tree (T(l := None))"
proof -
  obtain l0 where l0: "T0 l = Some l0" "nd_Type ln = nd_Type l0" using flat_rel_live [OF assms(1,3)] by metis
  show "flat_rel T0 (T(l := None))"
    unfolding flat_rel_def
  proof (intro conjI allI impI)
    show "dom (T(l := None)) \<subseteq> dom T0" using assms(1) by (auto simp: flat_rel_def)
    fix k n assume n: "T0 k = Some n"
    show "(T(l := None)) k = Some n \<or> nd_Type n = legacyList \<and> (T(l := None)) k = None \<or>
      nd_Type n = NodeDetail \<and> (\<exists>l'. T0 (nd_ParentID n) = Some l' \<and> nd_Type l' = legacyList \<and>
         (T(l := None)) k = Some (n\<lparr>nd_ParentID := nd_ParentID l'\<rparr>))"
      using flat_relD [OF assms(1) n] n l0 assms(4) by (cases "k = l") auto
  qed
  show "legacy_tree (T(l := None))"
    unfolding legacy_tree_def
  proof (intro allI impI)
    fix k n assume "(T(l := None)) k = Some n"
    then have n: "T k = Some n" by (simp split: if_splits)
    then have "(T(l := None)) (nd_ParentID n) = T (nd_ParentID n)" using assms(5) by simp
    then show "legacy_node (T(l := None)) n" using n assms(2) by (simp add: legacy_tree_def legacy_node_def)
  qed
qed

text \<open>One list: its details move or stay, and it goes when none stays.\<close>

lemma flat_list_step:
  assumes leg0: "legacy_tree T0" and s: "sane T0 s" and l: "live s l = Some ln" "nd_Type ln = legacyList" "nd_ParentID ln = m"
    and f: "fl_err f = None"
  shows "\<exists>f' left s2. move_details c m (kids_of l NodeDetail s) f 0 s = ((f', left), s2) \<and> fl_err f' = None \<and> sane T0 s2 \<and>
    frame {l} (live s) (live s2) \<and>
    (if left = 0 then \<exists>k s3. cs_DeleteNode c l s2 = (Inr k, s3) \<and> sane T0 s3 \<and> frame {l} (live s) (live s3) \<and> live s3 l = None
     else settled (live s2) l)"
proof -
  have oks: "ok s" "legacy_tree (live s)" "flat_rel T0 (live s)" using s by (simp_all add: sane_def)
  let ?ds = "kids_of l NodeDetail s"
  have ds: "live s (nd_ID d) = Some d \<and> nd_Type d = NodeDetail \<and> nd_ParentID d = l" if "d \<in> set ?ds" for d
    using that kids_live [OF oks(1), of l NodeDetail] live_id [OF oks(1)] by auto
  obtain f' left s2 where r: "move_details c m ?ds f 0 s = ((f', left), s2)" "fl_err f' = None" "sane T0 s2"
    "frame {l} (live s) (live s2)" "live s2 l = Some ln" "\<forall>k. k \<notin> nd_ID ` set ?ds \<longrightarrow> live s2 k = live s k"
    "left = 0 \<longrightarrow> (\<forall>d\<in>set ?ds. live s2 (nd_ID d) = Some (d\<lparr>nd_ParentID := m\<rparr>))"
    "left \<noteq> 0 \<longrightarrow> (\<exists>d\<in>set ?ds. live s2 (nd_ID d) = Some d)"
    using move_details_spec [OF leg0 s l(1,2,3) ds kids_once [OF oks(1)] f order_refl [of "0::int"]] by blast
  have ok2: "ok s2" "legacy_tree (live s2)" "flat_rel T0 (live s2)" using r(3) by (simp_all add: sane_def)
  show ?thesis
  proof (cases "left = 0")
    case False
    then obtain d where "d \<in> set ?ds" "live s2 (nd_ID d) = Some d" using r(8) by blast
    then have "settled (live s2) l" using ds by (auto simp: settled_def)
    then show ?thesis using r False by auto
  next
    case True
    have l0: "l \<noteq> 0" using live_id [OF oks(1) l(1)] by simp
    have ml: "m \<noteq> l" using legacyD(2) [OF oks(2) l(1,2)] l types by auto
    have empty: "nd_ParentID n \<noteq> l" if n: "live s2 k = Some n" for k n
    proof
      assume p: "nd_ParentID n = l"
      then have det: "nd_Type n = NodeDetail" using legacyD(4) [OF ok2(2) n] r(5) l(2) l0 by simp
      show False
      proof (cases "k \<in> nd_ID ` set ?ds")
        case True
        then obtain d where "d \<in> set ?ds" "k = nd_ID d" by blast
        then have "n = d\<lparr>nd_ParentID := m\<rparr>" using r(7) \<open>left = 0\<close> n by auto
        then show False using p ml by simp
      next
        case False
        then have "live s k = Some n" using r(6) n by simp
        then have "n \<in> set ?ds" using det p kids_live [OF oks(1), of l NodeDetail] by auto
        moreover have "nd_ID n = k" using live_id [OF oks(1) \<open>live s k = Some n\<close>] by simp
        ultimately show False using False by blast
      qed
    qed
    have "subtree (live s2) l = {l}" using subtree_leaf [of "live s2" l] empty by blast
    then obtain k s3 where d: "cs_DeleteNode c l s2 = (Inr k, s3)" "ok s3" "live s3 = live s2 |` (- {l})"
      using delete [OF ok2(1), of l] r(5) by auto
    have s3: "live s3 = (live s2)(l := None)" unfolding d(3) by (auto simp: restrict_map_def)
    have "sane T0 s3" using drop_list [OF ok2(3,2) r(5) l(2) empty] d(2) unfolding sane_def s3 by simp
    moreover have "frame {l} (live s2) (live s3)" by (auto simp: frame_def s3)
    then have "frame {l} (live s) (live s3)" using frame_trans [OF r(4)] by (metis Un_absorb)
    ultimately show ?thesis using r(1-4) True d(1) s3 by auto
  qed
qed

lemma flat_lists_spec:
  assumes "legacy_tree T0" and "sane T0 s" and "fl_err f = None"
    and "\<And>l. l \<in> set ls \<Longrightarrow> live s (nd_ID l) = Some l \<and> nd_Type l = legacyList \<and> nd_ParentID l = m"
    and "distinct (map nd_ID ls)"
  shows "\<exists>f' s'. flat_lists c m ls f s = Some (f', s') \<and> fl_err f' = None \<and> sane T0 s' \<and>
    frame (nd_ID ` set ls) (live s) (live s') \<and> (\<forall>l\<in>set ls. settled (live s') (nd_ID l))"
  using assms(2-)
proof (induction ls arbitrary: f s)
  case Nil
  then show ?case by (simp add: frame_refl)
next
  case (Cons l ls)
  have oks: "ok s" "legacy_tree (live s)" using Cons.prems(1) by (simp_all add: sane_def)
  have l: "live s (nd_ID l) = Some l" "nd_Type l = legacyList" "nd_ParentID l = m" using Cons.prems(3) [of l] by simp_all
  have fresh: "nd_ID l \<notin> nd_ID ` set ls" "distinct (map nd_ID ls)" using Cons.prems(4) by simp_all
  obtain f1 s1 where step: "fl_err f1 = None" "sane T0 s1" "frame {nd_ID l} (live s) (live s1)" "settled (live s1) (nd_ID l)"
    and eq: "flat_lists c m (l # ls) f s = flat_lists c m ls f1 s1"
  proof -
    obtain f' left s2 where r: "move_details c m (kids_of (nd_ID l) NodeDetail s) f 0 s = ((f', left), s2)" "fl_err f' = None"
      "sane T0 s2" "frame {nd_ID l} (live s) (live s2)"
      "if left = 0 then \<exists>k s3. cs_DeleteNode c (nd_ID l) s2 = (Inr k, s3) \<and> sane T0 s3 \<and> frame {nd_ID l} (live s) (live s3) \<and> live s3 (nd_ID l) = None
       else settled (live s2) (nd_ID l)"
      using flat_list_step [OF assms(1) Cons.prems(1) l Cons.prems(2)] by blast
    show thesis
    proof (cases "left = 0")
      case True
      then obtain k s3 where "cs_DeleteNode c (nd_ID l) s2 = (Inr k, s3)" "sane T0 s3" "frame {nd_ID l} (live s) (live s3)"
        "live s3 (nd_ID l) = None" using r(5) by auto
      then show thesis using that [of f' s3] r True by (simp add: all_nodes_kids [OF oks(1)] settled_def)
    next
      case False
      then show thesis using that [of f' s2] r by (simp add: all_nodes_kids [OF oks(1)])
    qed
  qed
  have same: "live s1 (nd_ID x) = Some x \<and> nd_Type x = legacyList \<and> nd_ParentID x = m" if "x \<in> set ls" for x
  proof -
    have x: "live s (nd_ID x) = Some x" "nd_Type x = legacyList" "nd_ParentID x = m" using Cons.prems(3) [of x] that by simp_all
    have "nd_ID x \<noteq> nd_ID l" using fresh(1) that by (metis image_eqI)
    then have "live s1 (nd_ID x) = live s (nd_ID x)" using frameD [OF step(3) x(1)] x(2) types by simp
    then show ?thesis using x by simp
  qed
  obtain f' s' where r: "flat_lists c m ls f1 s1 = Some (f', s')" "fl_err f' = None" "sane T0 s'"
    "frame (nd_ID ` set ls) (live s1) (live s')" "\<forall>l\<in>set ls. settled (live s') (nd_ID l)"
    using Cons.IH [OF step(2,1) same fresh(2)] by blast
  have "settled (live s') (nd_ID l)"
    by (rule settled_frame [OF step(4) r(4) fresh(1)]) (use step(2) same in \<open>auto simp: sane_def\<close>)
  moreover have "frame (nd_ID ` set (l # ls)) (live s) (live s')" using frame_trans [OF step(3) r(4)] by simp
  ultimately show ?case using r eq by auto
qed

lemma flat_mods_spec:
  assumes "legacy_tree T0" and "sane T0 s" and "fl_err f = None"
    and "\<And>m. m \<in> set ms \<Longrightarrow> live s (nd_ID m) = Some m \<and> nd_Type m = NodeModule" and "distinct (map nd_ID ms)"
  shows "\<exists>f' s'. flat_mods c ms f s = Some (f', s') \<and> fl_err f' = None \<and> sane T0 s' \<and>
    frame {k. \<exists>l. live s k = Some l \<and> nd_Type l = legacyList \<and> nd_ParentID l \<in> nd_ID ` set ms} (live s) (live s') \<and>
    (\<forall>k\<in>{k. \<exists>l. live s k = Some l \<and> nd_Type l = legacyList \<and> nd_ParentID l \<in> nd_ID ` set ms}. settled (live s') k)"
  using assms(2-)
proof (induction ms arbitrary: f s)
  case Nil
  then show ?case by (simp add: frame_refl)
next
  case (Cons m ms)
  have oks: "ok s" "legacy_tree (live s)" using Cons.prems(1) by (simp_all add: sane_def)
  let ?ls = "kids_of (nd_ID m) legacyList s"
  let ?L = "\<lambda>s ms. {k. \<exists>l. live s k = Some l \<and> nd_Type l = legacyList \<and> nd_ParentID l \<in> nd_ID ` set ms}"
  have ls: "live s (nd_ID l) = Some l \<and> nd_Type l = legacyList \<and> nd_ParentID l = nd_ID m" if "l \<in> set ?ls" for l
    using that kids_live [OF oks(1), of "nd_ID m" legacyList] live_id [OF oks(1)] by auto
  have L: "nd_ID ` set ?ls = ?L s [m]"
    using ls kids_live [OF oks(1), of "nd_ID m" legacyList] live_id [OF oks(1)] by (auto simp: image_iff) metis
  obtain f1 s1 where r1: "flat_lists c (nd_ID m) ?ls f s = Some (f1, s1)" "fl_err f1 = None" "sane T0 s1"
    "frame (?L s [m]) (live s) (live s1)" "\<forall>k\<in>?L s [m]. settled (live s1) k"
    using flat_lists_spec [OF assms(1) Cons.prems(1,2) ls kids_once [OF oks(1)]] unfolding L [symmetric] by blast
  have fresh: "nd_ID m \<notin> nd_ID ` set ms" "distinct (map nd_ID ms)" using Cons.prems(4) by simp_all
  have keep: "live s1 k = live s k" if "live s k = Some n" "nd_Type n \<noteq> NodeDetail" "k \<notin> ?L s [m]" for k n
    by (rule frameD [OF r1(4) that])
  have ms1: "live s1 (nd_ID x) = Some x \<and> nd_Type x = NodeModule" if "x \<in> set ms" for x
    using Cons.prems(3) [of x] that keep [of "nd_ID x" x] types by auto
  have L1: "?L s1 ms = ?L s ms"
  proof -
    have "k \<in> ?L s1 ms \<Longrightarrow> k \<in> ?L s ms" for k
    proof -
      assume "k \<in> ?L s1 ms"
      then obtain l where l: "live s1 k = Some l" "nd_Type l = legacyList" "nd_ParentID l \<in> nd_ID ` set ms" by blast
      have "live s k \<noteq> None" using r1(4) l(1) by (auto simp: frame_def dom_def)
      then obtain n where n: "live s k = Some n" by blast
      obtain n0 where n0: "T0 k = Some n0" "nd_Type n = nd_Type n0" "nd_Type n0 \<noteq> NodeDetail \<Longrightarrow> n = n0"
        using flat_rel_live [of T0 "live s" k n] Cons.prems(1) n by (auto simp: sane_def)
      have "nd_Type l = nd_Type n0" "nd_Type n0 \<noteq> NodeDetail \<Longrightarrow> l = n0"
        using flat_rel_live [of T0 "live s1" k l] r1(3) l(1) n0(1) by (auto simp: sane_def)
      then show "k \<in> ?L s ms" using n n0 l types by auto
    qed
    moreover have "k \<in> ?L s ms \<Longrightarrow> k \<in> ?L s1 ms" for k
    proof -
      assume "k \<in> ?L s ms"
      then obtain l where l: "live s k = Some l" "nd_Type l = legacyList" "nd_ParentID l \<in> nd_ID ` set ms" by blast
      then have "k \<notin> ?L s [m]" using fresh(1) by auto
      then show "k \<in> ?L s1 ms" using keep [OF l(1)] l types by auto
    qed
    ultimately show ?thesis by blast
  qed
  obtain f' s' where r: "flat_mods c ms f1 s1 = Some (f', s')" "fl_err f' = None" "sane T0 s'"
    "frame (?L s ms) (live s1) (live s')" "\<forall>k\<in>?L s ms. settled (live s') k"
    using Cons.IH [OF r1(3,2) ms1 fresh(2)] unfolding L1 by blast
  have split: "?L s (m # ms) = ?L s [m] \<union> ?L s ms" by auto
  have "settled (live s') k" if "k \<in> ?L s [m]" for k
  proof (rule settled_frame [OF _ r(4)])
    show "settled (live s1) k" using r1(5) that by blast
    show "k \<notin> ?L s ms" using that fresh(1) by auto
    show "legacy_tree (live s1)" using r1(3) by (simp add: sane_def)
    fix x assume "x \<in> ?L s ms"
    then have "x \<in> ?L s1 ms" unfolding L1 .
    then show "live s1 x = None \<or> (\<exists>n. live s1 x = Some n \<and> nd_Type n = legacyList)" by blast
  qed
  then have "\<forall>k\<in>?L s (m # ms). settled (live s') k" unfolding split using r(5) by blast
  moreover have "frame (?L s (m # ms)) (live s) (live s')" unfolding split by (rule frame_trans [OF r1(4) r(4)])
  moreover have "flat_mods c (m # ms) f s = Some (f', s')" using r1 r by (simp add: all_nodes_kids [OF oks(1)])
  ultimately show ?case using r(2,3) by blast
qed

lemma flatten_spec:
  assumes "ok s" and "legacy_tree (live s)"
  shows "\<exists>f s'. flattenLists c s = Some (f, s') \<and> fl_err f = None \<and> ok s' \<and> legacy_tree (live s') \<and>
    flat_rel (live s) (live s') \<and>
    (\<forall>l n. live s' l = Some n \<and> nd_Type n = legacyList \<longrightarrow>
       (\<exists>k d. live s' k = Some d \<and> nd_Type d = NodeDetail \<and> nd_ParentID d = l))"
proof -
  let ?ms = "kids_of 0 NodeModule s"
  have s: "sane (live s) s" using assms by (simp add: sane_def flat_rel_refl)
  have ms: "live s (nd_ID m) = Some m \<and> nd_Type m = NodeModule" if "m \<in> set ?ms" for m
    using that kids_live [OF assms(1), of 0 NodeModule] live_id [OF assms(1)] by auto
  obtain f s' where r: "flat_mods c ?ms \<lparr>fl_moved = 0, fl_skipped = 0, fl_err = None\<rparr> s = Some (f, s')" "fl_err f = None"
    "sane (live s) s'"
    "\<forall>k\<in>{k. \<exists>l. live s k = Some l \<and> nd_Type l = legacyList \<and> nd_ParentID l \<in> nd_ID ` set ?ms}. settled (live s') k"
    using flat_mods_spec [OF assms(2) s flat.select_convs(3) ms kids_once [OF assms(1)]] by blast
  have "\<exists>k d. live s' k = Some d \<and> nd_Type d = NodeDetail \<and> nd_ParentID d = l"
    if l: "live s' l = Some n" "nd_Type n = legacyList" for l n
  proof -
    obtain n0 where "live s l = Some n0" "nd_Type n = nd_Type n0"
      using flat_rel_live [of "live s" "live s'" l n] r(3) l by (auto simp: sane_def)
    then have n0: "live s l = Some n0" "nd_Type n0 = legacyList" using l(2) by simp_all
    obtain m where m: "live s (nd_ParentID n0) = Some m" "nd_Type m = NodeModule" using legacyD(2) [OF assms(2) n0] by blast
    have "m \<in> set ?ms" using m legacyD(1) [OF assms(2) m] kids_live [OF assms(1), of 0 NodeModule] by auto
    then have "nd_ParentID n0 \<in> nd_ID ` set ?ms" using live_id [OF assms(1) m(1)] by (metis image_eqI)
    then have "settled (live s') l" using r(4) n0 by blast
    then show ?thesis using l(1) by (simp add: settled_def)
  qed
  then show ?thesis using r(1-3) by (auto simp: flattenLists_def all_nodes_kids [OF assms(1)] sane_def)
qed

end

section \<open>The memory store\<close>

definition mem_sound :: "memContent \<Rightarrow> bool" where
  "mem_sound s \<longleftrightarrow> nodes_inv s \<and> mc_nextID s < 2 ^ 62"

lemma children_distinct: "nodes_inv s \<Longrightarrow> distinct (map nd_ID (children_of p ty s))"
proof -
  assume "nodes_inv s"
  then have "sorted_wrt (>) (map nd_ID (children_of p ty s))" using children_of_sorted by (simp add: sorted_wrt_map)
  then show ?thesis by (metis distinct_rev sorted_wrt_rev strict_sorted_iff)
qed

lemma children_few:
  assumes "mem_sound s"
  shows "int (length (children_of p ty s)) < 2 ^ 62"
proof -
  have inv: "nodes_inv s" and n: "mc_nextID s < 2 ^ 62" using assms by (simp_all add: mem_sound_def)
  have "distinct (map nd_ID (children_of p ty s))" by (rule children_distinct [OF inv])
  then have "length (children_of p ty s) = card (set (map nd_ID (children_of p ty s)))" by (metis distinct_card length_map)
  also have "\<dots> \<le> card {1..mc_nextID s}"
    using nodes_invD(3) [OF inv] by (intro card_mono) (auto simp: children_of_set tree_of_Some)
  finally show ?thesis using n nodes_invD(2) [OF inv] by simp
qed

interpretation mc: content_moves "mem_Content valid now" mem_sound "\<lambda>s. tree_of (mc_nodes s)" children_of
proof
  show "cs_ListChildren (mem_Content valid now) p ty (int i + 1) 100 s =
      (Inr \<lparr>np_Items = take 100 (drop (i * 100) (children_of p ty s)), np_Page = int i + 1, np_PageSize = 100,
            np_Total = int (length (children_of p ty s))\<rparr>, s)"
    if "(int i + 1) * 100 < 2 ^ 63" for s i p ty
    using ListChildren_page [of 100 i p ty s] that by (simp add: mem_Content_def)
  show "set (children_of p ty s) = {n. \<exists>k. tree_of (mc_nodes s) k = Some n \<and> nd_ParentID n = p \<and> nd_Type n = ty}" for s p ty
    by (rule children_of_set)
  show "mem_sound s \<Longrightarrow> distinct (map nd_ID (children_of p ty s))" for s p ty by (simp add: mem_sound_def children_distinct)
  show "mem_sound s \<Longrightarrow> int (length (children_of p ty s)) < 2 ^ 62" for s p ty by (rule children_few)
  show "nd_ID n = k \<and> 1 \<le> k" if "mem_sound s" "tree_of (mc_nodes s) k = Some n" for s k n
    using that nodes_invD(3) by (auto simp: mem_sound_def tree_of_Some)
  show "cs_MoveNode (mem_Content valid now) i p s = (Inl Conflict, s) \<or>
      (\<exists>s'. cs_MoveNode (mem_Content valid now) i p s = (Inr (), s') \<and> mem_sound s' \<and>
        tree_of (mc_nodes s') = (tree_of (mc_nodes s))(i \<mapsto> n\<lparr>nd_ParentID := p\<rparr>))"
    if s: "mem_sound s" "tree_of (mc_nodes s) i = Some n" for s i n p
  proof -
    obtain r s' where r: "MoveNode i p s = (r, s')" by fastforce
    show ?thesis
    proof (cases r)
      case (Inl e)
      have "isOk (liveLocked s i)" using s(2) by (simp add: liveLocked_tree)
      then have "e = Conflict" using r Inl by (auto simp: MoveNode_def isOk_iff split: if_splits)
      then show ?thesis using r Inl MoveNode_error [of i p s e s'] by (simp add: mem_Content_def)
    next
      case (Inr u)
      have "mc_nextID s' = mc_nextID s" using r by (auto simp: MoveNode_def upd_def split: sum.splits if_splits option.splits)
      then show ?thesis using MoveNode_spec [of s i p u s'] r Inr s by (auto simp: mem_Content_def mem_sound_def)
    qed
  qed
  show "\<exists>k s'. cs_DeleteNode (mem_Content valid now) i s = (Inr k, s') \<and> mem_sound s' \<and>
      tree_of (mc_nodes s') = tree_of (mc_nodes s) |` (- subtree (tree_of (mc_nodes s)) i)"
    if s: "mem_sound s" "tree_of (mc_nodes s) i \<noteq> None" for s i
  proof -
    obtain r s' where r: "DeleteNode i s = (r, s')" by fastforce
    obtain k where k: "r = Inr k" using DeleteNode_error [of i s _ s'] r s(2) by (cases r) auto
    have "mc_nextID s' = mc_nextID s" using r by (auto simp: DeleteNode_def split: sum.splits prod.splits)
    then show ?thesis using DeleteNode_spec [of s i k s'] r k s by (auto simp: mem_Content_def mem_sound_def)
  qed
qed

text \<open>C12 On a store of the old shape (modules, lists, details, blocks) the migration ends without an
  error, and it loses nothing: modules and blocks are unchanged, a detail stays or moves from its
  list to the module of that list, and a list that is left still holds a detail.\<close>

theorem flatten_loses_no_detail:
  assumes "nodes_inv s" and "mc_nextID s < 2 ^ 62" and "legacy_tree (tree_of (mc_nodes s))"
  shows "\<exists>f s'. flattenLists (mem_Content valid now) s = Some (f, s') \<and> fl_err f = None \<and> nodes_inv s' \<and>
    legacy_tree (tree_of (mc_nodes s')) \<and> flat_rel (tree_of (mc_nodes s)) (tree_of (mc_nodes s')) \<and>
    (\<forall>l n. tree_of (mc_nodes s') l = Some n \<and> nd_Type n = legacyList \<longrightarrow>
       (\<exists>k d. tree_of (mc_nodes s') k = Some d \<and> nd_Type d = NodeDetail \<and> nd_ParentID d = l))"
  using mc.flatten_spec [where valid = valid and now = now and s = s] assms unfolding mem_sound_def by blast

definition old_node :: "int \<Rightarrow> int \<Rightarrow> string \<Rightarrow> string \<Rightarrow> int \<times> memNode" where
  "old_node i p ty sl = (i, \<lparr>mn_node = \<lparr>nd_ID = i, nd_ParentID = p, nd_Type = ty, nd_Slug = sl, nd_Title = sl,
     nd_Data = ''{}'', nd_SchemaVersion = 1, nd_CreatedAt = [], nd_UpdatedAt = []\<rparr>, mn_deleted = False, mn_seq = i\<rparr>)"

definition old_store :: memContent where
  "old_store = \<lparr>mc_nextID = 5, mc_nodes = [old_node 1 0 ''module'' ''m'', old_node 2 1 ''list'' ''l'',
     old_node 3 2 ''detail'' ''a'', old_node 4 2 ''detail'' ''b'', old_node 5 1 ''detail'' ''b''],
     mc_pages = [], mc_current = []\<rparr>"

lemma old_store_ok: "nodes_inv old_store" "legacy_tree (tree_of (mc_nodes old_store))"
  by (auto simp: nodes_inv_def old_store_def old_node_def legacy_tree_def legacy_node_def tree_of_def legacyList_def
      NodeModule_def NodeDetail_def NodeBlock_def split: if_splits)

theorem flatten_loses_no_detail_witness:
  "\<exists>f s'. flattenLists (mem_Content (\<lambda>_. True) ''t'') old_store = Some (f, s') \<and> fl_err f = None \<and>
     flat_rel (tree_of (mc_nodes old_store)) (tree_of (mc_nodes s'))"
proof -
  have "mc_nextID old_store < 2 ^ 62" by (simp add: old_store_def)
  from flatten_loses_no_detail [OF old_store_ok(1) this old_store_ok(2)] show ?thesis by blast
qed

theorem nav_shows_every_page_once_witness:
  "\<exists>v s'. buildNav (\<lambda>_. None) (mem_Content (\<lambda>_. True) ''t'') demo_store = (Inr v, s') \<and>
     mset (map nv_Path (concat (map nm_Pages (nv_Modules v)) @ nv_Orphans v)) = mset [''finance/home'']"
proof -
  have ok: "isOk (fst (buildNav (\<lambda>_. None) (mem_Content (\<lambda>_. True) ''t'') demo_store))"
    and p: "ListPagePaths demo_store = [''finance/home'']" by code_simp+
  obtain v where v: "fst (buildNav (\<lambda>_. None) (mem_Content (\<lambda>_. True) ''t'') demo_store) = Inr v" using ok by (auto simp: isOk_iff)
  obtain s' where b: "buildNav (\<lambda>_. None) (mem_Content (\<lambda>_. True) ''t'') demo_store = (Inr v, s')" using v by (metis prod.collapse)
  from nav_shows_every_page_once [OF b, of "[''finance/home'']" demo_store] p b show ?thesis by (simp add: mem_Content_def)
qed

end
