(* ===== verification/Wire.thy ===== *)
theory Wire
  imports GoStrings
begin

text \<open>
  Package \<open>wire\<close> (wire/wire.go): the writer and the reader of struct bodies. A body is a
  sequence of fields \<open>{type:u8, id:u16be, value}\<close> closed by \<open>TStop\<close>. The locale
  \<open>field_codec\<close> is what the two struct codecs (generic/generic.go and the code of
  cmd/gen) rely on: a field written by the writer is read back, or skipped, by the reader.
\<close>

section \<open>Strings and bytes\<close>

definition byte_of :: "char \<Rightarrow> byte" where "byte_of c = word_of_nat (ordc c)"
definition char_of_byte :: "byte \<Rightarrow> char" where "char_of_byte b = char_of (unat b)"
definition str_bytes :: "string \<Rightarrow> byte list" where "str_bytes s = map byte_of s"
definition bytes_str :: "byte list \<Rightarrow> string" where "bytes_str bs = map char_of_byte bs"

lemma ordc_less [simp]: "ordc c < 256"
  by (simp add: ordc_def)

lemma char_of_ordc [simp]: "char_of (ordc c) = c"
  by (simp add: ordc_def)

lemma char_byte_id [simp]: "char_of_byte (byte_of c) = c"
  by (simp add: char_of_byte_def byte_of_def unat_of_nat)

lemma byte_char_id [simp]: "byte_of (char_of_byte b) = b"
proof -
  have "unat b < 256" using unsigned_less [of b, where ?'a = nat] by simp
  then show ?thesis by (simp add: char_of_byte_def byte_of_def)
qed

lemma str_bytes_str [simp, go_simps]: "bytes_str (str_bytes s) = s" "str_bytes (bytes_str bs) = bs"
  by (simp_all add: bytes_str_def str_bytes_def comp_def)

lemma length_str_bytes [simp]: "length (str_bytes s) = length s" "length (bytes_str bs) = length bs"
  by (simp_all add: bytes_str_def str_bytes_def)

section \<open>Writer\<close>

definition TStop :: byte where "TStop = 0"
definition TBool :: byte where "TBool = 1"
definition TI64 :: byte where "TI64 = 2"
definition TString :: byte where "TString = 3"

lemmas tag_defs = TStop_def TBool_def TI64_def TString_def

lemma tags_distinct [simp]:
  "TBool \<noteq> TStop" "TI64 \<noteq> TStop" "TString \<noteq> TStop" "TI64 \<noteq> TString" "TString \<noteq> TI64"
  "TBool \<noteq> TI64" "TI64 \<noteq> TBool" "TBool \<noteq> TString" "TString \<noteq> TBool"
  by (simp_all add: tag_defs)

record writer = wr_buf :: "byte list"

definition NewWriter :: writer where "NewWriter = \<lparr>wr_buf = []\<rparr>"
definition Bytes :: "writer \<Rightarrow> byte list" where "Bytes w = wr_buf w"

text \<open>A field id is a Go \<open>int\<close>; \<open>uint16(id)\<close> keeps its low 16 bits.\<close>

definition FieldI64 :: "int \<Rightarrow> i64 \<Rightarrow> writer \<Rightarrow> writer" where
  "FieldI64 i v w = w\<lparr>wr_buf := wr_buf w @ [TI64] @ be16 (word_of_int i) @ be64 v\<rparr>"

definition FieldString :: "int \<Rightarrow> string \<Rightarrow> writer \<Rightarrow> writer" where
  "FieldString i v w =
     w\<lparr>wr_buf := wr_buf w @ [TString] @ be16 (word_of_int i)
                 @ be32 (word_of_nat (length v)) @ str_bytes v\<rparr>"

definition FieldBool :: "int \<Rightarrow> bool \<Rightarrow> writer \<Rightarrow> writer" where
  "FieldBool i v w =
     w\<lparr>wr_buf := wr_buf w @ [TBool] @ be16 (word_of_int i) @ [if v then 1 else 0]\<rparr>"

definition Stop :: "writer \<Rightarrow> writer" where
  "Stop w = w\<lparr>wr_buf := wr_buf w @ [TStop]\<rparr>"

section \<open>Reader\<close>

text \<open>
  A failed read returns the error only: every caller in the program drops the reader then.
\<close>

datatype wire_err = WireEof | WireShortString | WireSkipUnknown byte

record reader =
  rd_b :: "byte list"
  rd_i :: nat

definition NewReader :: "byte list \<Rightarrow> reader" where "NewReader b = \<lparr>rd_b = b, rd_i = 0\<rparr>"

definition rd_u8 :: "reader \<Rightarrow> wire_err + byte \<times> reader" where
  "rd_u8 r = (if length (rd_b r) \<le> rd_i r then Inl WireEof
              else Inr (rd_b r ! rd_i r, r\<lparr>rd_i := rd_i r + 1\<rparr>))"

definition rd_u16 :: "reader \<Rightarrow> wire_err + u16 \<times> reader" where
  "rd_u16 r = (if length (rd_b r) < rd_i r + 2 then Inl WireEof
               else Inr (un16 (drop (rd_i r) (rd_b r)), r\<lparr>rd_i := rd_i r + 2\<rparr>))"

definition rd_u32 :: "reader \<Rightarrow> wire_err + u32 \<times> reader" where
  "rd_u32 r = (if length (rd_b r) < rd_i r + 4 then Inl WireEof
               else Inr (un32 (drop (rd_i r) (rd_b r)), r\<lparr>rd_i := rd_i r + 4\<rparr>))"

definition rd_u64 :: "reader \<Rightarrow> wire_err + i64 \<times> reader" where
  "rd_u64 r = (if length (rd_b r) < rd_i r + 8 then Inl WireEof
               else Inr (un64 (drop (rd_i r) (rd_b r)), r\<lparr>rd_i := rd_i r + 8\<rparr>))"

definition NextField :: "reader \<Rightarrow> wire_err + (byte \<times> int) \<times> reader" where
  "NextField r =
     bindR (rd_u8 r) (\<lambda>(typ, r).
       if typ = TStop then Inr ((TStop, 0), r)
       else bindR (rd_u16 r) (\<lambda>(n, r). Inr ((typ, uint n), r)))"

definition ReadI64 :: "reader \<Rightarrow> wire_err + i64 \<times> reader" where
  "ReadI64 r = rd_u64 r"

definition ReadString :: "reader \<Rightarrow> wire_err + string \<times> reader" where
  "ReadString r =
     bindR (rd_u32 r) (\<lambda>(n, r).
       if length (rd_b r) < rd_i r + unat n then Inl WireShortString
       else Inr (bytes_str (take (unat n) (drop (rd_i r) (rd_b r))),
                 r\<lparr>rd_i := rd_i r + unat n\<rparr>))"

definition ReadBool :: "reader \<Rightarrow> wire_err + bool \<times> reader" where
  "ReadBool r = bindR (rd_u8 r) (\<lambda>(v, r). Inr (v = 1, r))"

definition Skip :: "byte \<Rightarrow> reader \<Rightarrow> wire_err + reader" where
  "Skip typ r =
     (if typ = TI64 then bindR (ReadI64 r) (\<lambda>(_, r). Inr r)
      else if typ = TString then bindR (ReadString r) (\<lambda>(_, r). Inr r)
      else if typ = TBool then bindR (ReadBool r) (\<lambda>(_, r). Inr r)
      else Inl (WireSkipUnknown typ))"

section \<open>Reading from a split buffer\<close>

text \<open>\<open>at p q\<close> is the reader that has consumed \<open>p\<close> and has \<open>q\<close> before it.\<close>

definition at :: "byte list \<Rightarrow> byte list \<Rightarrow> reader" where
  "at p q = \<lparr>rd_b = p @ q, rd_i = length p\<rparr>"

lemma NewReader_at [go_simps]: "NewReader b = at [] b"
  by (simp add: NewReader_def at_def)

lemma reader_at: "rd_i r \<le> length (rd_b r) \<Longrightarrow> r = at (take (rd_i r) (rd_b r)) (drop (rd_i r) (rd_b r))"
  by (simp add: at_def)

lemma rd_u8_at [go_simps]:
  "rd_u8 (at p (x # q)) = Inr (x, at (p @ [x]) q)" "rd_u8 (at p []) = Inl WireEof"
  by (simp_all add: rd_u8_def at_def)

lemma rd_u16_at [go_simps]: "rd_u16 (at p (be16 v @ q)) = Inr (v, at (p @ be16 v) q)"
  by (simp add: rd_u16_def at_def)

lemma rd_u32_at [go_simps]: "rd_u32 (at p (be32 v @ q)) = Inr (v, at (p @ be32 v) q)"
  by (simp add: rd_u32_def at_def)

lemma rd_u64_at [go_simps]: "rd_u64 (at p (be64 v @ q)) = Inr (v, at (p @ be64 v) q)"
  by (simp add: rd_u64_def at_def)

lemma NextField_stop [go_simps]: "NextField (at p (TStop # q)) = Inr ((TStop, 0), at (p @ [TStop]) q)"
  by (simp add: NextField_def go_simps)

lemma NextField_at [go_simps]:
  "t \<noteq> TStop \<Longrightarrow>
   NextField (at p (t # be16 n @ q)) = Inr ((t, uint n), at (p @ t # be16 n) q)"
  by (simp add: NextField_def go_simps)

lemma ReadString_at [go_simps]:
  "length s < 2 ^ 32 \<Longrightarrow>
   ReadString (at p (be32 (word_of_nat (length s)) @ str_bytes s @ q)) =
   Inr (s, at (p @ be32 (word_of_nat (length s)) @ str_bytes s) q)"
  by (simp add: ReadString_def go_simps) (simp add: at_def unat_of_nat)

lemma ReadBool_at [go_simps]: "ReadBool (at p ((if v then 1 else 0) # q)) = Inr (v, at (p @ [if v then 1 else 0]) q)"
  by (simp add: ReadBool_def go_simps)

section \<open>Progress: a successful read advances the reader within the buffer\<close>

lemma rd_u8_adv: "rd_u8 r = Inr (v, r') \<Longrightarrow> rd_b r' = rd_b r \<and> rd_i r < rd_i r' \<and> rd_i r' \<le> length (rd_b r)"
  by (auto simp: rd_u8_def split: if_splits)

lemma rd_word_adv:
  "rd_u16 r = Inr (v, r') \<Longrightarrow> rd_b r' = rd_b r \<and> rd_i r < rd_i r' \<and> rd_i r' \<le> length (rd_b r)"
  "rd_u32 r = Inr (w, r') \<Longrightarrow> rd_b r' = rd_b r \<and> rd_i r < rd_i r' \<and> rd_i r' \<le> length (rd_b r)"
  "rd_u64 r = Inr (x, r') \<Longrightarrow> rd_b r' = rd_b r \<and> rd_i r < rd_i r' \<and> rd_i r' \<le> length (rd_b r)"
  by (auto simp: rd_u16_def rd_u32_def rd_u64_def split: if_splits)

definition advances :: "reader \<Rightarrow> reader \<Rightarrow> bool" where
  "advances r r' \<longleftrightarrow> rd_b r' = rd_b r \<and> rd_i r < rd_i r' \<and> rd_i r' \<le> length (rd_b r)"

lemma advances_trans: "advances r r' \<Longrightarrow> advances r' r'' \<Longrightarrow> advances r r''"
  by (auto simp: advances_def)

lemma rd_advances:
  "rd_u8 r = Inr (a, r') \<Longrightarrow> advances r r'"
  "rd_u16 r = Inr (b, r') \<Longrightarrow> advances r r'"
  "rd_u32 r = Inr (c, r') \<Longrightarrow> advances r r'"
  "rd_u64 r = Inr (d, r') \<Longrightarrow> advances r r'"
  unfolding advances_def by (simp_all add: rd_u8_adv rd_word_adv)

lemma NextField_advances: "NextField r = Inr (f, r') \<Longrightarrow> advances r r'"
  by (auto simp: NextField_def bindR_eq_Inr split: if_splits prod.splits
      dest!: rd_advances intro: advances_trans)

lemma ReadI64_advances: "ReadI64 r = Inr (v, r') \<Longrightarrow> advances r r'"
  by (simp add: ReadI64_def rd_advances)

lemma ReadString_advances: "ReadString r = Inr (v, r') \<Longrightarrow> advances r r'"
  by (auto simp: ReadString_def bindR_eq_Inr advances_def split: if_splits prod.splits dest!: rd_word_adv)

lemma ReadBool_advances: "ReadBool r = Inr (v, r') \<Longrightarrow> advances r r'"
  by (auto simp: ReadBool_def bindR_eq_Inr split: prod.splits dest!: rd_advances)

lemma Skip_advances: "Skip t r = Inr r' \<Longrightarrow> advances r r'"
  by (auto simp: Skip_def bindR_eq_Inr split: if_splits prod.splits
      dest!: ReadI64_advances ReadString_advances ReadBool_advances)

lemmas read_advances = NextField_advances ReadI64_advances ReadString_advances ReadBool_advances
  Skip_advances

section \<open>The field interface\<close>

locale field_codec =
  fixes put :: "int \<Rightarrow> 'a \<Rightarrow> writer \<Rightarrow> writer"
    and get :: "reader \<Rightarrow> wire_err + 'a \<times> reader"
    and tag :: byte
    and enc :: "'a \<Rightarrow> byte list"
    and ok :: "'a \<Rightarrow> bool"
  assumes tag_live: "tag \<noteq> TStop"
    and write_field: "wr_buf (put i v w) = wr_buf w @ tag # be16 (word_of_int i) @ enc v"
    and read_field: "ok v \<Longrightarrow> get (at p (enc v @ q)) = Inr (v, at (p @ enc v) q)"
    and skip_field: "ok v \<Longrightarrow> Skip tag (at p (enc v @ q)) = Inr (at (p @ enc v) q)"
begin

lemma next_written:
  "NextField (at p (tag # be16 (word_of_int i) @ enc v @ q)) =
   Inr ((tag, i mod 2 ^ 16), at (p @ tag # be16 (word_of_int i)) (enc v @ q))"
  using tag_live by (simp add: NextField_at uint_word_of_int)

lemma next_read_written:
  "ok v \<Longrightarrow> bindR (NextField (at p (tag # be16 (word_of_int i) @ enc v @ q))) (\<lambda>(_, r). get r) =
   Inr (v, at (p @ tag # be16 (word_of_int i) @ enc v) q)"
  by (simp add: next_written read_field)

lemma next_skip_written:
  "ok v \<Longrightarrow> bindR (NextField (at p (tag # be16 (word_of_int i) @ enc v @ q))) (\<lambda>(_, r). Skip tag r) =
   Inr (at (p @ tag # be16 (word_of_int i) @ enc v) q)"
  by (simp add: next_written skip_field)

end

definition enc_string :: "string \<Rightarrow> byte list" where
  "enc_string s = be32 (word_of_nat (length s)) @ str_bytes s"
definition enc_bool :: "bool \<Rightarrow> byte list" where
  "enc_bool b = [if b then 1 else 0]"

interpretation fi64: field_codec FieldI64 ReadI64 TI64 be64 "\<lambda>_. True"
  by unfold_locales (simp_all add: FieldI64_def ReadI64_def Skip_def go_simps)

interpretation fstr: field_codec FieldString ReadString TString enc_string "\<lambda>s. length s < 2 ^ 32"
  by unfold_locales (simp_all add: FieldString_def enc_string_def Skip_def go_simps)

interpretation fbool: field_codec FieldBool ReadBool TBool enc_bool "\<lambda>_. True"
  by unfold_locales (simp_all add: FieldBool_def enc_bool_def Skip_def ReadBool_def go_simps)

end
