(* ===== verification/Codec.thy ===== *)
theory Codec
  imports Idl Wire
begin

text \<open>
  The struct codecs. cmd/gen/main.go writes, for each struct of a specification, an encoder that
  writes its fields in order and a decoder whose loop switches on the field id; a \<open>switch\<close> is
  here a list of \<open>arm\<close>s and \<open>decode_loop\<close> is the loop that all generated decoders share.
  \<open>gen_encode\<close> and \<open>gen_decode\<close> are the template itself, over a specification. The
  locales \<open>struct_codec\<close> and \<open>rpc_codec\<close> are what the clients and servers rely on.
\<close>

section \<open>Wire values\<close>

datatype gval = VI64 i64 | VStr string | VBool bool

fun gval_ok :: "gval \<Rightarrow> bool" where
  "gval_ok (VStr s) \<longleftrightarrow> length s < 2 ^ 32"
| "gval_ok _ \<longleftrightarrow> True"

fun put_gval :: "int \<Rightarrow> gval \<Rightarrow> writer \<Rightarrow> writer" where
  "put_gval i (VI64 n) w = FieldI64 i n w"
| "put_gval i (VStr s) w = FieldString i s w"
| "put_gval i (VBool b) w = FieldBool i b w"

fun gval_tag :: "gval \<Rightarrow> byte" where
  "gval_tag (VI64 _) = TI64"
| "gval_tag (VStr _) = TString"
| "gval_tag (VBool _) = TBool"

fun enc_gval :: "gval \<Rightarrow> byte list" where
  "enc_gval (VI64 n) = be64 n"
| "enc_gval (VStr s) = enc_string s"
| "enc_gval (VBool b) = enc_bool b"

definition enc_field :: "int \<times> gval \<Rightarrow> byte list" where
  "enc_field f = gval_tag (snd f) # be16 (word_of_int (fst f)) @ enc_gval (snd f)"

definition enc_fields :: "(int \<times> gval) list \<Rightarrow> byte list" where
  "enc_fields fs = concat (map enc_field fs) @ [TStop]"

lemma put_gval_buf: "wr_buf (put_gval i v w) = wr_buf w @ enc_field (i, v)"
  by (cases v) (simp_all add: enc_field_def fi64.write_field fstr.write_field fbool.write_field)

lemma gval_tag_live [simp]: "gval_tag v \<noteq> TStop"
  by (cases v) simp_all

lemma skip_gval: "gval_ok v \<Longrightarrow> Skip (gval_tag v) (at p (enc_gval v @ q)) = Inr (at (p @ enc_gval v) q)"
  by (cases v) (simp_all add: fi64.skip_field fstr.skip_field fbool.skip_field)

lemma next_enc_field:
  "NextField (at p (enc_field (i, v) @ q)) =
   Inr ((gval_tag v, i mod 2 ^ 16), at (p @ gval_tag v # be16 (word_of_int i)) (enc_gval v @ q))"
  by (simp add: enc_field_def NextField_at uint_word_of_int)

section \<open>The decoder's loop\<close>

text \<open>\<open>case id: s.X, err = r.ReadT()\<close>\<close>

datatype 's arm =
    ArmI64 (arm_id: int) "i64 \<Rightarrow> 's \<Rightarrow> 's"
  | ArmStr (arm_id: int) "string \<Rightarrow> 's \<Rightarrow> 's"
  | ArmBool (arm_id: int) "bool \<Rightarrow> 's \<Rightarrow> 's"

fun run_arm :: "'s arm \<Rightarrow> 's \<Rightarrow> reader \<Rightarrow> wire_err + 's \<times> reader" where
  "run_arm (ArmI64 _ f) s r = bindR (ReadI64 r) (\<lambda>(v, r). Inr (f v s, r))"
| "run_arm (ArmStr _ f) s r = bindR (ReadString r) (\<lambda>(v, r). Inr (f v s, r))"
| "run_arm (ArmBool _ f) s r = bindR (ReadBool r) (\<lambda>(v, r). Inr (f v s, r))"

definition switch :: "'s arm list \<Rightarrow> byte \<Rightarrow> int \<Rightarrow> 's \<Rightarrow> reader \<Rightarrow> wire_err + 's \<times> reader" where
  "switch arms typ i s r =
     (case find (\<lambda>a. arm_id a = i) arms of
        Some a \<Rightarrow> run_arm a s r
      | None \<Rightarrow> bindR (Skip typ r) (\<lambda>r. Inr (s, r)))"

lemma run_arm_advances: "run_arm a s r = Inr (s', r') \<Longrightarrow> advances r r'"
  by (cases a) (auto simp: bindR_eq_Inr dest: read_advances)

lemma switch_advances: "switch arms t i s r = Inr (s', r') \<Longrightarrow> advances r r'"
  by (auto simp: switch_def bindR_eq_Inr split: option.splits dest: run_arm_advances Skip_advances)

lemma advances_measure: "advances r r' \<Longrightarrow> length (rd_b r') - rd_i r' < length (rd_b r) - rd_i r"
  by (auto simp: advances_def)

function decode_loop :: "'s arm list \<Rightarrow> 's \<Rightarrow> reader \<Rightarrow> wire_err + 's" where
  "decode_loop arms s r =
     (case NextField r of
        Inl e \<Rightarrow> Inl e
      | Inr ((typ, i), r1) \<Rightarrow>
          if typ = TStop then Inr s
          else (case switch arms typ i s r1 of
                  Inl e \<Rightarrow> Inl e
                | Inr (s', r2) \<Rightarrow> decode_loop arms s' r2))"
  by pat_completeness auto
termination
  by (relation "measure (\<lambda>(_, _, r). length (rd_b r) - rd_i r)")
    (auto intro!: advances_measure dest!: NextField_advances [OF sym] switch_advances [OF sym]
      dest: NextField_advances switch_advances intro: advances_trans)

declare decode_loop.simps [simp del]

section \<open>What a loop makes of a written body\<close>

fun arm_set :: "'s arm \<Rightarrow> gval \<Rightarrow> 's \<Rightarrow> 's" where
  "arm_set (ArmI64 _ f) (VI64 n) s = f n s"
| "arm_set (ArmStr _ f) (VStr n) s = f n s"
| "arm_set (ArmBool _ f) (VBool n) s = f n s"
| "arm_set _ _ s = s"

fun arm_fits :: "'s arm \<Rightarrow> gval \<Rightarrow> bool" where
  "arm_fits (ArmI64 _ _) (VI64 _) \<longleftrightarrow> True"
| "arm_fits (ArmStr _ _) (VStr _) \<longleftrightarrow> True"
| "arm_fits (ArmBool _ _) (VBool _) \<longleftrightarrow> True"
| "arm_fits _ _ \<longleftrightarrow> False"

lemma arm_fits_cases:
  assumes "arm_fits a v"
  obtains (i64) i f n where "a = ArmI64 i f" "v = VI64 n"
    | (str) i f n where "a = ArmStr i f" "v = VStr n"
    | (bool) i f n where "a = ArmBool i f" "v = VBool n"
  using assms by (cases a; cases v) auto

lemma run_arm_enc:
  assumes "arm_fits a v" and "gval_ok v"
  shows "run_arm a s (at p (enc_gval v @ q)) = Inr (arm_set a v s, at (p @ enc_gval v) q)"
  using assms(1)
  by (cases rule: arm_fits_cases)
    (use assms(2) in \<open>simp_all add: fi64.read_field fstr.read_field fbool.read_field\<close>)

definition set_field :: "'s arm list \<Rightarrow> int \<times> gval \<Rightarrow> 's \<Rightarrow> 's" where
  "set_field arms f s =
     (case find (\<lambda>a. arm_id a = fst f) arms of Some a \<Rightarrow> arm_set a (snd f) s | None \<Rightarrow> s)"

definition field_fits :: "'s arm list \<Rightarrow> int \<times> gval \<Rightarrow> bool" where
  "field_fits arms f \<longleftrightarrow>
     0 \<le> fst f \<and> fst f < 2 ^ 16 \<and> gval_ok (snd f) \<and>
     (case find (\<lambda>a. arm_id a = fst f) arms of Some a \<Rightarrow> arm_fits a (snd f) | None \<Rightarrow> True)"

lemma switch_enc:
  "field_fits arms (i, v) \<Longrightarrow>
   switch arms (gval_tag v) i s (at p (enc_gval v @ q)) =
   Inr (set_field arms (i, v) s, at (p @ enc_gval v) q)"
  by (auto simp: switch_def field_fits_def set_field_def run_arm_enc skip_gval split: option.splits)

lemma decode_loop_fields:
  "list_all (field_fits arms) fs \<Longrightarrow>
   decode_loop arms s (at p (enc_fields fs @ q)) = Inr (fold (set_field arms) fs s)"
proof (induction fs arbitrary: s p)
  case Nil
  show ?case by (simp add: enc_fields_def decode_loop.simps [of arms s] NextField_stop)
next
  case (Cons f fs)
  obtain i v where f: "f = (i, v)" by fastforce
  have m: "i mod 65536 = i" using Cons.prems by (simp add: f field_fits_def)
  let ?p1 = "p @ gval_tag v # be16 (word_of_int i)"
  have n: "NextField (at p (enc_fields (f # fs) @ q)) =
      Inr ((gval_tag v, i), at ?p1 (enc_gval v @ enc_fields fs @ q))"
    using next_enc_field [of p i v "enc_fields fs @ q"] by (simp add: enc_fields_def f m)
  have s: "switch arms (gval_tag v) i s (at ?p1 (enc_gval v @ enc_fields fs @ q)) =
      Inr (set_field arms f s, at (?p1 @ enc_gval v) (enc_fields fs @ q))"
    using Cons.prems unfolding f by (intro switch_enc) simp
  show ?case
    using Cons.prems by (subst decode_loop.simps) (simp add: n s Cons.IH)
qed

text \<open>A field that no arm of the reader knows does not change what is read.\<close>

definition unknown_to :: "'s arm list \<Rightarrow> int \<times> gval \<Rightarrow> bool" where
  "unknown_to arms f \<longleftrightarrow> find (\<lambda>a. arm_id a = fst f) arms = None"

lemma set_unknown: "unknown_to arms f \<Longrightarrow> set_field arms f s = s"
  by (simp add: unknown_to_def set_field_def)

lemma fold_set_known:
  "fold (set_field arms) fs s = fold (set_field arms) (filter (\<lambda>f. \<not> unknown_to arms f) fs) s"
  by (induction fs arbitrary: s) (simp_all add: set_unknown)

section \<open>The template of cmd/gen\<close>

text \<open>A generated struct is its fields by Go name; \<open>zero_of\<close> is its zero value.\<close>

type_synonym gstruct = "string \<Rightarrow> gval"

definition zero_of :: "string \<Rightarrow> gval" where
  "zero_of t = (if t = ''i64'' then VI64 0 else if t = ''string'' then VStr [] else VBool False)"

fun as_i64 :: "gval \<Rightarrow> i64" where "as_i64 (VI64 n) = n" | "as_i64 _ = 0"
fun as_str :: "gval \<Rightarrow> string" where "as_str (VStr s) = s" | "as_str _ = []"
fun as_bool :: "gval \<Rightarrow> bool" where "as_bool (VBool b) = b" | "as_bool _ = False"

definition gen_write :: "(string \<Rightarrow> string) \<Rightarrow> gstruct \<Rightarrow> field \<Rightarrow> writer \<Rightarrow> writer" where
  "gen_write u s f w =
     (let v = s (GoName u (f_Name f)) in
      if f_Type f = ''i64'' then FieldI64 (f_ID f) (as_i64 v) w
      else if f_Type f = ''string'' then FieldString (f_ID f) (as_str v) w
      else if f_Type f = ''bool'' then FieldBool (f_ID f) (as_bool v) w
      else w)"

definition gen_encode :: "(string \<Rightarrow> string) \<Rightarrow> strct \<Rightarrow> gstruct \<Rightarrow> byte list" where
  "gen_encode u st s = Bytes (Stop (fold (gen_write u s) (st_Fields st) NewWriter))"

definition gen_arm :: "(string \<Rightarrow> string) \<Rightarrow> field \<Rightarrow> gstruct arm list" where
  "gen_arm u f =
     (let n = GoName u (f_Name f) in
      if f_Type f = ''i64'' then [ArmI64 (f_ID f) (\<lambda>v s. s(n := VI64 v))]
      else if f_Type f = ''string'' then [ArmStr (f_ID f) (\<lambda>v s. s(n := VStr v))]
      else if f_Type f = ''bool'' then [ArmBool (f_ID f) (\<lambda>v s. s(n := VBool v))]
      else [])"

definition gen_zero :: "(string \<Rightarrow> string) \<Rightarrow> strct \<Rightarrow> gstruct" where
  "gen_zero u st =
     fold (\<lambda>f s. s(GoName u (f_Name f) := zero_of (f_Type f))) (st_Fields st) (\<lambda>_. VBool False)"

definition gen_decode :: "(string \<Rightarrow> string) \<Rightarrow> strct \<Rightarrow> byte list \<Rightarrow> wire_err + gstruct" where
  "gen_decode u st body =
     decode_loop (concat (map (gen_arm u) (st_Fields st))) (gen_zero u st) (NewReader body)"

section \<open>The codec interface\<close>

locale struct_codec =
  fixes Encode :: "'s \<Rightarrow> byte list"
    and Decode :: "byte list \<Rightarrow> wire_err + 's"
    and ok :: "'s \<Rightarrow> bool"
  assumes roundtrip: "ok s \<Longrightarrow> Decode (Encode s) = Inr s"
begin

lemma encode_inj: "ok s \<Longrightarrow> ok t \<Longrightarrow> Encode s = Encode t \<Longrightarrow> s = t"
  by (metis roundtrip sum.inject(2))

end

text \<open>A codec that writes the fields \<open>fields s\<close> in order and reads them with \<open>arms\<close>.\<close>

locale field_struct =
  fixes Encode :: "'s \<Rightarrow> byte list"
    and fields :: "'s \<Rightarrow> (int \<times> gval) list"
    and arms :: "'s arm list"
    and zero :: 's
    and ok :: "'s \<Rightarrow> bool"
  assumes encodes: "ok s \<Longrightarrow> Encode s = enc_fields (fields s)"
    and fits: "ok s \<Longrightarrow> list_all (field_fits arms) (fields s)"
    and reads: "ok s \<Longrightarrow> fold (set_field arms) (fields s) zero = s"
begin

lemma decode_encode_rest: "ok s \<Longrightarrow> decode_loop arms zero (at p (Encode s @ rest)) = Inr s"
  by (simp add: encodes decode_loop_fields fits reads)

lemma decode_encode: "ok s \<Longrightarrow> decode_loop arms zero (NewReader (Encode s)) = Inr s"
  using decode_encode_rest [of s "[]" "[]"] by (simp add: NewReader_at)

text \<open>A body of a later version of the struct: fields this version does not know, anywhere.\<close>

lemma decode_later:
  assumes "ok s" and "list_all (field_fits arms) fs"
    and "filter (\<lambda>f. \<not> unknown_to arms f) fs = filter (\<lambda>f. \<not> unknown_to arms f) (fields s)"
  shows "decode_loop arms zero (NewReader (enc_fields fs)) = Inr s"
proof -
  have "decode_loop arms zero (at [] (enc_fields fs @ [])) = Inr (fold (set_field arms) fs zero)"
    by (rule decode_loop_fields [OF assms(2)])
  also have "fold (set_field arms) fs zero = fold (set_field arms) (fields s) zero"
    by (subst (1 2) fold_set_known) (simp only: assms(3))
  finally show ?thesis by (simp add: NewReader_at reads assms(1))
qed

end

sublocale field_struct \<subseteq> struct_codec Encode "\<lambda>b. decode_loop arms zero (NewReader b)" ok
  by unfold_locales (rule decode_encode)

section \<open>The template's codec\<close>

fun gval_type :: "gval \<Rightarrow> string" where
  "gval_type (VI64 _) = ''i64''"
| "gval_type (VStr _) = ''string''"
| "gval_type (VBool _) = ''bool''"

definition go_names :: "(string \<Rightarrow> string) \<Rightarrow> strct \<Rightarrow> string list" where
  "go_names u st = map (\<lambda>f. GoName u (f_Name f)) (st_Fields st)"

definition st_ok :: "(string \<Rightarrow> string) \<Rightarrow> strct \<Rightarrow> bool" where
  "st_ok u st \<longleftrightarrow> distinct (map f_ID (st_Fields st)) \<and> distinct (go_names u st) \<and>
     list_all (\<lambda>f. f_Type f \<in> set field_types \<and> 0 \<le> f_ID f \<and> f_ID f < 2 ^ 16) (st_Fields st)"

definition gstruct_ok :: "(string \<Rightarrow> string) \<Rightarrow> strct \<Rightarrow> gstruct \<Rightarrow> bool" where
  "gstruct_ok u st s \<longleftrightarrow>
     list_all (\<lambda>f. gval_type (s (GoName u (f_Name f))) = f_Type f \<and>
                   gval_ok (s (GoName u (f_Name f)))) (st_Fields st) \<and>
     (\<forall>n. n \<in> set (go_names u st) \<or> s n = VBool False)"

definition gen_fields :: "(string \<Rightarrow> string) \<Rightarrow> strct \<Rightarrow> gstruct \<Rightarrow> (int \<times> gval) list" where
  "gen_fields u st s = map (\<lambda>f. (f_ID f, s (GoName u (f_Name f)))) (st_Fields st)"

definition gen_arms :: "(string \<Rightarrow> string) \<Rightarrow> strct \<Rightarrow> gstruct arm list" where
  "gen_arms u st = concat (map (gen_arm u) (st_Fields st))"

lemma gen_write_put:
  "gval_type (s (GoName u (f_Name f))) = f_Type f \<Longrightarrow>
   gen_write u s f w = put_gval (f_ID f) (s (GoName u (f_Name f))) w"
  by (cases "s (GoName u (f_Name f))") (auto simp: gen_write_def Let_def)

lemma gen_encode_fields:
  assumes "gstruct_ok u st s"
  shows "gen_encode u st s = enc_fields (gen_fields u st s)"
proof -
  have "list_all (\<lambda>f. gval_type (s (GoName u (f_Name f))) = f_Type f) fs \<Longrightarrow>
      wr_buf (fold (gen_write u s) fs w) =
      wr_buf w @ concat (map enc_field (map (\<lambda>f. (f_ID f, s (GoName u (f_Name f)))) fs))" for fs w
    by (induction fs arbitrary: w) (simp_all add: gen_write_put put_gval_buf)
  moreover have "list_all (\<lambda>f. gval_type (s (GoName u (f_Name f))) = f_Type f) (st_Fields st)"
    using assms by (auto simp: gstruct_ok_def list_all_iff)
  ultimately show ?thesis
    by (simp add: gen_encode_def enc_fields_def gen_fields_def Bytes_def Stop_def NewWriter_def)
qed

lemma gen_arm_ids: "a \<in> set (gen_arm u f) \<Longrightarrow> arm_id a = f_ID f"
  by (auto simp: gen_arm_def Let_def split: if_splits)

lemma find_gen_arm:
  assumes "distinct (map f_ID fs)" and "f \<in> set fs" and "gen_arm u f = [a]"
  shows "find (\<lambda>a. arm_id a = f_ID f) (concat (map (gen_arm u) fs)) = Some a"
  using assms(1,2)
proof (induction fs)
  case (Cons g fs)
  show ?case
  proof (cases "g = f")
    case True
    then show ?thesis using assms(3) gen_arm_ids [of a u f] by simp
  next
    case False
    then have "f \<in> set fs" "f_ID g \<noteq> f_ID f" using Cons.prems by auto
    then have "\<forall>b\<in>set (gen_arm u g). arm_id b \<noteq> f_ID f" using gen_arm_ids [of _ u g] by fastforce
    then have "find (\<lambda>a. arm_id a = f_ID f) (gen_arm u g) = None" by (simp add: find_None_iff)
    then show ?thesis using Cons \<open>f \<in> set fs\<close> by (simp add: find_append)
  qed
qed simp

lemma gen_arm_single:
  assumes "f_Type f \<in> set field_types"
  shows "\<exists>a. gen_arm u f = [a] \<and>
    (\<forall>v s. gval_type v = f_Type f \<longrightarrow> arm_fits a v \<and> arm_set a v s = s(GoName u (f_Name f) := v))"
proof -
  have v: "gval_type v = ''i64'' \<longleftrightarrow> (\<exists>n. v = VI64 n)" "gval_type v = ''string'' \<longleftrightarrow> (\<exists>n. v = VStr n)"
    "gval_type v = ''bool'' \<longleftrightarrow> (\<exists>n. v = VBool n)" for v
    by (cases v; simp)+
  show ?thesis using assms by (auto simp: gen_arm_def field_types_def v)
qed

lemma gen_field_arm:
  assumes "st_ok u st" and "gstruct_ok u st s" and "f \<in> set (st_Fields st)"
  shows "field_fits (gen_arms u st) (f_ID f, s (GoName u (f_Name f)))"
    and "set_field (gen_arms u st) (f_ID f, s (GoName u (f_Name f))) t =
         t(GoName u (f_Name f) := s (GoName u (f_Name f)))"
proof -
  let ?v = "s (GoName u (f_Name f))"
  have f: "f_Type f \<in> set field_types" "0 \<le> f_ID f" "f_ID f < 2 ^ 16" "gval_type ?v = f_Type f"
    "gval_ok ?v"
    using assms by (auto simp: st_ok_def gstruct_ok_def list_all_iff)
  obtain a where a: "gen_arm u f = [a]" "arm_fits a ?v"
    "\<And>t. arm_set a ?v t = t(GoName u (f_Name f) := ?v)"
    using gen_arm_single [OF f(1), of u] f(4) by blast
  have find: "find (\<lambda>a. arm_id a = f_ID f) (gen_arms u st) = Some a"
    unfolding gen_arms_def using assms(1,3) a(1) by (intro find_gen_arm) (auto simp: st_ok_def)
  show "field_fits (gen_arms u st) (f_ID f, ?v)"
    using f a(2) find by (simp add: field_fits_def)
  show "set_field (gen_arms u st) (f_ID f, ?v) t = t(GoName u (f_Name f) := ?v)"
    using find a(3) by (simp add: set_field_def)
qed

lemma fold_set_gen:
  assumes "st_ok u st" and "gstruct_ok u st s" and "set fs \<subseteq> set (st_Fields st)"
  shows "fold (set_field (gen_arms u st)) (map (\<lambda>f. (f_ID f, s (GoName u (f_Name f)))) fs) t n =
    (if n \<in> (\<lambda>f. GoName u (f_Name f)) ` set fs then s n else t n)"
  using assms(3)
proof (induction fs arbitrary: t)
  case (Cons f fs)
  have "set_field (gen_arms u st) (f_ID f, s (GoName u (f_Name f))) t =
      t(GoName u (f_Name f) := s (GoName u (f_Name f)))"
    using Cons.prems by (intro gen_field_arm(2) [OF assms(1,2)]) simp
  then show ?case using Cons by auto
qed simp

lemma gen_zero_outside: "n \<notin> set (go_names u st) \<Longrightarrow> gen_zero u st n = VBool False"
proof -
  have "n \<notin> set (map (\<lambda>f. GoName u (f_Name f)) fs) \<Longrightarrow>
      fold (\<lambda>f s. s(GoName u (f_Name f) := zero_of (f_Type f))) fs z n = z n" for fs and z :: gstruct
    by (induction fs arbitrary: z) auto
  then show "n \<notin> set (go_names u st) \<Longrightarrow> gen_zero u st n = VBool False"
    by (simp add: gen_zero_def go_names_def)
qed

interpretation gen: field_struct "gen_encode u st" "gen_fields u st" "gen_arms u st" "gen_zero u st"
  "\<lambda>s. st_ok u st \<and> gstruct_ok u st s" for u st
proof (unfold_locales)
  fix s assume ok: "st_ok u st \<and> gstruct_ok u st s"
  then show "gen_encode u st s = enc_fields (gen_fields u st s)" by (simp add: gen_encode_fields)
  show "list_all (field_fits (gen_arms u st)) (gen_fields u st s)"
    using ok by (auto simp: gen_fields_def list_all_iff gen_field_arm(1))
  show "fold (set_field (gen_arms u st)) (gen_fields u st s) (gen_zero u st) = s"
  proof
    fix n
    have "s n = VBool False \<or> n \<in> set (go_names u st)" using ok by (auto simp: gstruct_ok_def)
    then show "fold (set_field (gen_arms u st)) (gen_fields u st s) (gen_zero u st) n = s n"
      using ok by (auto simp: gen_fields_def fold_set_gen go_names_def gen_zero_outside)
  qed
qed

lemma gen_decode_loop: "gen_decode u st b = decode_loop (gen_arms u st) (gen_zero u st) (NewReader b)"
  by (simp add: gen_decode_def gen_arms_def)

section \<open>Two decoders of one struct\<close>

fun arm_read :: "'s arm \<Rightarrow> reader \<Rightarrow> wire_err + gval \<times> reader" where
  "arm_read (ArmI64 _ _) r = bindR (ReadI64 r) (\<lambda>(v, r). Inr (VI64 v, r))"
| "arm_read (ArmStr _ _) r = bindR (ReadString r) (\<lambda>(v, r). Inr (VStr v, r))"
| "arm_read (ArmBool _ _) r = bindR (ReadBool r) (\<lambda>(v, r). Inr (VBool v, r))"

lemma run_arm_read: "run_arm a s r = bindR (arm_read a r) (\<lambda>(v, r). Inr (arm_set a v s, r))"
  by (cases a) (auto simp: bindR_def split: sum.split)

lemma arm_read_fits: "arm_read a r = Inr (v, r') \<Longrightarrow> arm_fits a v"
  by (cases a) (auto simp: bindR_eq_Inr)

definition arm_sim :: "('s \<Rightarrow> 't \<Rightarrow> bool) \<Rightarrow> 's arm \<Rightarrow> 't arm \<Rightarrow> bool" where
  "arm_sim R a b \<longleftrightarrow> arm_id a = arm_id b \<and> arm_read a = arm_read b \<and>
     (\<forall>v s t. arm_fits a v \<longrightarrow> R s t \<longrightarrow> R (arm_set a v s) (arm_set b v t))"

lemma find_sim:
  "list_all2 (arm_sim R) xs ys \<Longrightarrow>
   rel_option (arm_sim R) (find (\<lambda>a. arm_id a = i) xs) (find (\<lambda>b. arm_id b = i) ys)"
  by (induction rule: list_all2_induct) (auto simp: arm_sim_def)

lemma switch_sim:
  assumes "list_all2 (arm_sim R) xs ys" and "R s t"
  shows "rel_sum (=) (rel_prod R (=)) (switch xs ty i s r) (switch ys ty i t r)"
proof (cases "find (\<lambda>a. arm_id a = i) xs")
  case None
  then have "find (\<lambda>b. arm_id b = i) ys = None" using find_sim [OF assms(1), of i] by simp
  with None assms(2) show ?thesis by (cases "Skip ty r") (simp_all add: switch_def)
next
  case (Some a)
  then obtain b where b: "find (\<lambda>b. arm_id b = i) ys = Some b" "arm_sim R a b"
    using find_sim [OF assms(1), of i] by (auto simp: option_rel_Some1)
  show ?thesis
  proof (cases "arm_read a r")
    case (Inr x)
    obtain v r' where x: "x = (v, r')" by fastforce
    have "arm_fits a v" using Inr unfolding x by (rule arm_read_fits)
    moreover have "arm_read b r = Inr (v, r')" using Inr b(2) by (simp add: x arm_sim_def)
    ultimately show ?thesis using Inr b Some assms(2) by (simp add: switch_def run_arm_read x arm_sim_def)
  qed (use b Some in \<open>simp add: switch_def run_arm_read arm_sim_def\<close>)
qed

lemma decode_sim:
  assumes "list_all2 (arm_sim R) xs ys"
  shows "R s t \<Longrightarrow> rel_sum (=) R (decode_loop xs s r) (decode_loop ys t r)"
proof (induction "length (rd_b r) - rd_i r" arbitrary: s t r rule: less_induct)
  case less
  show ?case
  proof (cases "NextField r")
    case (Inl e)
    then show ?thesis by (simp add: decode_loop.simps [of xs s r] decode_loop.simps [of ys t r])
  next
    case (Inr x)
    obtain ty i r1 where x: "x = ((ty, i), r1)" by (metis prod.collapse)
    show ?thesis
    proof (cases "ty = TStop")
      case True
      with Inr x less.prems show ?thesis
        by (simp add: decode_loop.simps [of xs s r] decode_loop.simps [of ys t r])
    next
      case False
      have sw: "rel_sum (=) (rel_prod R (=)) (switch xs ty i s r1) (switch ys ty i t r1)"
        by (rule switch_sim [OF assms less.prems])
      show ?thesis
      proof (cases "switch xs ty i s r1")
        case (Inl e)
        then have "switch ys ty i t r1 = Inl e" using sw by (cases "switch ys ty i t r1") auto
        with Inl Inr x False show ?thesis
          by (simp add: decode_loop.simps [of xs s r] decode_loop.simps [of ys t r])
      next
        case (Inr y)
        obtain s' r2 where y: "y = (s', r2)" by fastforce
        obtain t' where t: "switch ys ty i t r1 = Inr (t', r2)" "R s' t'"
          using sw Inr y by (cases "switch ys ty i t r1") auto
        have "advances r r2"
          using NextField_advances [of r "(ty, i)" r1] switch_advances [of xs ty i s r1 s' r2]
            \<open>NextField r = Inr x\<close> x Inr y by (auto intro: advances_trans)
        then have "rel_sum (=) R (decode_loop xs s' r2) (decode_loop ys t' r2)"
          by (intro less.hyps advances_measure t(2))
        with Inr y t(1) \<open>NextField r = Inr x\<close> x False show ?thesis
          by (simp add: decode_loop.simps [of xs s r] decode_loop.simps [of ys t r])
      qed
    qed
  qed
qed

section \<open>Properties\<close>

text \<open>C20 The encoder and the decoder that the template generates for a struct are inverse: a value
  of the struct (each field of the field's type, strings shorter than 2^32 bytes) is read back
  exactly as it was written, when the struct's ids fit the 16 bits they have on the wire.\<close>

theorem template_roundtrip:
  assumes "st_ok u st" and "gstruct_ok u st s"
  shows "gen_decode u st (gen_encode u st s) = Inr s"
  using gen.roundtrip [of u st s] assms by (simp add: gen_decode_loop)

definition demo_strct :: strct where
  "demo_strct = \<lparr>st_Name = ''Item'', st_Fields =
     [\<lparr>f_ID = 1, f_Type = ''i64'', f_Name = ''id''\<rparr>, \<lparr>f_ID = 2, f_Type = ''string'', f_Name = ''name''\<rparr>,
      \<lparr>f_ID = 700, f_Type = ''bool'', f_Name = ''done''\<rparr>]\<rparr>"

definition demo_value :: gstruct where
  "demo_value = (\<lambda>_. VBool False)(''ID'' := VI64 77, ''Name'' := VStr ''abc'', ''Done'' := VBool True)"

lemma demo_go_names: "go_names (\<lambda>s. s) demo_strct = [''ID'', ''Name'', ''Done'']"
  by code_simp

lemma demo_GoName: "GoName (\<lambda>s. s) ''id'' = ''ID''" "GoName (\<lambda>s. s) ''name'' = ''Name''"
  "GoName (\<lambda>s. s) ''done'' = ''Done''"
  by code_simp+

lemma demo_strct_ok: "st_ok (\<lambda>s. s) demo_strct" "gstruct_ok (\<lambda>s. s) demo_strct demo_value"
  unfolding st_ok_def gstruct_ok_def demo_go_names
  by (simp_all add: demo_strct_def demo_value_def field_types_def demo_GoName)

theorem template_roundtrip_witness:
  "gen_decode (\<lambda>s. s) demo_strct (gen_encode (\<lambda>s. s) demo_strct demo_value) = Inr demo_value"
  by (rule template_roundtrip [OF demo_strct_ok])

definition extends :: "strct \<Rightarrow> strct \<Rightarrow> bool" where
  "extends st' st \<longleftrightarrow> st_Fields st = filter (\<lambda>f. f \<in> set (st_Fields st)) (st_Fields st')"

definition restrict_to :: "(string \<Rightarrow> string) \<Rightarrow> strct \<Rightarrow> gstruct \<Rightarrow> gstruct" where
  "restrict_to u st s = (\<lambda>n. if n \<in> set (go_names u st) then s n else VBool False)"

lemma extends_mem: "extends st' st \<Longrightarrow> f \<in> set (st_Fields st) \<Longrightarrow> f \<in> set (st_Fields st')"
  unfolding extends_def by (metis filter_is_subset subsetD)

lemma restrict_name: "f \<in> set (st_Fields st) \<Longrightarrow>
    restrict_to u st s (GoName u (f_Name f)) = s (GoName u (f_Name f))"
  by (simp add: restrict_to_def go_names_def)

lemma gen_arms_unknown:
  assumes "st_ok u st'" and "extends st' st" and "f \<in> set (st_Fields st')" and "f \<notin> set (st_Fields st)"
  shows "unknown_to (gen_arms u st) (f_ID f, v)"
proof -
  have "f_ID g \<noteq> f_ID f" if "g \<in> set (st_Fields st)" for g
  proof
    assume "f_ID g = f_ID f"
    then have "g = f" using assms(1,3) extends_mem [OF assms(2) that]
      by (auto simp: st_ok_def distinct_map dest: inj_onD)
    then show False using that assms(4) by simp
  qed
  then show ?thesis unfolding unknown_to_def gen_arms_def find_None_iff
    using gen_arm_ids by fastforce
qed

lemma restrict_ok:
  assumes "st_ok u st'" and "gstruct_ok u st' s" and "extends st' st"
  shows "st_ok u st \<and> gstruct_ok u st (restrict_to u st s)"
proof -
  have "st_ok u st" using assms(1,3) extends_mem [OF assms(3)] unfolding st_ok_def go_names_def list_all_iff
    by (metis (no_types, lifting) distinct_map_filter extends_def)
  moreover have "gstruct_ok u st (restrict_to u st s)"
    using assms(2) extends_mem [OF assms(3)] restrict_name [of _ st u s]
    by (auto simp: gstruct_ok_def list_all_iff restrict_to_def)
  ultimately show ?thesis ..
qed

text \<open>C19 A struct can grow: a reader generated for an older version of a struct reads a body that
  the newer version's writer made, takes the fields it knows and skips the others, wherever
  they stand.\<close>

theorem newer_fields_skipped:
  assumes "st_ok u st'" and "gstruct_ok u st' s" and "extends st' st"
  shows "gen_decode u st (gen_encode u st' s) = Inr (restrict_to u st s)"
proof -
  let ?fs = "gen_fields u st' s" and ?t = "restrict_to u st s"
  have ok: "st_ok u st" "gstruct_ok u st ?t" using restrict_ok [OF assms] by simp_all
  have old: "field_fits (gen_arms u st) (f_ID f, s (GoName u (f_Name f)))" if "f \<in> set (st_Fields st)" for f
    using gen_field_arm(1) [OF ok that] restrict_name [OF that, of u s] by simp
  have new: "field_fits (gen_arms u st) (f_ID f, s (GoName u (f_Name f)))"
    if "f \<in> set (st_Fields st')" "f \<notin> set (st_Fields st)" for f
    using gen_arms_unknown [OF assms(1,3) that] assms(1,2) that
    by (auto simp: field_fits_def unknown_to_def st_ok_def gstruct_ok_def list_all_iff)
  have fits: "list_all (field_fits (gen_arms u st)) ?fs"
    unfolding gen_fields_def list_all_iff using old new by auto
  have known: "\<not> unknown_to (gen_arms u st) (f_ID f, v)" if "f \<in> set (st_Fields st)" for f v
  proof -
    have "f_Type f \<in> set field_types" using ok(1) that by (auto simp: st_ok_def list_all_iff)
    then obtain a where "gen_arm u f = [a]" using gen_arm_single [of f u] by blast
    then show ?thesis using find_gen_arm [of "st_Fields st" f u a] ok(1) that
      by (simp add: unknown_to_def gen_arms_def st_ok_def)
  qed
  have split: "unknown_to (gen_arms u st) (f_ID f, v) \<longleftrightarrow> f \<notin> set (st_Fields st)"
    if "f \<in> set (st_Fields st')" for f v
    using known gen_arms_unknown [OF assms(1,3) that] by blast
  have "filter (\<lambda>f. \<not> unknown_to (gen_arms u st) f) ?fs =
      map (\<lambda>f. (f_ID f, s (GoName u (f_Name f)))) (filter (\<lambda>f. f \<in> set (st_Fields st)) (st_Fields st'))"
    unfolding gen_fields_def filter_map comp_def using split by (metis (no_types, lifting) filter_cong)
  also have "\<dots> = gen_fields u st ?t"
    using assms(3) restrict_name [of _ st u s] unfolding extends_def gen_fields_def
    by (metis (no_types, lifting) map_cong)
  also have "\<dots> = filter (\<lambda>f. \<not> unknown_to (gen_arms u st) f) (gen_fields u st ?t)"
    using known by (auto simp: gen_fields_def filter_id_conv)
  finally have "filter (\<lambda>f. \<not> unknown_to (gen_arms u st) f) ?fs =
      filter (\<lambda>f. \<not> unknown_to (gen_arms u st) f) (gen_fields u st ?t)" .
  from gen.decode_later [of u st ?t, OF _ fits this] ok show ?thesis
    by (simp add: gen_decode_loop gen_encode_fields [OF assms(2)])
qed

definition demo_older :: strct where
  "demo_older = demo_strct\<lparr>st_Fields := [\<lparr>f_ID = 1, f_Type = ''i64'', f_Name = ''id''\<rparr>,
      \<lparr>f_ID = 700, f_Type = ''bool'', f_Name = ''done''\<rparr>]\<rparr>"

theorem newer_fields_skipped_witness:
  "gen_decode (\<lambda>s. s) demo_older (gen_encode (\<lambda>s. s) demo_strct demo_value) =
     Inr (restrict_to (\<lambda>s. s) demo_older demo_value)"
  by (rule newer_fields_skipped [OF demo_strct_ok]) (simp add: extends_def demo_older_def demo_strct_def)

end
