(* ===== verification/Frame.thy ===== *)
theory Frame
  imports Wire
begin

text \<open>
  runtime/frame.go: the frames of the RPC stream, \<open>[len:u32be][type:u8][seq:u32be]
  [mlen:u16be][method][hlen:u16be][hdr][body]\<close>. A connection's input is the list of the bytes
  that arrive before the read fails (end of stream or deadline); \<open>readMsg\<close> returns its result
  and what is left of the input, also when it fails.
\<close>

definition MsgCall :: byte where "MsgCall = 1"
definition MsgReply :: byte where "MsgReply = 2"
definition MsgException :: byte where "MsgException = 3"
definition maxFrame :: nat where "maxFrame = 2 ^ 20"

lemmas msg_type_defs = MsgCall_def MsgReply_def MsgException_def

lemma msg_types_distinct [simp]:
  "MsgCall \<noteq> MsgReply" "MsgReply \<noteq> MsgCall" "MsgCall \<noteq> MsgException" "MsgException \<noteq> MsgCall"
  "MsgReply \<noteq> MsgException" "MsgException \<noteq> MsgReply"
  by (simp_all add: msg_type_defs)

record message =
  mg_typ :: byte
  mg_seq :: u32
  mg_method :: string
  mg_hdr :: "byte list"
  mg_body :: "byte list"

datatype frame_err = FrameEof | FrameUnexpectedEof | FrameBad nat | FrameShortMethod | FrameShortHdr

section \<open>Writing\<close>

definition frame_len :: "message \<Rightarrow> nat" where
  "frame_len m = 1 + 4 + 2 + length (mg_method m) + 2 + length (mg_hdr m) + length (mg_body m)"

definition writeFrame :: "message \<Rightarrow> byte list" where
  "writeFrame m =
     be32 (word_of_nat (frame_len m)) @ [mg_typ m] @ be32 (mg_seq m)
     @ be16 (word_of_nat (length (mg_method m))) @ str_bytes (mg_method m)
     @ be16 (word_of_nat (length (mg_hdr m))) @ mg_hdr m @ mg_body m"

definition writeMsg :: "byte \<Rightarrow> u32 \<Rightarrow> string \<Rightarrow> byte list \<Rightarrow> byte list" where
  "writeMsg typ sq meth body =
     writeFrame \<lparr>mg_typ = typ, mg_seq = sq, mg_method = meth, mg_hdr = [], mg_body = body\<rparr>"

section \<open>Reading\<close>

definition readFull :: "nat \<Rightarrow> byte list \<Rightarrow> (frame_err + byte list) \<times> byte list" where
  "readFull n s =
     (if n \<le> length s then (Inr (take n s), drop n s)
      else if s = [] then (Inl FrameEof, []) else (Inl FrameUnexpectedEof, []))"

definition parse_frame :: "byte list \<Rightarrow> frame_err + message" where
  "parse_frame buf =
     (let typ = buf ! 0; sq = un32 (drop 1 buf); mlen = unat (un16 (drop 5 buf)) in
      if length buf < 7 + mlen + 2 then Inl FrameShortMethod
      else let hlen = unat (un16 (drop (7 + mlen) buf)); off = 7 + mlen + 2 in
        if length buf < off + hlen then Inl FrameShortHdr
        else Inr \<lparr>mg_typ = typ, mg_seq = sq, mg_method = bytes_str (take mlen (drop 7 buf)),
                  mg_hdr = take hlen (drop off buf), mg_body = drop (off + hlen) buf\<rparr>)"

definition readMsg :: "byte list \<Rightarrow> (frame_err + message) \<times> byte list" where
  "readMsg s =
     (case readFull 4 s of
        (Inl e, s1) \<Rightarrow> (Inl e, s1)
      | (Inr hd4, s1) \<Rightarrow>
          (let n = unat (un32 hd4) in
           if n < 9 \<or> maxFrame < n then (Inl (FrameBad n), s1)
           else case readFull n s1 of
             (Inl e, s2) \<Rightarrow> (Inl e, s2)
           | (Inr buf, s2) \<Rightarrow> (parse_frame buf, s2)))"

section \<open>The frames that make sense\<close>

definition frame_ok :: "message \<Rightarrow> bool" where
  "frame_ok m \<longleftrightarrow> length (mg_method m) < 2 ^ 16 \<and> length (mg_hdr m) < 2 ^ 16 \<and> frame_len m \<le> maxFrame"

definition frame_payload :: "message \<Rightarrow> byte list" where
  "frame_payload m =
     [mg_typ m] @ be32 (mg_seq m)
     @ be16 (word_of_nat (length (mg_method m))) @ str_bytes (mg_method m)
     @ be16 (word_of_nat (length (mg_hdr m))) @ mg_hdr m @ mg_body m"

lemma length_frame_payload [simp]: "length (frame_payload m) = frame_len m"
  by (simp add: frame_payload_def frame_len_def)

lemma writeFrame_payload: "writeFrame m = be32 (word_of_nat (frame_len m)) @ frame_payload m"
  by (simp add: writeFrame_def frame_payload_def)

lemma length_writeFrame [simp]: "length (writeFrame m) = frame_len m + 4"
  by (simp add: writeFrame_payload)

lemma parse_frame_payload:
  assumes "length (mg_method m) < 2 ^ 16" and "length (mg_hdr m) < 2 ^ 16"
  shows "parse_frame (frame_payload m) = Inr m"
proof -
  let ?mb = "str_bytes (mg_method m)" and ?b = "mg_body m"
  let ?M = "be16 (word_of_nat (length (mg_method m)))" and ?H = "be16 (word_of_nat (length (mg_hdr m)))"
  have d: "drop (Suc 0) (frame_payload m) = be32 (mg_seq m) @ ?M @ ?mb @ ?H @ mg_hdr m @ ?b"
    "drop 5 (frame_payload m) = ?M @ ?mb @ ?H @ mg_hdr m @ ?b"
    "drop 7 (frame_payload m) = ?mb @ ?H @ mg_hdr m @ ?b"
    "drop (7 + length (mg_method m)) (frame_payload m) = ?H @ mg_hdr m @ ?b"
    "drop (9 + length (mg_method m)) (frame_payload m) = mg_hdr m @ ?b"
    "drop (9 + length (mg_method m) + length (mg_hdr m)) (frame_payload m) = ?b"
    by (simp_all add: frame_payload_def drop_Cons')
  have u: "unat (word_of_nat (length (mg_method m)) :: u16) = length (mg_method m)"
    "unat (word_of_nat (length (mg_hdr m)) :: u16) = length (mg_hdr m)"
    using assms by (simp_all add: unat_of_nat)
  have t: "frame_payload m ! 0 = mg_typ m" by (simp add: frame_payload_def)
  have l: "frame_len m = 9 + length (mg_method m) + length (mg_hdr m) + length ?b"
    by (simp add: frame_len_def)
  show ?thesis
    unfolding parse_frame_def Let_def by (simp add: d u t l)
qed

lemma un_be_take_app: "length a = 4 \<Longrightarrow> un32 (a @ b) = un32 a"
  by (simp add: un32_def)

lemma un32_exact [simp]: "un32 (be32 v) = v"
  using un_be_app(2) [of v "[]"] by simp

lemma parse_frame_Inr:
  assumes "parse_frame buf = Inr m" and len: "9 \<le> length buf"
  shows "buf = frame_payload m \<and> length (mg_method m) < 2 ^ 16 \<and> length (mg_hdr m) < 2 ^ 16"
proof -
  let ?ml = "unat (un16 (drop 5 buf))"
  let ?hl = "unat (un16 (drop (7 + ?ml) buf))"
  have c: "7 + ?ml + 2 \<le> length buf" "7 + ?ml + 2 + ?hl \<le> length buf"
    and m: "m = \<lparr>mg_typ = buf ! 0, mg_seq = un32 (drop 1 buf),
        mg_method = bytes_str (take ?ml (drop 7 buf)), mg_hdr = take ?hl (drop (7 + ?ml + 2) buf),
        mg_body = drop (7 + ?ml + 2 + ?hl) buf\<rparr>"
    using assms(1) by (auto simp: parse_frame_def Let_def split: if_splits)
  have b: "be32 (un32 (drop 1 buf)) = take 4 (drop 1 buf)"
    "be16 (un16 (drop 5 buf)) = take 2 (drop 5 buf)"
    "be16 (un16 (drop (7 + ?ml) buf)) = take 2 (drop (7 + ?ml) buf)"
    using len c by (auto intro!: be_un)
  have glue: "take k (drop i buf) @ drop (i + k) buf = drop i buf" for k i
    by (metis append_take_drop_id drop_drop add.commute)
  have glue7: "take 2 (drop 5 buf) @ drop 7 buf = drop 5 buf"
    "take 4 (drop 1 buf) @ drop 5 buf = drop 1 buf" "take 1 buf @ drop 1 buf = buf"
    using glue [of 2 5] glue [of 4 1] by simp_all
  have one: "[buf ! 0] = take 1 buf" using len by (cases buf) auto
  have l: "length (mg_method m) = ?ml" "length (mg_hdr m) = ?hl"
    using c by (simp_all add: m)
  have "frame_payload m = take 1 buf @ take 4 (drop 1 buf) @ take 2 (drop 5 buf)
      @ take ?ml (drop 7 buf) @ take 2 (drop (7 + ?ml) buf)
      @ take ?hl (drop (7 + ?ml + 2) buf) @ drop (7 + ?ml + 2 + ?hl) buf"
    unfolding frame_payload_def l using b one by (simp add: m)
  also have "\<dots> = buf"
    by (simp only: glue glue7)
  finally have "frame_payload m = buf" .
  moreover have "?ml < 2 ^ 16" "?hl < 2 ^ 16"
    using unsigned_less [of "un16 (drop 5 buf)", where ?'a = nat]
      unsigned_less [of "un16 (drop (7 + ?ml) buf)", where ?'a = nat] by simp_all
  ultimately show ?thesis using l by simp
qed

section \<open>Framing\<close>

lemma readFull_app [simp]: "readFull (length a) (a @ b) = (Inr a, b)"
  by (simp add: readFull_def)

lemma readFull_Inr: "readFull n s = (Inr a, b) \<longleftrightarrow> s = a @ b \<and> length a = n"
  by (auto simp: readFull_def)

lemma readFull_shrinks: "length (snd (readFull n s)) \<le> length s"
  by (simp add: readFull_def)

lemma frame_len_ge: "9 \<le> frame_len m"
  by (simp add: frame_len_def)

lemma readMsg_frame:
  assumes "frame_ok m"
  shows "readMsg (writeFrame m @ rest) = (Inr m, rest)"
proof -
  have "frame_len m < 2 ^ 32" using assms by (simp add: frame_ok_def maxFrame_def)
  then have u: "unat (word_of_nat (frame_len m) :: u32) = frame_len m"
    by (simp add: unat_of_nat)
  have r: "readFull 4 (be32 (word_of_nat (frame_len m)) @ frame_payload m @ rest) =
      (Inr (be32 (word_of_nat (frame_len m))), frame_payload m @ rest)"
    using readFull_app [of "be32 (word_of_nat (frame_len m))"] by simp
  have p: "readFull (frame_len m) (frame_payload m @ rest) = (Inr (frame_payload m), rest)"
    using readFull_app [of "frame_payload m" rest] by simp
  have "\<not> (frame_len m < 9 \<or> maxFrame < frame_len m)"
    using assms frame_len_ge [of m] by (simp add: frame_ok_def)
  then show ?thesis using assms
    by (simp add: readMsg_def writeFrame_payload r p u parse_frame_payload frame_ok_def)
qed

lemma readMsg_Inr:
  assumes "readMsg s = (Inr m, rest)"
  shows "s = writeFrame m @ rest \<and> frame_ok m"
proof -
  obtain hd4 s1 where h: "readFull 4 s = (Inr hd4, s1)"
    using assms by (auto simp: readMsg_def split: prod.splits sum.splits)
  let ?n = "unat (un32 hd4)"
  obtain buf where n: "9 \<le> ?n" "?n \<le> maxFrame" and f: "readFull ?n s1 = (Inr buf, rest)"
    and p: "parse_frame buf = Inr m"
    using assms h by (auto simp: readMsg_def Let_def split: prod.splits sum.splits if_splits)
  have s: "s = hd4 @ buf @ rest" "length hd4 = 4" "length buf = ?n"
    using h f by (simp_all add: readFull_Inr)
  then have b: "buf = frame_payload m" "length (mg_method m) < 2 ^ 16" "length (mg_hdr m) < 2 ^ 16"
    using parse_frame_Inr [OF p] n by simp_all
  then have l: "frame_len m = ?n" using s(3) by simp
  then have "be32 (word_of_nat (frame_len m)) = hd4"
    using be_un(2) [of hd4] s(2) by simp
  then show ?thesis using s b l n by (simp add: writeFrame_payload frame_ok_def)
qed

lemma readMsg_iff: "readMsg s = (Inr m, rest) \<longleftrightarrow> s = writeFrame m @ rest \<and> frame_ok m"
  using readMsg_frame readMsg_Inr by blast

lemma readMsg_shrinks: "length (snd (readMsg s)) \<le> length s"
  by (auto simp: readMsg_def Let_def split: prod.splits sum.splits
      dest!: arg_cong [where f = snd] intro: order_trans [OF readFull_shrinks readFull_shrinks]
        readFull_shrinks)

lemma readMsg_advances: "readMsg s = (Inr m, rest) \<Longrightarrow> length rest + 13 \<le> length s"
  using frame_len_ge [of m] by (simp add: readMsg_iff)

lemma readMsg_short: "length s < 4 \<Longrightarrow> \<exists>e. readMsg s = (Inl e, [])"
  by (simp add: readMsg_def readFull_def)

lemma readMsg_nil [simp]: "readMsg [] = (Inl FrameEof, [])"
  by (simp add: readMsg_def readFull_def)

text \<open>The writer has no limit of its own: what the reader refuses of what it writes.\<close>

lemma readMsg_too_long:
  assumes "maxFrame < frame_len m" and "frame_len m < 2 ^ 32"
  shows "readMsg (writeFrame m @ rest) = (Inl (FrameBad (frame_len m)), frame_payload m @ rest)"
proof -
  have u: "unat (word_of_nat (frame_len m) :: u32) = frame_len m"
    using assms(2) by (simp add: unat_of_nat)
  have r: "readFull 4 (be32 (word_of_nat (frame_len m)) @ frame_payload m @ rest) =
      (Inr (be32 (word_of_nat (frame_len m))), frame_payload m @ rest)"
    using readFull_app [of "be32 (word_of_nat (frame_len m))"] by simp
  show ?thesis using assms(1) by (simp add: readMsg_def writeFrame_payload r u)
qed

section \<open>Properties\<close>

text \<open>C4 The reader of frames accepts exactly what the writer writes, within the limits of the
  format (16-bit method and header lengths, frames of at most 1 MiB): a message is read off a
  stream, with the rest left over, iff the stream starts with the frame written for it.\<close>

theorem frames_canonical:
  "readMsg s = (Inr m, rest) \<longleftrightarrow> s = writeFrame m @ rest \<and> frame_ok m"
  by (rule readMsg_iff)

end
