(* ===== verification/Runtime.thy ===== *)
theory Runtime
  imports Frame
begin

text \<open>
  Package \<open>runtime\<close>: contexts, spans (trace.go), the middlewares (middleware.go), the server's
  connection loop (server.go) and the client's call (client.go). Handlers are state-passing
  functions on a world that holds the application's state, the random source, the clock
  readings and what the middlewares emit: counter increments, durations, log lines, spans.
  The locale \<open>transparent\<close> is what the server promises of a middleware: it calls the next
  handler once with the same body and returns its result.
\<close>

section \<open>Contexts and worlds\<close>

record rpcInfo =
  ri_method :: string
  ri_seq :: u32
  ri_hdr :: "byte list"

record spanContext =
  sc_traceID :: "byte list"
  sc_spanID :: "byte list"

record ctx =
  cx_rpc :: "rpcInfo option"
  cx_span :: "spanContext option"
  cx_logger :: "string option"

definition Background :: ctx where
  "Background = \<lparr>cx_rpc = None, cx_span = None, cx_logger = None\<rparr>"

definition withRPC :: "ctx \<Rightarrow> rpcInfo \<Rightarrow> ctx" where
  "withRPC c info = c\<lparr>cx_rpc := Some info\<rparr>"

definition infoFrom :: "ctx \<Rightarrow> rpcInfo" where
  "infoFrom c = (case cx_rpc c of Some i \<Rightarrow> i | None \<Rightarrow> \<lparr>ri_method = [], ri_seq = 0, ri_hdr = []\<rparr>)"

record rt_env =
  zipkinURL :: string
  traceSvc :: string
  traceInst :: string

definition envOr :: "(string \<Rightarrow> string) \<Rightarrow> string \<Rightarrow> string \<Rightarrow> string" where
  "envOr getenv key d = (if getenv key \<noteq> [] then getenv key else d)"

definition rt_env_of :: "(string \<Rightarrow> string) \<Rightarrow> rt_env" where
  "rt_env_of getenv =
     \<lparr>zipkinURL = getenv ''JAEGER'',
      traceSvc = envOr getenv ''PSM'' (envOr getenv ''INSTANCE'' ''rpc''),
      traceInst = getenv ''INSTANCE''\<rparr>"

datatype log_line =
    LogError (log_trace: "string option") (log_method: string) (log_seq: u32) (log_err: string)
  | LogInfo (log_trace: "string option") (log_method: string) (log_seq: u32)

record zipkinSpan =
  zs_ID :: string
  zs_TraceID :: string
  zs_ParentID :: string
  zs_Name :: string
  zs_Timestamp :: int
  zs_Duration :: int
  zs_Service :: string
  zs_Tags :: "(string \<times> string) list"

record 's world =
  w_app :: 's
  w_rand :: "nat \<Rightarrow> byte"
  w_rix :: nat
  w_clock :: "nat \<Rightarrow> int"
  w_tick :: nat
  w_requests :: "(string \<times> string) list"
  w_durations :: "(string \<times> int) list"
  w_logs :: "log_line list"
  w_spans :: "zipkinSpan list"

definition randN :: "nat \<Rightarrow> 's world \<Rightarrow> byte list \<times> 's world" where
  "randN n w = (map (w_rand w) [w_rix w ..< w_rix w + n], w\<lparr>w_rix := w_rix w + n\<rparr>)"

definition now :: "'s world \<Rightarrow> int \<times> 's world" where
  "now w = (w_clock w (w_tick w), w\<lparr>w_tick := w_tick w + 1\<rparr>)"

type_synonym 's handler = "ctx \<Rightarrow> byte list \<Rightarrow> 's world \<Rightarrow> (string + byte list) \<times> 's world"

section \<open>Spans\<close>

record span =
  sp_name :: string
  sp_sc :: spanContext
  sp_parent :: "byte list"
  sp_hasPar :: bool
  sp_start :: int
  sp_service :: string
  sp_instance :: string

definition startSpan :: "rt_env \<Rightarrow> ctx \<Rightarrow> string \<Rightarrow> byte list \<Rightarrow> 's world \<Rightarrow> (ctx \<times> span) \<times> 's world" where
  "startSpan e c name hdr w =
     (case now w of (t0, w1) \<Rightarrow>
       (let (tid, par, hp, w2) =
              (if 24 \<le> length hdr
               then (take 16 hdr, take 8 (drop 16 hdr), take 8 (drop 16 hdr) \<noteq> replicate 8 0, w1)
               else (case randN 16 w1 of (tid, w2) \<Rightarrow> (tid, replicate 8 0, False, w2)));
            (sid, w3) = randN 8 w2;
            sc = \<lparr>sc_traceID = tid, sc_spanID = sid\<rparr>
        in ((c\<lparr>cx_span := Some sc\<rparr>,
             \<lparr>sp_name = name, sp_sc = sc, sp_parent = par, sp_hasPar = hp, sp_start = t0,
              sp_service = traceSvc e, sp_instance = traceInst e\<rparr>), w3)))"

definition outgoingHdr :: "ctx \<Rightarrow> byte list" where
  "outgoingHdr c = (case cx_span c of None \<Rightarrow> [] | Some sc \<Rightarrow> sc_traceID sc @ sc_spanID sc)"

definition hexTrace :: "span \<Rightarrow> string" where
  "hexTrace sp = hex_encode (sc_traceID (sp_sc sp))"

definition span_tags :: "span \<Rightarrow> (string + byte list) \<Rightarrow> (string \<times> string) list" where
  "span_tags sp r =
     (if sp_instance sp \<noteq> [] then [(''instance'', sp_instance sp)] else [])
     @ (case r of Inl e \<Rightarrow> [(''error'', e)] | Inr _ \<Rightarrow> [])"

definition finish :: "rt_env \<Rightarrow> span \<Rightarrow> (string + byte list) \<Rightarrow> 's world \<Rightarrow> 's world" where
  "finish e sp r w =
     (if zipkinURL e = [] then w
      else case now w of (t1, w1) \<Rightarrow>
        (let dur = (t1 - sp_start sp) div 1000 in
         w1\<lparr>w_spans := w_spans w1 @
            [\<lparr>zs_ID = hex_encode (sc_spanID (sp_sc sp)), zs_TraceID = hexTrace sp,
              zs_ParentID = (if sp_hasPar sp then hex_encode (sp_parent sp) else []),
              zs_Name = sp_name sp, zs_Timestamp = sp_start sp div 1000,
              zs_Duration = (if dur < 1 then 1 else dur), zs_Service = sp_service sp,
              zs_Tags = span_tags sp r\<rparr>]\<rparr>))"

section \<open>Middlewares\<close>

definition Trace :: "rt_env \<Rightarrow> 's handler \<Rightarrow> 's handler" where
  "Trace e next c body w =
     (case startSpan e c (ri_method (infoFrom c)) (ri_hdr (infoFrom c)) w of
        ((c1, sp), w1) \<Rightarrow>
          (case next (c1\<lparr>cx_logger := Some (hexTrace sp)\<rparr>) body w1 of
             (r, w2) \<Rightarrow> (r, finish e sp r w2)))"

definition Metrics :: "'s handler \<Rightarrow> 's handler" where
  "Metrics next c body w =
     (case now w of (t0, w1) \<Rightarrow>
       (case next c body w1 of (r, w2) \<Rightarrow>
         (let w3 = w2\<lparr>w_requests := w_requests w2 @
                      [(ri_method (infoFrom c), if isOk r then ''ok'' else ''error'')]\<rparr>;
              (t1, w4) = now w3
          in (r, w4\<lparr>w_durations := w_durations w4 @ [(ri_method (infoFrom c), t1 - t0)]\<rparr>))))"

definition Log :: "'s handler \<Rightarrow> 's handler" where
  "Log next c body w =
     (case next c body w of (r, w1) \<Rightarrow>
       (r, w1\<lparr>w_logs := w_logs w1 @
           [case r of
              Inl e \<Rightarrow> LogError (cx_logger c) (ri_method (infoFrom c)) (ri_seq (infoFrom c)) e
            | Inr _ \<Rightarrow> LogInfo (cx_logger c) (ri_method (infoFrom c)) (ri_seq (infoFrom c))]\<rparr>))"

text \<open>\<open>chain\<close> applies the middlewares from the last to the first: the first is the outermost.\<close>

definition chain :: "('s handler \<Rightarrow> 's handler) list \<Rightarrow> 's handler \<Rightarrow> 's handler" where
  "chain mws h = foldl (\<lambda>h mw. mw h) h (rev mws)"

section \<open>Server\<close>

record 's server =
  sv_handlers :: "string \<Rightarrow> 's handler option"
  sv_mws :: "('s handler \<Rightarrow> 's handler) list"

definition Use :: "('s handler \<Rightarrow> 's handler) list \<Rightarrow> 's server \<Rightarrow> 's server" where
  "Use ms sv = sv\<lparr>sv_mws := sv_mws sv @ ms\<rparr>"

definition Handle :: "string \<Rightarrow> 's handler \<Rightarrow> 's server \<Rightarrow> 's server" where
  "Handle m h sv = sv\<lparr>sv_handlers := (sv_handlers sv)(m := Some h)\<rparr>"

definition NewServer :: "rt_env \<Rightarrow> 's server" where
  "NewServer e = Use [Trace e, Metrics, Log] \<lparr>sv_handlers = (\<lambda>_. None), sv_mws = []\<rparr>"

definition unknown_handler :: "string \<Rightarrow> 's handler" where
  "unknown_handler m c body w = (Inl (''unknown method '' @ m), w)"

definition lookup_handler :: "'s server \<Rightarrow> string \<Rightarrow> 's handler" where
  "lookup_handler sv m = (case sv_handlers sv m of Some h \<Rightarrow> h | None \<Rightarrow> unknown_handler m)"

text \<open>What the loop body of \<open>serve\<close> answers to one message.\<close>

definition serve_msg :: "'s server \<Rightarrow> message \<Rightarrow> 's world \<Rightarrow> byte list \<times> 's world" where
  "serve_msg sv m w =
     (if mg_typ m \<noteq> MsgCall
      then (writeMsg MsgException (mg_seq m) (mg_method m) (str_bytes ''not a call''), w)
      else
        (let c = withRPC Background
                   \<lparr>ri_method = mg_method m, ri_seq = mg_seq m, ri_hdr = mg_hdr m\<rparr>
         in case chain (sv_mws sv) (lookup_handler sv (mg_method m)) c (mg_body m) w of
              (Inl e, w1) \<Rightarrow> (writeMsg MsgException (mg_seq m) (mg_method m) (str_bytes e), w1)
            | (Inr body, w1) \<Rightarrow> (writeMsg MsgReply (mg_seq m) (mg_method m) body, w1)))"

function serve :: "'s server \<Rightarrow> byte list \<Rightarrow> 's world \<Rightarrow> byte list \<times> 's world" where
  "serve sv s w =
     (case readMsg s of
        (Inl _, _) \<Rightarrow> ([], w)
      | (Inr m, rest) \<Rightarrow>
          (case serve_msg sv m w of (out, w1) \<Rightarrow>
            (case serve sv rest w1 of (outs, w2) \<Rightarrow> (out @ outs, w2))))"
  by pat_completeness auto
termination
  by (relation "measure (\<lambda>(_, s, _). length s)") (auto dest!: readMsg_advances [OF sym])

declare serve.simps [simp del]

section \<open>Client\<close>

datatype call_err =
  CallWrite | CallRead frame_err | CallSeq | CallRemote string | CallBadType byte

text \<open>
  \<open>cl_in\<close> is what has arrived on the connection and is not read yet. The network is a
  function of the frame written: whether the write succeeds, and the bytes that arrive
  until the read has its frame or fails.
\<close>

record client =
  cl_seq :: u32
  cl_in :: "byte list"

definition Dial :: client where "Dial = \<lparr>cl_seq = 0, cl_in = []\<rparr>"

type_synonym net = "byte list \<Rightarrow> bool \<times> byte list"

definition Call :: "net \<Rightarrow> ctx \<Rightarrow> string \<Rightarrow> byte list \<Rightarrow> client \<Rightarrow> (call_err + byte list) \<times> client" where
  "Call net c meth body cl =
     (let sq = cl_seq cl + 1;
          frame = writeFrame \<lparr>mg_typ = MsgCall, mg_seq = sq, mg_method = meth,
                              mg_hdr = outgoingHdr c, mg_body = body\<rparr>
      in case net frame of
           (False, arr) \<Rightarrow> (Inl CallWrite, cl\<lparr>cl_seq := sq, cl_in := cl_in cl @ arr\<rparr>)
         | (True, arr) \<Rightarrow>
             (case readMsg (cl_in cl @ arr) of
                (Inl e, rest) \<Rightarrow> (Inl (CallRead e), \<lparr>cl_seq = sq, cl_in = rest\<rparr>)
              | (Inr m, rest) \<Rightarrow>
                  ((if mg_seq m \<noteq> sq then Inl CallSeq
                    else if mg_typ m = MsgException then Inl (CallRemote (bytes_str (mg_body m)))
                    else if mg_typ m \<noteq> MsgReply then Inl (CallBadType (mg_typ m))
                    else Inr (mg_body m)),
                   \<lparr>cl_seq = sq, cl_in = rest\<rparr>)))"

section \<open>A connection answers each frame once\<close>

definition reply_to :: "'s server \<Rightarrow> message \<Rightarrow> 's world \<Rightarrow> message \<times> 's world" where
  "reply_to sv m w =
     (let f = (\<lambda>t b. \<lparr>mg_typ = t, mg_seq = mg_seq m, mg_method = mg_method m, mg_hdr = [], mg_body = b\<rparr>)
      in if mg_typ m \<noteq> MsgCall then (f MsgException (str_bytes ''not a call''), w)
         else case chain (sv_mws sv) (lookup_handler sv (mg_method m))
                (withRPC Background \<lparr>ri_method = mg_method m, ri_seq = mg_seq m, ri_hdr = mg_hdr m\<rparr>)
                (mg_body m) w of
           (r, w1) \<Rightarrow> (case r of Inl e \<Rightarrow> f MsgException (str_bytes e) | Inr b \<Rightarrow> f MsgReply b, w1))"

lemma serve_msg_reply: "serve_msg sv m w = (writeFrame (fst (reply_to sv m w)), snd (reply_to sv m w))"
  by (simp add: serve_msg_def reply_to_def writeMsg_def Let_def split: prod.split sum.split)

fun replies :: "'s server \<Rightarrow> message list \<Rightarrow> 's world \<Rightarrow> message list \<times> 's world" where
  "replies sv [] w = ([], w)"
| "replies sv (m # ms) w =
     (case reply_to sv m w of (r, w1) \<Rightarrow> (case replies sv ms w1 of (rs, w2) \<Rightarrow> (r # rs, w2)))"

definition answers :: "message \<Rightarrow> message \<Rightarrow> bool" where
  "answers m r \<longleftrightarrow> mg_seq r = mg_seq m \<and> mg_method r = mg_method m \<and>
     (mg_typ r = MsgException \<or> mg_typ m = MsgCall \<and> mg_typ r = MsgReply)"

lemma reply_to_answers: "answers m (fst (reply_to sv m w))"
  by (simp add: answers_def reply_to_def Let_def split: prod.split sum.split)

lemma replies_answers: "list_all2 answers ms (fst (replies sv ms w))"
proof (induction sv ms w rule: replies.induct)
  case (2 sv m ms w)
  then show ?case using reply_to_answers [of m sv w] by (auto split: prod.splits)
qed simp

lemma serve_stop: "readMsg s = (Inl e, r) \<Longrightarrow> serve sv s w = ([], w)"
  by (simp add: serve.simps)

lemma serve_frame:
  assumes "frame_ok m"
  shows "serve sv (writeFrame m @ s) w =
    (writeFrame (fst (reply_to sv m w)) @ fst (serve sv s (snd (reply_to sv m w))),
     snd (serve sv s (snd (reply_to sv m w))))"
  by (subst serve.simps) (simp add: readMsg_frame assms serve_msg_reply split: prod.split)

lemma serve_frames:
  assumes "list_all frame_ok ms" and "readMsg tl0 = (Inl e, r)"
  shows "serve sv (concat (map writeFrame ms) @ tl0) w =
    (concat (map writeFrame (fst (replies sv ms w))), snd (replies sv ms w))"
  using assms(1)
  by (induction ms arbitrary: w) (auto simp: serve_stop [OF assms(2)] serve_frame split: prod.splits)

text \<open>Every input is a sequence of frames and a tail that is not one.\<close>

lemma stream_frames:
  obtains ms tl0 e r where "s = concat (map writeFrame ms) @ tl0" "list_all frame_ok ms"
    "readMsg tl0 = (Inl e, r)"
proof -
  have "\<exists>ms tl0 e r. s = concat (map writeFrame ms) @ tl0 \<and> list_all frame_ok ms \<and> readMsg tl0 = (Inl e, r)"
  proof (induction s rule: measure_induct_rule [of length])
    case (less s)
    show ?case
    proof (cases "readMsg s")
      case (Pair x rest)
      show ?thesis
      proof (cases x)
        case (Inl e)
        with Pair have "s = concat (map writeFrame []) @ s \<and> list_all frame_ok [] \<and> readMsg s = (Inl e, rest)"
          by simp
        then show ?thesis by blast
      next
        case (Inr m)
        with Pair have s: "s = writeFrame m @ rest" "frame_ok m" by (simp_all add: readMsg_iff)
        then have "length rest < length s" by simp
        from less.IH [OF this] obtain ms tl0 e r where
          "rest = concat (map writeFrame ms) @ tl0" "list_all frame_ok ms" "readMsg tl0 = (Inl e, r)" by blast
        with s have "s = concat (map writeFrame (m # ms)) @ tl0 \<and> list_all frame_ok (m # ms) \<and>
            readMsg tl0 = (Inl e, r)" by simp
        then show ?thesis by blast
      qed
    qed
  qed
  then show thesis using that by blast
qed

section \<open>Transparent middlewares\<close>

text \<open>
  An application handler: its result and its effect on the application's state depend on
  the call (method, seq), the body and that state only.
\<close>

definition app_handler :: "('s handler) \<Rightarrow> (rpcInfo option \<Rightarrow> byte list \<Rightarrow> 's \<Rightarrow> (string + byte list) \<times> 's) \<Rightarrow> bool" where
  "app_handler h f \<longleftrightarrow>
     (\<forall>c b w. fst (h c b w) = fst (f (cx_rpc c) b (w_app w)) \<and>
              w_app (snd (h c b w)) = snd (f (cx_rpc c) b (w_app w)))"

lemma app_handlerD:
  "app_handler h f \<Longrightarrow> fst (h c b w) = fst (f (cx_rpc c) b (w_app w))"
  "app_handler h f \<Longrightarrow> w_app (snd (h c b w)) = snd (f (cx_rpc c) b (w_app w))"
  by (simp_all add: app_handler_def)

locale transparent =
  fixes mw :: "'s handler \<Rightarrow> 's handler"
  assumes calls_next:
    "\<exists>c' w'. cx_rpc c' = cx_rpc c \<and> w_app w' = w_app w \<and>
       fst (mw next c b w) = fst (next c' b w') \<and>
       w_app (snd (mw next c b w)) = w_app (snd (next c' b w'))"
begin

lemma keeps_app: "app_handler h f \<Longrightarrow> app_handler (mw h) f"
  unfolding app_handler_def
proof (intro allI)
  fix c b w
  assume h: "\<forall>c b w. fst (h c b w) = fst (f (cx_rpc c) b (w_app w)) \<and>
              w_app (snd (h c b w)) = snd (f (cx_rpc c) b (w_app w))"
  obtain c' w' where "cx_rpc c' = cx_rpc c" "w_app w' = w_app w"
    "fst (mw h c b w) = fst (h c' b w')" "w_app (snd (mw h c b w)) = w_app (snd (h c' b w'))"
    using calls_next [of c w h b] by blast
  with h show "fst (mw h c b w) = fst (f (cx_rpc c) b (w_app w)) \<and>
      w_app (snd (mw h c b w)) = snd (f (cx_rpc c) b (w_app w))" by simp
qed

end

lemma now_app [simp]: "w_app (snd (now w)) = w_app w"
  by (simp add: now_def)

lemma randN_app [simp]: "w_app (snd (randN n w)) = w_app w"
  by (simp add: randN_def)

lemma length_randN [simp]: "length (fst (randN n w)) = n"
  by (simp add: randN_def)

lemma finish_app [simp]: "w_app (finish e sp r w) = w_app w"
  by (simp add: finish_def Let_def now_def)

lemma startSpan_props:
  assumes "startSpan e c name hdr w = ((c', sp), w')"
  shows "cx_rpc c' = cx_rpc c" "w_app w' = w_app w" "cx_span c' = Some (sp_sc sp)"
    "length (sc_traceID (sp_sc sp)) = 16" "length (sc_spanID (sp_sc sp)) = 8"
  using assms by (auto simp: startSpan_def Let_def randN_def now_def split: if_splits)

lemma startSpan_parent:
  assumes "startSpan e c name hdr w = ((c', sp), w')" and "24 \<le> length hdr"
  shows "sc_traceID (sp_sc sp) = take 16 hdr" "sp_parent sp = take 8 (drop 16 hdr)"
    "sp_hasPar sp \<longleftrightarrow> take 8 (drop 16 hdr) \<noteq> replicate 8 0"
  using assms by (auto simp: startSpan_def Let_def randN_def now_def split: if_splits)

interpretation trace_mw: transparent "Trace e" for e
proof (unfold_locales)
  fix c :: ctx and w :: "'a world" and "next" :: "'a handler" and b
  obtain c1 sp w1 where s: "startSpan e c (ri_method (infoFrom c)) (ri_hdr (infoFrom c)) w = ((c1, sp), w1)"
    by (metis prod.collapse)
  show "\<exists>c' w'. cx_rpc c' = cx_rpc c \<and> w_app w' = w_app w \<and>
       fst (Trace e next c b w) = fst (next c' b w') \<and>
       w_app (snd (Trace e next c b w)) = w_app (snd (next c' b w'))"
    using startSpan_props(1,2) [OF s]
    by (intro exI [of _ "c1\<lparr>cx_logger := Some (hexTrace sp)\<rparr>"] exI [of _ w1])
      (simp add: Trace_def s split: prod.split)
qed

interpretation metrics_mw: transparent Metrics
proof (unfold_locales)
  fix c :: ctx and w :: "'a world" and "next" :: "'a handler" and b
  show "\<exists>c' w'. cx_rpc c' = cx_rpc c \<and> w_app w' = w_app w \<and>
       fst (Metrics next c b w) = fst (next c' b w') \<and>
       w_app (snd (Metrics next c b w)) = w_app (snd (next c' b w'))"
    by (intro exI [of _ c] exI [of _ "snd (now w)"])
      (simp add: Metrics_def now_def Let_def split: prod.split)
qed

interpretation log_mw: transparent Log
  by (unfold_locales, rule exI, rule exI) (auto simp: Log_def split: prod.split)

lemma chain_simps [simp]: "chain [] h = h" "chain (m # ms) h = m (chain ms h)"
  by (simp_all add: chain_def)

lemma chain_append: "chain (ms @ ns) h = chain ms (chain ns h)"
  by (induction ms) simp_all

lemma chain_app:
  assumes "\<forall>m\<in>set ms. transparent m" and "app_handler h f"
  shows "app_handler (chain ms h) f"
  using assms by (induction ms) (auto intro: transparent.keeps_app)

lemma NewServer_mws: "sv_mws (NewServer e) = [Trace e, Metrics, Log]"
  by (simp add: NewServer_def Use_def)

lemma NewServer_transparent: "\<forall>m\<in>set (sv_mws (NewServer e)). transparent m"
  by (simp add: NewServer_mws trace_mw.transparent_axioms metrics_mw.transparent_axioms
      log_mw.transparent_axioms)

section \<open>Traces\<close>

lemma outgoingHdr_span [simp]:
  "cx_span c = Some sc \<Longrightarrow> outgoingHdr c = sc_traceID sc @ sc_spanID sc"
  by (simp add: outgoingHdr_def)

definition sc_ok :: "spanContext \<Rightarrow> bool" where
  "sc_ok sc \<longleftrightarrow> length (sc_traceID sc) = 16 \<and> length (sc_spanID sc) = 8"

lemma startSpan_continues:
  assumes "startSpan e c0 name (outgoingHdr c) w = ((c', sp), w')"
    and "cx_span c = Some sc" and "sc_ok sc"
  shows "cx_span c' = Some (sp_sc sp)" "sc_ok (sp_sc sp)" "sc_traceID (sp_sc sp) = sc_traceID sc"
    "sp_parent sp = sc_spanID sc"
  using assms startSpan_props(3-5) [OF assms(1)] startSpan_parent [OF assms(1)]
  by (simp_all add: sc_ok_def)

text \<open>The context after \<open>k\<close> calls, each made by the handler of the one before.\<close>

fun hops :: "rt_env \<Rightarrow> nat \<Rightarrow> string \<Rightarrow> ctx \<Rightarrow> 's world \<Rightarrow> ctx" where
  "hops e 0 name c w = c"
| "hops e (Suc k) name c w =
     (case startSpan e Background name (outgoingHdr c) w of ((c', _), w') \<Rightarrow> hops e k name c' w')"

lemma hops_trace:
  assumes "cx_span c = Some sc" and "sc_ok sc"
  shows "\<exists>sc'. cx_span (hops e k name c w) = Some sc' \<and> sc_ok sc' \<and> sc_traceID sc' = sc_traceID sc"
  using assms
proof (induction k arbitrary: c sc w)
  case (Suc k)
  obtain c' sp w' where s: "startSpan e Background name (outgoingHdr c) w = ((c', sp), w')"
    by (metis prod.collapse)
  note n = startSpan_continues [OF s Suc.prems]
  from Suc.IH [OF n(1,2), of w'] n(3) show ?case by (simp add: s)
qed simp

section \<open>Calls\<close>

definition call_msg :: "ctx \<Rightarrow> string \<Rightarrow> byte list \<Rightarrow> client \<Rightarrow> message" where
  "call_msg c meth body cl =
     \<lparr>mg_typ = MsgCall, mg_seq = cl_seq cl + 1, mg_method = meth, mg_hdr = outgoingHdr c, mg_body = body\<rparr>"

definition result_of :: "u32 \<Rightarrow> message \<Rightarrow> call_err + byte list" where
  "result_of sq m =
     (if mg_seq m \<noteq> sq then Inl CallSeq
      else if mg_typ m = MsgException then Inl (CallRemote (bytes_str (mg_body m)))
      else if mg_typ m \<noteq> MsgReply then Inl (CallBadType (mg_typ m))
      else Inr (mg_body m))"

lemma Call_read:
  assumes "net (writeFrame (call_msg c meth body cl)) = (True, arr)"
    and "cl_in cl @ arr = writeFrame m @ rest" and "frame_ok m"
  shows "Call net c meth body cl = (result_of (cl_seq cl + 1) m, \<lparr>cl_seq = cl_seq cl + 1, cl_in = rest\<rparr>)"
  using assms by (simp add: Call_def call_msg_def result_of_def readMsg_frame)

lemma Call_read_fail:
  assumes "net (writeFrame (call_msg c meth body cl)) = (True, arr)"
    and "readMsg (cl_in cl @ arr) = (Inl e, rest)"
  shows "Call net c meth body cl = (Inl (CallRead e), \<lparr>cl_seq = cl_seq cl + 1, cl_in = rest\<rparr>)"
  using assms by (simp add: Call_def call_msg_def)

lemma serve_one:
  "frame_ok m \<Longrightarrow> serve sv (writeFrame m) w = (writeFrame (fst (reply_to sv m w)), snd (reply_to sv m w))"
  using serve_frame [of m sv "[]" w] by (simp add: serve_stop)

lemma Call_served:
  assumes "cl_in cl = []" and "frame_ok (call_msg c meth body cl)"
    and "frame_ok (fst (reply_to sv (call_msg c meth body cl) w))"
  shows "Call (\<lambda>b. (True, fst (serve sv b w))) c meth body cl =
    (result_of (cl_seq cl + 1) (fst (reply_to sv (call_msg c meth body cl) w)),
     \<lparr>cl_seq = cl_seq cl + 1, cl_in = []\<rparr>)"
  by (rule Call_read [where arr = "writeFrame (fst (reply_to sv (call_msg c meth body cl) w))"])
    (use assms in \<open>simp_all add: serve_one\<close>)

lemma result_of_reply:
  "result_of (mg_seq m) (fst (reply_to sv m w)) =
    (if mg_typ m \<noteq> MsgCall then Inl (CallRemote ''not a call'')
     else case fst (chain (sv_mws sv) (lookup_handler sv (mg_method m))
                (withRPC Background \<lparr>ri_method = mg_method m, ri_seq = mg_seq m, ri_hdr = mg_hdr m\<rparr>)
                (mg_body m) w) of
            Inl e \<Rightarrow> Inl (CallRemote e) | Inr b \<Rightarrow> Inr b)"
  by (simp add: result_of_def reply_to_def Let_def split: prod.split sum.split)

text \<open>A client whose stream holds a reply it did not wait for.\<close>

definition stale :: "client \<Rightarrow> bool" where
  "stale cl \<longleftrightarrow> (\<exists>m. cl_in cl = writeFrame m \<and> frame_ok m \<and> mg_seq m = cl_seq cl)"

text \<open>A peer that answers each call frame with one frame of the call's sequence number.\<close>

definition lockstep :: "net \<Rightarrow> bool" where
  "lockstep net \<longleftrightarrow> (\<forall>m. \<exists>r. net (writeFrame m) = (True, writeFrame r) \<and> frame_ok r \<and> mg_seq r = mg_seq m)"

lemma stale_call:
  assumes "stale cl" and "lockstep net"
  shows "fst (Call net c meth body cl) = Inl CallSeq \<and> stale (snd (Call net c meth body cl))"
proof -
  obtain m where m: "cl_in cl = writeFrame m" "frame_ok m" "mg_seq m = cl_seq cl"
    using assms(1) by (auto simp: stale_def)
  obtain r where r: "net (writeFrame (call_msg c meth body cl)) = (True, writeFrame r)" "frame_ok r"
    "mg_seq r = cl_seq cl + 1"
    using assms(2) unfolding lockstep_def by (metis call_msg_def message.select_convs(2))
  have "Call net c meth body cl =
      (result_of (cl_seq cl + 1) m, \<lparr>cl_seq = cl_seq cl + 1, cl_in = writeFrame r\<rparr>)"
    by (rule Call_read [where net = net and arr = "writeFrame r"]) (use m r in simp_all)
  moreover have "result_of (cl_seq cl + 1) m = Inl CallSeq"
    using m(3) by (simp add: result_of_def)
  ultimately show ?thesis using r by (auto simp: stale_def)
qed

fun calls :: "net \<Rightarrow> (ctx \<times> string \<times> byte list) list \<Rightarrow> client \<Rightarrow> (call_err + byte list) list \<times> client" where
  "calls net [] cl = ([], cl)"
| "calls net ((c, meth, body) # cs) cl =
     (case Call net c meth body cl of (r, cl1) \<Rightarrow>
       (case calls net cs cl1 of (rs, cl2) \<Rightarrow> (r # rs, cl2)))"

lemma stale_calls:
  "lockstep net \<Longrightarrow> stale cl \<Longrightarrow> list_all (\<lambda>r. r = Inl CallSeq) (fst (calls net cs cl))"
proof (induction net cs cl rule: calls.induct)
  case (2 net c meth body cs cl)
  obtain r cl1 where C: "Call net c meth body cl = (r, cl1)" by fastforce
  have "r = Inl CallSeq \<and> stale cl1" using stale_call [OF "2.prems"(2,1), of c meth body] C by simp
  then show ?case using "2.IH" [OF C [symmetric]] "2.prems" C by (auto split: prod.splits)
qed simp

section \<open>Many connections\<close>

text \<open>
  \<open>Serve\<close> starts one goroutine for each connection. A step of the system is one turn of one
  of the loops; the turns of different connections interleave in any order.
\<close>

record 's cluster =
  cs_world :: "'s world"
  cs_in :: "nat \<Rightarrow> byte list"
  cs_got :: "nat \<Rightarrow> message list"
  cs_out :: "nat \<Rightarrow> byte list"
  cs_closed :: "nat set"

inductive turn :: "'s server \<Rightarrow> 's cluster \<Rightarrow> 's cluster \<Rightarrow> bool" for sv where
  turn_msg: "n \<notin> cs_closed c \<Longrightarrow> readMsg (cs_in c n) = (Inr m, rest) \<Longrightarrow>
     serve_msg sv m (cs_world c) = (out, w1) \<Longrightarrow>
     turn sv c (c\<lparr>cs_world := w1, cs_in := (cs_in c)(n := rest), cs_got := (cs_got c)(n := cs_got c n @ [m]),
                 cs_out := (cs_out c)(n := cs_out c n @ out)\<rparr>)"
| turn_close: "n \<notin> cs_closed c \<Longrightarrow> readMsg (cs_in c n) = (Inl e, rest) \<Longrightarrow>
     turn sv c (c\<lparr>cs_in := (cs_in c)(n := rest), cs_closed := insert n (cs_closed c)\<rparr>)"

inductive_cases turnE: "turn sv c c'"

inductive turns :: "'s server \<Rightarrow> 's cluster \<Rightarrow> 's cluster \<Rightarrow> bool" for sv where
  turns_refl: "turns sv c c"
| turns_step: "turns sv c c1 \<Longrightarrow> turn sv c1 c2 \<Longrightarrow> turns sv c c2"

definition fresh_cluster :: "'s cluster \<Rightarrow> bool" where
  "fresh_cluster c \<longleftrightarrow> cs_got c = (\<lambda>_. []) \<and> cs_out c = (\<lambda>_. []) \<and> cs_closed c = {}"

definition conn_inv :: "(nat \<Rightarrow> byte list) \<Rightarrow> 's cluster \<Rightarrow> nat \<Rightarrow> bool" where
  "conn_inv inp c n \<longleftrightarrow>
     (\<exists>rs. cs_out c n = concat (map writeFrame rs) \<and> list_all2 answers (cs_got c n) rs) \<and>
     list_all frame_ok (cs_got c n) \<and>
     (if n \<in> cs_closed c
      then (\<exists>rst e r. inp n = concat (map writeFrame (cs_got c n)) @ rst \<and> readMsg rst = (Inl e, r))
      else inp n = concat (map writeFrame (cs_got c n)) @ cs_in c n)"

lemma conn_inv_fresh: "fresh_cluster c \<Longrightarrow> conn_inv (cs_in c) c n"
  by (simp add: fresh_cluster_def conn_inv_def)

lemma conn_inv_turn:
  assumes "turn sv c c'" and inv: "conn_inv inp c k"
  shows "conn_inv inp c' k"
  using assms(1)
proof (cases rule: turn.cases)
  case (turn_msg n m rest out w1)
  show ?thesis
  proof (cases "n = k")
    case True
    have f: "cs_in c n = writeFrame m @ rest" "frame_ok m" using turn_msg by (simp_all add: readMsg_iff)
    have o: "out = writeFrame (fst (reply_to sv m (cs_world c)))"
      using turn_msg(4) by (simp add: serve_msg_reply)
    obtain rs where rs: "cs_out c n = concat (map writeFrame rs)" "list_all2 answers (cs_got c n) rs"
      using inv True by (auto simp: conn_inv_def)
    have "list_all2 answers (cs_got c n @ [m]) (rs @ [fst (reply_to sv m (cs_world c))])"
      using rs(2) by (intro list_all2_appendI) (simp_all add: reply_to_answers)
    moreover have "cs_out c n @ out = concat (map writeFrame (rs @ [fst (reply_to sv m (cs_world c))]))"
      using rs(1) o by simp
    ultimately show ?thesis using inv True f turn_msg(1,2) unfolding conn_inv_def
      by (simp del: map_append) (intro conjI exI, rule refl, assumption, simp)
  next
    case False
    then have "conn_inv inp c' k = conn_inv inp c k" using turn_msg(1) by (simp add: conn_inv_def)
    with inv show ?thesis by simp
  qed
next
  case (turn_close n e rest)
  with inv show ?thesis by (auto simp: conn_inv_def split: if_splits)
qed

lemma conn_inv_turns: "turns sv c c' \<Longrightarrow> conn_inv inp c n \<Longrightarrow> conn_inv inp c' n"
  by (induction rule: turns.induct) (auto intro: conn_inv_turn)

text \<open>The loops of finitely many connections end: what is left to read and to close shrinks.\<close>

definition pending :: "nat set \<Rightarrow> 's cluster \<Rightarrow> nat" where
  "pending N c = (\<Sum>n\<in>N. length (cs_in c n) + (if n \<in> cs_closed c then 0 else 1))"

lemma turn_closed: "turn sv c c' \<Longrightarrow> cs_closed c \<subseteq> cs_closed c' \<and> (cs_closed c' - cs_closed c = {} \<or> cs_out c' = cs_out c)"
  by (elim turnE) auto

lemma turn_pending:
  assumes "turn sv c c'" and "finite N" and "- cs_closed c \<subseteq> N"
  shows "pending N c' < pending N c \<and> - cs_closed c' \<subseteq> N"
  using assms(1)
proof (cases rule: turn.cases)
  case (turn_msg n m rest out w1)
  have n: "n \<in> N" and l: "length rest < length (cs_in c n)"
    using turn_msg(2) assms(3) readMsg_advances [OF turn_msg(3)] by auto
  show ?thesis unfolding pending_def turn_msg(1)
    using assms(3) n l turn_msg(2) by (auto intro!: sum_strict_mono_ex1 [OF assms(2)] bexI [OF _ n])
next
  case (turn_close n e rest)
  have n: "n \<in> N" and l: "length rest \<le> length (cs_in c n)"
    using turn_close(2) assms(3) readMsg_shrinks [of "cs_in c n"] turn_close(3) by auto
  show ?thesis unfolding pending_def turn_close(1)
    using assms(3) n l turn_close(2) by (auto intro!: sum_strict_mono_ex1 [OF assms(2)] bexI [OF _ n])
qed

section \<open>Observation\<close>

definition quiet :: "'s handler \<Rightarrow> bool" where
  "quiet h \<longleftrightarrow> (\<forall>c b w. w_requests (snd (h c b w)) = w_requests w \<and>
     w_durations (snd (h c b w)) = w_durations w \<and> w_logs (snd (h c b w)) = w_logs w \<and>
     w_spans (snd (h c b w)) = w_spans w)"

lemma quiet_run: "quiet h \<Longrightarrow> h c b w = (r, w1) \<Longrightarrow>
    w_requests w1 = w_requests w \<and> w_durations w1 = w_durations w \<and> w_logs w1 = w_logs w \<and>
    w_spans w1 = w_spans w"
  unfolding quiet_def by (metis snd_conv)

lemma startSpan_silent:
  assumes "startSpan e c name hdr w = ((c', sp), w')"
  shows "w_requests w' = w_requests w" "w_durations w' = w_durations w" "w_logs w' = w_logs w"
    "w_spans w' = w_spans w"
  using assms by (auto simp: startSpan_def Let_def randN_def now_def split: if_splits)

lemma finish_silent [simp]:
  "w_requests (finish e sp r w) = w_requests w" "w_durations (finish e sp r w) = w_durations w"
  "w_logs (finish e sp r w) = w_logs w"
  by (simp_all add: finish_def now_def Let_def)

lemma finish_span:
  "\<exists>z. w_spans (finish e sp r w) = w_spans w @ (if zipkinURL e = [] then [] else [z]) \<and>
       zs_TraceID z = hexTrace sp \<and> zs_Name z = sp_name sp \<and>
       zs_ParentID z = (if sp_hasPar sp then hex_encode (sp_parent sp) else [])"
  by (rule exI [of _ "\<lparr>zs_ID = hex_encode (sc_spanID (sp_sc sp)), zs_TraceID = hexTrace sp,
              zs_ParentID = (if sp_hasPar sp then hex_encode (sp_parent sp) else []),
              zs_Name = sp_name sp, zs_Timestamp = sp_start sp div 1000,
              zs_Duration = (let dur = (fst (now w) - sp_start sp) div 1000 in if dur < 1 then 1 else dur),
              zs_Service = sp_service sp, zs_Tags = span_tags sp r\<rparr>"])
    (simp add: finish_def now_def Let_def)

lemma startSpan_name: "startSpan e c name hdr w = ((c', sp), w') \<Longrightarrow> sp_name sp = name"
  by (auto simp: startSpan_def Let_def split: if_splits prod.splits)

lemma metrics_log_run:
  assumes "h c b (snd (now w)) = (r, w2)"
  shows "\<exists>w3 d. Metrics (Log h) c b w = (r, w3) \<and>
      w_requests w3 = w_requests w2 @ [(ri_method (infoFrom c), if isOk r then ''ok'' else ''error'')] \<and>
      w_durations w3 = w_durations w2 @ [(ri_method (infoFrom c), d)] \<and> w_spans w3 = w_spans w2 \<and>
      w_logs w3 = w_logs w2 @
        [case r of Inl e \<Rightarrow> LogError (cx_logger c) (ri_method (infoFrom c)) (ri_seq (infoFrom c)) e
         | Inr _ \<Rightarrow> LogInfo (cx_logger c) (ri_method (infoFrom c)) (ri_seq (infoFrom c))]"
  using assms by (simp add: Metrics_def now_def Log_def Let_def)

lemma chain_observed:
  assumes q: "quiet h" and c: "chain [Trace e, Metrics, Log] h c b w = (r, w')"
  shows "\<exists>sp d lg z. w_requests w' = w_requests w @ [(ri_method (infoFrom c), if isOk r then ''ok'' else ''error'')] \<and>
      w_durations w' = w_durations w @ [(ri_method (infoFrom c), d)] \<and>
      w_logs w' = w_logs w @ [lg] \<and> log_trace lg = Some (hexTrace sp) \<and>
      log_method lg = ri_method (infoFrom c) \<and> log_seq lg = ri_seq (infoFrom c) \<and>
      w_spans w' = w_spans w @ (if zipkinURL e = [] then [] else [z]) \<and> zs_TraceID z = hexTrace sp \<and>
      zs_Name z = ri_method (infoFrom c) \<and>
      (if 24 \<le> length (ri_hdr (infoFrom c)) then hexTrace sp = hex_encode (take 16 (ri_hdr (infoFrom c))) else True)"
proof -
  let ?hdr = "ri_hdr (infoFrom c)" and ?m = "ri_method (infoFrom c)"
  obtain c1 sp w1 where s: "startSpan e c ?m ?hdr w = ((c1, sp), w1)" by (metis prod.collapse)
  let ?c2 = "c1\<lparr>cx_logger := Some (hexTrace sp)\<rparr>"
  obtain r2 w2 where h2: "h ?c2 b (w1\<lparr>w_tick := w_tick w1 + 1\<rparr>) = (r2, w2)" by fastforce
  have i: "infoFrom c1 = infoFrom c" using startSpan_props(1) [OF s] by (simp add: infoFrom_def)
  then have i2: "infoFrom (c1\<lparr>cx_logger := l\<rparr>) = infoFrom c" for l
    by (simp add: infoFrom_def)
  have l2: "cx_logger (c1\<lparr>cx_logger := l\<rparr>) = l" for l by simp
  have h2': "h ?c2 b (snd (now w1)) = (r2, w2)" using h2 by (simp add: now_def)
  obtain w3 d where m: "Metrics (Log h) ?c2 b w1 = (r2, w3)"
      "w_requests w3 = w_requests w2 @ [(?m, if isOk r2 then ''ok'' else ''error'')]"
      "w_durations w3 = w_durations w2 @ [(?m, d)]" "w_spans w3 = w_spans w2"
      "w_logs w3 = w_logs w2 @ [case r2 of Inl e \<Rightarrow> LogError (Some (hexTrace sp)) ?m (ri_seq (infoFrom c)) e
            | Inr _ \<Rightarrow> LogInfo (Some (hexTrace sp)) ?m (ri_seq (infoFrom c))]"
    using metrics_log_run [where h = h and c = "?c2" and b = b and w = w1, OF h2'] unfolding i2 l2 by blast
  have rw: "r = r2" "w' = finish e sp r2 w3" using c m(1) by (auto simp: Trace_def s)
  then have hh: "h ?c2 b (snd (now w1)) = (r, w2)" and w': "\<exists>w3 d. w' = finish e sp r w3 \<and>
      w_requests w3 = w_requests w2 @ [(?m, if isOk r then ''ok'' else ''error'')] \<and>
      w_durations w3 = w_durations w2 @ [(?m, d)] \<and> w_spans w3 = w_spans w2 \<and>
      w_logs w3 = w_logs w2 @ [case r of Inl e \<Rightarrow> LogError (Some (hexTrace sp)) ?m (ri_seq (infoFrom c)) e
            | Inr _ \<Rightarrow> LogInfo (Some (hexTrace sp)) ?m (ri_seq (infoFrom c))]"
    using h2' m rw by auto
  have quiet: "w_requests w2 = w_requests w" "w_durations w2 = w_durations w" "w_logs w2 = w_logs w"
    "w_spans w2 = w_spans w"
    using quiet_run [OF q hh] startSpan_silent [OF s] by (simp_all add: now_def)
  obtain w3 d where w3: "w' = finish e sp r w3"
      "w_requests w3 = w_requests w @ [(?m, if isOk r then ''ok'' else ''error'')]"
      "w_durations w3 = w_durations w @ [(?m, d)]" "w_spans w3 = w_spans w"
      "w_logs w3 = w_logs w @ [case r of Inl e \<Rightarrow> LogError (Some (hexTrace sp)) ?m (ri_seq (infoFrom c)) e
            | Inr _ \<Rightarrow> LogInfo (Some (hexTrace sp)) ?m (ri_seq (infoFrom c))]"
    using w' unfolding quiet by blast
  obtain z where z: "w_spans w' = w_spans w @ (if zipkinURL e = [] then [] else [z])"
    "zs_TraceID z = hexTrace sp" "zs_Name z = ?m"
    using finish_span [of e sp r w3] startSpan_name [OF s] w3(1,4) by auto
  have t: "if 24 \<le> length ?hdr then hexTrace sp = hex_encode (take 16 ?hdr) else True"
    using startSpan_parent(1) [OF s] by (simp add: hexTrace_def)
  show ?thesis
    by (intro exI [of _ sp] exI [of _ d] exI [of _ z] exI [of _ "last (w_logs w3)"])
      (use w3 z t in \<open>simp split: sum.split\<close>)
qed

section \<open>Properties\<close>

text \<open>Whatever bytes a connection receives, they are a sequence of frames followed by a tail
  that is no frame, and the server's loop writes one frame for each of them, in order, with
  the sequence number and the method of the call it answers, then stops.\<close>

lemma connection_answers_each_frame:
  "\<exists>ms rst e r rs. s = concat (map writeFrame ms) @ rst \<and> list_all frame_ok ms \<and>
     readMsg rst = (Inl e, r) \<and> fst (serve sv s w) = concat (map writeFrame rs) \<and>
     list_all2 answers ms rs"
proof -
  obtain ms rst e r where s: "s = concat (map writeFrame ms) @ rst" "list_all frame_ok ms"
    "readMsg rst = (Inl e, r)" by (rule stream_frames)
  have "fst (serve sv s w) = concat (map writeFrame (fst (replies sv ms w)))"
    using serve_frames [OF s(2,3), of sv w] s(1) by simp
  with s replies_answers [of ms sv w] show ?thesis by blast
qed

text \<open>C6 Connections are served concurrently: in every state that the interleaved loops of all
  connections can reach, each connection's output is one answer for each of the frames taken
  from its own input, in that input's order.\<close>

theorem interleaved_connections_answer:
  assumes "fresh_cluster c0" and "turns sv c0 c"
  shows "\<exists>rs. cs_out c n = concat (map writeFrame rs) \<and> list_all2 answers (cs_got c n) rs \<and>
    (\<exists>rst. cs_in c0 n = concat (map writeFrame (cs_got c n)) @ rst)"
  using conn_inv_turns [OF assms(2) conn_inv_fresh [OF assms(1), of n]]
  by (auto simp: conn_inv_def split: if_splits)

definition demo_world :: "nat world" where
  "demo_world = \<lparr>w_app = 0, w_rand = (\<lambda>n. word_of_nat n), w_rix = 0, w_clock = (\<lambda>n. int n * 5000),
     w_tick = 0, w_requests = [], w_durations = [], w_logs = [], w_spans = []\<rparr>"

definition demo_call :: message where
  "demo_call = \<lparr>mg_typ = MsgCall, mg_seq = 7, mg_method = ''Ping'', mg_hdr = [], mg_body = [0]\<rparr>"

definition demo_cluster :: "nat cluster" where
  "demo_cluster = \<lparr>cs_world = demo_world, cs_in = (\<lambda>_. writeFrame demo_call), cs_got = (\<lambda>_. []),
     cs_out = (\<lambda>_. []), cs_closed = {}\<rparr>"

lemma demo_frame_ok: "frame_ok demo_call"
  by (simp add: frame_ok_def demo_call_def frame_len_def maxFrame_def)

definition demo_env :: rt_env where
  "demo_env = rt_env_of (\<lambda>_. [])"

lemma demo_turn: "\<exists>c. turns (NewServer demo_env) demo_cluster c \<and> cs_got c 3 = [demo_call]"
proof -
  have "readMsg (cs_in demo_cluster 3) = (Inr demo_call, [])"
    using readMsg_frame [OF demo_frame_ok, of "[]"] by (simp add: demo_cluster_def)
  from turn_msg [OF _ this] show ?thesis
    by (metis (no_types, lifting) demo_cluster_def empty_iff cluster.simps(5) turns_refl turns_step
        serve_msg_reply cluster.select_convs(3) append_Nil cluster.update_convs cluster.ext_inject
        cluster.surjective fun_upd_same)
qed

theorem interleaved_connections_answer_witness:
  "\<exists>c rs. turns (NewServer demo_env) demo_cluster c \<and> cs_got c 3 = [demo_call] \<and>
     cs_out c 3 = concat (map writeFrame rs) \<and> list_all2 answers [demo_call] rs"
proof -
  obtain c where c: "turns (NewServer demo_env) demo_cluster c" "cs_got c 3 = [demo_call]"
    using demo_turn by blast
  have "fresh_cluster demo_cluster" by (simp add: fresh_cluster_def demo_cluster_def)
  from interleaved_connections_answer [OF this c(1), of 3] c show ?thesis by auto
qed

text \<open>C22 A handler registered on a server made by NewServer is answered for as it is: when its
  result and its effect on the application's state depend on the call, the body and that
  state only, the reply to a call carries exactly its result (an error becomes an exception
  frame with the error's text), and the application's state changes exactly as it says: the
  three middlewares add nothing to either.\<close>

theorem server_answers_as_handler:
  assumes "app_handler h f" and "mg_typ m = MsgCall" and "mg_method m = meth"
  shows "fst (serve_msg (Handle meth h (NewServer e)) m w) =
      (case fst (f (Some \<lparr>ri_method = meth, ri_seq = mg_seq m, ri_hdr = mg_hdr m\<rparr>) (mg_body m) (w_app w)) of
         Inl err \<Rightarrow> writeMsg MsgException (mg_seq m) meth (str_bytes err)
       | Inr b \<Rightarrow> writeMsg MsgReply (mg_seq m) meth b) \<and>
    w_app (snd (serve_msg (Handle meth h (NewServer e)) m w)) =
      snd (f (Some \<lparr>ri_method = meth, ri_seq = mg_seq m, ri_hdr = mg_hdr m\<rparr>) (mg_body m) (w_app w))"
proof -
  let ?i = "\<lparr>ri_method = meth, ri_seq = mg_seq m, ri_hdr = mg_hdr m\<rparr>"
  have app: "app_handler (chain (sv_mws (NewServer e)) h) f"
    by (rule chain_app [OF NewServer_transparent assms(1)])
  obtain r w1 where rw: "chain (sv_mws (NewServer e)) h (withRPC Background ?i) (mg_body m) w = (r, w1)"
    by fastforce
  have "r = fst (f (Some ?i) (mg_body m) (w_app w))" "w_app w1 = snd (f (Some ?i) (mg_body m) (w_app w))"
    using app_handlerD [OF app, of "withRPC Background ?i" "mg_body m" w] rw
    by (simp_all add: withRPC_def)
  moreover have "serve_msg (Handle meth h (NewServer e)) m w =
      (case r of Inl err \<Rightarrow> writeMsg MsgException (mg_seq m) meth (str_bytes err)
         | Inr b \<Rightarrow> writeMsg MsgReply (mg_seq m) meth b, w1)"
    using assms(2,3) rw
    by (simp add: serve_msg_def Handle_def lookup_handler_def NewServer_def Use_def split: sum.split)
  ultimately show ?thesis by simp
qed

definition demo_count :: "nat handler" where
  "demo_count c b w = (if b = [] then Inl ''empty'' else Inr b, w\<lparr>w_app := w_app w + length b\<rparr>)"

lemma demo_count_app:
  "app_handler demo_count (\<lambda>_ b n. (if b = [] then Inl ''empty'' else Inr b, n + length b))"
  by (simp add: app_handler_def demo_count_def)

theorem server_answers_as_handler_witness:
  "fst (serve_msg (Handle ''Ping'' demo_count (NewServer demo_env)) demo_call demo_world) =
     writeMsg MsgReply 7 ''Ping'' [0] \<and>
   w_app (snd (serve_msg (Handle ''Ping'' demo_count (NewServer demo_env)) demo_call demo_world)) = 1"
  using server_answers_as_handler [OF demo_count_app, of demo_call "''Ping''" demo_env demo_world]
  by (simp add: demo_call_def demo_world_def)

text \<open>C23 Each call to a server made by NewServer is observed exactly once: one counter is
  incremented, with the method and the status of the answer, one duration and one log line are
  recorded, and one span is exported when an exporter is configured; log line and span carry
  the same trace id, which is the caller's when the call has a trace header.\<close>

theorem call_observed_once:
  assumes "quiet (lookup_handler sv (mg_method m))" and "sv_mws sv = sv_mws (NewServer e)"
    and "mg_typ m = MsgCall"
  shows "\<exists>st d lg z tr.
      w_requests (snd (serve_msg sv m w)) = w_requests w @ [(mg_method m, st)] \<and>
      (if mg_typ (fst (reply_to sv m w)) = MsgReply then st = ''ok'' else st = ''error'') \<and>
      w_durations (snd (serve_msg sv m w)) = w_durations w @ [(mg_method m, d)] \<and>
      w_logs (snd (serve_msg sv m w)) = w_logs w @ [lg] \<and> log_trace lg = Some tr \<and>
      log_method lg = mg_method m \<and> log_seq lg = mg_seq m \<and>
      w_spans (snd (serve_msg sv m w)) = w_spans w @ (if zipkinURL e = [] then [] else [z]) \<and>
      zs_TraceID z = tr \<and> zs_Name z = mg_method m \<and>
      (if 24 \<le> length (mg_hdr m) then tr = hex_encode (take 16 (mg_hdr m)) else True)"
proof -
  let ?c = "withRPC Background \<lparr>ri_method = mg_method m, ri_seq = mg_seq m, ri_hdr = mg_hdr m\<rparr>"
  obtain r w1 where rw: "chain [Trace e, Metrics, Log] (lookup_handler sv (mg_method m)) ?c (mg_body m) w = (r, w1)"
    by (metis prod.collapse)
  have "snd (serve_msg sv m w) = w1"
    "mg_typ (fst (reply_to sv m w)) = (if isOk r then MsgReply else MsgException)"
    using rw assms(2,3)
    by (simp_all add: serve_msg_def reply_to_def Let_def NewServer_mws isOk_def split: sum.split)
  moreover have "infoFrom ?c = \<lparr>ri_method = mg_method m, ri_seq = mg_seq m, ri_hdr = mg_hdr m\<rparr>"
    by (simp add: infoFrom_def withRPC_def)
  ultimately show ?thesis using chain_observed [OF assms(1) rw]
    by (elim exE, intro exI [of _ "if isOk r then ''ok'' else ''error''"]) (fastforce split: if_splits)
qed

theorem call_observed_once_witness:
  "\<exists>lg tr. w_logs (snd (serve_msg (NewServer (rt_env_of (\<lambda>_. []))) demo_call demo_world)) = [lg] \<and>
     log_trace lg = Some tr \<and> log_seq lg = 7"
proof -
  have q: "quiet (lookup_handler (NewServer (rt_env_of (\<lambda>_. []))) (mg_method demo_call) :: nat handler)"
    by (simp add: quiet_def lookup_handler_def NewServer_def Use_def unknown_handler_def)
  have t: "mg_typ demo_call = MsgCall" by (simp add: demo_call_def)
  show ?thesis using call_observed_once [OF q refl t, of demo_world]
    by (auto simp: demo_world_def demo_call_def)
qed


definition demo_ctx :: ctx where
  "demo_ctx = Background\<lparr>cx_span := Some \<lparr>sc_traceID = replicate 16 9, sc_spanID = replicate 8 5\<rparr>\<rparr>"


text \<open>A call that gives up on its deadline leaves the connection out of step for good: when
  the reply it did not wait for arrives later, every further call on that client fails with
  a sequence mismatch, although the peer answers each of them.\<close>

lemma late_reply_fails_later_calls:
  assumes "cl_in cl = []" and "frame_ok r" and "mg_seq r = cl_seq cl + 1" and "lockstep net"
  shows "fst (Call (\<lambda>_. (True, [])) c meth body cl) = Inl (CallRead FrameEof) \<and>
    list_all (\<lambda>r. r = Inl CallSeq)
      (fst (calls net cs ((snd (Call (\<lambda>_. (True, [])) c meth body cl))\<lparr>cl_in := writeFrame r\<rparr>)))"
proof -
  have C: "Call (\<lambda>_. (True, [])) c meth body cl = (Inl (CallRead FrameEof), \<lparr>cl_seq = cl_seq cl + 1, cl_in = []\<rparr>)"
    by (rule Call_read_fail [where arr = "[]"]) (simp_all add: assms(1))
  have "stale \<lparr>cl_seq = cl_seq cl + 1, cl_in = writeFrame r\<rparr>" using assms(2,3) by (auto simp: stale_def)
  from stale_calls [OF assms(4) this] show ?thesis by (simp add: C)
qed

definition demo_peer :: net where
  "demo_peer b = (True, writeMsg MsgReply (un32 (drop 5 b)) [] [0])"

lemma demo_peer_lockstep: "lockstep demo_peer"
  unfolding lockstep_def
proof
  fix m
  have "drop 5 (writeFrame m) = be32 (mg_seq m) @ drop 9 (writeFrame m)"
    by (simp add: writeFrame_def)
  then have "un32 (drop 5 (writeFrame m)) = mg_seq m" by (metis un_be_app(2))
  then show "\<exists>r. demo_peer (writeFrame m) = (True, writeFrame r) \<and> frame_ok r \<and> mg_seq r = mg_seq m"
    by (auto simp: demo_peer_def writeMsg_def frame_ok_def frame_len_def maxFrame_def)
qed

lemma late_reply_fails_later_calls_witness:
  "list_all (\<lambda>r. r = Inl CallSeq)
     (fst (calls demo_peer [(Background, ''Ping'', [0]), (Background, ''Ping'', [0])]
        ((snd (Call (\<lambda>_. (True, [])) Background ''Ping'' [0] Dial))
           \<lparr>cl_in := writeFrame (demo_call\<lparr>mg_seq := 1\<rparr>)\<rparr>)))"
  by (rule conjunct2 [OF late_reply_fails_later_calls])
    (simp_all add: Dial_def demo_call_def frame_ok_def frame_len_def maxFrame_def demo_peer_lockstep)

end
