(* ===== verification/Codegen.thy ===== *)
theory Codegen
  imports Codec Runtime
begin

text \<open>
  The generated packages gen/user and gen/order, the client methods and the server handlers of
  the template of cmd/gen, and the interface \<open>rpc_method\<close>: a generated method called through
  the runtime returns what the service's method returns.
\<close>

lemma enc_field_simps:
  "enc_field (i, VI64 n) = TI64 # be16 (word_of_int i) @ be64 n"
  "enc_field (i, VStr s) = TString # be16 (word_of_int i) @ enc_string s"
  "enc_field (i, VBool b) = TBool # be16 (word_of_int i) @ enc_bool b"
  by (simp_all add: enc_field_def)

lemmas codec_simps = enc_fields_def enc_field_simps NewWriter_def Bytes_def Stop_def
  fi64.write_field fstr.write_field fbool.write_field field_fits_def set_field_def

section \<open>gen/user/user.go\<close>

record GetUserReq =
  getUserReq_ID :: i64

definition EncodeGetUserReq :: "GetUserReq \<Rightarrow> byte list" where
  "EncodeGetUserReq s =
     Bytes (Stop (FieldI64 1 (getUserReq_ID s) NewWriter))"

definition armsGetUserReq :: "GetUserReq arm list" where
  "armsGetUserReq =
     [ArmI64 1 (\<lambda>v s. s\<lparr>getUserReq_ID := v\<rparr>)]"

definition DecodeGetUserReq :: "byte list \<Rightarrow> wire_err + GetUserReq" where
  "DecodeGetUserReq body = decode_loop armsGetUserReq \<lparr>getUserReq_ID = 0\<rparr> (NewReader body)"

definition okGetUserReq :: "GetUserReq \<Rightarrow> bool" where
  "okGetUserReq s \<longleftrightarrow> True"

interpretation cGetUserReq: field_struct EncodeGetUserReq
  "\<lambda>s. [(1, VI64 (getUserReq_ID s))]" armsGetUserReq
  "\<lparr>getUserReq_ID = 0\<rparr>" okGetUserReq
  by unfold_locales
    (simp_all add: EncodeGetUserReq_def armsGetUserReq_def okGetUserReq_def codec_simps)

lemma DecodeGetUserReq_codec: "struct_codec EncodeGetUserReq DecodeGetUserReq okGetUserReq"
  unfolding DecodeGetUserReq_def by (rule cGetUserReq.struct_codec_axioms)

record GetUserResp =
  getUserResp_ID :: i64
  getUserResp_Name :: string

definition EncodeGetUserResp :: "GetUserResp \<Rightarrow> byte list" where
  "EncodeGetUserResp s =
     Bytes (Stop (FieldString 2 (getUserResp_Name s) (FieldI64 1 (getUserResp_ID s) NewWriter)))"

definition armsGetUserResp :: "GetUserResp arm list" where
  "armsGetUserResp =
     [ArmI64 1 (\<lambda>v s. s\<lparr>getUserResp_ID := v\<rparr>),
      ArmStr 2 (\<lambda>v s. s\<lparr>getUserResp_Name := v\<rparr>)]"

definition DecodeGetUserResp :: "byte list \<Rightarrow> wire_err + GetUserResp" where
  "DecodeGetUserResp body = decode_loop armsGetUserResp \<lparr>getUserResp_ID = 0, getUserResp_Name = []\<rparr> (NewReader body)"

definition okGetUserResp :: "GetUserResp \<Rightarrow> bool" where
  "okGetUserResp s \<longleftrightarrow> length (getUserResp_Name s) < 2 ^ 32"

interpretation cGetUserResp: field_struct EncodeGetUserResp
  "\<lambda>s. [(1, VI64 (getUserResp_ID s)), (2, VStr (getUserResp_Name s))]" armsGetUserResp
  "\<lparr>getUserResp_ID = 0, getUserResp_Name = []\<rparr>" okGetUserResp
  by unfold_locales
    (simp_all add: EncodeGetUserResp_def armsGetUserResp_def okGetUserResp_def codec_simps)

lemma DecodeGetUserResp_codec: "struct_codec EncodeGetUserResp DecodeGetUserResp okGetUserResp"
  unfolding DecodeGetUserResp_def by (rule cGetUserResp.struct_codec_axioms)

datatype PingReq = PingReq

definition EncodePingReq :: "PingReq \<Rightarrow> byte list" where
  "EncodePingReq s =
     Bytes (Stop NewWriter)"

definition armsPingReq :: "PingReq arm list" where
  "armsPingReq =
     []"

definition DecodePingReq :: "byte list \<Rightarrow> wire_err + PingReq" where
  "DecodePingReq body = decode_loop armsPingReq PingReq (NewReader body)"

definition okPingReq :: "PingReq \<Rightarrow> bool" where
  "okPingReq s \<longleftrightarrow> True"

interpretation cPingReq: field_struct EncodePingReq
  "\<lambda>s. []" armsPingReq
  "PingReq" okPingReq
  by unfold_locales
    (simp_all add: EncodePingReq_def armsPingReq_def okPingReq_def codec_simps,
      metis PingReq.exhaust)

lemma DecodePingReq_codec: "struct_codec EncodePingReq DecodePingReq okPingReq"
  unfolding DecodePingReq_def by (rule cPingReq.struct_codec_axioms)

record PingResp =
  pingResp_Msg :: string

definition EncodePingResp :: "PingResp \<Rightarrow> byte list" where
  "EncodePingResp s =
     Bytes (Stop (FieldString 1 (pingResp_Msg s) NewWriter))"

definition armsPingResp :: "PingResp arm list" where
  "armsPingResp =
     [ArmStr 1 (\<lambda>v s. s\<lparr>pingResp_Msg := v\<rparr>)]"

definition DecodePingResp :: "byte list \<Rightarrow> wire_err + PingResp" where
  "DecodePingResp body = decode_loop armsPingResp \<lparr>pingResp_Msg = []\<rparr> (NewReader body)"

definition okPingResp :: "PingResp \<Rightarrow> bool" where
  "okPingResp s \<longleftrightarrow> length (pingResp_Msg s) < 2 ^ 32"

interpretation cPingResp: field_struct EncodePingResp
  "\<lambda>s. [(1, VStr (pingResp_Msg s))]" armsPingResp
  "\<lparr>pingResp_Msg = []\<rparr>" okPingResp
  by unfold_locales
    (simp_all add: EncodePingResp_def armsPingResp_def okPingResp_def codec_simps)

lemma DecodePingResp_codec: "struct_codec EncodePingResp DecodePingResp okPingResp"
  unfolding DecodePingResp_def by (rule cPingResp.struct_codec_axioms)

section \<open>gen/order/order.go\<close>

record CreateOrderReq =
  createOrderReq_UserId :: i64
  createOrderReq_Amount :: i64

definition EncodeCreateOrderReq :: "CreateOrderReq \<Rightarrow> byte list" where
  "EncodeCreateOrderReq s =
     Bytes (Stop (FieldI64 2 (createOrderReq_Amount s) (FieldI64 1 (createOrderReq_UserId s) NewWriter)))"

definition armsCreateOrderReq :: "CreateOrderReq arm list" where
  "armsCreateOrderReq =
     [ArmI64 1 (\<lambda>v s. s\<lparr>createOrderReq_UserId := v\<rparr>),
      ArmI64 2 (\<lambda>v s. s\<lparr>createOrderReq_Amount := v\<rparr>)]"

definition DecodeCreateOrderReq :: "byte list \<Rightarrow> wire_err + CreateOrderReq" where
  "DecodeCreateOrderReq body = decode_loop armsCreateOrderReq \<lparr>createOrderReq_UserId = 0, createOrderReq_Amount = 0\<rparr> (NewReader body)"

definition okCreateOrderReq :: "CreateOrderReq \<Rightarrow> bool" where
  "okCreateOrderReq s \<longleftrightarrow> True"

interpretation cCreateOrderReq: field_struct EncodeCreateOrderReq
  "\<lambda>s. [(1, VI64 (createOrderReq_UserId s)), (2, VI64 (createOrderReq_Amount s))]" armsCreateOrderReq
  "\<lparr>createOrderReq_UserId = 0, createOrderReq_Amount = 0\<rparr>" okCreateOrderReq
  by unfold_locales
    (simp_all add: EncodeCreateOrderReq_def armsCreateOrderReq_def okCreateOrderReq_def codec_simps)

lemma DecodeCreateOrderReq_codec: "struct_codec EncodeCreateOrderReq DecodeCreateOrderReq okCreateOrderReq"
  unfolding DecodeCreateOrderReq_def by (rule cCreateOrderReq.struct_codec_axioms)

record CreateOrderResp =
  createOrderResp_ID :: i64
  createOrderResp_Status :: string

definition EncodeCreateOrderResp :: "CreateOrderResp \<Rightarrow> byte list" where
  "EncodeCreateOrderResp s =
     Bytes (Stop (FieldString 2 (createOrderResp_Status s) (FieldI64 1 (createOrderResp_ID s) NewWriter)))"

definition armsCreateOrderResp :: "CreateOrderResp arm list" where
  "armsCreateOrderResp =
     [ArmI64 1 (\<lambda>v s. s\<lparr>createOrderResp_ID := v\<rparr>),
      ArmStr 2 (\<lambda>v s. s\<lparr>createOrderResp_Status := v\<rparr>)]"

definition DecodeCreateOrderResp :: "byte list \<Rightarrow> wire_err + CreateOrderResp" where
  "DecodeCreateOrderResp body = decode_loop armsCreateOrderResp \<lparr>createOrderResp_ID = 0, createOrderResp_Status = []\<rparr> (NewReader body)"

definition okCreateOrderResp :: "CreateOrderResp \<Rightarrow> bool" where
  "okCreateOrderResp s \<longleftrightarrow> length (createOrderResp_Status s) < 2 ^ 32"

interpretation cCreateOrderResp: field_struct EncodeCreateOrderResp
  "\<lambda>s. [(1, VI64 (createOrderResp_ID s)), (2, VStr (createOrderResp_Status s))]" armsCreateOrderResp
  "\<lparr>createOrderResp_ID = 0, createOrderResp_Status = []\<rparr>" okCreateOrderResp
  by unfold_locales
    (simp_all add: EncodeCreateOrderResp_def armsCreateOrderResp_def okCreateOrderResp_def codec_simps)

lemma DecodeCreateOrderResp_codec: "struct_codec EncodeCreateOrderResp DecodeCreateOrderResp okCreateOrderResp"
  unfolding DecodeCreateOrderResp_def by (rule cCreateOrderResp.struct_codec_axioms)

record GetOrderReq =
  getOrderReq_ID :: i64

definition EncodeGetOrderReq :: "GetOrderReq \<Rightarrow> byte list" where
  "EncodeGetOrderReq s =
     Bytes (Stop (FieldI64 1 (getOrderReq_ID s) NewWriter))"

definition armsGetOrderReq :: "GetOrderReq arm list" where
  "armsGetOrderReq =
     [ArmI64 1 (\<lambda>v s. s\<lparr>getOrderReq_ID := v\<rparr>)]"

definition DecodeGetOrderReq :: "byte list \<Rightarrow> wire_err + GetOrderReq" where
  "DecodeGetOrderReq body = decode_loop armsGetOrderReq \<lparr>getOrderReq_ID = 0\<rparr> (NewReader body)"

definition okGetOrderReq :: "GetOrderReq \<Rightarrow> bool" where
  "okGetOrderReq s \<longleftrightarrow> True"

interpretation cGetOrderReq: field_struct EncodeGetOrderReq
  "\<lambda>s. [(1, VI64 (getOrderReq_ID s))]" armsGetOrderReq
  "\<lparr>getOrderReq_ID = 0\<rparr>" okGetOrderReq
  by unfold_locales
    (simp_all add: EncodeGetOrderReq_def armsGetOrderReq_def okGetOrderReq_def codec_simps)

lemma DecodeGetOrderReq_codec: "struct_codec EncodeGetOrderReq DecodeGetOrderReq okGetOrderReq"
  unfolding DecodeGetOrderReq_def by (rule cGetOrderReq.struct_codec_axioms)

record GetOrderResp =
  getOrderResp_ID :: i64
  getOrderResp_UserId :: i64
  getOrderResp_Status :: string
  getOrderResp_UserName :: string

definition EncodeGetOrderResp :: "GetOrderResp \<Rightarrow> byte list" where
  "EncodeGetOrderResp s =
     Bytes (Stop (FieldString 4 (getOrderResp_UserName s) (FieldString 3 (getOrderResp_Status s) (FieldI64 2 (getOrderResp_UserId s) (FieldI64 1 (getOrderResp_ID s) NewWriter)))))"

definition armsGetOrderResp :: "GetOrderResp arm list" where
  "armsGetOrderResp =
     [ArmI64 1 (\<lambda>v s. s\<lparr>getOrderResp_ID := v\<rparr>),
      ArmI64 2 (\<lambda>v s. s\<lparr>getOrderResp_UserId := v\<rparr>),
      ArmStr 3 (\<lambda>v s. s\<lparr>getOrderResp_Status := v\<rparr>),
      ArmStr 4 (\<lambda>v s. s\<lparr>getOrderResp_UserName := v\<rparr>)]"

definition DecodeGetOrderResp :: "byte list \<Rightarrow> wire_err + GetOrderResp" where
  "DecodeGetOrderResp body = decode_loop armsGetOrderResp \<lparr>getOrderResp_ID = 0, getOrderResp_UserId = 0, getOrderResp_Status = [], getOrderResp_UserName = []\<rparr> (NewReader body)"

definition okGetOrderResp :: "GetOrderResp \<Rightarrow> bool" where
  "okGetOrderResp s \<longleftrightarrow> length (getOrderResp_Status s) < 2 ^ 32 \<and> length (getOrderResp_UserName s) < 2 ^ 32"

interpretation cGetOrderResp: field_struct EncodeGetOrderResp
  "\<lambda>s. [(1, VI64 (getOrderResp_ID s)), (2, VI64 (getOrderResp_UserId s)), (3, VStr (getOrderResp_Status s)), (4, VStr (getOrderResp_UserName s))]" armsGetOrderResp
  "\<lparr>getOrderResp_ID = 0, getOrderResp_UserId = 0, getOrderResp_Status = [], getOrderResp_UserName = []\<rparr>" okGetOrderResp
  by unfold_locales
    (simp_all add: EncodeGetOrderResp_def armsGetOrderResp_def okGetOrderResp_def codec_simps)

lemma DecodeGetOrderResp_codec: "struct_codec EncodeGetOrderResp DecodeGetOrderResp okGetOrderResp"
  unfolding DecodeGetOrderResp_def by (rule cGetOrderResp.struct_codec_axioms)
section \<open>Client methods and handlers\<close>

definition wire_msg :: "wire_err \<Rightarrow> string" where
  "wire_msg e = (case e of WireEof \<Rightarrow> ''wire: eof'' | WireShortString \<Rightarrow> ''wire: short string''
     | WireSkipUnknown b \<Rightarrow> ''wire: skip unknown type '' @ nat_str (unat b))"

datatype cli_err = CliCall call_err | CliWire wire_err

type_synonym ('q, 'p, 's) rpc = "ctx \<Rightarrow> 'q \<Rightarrow> 's world \<Rightarrow> (string + 'p) \<times> 's world"

definition gen_call ::
  "('q \<Rightarrow> byte list) \<Rightarrow> (byte list \<Rightarrow> wire_err + 'p) \<Rightarrow> net \<Rightarrow> ctx \<Rightarrow> string \<Rightarrow> 'q \<Rightarrow> client \<Rightarrow>
     (cli_err + 'p) \<times> client" where
  "gen_call Enc Dec net c meth req cl =
     (case Call net c meth (Enc req) cl of
        (Inl e, cl1) \<Rightarrow> (Inl (CliCall e), cl1)
      | (Inr raw, cl1) \<Rightarrow> (case Dec raw of Inl e \<Rightarrow> Inl (CliWire e) | Inr p \<Rightarrow> Inr p, cl1))"

definition gen_handler ::
  "(byte list \<Rightarrow> wire_err + 'q) \<Rightarrow> ('q, 'p, 's) rpc \<Rightarrow> ('p \<Rightarrow> byte list) \<Rightarrow> 's handler" where
  "gen_handler Dec h Enc c body w =
     (case Dec body of
        Inl e \<Rightarrow> (Inl (wire_msg e), w)
      | Inr req \<Rightarrow>
          (case h c req w of
             (Inl e, w1) \<Rightarrow> (Inl e, w1)
           | (Inr resp, w1) \<Rightarrow> (Inr (Enc resp), w1)))"

record 's UserService =
  us_GetUser :: "(GetUserReq, GetUserResp, 's) rpc"
  us_Ping :: "(PingReq, PingResp, 's) rpc"

definition user_Register :: "'s UserService \<Rightarrow> 's server \<Rightarrow> 's server" where
  "user_Register h sv =
     Handle ''Ping'' (gen_handler DecodePingReq (us_Ping h) EncodePingResp)
       (Handle ''GetUser'' (gen_handler DecodeGetUserReq (us_GetUser h) EncodeGetUserResp) sv)"

definition user_NewServer :: "rt_env \<Rightarrow> 's UserService \<Rightarrow> 's server" where
  "user_NewServer e h = user_Register h (NewServer e)"

definition cli_GetUser :: "net \<Rightarrow> ctx \<Rightarrow> GetUserReq \<Rightarrow> client \<Rightarrow> (cli_err + GetUserResp) \<times> client" where
  "cli_GetUser net c req cl = gen_call EncodeGetUserReq DecodeGetUserResp net c ''GetUser'' req cl"

definition cli_Ping :: "net \<Rightarrow> ctx \<Rightarrow> PingReq \<Rightarrow> client \<Rightarrow> (cli_err + PingResp) \<times> client" where
  "cli_Ping net c req cl = gen_call EncodePingReq DecodePingResp net c ''Ping'' req cl"

record 's OrderService =
  os_GetOrder :: "(GetOrderReq, GetOrderResp, 's) rpc"
  os_CreateOrder :: "(CreateOrderReq, CreateOrderResp, 's) rpc"

definition order_Register :: "'s OrderService \<Rightarrow> 's server \<Rightarrow> 's server" where
  "order_Register h sv =
     Handle ''CreateOrder'' (gen_handler DecodeCreateOrderReq (os_CreateOrder h) EncodeCreateOrderResp)
       (Handle ''GetOrder'' (gen_handler DecodeGetOrderReq (os_GetOrder h) EncodeGetOrderResp) sv)"

definition order_NewServer :: "rt_env \<Rightarrow> 's OrderService \<Rightarrow> 's server" where
  "order_NewServer e h = order_Register h (NewServer e)"

definition cli_GetOrder :: "net \<Rightarrow> ctx \<Rightarrow> GetOrderReq \<Rightarrow> client \<Rightarrow> (cli_err + GetOrderResp) \<times> client" where
  "cli_GetOrder net c req cl = gen_call EncodeGetOrderReq DecodeGetOrderResp net c ''GetOrder'' req cl"

definition cli_CreateOrder ::
  "net \<Rightarrow> ctx \<Rightarrow> CreateOrderReq \<Rightarrow> client \<Rightarrow> (cli_err + CreateOrderResp) \<times> client" where
  "cli_CreateOrder net c req cl =
     gen_call EncodeCreateOrderReq DecodeCreateOrderResp net c ''CreateOrder'' req cl"

section \<open>A generated call\<close>

definition app_rpc :: "('q, 'p, 's) rpc \<Rightarrow> ('q \<Rightarrow> 's \<Rightarrow> (string + 'p) \<times> 's) \<Rightarrow> bool" where
  "app_rpc h f \<longleftrightarrow> (\<forall>c q w. fst (h c q w) = fst (f q (w_app w)) \<and> w_app (snd (h c q w)) = snd (f q (w_app w)))"

definition handler_spec ::
  "(byte list \<Rightarrow> wire_err + 'q) \<Rightarrow> ('q \<Rightarrow> 's \<Rightarrow> (string + 'p) \<times> 's) \<Rightarrow> ('p \<Rightarrow> byte list) \<Rightarrow>
     byte list \<Rightarrow> 's \<Rightarrow> (string + byte list) \<times> 's" where
  "handler_spec Dec f Enc body s =
     (case Dec body of Inl e \<Rightarrow> (Inl (wire_msg e), s)
      | Inr q \<Rightarrow> (case fst (f q s) of Inl e \<Rightarrow> Inl e | Inr p \<Rightarrow> Inr (Enc p), snd (f q s)))"

lemma gen_handler_app:
  assumes "app_rpc h f"
  shows "app_handler (gen_handler Dec h Enc) (\<lambda>_. handler_spec Dec f Enc)"
  unfolding app_handler_def gen_handler_def handler_spec_def
proof (intro allI)
  fix c b w
  show "fst (case Dec b of Inl e \<Rightarrow> (Inl (wire_msg e), w)
        | Inr req \<Rightarrow> (case h c req w of (Inl e, w1) \<Rightarrow> (Inl e, w1) | (Inr resp, w1) \<Rightarrow> (Inr (Enc resp), w1))) =
      fst (case Dec b of Inl e \<Rightarrow> (Inl (wire_msg e), w_app w)
        | Inr q \<Rightarrow> (case fst (f q (w_app w)) of Inl e \<Rightarrow> Inl e | Inr p \<Rightarrow> Inr (Enc p), snd (f q (w_app w)))) \<and>
      w_app (snd (case Dec b of Inl e \<Rightarrow> (Inl (wire_msg e), w)
        | Inr req \<Rightarrow> (case h c req w of (Inl e, w1) \<Rightarrow> (Inl e, w1) | (Inr resp, w1) \<Rightarrow> (Inr (Enc resp), w1)))) =
      snd (case Dec b of Inl e \<Rightarrow> (Inl (wire_msg e), w_app w)
        | Inr q \<Rightarrow> (case fst (f q (w_app w)) of Inl e \<Rightarrow> Inl e | Inr p \<Rightarrow> Inr (Enc p), snd (f q (w_app w))))"
  proof (cases "Dec b")
    case (Inr q)
    have "fst (h c q w) = fst (f q (w_app w))" "w_app (snd (h c q w)) = snd (f q (w_app w))"
      using assms by (auto simp: app_rpc_def)
    then show ?thesis by (auto simp: Inr split: prod.splits sum.splits)
  qed simp
qed

locale rpc_method =
  req: struct_codec EncQ DecQ okQ + resp: struct_codec EncP DecP okP
  for EncQ :: "'q \<Rightarrow> byte list" and DecQ okQ and EncP :: "'p \<Rightarrow> byte list" and DecP okP +
  fixes meth :: string
begin

lemma handler_runs: "okQ q \<Longrightarrow> fst (handler_spec DecQ f EncP (EncQ q) s) =
    (case fst (f q s) of Inl e \<Rightarrow> Inl e | Inr p \<Rightarrow> Inr (EncP p))"
  by (simp add: handler_spec_def req.roundtrip)

lemma call_returns:
  assumes srv: "sv_handlers sv meth = Some (gen_handler DecQ h EncP)"
    and mws: "\<forall>m\<in>set (sv_mws sv). transparent m" and app: "app_rpc h f"
    and cl: "cl_in cl = []" and q: "okQ q" and p: "\<And>p. fst (f q (w_app w)) = Inr p \<Longrightarrow> okP p"
    and fr: "frame_ok (call_msg c meth (EncQ q) cl)"
    and fr': "frame_ok (fst (reply_to sv (call_msg c meth (EncQ q) cl) w))"
  shows "gen_call EncQ DecP (\<lambda>b. (True, fst (serve sv b w))) c meth q cl =
    (case fst (f q (w_app w)) of Inl e \<Rightarrow> Inl (CliCall (CallRemote e)) | Inr p \<Rightarrow> Inr p,
     \<lparr>cl_seq = cl_seq cl + 1, cl_in = []\<rparr>)"
proof -
  let ?m = "call_msg c meth (EncQ q) cl"
  let ?c = "withRPC Background \<lparr>ri_method = meth, ri_seq = cl_seq cl + 1, ri_hdr = outgoingHdr c\<rparr>"
  have "app_handler (chain (sv_mws sv) (gen_handler DecQ h EncP)) (\<lambda>_. handler_spec DecQ f EncP)"
    by (intro chain_app mws gen_handler_app app)
  then have r: "fst (chain (sv_mws sv) (gen_handler DecQ h EncP) ?c (EncQ q) w) =
      (case fst (f q (w_app w)) of Inl e \<Rightarrow> Inl e | Inr p \<Rightarrow> Inr (EncP p))"
    by (simp add: app_handlerD handler_runs q)
  have "result_of (cl_seq cl + 1) (fst (reply_to sv ?m w)) =
      (case fst (f q (w_app w)) of Inl e \<Rightarrow> Inl (CallRemote e) | Inr p \<Rightarrow> Inr (EncP p))"
    using result_of_reply [of ?m sv w] srv r
    by (simp add: call_msg_def lookup_handler_def split: sum.splits)
  then show ?thesis
    using Call_served [OF cl fr fr'] p resp.roundtrip
    by (simp add: gen_call_def split: sum.splits)
qed

end

interpretation mGetUser: rpc_method EncodeGetUserReq DecodeGetUserReq okGetUserReq
  EncodeGetUserResp DecodeGetUserResp okGetUserResp "''GetUser''"
  by (simp add: rpc_method_def DecodeGetUserReq_codec DecodeGetUserResp_codec)

interpretation mPing: rpc_method EncodePingReq DecodePingReq okPingReq
  EncodePingResp DecodePingResp okPingResp "''Ping''"
  by (simp add: rpc_method_def DecodePingReq_codec DecodePingResp_codec)

interpretation mGetOrder: rpc_method EncodeGetOrderReq DecodeGetOrderReq okGetOrderReq
  EncodeGetOrderResp DecodeGetOrderResp okGetOrderResp "''GetOrder''"
  by (simp add: rpc_method_def DecodeGetOrderReq_codec DecodeGetOrderResp_codec)

interpretation mCreateOrder: rpc_method EncodeCreateOrderReq DecodeCreateOrderReq okCreateOrderReq
  EncodeCreateOrderResp DecodeCreateOrderResp okCreateOrderResp "''CreateOrder''"
  by (simp add: rpc_method_def DecodeCreateOrderReq_codec DecodeCreateOrderResp_codec)

section \<open>Properties\<close>

lemma reply_frame_len:
  assumes "mg_typ m = MsgCall"
    and "fst (chain (sv_mws sv) (lookup_handler sv (mg_method m))
           (withRPC Background \<lparr>ri_method = mg_method m, ri_seq = mg_seq m, ri_hdr = mg_hdr m\<rparr>)
           (mg_body m) w) = r"
    and "length (mg_method m) + (case r of Inl e \<Rightarrow> length e | Inr b \<Rightarrow> length b) < 2 ^ 16"
  shows "frame_ok (fst (reply_to sv m w))"
  using assms
  by (auto simp: reply_to_def Let_def frame_ok_def frame_len_def maxFrame_def split: prod.splits sum.splits)

lemma user_NewServer_get:
  "sv_handlers (user_NewServer e h) ''GetUser'' =
     Some (gen_handler DecodeGetUserReq (us_GetUser h) EncodeGetUserResp)"
  "sv_mws (user_NewServer e h) = sv_mws (NewServer e)"
  by (simp_all add: user_NewServer_def user_Register_def Handle_def)

lemma length_EncodeGetUser [simp]:
  "length (EncodeGetUserReq q) = 12" "length (EncodeGetUserResp p) = 19 + length (getUserResp_Name p)"
  by (simp_all add: EncodeGetUserReq_def EncodeGetUserResp_def Bytes_def Stop_def NewWriter_def
      FieldI64_def FieldString_def)

text \<open>C3 A call of GetUser through the generated client, the frames, the server's loop with its
  middlewares and the generated handler returns what the service's method returns: its reply,
  or an error with exactly its text, with the client ready for the next call.\<close>

theorem getuser_call_returns:
  assumes app: "app_rpc (us_GetUser h) f" and cl: "cl_in cl = []" and hdr: "length (outgoingHdr c) \<le> 24"
    and short: "(case fst (f q (w_app w)) of Inl e \<Rightarrow> length e | Inr p \<Rightarrow> length (getUserResp_Name p)) < 60000"
  shows "cli_GetUser (\<lambda>b. (True, fst (serve (user_NewServer e h) b w))) c q cl =
    (case fst (f q (w_app w)) of Inl err \<Rightarrow> Inl (CliCall (CallRemote err)) | Inr p \<Rightarrow> Inr p,
     \<lparr>cl_seq = cl_seq cl + 1, cl_in = []\<rparr>)"
proof -
  let ?sv = "user_NewServer e h" and ?m = "call_msg c ''GetUser'' (EncodeGetUserReq q) cl"
  have q: "okGetUserReq q" by (simp add: okGetUserReq_def)
  have app': "app_handler (chain (sv_mws ?sv) (lookup_handler ?sv ''GetUser''))
      (\<lambda>_. handler_spec DecodeGetUserReq f EncodeGetUserResp)"
    unfolding lookup_handler_def user_NewServer_get option.case
    by (intro chain_app NewServer_transparent gen_handler_app app)
  have "frame_ok (fst (reply_to ?sv ?m w))"
    by (rule reply_frame_len [OF _ refl])
      (use short in \<open>simp_all add: call_msg_def app_handlerD [OF app'] mGetUser.handler_runs q split: sum.splits\<close>)
  moreover have "frame_ok ?m" using hdr by (simp add: frame_ok_def frame_len_def call_msg_def maxFrame_def)
  moreover have "fst (f q (w_app w)) = Inr p \<Longrightarrow> okGetUserResp p" for p
    using short by (simp add: okGetUserResp_def)
  ultimately show ?thesis
    unfolding cli_GetUser_def using NewServer_transparent [of e] app cl q
    by (intro mGetUser.call_returns [where h = "us_GetUser h"]) (simp_all add: user_NewServer_get)
qed

definition demo_user_service :: "nat UserService" where
  "demo_user_service =
     \<lparr>us_GetUser = (\<lambda>c q w. (if getUserReq_ID q = 0 then Inl ''no user''
                            else Inr \<lparr>getUserResp_ID = getUserReq_ID q, getUserResp_Name = ''demo''\<rparr>, w)),
      us_Ping = (\<lambda>c q w. (Inr \<lparr>pingResp_Msg = ''pong''\<rparr>, w))\<rparr>"

lemma demo_user_app:
  "app_rpc (us_GetUser demo_user_service)
     (\<lambda>q s. (if getUserReq_ID q = 0 then Inl ''no user''
            else Inr \<lparr>getUserResp_ID = getUserReq_ID q, getUserResp_Name = ''demo''\<rparr>, s))"
  by (simp add: app_rpc_def demo_user_service_def)

theorem getuser_call_returns_witness:
  "fst (cli_GetUser (\<lambda>b. (True, fst (serve (user_NewServer (rt_env_of (\<lambda>_. [])) demo_user_service) b demo_world)))
      Background \<lparr>getUserReq_ID = 5\<rparr> Dial) = Inr \<lparr>getUserResp_ID = 5, getUserResp_Name = ''demo''\<rparr>"
  by (subst getuser_call_returns [OF demo_user_app])
    (simp_all add: Dial_def Background_def outgoingHdr_def)

end
