(* ===== verification/Generic.thy ===== *)
theory Generic
  imports Codegen
begin

text \<open>
  Package \<open>generic\<close> (generic/generic.go, generic/client.go): calls without generated code. A Go
  value of type \<open>any\<close> is a value of \<open>any\<close>; the JSON decoder and Go's float to integer
  conversion are the fields of \<open>json_env\<close>. The lemmas relate the generic codec to the
  codec of the template: the same body, the same fields read.
\<close>

datatype any =
    ANil | AI64 i64 | AInt i64 | AFloat i64 | ANum string | AStr string | ABool bool
  | ABytes "byte list" | AMap "(string \<times> any) list" | AArr "any list"

record json_env =
  je_map :: "string \<Rightarrow> string + (string \<times> any) list"
  je_f2i :: "i64 \<Rightarrow> i64"

datatype field_err =
  WantI64 any | WantString any | WantBool any | FieldType string | BadNumber string | FieldWire wire_err

datatype generic_err =
    GIdl idl_err | GJson string | GWantMap any | GEncode string string field_err
  | GWire wire_err | GDecode string string field_err | GUnknownMethod string | GCall call_err

section \<open>Encoding\<close>

definition asMap :: "json_env \<Rightarrow> any \<Rightarrow> generic_err + (string \<times> any) list" where
  "asMap je v =
     (case v of AMap m \<Rightarrow> Inr m
      | AStr s \<Rightarrow> (case je_map je s of Inl e \<Rightarrow> Inl (GJson e) | Inr m \<Rightarrow> Inr m)
      | _ \<Rightarrow> Inl (GWantMap v))"

definition asI64 :: "json_env \<Rightarrow> any \<Rightarrow> field_err + i64" where
  "asI64 je v =
     (case v of AI64 n \<Rightarrow> Inr n
      | AInt n \<Rightarrow> Inr n
      | AFloat x \<Rightarrow> Inr (je_f2i je x)
      | ANum s \<Rightarrow> (case go_atoi s of (n, ok) \<Rightarrow> if ok then Inr (word_of_int n) else Inl (BadNumber s))
      | _ \<Rightarrow> Inl (WantI64 v))"

definition writeField :: "json_env \<Rightarrow> field \<Rightarrow> any \<Rightarrow> writer \<Rightarrow> field_err + writer" where
  "writeField je f v w =
     (if f_Type f = ''i64'' then bindR (asI64 je v) (\<lambda>n. Inr (FieldI64 (f_ID f) n w))
      else if f_Type f = ''string'' then
        (case v of AStr s \<Rightarrow> Inr (FieldString (f_ID f) s w) | _ \<Rightarrow> Inl (WantString v))
      else if f_Type f = ''bool'' then
        (case v of ABool b \<Rightarrow> Inr (FieldBool (f_ID f) b w) | _ \<Rightarrow> Inl (WantBool v))
      else Inl (FieldType (f_Type f)))"

fun writeFields ::
  "json_env \<Rightarrow> string \<Rightarrow> (string \<times> any) list \<Rightarrow> field list \<Rightarrow> writer \<Rightarrow> generic_err + writer" where
  "writeFields je sn m [] w = Inr w"
| "writeFields je sn m (f # fs) w =
     (case map_of m (f_Name f) of
        None \<Rightarrow> writeFields je sn m fs w
      | Some raw \<Rightarrow>
          if raw = ANil then writeFields je sn m fs w
          else (case writeField je f raw w of
                  Inl e \<Rightarrow> Inl (GEncode sn (f_Name f) e)
                | Inr w1 \<Rightarrow> writeFields je sn m fs w1))"

definition Encode :: "json_env \<Rightarrow> spec \<Rightarrow> string \<Rightarrow> any \<Rightarrow> generic_err + byte list" where
  "Encode je sp structName v =
     (case v of ABytes b \<Rightarrow> Inr b
      | _ \<Rightarrow>
        (case spec_Struct sp structName of
           Inl e \<Rightarrow> Inl (GIdl e)
         | Inr st \<Rightarrow>
             bindR (asMap je v) (\<lambda>m.
               bindR (writeFields je structName m (st_Fields st) NewWriter) (\<lambda>w.
                 Inr (Bytes (Stop w))))))"

section \<open>Decoding\<close>

definition readValue :: "reader \<Rightarrow> string \<Rightarrow> field_err + any \<times> reader" where
  "readValue r t =
     (if t = ''i64'' then
        (case ReadI64 r of Inl e \<Rightarrow> Inl (FieldWire e) | Inr (v, r) \<Rightarrow> Inr (AI64 v, r))
      else if t = ''string'' then
        (case ReadString r of Inl e \<Rightarrow> Inl (FieldWire e) | Inr (v, r) \<Rightarrow> Inr (AStr v, r))
      else if t = ''bool'' then
        (case ReadBool r of Inl e \<Rightarrow> Inl (FieldWire e) | Inr (v, r) \<Rightarrow> Inr (ABool v, r))
      else Inl (FieldType t))"

lemma readValue_advances: "readValue r t = Inr (v, r') \<Longrightarrow> advances r r'"
  by (auto simp: readValue_def split: if_splits sum.splits dest: read_advances)

function dec_loop ::
  "string \<Rightarrow> strct \<Rightarrow> (string \<times> any) list \<Rightarrow> reader \<Rightarrow> generic_err + (string \<times> any) list" where
  "dec_loop sn st out r =
     (case NextField r of
        Inl e \<Rightarrow> Inl (GWire e)
      | Inr ((ty, i), r1) \<Rightarrow>
          if ty = TStop then Inr out
          else (case FieldByID st i of
              None \<Rightarrow> (case Skip ty r1 of Inl e \<Rightarrow> Inl (GWire e) | Inr r2 \<Rightarrow> dec_loop sn st out r2)
            | Some f \<Rightarrow>
                (case readValue r1 (f_Type f) of
                   Inl e \<Rightarrow> Inl (GDecode sn (f_Name f) e)
                 | Inr (v, r2) \<Rightarrow> dec_loop sn st (al_put (f_Name f) v out) r2)))"
  by pat_completeness auto
termination
  by (relation "measure (\<lambda>(_, _, _, r). length (rd_b r) - rd_i r)")
    (auto intro!: advances_measure
      dest!: NextField_advances [OF sym] readValue_advances [OF sym] Skip_advances [OF sym]
      dest: NextField_advances readValue_advances Skip_advances intro: advances_trans)

declare dec_loop.simps [simp del]

definition Decode :: "spec \<Rightarrow> string \<Rightarrow> byte list \<Rightarrow> generic_err + (string \<times> any) list" where
  "Decode sp structName body =
     (case spec_Struct sp structName of
        Inl e \<Rightarrow> Inl (GIdl e)
      | Inr st \<Rightarrow> dec_loop structName st [] (NewReader body))"

section \<open>The client\<close>

definition generic_Call ::
  "json_env \<Rightarrow> spec \<Rightarrow> net \<Rightarrow> ctx \<Rightarrow> string \<Rightarrow> any \<Rightarrow> client \<Rightarrow>
     (generic_err + (string \<times> any) list) \<times> client" where
  "generic_Call je sp net c meth req cl =
     (case spec_Method sp meth of
        None \<Rightarrow> (Inl (GUnknownMethod meth), cl)
      | Some m \<Rightarrow>
          (case Encode je sp (m_Req m) req of
             Inl e \<Rightarrow> (Inl e, cl)
           | Inr body \<Rightarrow>
               (case Call net c meth body cl of
                  (Inl e, cl1) \<Rightarrow> (Inl (GCall e), cl1)
                | (Inr raw, cl1) \<Rightarrow> (Decode sp (m_Resp m) raw, cl1))))"

section \<open>The same bodies as generated code\<close>

text \<open>The generic values that stand for a wire value.\<close>

fun any_is :: "json_env \<Rightarrow> any \<Rightarrow> gval \<Rightarrow> bool" where
  "any_is je v (VI64 n) \<longleftrightarrow> asI64 je v = Inr n"
| "any_is je v (VStr s) \<longleftrightarrow> v = AStr s"
| "any_is je v (VBool b) \<longleftrightarrow> v = ABool b"

lemma any_is_not_nil: "any_is je v g \<Longrightarrow> v \<noteq> ANil"
  by (cases g) (auto simp: asI64_def)

lemma writeField_put:
  "any_is je v g \<Longrightarrow> gval_type g = f_Type f \<Longrightarrow> writeField je f v w = Inr (put_gval (f_ID f) g w)"
  by (cases g) (auto simp: writeField_def dest: sym)

definition map_is :: "json_env \<Rightarrow> (string \<Rightarrow> string) \<Rightarrow> strct \<Rightarrow> (string \<times> any) list \<Rightarrow> gstruct \<Rightarrow> bool" where
  "map_is je u st m s \<longleftrightarrow>
     list_all (\<lambda>f. case map_of m (f_Name f) of None \<Rightarrow> False
                   | Some v \<Rightarrow> any_is je v (s (GoName u (f_Name f)))) (st_Fields st)"

lemma writeFields_fold:
  "list_all (\<lambda>f. gval_type (s (GoName u (f_Name f))) = f_Type f) fs \<Longrightarrow>
   list_all (\<lambda>f. case map_of m (f_Name f) of None \<Rightarrow> False
                   | Some v \<Rightarrow> any_is je v (s (GoName u (f_Name f)))) fs \<Longrightarrow>
   writeFields je sn m fs w = Inr (fold (gen_write u s) fs w)"
proof (induction fs arbitrary: w)
  case (Cons f fs)
  then obtain v where v: "map_of m (f_Name f) = Some v" "any_is je v (s (GoName u (f_Name f)))"
    by (auto split: option.splits)
  have "writeField je f v w = Inr (gen_write u s f w)"
    using Cons.prems v by (simp add: gen_write_put writeField_put)
  then show ?case using Cons v any_is_not_nil by auto
qed simp

lemma Encode_generated:
  assumes "spec_Struct sp n = Inr st" and "gstruct_ok u st s"
    and "asMap je v = Inr m" and "map_is je u st m s"
  shows "Encode je sp n v = Inr (gen_encode u st s)"
proof -
  have "list_all (\<lambda>f. gval_type (s (GoName u (f_Name f))) = f_Type f) (st_Fields st)"
    using assms(2) by (auto simp: gstruct_ok_def list_all_iff)
  then have "writeFields je n m (st_Fields st) NewWriter = Inr (fold (gen_write u s) (st_Fields st) NewWriter)"
    using assms(4) unfolding map_is_def by (rule writeFields_fold)
  moreover have "Encode je sp n v = bindR (asMap je v) (\<lambda>m.
               bindR (writeFields je n m (st_Fields st) NewWriter) (\<lambda>w. Inr (Bytes (Stop w))))"
    using assms(1,3) by (cases v) (simp_all add: Encode_def asMap_def)
  ultimately show ?thesis using assms(3) by (simp add: gen_encode_def)
qed

section \<open>The same fields as generated code\<close>

fun any_of :: "gval \<Rightarrow> any" where
  "any_of (VI64 n) = AI64 n" | "any_of (VStr s) = AStr s" | "any_of (VBool b) = ABool b"

text \<open>The generic decoder as arms: each known field stores its value under its IDL name.\<close>

definition any_arm :: "field \<Rightarrow> ((string \<times> any) list) arm list" where
  "any_arm f =
     (let n = f_Name f in
      if f_Type f = ''i64'' then [ArmI64 (f_ID f) (\<lambda>v. al_put n (AI64 v))]
      else if f_Type f = ''string'' then [ArmStr (f_ID f) (\<lambda>v. al_put n (AStr v))]
      else if f_Type f = ''bool'' then [ArmBool (f_ID f) (\<lambda>v. al_put n (ABool v))]
      else [])"

definition any_arms :: "strct \<Rightarrow> ((string \<times> any) list) arm list" where
  "any_arms st = concat (map any_arm (st_Fields st))"

lemma find_any_arms:
  assumes "list_all (\<lambda>f. f_Type f \<in> set field_types) fs"
  shows "find (\<lambda>a. arm_id a = i) (concat (map any_arm fs)) =
    (case find (\<lambda>f. f_ID f = i) fs of None \<Rightarrow> None | Some f \<Rightarrow> Some (hd (any_arm f)))"
  using assms
proof (induction fs)
  case (Cons f fs)
  then have "\<exists>a. any_arm f = [a] \<and> arm_id a = f_ID f"
    by (auto simp: any_arm_def Let_def field_types_def)
  then show ?case using Cons by auto
qed simp

definition drop_err :: "'e + 'a \<Rightarrow> 'a option" where
  "drop_err m = (case m of Inl _ \<Rightarrow> None | Inr x \<Rightarrow> Some x)"

lemma drop_err_simps [simp]: "drop_err (Inl e) = None" "drop_err (Inr x) = Some x"
  by (simp_all add: drop_err_def)

lemma run_any_arm:
  assumes "f_Type f \<in> set field_types"
  shows "drop_err (run_arm (hd (any_arm f)) s r) =
    (case readValue r (f_Type f) of Inl _ \<Rightarrow> None | Inr (v, r') \<Rightarrow> Some (al_put (f_Name f) v s, r'))"
  using assms
  by (auto simp: any_arm_def Let_def field_types_def readValue_def bindR_def split: sum.split)

lemma dec_loop_arms:
  "list_all (\<lambda>f. f_Type f \<in> set field_types) (st_Fields st) \<Longrightarrow>
   drop_err (dec_loop sn st out r) = drop_err (decode_loop (any_arms st) out r)"
proof (induction sn st out r rule: dec_loop.induct)
  case (1 sn st out r)
  show ?case
  proof (cases "NextField r")
    case (Inl e)
    then show ?thesis by (simp add: dec_loop.simps [of sn st out r] decode_loop.simps [of _ out r])
  next
    case (Inr x)
    obtain ty i r1 where x: "x = ((ty, i), r1)" by (metis prod.collapse)
    note nf = Inr [unfolded x]
    note unf = dec_loop.simps [of sn st out r] decode_loop.simps [of "any_arms st" out r] nf
    show ?thesis
    proof (cases "ty = TStop")
      case False
      show ?thesis
      proof (cases "FieldByID st i")
        case None
        then have "switch (any_arms st) ty i out r1 = bindR (Skip ty r1) (\<lambda>r. Inr (out, r))"
          using find_any_arms [OF "1.prems", of i] by (simp add: switch_def any_arms_def FieldByID_def)
        then show ?thesis
          using "1.IH"(1) [OF nf refl refl False None] "1.prems" False None
          by (cases "Skip ty r1") (simp_all add: unf)
      next
        case (Some f)
        have t: "f_Type f \<in> set field_types"
          using Some "1.prems" by (auto simp: FieldByID_def find_Some_iff list_all_iff)
        have sw: "switch (any_arms st) ty i out r1 = run_arm (hd (any_arm f)) out r1"
          using Some find_any_arms [OF "1.prems", of i]
          by (simp add: switch_def any_arms_def FieldByID_def)
        show ?thesis
        proof (cases "readValue r1 (f_Type f)")
          case (Inl e)
          then have "\<exists>e. run_arm (hd (any_arm f)) out r1 = Inl e"
            using run_any_arm [OF t, of out r1]
            by (cases "run_arm (hd (any_arm f)) out r1") simp_all
          then show ?thesis using Inl Some False sw by (auto simp: unf)
        next
          case (Inr y)
          obtain v r2 where y: "y = (v, r2)" by fastforce
          have "run_arm (hd (any_arm f)) out r1 = Inr (al_put (f_Name f) v out, r2)"
            using run_any_arm [OF t, of out r1] Inr
            by (cases "run_arm (hd (any_arm f)) out r1") (simp_all add: y)
          then show ?thesis
            using "1.IH"(2) [OF nf refl refl False Some Inr y [symmetric]] "1.prems" Inr Some False sw
            by (simp add: unf y)
        qed
      qed
    qed (simp add: unf)
  qed
qed

text \<open>What the map of the generic decoder says of the struct of the generated one.\<close>

definition reads_same :: "(string \<Rightarrow> string) \<Rightarrow> strct \<Rightarrow> (string \<times> any) list \<Rightarrow> gstruct \<Rightarrow> bool" where
  "reads_same u st m s \<longleftrightarrow>
     list_all (\<lambda>f. case map_of m (f_Name f) of
         None \<Rightarrow> s (GoName u (f_Name f)) = zero_of (f_Type f)
       | Some v \<Rightarrow> v = any_of (s (GoName u (f_Name f)))) (st_Fields st)"

definition names_ok :: "(string \<Rightarrow> string) \<Rightarrow> strct \<Rightarrow> bool" where
  "names_ok u st \<longleftrightarrow> distinct (go_names u st) \<and>
     list_all (\<lambda>f. f_Type f \<in> set field_types) (st_Fields st)"

lemma go_name_inj:
  assumes "names_ok u st" and "f \<in> set (st_Fields st)" and "g \<in> set (st_Fields st)"
  shows "GoName u (f_Name f) = GoName u (f_Name g) \<longleftrightarrow> f = g"
  using assms by (auto simp: names_ok_def go_names_def distinct_map dest: inj_onD)

lemma reads_same_set:
  assumes n: "names_ok u st" and f: "f \<in> set (st_Fields st)" and s: "reads_same u st m s"
  shows "reads_same u st (al_put (f_Name f) (any_of v) m) (s(GoName u (f_Name f) := v))"
  unfolding reads_same_def list_all_iff
proof
  fix g assume g: "g \<in> set (st_Fields st)"
  have "f_Name g = f_Name f \<Longrightarrow> g = f" using go_name_inj [OF n f g] by metis
  then show "case map_of (al_put (f_Name f) (any_of v) m) (f_Name g) of
         None \<Rightarrow> (s(GoName u (f_Name f) := v)) (GoName u (f_Name g)) = zero_of (f_Type g)
       | Some w \<Rightarrow> w = any_of ((s(GoName u (f_Name f) := v)) (GoName u (f_Name g)))"
    using go_name_inj [OF n f g] s g by (cases "g = f") (auto simp: reads_same_def list_all_iff split: option.splits)
qed

lemma arms_sim:
  assumes "names_ok u st"
  shows "list_all2 (arm_sim (reads_same u st)) (any_arms st) (gen_arms u st)"
proof -
  have "set fs \<subseteq> set (st_Fields st) \<Longrightarrow>
      list_all2 (arm_sim (reads_same u st)) (concat (map any_arm fs)) (concat (map (gen_arm u) fs))" for fs
  proof (induction fs)
    case (Cons f fs)
    then have f: "f \<in> set (st_Fields st)" by simp
    then have t: "f_Type f \<in> set field_types" using assms by (auto simp: names_ok_def list_all_iff)
    note set = reads_same_set [OF assms f]
    have "list_all2 (arm_sim (reads_same u st)) (any_arm f) (gen_arm u f)"
      using t set [of _ _ "VI64 _"] set [of _ _ "VStr _"] set [of _ _ "VBool _"]
      by (auto simp: field_types_def any_arm_def gen_arm_def Let_def arm_sim_def elim: arm_fits.elims)
    then show ?case using Cons by (simp add: list_all2_appendI)
  qed simp
  then show ?thesis by (simp add: any_arms_def gen_arms_def)
qed

lemma gen_zero_same:
  assumes "names_ok u st"
  shows "reads_same u st [] (gen_zero u st)"
proof -
  have zero: "distinct (map (\<lambda>f. GoName u (f_Name f)) fs) \<Longrightarrow> f \<in> set fs \<Longrightarrow>
      fold (\<lambda>f s. s(GoName u (f_Name f) := zero_of (f_Type f))) fs z (GoName u (f_Name f)) = zero_of (f_Type f)"
    for fs f and z :: gstruct
  proof (induction fs arbitrary: z)
    case (Cons g fs)
    have out: "n \<notin> (\<lambda>f. GoName u (f_Name f)) ` set fs \<Longrightarrow>
        fold (\<lambda>f s. s(GoName u (f_Name f) := zero_of (f_Type f))) fs y n = y n" for n and y :: gstruct
      by (induction fs arbitrary: y) auto
    show ?case
    proof (cases "f \<in> set fs")
      case False
      then have "f = g" using Cons.prems by simp
      then show ?thesis using out [of "GoName u (f_Name g)"] Cons.prems
        by (simp del: fun_upd_apply add: fun_upd_same)
    qed (use Cons in simp)
  qed simp
  show ?thesis using assms
    by (simp add: reads_same_def list_all_iff names_ok_def go_names_def gen_zero_def zero del: fun_upd_apply)
qed

lemma Decode_generated:
  assumes "spec_Struct sp n = Inr st" and "names_ok u st"
  shows "rel_option (reads_same u st) (drop_err (Decode sp n body)) (drop_err (gen_decode u st body))"
proof -
  have "drop_err (Decode sp n body) = drop_err (decode_loop (any_arms st) [] (NewReader body))"
    using assms by (simp add: Decode_def dec_loop_arms names_ok_def)
  moreover have "rel_sum (=) (reads_same u st) (decode_loop (any_arms st) [] (NewReader body))
      (decode_loop (gen_arms u st) (gen_zero u st) (NewReader body))"
    by (rule decode_sim [where R = "reads_same u st", OF arms_sim [OF assms(2)] gen_zero_same [OF assms(2)]])
  ultimately show ?thesis
    by (auto simp: gen_decode_loop rel_sum.simps)
qed

section \<open>Properties\<close>

text \<open>C21 The generic encoder writes the bytes of the generated one: a map (or the JSON text of one)
  that gives every field of the struct a value of its type is encoded to exactly the body
  that the template's encoder writes for the struct with those values.\<close>

theorem generic_encode_is_generated:
  assumes "spec_Struct sp n = Inr st" and "gstruct_ok u st s" and "asMap je v = Inr m"
    and "map_is je u st m s"
  shows "Encode je sp n v = Inr (gen_encode u st s)"
  using assms by (rule Encode_generated)

definition demo_env :: json_env where
  "demo_env = \<lparr>je_map = (\<lambda>_. Inl ''no JSON''), je_f2i = (\<lambda>b. b)\<rparr>"

definition demo_spec :: spec where
  "demo_spec = \<lparr>sp_Service = ''Items'', sp_Methods = [\<lparr>m_Name = ''Get'', m_Req = ''Item'', m_Resp = ''Item'',
     m_HTTPMethod = [], m_URI = []\<rparr>], sp_Structs = [(''Item'', demo_strct)]\<rparr>"

definition demo_map :: "(string \<times> any) list" where
  "demo_map = [(''name'', AStr ''abc''), (''id'', ANum ''77''), (''done'', ABool True)]"

lemma demo_spec_struct: "spec_Struct demo_spec ''Item'' = Inr demo_strct"
  by (simp add: spec_Struct_def demo_spec_def)

lemma demo_atoi: "go_atoi ''77'' = (77, True)"
  by code_simp

lemma demo_map_is: "map_is demo_env (\<lambda>s. s) demo_strct demo_map demo_value"
  by (simp add: map_is_def demo_strct_def demo_map_def demo_GoName demo_value_def asI64_def demo_atoi)

theorem generic_encode_is_generated_witness:
  "Encode demo_env demo_spec ''Item'' (AMap demo_map) = Inr (gen_encode (\<lambda>s. s) demo_strct demo_value)"
  by (rule generic_encode_is_generated [OF demo_spec_struct demo_strct_ok(2) _ demo_map_is])
    (simp add: asMap_def)

text \<open>C5 On any body, well formed or not, the generic decoder and the generated decoder agree: they
  fail together, and when they succeed each field has in the generic map the value it has in
  the generated struct, a field that is missing from the map being zero there.\<close>

theorem generic_decode_is_generated:
  assumes "spec_Struct sp n = Inr st" and "names_ok u st"
  shows "rel_option (reads_same u st) (drop_err (Decode sp n body)) (drop_err (gen_decode u st body))"
  using assms by (rule Decode_generated)

theorem generic_decode_is_generated_witness:
  "rel_option (reads_same (\<lambda>s. s) demo_strct) (drop_err (Decode demo_spec ''Item'' [1, 2, 188, 1, 0]))
     (drop_err (gen_decode (\<lambda>s. s) demo_strct [1, 2, 188, 1, 0]))"
proof -
  have "names_ok (\<lambda>s. s) demo_strct"
    unfolding names_ok_def demo_go_names by (simp add: demo_strct_def field_types_def)
  then show ?thesis by (rule generic_decode_is_generated [OF demo_spec_struct])
qed

end
