(* ===== verification/BoardKinds.thy ===== *)
theory BoardKinds
  imports Generic Sql
begin

text \<open>
  projects/board/board.go: kinds of items, the items, the html template of a kind, and the
  checks on what clients send. The standard library's JSON and template packages and the zone
  of \<open>time.Local\<close> are the fields of \<open>board_env\<close>; the time of a call is a \<open>clock\<close>. Dates are
  parsed as \<open>time.ParseInLocation\<close> does with the layout \<open>2006-01-02\<close>.
\<close>

section \<open>Data\<close>

record kind =
  k_ID :: int
  k_Name :: string

record item =
  it_ID :: int
  it_KindID :: int
  it_Kind :: string
  it_Content :: string
  it_Type :: string
  it_Date :: string
  it_Extra :: "(string \<times> any) list"
  it_Rendered :: string

record kind_html =
  kh_ID :: int
  kh_KindID :: int
  kh_Kind :: string
  kh_HTML :: string

record kind_count =
  kc_ID :: int
  kc_Name :: string
  kc_Count :: int

record summary =
  sm_Kinds :: "kind_count list"
  sm_Total :: int
  sm_UpdatedAt :: string

record list_page =
  lp_Items :: "item list"
  lp_Page :: int
  lp_PageSize :: int
  lp_Total :: int

datatype board_err =
    NoName | LongName | NoContent | BadDay | LongType | NoSuchKind string | NotExist
  | HasHTML | NoHTML | EmptyHTML | LongHTML | BadTemplate | SlicePanic | DbErr sql_err

text \<open>
  \<open>be_midnight\<close> is the day that \<open>Format\<close> prints for the local midnight of a date;
  \<open>be_map\<close> what \<open>json.Unmarshal\<close> leaves in a map that was empty (\<open>None\<close>: nil), \<open>be_any\<close> its
  result on an \<open>any\<close>; \<open>be_marshal\<close> is \<open>json.Marshal\<close> of a map; \<open>be_tmpl\<close> is the parsed
  template, as the function \<open>Execute\<close> runs; \<open>be_rfc3339\<close> formats a time in seconds.
\<close>

record board_env =
  be_midnight :: "string \<Rightarrow> string"
  be_valid :: "string \<Rightarrow> bool"
  be_map :: "string \<Rightarrow> (string \<times> any) list option"
  be_any :: "string \<Rightarrow> any option"
  be_marshal :: "(string \<times> any) list \<Rightarrow> string option"
  be_tmpl :: "string \<Rightarrow> (any \<Rightarrow> string option) option"
  be_rfc3339 :: "int \<Rightarrow> string"

record clock =
  ck_today :: string
  ck_now :: int

section \<open>Names and contents\<close>

definition cleanName :: "string \<Rightarrow> board_err + string" where
  "cleanName name0 =
     (let name = trim_space name0 in
      if name = [] then Inl NoName
      else if 64 < int (rune_count name) then Inl LongName
      else Inr name)"

definition cleanContent :: "string \<Rightarrow> board_err + string" where
  "cleanContent s0 = (let s = trim_space s0 in if s = [] then Inl NoContent else Inr s)"

text \<open>The check on the type of an item, written out in \<open>AddItem\<close> and \<open>UpdateItem\<close>.\<close>

definition clean_type :: "string \<Rightarrow> board_err + string" where
  "clean_type typ0 =
     (let t = trim_space typ0 in if 64 < int (rune_count t) then Inl LongType else Inr t)"

section \<open>Dates\<close>

definition digit_val :: "char \<Rightarrow> int" where "digit_val c = int (ordc c) - 48"

definition is_leap :: "int \<Rightarrow> bool" where
  "is_leap y \<longleftrightarrow> y mod 4 = 0 \<and> (y mod 100 \<noteq> 0 \<or> y mod 400 = 0)"

definition days_in :: "int \<Rightarrow> int \<Rightarrow> int" where
  "days_in m y =
     (if m = 2 then (if is_leap y then 29 else 28)
      else if m \<in> {4, 6, 9, 11} then 30 else 31)"

definition civil_date :: "string \<Rightarrow> bool" where
  "civil_date s =
     (case s of
        [a, b, c, d, h1, e, f, h2, g, h] \<Rightarrow>
          list_all is_digit_c [a, b, c, d, e, f, g, h] \<and> h1 = CHR ''-'' \<and> h2 = CHR ''-'' \<and>
          (let y = 1000 * digit_val a + 100 * digit_val b + 10 * digit_val c + digit_val d;
               m = 10 * digit_val e + digit_val f; dd = 10 * digit_val g + digit_val h
           in 1 \<le> m \<and> m \<le> 12 \<and> 1 \<le> dd \<and> dd \<le> days_in m y)
      | _ \<Rightarrow> False)"

definition parseDay :: "board_env \<Rightarrow> clock \<Rightarrow> string \<Rightarrow> board_err + string" where
  "parseDay env clk s0 =
     (let s = trim_space s0 in
      if s = [] then Inr (ck_today clk)
      else if \<not> civil_date s then Inl BadDay
      else Inr (be_midnight env s))"

section \<open>Pages, JSON and templates\<close>

definition pageArgs :: "int \<Rightarrow> int \<Rightarrow> int \<times> int" where
  "pageArgs page pageSize =
     (let page = (if page < 1 then 1 else page);
          pageSize = (if pageSize \<le> 0 then 20 else pageSize);
          pageSize = (if pageSize > 100 then 100 else pageSize)
      in (page, pageSize))"

definition extraOrEmpty :: "board_env \<Rightarrow> string \<Rightarrow> string" where
  "extraOrEmpty env raw =
     (if raw = [] \<or> raw = ''null'' then ''{}''
      else if \<not> be_valid env raw then ''{}''
      else raw)"

definition extraMap :: "board_env \<Rightarrow> string \<Rightarrow> (string \<times> any) list" where
  "extraMap env raw =
     (case be_map env (extraOrEmpty env raw) of None \<Rightarrow> [] | Some m \<Rightarrow> m)"

text \<open>A map read by \<open>extraMap\<close> is never nil.\<close>

definition mapExtra :: "board_env \<Rightarrow> (string \<times> any) list \<Rightarrow> string" where
  "mapExtra env m = (case be_marshal env m of None \<Rightarrow> ''{}'' | Some b \<Rightarrow> b)"

definition parseKindHTML :: "board_env \<Rightarrow> string \<Rightarrow> board_err + string" where
  "parseKindHTML env s0 =
     (let s = trim_space s0 in
      if s = [] then Inl EmptyHTML
      else if 64 * 1024 < int (length s) then Inl LongHTML
      else if be_tmpl env s = None then Inl BadTemplate
      else Inr s)"

definition contentData :: "board_env \<Rightarrow> string \<Rightarrow> any" where
  "contentData env s0 =
     (let s = trim_space s0 in
      if s = [] then AMap []
      else case be_any env s of None \<Rightarrow> AStr s | Some v \<Rightarrow> v)"

definition applyHTML :: "board_env \<Rightarrow> string \<Rightarrow> item list \<Rightarrow> item list" where
  "applyHTML env html items =
     (if html = [] then items
      else case be_tmpl env html of
        None \<Rightarrow> items
      | Some t \<Rightarrow>
          map (\<lambda>it. case t (contentData env (it_Content it)) of
                       None \<Rightarrow> it | Some out \<Rightarrow> it\<lparr>it_Rendered := out\<rparr>) items)"

section \<open>Lemmas\<close>

lemma cleanName_iff:
  "cleanName s = Inr n \<longleftrightarrow> n = trim_space s \<and> n \<noteq> [] \<and> rune_count n \<le> 64"
  by (cases "n = trim_space s") (auto simp: cleanName_def Let_def)

lemma cleanContent_iff: "cleanContent s = Inr c \<longleftrightarrow> c = trim_space s \<and> c \<noteq> []"
  by (cases "c = trim_space s") (auto simp: cleanContent_def Let_def)

lemma cleanName_idem: "cleanName s = Inr n \<Longrightarrow> cleanName n = Inr n"
  by (auto simp: cleanName_iff)

lemma cleanContent_idem: "cleanContent s = Inr c \<Longrightarrow> cleanContent c = Inr c"
  by (auto simp: cleanContent_iff)

lemma parseKindHTML_iff:
  "parseKindHTML env s = Inr h \<longleftrightarrow>
    h = trim_space s \<and> h \<noteq> [] \<and> length h \<le> 65536 \<and> be_tmpl env h \<noteq> None"
  by (auto simp: parseKindHTML_def Let_def)

lemma pageArgs_bounds:
  "pageArgs page sz = (p, n) \<Longrightarrow> 1 \<le> p \<and> 1 \<le> n \<and> n \<le> 100"
  by (auto simp: pageArgs_def Let_def split: if_splits)

lemma pageArgs_id: "1 \<le> p \<Longrightarrow> 1 \<le> n \<Longrightarrow> n \<le> 100 \<Longrightarrow> pageArgs p n = (p, n)"
  by (simp add: pageArgs_def)

lemma applyHTML_id [simp]: "map it_ID (applyHTML env h xs) = map it_ID xs"
  by (auto simp: applyHTML_def split: option.splits)

lemma applyHTML_length [simp]: "length (applyHTML env h xs) = length xs"
  by (auto simp: applyHTML_def split: option.splits)

lemma civil_date_length: "civil_date s \<Longrightarrow> length s = 10"
  by (auto simp: civil_date_def split: list.splits)

end
