(* ===== verification/BoardSpec.thy ===== *)
theory BoardSpec
  imports BoardKinds "HOL-Library.List_Lexorder" "HOL-Library.Product_Lexorder"
begin

text \<open>
  The contract of the interface \<open>Board\<close> of projects/board/board.go. A store is seen as its
  kinds, items and html templates in the order of their ids (\<open>board_view\<close>); each operation has
  a specification on views. The locale \<open>board\<close> states that a store keeps the contract; what
  clients rely on is proved once inside it and holds of both stores of the program.
\<close>

section \<open>The interface\<close>

record 's Board =
  CreateKind :: "string \<Rightarrow> 's \<Rightarrow> (board_err + kind) \<times> 's"
  AddItem :: "clock \<Rightarrow> string \<Rightarrow> string \<Rightarrow> string \<Rightarrow> string \<Rightarrow> string \<Rightarrow> 's \<Rightarrow> (board_err + item) \<times> 's"
  UpdateItem :: "clock \<Rightarrow> int \<Rightarrow> string option \<Rightarrow> string option \<Rightarrow> string option \<Rightarrow> string option \<Rightarrow>
    string option \<Rightarrow> 's \<Rightarrow> (board_err + item) \<times> 's"
  DeleteItem :: "clock \<Rightarrow> int \<Rightarrow> 's \<Rightarrow> (board_err + unit) \<times> 's"
  ListItems :: "string \<Rightarrow> int \<Rightarrow> int \<Rightarrow> 's \<Rightarrow> (board_err + list_page) \<times> 's"
  Summary :: "'s \<Rightarrow> (board_err + summary) \<times> 's"
  CreateKindHTML :: "string \<Rightarrow> string \<Rightarrow> 's \<Rightarrow> (board_err + kind_html) \<times> 's"
  UpdateKindHTML :: "string \<Rightarrow> string \<Rightarrow> 's \<Rightarrow> (board_err + kind_html) \<times> 's"
  DeleteKindHTML :: "string \<Rightarrow> 's \<Rightarrow> (board_err + unit) \<times> 's"
  GetKindHTML :: "string \<Rightarrow> 's \<Rightarrow> (board_err + kind_html) \<times> 's"

section \<open>Views\<close>

record board_view =
  bv_kinds :: "kind list"
  bv_items :: "item list"
  bv_htmls :: "kind_html list"

definition rising :: "int list \<Rightarrow> bool" where "rising xs \<longleftrightarrow> sorted_wrt (<) xs"

definition above :: "int \<Rightarrow> int list \<Rightarrow> bool" where "above i xs \<longleftrightarrow> (\<forall>x\<in>set xs. x < i)"

lemma rising_append [simp]: "rising (xs @ [i]) \<longleftrightarrow> rising xs \<and> above i xs"
  by (auto simp: rising_def above_def sorted_wrt_append)

lemma rising_Nil [simp]: "rising []" "above i []"
  by (simp_all add: rising_def above_def)

lemma rising_distinct: "rising xs \<Longrightarrow> distinct xs"
  by (simp add: rising_def strict_sorted_iff)

lemma rising_filter: "rising (map f xs) \<Longrightarrow> rising (map f (filter P xs))"
  by (simp add: rising_def sorted_wrt_map sorted_wrt_filter)

definition view_ok :: "board_view \<Rightarrow> bool" where
  "view_ok v \<longleftrightarrow>
     rising (map k_ID (bv_kinds v)) \<and> distinct (map k_Name (bv_kinds v)) \<and>
     (\<forall>k\<in>set (bv_kinds v). cleanName (k_Name k) = Inr (k_Name k)) \<and>
     rising (map it_ID (bv_items v)) \<and>
     (\<forall>it\<in>set (bv_items v).
        cleanContent (it_Content it) = Inr (it_Content it) \<and> clean_type (it_Type it) = Inr (it_Type it) \<and>
        it_Rendered it = [] \<and>
        \<lparr>k_ID = it_KindID it, k_Name = it_Kind it\<rparr> \<in> set (bv_kinds v)) \<and>
     rising (map kh_ID (bv_htmls v)) \<and> distinct (map kh_KindID (bv_htmls v)) \<and>
     (\<forall>h\<in>set (bv_htmls v). \<lparr>k_ID = kh_KindID h, k_Name = kh_Kind h\<rparr> \<in> set (bv_kinds v))"

definition view_kind :: "string \<Rightarrow> board_view \<Rightarrow> board_err + kind" where
  "view_kind name0 v =
     (let name = trim_space name0 in
      case find (\<lambda>k. k_Name k = name) (bv_kinds v) of None \<Rightarrow> Inl (NoSuchKind name) | Some k \<Rightarrow> Inr k)"

definition view_html :: "int \<Rightarrow> board_view \<Rightarrow> kind_html option" where
  "view_html kid v = find (\<lambda>h. kh_KindID h = kid) (bv_htmls v)"

definition err_of :: "'e + 'a \<Rightarrow> 'e list" where
  "err_of r = (case r of Inl e \<Rightarrow> [e] | Inr _ \<Rightarrow> [])"

lemma err_of_simps [simp]: "err_of (Inl e) = [e]" "err_of (Inr x) = []"
  by (simp_all add: err_of_def)

text \<open>A call one of whose checks fails returns one of their errors and changes nothing.\<close>

definition refused :: "'e list \<Rightarrow> 'e + 'a \<Rightarrow> board_view \<Rightarrow> board_view \<Rightarrow> bool" where
  "refused es r v v' \<longleftrightarrow> (\<exists>e\<in>set es. r = Inl e) \<and> v' = v"

section \<open>Specifications\<close>

definition create_kind_spec :: "string \<Rightarrow> board_view \<Rightarrow> board_err + kind \<Rightarrow> board_view \<Rightarrow> bool" where
  "create_kind_spec name v r v' \<longleftrightarrow>
     (case cleanName name of
        Inl e \<Rightarrow> refused [e] r v v'
      | Inr n \<Rightarrow>
          (case find (\<lambda>k. k_Name k = n) (bv_kinds v) of
             Some k \<Rightarrow> r = Inr k \<and> v' = v
           | None \<Rightarrow> (\<exists>i. above i (map k_ID (bv_kinds v)) \<and> r = Inr \<lparr>k_ID = i, k_Name = n\<rparr> \<and>
                        v' = v\<lparr>bv_kinds := bv_kinds v @ [\<lparr>k_ID = i, k_Name = n\<rparr>]\<rparr>)))"

definition add_errs :: "board_env \<Rightarrow> clock \<Rightarrow> string \<Rightarrow> string \<Rightarrow> string \<Rightarrow> string \<Rightarrow> board_view \<Rightarrow> board_err list" where
  "add_errs env clk kind content date typ v =
     err_of (cleanContent content) @ err_of (parseDay env clk date) @ err_of (clean_type typ) @
     err_of (view_kind kind v)"

definition add_item_spec ::
  "board_env \<Rightarrow> clock \<Rightarrow> string \<Rightarrow> string \<Rightarrow> string \<Rightarrow> string \<Rightarrow> string \<Rightarrow>
     board_view \<Rightarrow> board_err + item \<Rightarrow> board_view \<Rightarrow> bool" where
  "add_item_spec env clk kind content date typ extra v r v' \<longleftrightarrow>
     (if add_errs env clk kind content date typ v \<noteq> [] then
        refused (add_errs env clk kind content date typ v) r v v'
      else \<exists>i k day. above i (map it_ID (bv_items v)) \<and> view_kind kind v = Inr k \<and>
        parseDay env clk date = Inr day \<and>
        (let it = \<lparr>it_ID = i, it_KindID = k_ID k, it_Kind = k_Name k, it_Content = trim_space content,
                   it_Type = trim_space typ, it_Date = day, it_Extra = extraMap env extra, it_Rendered = []\<rparr>
         in r = Inr it \<and> v' = v\<lparr>bv_items := bv_items v @ [it]\<rparr>))"

definition opt_arg :: "('a \<Rightarrow> 'e + 'b) \<Rightarrow> 'a option \<Rightarrow> 'b \<Rightarrow> 'e + 'b" where
  "opt_arg f x cur = (case x of None \<Rightarrow> Inr cur | Some y \<Rightarrow> f y)"

definition upd_item_list :: "int \<Rightarrow> item \<Rightarrow> item list \<Rightarrow> item list" where
  "upd_item_list i it xs = map (\<lambda>x. if it_ID x = i then it else x) xs"

definition update_item_spec ::
  "board_env \<Rightarrow> clock \<Rightarrow> int \<Rightarrow> string option \<Rightarrow> string option \<Rightarrow> string option \<Rightarrow> string option \<Rightarrow> string option \<Rightarrow>
     board_view \<Rightarrow> board_err + item \<Rightarrow> board_view \<Rightarrow> bool" where
  "update_item_spec env clk i kind content date typ extra v r v' \<longleftrightarrow>
     (case find (\<lambda>x. it_ID x = i) (bv_items v) of
        None \<Rightarrow> refused [NotExist] r v v'
      | Some cur \<Rightarrow>
          (case (opt_arg (\<lambda>n. view_kind n v) kind \<lparr>k_ID = it_KindID cur, k_Name = it_Kind cur\<rparr>,
                 opt_arg cleanContent content (it_Content cur),
                 opt_arg (parseDay env clk) date (it_Date cur),
                 opt_arg clean_type typ (it_Type cur)) of
             (Inr k, Inr c, Inr d, Inr t) \<Rightarrow>
               (let it = cur\<lparr>it_KindID := k_ID k, it_Kind := k_Name k, it_Content := c, it_Date := d,
                             it_Type := t,
                             it_Extra := (case extra of None \<Rightarrow> it_Extra cur | Some x \<Rightarrow> extraMap env x)\<rparr>
                in r = Inr it \<and> v' = v\<lparr>bv_items := upd_item_list i it (bv_items v)\<rparr>)
           | (rk, rc, rd, rt) \<Rightarrow> refused (err_of rk @ err_of rc @ err_of rd @ err_of rt) r v v'))"

definition delete_item_spec :: "int \<Rightarrow> board_view \<Rightarrow> board_err + unit \<Rightarrow> board_view \<Rightarrow> bool" where
  "delete_item_spec i v r v' \<longleftrightarrow>
     (if i \<in> set (map it_ID (bv_items v))
      then r = Inr () \<and> v' = v\<lparr>bv_items := filter (\<lambda>x. it_ID x \<noteq> i) (bv_items v)\<rparr>
      else refused [NotExist] r v v')"

text \<open>The items of a kind, newest date first and newest id first within a date.\<close>

definition newest_first :: "item list \<Rightarrow> item list" where
  "newest_first xs = rev (sort_key (\<lambda>x. (map ordc (it_Date x), it_ID x)) xs)"

definition kind_items :: "int \<Rightarrow> board_view \<Rightarrow> item list" where
  "kind_items kid v = newest_first (filter (\<lambda>x. it_KindID x = kid) (bv_items v))"

definition render_kind :: "board_env \<Rightarrow> int \<Rightarrow> board_view \<Rightarrow> item list \<Rightarrow> item list" where
  "render_kind env kid v xs =
     (case view_html kid v of None \<Rightarrow> xs | Some h \<Rightarrow> applyHTML env (kh_HTML h) xs)"

definition page_fits :: "int \<Rightarrow> bool" where "page_fits page \<longleftrightarrow> page \<le> 2 ^ 55"

definition list_items_spec ::
  "board_env \<Rightarrow> string \<Rightarrow> int \<Rightarrow> int \<Rightarrow> board_view \<Rightarrow> board_err + list_page \<Rightarrow> bool" where
  "list_items_spec env kind page0 size0 v r \<longleftrightarrow>
     (case view_kind kind v of
        Inl e \<Rightarrow> r = Inl e
      | Inr k \<Rightarrow>
          (let (page, sz) = pageArgs page0 size0; xs = kind_items (k_ID k) v in
           r = Inr \<lparr>lp_Items = render_kind env (k_ID k) v (take (nat sz) (drop (nat ((page - 1) * sz)) xs)),
                    lp_Page = page, lp_PageSize = sz, lp_Total = int (length xs)\<rparr>))"

definition count_kind :: "int \<Rightarrow> board_view \<Rightarrow> int" where
  "count_kind kid v = int (length (filter (\<lambda>x. it_KindID x = kid) (bv_items v)))"

definition summary_spec :: "board_view \<Rightarrow> board_err + summary \<Rightarrow> bool" where
  "summary_spec v r \<longleftrightarrow>
     (\<exists>at. r = Inr \<lparr>sm_Kinds = map (\<lambda>k. \<lparr>kc_ID = k_ID k, kc_Name = k_Name k, kc_Count = count_kind (k_ID k) v\<rparr>)
                              (bv_kinds v),
                   sm_Total = int (length (bv_items v)), sm_UpdatedAt = at\<rparr>)"

definition html_errs :: "board_env \<Rightarrow> string \<Rightarrow> string \<Rightarrow> bool \<Rightarrow> board_view \<Rightarrow> board_err list" where
  "html_errs env kind html want v =
     err_of (parseKindHTML env html) @
     (case view_kind kind v of
        Inl e \<Rightarrow> [e]
      | Inr k \<Rightarrow> if (view_html (k_ID k) v \<noteq> None) = want then [] else [if want then NoHTML else HasHTML])"

definition create_html_spec ::
  "board_env \<Rightarrow> string \<Rightarrow> string \<Rightarrow> board_view \<Rightarrow> board_err + kind_html \<Rightarrow> board_view \<Rightarrow> bool" where
  "create_html_spec env kind html v r v' \<longleftrightarrow>
     (if html_errs env kind html False v \<noteq> [] then refused (html_errs env kind html False v) r v v'
      else \<exists>i k. above i (map kh_ID (bv_htmls v)) \<and> view_kind kind v = Inr k \<and>
        (let h = \<lparr>kh_ID = i, kh_KindID = k_ID k, kh_Kind = k_Name k, kh_HTML = trim_space html\<rparr>
         in r = Inr h \<and> v' = v\<lparr>bv_htmls := bv_htmls v @ [h]\<rparr>))"

definition upd_html_list :: "int \<Rightarrow> kind_html \<Rightarrow> kind_html list \<Rightarrow> kind_html list" where
  "upd_html_list kid h xs = map (\<lambda>x. if kh_KindID x = kid then h else x) xs"

definition update_html_spec ::
  "board_env \<Rightarrow> string \<Rightarrow> string \<Rightarrow> board_view \<Rightarrow> board_err + kind_html \<Rightarrow> board_view \<Rightarrow> bool" where
  "update_html_spec env kind html v r v' \<longleftrightarrow>
     (if html_errs env kind html True v \<noteq> [] then refused (html_errs env kind html True v) r v v'
      else \<exists>k h0. view_kind kind v = Inr k \<and> view_html (k_ID k) v = Some h0 \<and>
        (let h = h0\<lparr>kh_HTML := trim_space html\<rparr>
         in r = Inr h \<and> v' = v\<lparr>bv_htmls := upd_html_list (k_ID k) h (bv_htmls v)\<rparr>))"

definition get_html_spec :: "string \<Rightarrow> board_view \<Rightarrow> board_err + kind_html \<Rightarrow> bool" where
  "get_html_spec kind v r \<longleftrightarrow>
     (case view_kind kind v of
        Inl e \<Rightarrow> r = Inl e
      | Inr k \<Rightarrow> r = (case view_html (k_ID k) v of None \<Rightarrow> Inl NoHTML | Some h \<Rightarrow> Inr h))"

definition delete_html_spec :: "string \<Rightarrow> board_view \<Rightarrow> board_err + unit \<Rightarrow> board_view \<Rightarrow> bool" where
  "delete_html_spec kind v r v' \<longleftrightarrow>
     (case view_kind kind v of
        Inl e \<Rightarrow> refused [e] r v v'
      | Inr k \<Rightarrow>
          (case view_html (k_ID k) v of
             None \<Rightarrow> refused [NoHTML] r v v'
           | Some h \<Rightarrow> r = Inr () \<and>
               v' = v\<lparr>bv_htmls := filter (\<lambda>x. kh_KindID x \<noteq> k_ID k) (bv_htmls v)\<rparr>))"

section \<open>The specifications keep a view well formed\<close>

lemma kind_eta [simp]: "\<lparr>k_ID = k_ID k, k_Name = k_Name k\<rparr> = k"
  by (cases k) simp

lemma clean_type_iff: "clean_type t = Inr u \<longleftrightarrow> u = trim_space t \<and> rune_count u \<le> 64"
  by (auto simp: clean_type_def Let_def)

lemma view_kindD: "view_kind n v = Inr k \<Longrightarrow> k \<in> set (bv_kinds v) \<and> k_Name k = trim_space n"
  by (auto simp: view_kind_def Let_def split: option.splits dest: find_SomeD)

lemmas view_kind_in = view_kindD [THEN conjunct1]

lemma view_htmlD: "view_html i v = Some h \<Longrightarrow> h \<in> set (bv_htmls v) \<and> kh_KindID h = i"
  by (auto simp: view_html_def dest: find_SomeD)

lemma view_html_None: "view_html i v = None \<longleftrightarrow> i \<notin> set (map kh_KindID (bv_htmls v))"
  by (auto simp: view_html_def find_None_iff)

lemma err_of_Nil [simp]: "err_of r = [] \<longleftrightarrow> isOk r"
  by (cases r) auto

lemma isOkD: "isOk r \<Longrightarrow> \<exists>x. r = Inr x"
  by (simp add: isOk_iff)

lemma create_kind_ok: "view_ok v \<Longrightarrow> create_kind_spec n v r v' \<Longrightarrow> view_ok v'"
  using cleanName_idem [of n]
  by (auto simp: create_kind_spec_def view_ok_def refused_def find_None_iff
      split: sum.splits option.splits)

lemma add_item_ok:
  assumes "view_ok v" and "add_item_spec env clk k c d t x v r v'"
  shows "view_ok v'"
proof (cases "add_errs env clk k c d t v = []")
  case True
  then have "isOk (cleanContent c)" "isOk (clean_type t)" by (simp_all add: add_errs_def)
  then have "cleanContent (trim_space c) = Inr (trim_space c)" "clean_type (trim_space t) = Inr (trim_space t)"
    by (auto simp: isOk_iff cleanContent_iff clean_type_iff)
  with assms True show ?thesis
    by (auto simp: add_item_spec_def Let_def view_ok_def dest!: view_kind_in)
qed (use assms in \<open>simp add: add_item_spec_def refused_def\<close>)

lemma opt_arg_ok:
  assumes "opt_arg f x cur = Inr y" and "P cur" and "\<And>a. f a = Inr y \<Longrightarrow> P y"
  shows "P y"
  using assms by (auto simp: opt_arg_def split: option.splits)

lemma upd_item_list_ids [simp]: "it_ID it = i \<Longrightarrow> map it_ID (upd_item_list i it xs) = map it_ID xs"
  by (auto simp: upd_item_list_def)

lemma set_upd_item_list: "x \<in> set (upd_item_list i it xs) \<Longrightarrow> x = it \<or> x \<in> set xs"
  by (auto simp: upd_item_list_def split: if_splits)

lemma update_item_ok:
  assumes "view_ok v" and "update_item_spec env clk i ok oc od ot ox v r v'"
  shows "view_ok v'"
proof (cases "find (\<lambda>x. it_ID x = i) (bv_items v)")
  case None
  with assms show ?thesis by (simp add: update_item_spec_def refused_def)
next
  case (Some cur)
  then have cur: "cur \<in> set (bv_items v)" "it_ID cur = i" by (auto dest: find_SomeD)
  let ?k = "opt_arg (\<lambda>n. view_kind n v) ok \<lparr>k_ID = it_KindID cur, k_Name = it_Kind cur\<rparr>"
  let ?c = "opt_arg cleanContent oc (it_Content cur)"
  let ?d = "opt_arg (parseDay env clk) od (it_Date cur)"
  let ?t = "opt_arg clean_type ot (it_Type cur)"
  show ?thesis
  proof (cases "\<exists>k c d t. ?k = Inr k \<and> ?c = Inr c \<and> ?d = Inr d \<and> ?t = Inr t")
    case True
    then obtain k c d t where kcdt: "?k = Inr k" "?c = Inr c" "?d = Inr d" "?t = Inr t" by blast
    have "k \<in> set (bv_kinds v)"
      by (rule opt_arg_ok [OF kcdt(1)]) (use assms(1) cur in \<open>auto simp: view_ok_def dest: view_kindD\<close>)
    moreover have "cleanContent c = Inr c"
      by (rule opt_arg_ok [OF kcdt(2)]) (use assms(1) cur in \<open>auto simp: view_ok_def dest: cleanContent_idem\<close>)
    moreover have "clean_type t = Inr t"
      by (rule opt_arg_ok [OF kcdt(4)]) (use assms(1) cur in \<open>auto simp: view_ok_def clean_type_iff\<close>)
    ultimately show ?thesis
      using assms Some kcdt cur
      by (auto simp: update_item_spec_def Let_def view_ok_def dest!: set_upd_item_list)
  next
    case False
    then have "v' = v"
      using assms(2) Some by (auto simp: update_item_spec_def refused_def split: sum.splits)
    with assms show ?thesis by simp
  qed
qed

lemma delete_item_ok: "view_ok v \<Longrightarrow> delete_item_spec i v r v' \<Longrightarrow> view_ok v'"
  by (auto simp: delete_item_spec_def view_ok_def refused_def rising_filter split: if_splits)

lemma create_html_ok:
  assumes "view_ok v" and "create_html_spec env k h v r v'"
  shows "view_ok v'"
proof (cases "html_errs env k h False v = []")
  case True
  with assms show ?thesis
    by (auto simp: create_html_spec_def html_errs_def Let_def view_ok_def view_html_None
        split: if_splits dest!: view_kind_in)
qed (use assms in \<open>simp add: create_html_spec_def refused_def\<close>)

lemma upd_html_list_ids:
  "distinct (map kh_KindID xs) \<Longrightarrow> h0 \<in> set xs \<Longrightarrow> kh_KindID h0 = k \<Longrightarrow> kh_KindID h = k \<Longrightarrow> kh_ID h = kh_ID h0 \<Longrightarrow>
    map kh_KindID (upd_html_list k h xs) = map kh_KindID xs \<and> map kh_ID (upd_html_list k h xs) = map kh_ID xs"
  by (auto simp: upd_html_list_def distinct_map inj_on_def)

lemma update_html_ok:
  assumes "view_ok v" and "update_html_spec env k h v r v'"
  shows "view_ok v'"
proof (cases "html_errs env k h True v = []")
  case True
  with assms obtain kd h0 where kd: "view_kind k v = Inr kd" "view_html (k_ID kd) v = Some h0"
    "v' = v\<lparr>bv_htmls := upd_html_list (k_ID kd) (h0\<lparr>kh_HTML := trim_space h\<rparr>) (bv_htmls v)\<rparr>"
    by (auto simp: update_html_spec_def Let_def)
  moreover have "map kh_KindID (bv_htmls v') = map kh_KindID (bv_htmls v) \<and>
      map kh_ID (bv_htmls v') = map kh_ID (bv_htmls v)"
    using upd_html_list_ids [of "bv_htmls v" h0 "k_ID kd" "h0\<lparr>kh_HTML := trim_space h\<rparr>"]
      assms(1) view_htmlD [OF kd(2)] kd(3) by (simp add: view_ok_def)
  moreover have "\<forall>x\<in>set (bv_htmls v'). \<lparr>k_ID = kh_KindID x, k_Name = kh_Kind x\<rparr> \<in> set (bv_kinds v)"
    using assms(1) view_htmlD [OF kd(2)] kd(3) by (auto simp: view_ok_def upd_html_list_def)
  ultimately show ?thesis
    using assms(1) by (simp add: view_ok_def)
qed (use assms in \<open>simp add: update_html_spec_def refused_def\<close>)

lemma delete_html_ok: "view_ok v \<Longrightarrow> delete_html_spec k v r v' \<Longrightarrow> view_ok v'"
  by (auto simp: delete_html_spec_def view_ok_def refused_def rising_filter distinct_map inj_on_def
      split: sum.splits option.splits)

lemmas spec_keeps_ok = create_kind_ok add_item_ok update_item_ok delete_item_ok create_html_ok
  update_html_ok delete_html_ok

lemma above_mono: "above i xs \<Longrightarrow> above (i + 1) xs"
  by (auto simp: above_def)

lemma above_app [simp]: "above i (xs @ ys) \<longleftrightarrow> above i xs \<and> above i ys"
  by (auto simp: above_def)

lemma above_one [simp]: "above i [j] \<longleftrightarrow> j < i"
  by (simp add: above_def)

lemma above_sub: "above i xs \<Longrightarrow> set ys \<subseteq> set xs \<Longrightarrow> above i ys"
  by (auto simp: above_def)

lemma length_newest_first [simp]: "length (newest_first xs) = length xs"
  by (simp add: newest_first_def)

lemma update_item_ids:
  "update_item_spec env clk i ok oc od ot ox v r v' \<Longrightarrow> map it_ID (bv_items v') = map it_ID (bv_items v)"
  by (auto simp: update_item_spec_def refused_def Let_def simp del: map_map
      dest!: find_SomeD split: option.splits sum.splits)

lemma update_html_ids:
  assumes "view_ok v" and "update_html_spec env k h v r v'"
  shows "map kh_ID (bv_htmls v') = map kh_ID (bv_htmls v)"
proof (cases "html_errs env k h True v = []")
  case True
  with assms obtain kd h0 where kd: "view_kind k v = Inr kd" "view_html (k_ID kd) v = Some h0"
    "v' = v\<lparr>bv_htmls := upd_html_list (k_ID kd) (h0\<lparr>kh_HTML := trim_space h\<rparr>) (bv_htmls v)\<rparr>"
    by (auto simp: update_html_spec_def Let_def)
  then show ?thesis
    using upd_html_list_ids [of "bv_htmls v" h0 "k_ID kd" "h0\<lparr>kh_HTML := trim_space h\<rparr>"]
      assms(1) view_htmlD [OF kd(2)] by (simp add: view_ok_def)
qed (use assms in \<open>simp add: update_html_spec_def refused_def\<close>)

section \<open>The contract\<close>

text \<open>\<open>fits\<close> are the texts a column of the store can hold.\<close>

locale board =
  fixes B :: "'s Board" and env :: board_env and fits :: "string \<Rightarrow> bool"
    and inv :: "'s \<Rightarrow> bool" and view :: "'s \<Rightarrow> board_view"
  assumes inv_view: "inv s \<Longrightarrow> view_ok (view s)"
    and create_kind: "inv s \<Longrightarrow> CreateKind B nm s = (rk, s') \<Longrightarrow>
      inv s' \<and> create_kind_spec nm (view s) rk (view s')"
    and add_item: "inv s \<Longrightarrow> fits (trim_space c) \<Longrightarrow> AddItem B clk k c d t x s = (ri, s') \<Longrightarrow>
      inv s' \<and> add_item_spec env clk k c d t x (view s) ri (view s')"
    and update_item: "inv s \<Longrightarrow> (\<forall>y. oc = Some y \<longrightarrow> fits (trim_space y)) \<Longrightarrow>
      UpdateItem B clk i ok oc od ot ox s = (ri, s') \<Longrightarrow>
      inv s' \<and> update_item_spec env clk i ok oc od ot ox (view s) ri (view s')"
    and delete_item: "inv s \<Longrightarrow> DeleteItem B clk i s = (ru, s') \<Longrightarrow>
      inv s' \<and> delete_item_spec i (view s) ru (view s')"
    and list_items: "inv s \<Longrightarrow> page_fits p \<Longrightarrow> int (length (bv_items (view s))) < 2 ^ 55 \<Longrightarrow>
      ListItems B k p n s = (rl, s') \<Longrightarrow> inv s' \<and> view s' = view s \<and> list_items_spec env k p n (view s) rl"
    and summarise: "inv s \<Longrightarrow> Summary B s = (rs, s') \<Longrightarrow> inv s' \<and> view s' = view s \<and> summary_spec (view s) rs"
    and create_html: "inv s \<Longrightarrow> fits (trim_space h) \<Longrightarrow> CreateKindHTML B k h s = (rh, s') \<Longrightarrow>
      inv s' \<and> create_html_spec env k h (view s) rh (view s')"
    and update_html: "inv s \<Longrightarrow> fits (trim_space h) \<Longrightarrow> UpdateKindHTML B k h s = (rh, s') \<Longrightarrow>
      inv s' \<and> update_html_spec env k h (view s) rh (view s')"
    and delete_html: "inv s \<Longrightarrow> DeleteKindHTML B k s = (ru, s') \<Longrightarrow>
      inv s' \<and> delete_html_spec k (view s) ru (view s')"
    and get_html: "inv s \<Longrightarrow> GetKindHTML B k s = (rh, s') \<Longrightarrow>
      inv s' \<and> view s' = view s \<and> get_html_spec k (view s) rh"

section \<open>Sequences of calls\<close>

datatype board_op =
    OpKind string | OpAdd clock string string string string string
  | OpUpdate clock int "string option" "string option" "string option" "string option" "string option"
  | OpDelete clock int | OpHtml string string | OpSetHtml string string | OpNoHtml string

text \<open>One call that can change the store: whether it succeeded, and the store after it.\<close>

fun board_step :: "'s Board \<Rightarrow> board_op \<Rightarrow> 's \<Rightarrow> bool \<times> 's" where
  "board_step B (OpKind n) s = (case CreateKind B n s of (r, s1) \<Rightarrow> (isOk r, s1))"
| "board_step B (OpAdd clk k c d t x) s = (case AddItem B clk k c d t x s of (r, s1) \<Rightarrow> (isOk r, s1))"
| "board_step B (OpUpdate clk i ok oc od ot ox) s =
     (case UpdateItem B clk i ok oc od ot ox s of (r, s1) \<Rightarrow> (isOk r, s1))"
| "board_step B (OpDelete clk i) s = (case DeleteItem B clk i s of (r, s1) \<Rightarrow> (isOk r, s1))"
| "board_step B (OpHtml k h) s = (case CreateKindHTML B k h s of (r, s1) \<Rightarrow> (isOk r, s1))"
| "board_step B (OpSetHtml k h) s = (case UpdateKindHTML B k h s of (r, s1) \<Rightarrow> (isOk r, s1))"
| "board_step B (OpNoHtml k) s = (case DeleteKindHTML B k s of (r, s1) \<Rightarrow> (isOk r, s1))"

fun op_fits :: "(string \<Rightarrow> bool) \<Rightarrow> board_op \<Rightarrow> bool" where
  "op_fits fits (OpAdd clk k c d t x) \<longleftrightarrow> fits (trim_space c)"
| "op_fits fits (OpUpdate clk i ok oc od ot ox) \<longleftrightarrow> (case oc of None \<Rightarrow> True | Some c \<Rightarrow> fits (trim_space c))"
| "op_fits fits (OpHtml k h) \<longleftrightarrow> fits (trim_space h)"
| "op_fits fits (OpSetHtml k h) \<longleftrightarrow> fits (trim_space h)"
| "op_fits fits _ \<longleftrightarrow> True"

definition board_run :: "'s Board \<Rightarrow> board_op list \<Rightarrow> 's \<Rightarrow> 's" where
  "board_run B ops s = foldl (\<lambda>s op. snd (board_step B op s)) s ops"

text \<open>What a client reads by fetching \<open>P\<close> pages of \<open>n\<close> items.\<close>

definition read_pages :: "'s Board \<Rightarrow> string \<Rightarrow> nat \<Rightarrow> nat \<Rightarrow> 's \<Rightarrow> int list" where
  "read_pages B k n P s =
     concat (map (\<lambda>i. case fst (ListItems B k (int i + 1) (int n) s) of
                        Inl _ \<Rightarrow> [] | Inr pg \<Rightarrow> map it_ID (lp_Items pg)) [0..<P])"

lemma set_newest_first [simp]: "set (newest_first xs) = set xs"
  by (simp add: newest_first_def)

lemma newest_first_sorted:
  assumes "distinct (map it_ID xs)"
  shows "sorted_wrt (\<lambda>a b. (map ordc (it_Date b), it_ID b) < (map ordc (it_Date a), it_ID a)) (newest_first xs)"
proof -
  let ?k = "\<lambda>x. (map ordc (it_Date x), it_ID x)"
  have "distinct (map ?k xs)"
    using assms by (auto simp: distinct_map inj_on_def)
  then have "distinct (map ?k (sort_key ?k xs))"
    by (simp add: distinct_map)
  then have "sorted_wrt (<) (map ?k (sort_key ?k xs))"
    using sorted_sort_key [of ?k xs] by (simp only: strict_sorted_iff simp_thms)
  then have "sorted_wrt (\<lambda>a b. ?k a < ?k b) (sort_key ?k xs)"
    by (simp only: sorted_wrt_map)
  then show ?thesis by (simp only: newest_first_def sorted_wrt_rev)
qed

lemma newest_first_distinct: "distinct (map it_ID xs) \<Longrightarrow> distinct (map it_ID (newest_first xs))"
  by (simp add: newest_first_def rev_map [symmetric] distinct_map)

lemma kind_items_ok:
  assumes "view_ok v"
  shows "distinct (map it_ID (kind_items kid v)) \<and>
    set (kind_items kid v) = {x \<in> set (bv_items v). it_KindID x = kid} \<and>
    sorted_wrt (\<lambda>a b. (map ordc (it_Date b), it_ID b) < (map ordc (it_Date a), it_ID a)) (kind_items kid v)"
proof -
  have "distinct (map it_ID (filter (\<lambda>x. it_KindID x = kid) (bv_items v)))"
    using assms by (simp add: view_ok_def rising_distinct distinct_map_filter)
  from newest_first_sorted [OF this] newest_first_distinct [OF this] show ?thesis
    by (auto simp: kind_items_def)
qed

lemma sum_hit: "distinct ids \<Longrightarrow> (\<Sum>i\<leftarrow>ids. if j = i then 1 else 0 :: int) = (if j \<in> set ids then 1 else 0)"
  by (induction ids) auto

lemma count_total:
  assumes "distinct (map k_ID ks)" and "\<forall>x\<in>set xs. it_KindID x \<in> set (map k_ID ks)"
  shows "int (length xs) = (\<Sum>k\<leftarrow>ks. int (length (filter (\<lambda>x. it_KindID x = k_ID k) xs)))"
  using assms
proof (induction xs)
  case (Cons x xs)
  then have "(\<Sum>k\<leftarrow>ks. (if it_KindID x = k_ID k then 1 else 0 :: int)) = 1"
    using sum_hit [of "map k_ID ks" "it_KindID x"] by (simp add: comp_def)
  moreover have "(\<Sum>k\<leftarrow>ks. int (length (filter (\<lambda>y. it_KindID y = k_ID k) (x # xs)))) =
      (\<Sum>k\<leftarrow>ks. (if it_KindID x = k_ID k then 1 else 0)) +
      (\<Sum>k\<leftarrow>ks. int (length (filter (\<lambda>y. it_KindID y = k_ID k) xs)))"
    by (subst sum_list_addf [symmetric]) (auto intro!: arg_cong [of _ _ sum_list])
  ultimately show ?case using Cons by simp
qed simp

lemma view_total:
  assumes "view_ok v"
  shows "(\<Sum>k\<leftarrow>bv_kinds v. count_kind (k_ID k) v) = int (length (bv_items v))"
proof -
  have "distinct (map k_ID (bv_kinds v))"
    using assms by (simp add: view_ok_def rising_distinct)
  moreover have "\<forall>x\<in>set (bv_items v). it_KindID x \<in> set (map k_ID (bv_kinds v))"
  proof
    fix x assume "x \<in> set (bv_items v)"
    with assms have "\<lparr>k_ID = it_KindID x, k_Name = it_Kind x\<rparr> \<in> set (bv_kinds v)"
      by (simp add: view_ok_def)
    from imageI [OF this, of k_ID] show "it_KindID x \<in> set (map k_ID (bv_kinds v))" by simp
  qed
  ultimately show ?thesis
    using count_total [of "bv_kinds v" "bv_items v"] by (simp only: count_kind_def)
qed

context board begin

lemma step_keeps:
  assumes "inv s" and "op_fits fits op"
  shows "inv (snd (board_step B op s)) \<and> (fst (board_step B op s) \<or> view (snd (board_step B op s)) = view s)"
proof (cases op)
  case (OpKind n)
  with assms create_kind [of s n] show ?thesis
    by (auto simp: create_kind_spec_def refused_def split: prod.splits sum.splits option.splits)
next
  case (OpAdd clk k c d t x)
  with assms add_item [of s c clk k d t x] show ?thesis
    by (fastforce simp: add_item_spec_def refused_def Let_def split: prod.splits if_splits)
next
  case (OpUpdate clk i ok oc od ot ox)
  with assms have "\<forall>y. oc = Some y \<longrightarrow> fits (trim_space y)" by (auto split: option.splits)
  with assms OpUpdate update_item [of s oc clk i ok od ot ox] show ?thesis
    by (fastforce simp: update_item_spec_def refused_def Let_def split: prod.splits option.splits sum.splits)
next
  case (OpDelete clk i)
  with assms delete_item [of s clk i] show ?thesis
    by (fastforce simp: delete_item_spec_def refused_def split: prod.splits if_splits)
next
  case (OpHtml k h)
  with assms create_html [of s h k] show ?thesis
    by (fastforce simp: create_html_spec_def refused_def Let_def split: prod.splits if_splits)
next
  case (OpSetHtml k h)
  with assms update_html [of s h k] show ?thesis
    by (fastforce simp: update_html_spec_def refused_def Let_def split: prod.splits if_splits)
next
  case (OpNoHtml k)
  with assms delete_html [of s k] show ?thesis
    by (fastforce simp: delete_html_spec_def refused_def split: prod.splits sum.splits option.splits)
qed

lemma run_inv: "inv s \<Longrightarrow> list_all (op_fits fits) ops \<Longrightarrow> inv (board_run B ops s)"
proof (induction ops arbitrary: s)
  case (Cons op ops)
  then show ?case using step_keeps [of s op] by (simp add: board_run_def)
qed (simp add: board_run_def)

lemma run_view_ok: "inv s \<Longrightarrow> list_all (op_fits fits) ops \<Longrightarrow> view_ok (view (board_run B ops s))"
  by (intro inv_view run_inv)

lemma read_pages_view:
  assumes "inv s" and "int (length (bv_items (view s))) < 2 ^ 55" and "view_kind k (view s) = Inr kd"
    and "1 \<le> n" "n \<le> 100" and "int P \<le> 2 ^ 55"
  shows "read_pages B k n P s = take (P * n) (map it_ID (kind_items (k_ID kd) (view s)))"
proof -
  let ?xs = "kind_items (k_ID kd) (view s)"
  have "(case fst (ListItems B k (int i + 1) (int n) s) of Inl _ \<Rightarrow> [] | Inr pg \<Rightarrow> map it_ID (lp_Items pg)) =
      take n (drop (i * n) (map it_ID ?xs))" if "i < P" for i
  proof -
    obtain r s1 where r: "ListItems B k (int i + 1) (int n) s = (r, s1)" by fastforce
    have "page_fits (int i + 1)" using that assms(6) by (simp add: page_fits_def)
    from list_items [OF assms(1) this assms(2) r] assms(3,4,5)
    have "r = Inr \<lparr>lp_Items = render_kind env (k_ID kd) (view s) (take n (drop (nat (int i * int n)) ?xs)),
        lp_Page = int i + 1, lp_PageSize = int n, lp_Total = int (length ?xs)\<rparr>"
      by (simp add: list_items_spec_def pageArgs_id Let_def)
    moreover have "map it_ID (render_kind env (k_ID kd) (view s) ys) = map it_ID ys" for ys
      by (simp add: render_kind_def split: option.split)
    ultimately show ?thesis using r by (simp add: nat_mult_distrib take_map drop_map)
  qed
  then have "read_pages B k n P s = concat (map (\<lambda>i. take n (drop (i * n) (map it_ID ?xs))) [0..<P])"
    unfolding read_pages_def by (intro arg_cong [of _ _ concat] map_cong) auto
  then show ?thesis by (simp only: concat_pages)
qed

lemma read_pages_all:
  assumes "inv s" and "int (length (bv_items (view s))) < 2 ^ 55" and "view_kind k (view s) = Inr kd"
    and "1 \<le> n" "n \<le> 100" and "int P \<le> 2 ^ 55" and "length (bv_items (view s)) \<le> P * n"
  shows "distinct (read_pages B k n P s) \<and>
    set (read_pages B k n P s) = {i. \<exists>x\<in>set (bv_items (view s)). it_ID x = i \<and> it_KindID x = k_ID kd}"
proof -
  have "length (kind_items (k_ID kd) (view s)) \<le> length (bv_items (view s))"
    by (simp add: kind_items_def)
  with read_pages_view [OF assms(1-6)] assms(7)
  have "read_pages B k n P s = map it_ID (kind_items (k_ID kd) (view s))" by simp
  with kind_items_ok [OF inv_view [OF assms(1)], of "k_ID kd"] show ?thesis by auto
qed

lemma summary_adds_up:
  assumes "inv s" and "Summary B s = (Inr r, s')"
  shows "sm_Total r = sum_list (map kc_Count (sm_Kinds r))"
  using summarise [OF assms] view_total [OF inv_view [OF assms(1)]] by (auto simp: summary_spec_def comp_def)

end

end
