(* ===== verification/BoardMem.thy ===== *)
theory BoardMem
  imports BoardSpec
begin

text \<open>
  projects/board/mem.go: the \<open>Board\<close> kept in memory. Slices are lists; a call holds the
  mutex from its first access to the fields to its end, so calls run one after the other. The
  counters of ids, \<open>int64\<close> in Go, are \<open>int\<close>: they grow by one per call.
\<close>

section \<open>State and operations\<close>

record memBoard =
  mb_kinds :: "kind list"
  mb_items :: "item list"
  mb_htmls :: "kind_html list"
  mb_nextKind :: int
  mb_nextItem :: int
  mb_nextHTML :: int
  mb_updated :: string

definition newMemBoard :: memBoard where
  "newMemBoard = \<lparr>mb_kinds = [], mb_items = [], mb_htmls = [], mb_nextKind = 1, mb_nextItem = 1,
                  mb_nextHTML = 1, mb_updated = []\<rparr>"

definition mem_CreateKind :: "string \<Rightarrow> memBoard \<Rightarrow> (board_err + kind) \<times> memBoard" where
  "mem_CreateKind name0 s =
     (case cleanName name0 of
        Inl e \<Rightarrow> (Inl e, s)
      | Inr name \<Rightarrow>
          (case find (\<lambda>k. k_Name k = name) (mb_kinds s) of
             Some k \<Rightarrow> (Inr k, s)
           | None \<Rightarrow>
               (let k = \<lparr>k_ID = mb_nextKind s, k_Name = name\<rparr>
                in (Inr k, s\<lparr>mb_nextKind := mb_nextKind s + 1, mb_kinds := mb_kinds s @ [k]\<rparr>))))"

definition kindLocked :: "memBoard \<Rightarrow> string \<Rightarrow> board_err + kind" where
  "kindLocked s name0 =
     (let name = trim_space name0 in
      case find (\<lambda>k. k_Name k = name) (mb_kinds s) of
        Some k \<Rightarrow> Inr k
      | None \<Rightarrow> Inl (NoSuchKind name))"

definition htmlLocked :: "memBoard \<Rightarrow> int \<Rightarrow> board_err + kind_html" where
  "htmlLocked s kindID =
     (case find (\<lambda>h. kh_KindID h = kindID) (mb_htmls s) of Some h \<Rightarrow> Inr h | None \<Rightarrow> Inl NotExist)"

definition mem_AddItem ::
  "board_env \<Rightarrow> clock \<Rightarrow> string \<Rightarrow> string \<Rightarrow> string \<Rightarrow> string \<Rightarrow> string \<Rightarrow> memBoard \<Rightarrow>
     (board_err + item) \<times> memBoard" where
  "mem_AddItem env clk kind content0 date typ0 extra s =
     (case bindR (cleanContent content0) (\<lambda>content.
           bindR (parseDay env clk date) (\<lambda>day.
           bindR (clean_type typ0) (\<lambda>typ.
           bindR (kindLocked s kind) (\<lambda>k. Inr (content, day, typ, k))))) of
        Inl e \<Rightarrow> (Inl e, s)
      | Inr (content, day, typ, k) \<Rightarrow>
          (let it = \<lparr>it_ID = mb_nextItem s, it_KindID = k_ID k, it_Kind = k_Name k, it_Content = content,
                     it_Type = typ, it_Date = day, it_Extra = extraMap env extra, it_Rendered = []\<rparr>
           in (Inr it, s\<lparr>mb_nextItem := mb_nextItem s + 1, mb_items := mb_items s @ [it],
                         mb_updated := be_rfc3339 env (ck_now clk)\<rparr>)))"

text \<open>The index that the loop over \<open>s.items\<close> breaks at.\<close>

fun find_index :: "('a \<Rightarrow> bool) \<Rightarrow> 'a list \<Rightarrow> nat option" where
  "find_index P [] = None"
| "find_index P (x # xs) = (if P x then Some 0 else map_option Suc (find_index P xs))"

definition mem_UpdateItem ::
  "board_env \<Rightarrow> clock \<Rightarrow> int \<Rightarrow> string option \<Rightarrow> string option \<Rightarrow> string option \<Rightarrow> string option \<Rightarrow> string option \<Rightarrow>
     memBoard \<Rightarrow> (board_err + item) \<times> memBoard" where
  "mem_UpdateItem env clk i kind content date typ extra s =
     (case find_index (\<lambda>x. it_ID x = i) (mb_items s) of
        None \<Rightarrow> (Inl NotExist, s)
      | Some n \<Rightarrow>
          (let it = mb_items s ! n in
           case bindR (case kind of None \<Rightarrow> Inr it
                  | Some x \<Rightarrow> bindR (kindLocked s x) (\<lambda>k. Inr (it\<lparr>it_KindID := k_ID k, it_Kind := k_Name k\<rparr>))) (\<lambda>it.
                bindR (case content of None \<Rightarrow> Inr it
                  | Some x \<Rightarrow> bindR (cleanContent x) (\<lambda>b. Inr (it\<lparr>it_Content := b\<rparr>))) (\<lambda>it.
                bindR (case date of None \<Rightarrow> Inr it
                  | Some x \<Rightarrow> bindR (parseDay env clk x) (\<lambda>d. Inr (it\<lparr>it_Date := d\<rparr>))) (\<lambda>it.
                bindR (case typ of None \<Rightarrow> Inr it
                  | Some x \<Rightarrow> bindR (clean_type x) (\<lambda>t. Inr (it\<lparr>it_Type := t\<rparr>))) (\<lambda>it.
                Inr (case extra of None \<Rightarrow> it | Some x \<Rightarrow> it\<lparr>it_Extra := extraMap env x\<rparr>))))) of
             Inl e \<Rightarrow> (Inl e, s)
           | Inr it \<Rightarrow> (Inr it, s\<lparr>mb_items := (mb_items s)[n := it], mb_updated := be_rfc3339 env (ck_now clk)\<rparr>)))"

definition mem_DeleteItem :: "board_env \<Rightarrow> clock \<Rightarrow> int \<Rightarrow> memBoard \<Rightarrow> (board_err + unit) \<times> memBoard" where
  "mem_DeleteItem env clk i s =
     (if \<not> list_ex (\<lambda>x. it_ID x = i) (mb_items s) then (Inl NotExist, s)
      else (Inr (), s\<lparr>mb_items := filter (\<lambda>x. it_ID x \<noteq> i) (mb_items s), mb_updated := be_rfc3339 env (ck_now clk)\<rparr>))"

text \<open>\<open>sort.Slice\<close> with an order that is total on items with distinct ids; a negative first
  index of a slice panics.\<close>

definition mem_ListItems ::
  "board_env \<Rightarrow> string \<Rightarrow> int \<Rightarrow> int \<Rightarrow> memBoard \<Rightarrow> (board_err + list_page) \<times> memBoard" where
  "mem_ListItems env kind page0 size0 s =
     (case kindLocked s kind of
        Inl e \<Rightarrow> (Inl e, s)
      | Inr k \<Rightarrow>
          (let (page, pageSize) = pageArgs page0 size0;
               xs = newest_first (filter (\<lambda>it. it_KindID it = k_ID k) (mb_items s));
               total = int (length xs);
               start = wrap64 ((page - 1) * pageSize);
               start = (if start > total then total else start);
               stop = wrap64 (start + pageSize);
               stop = (if stop > total then total else stop)
           in if start < 0 \<or> stop < start then (Inl SlicePanic, s)
              else (let out = take (nat (stop - start)) (drop (nat start) xs);
                        out = (case htmlLocked s (k_ID k) of Inl _ \<Rightarrow> out | Inr h \<Rightarrow> applyHTML env (kh_HTML h) out)
                    in (Inr \<lparr>lp_Items = out, lp_Page = page, lp_PageSize = pageSize, lp_Total = total\<rparr>, s))))"

definition mem_CreateKindHTML ::
  "board_env \<Rightarrow> string \<Rightarrow> string \<Rightarrow> memBoard \<Rightarrow> (board_err + kind_html) \<times> memBoard" where
  "mem_CreateKindHTML env kind html0 s =
     (case bindR (parseKindHTML env html0) (\<lambda>html. bindR (kindLocked s kind) (\<lambda>k. Inr (html, k))) of
        Inl e \<Rightarrow> (Inl e, s)
      | Inr (html, k) \<Rightarrow>
          if isOk (htmlLocked s (k_ID k)) then (Inl HasHTML, s)
          else (let h = \<lparr>kh_ID = mb_nextHTML s, kh_KindID = k_ID k, kh_Kind = k_Name k, kh_HTML = html\<rparr>
                in (Inr h, s\<lparr>mb_nextHTML := mb_nextHTML s + 1, mb_htmls := mb_htmls s @ [h]\<rparr>)))"

definition mem_UpdateKindHTML ::
  "board_env \<Rightarrow> string \<Rightarrow> string \<Rightarrow> memBoard \<Rightarrow> (board_err + kind_html) \<times> memBoard" where
  "mem_UpdateKindHTML env kind html0 s =
     (case bindR (parseKindHTML env html0) (\<lambda>html. bindR (kindLocked s kind) (\<lambda>k. Inr (html, k))) of
        Inl e \<Rightarrow> (Inl e, s)
      | Inr (html, k) \<Rightarrow>
          (case find_index (\<lambda>h. kh_KindID h = k_ID k) (mb_htmls s) of
             None \<Rightarrow> (Inl NoHTML, s)
           | Some n \<Rightarrow>
               (let h = (mb_htmls s ! n)\<lparr>kh_HTML := html, kh_Kind := k_Name k\<rparr>
                in (Inr h, s\<lparr>mb_htmls := (mb_htmls s)[n := h]\<rparr>))))"

definition mem_DeleteKindHTML :: "string \<Rightarrow> memBoard \<Rightarrow> (board_err + unit) \<times> memBoard" where
  "mem_DeleteKindHTML kind s =
     (case kindLocked s kind of
        Inl e \<Rightarrow> (Inl e, s)
      | Inr k \<Rightarrow>
          if \<not> list_ex (\<lambda>h. kh_KindID h = k_ID k) (mb_htmls s) then (Inl NoHTML, s)
          else (Inr (), s\<lparr>mb_htmls := filter (\<lambda>h. kh_KindID h \<noteq> k_ID k) (mb_htmls s)\<rparr>))"

definition mem_GetKindHTML :: "string \<Rightarrow> memBoard \<Rightarrow> (board_err + kind_html) \<times> memBoard" where
  "mem_GetKindHTML kind s =
     (case kindLocked s kind of
        Inl e \<Rightarrow> (Inl e, s)
      | Inr k \<Rightarrow> (case htmlLocked s (k_ID k) of Inl _ \<Rightarrow> (Inl NoHTML, s) | Inr h \<Rightarrow> (Inr h, s)))"

text \<open>The map \<open>counts\<close> of \<open>Summary\<close>, filled by a loop over the items.\<close>

definition item_counts :: "item list \<Rightarrow> (int \<times> int) list" where
  "item_counts xs = foldl (\<lambda>m it. al_put (it_KindID it)
      ((case map_of m (it_KindID it) of None \<Rightarrow> 0 | Some n \<Rightarrow> n) + 1) m) [] xs"

definition mem_Summary :: "memBoard \<Rightarrow> (board_err + summary) \<times> memBoard" where
  "mem_Summary s =
     (let counts = item_counts (mb_items s) in
      (Inr \<lparr>sm_Kinds = map (\<lambda>k. \<lparr>kc_ID = k_ID k, kc_Name = k_Name k,
              kc_Count = (case map_of counts (k_ID k) of None \<Rightarrow> 0 | Some n \<Rightarrow> n)\<rparr>) (mb_kinds s),
            sm_Total = int (length (mb_items s)), sm_UpdatedAt = mb_updated s\<rparr>, s))"

definition mem_Board :: "board_env \<Rightarrow> memBoard Board" where
  "mem_Board env =
     \<lparr>CreateKind = mem_CreateKind, AddItem = mem_AddItem env, UpdateItem = mem_UpdateItem env,
      DeleteItem = mem_DeleteItem env, ListItems = mem_ListItems env, Summary = mem_Summary,
      CreateKindHTML = mem_CreateKindHTML env, UpdateKindHTML = mem_UpdateKindHTML env,
      DeleteKindHTML = mem_DeleteKindHTML, GetKindHTML = mem_GetKindHTML\<rparr>"

section \<open>View and invariant\<close>

definition mem_view :: "memBoard \<Rightarrow> board_view" where
  "mem_view s = \<lparr>bv_kinds = mb_kinds s, bv_items = mb_items s, bv_htmls = mb_htmls s\<rparr>"

definition mem_ok :: "memBoard \<Rightarrow> bool" where
  "mem_ok s \<longleftrightarrow> view_ok (mem_view s) \<and>
     above (mb_nextKind s) (map k_ID (mb_kinds s)) \<and> above (mb_nextItem s) (map it_ID (mb_items s)) \<and>
     above (mb_nextHTML s) (map kh_ID (mb_htmls s))"

section \<open>memBoard keeps the contract\<close>

lemma find_index_Some:
  "find_index P xs = Some n \<Longrightarrow> n < length xs \<and> P (xs ! n) \<and> find P xs = Some (xs ! n)"
  by (induction xs arbitrary: n) (auto split: if_splits)

lemma find_index_None: "find_index P xs = None \<longleftrightarrow> find P xs = None"
  by (induction xs) auto

lemma list_update_key:
  "distinct (map f xs) \<Longrightarrow> n < length xs \<Longrightarrow> xs[n := y] = map (\<lambda>x. if f x = f (xs ! n) then y else x) xs"
  by (rule nth_equalityI) (auto simp: nth_list_update distinct_conv_nth)

lemma kindLocked_view: "kindLocked s n = view_kind n (mem_view s)"
  by (auto simp: kindLocked_def view_kind_def mem_view_def Let_def split: option.splits)

lemma htmlLocked_view:
  "htmlLocked s i = (case view_html i (mem_view s) of Some h \<Rightarrow> Inr h | None \<Rightarrow> Inl NotExist)"
  by (simp add: htmlLocked_def view_html_def mem_view_def)

lemma mem_view_sel [simp]:
  "bv_kinds (mem_view s) = mb_kinds s" "bv_items (mem_view s) = mb_items s" "bv_htmls (mem_view s) = mb_htmls s"
  by (simp_all add: mem_view_def)

lemma mem_view_upd [simp]:
  "mem_view (s\<lparr>mb_kinds := a\<rparr>) = (mem_view s)\<lparr>bv_kinds := a\<rparr>"
  "mem_view (s\<lparr>mb_items := b\<rparr>) = (mem_view s)\<lparr>bv_items := b\<rparr>"
  "mem_view (s\<lparr>mb_htmls := c\<rparr>) = (mem_view s)\<lparr>bv_htmls := c\<rparr>"
  "mem_view (s\<lparr>mb_nextKind := d\<rparr>) = mem_view s" "mem_view (s\<lparr>mb_nextItem := e\<rparr>) = mem_view s"
  "mem_view (s\<lparr>mb_nextHTML := f\<rparr>) = mem_view s" "mem_view (s\<lparr>mb_updated := g\<rparr>) = mem_view s"
  by (simp_all add: mem_view_def)

lemma mem_ok_view: "mem_ok s \<Longrightarrow> view_ok (mem_view s)"
  by (simp add: mem_ok_def)

lemma refusedI: "e \<in> set es \<Longrightarrow> refused es (Inl e) v v"
  by (simp add: refused_def)

lemma mem_create_kind:
  assumes "mem_ok s" and "mem_CreateKind n s = (r, s')"
  shows "mem_ok s' \<and> create_kind_spec n (mem_view s) r (mem_view s')"
proof -
  have spec: "create_kind_spec n (mem_view s) r (mem_view s')"
    using assms
    by (auto simp: mem_CreateKind_def create_kind_spec_def mem_ok_def Let_def refused_def
        split: sum.splits option.splits)
  moreover have "above (mb_nextKind s') (map k_ID (mb_kinds s')) \<and>
      above (mb_nextItem s') (map it_ID (mb_items s')) \<and> above (mb_nextHTML s') (map kh_ID (mb_htmls s'))"
    using assms by (auto simp: mem_CreateKind_def mem_ok_def Let_def above_mono split: sum.splits option.splits)
  ultimately show ?thesis
    using create_kind_ok [OF mem_ok_view [OF assms(1)]] by (simp add: mem_ok_def)
qed

lemma mem_add_item:
  assumes "mem_ok s" and "mem_AddItem env clk k c d t x s = (r, s')"
  shows "mem_ok s' \<and> add_item_spec env clk k c d t x (mem_view s) r (mem_view s')"
proof -
  have spec: "add_item_spec env clk k c d t x (mem_view s) r (mem_view s')"
    using assms
    by (cases "cleanContent c"; cases "parseDay env clk d"; cases "clean_type t";
        cases "view_kind k (mem_view s)")
      (auto simp: mem_AddItem_def add_item_spec_def add_errs_def refused_def kindLocked_view mem_ok_def Let_def
        dest!: cleanContent_iff [THEN iffD1] clean_type_iff [THEN iffD1])
  moreover have "above (mb_nextKind s') (map k_ID (mb_kinds s')) \<and>
      above (mb_nextItem s') (map it_ID (mb_items s')) \<and> above (mb_nextHTML s') (map kh_ID (mb_htmls s'))"
    using assms by (auto simp: mem_AddItem_def mem_ok_def Let_def above_mono split: sum.splits)
  ultimately show ?thesis
    using add_item_ok [OF mem_ok_view [OF assms(1)]] by (simp add: mem_ok_def)
qed

lemma mem_update_item:
  assumes "mem_ok s" and "mem_UpdateItem env clk i ok oc od ot ox s = (r, s')"
  shows "mem_ok s' \<and> update_item_spec env clk i ok oc od ot ox (mem_view s) r (mem_view s')"
proof (cases "find_index (\<lambda>x. it_ID x = i) (mb_items s)")
  case None
  with assms show ?thesis
    by (auto simp: mem_UpdateItem_def update_item_spec_def refused_def find_index_None)
next
  case (Some n)
  let ?cur = "mb_items s ! n"
  have n: "n < length (mb_items s)" "it_ID ?cur = i" "find (\<lambda>x. it_ID x = i) (mb_items s) = Some ?cur"
    using find_index_Some [OF Some] by auto
  have upd: "(mb_items s)[n := y] = upd_item_list i y (mb_items s)" for y
    using assms(1) n list_update_key [of it_ID "mb_items s" n y]
    by (simp add: upd_item_list_def mem_ok_def view_ok_def rising_distinct)
  have spec: "update_item_spec env clk i ok oc od ot ox (mem_view s) r (mem_view s')"
    using assms Some n
    by (cases ok; cases oc; cases od; cases ot; cases ox)
      (auto simp: mem_UpdateItem_def update_item_spec_def opt_arg_def Let_def refused_def kindLocked_view
        upd bindR_def split: sum.splits)
  have "mb_nextKind s' = mb_nextKind s" "mb_nextItem s' = mb_nextItem s" "mb_nextHTML s' = mb_nextHTML s"
    "mb_kinds s' = mb_kinds s" "mb_htmls s' = mb_htmls s"
    using assms Some by (auto simp: mem_UpdateItem_def Let_def split: sum.splits)
  moreover have "map it_ID (mb_items s') = map it_ID (mb_items s)"
    using update_item_ids [OF spec] by simp
  ultimately show ?thesis
    using update_item_ok [OF mem_ok_view [OF assms(1)] spec] spec assms(1) by (simp add: mem_ok_def)
qed

lemma mem_delete_item:
  assumes "mem_ok s" and "mem_DeleteItem env clk i s = (r, s')"
  shows "mem_ok s' \<and> delete_item_spec i (mem_view s) r (mem_view s')"
proof -
  have spec: "delete_item_spec i (mem_view s) r (mem_view s')"
    using assms
    by (auto simp: mem_DeleteItem_def delete_item_spec_def refused_def list_ex_iff split: if_splits)
  then show ?thesis
    using delete_item_ok [OF mem_ok_view [OF assms(1)] spec] assms
    by (auto simp: mem_ok_def mem_DeleteItem_def elim!: above_sub split: if_splits)
qed

lemma wrap_small: "0 \<le> x \<Longrightarrow> x < 2 ^ 55 \<Longrightarrow> 1 \<le> n \<Longrightarrow> n \<le> 100 \<Longrightarrow> wrap64 (x + n) = x + n"
  by (rule wrap64_id) auto

lemma mem_list_items:
  assumes "mem_ok s" and "page_fits p" and "int (length (bv_items (mem_view s))) < 2 ^ 55"
    and "mem_ListItems env k p n s = (r, s')"
  shows "mem_ok s' \<and> mem_view s' = mem_view s \<and> list_items_spec env k p n (mem_view s) r"
proof (cases "view_kind k (mem_view s)")
  case (Inl e)
  with assms show ?thesis by (auto simp: mem_ListItems_def list_items_spec_def kindLocked_view)
next
  case (Inr kd)
  obtain pg sz where ps: "pageArgs p n = (pg, sz)" by fastforce
  let ?xs = "newest_first (filter (\<lambda>it. it_KindID it = k_ID kd) (mb_items s))"
  have b: "1 \<le> pg" "1 \<le> sz" "sz \<le> 100" using pageArgs_bounds [OF ps] by auto
  have pg: "pg \<le> 2 ^ 55" using ps assms(2) by (auto simp: page_fits_def pageArgs_def Let_def split: if_splits)
  have len: "int (length ?xs) < 2 ^ 55"
    using assms(3) length_filter_le [of "\<lambda>it. it_KindID it = k_ID kd" "mb_items s"]
    unfolding mem_view_sel length_newest_first by linarith
  obtain a where a: "(pg - 1) * sz = a" by blast
  have "0 \<le> (pg - 1) * sz" using b by simp
  moreover have "(pg - 1) * sz \<le> 2 ^ 55 * 100" using b pg by (intro mult_mono) auto
  ultimately have a0: "0 \<le> a" and w: "wrap64 a = a" unfolding a by (simp, intro wrap64_id) auto
  let ?st = "if int (length ?xs) < a then int (length ?xs) else a"
  have w2: "wrap64 (?st + sz) = ?st + sz"
    using b len a0 by (intro wrap_small) simp_all
  have "take (nat ((if int (length ?xs) < ?st + sz then int (length ?xs) else ?st + sz) - ?st)) (drop (nat ?st) ?xs) =
      take (nat sz) (drop (nat a) ?xs)"
    using b a0 by auto
  then show ?thesis
    using assms(1,4) Inr ps w w2 b a0 a
    by (auto simp: mem_ListItems_def list_items_spec_def kindLocked_view htmlLocked_view kind_items_def
        render_kind_def Let_def split: option.splits if_splits)
qed

lemma mem_create_html:
  assumes "mem_ok s" and "mem_CreateKindHTML env k h s = (r, s')"
  shows "mem_ok s' \<and> create_html_spec env k h (mem_view s) r (mem_view s')"
proof -
  have spec: "create_html_spec env k h (mem_view s) r (mem_view s')"
    using assms
    by (cases "parseKindHTML env h"; cases "view_kind k (mem_view s)")
      (auto simp: mem_CreateKindHTML_def create_html_spec_def html_errs_def refused_def kindLocked_view
        htmlLocked_view mem_ok_def Let_def dest!: parseKindHTML_iff [THEN iffD1] split: option.splits if_splits)
  moreover have "above (mb_nextKind s') (map k_ID (mb_kinds s')) \<and>
      above (mb_nextItem s') (map it_ID (mb_items s')) \<and> above (mb_nextHTML s') (map kh_ID (mb_htmls s'))"
    using assms by (auto simp: mem_CreateKindHTML_def mem_ok_def Let_def above_mono split: sum.splits if_splits)
  ultimately show ?thesis
    using create_html_ok [OF mem_ok_view [OF assms(1)]] by (simp add: mem_ok_def)
qed

lemma mem_update_html:
  assumes "mem_ok s" and "mem_UpdateKindHTML env k h s = (r, s')"
  shows "mem_ok s' \<and> update_html_spec env k h (mem_view s) r (mem_view s')"
proof -
  have spec: "update_html_spec env k h (mem_view s) r (mem_view s')"
  proof (cases "html_errs env k h True (mem_view s) = []")
    case False
    then show ?thesis
      using assms
      by (cases "parseKindHTML env h"; cases "view_kind k (mem_view s)")
        (auto simp: mem_UpdateKindHTML_def update_html_spec_def html_errs_def refused_def kindLocked_view
          view_html_def simp flip: find_index_None split: option.splits if_splits)
  next
    case True
    then obtain kd where kd: "parseKindHTML env h = Inr (trim_space h)" "view_kind k (mem_view s) = Inr kd"
      "view_html (k_ID kd) (mem_view s) \<noteq> None"
      by (auto simp: html_errs_def isOk_iff parseKindHTML_iff split: sum.splits if_splits)
    then obtain n where n: "find_index (\<lambda>h. kh_KindID h = k_ID kd) (mb_htmls s) = Some n"
      using find_index_None [of "\<lambda>h. kh_KindID h = k_ID kd" "mb_htmls s"] by (auto simp: view_html_def)
    let ?h0 = "mb_htmls s ! n"
    have h0: "n < length (mb_htmls s)" "kh_KindID ?h0 = k_ID kd" "view_html (k_ID kd) (mem_view s) = Some ?h0"
      using find_index_Some [OF n] by (auto simp: view_html_def)
    have "\<forall>h\<in>set (mb_htmls s). \<lparr>k_ID = kh_KindID h, k_Name = kh_Kind h\<rparr> \<in> set (mb_kinds s)"
      using assms(1) by (simp add: mem_ok_def view_ok_def)
    from bspec [OF this nth_mem [OF h0(1)]]
    have "\<lparr>k_ID = kh_KindID ?h0, k_Name = kh_Kind ?h0\<rparr> \<in> set (mb_kinds s)" .
    moreover have "kd \<in> set (mb_kinds s)" using view_kind_in [OF kd(2)] by simp
    moreover have "inj_on k_ID (set (mb_kinds s))"
      using assms(1) rising_distinct [of "map k_ID (mb_kinds s)"]
      by (simp add: mem_ok_def view_ok_def distinct_map)
    ultimately have "\<lparr>k_ID = kh_KindID ?h0, k_Name = kh_Kind ?h0\<rparr> = kd"
      using h0(2) inj_onD [of k_ID "set (mb_kinds s)" "\<lparr>k_ID = kh_KindID ?h0, k_Name = kh_Kind ?h0\<rparr>" kd]
      by simp
    then have nm: "kh_Kind ?h0 = k_Name kd" by auto
    have upd: "(mb_htmls s)[n := y] = upd_html_list (k_ID kd) y (mb_htmls s)" for y
      using assms(1) h0 list_update_key [of kh_KindID "mb_htmls s" n y]
      by (simp add: upd_html_list_def mem_ok_def view_ok_def)
    have "?h0\<lparr>kh_HTML := trim_space h, kh_Kind := k_Name kd\<rparr> = ?h0\<lparr>kh_HTML := trim_space h\<rparr>"
      using nm by (cases "?h0") simp
    then show ?thesis
      using assms(2) True kd n h0 upd
      by (simp add: mem_UpdateKindHTML_def update_html_spec_def kindLocked_view Let_def)
        (metis mem_view_sel(3) mem_view_upd(3))
  qed
  moreover have "mb_nextKind s' = mb_nextKind s" "mb_nextItem s' = mb_nextItem s" "mb_nextHTML s' = mb_nextHTML s"
    "mb_kinds s' = mb_kinds s" "mb_items s' = mb_items s"
    using assms by (auto simp: mem_UpdateKindHTML_def Let_def split: sum.splits option.splits)
  moreover have "map kh_ID (mb_htmls s') = map kh_ID (mb_htmls s)"
    using update_html_ids [OF mem_ok_view [OF assms(1)] spec] by simp
  ultimately show ?thesis
    using update_html_ok [OF mem_ok_view [OF assms(1)] spec] assms(1) by (simp add: mem_ok_def)
qed

lemma mem_delete_html:
  assumes "mem_ok s" and "mem_DeleteKindHTML k s = (r, s')"
  shows "mem_ok s' \<and> delete_html_spec k (mem_view s) r (mem_view s')"
proof -
  have spec: "delete_html_spec k (mem_view s) r (mem_view s')"
    using assms
    by (cases "view_kind k (mem_view s)")
      (auto simp: mem_DeleteKindHTML_def delete_html_spec_def refused_def kindLocked_view list_ex_iff
        view_html_None view_html_def find_None_iff split: if_splits option.splits dest: find_SomeD)
  then show ?thesis
    using delete_html_ok [OF mem_ok_view [OF assms(1)] spec] assms
    by (auto simp: mem_ok_def mem_DeleteKindHTML_def elim!: above_sub split: if_splits sum.splits)
qed

lemma mem_get_html:
  "mem_ok s \<Longrightarrow> mem_GetKindHTML k s = (r, s') \<Longrightarrow>
    mem_ok s' \<and> mem_view s' = mem_view s \<and> get_html_spec k (mem_view s) r"
  by (auto simp: mem_GetKindHTML_def get_html_spec_def kindLocked_view htmlLocked_view
      split: sum.splits option.splits)

lemma item_counts_app:
  "(case map_of (foldl (\<lambda>m it. al_put (it_KindID it)
      ((case map_of m (it_KindID it) of None \<Rightarrow> 0 | Some n \<Rightarrow> n) + 1) m) m xs) i of None \<Rightarrow> 0 | Some n \<Rightarrow> n) =
   (case map_of m i of None \<Rightarrow> 0 | Some n \<Rightarrow> n) + int (length (filter (\<lambda>x. it_KindID x = i) xs))"
  by (induction xs arbitrary: m) auto

lemma mem_summary:
  "mem_ok s \<Longrightarrow> mem_Summary s = (r, s') \<Longrightarrow> mem_ok s' \<and> mem_view s' = mem_view s \<and> summary_spec (mem_view s) r"
  unfolding mem_Summary_def Let_def item_counts_def item_counts_app
  by (auto simp: summary_spec_def count_kind_def)

lemma mem_Board_sel [simp]:
  "CreateKind (mem_Board env) = mem_CreateKind" "AddItem (mem_Board env) = mem_AddItem env"
  "UpdateItem (mem_Board env) = mem_UpdateItem env" "DeleteItem (mem_Board env) = mem_DeleteItem env"
  "ListItems (mem_Board env) = mem_ListItems env" "Summary (mem_Board env) = mem_Summary"
  "CreateKindHTML (mem_Board env) = mem_CreateKindHTML env" "UpdateKindHTML (mem_Board env) = mem_UpdateKindHTML env"
  "DeleteKindHTML (mem_Board env) = mem_DeleteKindHTML" "GetKindHTML (mem_Board env) = mem_GetKindHTML"
  by (simp_all add: mem_Board_def)

interpretation mb: board "mem_Board env" env "\<lambda>_. True" mem_ok mem_view for env
proof (unfold_locales, goal_cases)
  case 1 then show ?case by (rule mem_ok_view)
next
  case 2 then show ?case by (intro mem_create_kind) simp_all
next
  case 3 then show ?case by (intro mem_add_item) simp_all
next
  case 4 then show ?case by (intro mem_update_item) simp_all
next
  case 5 then show ?case by (intro mem_delete_item) simp_all
next
  case 6 then show ?case by (intro mem_list_items) simp_all
next
  case 7 then show ?case by (intro mem_summary) simp_all
next
  case 8 then show ?case by (intro mem_create_html) simp_all
next
  case 9 then show ?case by (intro mem_update_html) simp_all
next
  case 10 then show ?case by (intro mem_delete_html) simp_all
next
  case 11 then show ?case by (intro mem_get_html) simp_all
qed

end
