(* ===== verification/BoardSql.thy ===== *)
theory BoardSql
  imports BoardMem
begin

text \<open>
  projects/board/mysql.go: the \<open>Board\<close> on MySQL. The tables are those of \<open>migrate\<close>, with
  their keys; every SQL statement of the code is a function on them (theory Sql). \<open>se_coll\<close> maps
  a text to what the collation of the name column compares, \<open>se_json\<close> a text to what a JSON
  column returns for it. A TEXT column holds 65535 bytes. Not modelled: the numbers that a
  failed INSERT leaves out of AUTO_INCREMENT, and text that is not UTF-8.
\<close>

section \<open>Tables\<close>

record kind_row =
  kr_id :: int
  kr_name :: string

record item_row =
  ir_id :: int
  ir_kind :: int
  ir_content :: string
  ir_type :: string
  ir_date :: string
  ir_extra :: string
  ir_updated :: int

record html_row =
  hr_id :: int
  hr_kind :: int
  hr_html :: string

record board_tabs =
  bt_kinds :: "kind_row list"
  bt_items :: "item_row list"
  bt_htmls :: "html_row list"
  bt_nextKind :: int
  bt_nextItem :: int
  bt_nextHTML :: int

record sql_env =
  se_coll :: "string \<Rightarrow> string"
  se_json :: "string \<Rightarrow> string"

type_synonym 'a bdb = "(board_tabs, board_err, 'a) dbm"

definition board_migrate :: board_tabs where
  "board_migrate = \<lparr>bt_kinds = [], bt_items = [], bt_htmls = [], bt_nextKind = 1, bt_nextItem = 1,
                    bt_nextHTML = 1\<rparr>"

definition text_fits :: "string \<Rightarrow> bool" where "text_fits s \<longleftrightarrow> int (length s) \<le> 65535"

section \<open>Statements\<close>

definition ins_kind :: "sql_env \<Rightarrow> string \<Rightarrow> (board_tabs, sql_err, int) dbm" where
  "ins_kind se name = stmt (\<lambda>t.
     if list_ex (\<lambda>k. se_coll se (kr_name k) = se_coll se name) (bt_kinds t) then Inl Duplicate
     else Inr (bt_nextKind t, t\<lparr>bt_nextKind := bt_nextKind t + 1,
                               bt_kinds := bt_kinds t @ [\<lparr>kr_id = bt_nextKind t, kr_name = name\<rparr>]\<rparr>))"

definition sel_kind :: "sql_env \<Rightarrow> string \<Rightarrow> (board_tabs, sql_err, kind) dbm" where
  "sel_kind se name = queryRow (\<lambda>t.
     map (\<lambda>k. \<lparr>k_ID = kr_id k, k_Name = kr_name k\<rparr>)
       (filter (\<lambda>k. se_coll se (kr_name k) = se_coll se name) (bt_kinds t)))"

definition ins_item :: "sql_env \<Rightarrow> clock \<Rightarrow> int \<Rightarrow> string \<Rightarrow> string \<Rightarrow> string \<Rightarrow> string \<Rightarrow> (board_tabs, sql_err, int) dbm" where
  "ins_item se clk kid content typ day extra = stmt (\<lambda>t.
     if \<not> text_fits content then Inl DataTooLong
     else if \<not> list_ex (\<lambda>k. kr_id k = kid) (bt_kinds t) then Inl ForeignKey
     else Inr (bt_nextItem t, t\<lparr>bt_nextItem := bt_nextItem t + 1,
       bt_items := bt_items t @ [\<lparr>ir_id = bt_nextItem t, ir_kind = kid, ir_content = content, ir_type = typ,
                                  ir_date = day, ir_extra = se_json se extra, ir_updated = ck_now clk\<rparr>]\<rparr>))"

text \<open>\<open>board_item i JOIN board_kind k ON k.id=i.kind_id\<close>, scanned by \<open>scanItem\<close>.\<close>

definition scanItem :: "board_env \<Rightarrow> item_row \<Rightarrow> kind_row \<Rightarrow> item" where
  "scanItem env i k =
     \<lparr>it_ID = ir_id i, it_KindID = ir_kind i, it_Kind = kr_name k, it_Content = ir_content i,
      it_Type = ir_type i, it_Date = ir_date i, it_Extra = extraMap env (ir_extra i), it_Rendered = []\<rparr>"

definition join_items :: "board_env \<Rightarrow> board_tabs \<Rightarrow> item list" where
  "join_items env t = concat (map (\<lambda>i. map (scanItem env i)
     (filter (\<lambda>k. kr_id k = ir_kind i) (bt_kinds t))) (bt_items t))"

text \<open>\<open>ON UPDATE CURRENT_TIMESTAMP\<close> sets \<open>updated_at\<close> when a column changes.\<close>

definition upd_item :: "sql_env \<Rightarrow> clock \<Rightarrow> int \<Rightarrow> string \<Rightarrow> string \<Rightarrow> string \<Rightarrow> string \<Rightarrow> int \<Rightarrow> (board_tabs, sql_err, unit) dbm" where
  "upd_item se clk kid content typ day extra i = stmt (\<lambda>t.
     if \<not> text_fits content then Inl DataTooLong
     else if \<not> list_ex (\<lambda>k. kr_id k = kid) (bt_kinds t) then Inl ForeignKey
     else Inr ((), t\<lparr>bt_items := map (\<lambda>r. if ir_id r = i
       then (let r1 = r\<lparr>ir_kind := kid, ir_content := content, ir_type := typ, ir_date := day,
                        ir_extra := se_json se extra\<rparr>
             in if r1 = r then r else r1\<lparr>ir_updated := ck_now clk\<rparr>)
       else r) (bt_items t)\<rparr>))"

definition del_item :: "int \<Rightarrow> (board_tabs, sql_err, int) dbm" where
  "del_item i = stmt (\<lambda>t. Inr (int (length (filter (\<lambda>r. ir_id r = i) (bt_items t))),
                               t\<lparr>bt_items := filter (\<lambda>r. ir_id r \<noteq> i) (bt_items t)\<rparr>))"

definition ins_html :: "int \<Rightarrow> string \<Rightarrow> (board_tabs, sql_err, int) dbm" where
  "ins_html kid html = stmt (\<lambda>t.
     if \<not> text_fits html then Inl DataTooLong
     else if list_ex (\<lambda>h. hr_kind h = kid) (bt_htmls t) then Inl Duplicate
     else if \<not> list_ex (\<lambda>k. kr_id k = kid) (bt_kinds t) then Inl ForeignKey
     else Inr (bt_nextHTML t, t\<lparr>bt_nextHTML := bt_nextHTML t + 1,
       bt_htmls := bt_htmls t @ [\<lparr>hr_id = bt_nextHTML t, hr_kind = kid, hr_html = html\<rparr>]\<rparr>))"

definition upd_html :: "string \<Rightarrow> int \<Rightarrow> (board_tabs, sql_err, unit) dbm" where
  "upd_html html i = stmt (\<lambda>t.
     if \<not> text_fits html then Inl DataTooLong
     else Inr ((), t\<lparr>bt_htmls := map (\<lambda>h. if hr_id h = i then h\<lparr>hr_html := html\<rparr> else h) (bt_htmls t)\<rparr>))"

definition del_html :: "int \<Rightarrow> (board_tabs, sql_err, unit) dbm" where
  "del_html i = execS (\<lambda>t. t\<lparr>bt_htmls := filter (\<lambda>h. hr_id h \<noteq> i) (bt_htmls t)\<rparr>)"

definition scanKindHTML :: "html_row \<Rightarrow> kind_row \<Rightarrow> kind_html" where
  "scanKindHTML h k = \<lparr>kh_ID = hr_id h, kh_KindID = hr_kind h, kh_Kind = kr_name k, kh_HTML = hr_html h\<rparr>"

definition join_htmls :: "board_tabs \<Rightarrow> kind_html list" where
  "join_htmls t = concat (map (\<lambda>h. map (scanKindHTML h)
     (filter (\<lambda>k. kr_id k = hr_kind h) (bt_kinds t))) (bt_htmls t))"

section \<open>Operations\<close>

definition kindByName :: "sql_env \<Rightarrow> string \<Rightarrow> kind bdb" where
  "kindByName se name =
     orElse (sel_kind se name) (\<lambda>e. if e = NoRows then NoSuchKind name else DbErr e)"

definition sql_CreateKind :: "sql_env \<Rightarrow> string \<Rightarrow> kind bdb" where
  "sql_CreateKind se name0 =
     bindS (liftS (cleanName name0)) (\<lambda>name.
       catchS (bindS (ins_kind se name) (\<lambda>i. retS \<lparr>k_ID = i, k_Name = name\<rparr>))
         (\<lambda>e. if e = Duplicate then kindByName se name else failS (DbErr e)))"

definition itemByID :: "board_env \<Rightarrow> int \<Rightarrow> item bdb" where
  "itemByID env i =
     orElse (queryRow (\<lambda>t. filter (\<lambda>x. it_ID x = i) (join_items env t)))
       (\<lambda>e. if e = NoRows then NotExist else DbErr e)"

definition sql_AddItem ::
  "board_env \<Rightarrow> sql_env \<Rightarrow> clock \<Rightarrow> string \<Rightarrow> string \<Rightarrow> string \<Rightarrow> string \<Rightarrow> string \<Rightarrow> item bdb" where
  "sql_AddItem env se clk kind content0 date typ0 extra =
     bindS (kindByName se (trim_space kind)) (\<lambda>k.
     bindS (liftS (cleanContent content0)) (\<lambda>content.
     bindS (liftS (parseDay env clk date)) (\<lambda>day.
     bindS (liftS (clean_type typ0)) (\<lambda>typ.
     bindS (orElse (ins_item se clk (k_ID k) content typ day (extraOrEmpty env extra)) DbErr) (\<lambda>i.
     itemByID env i)))))"

definition sql_UpdateItem ::
  "board_env \<Rightarrow> sql_env \<Rightarrow> clock \<Rightarrow> int \<Rightarrow> string option \<Rightarrow> string option \<Rightarrow> string option \<Rightarrow> string option \<Rightarrow>
     string option \<Rightarrow> item bdb" where
  "sql_UpdateItem env se clk i kind content date typ extra =
     bindS (itemByID env i) (\<lambda>cur.
     bindS (case kind of None \<Rightarrow> retS (it_KindID cur)
            | Some x \<Rightarrow> bindS (kindByName se (trim_space x)) (\<lambda>k. retS (k_ID k))) (\<lambda>kindID.
     bindS (liftS (opt_arg cleanContent content (it_Content cur))) (\<lambda>body.
     bindS (liftS (opt_arg (parseDay env clk) date (it_Date cur))) (\<lambda>day.
     bindS (liftS (opt_arg clean_type typ (it_Type cur))) (\<lambda>itemType.
     let ex = (case extra of None \<Rightarrow> extraOrEmpty env (mapExtra env (it_Extra cur))
               | Some x \<Rightarrow> extraOrEmpty env x) in
     bindS (orElse (upd_item se clk kindID body itemType day ex i) DbErr) (\<lambda>_.
     itemByID env i))))))"

definition sql_DeleteItem :: "int \<Rightarrow> unit bdb" where
  "sql_DeleteItem i =
     bindS (orElse (del_item i) DbErr) (\<lambda>n. if n = 0 then failS NotExist else retS ())"

definition htmlByKindID :: "int \<Rightarrow> (board_tabs, sql_err, kind_html) dbm" where
  "htmlByKindID kid = queryRow (\<lambda>t. filter (\<lambda>h. kh_KindID h = kid) (join_htmls t))"

definition htmlByID :: "int \<Rightarrow> kind_html bdb" where
  "htmlByID i =
     orElse (queryRow (\<lambda>t. filter (\<lambda>h. kh_ID h = i) (join_htmls t)))
       (\<lambda>e. if e = NoRows then NotExist else DbErr e)"

text \<open>A negative OFFSET is refused by the server.\<close>

definition sel_page :: "board_env \<Rightarrow> int \<Rightarrow> int \<Rightarrow> int \<Rightarrow> (board_tabs, sql_err, item list) dbm" where
  "sel_page env kid lim off = stmt (\<lambda>t.
     if off < 0 then Inl (DbFail ''OFFSET'')
     else Inr (take (nat lim) (drop (nat off) (newest_first (filter (\<lambda>x. it_KindID x = kid) (join_items env t)))), t))"

definition sql_ListItems :: "board_env \<Rightarrow> sql_env \<Rightarrow> string \<Rightarrow> int \<Rightarrow> int \<Rightarrow> list_page bdb" where
  "sql_ListItems env se kind page0 size0 =
     bindS (kindByName se (trim_space kind)) (\<lambda>k.
     let (page, pageSize) = pageArgs page0 size0 in
     bindS (orElse (query (\<lambda>t. int (length (filter (\<lambda>r. ir_kind r = k_ID k) (bt_items t))))) DbErr) (\<lambda>total.
     bindS (orElse (sel_page env (k_ID k) pageSize (wrap64 ((page - 1) * pageSize))) DbErr) (\<lambda>items.
     bindS (catchS (bindS (htmlByKindID (k_ID k)) (\<lambda>h. retS (applyHTML env (kh_HTML h) items)))
                   (\<lambda>_. retS items)) (\<lambda>items.
     retS \<lparr>lp_Items = items, lp_Page = page, lp_PageSize = pageSize, lp_Total = total\<rparr>))))"

definition sql_CreateKindHTML :: "board_env \<Rightarrow> sql_env \<Rightarrow> string \<Rightarrow> string \<Rightarrow> kind_html bdb" where
  "sql_CreateKindHTML env se kind html0 =
     bindS (kindByName se (trim_space kind)) (\<lambda>k.
     bindS (liftS (parseKindHTML env html0)) (\<lambda>html.
     bindS (orElse (ins_html (k_ID k) html) (\<lambda>e. if e = Duplicate then HasHTML else DbErr e)) (\<lambda>i.
     htmlByID i)))"

definition sql_GetKindHTML :: "sql_env \<Rightarrow> string \<Rightarrow> kind_html bdb" where
  "sql_GetKindHTML se kind =
     bindS (kindByName se (trim_space kind)) (\<lambda>k.
       orElse (htmlByKindID (k_ID k)) (\<lambda>e. if e = NoRows then NoHTML else DbErr e))"

definition sql_UpdateKindHTML :: "board_env \<Rightarrow> sql_env \<Rightarrow> string \<Rightarrow> string \<Rightarrow> kind_html bdb" where
  "sql_UpdateKindHTML env se kind html0 =
     bindS (sql_GetKindHTML se kind) (\<lambda>cur.
     bindS (liftS (parseKindHTML env html0)) (\<lambda>html.
     bindS (orElse (upd_html html (kh_ID cur)) DbErr) (\<lambda>_.
     htmlByID (kh_ID cur))))"

definition sql_DeleteKindHTML :: "sql_env \<Rightarrow> string \<Rightarrow> unit bdb" where
  "sql_DeleteKindHTML se kind =
     bindS (sql_GetKindHTML se kind) (\<lambda>cur. orElse (del_html (kh_ID cur)) DbErr)"

definition sql_Summary :: "board_env \<Rightarrow> summary bdb" where
  "sql_Summary env =
     bindS (orElse (query (\<lambda>t. map (\<lambda>k. \<lparr>kc_ID = kr_id k, kc_Name = kr_name k,
        kc_Count = int (length (filter (\<lambda>r. ir_kind r = kr_id k) (bt_items t)))\<rparr>) (sort_key kr_id (bt_kinds t)))) DbErr) (\<lambda>counts.
     bindS (orElse (query (\<lambda>t. map ir_updated (bt_items t))) DbErr) (\<lambda>ts.
     retS \<lparr>sm_Kinds = counts, sm_Total = sum_list (map kc_Count counts),
           sm_UpdatedAt = (case ts of [] \<Rightarrow> [] | x # xs \<Rightarrow> be_rfc3339 env (foldl max x xs))\<rparr>))"

definition sql_Board :: "board_env \<Rightarrow> sql_env \<Rightarrow> board_tabs db Board" where
  "sql_Board env se =
     \<lparr>CreateKind = sql_CreateKind se, AddItem = sql_AddItem env se, UpdateItem = sql_UpdateItem env se,
      DeleteItem = (\<lambda>_. sql_DeleteItem), ListItems = sql_ListItems env se, Summary = sql_Summary env,
      CreateKindHTML = sql_CreateKindHTML env se, UpdateKindHTML = sql_UpdateKindHTML env se,
      DeleteKindHTML = sql_DeleteKindHTML se, GetKindHTML = sql_GetKindHTML se\<rparr>"

end
