(* ===== verification/BoardSqlOk.thy ===== *)
theory BoardSqlOk
  imports BoardSql
begin

text \<open>
  The MySQL store keeps the contract of \<open>Board\<close>: a view of the tables, the invariant of the
  tables, and one lemma per operation, from which the locale \<open>board\<close> is interpreted. The
  database answers every statement here, its collation is binary, and JSON texts read back as
  the map they encode (\<open>sql_env_ok\<close>).
\<close>

section \<open>View and invariant\<close>

definition sql_view :: "board_env \<Rightarrow> board_tabs db \<Rightarrow> board_view" where
  "sql_view env s =
     (let t = db_tab s in
      \<lparr>bv_kinds = map (\<lambda>k. \<lparr>k_ID = kr_id k, k_Name = kr_name k\<rparr>) (bt_kinds t),
       bv_items = join_items env t, bv_htmls = join_htmls t\<rparr>)"

text \<open>A binary collation, and JSON texts that read back as the map they were written from.\<close>

definition sql_env_ok :: "board_env \<Rightarrow> sql_env \<Rightarrow> bool" where
  "sql_env_ok env se \<longleftrightarrow> se_coll se = (\<lambda>x. x) \<and>
     (\<forall>raw. extraMap env (se_json se (extraOrEmpty env raw)) = extraMap env raw) \<and>
     (\<forall>raw. extraMap env (mapExtra env (extraMap env raw)) = extraMap env raw)"

definition refs_ok :: "board_tabs \<Rightarrow> bool" where
  "refs_ok t \<longleftrightarrow> (\<forall>r\<in>set (bt_items t). ir_kind r \<in> kr_id ` set (bt_kinds t)) \<and>
     (\<forall>h\<in>set (bt_htmls t). hr_kind h \<in> kr_id ` set (bt_kinds t)) \<and>
     above (bt_nextKind t) (map kr_id (bt_kinds t)) \<and> above (bt_nextItem t) (map ir_id (bt_items t)) \<and>
     above (bt_nextHTML t) (map hr_id (bt_htmls t)) \<and>
     (\<forall>r\<in>set (bt_items t). text_fits (ir_content r))"

definition sql_ok :: "board_env \<Rightarrow> sql_env \<Rightarrow> board_tabs db \<Rightarrow> bool" where
  "sql_ok env se s \<longleftrightarrow> sql_env_ok env se \<and> db_faults s = [] \<and> refs_ok (db_tab s) \<and> view_ok (sql_view env s)"

lemma sql_okE:
  assumes "sql_ok env se s"
  obtains t where "s = healthy t" "sql_env_ok env se" "refs_ok t" "view_ok (sql_view env (healthy t))"
  using assms by (cases s) (auto simp: sql_ok_def)

lemma sql_ok_healthy:
  "sql_ok env se (healthy t) \<longleftrightarrow> sql_env_ok env se \<and> refs_ok t \<and> view_ok (sql_view env (healthy t))"
  by (simp add: sql_ok_def)

lemma sql_view_sel [simp]:
  "bv_kinds (sql_view env s) = map (\<lambda>k. \<lparr>k_ID = kr_id k, k_Name = kr_name k\<rparr>) (bt_kinds (db_tab s))"
  "bv_items (sql_view env s) = join_items env (db_tab s)" "bv_htmls (sql_view env s) = join_htmls (db_tab s)"
  by (simp_all add: sql_view_def Let_def)

section \<open>Joins\<close>

definition krow :: "board_tabs \<Rightarrow> int \<Rightarrow> kind_row" where
  "krow t i = hd (filter (\<lambda>k. kr_id k = i) (bt_kinds t))"

lemma view_kr_ids: "view_ok (sql_view env s) \<Longrightarrow> distinct (map kr_id (bt_kinds (db_tab s)))"
  using rising_distinct [of "map kr_id (bt_kinds (db_tab s))"] by (simp add: view_ok_def comp_def)

lemma krow_filter:
  assumes "distinct (map kr_id (bt_kinds t))" and "i \<in> kr_id ` set (bt_kinds t)"
  shows "filter (\<lambda>k. kr_id k = i) (bt_kinds t) = [krow t i] \<and> kr_id (krow t i) = i \<and> krow t i \<in> set (bt_kinds t)"
  using assms filter_key [of kr_id "bt_kinds t"] by (auto simp: krow_def)

lemma join_items_map:
  assumes "distinct (map kr_id (bt_kinds t))" and "\<forall>r\<in>set (bt_items t). ir_kind r \<in> kr_id ` set (bt_kinds t)"
  shows "join_items env t = map (\<lambda>r. scanItem env r (krow t (ir_kind r))) (bt_items t)"
proof -
  have eq: "map (\<lambda>i. map (scanItem env i) (filter (\<lambda>k. kr_id k = ir_kind i) (bt_kinds t))) (bt_items t) =
      map (\<lambda>r. [scanItem env r (krow t (ir_kind r))]) (bt_items t)"
    using assms krow_filter by (intro map_cong) auto
  show ?thesis unfolding join_items_def eq by simp
qed

lemma join_htmls_map:
  assumes "distinct (map kr_id (bt_kinds t))" and "\<forall>r\<in>set (bt_htmls t). hr_kind r \<in> kr_id ` set (bt_kinds t)"
  shows "join_htmls t = map (\<lambda>r. scanKindHTML r (krow t (hr_kind r))) (bt_htmls t)"
proof -
  have eq: "map (\<lambda>i. map (scanKindHTML i) (filter (\<lambda>k. kr_id k = hr_kind i) (bt_kinds t))) (bt_htmls t) =
      map (\<lambda>r. [scanKindHTML r (krow t (hr_kind r))]) (bt_htmls t)"
    using assms krow_filter by (intro map_cong) auto
  show ?thesis unfolding join_htmls_def eq by simp
qed

lemma scan_sel [simp]:
  "it_ID (scanItem env r k) = ir_id r" "it_KindID (scanItem env r k) = ir_kind r" "it_Kind (scanItem env r k) = kr_name k"
  "kh_ID (scanKindHTML h k) = hr_id h" "kh_KindID (scanKindHTML h k) = hr_kind h"
  "kh_Kind (scanKindHTML h k) = kr_name k" "kh_HTML (scanKindHTML h k) = hr_html h"
  by (simp_all add: scanItem_def scanKindHTML_def)

section \<open>Reading\<close>

lemma kindByName_view:
  assumes "se_coll se = (\<lambda>x. x)"
  shows "kindByName se (trim_space n) (healthy t) = (view_kind n (sql_view env (healthy t)), healthy t)"
  using assms
  by (auto simp: kindByName_def sel_kind_def orElse_def catchS_def failS_def view_kind_def Let_def
      filter_map comp_def find_filter split: list.splits)

lemma itemByID_view:
  "itemByID env i (healthy t) =
     (case find (\<lambda>x. it_ID x = i) (bv_items (sql_view env (healthy t))) of None \<Rightarrow> Inl NotExist | Some x \<Rightarrow> Inr x, healthy t)"
  by (simp add: itemByID_def orElse_def catchS_def failS_def case_filter_find split: option.splits)

lemma htmlByKindID_view:
  "htmlByKindID kid (healthy t) =
     (case view_html kid (sql_view env (healthy t)) of None \<Rightarrow> Inl NoRows | Some x \<Rightarrow> Inr x, healthy t)"
  by (simp add: htmlByKindID_def case_filter_find view_html_def split: option.splits)

lemma htmlByID_view:
  "htmlByID i (healthy t) =
     (case find (\<lambda>x. kh_ID x = i) (bv_htmls (sql_view env (healthy t))) of None \<Rightarrow> Inl NotExist | Some x \<Rightarrow> Inr x, healthy t)"
  by (simp add: htmlByID_def orElse_def catchS_def failS_def case_filter_find split: option.splits)

lemma GetKindHTML_view:
  assumes "se_coll se = (\<lambda>x. x)"
  shows "sql_GetKindHTML se k (healthy t) =
     (case view_kind k (sql_view env (healthy t)) of Inl e \<Rightarrow> Inl e
      | Inr kd \<Rightarrow> (case view_html (k_ID kd) (sql_view env (healthy t)) of None \<Rightarrow> Inl NoHTML | Some h \<Rightarrow> Inr h), healthy t)"
  by (simp add: sql_GetKindHTML_def bindS_def orElse_def catchS_def failS_def kindByName_view [OF assms, of _ _ env]
      htmlByKindID_view [of _ _ env] split: sum.splits option.splits)

section \<open>Writing\<close>

lemma tabs_join:
  assumes "refs_ok t" and "view_ok (sql_view env (healthy t))"
  shows "join_items env t = map (\<lambda>r. scanItem env r (krow t (ir_kind r))) (bt_items t)"
    "join_htmls t = map (\<lambda>r. scanKindHTML r (krow t (hr_kind r))) (bt_htmls t)"
  using assms view_kr_ids [of env "healthy t"] by (simp_all add: refs_ok_def join_items_map join_htmls_map)

lemma sql_create_kind:
  assumes "sql_ok env se s" and "sql_CreateKind se n s = (r, s')"
  shows "sql_ok env se s' \<and> create_kind_spec n (sql_view env s) r (sql_view env s')"
proof -
  obtain t where s: "s = healthy t" and ok: "sql_env_ok env se" "refs_ok t" "view_ok (sql_view env (healthy t))"
    using assms(1) by (rule sql_okE)
  have coll: "se_coll se = (\<lambda>x. x)" using ok(1) by (simp add: sql_env_ok_def)
  show ?thesis
  proof (cases "cleanName n")
    case (Inl e)
    with assms show ?thesis
      by (auto simp: sql_CreateKind_def bindS_def liftS_def create_kind_spec_def refused_def)
  next
    case (Inr nm)
    then have nm: "trim_space nm = nm" by (auto simp: cleanName_iff)
    let ?t1 = "t\<lparr>bt_nextKind := bt_nextKind t + 1,
        bt_kinds := bt_kinds t @ [\<lparr>kr_id = bt_nextKind t, kr_name = nm\<rparr>]\<rparr>"
    show ?thesis
    proof (cases "list_ex (\<lambda>k. kr_name k = nm) (bt_kinds t)")
      case True
      then have "sql_CreateKind se n (healthy t) = (view_kind nm (sql_view env (healthy t)), healthy t)"
        using Inr coll kindByName_view [OF coll, of nm t env] nm
        by (simp add: sql_CreateKind_def bindS_def liftS_def ins_kind_def catchS_def)
      moreover have "find (\<lambda>k. k_Name k = nm) (bv_kinds (sql_view env (healthy t))) \<noteq> None"
        using True by (auto simp: find_None_iff list_ex_iff)
      ultimately show ?thesis
        using assms s Inr nm by (auto simp: create_kind_spec_def view_kind_def)
    next
      case False
      then have r: "r = Inr \<lparr>k_ID = bt_nextKind t, k_Name = nm\<rparr>" "s' = healthy ?t1"
        using assms(2) Inr coll s
        by (simp_all add: sql_CreateKind_def bindS_def liftS_def ins_kind_def catchS_def retS_def)
      have fresh: "bt_nextKind t \<notin> kr_id ` set (bt_kinds t)"
        using ok(2) by (auto simp: refs_ok_def above_def)
      then have "join_items env ?t1 = join_items env t" "join_htmls ?t1 = join_htmls t"
        using ok(2) by (auto simp: join_items_def join_htmls_def refs_ok_def intro!: arg_cong [of _ _ concat] map_cong)
      then have v: "sql_view env s' = (sql_view env s)\<lparr>bv_kinds := bv_kinds (sql_view env s) @ [\<lparr>k_ID = bt_nextKind t, k_Name = nm\<rparr>]\<rparr>"
        by (simp add: r s sql_view_def)
      have none: "find (\<lambda>k. k_Name k = nm) (bv_kinds (sql_view env s)) = None"
        using False by (auto simp: find_None_iff list_ex_iff s)
      have spec: "create_kind_spec n (sql_view env s) r (sql_view env s')"
        using none Inr ok(2) unfolding v r(1)
        by (auto simp: create_kind_spec_def refs_ok_def comp_def s)
      have "refs_ok ?t1" using ok(2) by (auto simp: refs_ok_def above_mono)
      with spec create_kind_ok [OF ok(3) spec [unfolded s]] ok(1) show ?thesis
        by (simp add: sql_ok_def r s)
    qed
  qed
qed

lemma sql_view_items:
  assumes "refs_ok t" and "view_ok (sql_view env (healthy t))"
    and "bt_kinds t' = bt_kinds t" and "\<forall>r\<in>set (bt_items t'). ir_kind r \<in> kr_id ` set (bt_kinds t)"
  shows "join_items env t' = map (\<lambda>r. scanItem env r (krow t (ir_kind r))) (bt_items t')"
  using assms view_kr_ids [of env "healthy t"] join_items_map [of t' env] by (simp add: krow_def)

lemma krow_view:
  assumes "refs_ok t" and "view_ok (sql_view env (healthy t))" and "k \<in> set (bv_kinds (sql_view env (healthy t)))"
  shows "kr_name (krow t (k_ID k)) = k_Name k \<and> k_ID k \<in> kr_id ` set (bt_kinds t)"
proof -
  from assms(3) obtain x where x: "x \<in> set (bt_kinds t)" "k = \<lparr>k_ID = kr_id x, k_Name = kr_name x\<rparr>" by auto
  then have "filter (\<lambda>y. kr_id y = kr_id x) (bt_kinds t) = [x]"
    using filter_key view_kr_ids [OF assms(2)] by fastforce
  with x show ?thesis by (simp add: krow_def)
qed

lemma find_last: "find P (xs @ [x]) = (case find P xs of None \<Rightarrow> if P x then Some x else None | Some y \<Rightarrow> Some y)"
  by (induction xs) auto

lemma sql_add_item:
  assumes "sql_ok env se s" and "text_fits (trim_space c)" and "sql_AddItem env se clk k c d t x s = (r, s')"
  shows "sql_ok env se s' \<and> add_item_spec env clk k c d t x (sql_view env s) r (sql_view env s')"
proof -
  obtain tb where s: "s = healthy tb" and ok: "sql_env_ok env se" "refs_ok tb" "view_ok (sql_view env (healthy tb))"
    using assms(1) by (rule sql_okE)
  have coll: "se_coll se = (\<lambda>x. x)" using ok(1) by (simp add: sql_env_ok_def)
  note kbn = kindByName_view [OF coll, of k tb env]
  show ?thesis
  proof (cases "add_errs env clk k c d t (sql_view env s) = []")
    case False
    then have "refused (add_errs env clk k c d t (sql_view env s)) r (sql_view env s) (sql_view env s') \<and> s' = s"
      using assms(3) s
      by (cases "cleanContent c"; cases "parseDay env clk d"; cases "clean_type t";
          cases "view_kind k (sql_view env (healthy tb))")
        (auto simp: sql_AddItem_def bindS_def liftS_def kbn add_errs_def refused_def)
    with False assms(1) show ?thesis by (auto simp: add_item_spec_def)
  next
    case True
    then obtain kd day where kd: "view_kind k (sql_view env (healthy tb)) = Inr kd" "parseDay env clk d = Inr day"
      "cleanContent c = Inr (trim_space c)" "clean_type t = Inr (trim_space t)"
      by (auto simp: add_errs_def isOk_iff cleanContent_iff clean_type_iff s)
    note kr = krow_view [OF ok(2,3) view_kind_in [OF kd(1)]]
    let ?row = "\<lparr>ir_id = bt_nextItem tb, ir_kind = k_ID kd, ir_content = trim_space c, ir_type = trim_space t,
        ir_date = day, ir_extra = se_json se (extraOrEmpty env x), ir_updated = ck_now clk\<rparr>"
    let ?t1 = "tb\<lparr>bt_nextItem := bt_nextItem tb + 1, bt_items := bt_items tb @ [?row]\<rparr>"
    let ?it = "\<lparr>it_ID = bt_nextItem tb, it_KindID = k_ID kd, it_Kind = k_Name kd, it_Content = trim_space c,
        it_Type = trim_space t, it_Date = day, it_Extra = extraMap env x, it_Rendered = []\<rparr>"
    have fk: "list_ex (\<lambda>k. kr_id k = k_ID kd) (bt_kinds tb)" using kr by (auto simp: list_ex_iff)
    have row: "scanItem env ?row (krow tb (k_ID kd)) = ?it"
      using kr ok(1) by (simp add: scanItem_def sql_env_ok_def)
    have joins: "join_items env ?t1 = join_items env tb @ [?it]"
      using sql_view_items [OF ok(2,3), of ?t1] tabs_join [OF ok(2,3)] row ok(2) kr by (auto simp: refs_ok_def)
    have "join_htmls ?t1 = join_htmls tb" by (simp add: join_htmls_def)
    with joins have v: "sql_view env (healthy ?t1) = (sql_view env s)\<lparr>bv_items := bv_items (sql_view env s) @ [?it]\<rparr>"
      by (simp add: s sql_view_def)
    have above: "above (bt_nextItem tb) (map it_ID (join_items env tb))"
      using ok(2) tabs_join [OF ok(2,3)] by (simp add: refs_ok_def comp_def)
    then have "find (\<lambda>x. it_ID x = bt_nextItem tb) (join_items env tb) = None"
      by (auto simp: find_None_iff above_def)
    then have r: "r = Inr ?it" "s' = healthy ?t1"
      using assms(2,3) s kd fk joins
      by (simp_all add: sql_AddItem_def bindS_def liftS_def kbn ins_item_def orElse_def catchS_def itemByID_view
          find_last)
    have spec: "add_item_spec env clk k c d t x (sql_view env s) r (sql_view env s')"
      using True kd above by (simp add: add_item_spec_def r v) (auto simp: s)
    have "refs_ok ?t1" using ok(2) kr assms(2) by (auto simp: refs_ok_def above_mono)
    with spec add_item_ok [OF ok(3) spec [unfolded s]] ok(1) show ?thesis
      by (simp add: sql_ok_def r s)
  qed
qed

lemma find_upd:
  "find (\<lambda>x. it_ID x = i) xs \<noteq> None \<Longrightarrow> it_ID it = i \<Longrightarrow>
    find (\<lambda>x. it_ID x = i) (upd_item_list i it xs) = Some it"
  by (induction xs) (auto simp: upd_item_list_def)

lemma refs_ok_map:
  assumes "refs_ok t" and "\<And>r. r \<in> set (bt_items t) \<Longrightarrow>
    ir_kind (f r) \<in> kr_id ` set (bt_kinds t) \<and> ir_id (f r) = ir_id r \<and> text_fits (ir_content (f r))"
  shows "refs_ok (t\<lparr>bt_items := map f (bt_items t)\<rparr>)"
  using assms by (auto simp: refs_ok_def above_def)

lemma sql_update_item:
  assumes "sql_ok env se s" and fits: "\<forall>y. oc = Some y \<longrightarrow> text_fits (trim_space y)"
    and "sql_UpdateItem env se clk i ok oc od ot ox s = (r, s')"
  shows "sql_ok env se s' \<and> update_item_spec env clk i ok oc od ot ox (sql_view env s) r (sql_view env s')"
proof -
  obtain t where s: "s = healthy t" and good: "sql_env_ok env se" "refs_ok t" "view_ok (sql_view env (healthy t))"
    using assms(1) by (rule sql_okE)
  let ?v = "sql_view env (healthy t)"
  have coll: "se_coll se = (\<lambda>x. x)" using good(1) by (simp add: sql_env_ok_def)
  note kbn = kindByName_view [OF coll, of _ t env]
  show ?thesis
  proof (cases "find (\<lambda>x. it_ID x = i) (join_items env t)")
    case None
    then show ?thesis
      using assms by (auto simp: s sql_UpdateItem_def bindS_def itemByID_view update_item_spec_def refused_def)
  next
    case (Some cur)
    let ?k = "opt_arg (\<lambda>n. view_kind n ?v) ok \<lparr>k_ID = it_KindID cur, k_Name = it_Kind cur\<rparr>"
    let ?c = "opt_arg cleanContent oc (it_Content cur)"
    let ?d = "opt_arg (parseDay env clk) od (it_Date cur)"
    let ?t = "opt_arg clean_type ot (it_Type cur)"
    have kid: "(case ok of None \<Rightarrow> retS (it_KindID cur)
        | Some x \<Rightarrow> bindS (kindByName se (trim_space x)) (\<lambda>k. retS (k_ID k))) (healthy t) =
        (case ?k of Inl e \<Rightarrow> Inl e | Inr k \<Rightarrow> Inr (k_ID k), healthy t)"
      by (simp add: opt_arg_def bindS_def retS_def kbn split: option.split sum.split)
    show ?thesis
    proof (cases "\<exists>k c d t. ?k = Inr k \<and> ?c = Inr c \<and> ?d = Inr d \<and> ?t = Inr t")
      case False
      then have "refused (err_of ?k @ err_of ?c @ err_of ?d @ err_of ?t) r ?v (sql_view env s') \<and> s' = s"
        using assms(3) Some
        by (cases ?k; cases ?c; cases ?d; cases ?t)
          (auto simp: s sql_UpdateItem_def bindS_def [of "itemByID env i"] itemByID_view
            bindS_def [of "case ok of None \<Rightarrow> _ | Some x \<Rightarrow> _ x"] kid bindS_def [of "liftS _"] liftS_def refused_def)
      with False Some assms(1) s show ?thesis
        by (auto simp: update_item_spec_def split: sum.splits)
    next
      case True
      then obtain k c d ty where kc: "?k = Inr k" "?c = Inr c" "?d = Inr d" "?t = Inr ty" by blast
      have cur: "cur \<in> set (join_items env t)" "it_ID cur = i" using find_SomeD [OF Some] by auto
      then obtain row where row: "row \<in> set (bt_items t)" "cur = scanItem env row (krow t (ir_kind row))"
        using tabs_join [OF good(2,3)] by auto
      have k: "k \<in> set (bv_kinds ?v)"
        by (rule opt_arg_ok [OF kc(1)]) (use good(3) cur in \<open>auto simp: view_ok_def dest: view_kind_in\<close>)
      note kr = krow_view [OF good(2,3) k]
      have c: "text_fits c"
      proof (cases oc)
        case None
        then show ?thesis using good(2) row kc(2) by (auto simp: refs_ok_def scanItem_def opt_arg_def)
      next
        case (Some a)
        then show ?thesis using fits kc(2) by (auto simp: opt_arg_def cleanContent_iff)
      qed
      let ?ex = "case ox of None \<Rightarrow> extraOrEmpty env (mapExtra env (it_Extra cur)) | Some x \<Rightarrow> extraOrEmpty env x"
      let ?it = "cur\<lparr>it_KindID := k_ID k, it_Kind := k_Name k, it_Content := c, it_Date := d, it_Type := ty,
          it_Extra := (case ox of None \<Rightarrow> it_Extra cur | Some x \<Rightarrow> extraMap env x)\<rparr>"
      let ?up = "\<lambda>r. if ir_id r = i
        then (let r1 = r\<lparr>ir_kind := k_ID k, ir_content := c, ir_type := ty, ir_date := d, ir_extra := se_json se ?ex\<rparr>
              in if r1 = r then r else r1\<lparr>ir_updated := ck_now clk\<rparr>)
        else r"
      let ?t1 = "t\<lparr>bt_items := map ?up (bt_items t)\<rparr>"
      have ex: "extraMap env (se_json se ?ex) = (case ox of None \<Rightarrow> it_Extra cur | Some x \<Rightarrow> extraMap env x)"
        using good(1) row(2) by (simp add: sql_env_ok_def scanItem_def split: option.split)
      have scan: "scanItem env (?up r) (krow t (ir_kind (?up r))) =
          (if ir_id r = i then ?it else scanItem env r (krow t (ir_kind r)))" for r
      proof (cases "ir_id r = i")
        case True
        let ?r1 = "r\<lparr>ir_kind := k_ID k, ir_content := c, ir_type := ty, ir_date := d, ir_extra := se_json se ?ex\<rparr>"
        have "scanItem env ?r1 (krow t (k_ID k)) = ?it"
          using True kr cur(2) ex row(2) by (simp add: scanItem_def)
        moreover have "scanItem env (?r1\<lparr>ir_updated := ck_now clk\<rparr>) (krow t (k_ID k)) = ?it"
          using True kr cur(2) ex row(2) by (simp add: scanItem_def)
        moreover have "?r1 = r \<Longrightarrow> ir_kind r = k_ID k" by (cases r) simp
        ultimately show ?thesis using True by (simp add: Let_def) metis
      qed simp
      have refs: "ir_kind (?up r) \<in> kr_id ` set (bt_kinds t) \<and> ir_id (?up r) = ir_id r \<and> text_fits (ir_content (?up r))"
        if "r \<in> set (bt_items t)" for r
      proof -
        have "r = r\<lparr>ir_kind := k_ID k, ir_content := c, ir_type := ty, ir_date := d, ir_extra := se_json se ?ex\<rparr> \<Longrightarrow>
            ir_kind r = k_ID k" by (cases r) simp
        then show ?thesis using that good(2) kr c by (auto simp: refs_ok_def Let_def)
      qed
      have joins: "join_items env ?t1 = upd_item_list i ?it (join_items env t)"
      proof -
        have items: "bt_items ?t1 = map ?up (bt_items t)" by simp
        have "\<forall>x\<in>set (bt_items ?t1). ir_kind x \<in> kr_id ` set (bt_kinds t)"
          unfolding items using refs by (simp only: set_map ball_simps) blast
        then have "join_items env ?t1 = map (\<lambda>r. scanItem env r (krow t (ir_kind r))) (bt_items ?t1)"
          by (intro sql_view_items [OF good(2,3)]) simp_all
        then have "join_items env ?t1 = map (\<lambda>r. scanItem env r (krow t (ir_kind r))) (map ?up (bt_items t))"
          unfolding items .
        also have "\<dots> = map (\<lambda>r. if ir_id r = i then ?it else scanItem env r (krow t (ir_kind r))) (bt_items t)"
          by (simp only: map_map comp_def scan)
        also have "\<dots> = upd_item_list i ?it (join_items env t)"
          by (simp add: tabs_join [OF good(2,3)] upd_item_list_def)
        finally show ?thesis .
      qed
      have "join_htmls ?t1 = join_htmls t" by (simp add: join_htmls_def)
      with joins have v: "sql_view env (healthy ?t1) = ?v\<lparr>bv_items := upd_item_list i ?it (join_items env t)\<rparr>"
        by (simp add: sql_view_def)
      have fk: "list_ex (\<lambda>y. kr_id y = k_ID k) (bt_kinds t)" using kr by (auto simp: list_ex_iff)
      have byid: "itemByID env i (healthy ?t1) = (Inr ?it, healthy ?t1)"
        using find_upd [of i "join_items env t" ?it] Some cur(2) by (simp add: itemByID_view joins)
      have run: "orElse (upd_item se clk (k_ID k) c ty d ?ex i) DbErr (healthy t) = (Inr (), healthy ?t1)"
        using c fk by (simp add: orElse_def catchS_def upd_item_def)
      have r: "r = Inr ?it" "s' = healthy ?t1"
        using assms(3) Some kc
        by (simp_all add: s sql_UpdateItem_def bindS_def [of "itemByID env i"] itemByID_view [of _ _ t]
            bindS_def [of "case ok of None \<Rightarrow> _ | Some x \<Rightarrow> _ x"] kid bindS_def [of "liftS _"] liftS_def
            bindS_def [of "orElse _ _"] run byid)
      have spec: "update_item_spec env clk i ok oc od ot ox (sql_view env s) r (sql_view env s')"
        using Some kc by (simp add: update_item_spec_def r v s)
      have "refs_ok ?t1"
        by (rule refs_ok_map [OF good(2)]) (rule refs)
      with spec update_item_ok [OF good(3) spec [unfolded s]] good(1) show ?thesis
        by (simp add: sql_ok_def r s)
    qed
  qed
qed

lemma sql_delete_item:
  assumes "sql_ok env se s" and "sql_DeleteItem i s = (r, s')"
  shows "sql_ok env se s' \<and> delete_item_spec i (sql_view env s) r (sql_view env s')"
proof -
  obtain t where s: "s = healthy t" and good: "sql_env_ok env se" "refs_ok t" "view_ok (sql_view env (healthy t))"
    using assms(1) by (rule sql_okE)
  let ?t1 = "t\<lparr>bt_items := filter (\<lambda>r. ir_id r \<noteq> i) (bt_items t)\<rparr>"
  have joins: "join_items env ?t1 = filter (\<lambda>x. it_ID x \<noteq> i) (join_items env t)"
    using sql_view_items [OF good(2,3), of ?t1] good(2) tabs_join [OF good(2,3)]
    by (auto simp: refs_ok_def filter_map comp_def)
  have "join_htmls ?t1 = join_htmls t" by (simp add: join_htmls_def)
  with joins have v: "sql_view env (healthy ?t1) =
      (sql_view env (healthy t))\<lparr>bv_items := filter (\<lambda>x. it_ID x \<noteq> i) (join_items env t)\<rparr>"
    by (simp add: sql_view_def)
  have r: "s' = healthy ?t1" "r = (if filter (\<lambda>r. ir_id r = i) (bt_items t) = [] then Inl NotExist else Inr ())"
    using assms(2)
    by (auto simp: s sql_DeleteItem_def bindS_def del_item_def orElse_def catchS_def failS_def retS_def
        split: if_splits)
  have hit: "filter (\<lambda>r. ir_id r = i) (bt_items t) = [] \<longleftrightarrow> i \<notin> set (map it_ID (join_items env t))"
    using tabs_join [OF good(2,3)] by (auto simp: filter_empty_conv)
  moreover have "filter (\<lambda>x. it_ID x \<noteq> i) (join_items env t) = join_items env t"
    if "i \<notin> set (map it_ID (join_items env t))"
    using that by (auto intro: filter_True)
  ultimately have spec: "delete_item_spec i (sql_view env s) r (sql_view env s')"
    by (auto simp: delete_item_spec_def refused_def r v s)
  have "refs_ok ?t1" using good(2) by (auto simp: refs_ok_def above_def)
  with spec delete_item_ok [OF good(3) spec [unfolded s]] good(1) show ?thesis
    by (simp add: sql_ok_def r s)
qed

lemma sql_list_items:
  assumes "sql_ok env se s" and "page_fits p" and "sql_ListItems env se k p n s = (r, s')"
  shows "sql_ok env se s' \<and> sql_view env s' = sql_view env s \<and> list_items_spec env k p n (sql_view env s) r"
proof -
  obtain t where s: "s = healthy t" and good: "sql_env_ok env se" "refs_ok t" "view_ok (sql_view env (healthy t))"
    using assms(1) by (rule sql_okE)
  have coll: "se_coll se = (\<lambda>x. x)" using good(1) by (simp add: sql_env_ok_def)
  note kbn = kindByName_view [OF coll, of _ t env]
  show ?thesis
  proof (cases "view_kind k (sql_view env (healthy t))")
    case (Inl e)
    with assms show ?thesis
      by (auto simp: s sql_ListItems_def bindS_def kbn list_items_spec_def)
  next
    case (Inr kd)
    obtain pg sz where ps: "pageArgs p n = (pg, sz)" by fastforce
    have b: "1 \<le> pg" "1 \<le> sz" "sz \<le> 100" using pageArgs_bounds [OF ps] by auto
    have pg: "pg \<le> 2 ^ 55" using ps assms(2) by (auto simp: page_fits_def pageArgs_def Let_def split: if_splits)
    have a0: "0 \<le> (pg - 1) * sz" using b by simp
    moreover have "(pg - 1) * sz \<le> 2 ^ 55 * 100" using b pg by (intro mult_mono) auto
    ultimately have w: "wrap64 ((pg - 1) * sz) = (pg - 1) * sz" by (intro wrap64_id) auto
    let ?xs = "kind_items (k_ID kd) (sql_view env (healthy t))"
    have tot: "length (filter (\<lambda>r. ir_kind r = k_ID kd) (bt_items t)) = length ?xs"
      by (simp add: kind_items_def tabs_join [OF good(2,3)] filter_map comp_def)
    have pick: "sel_page env (k_ID kd) sz ((pg - 1) * sz) (healthy t) =
        (Inr (take (nat sz) (drop (nat ((pg - 1) * sz)) ?xs)), healthy t)"
      using a0 by (simp add: sel_page_def kind_items_def not_less)
    have "r = Inr \<lparr>lp_Items = render_kind env (k_ID kd) (sql_view env (healthy t)) (take (nat sz) (drop (nat ((pg - 1) * sz)) ?xs)),
        lp_Page = pg, lp_PageSize = sz, lp_Total = int (length ?xs)\<rparr> \<and> s' = s"
      using assms(3) Inr ps w tot
      by (cases "view_html (k_ID kd) (sql_view env (healthy t))")
        (auto simp add: s sql_ListItems_def bindS_def kbn orElse_def catchS_def pick htmlByKindID_view [of _ _ env] render_kind_def
          retS_def)
    with assms(1) Inr ps show ?thesis by (simp add: list_items_spec_def s Let_def)
  qed
qed

lemma sql_summary:
  assumes "sql_ok env se s" and "sql_Summary env s = (r, s')"
  shows "sql_ok env se s' \<and> sql_view env s' = sql_view env s \<and> summary_spec (sql_view env s) r"
proof -
  obtain t where s: "s = healthy t" and good: "sql_env_ok env se" "refs_ok t" "view_ok (sql_view env (healthy t))"
    using assms(1) by (rule sql_okE)
  have cnt: "int (length (filter (\<lambda>r. ir_kind r = i) (bt_items t))) = count_kind i (sql_view env s)" for i
    by (simp add: count_kind_def s tabs_join [OF good(2,3)] filter_map comp_def)
  have rising: "rising (map kr_id (bt_kinds t))" using good(3) by (simp add: view_ok_def comp_def)
  then have sorted: "sort_key kr_id (bt_kinds t) = bt_kinds t"
    by (intro sorted_sort_id [THEN trans] sort_key_id_if_sorted) (simp_all add: rising_def strict_sorted_iff)
  let ?ks = "map (\<lambda>k. \<lparr>kc_ID = k_ID k, kc_Name = k_Name k, kc_Count = count_kind (k_ID k) (sql_view env s)\<rparr>)
      (bv_kinds (sql_view env s))"
  have "map (\<lambda>k. \<lparr>kc_ID = kr_id k, kc_Name = kr_name k,
        kc_Count = int (length (filter (\<lambda>r. ir_kind r = kr_id k) (bt_items t)))\<rparr>) (sort_key kr_id (bt_kinds t)) = ?ks"
    by (simp add: sorted cnt) (simp add: s)
  moreover have "sum_list (map kc_Count ?ks) = int (length (bv_items (sql_view env s)))"
    using view_total [of "sql_view env s"] good(3) by (simp add: s comp_def)
  ultimately have "\<exists>at. r = Inr \<lparr>sm_Kinds = ?ks, sm_Total = int (length (bv_items (sql_view env s))), sm_UpdatedAt = at\<rparr>"
    and "s' = s"
    using assms(2) by (auto simp: s sql_Summary_def bindS_def orElse_def catchS_def retS_def)
  with assms(1) show ?thesis by (auto simp: summary_spec_def)
qed

lemma sql_view_htmls:
  assumes "refs_ok t" and "view_ok (sql_view env (healthy t))"
    and "bt_kinds t' = bt_kinds t" and "\<forall>r\<in>set (bt_htmls t'). hr_kind r \<in> kr_id ` set (bt_kinds t)"
  shows "join_htmls t' = map (\<lambda>r. scanKindHTML r (krow t (hr_kind r))) (bt_htmls t')"
  using assms view_kr_ids [of env "healthy t"] join_htmls_map [of t'] by (simp add: krow_def)

lemma find_html_last:
  "above i (map kh_ID xs) \<Longrightarrow> kh_ID h = i \<Longrightarrow> find (\<lambda>x. kh_ID x = i) (xs @ [h]) = Some h"
  by (induction xs) (auto simp: above_def)

lemma sql_create_html:
  assumes "sql_ok env se s" and "text_fits (trim_space h)" and "sql_CreateKindHTML env se k h s = (r, s')"
  shows "sql_ok env se s' \<and> create_html_spec env k h (sql_view env s) r (sql_view env s')"
proof -
  obtain tb where s: "s = healthy tb" and ok: "sql_env_ok env se" "refs_ok tb" "view_ok (sql_view env (healthy tb))"
    using assms(1) by (rule sql_okE)
  have coll: "se_coll se = (\<lambda>x. x)" using ok(1) by (simp add: sql_env_ok_def)
  note kbn = kindByName_view [OF coll, of k tb env]
  have dup: "list_ex (\<lambda>h. hr_kind h = kid) (bt_htmls tb) \<longleftrightarrow> view_html kid (sql_view env s) \<noteq> None" for kid
    by (auto simp: view_html_None s tabs_join [OF ok(2,3)] list_ex_iff)
  show ?thesis
  proof (cases "html_errs env k h False (sql_view env s) = []")
    case False
    then have "refused (html_errs env k h False (sql_view env s)) r (sql_view env s) (sql_view env s') \<and> s' = s"
      using assms(2,3)
      by (cases "parseKindHTML env h"; cases "view_kind k (sql_view env (healthy tb))")
        (auto simp: s sql_CreateKindHTML_def bindS_def liftS_def kbn html_errs_def refused_def ins_html_def orElse_def
          catchS_def failS_def dup [unfolded s] dest!: parseKindHTML_iff [THEN iffD1] split: if_splits)
    with False assms(1) show ?thesis by (auto simp: create_html_spec_def)
  next
    case True
    then obtain kd where kd: "view_kind k (sql_view env (healthy tb)) = Inr kd"
      "parseKindHTML env h = Inr (trim_space h)" "view_html (k_ID kd) (sql_view env s) = None"
      by (auto simp: html_errs_def isOk_iff parseKindHTML_iff s split: sum.splits if_splits)
    note kr = krow_view [OF ok(2,3) view_kind_in [OF kd(1)]]
    let ?row = "\<lparr>hr_id = bt_nextHTML tb, hr_kind = k_ID kd, hr_html = trim_space h\<rparr>"
    let ?t1 = "tb\<lparr>bt_nextHTML := bt_nextHTML tb + 1, bt_htmls := bt_htmls tb @ [?row]\<rparr>"
    let ?h = "\<lparr>kh_ID = bt_nextHTML tb, kh_KindID = k_ID kd, kh_Kind = k_Name kd, kh_HTML = trim_space h\<rparr>"
    have fk: "list_ex (\<lambda>k. kr_id k = k_ID kd) (bt_kinds tb)" using kr by (auto simp: list_ex_iff)
    have row: "scanKindHTML ?row (krow tb (k_ID kd)) = ?h" using kr by (simp add: scanKindHTML_def)
    have joins: "join_htmls ?t1 = join_htmls tb @ [?h]"
      using sql_view_htmls [OF ok(2,3), of ?t1] tabs_join [OF ok(2,3)] row ok(2) kr by (auto simp: refs_ok_def)
    have "join_items env ?t1 = join_items env tb" by (simp add: join_items_def)
    with joins have v: "sql_view env (healthy ?t1) = (sql_view env s)\<lparr>bv_htmls := bv_htmls (sql_view env s) @ [?h]\<rparr>"
      by (simp add: s sql_view_def)
    have above: "above (bt_nextHTML tb) (map kh_ID (join_htmls tb))"
      using ok(2) tabs_join [OF ok(2,3)] by (simp add: refs_ok_def comp_def)
    have r: "r = Inr ?h" "s' = healthy ?t1"
      using assms(2,3) s kd fk find_html_last [OF above, of ?h] dup [of "k_ID kd"]
      by (simp_all add: sql_CreateKindHTML_def bindS_def liftS_def kbn ins_html_def orElse_def catchS_def htmlByID_view
          [of _ _ env] joins)
    have spec: "create_html_spec env k h (sql_view env s) r (sql_view env s')"
      using True kd above by (simp add: create_html_spec_def r v) (auto simp: s)
    have "refs_ok ?t1" using ok(2) kr by (auto simp: refs_ok_def above_mono)
    with spec create_html_ok [OF ok(3) spec [unfolded s]] ok(1) show ?thesis
      by (simp add: sql_ok_def r s)
  qed
qed

text \<open>Among the templates, id and kind name the same one.\<close>

lemma html_key:
  assumes "view_ok v" and "view_html kid v = Some h0" and "x \<in> set (bv_htmls v)"
  shows "kh_ID x = kh_ID h0 \<longleftrightarrow> kh_KindID x = kid"
proof -
  have "inj_on kh_ID (set (bv_htmls v))" "inj_on kh_KindID (set (bv_htmls v))"
    using assms(1) rising_distinct [of "map kh_ID (bv_htmls v)"] by (simp_all add: view_ok_def distinct_map)
  with view_htmlD [OF assms(2)] assms(3) show ?thesis by (metis inj_onD)
qed

lemma upd_html_row:
  assumes "refs_ok t" and "view_ok (sql_view env (healthy t))"
    and "view_html kid (sql_view env (healthy t)) = Some h0"
  shows "join_htmls (t\<lparr>bt_htmls := map (\<lambda>h. if hr_id h = kh_ID h0 then h\<lparr>hr_html := html\<rparr> else h) (bt_htmls t)\<rparr>) =
    upd_html_list kid (h0\<lparr>kh_HTML := html\<rparr>) (join_htmls t)"
proof -
  let ?f = "\<lambda>h. if hr_id h = kh_ID h0 then h\<lparr>hr_html := html\<rparr> else h"
  let ?s = "\<lambda>h. scanKindHTML h (krow t (hr_kind h))"
  have k: "hr_kind (?f h) = hr_kind h" for h by simp
  let ?t1 = "t\<lparr>bt_htmls := map ?f (bt_htmls t)\<rparr>"
  have htmls: "bt_htmls ?t1 = map ?f (bt_htmls t)" by simp
  have "\<forall>r\<in>set (bt_htmls t). hr_kind r \<in> kr_id ` set (bt_kinds t)"
    using assms(1) by (simp add: refs_ok_def)
  then have "\<forall>r\<in>set (bt_htmls ?t1). hr_kind r \<in> kr_id ` set (bt_kinds t)"
    unfolding htmls by auto
  then have "join_htmls ?t1 = map ?s (bt_htmls ?t1)"
    by (intro sql_view_htmls [OF assms(1,2)]) simp_all
  then have "join_htmls ?t1 = map ?s (map ?f (bt_htmls t))" unfolding htmls .
  also have "\<dots> = map (\<lambda>h. if kh_KindID (?s h) = kid then h0\<lparr>kh_HTML := html\<rparr> else ?s h) (bt_htmls t)"
  proof (simp only: map_map comp_def, rule map_cong [OF refl])
    fix h assume h: "h \<in> set (bt_htmls t)"
    then have "?s h \<in> set (bv_htmls (sql_view env (healthy t)))"
      by (simp add: tabs_join [OF assms(1,2)])
    note key = html_key [OF assms(2,3) this]
    show "?s (?f h) = (if kh_KindID (?s h) = kid then h0\<lparr>kh_HTML := html\<rparr> else ?s h)"
    proof (cases "hr_id h = kh_ID h0")
      case True
      have "inj_on kh_ID (set (join_htmls t))"
        using assms(2) rising_distinct [of "map kh_ID (join_htmls t)"] by (simp add: view_ok_def distinct_map)
      moreover have "?s h \<in> set (join_htmls t)" "h0 \<in> set (join_htmls t)"
        using \<open>?s h \<in> _\<close> view_htmlD [OF assms(3)] by simp_all
      moreover have "kh_ID (?s h) = kh_ID h0" using True by simp
      ultimately have "?s h = h0" by (metis inj_onD)
      then have "h0\<lparr>kh_HTML := html\<rparr> = scanKindHTML (h\<lparr>hr_html := html\<rparr>) (krow t (hr_kind h))"
        by (auto simp: scanKindHTML_def)
      with True key show ?thesis by simp
    qed (use key in simp)
  qed
  also have "\<dots> = upd_html_list kid (h0\<lparr>kh_HTML := html\<rparr>) (join_htmls t)"
    by (simp add: tabs_join [OF assms(1,2)] upd_html_list_def)
  finally show ?thesis .
qed

lemma sql_update_html:
  assumes "sql_ok env se s" and "text_fits (trim_space h)" and "sql_UpdateKindHTML env se k h s = (r, s')"
  shows "sql_ok env se s' \<and> update_html_spec env k h (sql_view env s) r (sql_view env s')"
proof -
  obtain tb where s: "s = healthy tb" and ok: "sql_env_ok env se" "refs_ok tb" "view_ok (sql_view env (healthy tb))"
    using assms(1) by (rule sql_okE)
  have coll: "se_coll se = (\<lambda>x. x)" using ok(1) by (simp add: sql_env_ok_def)
  note get = GetKindHTML_view [OF coll, of k tb env]
  show ?thesis
  proof (cases "html_errs env k h True (sql_view env s) = []")
    case False
    then have "refused (html_errs env k h True (sql_view env s)) r (sql_view env s) (sql_view env s') \<and> s' = s"
      using assms(2,3)
      by (cases "parseKindHTML env h"; cases "view_kind k (sql_view env (healthy tb))")
        (auto simp: s sql_UpdateKindHTML_def bindS_def liftS_def get html_errs_def refused_def split: option.splits)
    with False assms(1) show ?thesis by (auto simp: update_html_spec_def)
  next
    case True
    then obtain kd h0 where kd: "view_kind k (sql_view env (healthy tb)) = Inr kd"
      "parseKindHTML env h = Inr (trim_space h)" "view_html (k_ID kd) (sql_view env (healthy tb)) = Some h0"
      by (auto simp: html_errs_def isOk_iff parseKindHTML_iff s split: sum.splits if_splits)
    let ?h = "h0\<lparr>kh_HTML := trim_space h\<rparr>"
    let ?t1 = "tb\<lparr>bt_htmls := map (\<lambda>x. if hr_id x = kh_ID h0 then x\<lparr>hr_html := trim_space h\<rparr> else x) (bt_htmls tb)\<rparr>"
    have joins: "join_htmls ?t1 = upd_html_list (k_ID kd) ?h (join_htmls tb)"
      by (rule upd_html_row [OF ok(2,3) kd(3)])
    have "join_items env ?t1 = join_items env tb" by (simp add: join_items_def)
    with joins have v: "sql_view env (healthy ?t1) =
        (sql_view env s)\<lparr>bv_htmls := upd_html_list (k_ID kd) ?h (bv_htmls (sql_view env s))\<rparr>"
      by (simp add: s sql_view_def)
    have "find (\<lambda>x. kh_ID x = kh_ID h0) (upd_html_list (k_ID kd) ?h xs) = Some ?h"
      if "set xs \<subseteq> set (join_htmls tb)" "h0 \<in> set xs" for xs
      using that
    proof (induction xs)
      case (Cons x xs)
      then show ?case
        using html_key [OF ok(3) kd(3), of x] view_htmlD [OF kd(3)] by (auto simp: upd_html_list_def)
    qed simp
    then have byid: "htmlByID (kh_ID h0) (healthy ?t1) = (Inr ?h, healthy ?t1)"
      using view_htmlD [OF kd(3)] joins by (simp add: htmlByID_view [of _ _ env])
    have r: "r = Inr ?h" "s' = healthy ?t1"
      using assms(2,3) s kd
      by (simp_all add: sql_UpdateKindHTML_def bindS_def liftS_def get upd_html_def orElse_def catchS_def byid)
    have spec: "update_html_spec env k h (sql_view env s) r (sql_view env s')"
      using True kd by (simp add: update_html_spec_def r v) (simp add: s)
    have "refs_ok ?t1" using ok(2) by (auto simp: refs_ok_def above_def)
    with spec update_html_ok [OF ok(3) spec [unfolded s]] ok(1) show ?thesis
      by (simp add: sql_ok_def r s)
  qed
qed

lemma sql_delete_html:
  assumes "sql_ok env se s" and "sql_DeleteKindHTML se k s = (r, s')"
  shows "sql_ok env se s' \<and> delete_html_spec k (sql_view env s) r (sql_view env s')"
proof -
  obtain tb where s: "s = healthy tb" and ok: "sql_env_ok env se" "refs_ok tb" "view_ok (sql_view env (healthy tb))"
    using assms(1) by (rule sql_okE)
  have coll: "se_coll se = (\<lambda>x. x)" using ok(1) by (simp add: sql_env_ok_def)
  note get = GetKindHTML_view [OF coll, of k tb env]
  show ?thesis
  proof (cases "\<exists>kd h0. view_kind k (sql_view env (healthy tb)) = Inr kd \<and> view_html (k_ID kd) (sql_view env (healthy tb)) = Some h0")
    case False
    then show ?thesis
      using assms
      by (auto simp: s sql_DeleteKindHTML_def bindS_def get delete_html_spec_def refused_def split: sum.splits option.splits)
  next
    case True
    then obtain kd h0 where kd: "view_kind k (sql_view env (healthy tb)) = Inr kd"
      "view_html (k_ID kd) (sql_view env (healthy tb)) = Some h0" by blast
    let ?t1 = "tb\<lparr>bt_htmls := filter (\<lambda>x. hr_id x \<noteq> kh_ID h0) (bt_htmls tb)\<rparr>"
    have "join_htmls ?t1 = filter (\<lambda>x. kh_ID x \<noteq> kh_ID h0) (join_htmls tb)"
      using sql_view_htmls [OF ok(2,3), of ?t1] ok(2) tabs_join [OF ok(2,3)]
      by (auto simp: refs_ok_def filter_map comp_def)
    also have "\<dots> = filter (\<lambda>x. kh_KindID x \<noteq> k_ID kd) (join_htmls tb)"
      using html_key [OF ok(3) kd(2)] by (intro filter_cong) auto
    finally have joins: "join_htmls ?t1 = filter (\<lambda>x. kh_KindID x \<noteq> k_ID kd) (join_htmls tb)" .
    have "join_items env ?t1 = join_items env tb" by (simp add: join_items_def)
    with joins have v: "sql_view env (healthy ?t1) =
        (sql_view env s)\<lparr>bv_htmls := filter (\<lambda>x. kh_KindID x \<noteq> k_ID kd) (bv_htmls (sql_view env s))\<rparr>"
      by (simp add: s sql_view_def)
    have r: "r = Inr ()" "s' = healthy ?t1"
      using assms(2) s kd by (simp_all add: sql_DeleteKindHTML_def bindS_def get del_html_def orElse_def catchS_def)
    have spec: "delete_html_spec k (sql_view env s) r (sql_view env s')"
      using kd by (simp add: delete_html_spec_def r v) (simp add: s)
    have "refs_ok ?t1" using ok(2) by (auto simp: refs_ok_def above_def)
    with spec delete_html_ok [OF ok(3) spec [unfolded s]] ok(1) show ?thesis
      by (simp add: sql_ok_def r s)
  qed
qed

lemma sql_get_html:
  assumes "sql_ok env se s" and "sql_GetKindHTML se k s = (r, s')"
  shows "sql_ok env se s' \<and> sql_view env s' = sql_view env s \<and> get_html_spec k (sql_view env s) r"
proof -
  obtain tb where s: "s = healthy tb" and ok: "sql_env_ok env se" using assms(1) by (rule sql_okE)
  then have "se_coll se = (\<lambda>x. x)" by (simp add: sql_env_ok_def)
  from GetKindHTML_view [OF this, of k tb env] assms s show ?thesis
    by (auto simp: get_html_spec_def split: sum.splits)
qed

lemma sql_Board_sel [simp]:
  "CreateKind (sql_Board env se) = sql_CreateKind se" "AddItem (sql_Board env se) = sql_AddItem env se"
  "UpdateItem (sql_Board env se) = sql_UpdateItem env se" "DeleteItem (sql_Board env se) = (\<lambda>_. sql_DeleteItem)"
  "ListItems (sql_Board env se) = sql_ListItems env se" "Summary (sql_Board env se) = sql_Summary env"
  "CreateKindHTML (sql_Board env se) = sql_CreateKindHTML env se"
  "UpdateKindHTML (sql_Board env se) = sql_UpdateKindHTML env se"
  "DeleteKindHTML (sql_Board env se) = sql_DeleteKindHTML se" "GetKindHTML (sql_Board env se) = sql_GetKindHTML se"
  by (simp_all add: sql_Board_def)

interpretation sb: board "sql_Board env se" env text_fits "sql_ok env se" "sql_view env" for env se
proof (unfold_locales, goal_cases)
  case 1 then show ?case by (simp add: sql_ok_def)
next
  case 2 then show ?case by (intro sql_create_kind) simp_all
next
  case 3 then show ?case by (intro sql_add_item) simp_all
next
  case 4 then show ?case by (intro sql_update_item) simp_all
next
  case 5 then show ?case by (intro sql_delete_item) simp_all
next
  case 6 then show ?case by (intro sql_list_items) simp_all
next
  case 7 then show ?case by (intro sql_summary) simp_all
next
  case 8 then show ?case by (intro sql_create_html) simp_all
next
  case 9 then show ?case by (intro sql_update_html) simp_all
next
  case 10 then show ?case by (intro sql_delete_html) simp_all
next
  case 11 then show ?case by (intro sql_get_html) simp_all
qed

end
