(* ===== verification/BoardRuns.thy ===== *)
theory BoardRuns
  imports BoardSqlOk
begin

text \<open>
  Properties of the two stores of kinds and items: both keep the contract of \<open>Board\<close> through
  any sequence of calls, the pages of a listing are complete, and the limits and the collation
  of the MySQL columns are where they differ.
\<close>

lemma newMemBoard_ok: "mem_ok newMemBoard"
  by (simp add: mem_ok_def newMemBoard_def mem_view_def view_ok_def)

lemma migrate_ok: "sql_env_ok env se \<Longrightarrow> sql_ok env se (healthy board_migrate)"
  by (simp add: sql_ok_def board_migrate_def refs_ok_def view_ok_def join_items_def join_htmls_def)

lemma op_fits_True [simp]: "op_fits (\<lambda>_. True) x"
  by (cases x) (auto split: option.split)

text \<open>C11 Whatever calls a memory board has served, its kinds have distinct clean names and
  rising ids, every item and every template belongs to an existing kind and carries its name, a
  kind has at most one template; and a call that fails leaves kinds, items and templates as they
  were.\<close>

theorem mem_board_sound:
  "view_ok (mem_view (board_run (mem_Board env) ops newMemBoard)) \<and>
   (fst (board_step (mem_Board env) op (board_run (mem_Board env) ops newMemBoard)) \<or>
    mem_view (snd (board_step (mem_Board env) op (board_run (mem_Board env) ops newMemBoard))) =
      mem_view (board_run (mem_Board env) ops newMemBoard))"
proof -
  have "list_all (op_fits (\<lambda>_. True)) ops" by (simp add: list_all_iff)
  with mb.run_inv [OF newMemBoard_ok, of ops] show ?thesis
    using mb.step_keeps [OF _ op_fits_True] mem_ok_view by blast
qed


definition demo_board_env :: board_env where
  "demo_board_env = \<lparr>be_midnight = (\<lambda>d. d), be_valid = (\<lambda>_. False), be_map = (\<lambda>_. Some []),
     be_any = (\<lambda>_. None), be_marshal = (\<lambda>_. None), be_tmpl = (\<lambda>s. Some (\<lambda>_. Some s)), be_rfc3339 = go_itoa\<rparr>"

definition demo_sql_env :: sql_env where
  "demo_sql_env = \<lparr>se_coll = (\<lambda>s. s), se_json = (\<lambda>s. s)\<rparr>"

definition demo_clock :: clock where
  "demo_clock = \<lparr>ck_today = ''2026-01-31'', ck_now = 7\<rparr>"

definition demo_ops :: "board_op list" where
  "demo_ops = [OpKind ''news'', OpAdd demo_clock ''news'' ''a'' ''2026-02-28'' '''' '''',
     OpAdd demo_clock ''news'' ''b'' '''' '''' '''', OpKind '' news '']"

lemma demo_env_ok: "sql_env_ok demo_board_env demo_sql_env"
  by (simp add: sql_env_ok_def demo_board_env_def demo_sql_env_def extraMap_def extraOrEmpty_def)

lemma demo_fits: "list_all (op_fits text_fits) demo_ops"
  by code_simp




text \<open>The html limit of the code is one byte above that of the column: a template of exactly
  65536 bytes passes the checks and is stored by the memory board, and the MySQL board refuses it
  with a database error.\<close>

lemma html_limit_off_by_one:
  assumes "parseKindHTML env h = Inr x" and "length x = 65536" and "sql_env_ok env se" and "refs_ok t"
    and "view_ok (sql_view env (healthy t))" and "view_kind k (sql_view env (healthy t)) = Inr kd"
  shows "sql_CreateKindHTML env se k h (healthy t) = (Inl (DbErr DataTooLong), healthy t) \<and>
    (\<forall>s kd'. view_kind k (mem_view s) \<noteq> Inr kd' \<or> isOk (htmlLocked s (k_ID kd')) \<or>
       isOk (fst (mem_CreateKindHTML env k h s)))"
proof -
  have coll: "se_coll se = (\<lambda>x. x)" using assms(3) by (simp add: sql_env_ok_def)
  have "\<not> text_fits x" using assms(2) by (simp add: text_fits_def)
  then show ?thesis
    using assms(1,6) kindByName_view [OF coll, of k t env]
    by (auto simp: sql_CreateKindHTML_def bindS_def liftS_def ins_html_def orElse_def catchS_def failS_def
        mem_CreateKindHTML_def kindLocked_view Let_def)
qed

definition one_kind :: board_tabs where
  "one_kind = board_migrate\<lparr>bt_kinds := [\<lparr>kr_id = 1, kr_name = ''news''\<rparr>], bt_nextKind := 2\<rparr>"

lemma html_limit_off_by_one_witness:
  "fst (sql_CreateKindHTML demo_board_env demo_sql_env ''news'' (replicate 65536 CHR ''x'') (healthy one_kind)) =
     Inl (DbErr DataTooLong)"
proof -
  let ?h = "replicate 65536 CHR ''x''"
  have "list_all plain_c ?h" by (simp add: list_all_iff plain_c_def ordc_def)
  then have "parseKindHTML demo_board_env ?h = Inr ?h"
    by (simp add: parseKindHTML_iff demo_board_env_def)
  moreover have "refs_ok one_kind" "view_ok (sql_view demo_board_env (healthy one_kind))"
    "view_kind ''news'' (sql_view demo_board_env (healthy one_kind)) = Inr \<lparr>k_ID = 1, k_Name = ''news''\<rparr>"
    by (simp add: refs_ok_def one_kind_def board_migrate_def above_def) code_simp+
  ultimately show ?thesis
    using html_limit_off_by_one [OF _ _ demo_env_ok] by simp
qed

text \<open>
  With a collation that ignores case, MySQL's default, names that differ in case name one kind;
  the memory board keeps two.
\<close>

definition nocase_env :: sql_env where
  "nocase_env = \<lparr>se_coll = map lower_c, se_json = (\<lambda>s. s)\<rparr>"

lemma collation_merges_kinds:
  "fst (sql_CreateKind nocase_env ''News'' (healthy one_kind)) = Inr \<lparr>k_ID = 1, k_Name = ''news''\<rparr> \<and>
   fst (mem_CreateKind ''News'' (snd (mem_CreateKind ''news'' newMemBoard))) = Inr \<lparr>k_ID = 2, k_Name = ''News''\<rparr>"
  by code_simp

end
