(* ===== verification/Tokens.thy ===== *)
theory Tokens
  imports GoStrings
begin

text \<open>
  projects/board/tokens.go and file.go: the access tokens of the board, in memory and in a JSON file
  that each change replaces. SHA-256, the JSON package, the random bytes, the clock and the faults
  of the file system are parameters.
\<close>

section \<open>Replacing a file\<close>

datatype disk_fault = MkdirFails | WriteFails "string option" | RenameFails

type_synonym disk = "string \<Rightarrow> string option"

text \<open>A write that fails may leave a part of the data in the temporary file.\<close>

definition writeAtomic :: "disk_fault option \<Rightarrow> string \<Rightarrow> string \<Rightarrow> disk \<Rightarrow> (disk_fault + unit) \<times> disk" where
  "writeAtomic fault path data d =
     (let tmp = path @ ''.tmp'' in
      case fault of
        Some MkdirFails \<Rightarrow> (Inl MkdirFails, d)
      | Some (WriteFails part) \<Rightarrow> (Inl (WriteFails part), case part of None \<Rightarrow> d | Some x \<Rightarrow> d(tmp := Some x))
      | Some RenameFails \<Rightarrow> (Inl RenameFails, d(tmp := None))
      | None \<Rightarrow> (Inr (), d(tmp := None, path := Some data)))"

lemma writeAtomic_file:
  "snd (writeAtomic fault path data d) path = (if fault = None then Some data else d path)"
  "fst (writeAtomic fault path data d) = (case fault of None \<Rightarrow> Inr () | Some e \<Rightarrow> Inl e)"
  by (auto simp: writeAtomic_def Let_def split: option.split disk_fault.split)

section \<open>The store\<close>

record token =
  tk_ID :: string
  tk_Name :: string
  tk_Hash :: string
  tk_Prefix :: string
  tk_CreatedAt :: string
  tk_LastUsedAt :: string

record token_view =
  tv_ID :: string
  tv_Name :: string
  tv_Prefix :: string
  tv_CreatedAt :: string
  tv_LastUsedAt :: string

record TokenStore =
  ts_path :: string
  ts_items :: "token list"

record token_env =
  te_sha :: "string \<Rightarrow> byte list"
  te_marshal :: "token list \<Rightarrow> string"
  te_unmarshal :: "string \<Rightarrow> token list option"

datatype token_err = NameMissing | NameTooLong | RandomFails | SaveFails disk_fault | NoSuchToken | BadTokenFile

definition tokenHash :: "token_env \<Rightarrow> string \<Rightarrow> string" where
  "tokenHash te raw = hex_encode (te_sha te raw)"

text \<open>\<open>rand.Read\<close> gives the bytes asked for or fails.\<close>

definition randomHex :: "byte list option \<Rightarrow> token_err + string" where
  "randomHex bytes = (case bytes of None \<Rightarrow> Inl RandomFails | Some b \<Rightarrow> Inr (hex_encode b))"

definition tok_load :: "token_env \<Rightarrow> string \<Rightarrow> disk \<Rightarrow> token_err + token list" where
  "tok_load te path d =
     (case d path of
        None \<Rightarrow> Inr []
      | Some b \<Rightarrow> (case te_unmarshal te b of None \<Rightarrow> Inl BadTokenFile | Some items \<Rightarrow> Inr items))"

definition NewTokenStore :: "token_env \<Rightarrow> string \<Rightarrow> disk \<Rightarrow> token_err + TokenStore" where
  "NewTokenStore te path d = bindR (tok_load te path d) (\<lambda>items. Inr \<lparr>ts_path = path, ts_items = items\<rparr>)"

definition saveLocked :: "token_env \<Rightarrow> disk_fault option \<Rightarrow> TokenStore \<Rightarrow> disk \<Rightarrow> (disk_fault + unit) \<times> disk" where
  "saveLocked te fault s d = writeAtomic fault (ts_path s) (te_marshal te (ts_items s) @ [CHR 0x0A]) d"

definition tok_List :: "TokenStore \<Rightarrow> token_view list" where
  "tok_List s = map (\<lambda>t. \<lparr>tv_ID = tk_ID t, tv_Name = tk_Name t, tv_Prefix = tk_Prefix t,
     tv_CreatedAt = tk_CreatedAt t, tv_LastUsedAt = tk_LastUsedAt t\<rparr>) (ts_items s)"

text \<open>The two random draws of \<open>Create\<close> come before the lock.\<close>

definition tok_Create ::
  "token_env \<Rightarrow> string \<Rightarrow> byte list option \<Rightarrow> byte list option \<Rightarrow> disk_fault option \<Rightarrow> string \<Rightarrow>
     TokenStore \<times> disk \<Rightarrow> (token_err + string \<times> token_view) \<times> TokenStore \<times> disk" where
  "tok_Create te now r16 r8 fault name0 sd =
     (case sd of (s, d) \<Rightarrow>
       (let name = trim_space name0 in
        if name = [] then (Inl NameMissing, s, d)
        else if 64 < int (rune_count name) then (Inl NameTooLong, s, d)
        else (case bindR (randomHex r16) (\<lambda>raw. bindR (randomHex r8) (\<lambda>i. Inr (raw, i))) of
            Inl e \<Rightarrow> (Inl e, s, d)
          | Inr (raw, i) \<Rightarrow>
            (let item = \<lparr>tk_ID = i, tk_Name = name, tk_Hash = tokenHash te raw, tk_Prefix = take 4 raw,
                         tk_CreatedAt = now, tk_LastUsedAt = []\<rparr>;
                 s1 = s\<lparr>ts_items := ts_items s @ [item]\<rparr>
             in case saveLocked te fault s1 d of
                  (Inl e, d1) \<Rightarrow> (Inl (SaveFails e), s1\<lparr>ts_items := butlast (ts_items s1)\<rparr>, d1)
                | (Inr _, d1) \<Rightarrow> (Inr (raw, \<lparr>tv_ID = i, tv_Name = name, tv_Prefix = take 4 raw,
                                  tv_CreatedAt = now, tv_LastUsedAt = []\<rparr>), s1, d1)))))"

definition tok_Delete ::
  "token_env \<Rightarrow> disk_fault option \<Rightarrow> string \<Rightarrow> TokenStore \<times> disk \<Rightarrow> (token_err + unit) \<times> TokenStore \<times> disk" where
  "tok_Delete te fault i sd =
     (case sd of (s, d) \<Rightarrow>
       if \<not> list_ex (\<lambda>t. tk_ID t = i) (ts_items s) then (Inl NoSuchToken, s, d)
       else (let s1 = s\<lparr>ts_items := filter (\<lambda>t. tk_ID t \<noteq> i) (ts_items s)\<rparr> in
             case saveLocked te fault s1 d of
               (Inl e, d1) \<Rightarrow> (Inl (SaveFails e), s1, d1)
             | (Inr _, d1) \<Rightarrow> (Inr (), s1, d1)))"

text \<open>The last item with the hash; all are compared.\<close>

definition last_hit :: "string \<Rightarrow> token list \<Rightarrow> nat option" where
  "last_hit want items = foldl (\<lambda>hit j. if tk_Hash (items ! j) = want then Some j else hit) None [0..<length items]"

definition tok_Match ::
  "token_env \<Rightarrow> string \<Rightarrow> disk_fault option \<Rightarrow> string \<Rightarrow> TokenStore \<times> disk \<Rightarrow> bool \<times> TokenStore \<times> disk" where
  "tok_Match te now fault raw sd =
     (case sd of (s, d) \<Rightarrow>
       if raw = [] then (False, s, d)
       else (case last_hit (tokenHash te raw) (ts_items s) of
           None \<Rightarrow> (False, s, d)
         | Some j \<Rightarrow>
             (let s1 = s\<lparr>ts_items := (ts_items s)[j := (ts_items s ! j)\<lparr>tk_LastUsedAt := now\<rparr>]\<rparr>
              in (True, s1, snd (saveLocked te fault s1 d)))))"

section \<open>Operations\<close>

lemma last_hit_snoc:
  "last_hit w (xs @ [x]) = (if tk_Hash x = w then Some (length xs) else last_hit w xs)"
proof -
  have "foldl (\<lambda>hit j. if tk_Hash ((xs @ [x]) ! j) = w then Some j else hit) None [0..<length xs] = last_hit w xs"
    unfolding last_hit_def by (intro foldl_cong) (auto simp: nth_append)
  then show ?thesis by (simp add: last_hit_def)
qed

lemma last_hit_Some: "last_hit w xs = Some j \<Longrightarrow> j < length xs \<and> tk_Hash (xs ! j) = w"
proof (induction xs rule: rev_induct)
  case (snoc x xs)
  then show ?case by (auto simp: last_hit_snoc nth_append split: if_splits)
qed (simp add: last_hit_def)

lemma last_hit_None: "last_hit w xs = None \<longleftrightarrow> (\<forall>t\<in>set xs. tk_Hash t \<noteq> w)"
proof (induction xs rule: rev_induct)
  case (snoc x xs)
  then show ?case by (auto simp: last_hit_snoc)
qed (simp add: last_hit_def)

text \<open>The names under which tokens are known and found.\<close>

definition tok_keys :: "TokenStore \<Rightarrow> (string \<times> string) list" where
  "tok_keys s = map (\<lambda>t. (tk_ID t, tk_Hash t)) (ts_items s)"

lemma Create_keys:
  assumes "tok_Create te now r16 r8 fault name (s, d) = (r, s', d')"
  shows "ts_path s' = ts_path s \<and>
    (case r of Inl _ \<Rightarrow> ts_items s' = ts_items s \<and> d' (ts_path s) = d (ts_path s)
     | Inr (raw, v) \<Rightarrow> fault = None \<and> tok_keys s' = tok_keys s @ [(tv_ID v, tokenHash te raw)] \<and>
         (\<exists>b. r16 = Some b \<and> raw = hex_encode b) \<and> d' (ts_path s) = Some (te_marshal te (ts_items s') @ [CHR 0x0A]))"
  using assms writeAtomic_file [of fault "ts_path s"]
  by (auto simp: tok_Create_def Let_def randomHex_def saveLocked_def tok_keys_def writeAtomic_def bindR_def
      split: if_splits option.splits sum.splits prod.splits disk_fault.splits)

lemma Delete_keys:
  assumes "tok_Delete te fault i (s, d) = (r, s', d')"
  shows "ts_path s' = ts_path s \<and>
    (if i \<in> fst ` set (tok_keys s) then tok_keys s' = filter (\<lambda>k. fst k \<noteq> i) (tok_keys s) \<and>
       d' (ts_path s) = (if fault = None then Some (te_marshal te (ts_items s') @ [CHR 0x0A]) else d (ts_path s))
     else r = Inl NoSuchToken \<and> s' = s \<and> d' = d)"
proof -
  have "list_ex (\<lambda>t. tk_ID t = i) (ts_items s) \<longleftrightarrow> i \<in> fst ` set (tok_keys s)"
    by (force simp: list_ex_iff tok_keys_def)
  then show ?thesis
    using assms
    by (auto simp: tok_Delete_def Let_def saveLocked_def tok_keys_def writeAtomic_def filter_map comp_def
        split: if_splits option.splits disk_fault.splits)
qed

lemma Match_keys:
  assumes "tok_Match te now fault raw (s, d) = (r, s', d')"
  shows "ts_path s' = ts_path s \<and> tok_keys s' = tok_keys s \<and>
    (r \<longleftrightarrow> raw \<noteq> [] \<and> tokenHash te raw \<in> snd ` set (tok_keys s)) \<and>
    d' (ts_path s) = (if r \<and> fault = None then Some (te_marshal te (ts_items s') @ [CHR 0x0A]) else d (ts_path s)) \<and>
    (\<not> r \<longrightarrow> s' = s)"
proof (cases "raw = [] \<or> last_hit (tokenHash te raw) (ts_items s) = None")
  case True
  then show ?thesis using assms last_hit_None [of "tokenHash te raw" "ts_items s"]
    by (auto simp: tok_Match_def tok_keys_def split: option.splits)
next
  case False
  then obtain j where j: "last_hit (tokenHash te raw) (ts_items s) = Some j" "raw \<noteq> []" by auto
  let ?s1 = "s\<lparr>ts_items := (ts_items s)[j := (ts_items s ! j)\<lparr>tk_LastUsedAt := now\<rparr>]\<rparr>"
  have jj: "j < length (ts_items s)" "tk_Hash (ts_items s ! j) = tokenHash te raw" using last_hit_Some [OF j(1)] by simp_all
  have r: "r" "s' = ?s1" "d' = snd (saveLocked te fault ?s1 d)"
    using assms j by (auto simp: tok_Match_def Let_def)
  have "tok_keys ?s1 = tok_keys s"
    using jj by (simp add: tok_keys_def map_update list_update_same_conv)
  moreover have "(tk_ID (ts_items s ! j), tokenHash te raw) \<in> set (tok_keys s)"
    using nth_mem [OF jj(1)] unfolding jj(2) [symmetric] tok_keys_def by simp
  then have "tokenHash te raw \<in> snd ` set (tok_keys s)" by (metis image_eqI snd_conv)
  moreover have "d' (ts_path s) = (if fault = None then Some (te_marshal te (ts_items s') @ [CHR 0x0A]) else d (ts_path s))"
    unfolding r(2,3) by (simp add: saveLocked_def writeAtomic_file)
  ultimately show ?thesis using r j(2) by simp
qed

section \<open>Runs\<close>

datatype tok_op =
    TCreate "byte list option" "byte list option" string
  | TDelete string
  | TMatch string

text \<open>
  The states of a run of one process on an empty directory. \<open>L\<close> are the tokens handed out and not
  deleted since, by id; \<open>ok\<close> holds as long as no write of the file has failed.
\<close>

inductive tok_run :: "token_env \<Rightarrow> string \<Rightarrow> TokenStore \<times> disk \<Rightarrow> (string \<times> string) list \<Rightarrow> bool \<Rightarrow> bool"
  for te path where
  tok_new: "d path = None \<Longrightarrow> NewTokenStore te path d = Inr s \<Longrightarrow> tok_run te path (s, d) [] True"
| tok_created: "tok_run te path sd L ok \<Longrightarrow> tok_Create te now (Some r16) r8 fault name sd = (Inr (raw, v), sd') \<Longrightarrow>
    length r16 = 16 \<Longrightarrow> tok_run te path sd' (L @ [(tv_ID v, raw)]) ok"
| tok_not_created: "tok_run te path sd L ok \<Longrightarrow> tok_Create te now r16 r8 fault name sd = (Inl e, sd') \<Longrightarrow>
    tok_run te path sd' L ok"
| tok_deleted: "tok_run te path sd L ok \<Longrightarrow> tok_Delete te fault i sd = (r, sd') \<Longrightarrow>
    tok_run te path sd' (filter (\<lambda>k. fst k \<noteq> i) L) (ok \<and> fault = None)"
| tok_matched: "tok_run te path sd L ok \<Longrightarrow> tok_Match te now fault raw sd = (b, sd') \<Longrightarrow>
    tok_run te path sd' L (ok \<and> fault = None)"

definition tok_inv :: "token_env \<Rightarrow> string \<Rightarrow> TokenStore \<times> disk \<Rightarrow> (string \<times> string) list \<Rightarrow> bool \<Rightarrow> bool" where
  "tok_inv te path sd L ok \<longleftrightarrow> (case sd of (s, d) \<Rightarrow>
     ts_path s = path \<and> tok_keys s = map (\<lambda>(i, r). (i, tokenHash te r)) L \<and>
     (\<forall>(i, r)\<in>set L. length r = 32) \<and>
     (ok \<longrightarrow> d path = Some (te_marshal te (ts_items s) @ [CHR 0x0A]) \<or> d path = None \<and> ts_items s = []))"

lemma filter_fst_map: "filter (\<lambda>k. fst k \<noteq> i) (map (\<lambda>(i, r). (i, f r)) L) = map (\<lambda>(i, r). (i, f r)) (filter (\<lambda>k. fst k \<noteq> i) L)"
  by (induction L) auto

lemma tok_run_inv: "tok_run te path sd L ok \<Longrightarrow> tok_inv te path sd L ok"
proof (induction rule: tok_run.induct)
  case (tok_new d s)
  then show ?case by (auto simp: tok_inv_def NewTokenStore_def tok_load_def tok_keys_def)
next
  case (tok_created sd L ok now r16 r8 fault name raw v sd')
  obtain s d s' d' where [simp]: "sd = (s, d)" "sd' = (s', d')" by fastforce
  show ?case using tok_created Create_keys [of te now "Some r16" r8 fault name s d "Inr (raw, v)" s' d']
    by (auto simp: tok_inv_def)
next
  case (tok_not_created sd L ok now r16 r8 fault name e sd')
  obtain s d s' d' where [simp]: "sd = (s, d)" "sd' = (s', d')" by fastforce
  show ?case using tok_not_created Create_keys [of te now r16 r8 fault name s d "Inl e" s' d']
    by (auto simp: tok_inv_def tok_keys_def)
next
  case (tok_deleted sd L ok fault i r sd')
  obtain s d s' d' where [simp]: "sd = (s, d)" "sd' = (s', d')" by fastforce
  note del = Delete_keys [of te fault i s d r s' d']
  show ?case
  proof (cases "i \<in> fst ` set (tok_keys s)")
    case True
    then show ?thesis using tok_deleted del by (auto simp: tok_inv_def filter_fst_map)
  next
    case False
    then have "i \<notin> fst ` set L" using tok_deleted.IH by (force simp: tok_inv_def)
    then have "filter (\<lambda>k. fst k \<noteq> i) L = L" by (force simp: filter_id_conv)
    then show ?thesis using False tok_deleted del by (auto simp: tok_inv_def)
  qed
next
  case (tok_matched sd L ok now fault raw b sd')
  obtain s d s' d' where [simp]: "sd = (s, d)" "sd' = (s', d')" by fastforce
  show ?case using tok_matched Match_keys [of te now fault raw s d b s' d'] by (auto simp: tok_inv_def)
qed

text \<open>C13 The board accepts exactly the tokens it handed out and has not deleted: whatever calls came
  before and whatever writes of the file failed, Match answers yes to a token of L and
  to no other whose hash collides with none of them.\<close>

theorem tokens_accepted_until_deleted:
  assumes "tok_run te path sd L ok" and "\<forall>r\<in>snd ` set L. tokenHash te r = tokenHash te raw \<longrightarrow> r = raw"
  shows "fst (tok_Match te now fault raw sd) \<longleftrightarrow> raw \<in> snd ` set L"
proof -
  obtain s d where [simp]: "sd = (s, d)" by fastforce
  obtain b s' d' where m: "tok_Match te now fault raw (s, d) = (b, s', d')" by (cases "tok_Match te now fault raw (s, d)") auto
  have inv: "tok_keys s = map (\<lambda>(i, r). (i, tokenHash te r)) L" "\<forall>(i, r)\<in>set L. length r = 32"
    using tok_run_inv [OF assms(1)] by (simp_all add: tok_inv_def)
  have "tokenHash te raw \<in> snd ` set (tok_keys s) \<longleftrightarrow> raw \<in> snd ` set L" unfolding inv(1) using assms(2) by force
  moreover have "raw \<in> snd ` set L \<Longrightarrow> raw \<noteq> []" using inv(2) by force
  ultimately show ?thesis using Match_keys [OF m] m by auto
qed

fun tokens_of :: "string list \<Rightarrow> token list" where
  "tokens_of (a # b # c # d # e # f # r) =
     \<lparr>tk_ID = a, tk_Name = b, tk_Hash = c, tk_Prefix = d, tk_CreatedAt = e, tk_LastUsedAt = f\<rparr> # tokens_of r"
| "tokens_of _ = []"

definition token_fields :: "token \<Rightarrow> string list" where
  "token_fields t = [tk_ID t, tk_Name t, tk_Hash t, tk_Prefix t, tk_CreatedAt t, tk_LastUsedAt t]"

definition demo_te :: token_env where
  "demo_te = \<lparr>te_sha = map (\<lambda>c. of_nat (ordc c)),
     te_marshal = (\<lambda>ts. concat (map esc (concat (map token_fields ts)))),
     te_unmarshal = (\<lambda>b. map_option tokens_of (unesc [] [] (butlast b)))\<rparr>"

lemma tokens_of_fields: "tokens_of (concat (map token_fields ts)) = ts"
  by (induction ts) (simp_all add: token_fields_def)

lemma demo_te_file: "te_unmarshal demo_te (te_marshal demo_te ts @ [c]) = Some ts"
  by (simp add: demo_te_def unesc_all tokens_of_fields)

definition demo_raw :: string where "demo_raw = hex_encode (replicate 16 7)"

definition demo_id :: string where "demo_id = hex_encode (replicate 8 9)"

definition demo_tokens :: "TokenStore \<times> disk" where
  "demo_tokens = snd (tok_Create demo_te ''t0'' (Some (replicate 16 7)) (Some (replicate 8 9)) None '' ci ''
     (\<lparr>ts_path = ''data/t'', ts_items = []\<rparr>, \<lambda>_. None))"

lemma demo_created:
  "tok_Create demo_te ''t0'' (Some (replicate 16 7)) (Some (replicate 8 9)) None '' ci ''
     (\<lparr>ts_path = ''data/t'', ts_items = []\<rparr>, \<lambda>_. None) =
   (Inr (demo_raw, \<lparr>tv_ID = demo_id, tv_Name = ''ci'', tv_Prefix = take 4 demo_raw, tv_CreatedAt = ''t0'', tv_LastUsedAt = []\<rparr>),
    demo_tokens)"
proof -
  have n: "trim_space '' ci '' = ''ci''" "rune_count ''ci'' = 2" by code_simp+
  show ?thesis
    by (simp add: demo_tokens_def tok_Create_def n Let_def randomHex_def demo_raw_def demo_id_def saveLocked_def writeAtomic_def)
qed

lemma demo_token_run: "tok_run demo_te ''data/t'' demo_tokens [(demo_id, demo_raw)] True"
proof -
  have "tok_run demo_te ''data/t'' (\<lparr>ts_path = ''data/t'', ts_items = []\<rparr>, \<lambda>_. None) [] True"
    by (rule tok_new) (simp_all add: NewTokenStore_def tok_load_def)
  from tok_created [OF this demo_created] show ?thesis by simp
qed

theorem tokens_accepted_until_deleted_witness:
  "fst (tok_Match demo_te ''t1'' None demo_raw demo_tokens)"
  using tokens_accepted_until_deleted [OF demo_token_run, of demo_raw "''t1''" None] by simp



text \<open>A deletion whose write fails answers with the error and the token is gone from memory, but
  the file still holds it: after a restart it is accepted again.\<close>

lemma unsaved_delete_revived:
  assumes "tok_run te path (s, d) L True" and "\<And>ts. te_unmarshal te (te_marshal te ts @ [CHR 0x0A]) = Some ts"
    and "(i, raw) \<in> set L" and "tok_Delete te (Some e) i (s, d) = (r, s', d')"
  shows "r = Inl (SaveFails e) \<and> i \<notin> fst ` set (tok_keys s') \<and>
    (\<exists>s2. NewTokenStore te path d' = Inr s2 \<and> fst (tok_Match te now None raw (s2, d')))"
proof -
  have inv: "ts_path s = path" "tok_keys s = map (\<lambda>(i, r). (i, tokenHash te r)) L" "\<forall>(i, r)\<in>set L. length r = 32"
    using tok_run_inv [OF assms(1)] by (simp_all add: tok_inv_def)
  have i: "i \<in> fst ` set (tok_keys s)" "tokenHash te raw \<in> snd ` set (tok_keys s)" unfolding inv(2) using assms(3) by force+
  note del = Delete_keys [OF assms(4)]
  have "d' path = d path" "tok_keys s' = filter (\<lambda>k. fst k \<noteq> i) (tok_keys s)" using del i inv(1) by simp_all
  moreover have "r = Inl (SaveFails e)"
    using assms(4) i(1)
    by (auto simp: tok_Delete_def Let_def saveLocked_def list_ex_iff tok_keys_def writeAtomic_def
        split: if_splits disk_fault.splits)
  moreover have "NewTokenStore te path d = Inr s"
    using tok_run_inv [OF assms(1)] assms(2) by (cases s) (auto simp: tok_inv_def NewTokenStore_def tok_load_def)
  then have "NewTokenStore te path d' = Inr s" using \<open>d' path = d path\<close> by (simp add: NewTokenStore_def tok_load_def)
  moreover have "fst (tok_Match te now None raw (s, d'))"
  proof -
    obtain b s1 d1 where m: "tok_Match te now None raw (s, d') = (b, s1, d1)" by (cases "tok_Match te now None raw (s, d')") auto
    have "raw \<noteq> []" using inv(3) assms(3) by force
    then show ?thesis using Match_keys [OF m] i(2) m by simp
  qed
  ultimately show ?thesis by auto
qed

lemma unsaved_delete_revived_witness:
  "fst (tok_Delete demo_te (Some RenameFails) demo_id demo_tokens) = Inl (SaveFails RenameFails)"
  using unsaved_delete_revived [OF _ demo_te_file, of "''data/t''" "fst demo_tokens" "snd demo_tokens" "[(demo_id, demo_raw)]"
      demo_id demo_raw RenameFails] demo_token_run by (metis list.set_intros(1) prod.collapse)

end
