(* ===== verification/Platform.thy ===== *)
theory Platform
  imports Sql
begin

text \<open>
  What the handlers of platform/server share: the Connect codes of their errors (err.go), the names
  that \<open>jobName\<close> of ops.go admits, lists written with commas.
\<close>

datatype connect_code = CodeInvalidArgument | CodeUnauthenticated | CodeNotFound | CodeInternal

type_synonym 'e api_err = "connect_code \<times> 'e"

definition invalid :: "'e \<Rightarrow> 'e api_err" where "invalid e = (CodeInvalidArgument, e)"
definition unauth :: "'e \<Rightarrow> 'e api_err" where "unauth e = (CodeUnauthenticated, e)"
definition notFound :: "'e \<Rightarrow> 'e api_err" where "notFound e = (CodeNotFound, e)"
definition internal :: "'e \<Rightarrow> 'e api_err" where "internal e = (CodeInternal, e)"

definition jobName :: "string \<Rightarrow> bool" where
  "jobName s \<longleftrightarrow> s \<noteq> [] \<and> list_all (\<lambda>c. alpha_digit c \<or> c \<in> set ''_-'') s"

text \<open>\<open>_, _ = db.Exec(...)\<close>: the outcome is not looked at.\<close>

definition ignoreS :: "('t, 'd, 'a) dbm \<Rightarrow> ('t, 'e, unit) dbm" where
  "ignoreS m s = (Inr (), snd (m s))"

definition parseCompose :: "string \<Rightarrow> string list" where
  "parseCompose s = filter (\<lambda>p. p \<noteq> []) (map trim_space (split_on CHR '','' s))"

text \<open>Lines of text.\<close>

definition ln :: "string \<Rightarrow> string" where "ln s = s @ [CHR 0x0A]"

definition unlines :: "string list \<Rightarrow> string" where "unlines ls = concat (map ln ls)"

lemma unlines_simps [simp]: "unlines [] = []" "unlines (l # ls) = ln l @ unlines ls"
  by (simp_all add: unlines_def)

end
