(* ===== verification/Tlb.thy ===== *)
theory Tlb
  imports Platform
begin

text \<open>
  platform/server/tlb.go: the sites and routes of the load balancer, kept in two tables, and the nginx
  configuration written from them. \<open>tlb_env\<close> holds the environment of the process: two variables, the
  directory of the certificates and which of them exist, \<open>strings.ToLower\<close> on non-ASCII strings, what
  the collation of the tables compares, and \<open>sort.Slice\<close>, which may order equal routes at will. The
  columns \<open>created_at\<close> are left out.
\<close>

datatype tlb_err =
    BadPath | BadTarget | BadSub | NoHost | BadHost | BadRouteName | NoSite string | NoRoute int
  | TlbDb sql_err | NothingToPublish | NoRoutes | NginxFails string

record tlbSite =
  si_ID :: int
  si_Name :: string
  si_Host :: string

record tlbRoute =
  ro_ID :: int
  ro_SiteID :: int
  ro_Name :: string
  ro_Path :: string
  ro_Target :: string

record tlb_env =
  te_zone :: string
  te_tls :: string
  te_live :: string
  te_cert :: "string \<Rightarrow> bool"
  te_lower :: "string \<Rightarrow> string"
  te_coll :: "string \<Rightarrow> string"
  te_sort :: "tlbRoute list \<Rightarrow> tlbRoute list"

section \<open>Checks\<close>

definition path_char :: "char \<Rightarrow> bool" where "path_char c \<longleftrightarrow> alpha_digit c \<or> c \<in> set ''._/-''"
definition target_char :: "char \<Rightarrow> bool" where "target_char c \<longleftrightarrow> alpha_digit c \<or> c \<in> set ''._-''"

definition tlbPath :: "string \<Rightarrow> bool" where
  "tlbPath p \<longleftrightarrow> (case p of [] \<Rightarrow> False | c # r \<Rightarrow> c = CHR ''/'' \<and> list_all path_char r)"

definition tlbTarget :: "string \<Rightarrow> bool" where
  "tlbTarget t \<longleftrightarrow>
     (case dropWhile target_char t of
        [] \<Rightarrow> False
      | c # port \<Rightarrow> takeWhile target_char t \<noteq> [] \<and> c = CHR '':'' \<and> port \<noteq> [] \<and> list_all is_digit_c port)"

definition tlbSub :: "string \<Rightarrow> bool" where
  "tlbSub s \<longleftrightarrow> s \<noteq> [] \<and> lower_digit (hd s) \<and> lower_digit (last s) \<and> list_all (\<lambda>c. lower_digit c \<or> c = CHR ''-'') s"

definition tlbHostName :: "string \<Rightarrow> bool" where
  "tlbHostName h \<longleftrightarrow>
     (let ls = split_on CHR ''.'' h in 2 \<le> length ls \<and> list_all (\<lambda>l. tlbSub l \<and> int (length l) \<le> 63) ls)"

definition checkTlbPath :: "string \<Rightarrow> tlb_err + string" where
  "checkTlbPath p0 =
     (let p1 = trim_space p0; p = (if p1 \<noteq> ''/'' then trim_right_set ''/'' p1 else p1) in
      if \<not> tlbPath p \<or> str_contains p ''//'' then Inl BadPath else Inr p)"

definition checkTlbTarget :: "string \<Rightarrow> tlb_err + string" where
  "checkTlbTarget t0 = (let t = trim_space t0 in if tlbTarget t then Inr t else Inl BadTarget)"

definition checkTlbSub :: "tlb_env \<Rightarrow> string \<Rightarrow> tlb_err + string" where
  "checkTlbSub e name0 = (let name = to_lower (te_lower e) (trim_space name0) in if tlbSub name then Inr name else Inl BadSub)"

definition tlbZoneDefault :: string where "tlbZoneDefault = ''ls-byte-basic.com''"

definition tlbZone :: "tlb_env \<Rightarrow> string" where
  "tlbZone e =
     (let z = trim_space (te_zone e); t = trim_space (te_tls e) in
      if z \<noteq> [] then to_lower (te_lower e) z else if t \<noteq> [] then to_lower (te_lower e) t else tlbZoneDefault)"

definition tlbHost :: "tlb_env \<Rightarrow> string \<Rightarrow> string" where
  "tlbHost e name = name @ ''.'' @ tlbZone e"

fun check_hosts :: "string list \<Rightarrow> tlb_err + string list" where
  "check_hosts [] = Inr []"
| "check_hosts (p0 # ps) =
     (let p = trim_suffix p0 ''.'' in
      if contains_any p ''/:@'' \<or> \<not> tlbHostName p then Inl BadHost
      else bindR (check_hosts ps) (\<lambda>out. Inr (p # out)))"

definition checkTlbHost :: "tlb_env \<Rightarrow> string \<Rightarrow> tlb_err + string" where
  "checkTlbHost e s0 =
     (let parts = str_fields (to_lower (te_lower e) (trim_space s0)) in
      if parts = [] then Inl NoHost
      else bindR (check_hosts parts) (\<lambda>out. Inr (str_join '' '' out)))"

definition tlbNameFromHost :: "string \<Rightarrow> string" where
  "tlbNameFromHost host0 =
     (let host = hd (str_fields host0) in
      case str_index host ''.'' of Some i \<Rightarrow> if 0 < i then take i host else host | None \<Rightarrow> host)"

definition tlbSiteFromInput :: "tlb_env \<Rightarrow> string \<Rightarrow> string \<Rightarrow> tlb_err + string \<times> string" where
  "tlbSiteFromInput e name0 host0 =
     (let name = trim_space name0; host = to_lower (te_lower e) (trim_space host0) in
      if host = [] then bindR (checkTlbSub e name) (\<lambda>n. Inr (n, tlbHost e n))
      else if \<not> str_contains host ''.'' then
        bindR (checkTlbSub e host) (\<lambda>sub.
        bindR (checkTlbSub e (if name = [] then sub else name)) (\<lambda>n. Inr (n, tlbHost e sub)))
      else
        bindR (checkTlbHost e host) (\<lambda>h.
        bindR (checkTlbSub e (if name = [] then tlbNameFromHost h else name)) (\<lambda>n. Inr (n, h))))"

definition tlbRouteName :: "string \<Rightarrow> string \<Rightarrow> tlb_err + string" where
  "tlbRouteName name0 path =
     (let t = trim_space name0; p = trim_set ''/'' path;
          name = (if t \<noteq> [] then t else if p = [] then ''root'' else p)
      in if jobName name then Inr name else Inl BadRouteName)"

section \<open>Tables\<close>

record tlb_tabs =
  tb_sites :: "tlbSite list"
  tb_routes :: "tlbRoute list"
  tb_nextSite :: int
  tb_nextRoute :: int

definition tlb_migrate :: tlb_tabs where
  "tlb_migrate = \<lparr>tb_sites = [], tb_routes = [], tb_nextSite = 1, tb_nextRoute = 1\<rparr>"

definition fits :: "nat \<Rightarrow> string \<Rightarrow> bool" where "fits n s \<longleftrightarrow> int (rune_count s) \<le> int n"

definition ins_site :: "tlb_env \<Rightarrow> string \<Rightarrow> string \<Rightarrow> (tlb_tabs, sql_err, int) dbm" where
  "ins_site e name host = stmt (\<lambda>t.
     if \<not> fits 64 name \<or> \<not> fits 255 host then Inl DataTooLong
     else if list_ex (\<lambda>s. te_coll e (si_Name s) = te_coll e name \<or> te_coll e (si_Host s) = te_coll e host) (tb_sites t)
     then Inl Duplicate
     else Inr (tb_nextSite t, t\<lparr>tb_nextSite := tb_nextSite t + 1,
       tb_sites := tb_sites t @ [\<lparr>si_ID = tb_nextSite t, si_Name = name, si_Host = host\<rparr>]\<rparr>))"

definition upd_site_host :: "tlb_env \<Rightarrow> int \<Rightarrow> string \<Rightarrow> (tlb_tabs, sql_err, unit) dbm" where
  "upd_site_host e i host = stmt (\<lambda>t.
     if \<not> fits 255 host then Inl DataTooLong
     else if list_ex (\<lambda>s. si_ID s \<noteq> i \<and> te_coll e (si_Host s) = te_coll e host) (tb_sites t) then Inl Duplicate
     else Inr ((), t\<lparr>tb_sites := map (\<lambda>s. if si_ID s = i then s\<lparr>si_Host := host\<rparr> else s) (tb_sites t)\<rparr>))"

definition same_place :: "tlb_env \<Rightarrow> tlbRoute \<Rightarrow> tlbRoute \<Rightarrow> bool" where
  "same_place e r q \<longleftrightarrow> ro_SiteID r = ro_SiteID q \<and> te_coll e (ro_Path r) = te_coll e (ro_Path q)"

definition ins_route :: "tlb_env \<Rightarrow> int \<Rightarrow> string \<Rightarrow> string \<Rightarrow> string \<Rightarrow> (tlb_tabs, sql_err, int) dbm" where
  "ins_route e site name path target = stmt (\<lambda>t.
     let r = \<lparr>ro_ID = tb_nextRoute t, ro_SiteID = site, ro_Name = name, ro_Path = path, ro_Target = target\<rparr> in
     if \<not> fits 64 name \<or> \<not> fits 255 path \<or> \<not> fits 255 target then Inl DataTooLong
     else if list_ex (same_place e r) (tb_routes t) then Inl Duplicate
     else Inr (tb_nextRoute t, t\<lparr>tb_nextRoute := tb_nextRoute t + 1, tb_routes := tb_routes t @ [r]\<rparr>))"

text \<open>An UPDATE of the routes with \<open>P\<close>: how many have changed. The key (site, path) stays unique or
  nothing is changed.\<close>

definition upd_routes :: "tlb_env \<Rightarrow> (tlbRoute \<Rightarrow> bool) \<Rightarrow> (tlbRoute \<Rightarrow> tlbRoute) \<Rightarrow> (tlb_tabs, sql_err, int) dbm" where
  "upd_routes e P f = stmt (\<lambda>t.
     let rs = map (\<lambda>r. if P r then f r else r) (tb_routes t) in
     if list_ex (\<lambda>r. \<not> fits 64 (ro_Name r) \<or> \<not> fits 255 (ro_Path r) \<or> \<not> fits 255 (ro_Target r)) rs then Inl DataTooLong
     else if \<not> distinct (map (\<lambda>r. (ro_SiteID r, te_coll e (ro_Path r))) rs) then Inl Duplicate
     else Inr (int (length (filter (\<lambda>r. P r \<and> f r \<noteq> r) (tb_routes t))), t\<lparr>tb_routes := rs\<rparr>))"

definition del_routes :: "(tlbRoute \<Rightarrow> bool) \<Rightarrow> (tlb_tabs, sql_err, int) dbm" where
  "del_routes P = stmt (\<lambda>t. Inr (int (length (filter P (tb_routes t))), t\<lparr>tb_routes := filter (\<lambda>r. \<not> P r) (tb_routes t)\<rparr>))"

definition del_site :: "int \<Rightarrow> (tlb_tabs, sql_err, unit) dbm" where
  "del_site i = execS (\<lambda>t. t\<lparr>tb_sites := filter (\<lambda>s. si_ID s \<noteq> i) (tb_sites t)\<rparr>)"

type_synonym 'a tdb = "(tlb_tabs, tlb_err api_err, 'a) dbm"

section \<open>Seeds\<close>

definition named :: "tlb_env \<Rightarrow> string \<Rightarrow> tlbRoute \<Rightarrow> bool" where "named e n r \<longleftrightarrow> te_coll e (ro_Name r) = te_coll e n"

definition text_in :: "tlb_env \<Rightarrow> string \<Rightarrow> string list \<Rightarrow> bool" where
  "text_in e s xs \<longleftrightarrow> te_coll e s \<in> set (map (te_coll e) xs)"

definition migrateTlbMinikite :: "tlb_env \<Rightarrow> (tlb_tabs, sql_err, unit) dbm" where
  "migrateTlbMinikite e =
     bindS (ignoreS (upd_routes e (\<lambda>r. named e ''platform-api'' r \<and> text_in e (ro_Path r) [''/api'', ''/minikite/api''])
                       (\<lambda>r. r\<lparr>ro_Path := ''/minikitex/api''\<rparr>))) (\<lambda>_.
     bindS (ignoreS (upd_routes e (\<lambda>r. named e ''platform-connect'' r \<and>
                          text_in e (ro_Path r) [''/platform.v1.PlatformService'', ''/minikite/platform.v1.PlatformService''])
                       (\<lambda>r. r\<lparr>ro_Path := ''/minikitex/platform.v1.PlatformService''\<rparr>))) (\<lambda>_.
     bindS (ignoreS (upd_routes e (\<lambda>r. named e ''platform-web'' r \<and> text_in e (ro_Path r) [''/'', ''/minikite''])
                       (\<lambda>r. r\<lparr>ro_Path := ''/minikitex''\<rparr>))) (\<lambda>_.
     ignoreS (upd_routes e (\<lambda>r. named e ''platform-web'' r \<and> text_in e (ro_Target r) [''platform:8081'', ''platform:80''])
                (\<lambda>r. r\<lparr>ro_Target := ''platform-web:80''\<rparr>)))))"

text \<open>\<open>INSERT IGNORE\<close>: a duplicate is no error.\<close>

definition seed_route :: "tlb_env \<Rightarrow> int \<Rightarrow> string \<Rightarrow> string \<Rightarrow> string \<Rightarrow> (tlb_tabs, sql_err, unit) dbm" where
  "seed_route e console name path target = ignoreS (ins_route e console name path target)"

definition seedTlbHome :: "tlb_env \<Rightarrow> int \<Rightarrow> (tlb_tabs, sql_err, unit) dbm" where
  "seedTlbHome e console =
     bindS (seed_route e console ''home-api'' ''/api'' ''home:80'') (\<lambda>_.
     bindS (seed_route e console ''home-connect'' ''/home.v1.HomeService'' ''home:80'') (\<lambda>_.
     bindS (seed_route e console ''home-web'' ''/'' ''home-web:80'') (\<lambda>_.
     ignoreS (upd_routes e (\<lambda>r. (named e ''home-api'' r \<or> named e ''home-connect'' r) \<and> text_in e (ro_Target r) [''home:8082''])
                (\<lambda>r. r\<lparr>ro_Target := ''home:80''\<rparr>)))))"

definition seedTlbBoard :: "tlb_env \<Rightarrow> int \<Rightarrow> (tlb_tabs, sql_err, unit) dbm" where
  "seedTlbBoard e console = seed_route e console ''board'' ''/board'' ''board:8090''"

definition seedTlbCommonStatic :: "tlb_env \<Rightarrow> int \<Rightarrow> (tlb_tabs, sql_err, unit) dbm" where
  "seedTlbCommonStatic e console =
     bindS (seed_route e console ''common-static'' ''/common-static'' ''common-static:8092'') (\<lambda>_.
     ignoreS (upd_routes e (\<lambda>r. named e ''common-static'' r \<and> text_in e (ro_Target r) [''agent:80''])
                (\<lambda>r. r\<lparr>ro_Target := ''common-static:8092''\<rparr>)))"

definition seed_routes :: "(string \<times> string \<times> string) list" where
  "seed_routes =
     [(''platform-api'', ''/minikitex/api'', ''platform:8081''),
      (''platform-connect'', ''/minikitex/platform.v1.PlatformService'', ''platform:8081''),
      (''order'', ''/order'', ''order:8080''),
      (''platform-web'', ''/minikitex'', ''platform-web:80''),
      (''home-api'', ''/api'', ''home:80''),
      (''home-connect'', ''/home.v1.HomeService'', ''home:80''),
      (''home-web'', ''/'', ''home-web:80'')]"

fun ins_seeds :: "tlb_env \<Rightarrow> int \<Rightarrow> (string \<times> string \<times> string) list \<Rightarrow> (tlb_tabs, sql_err, unit) dbm" where
  "ins_seeds e console [] = retS ()"
| "ins_seeds e console ((name, path, target) # rs) =
     bindS (ins_route e console name path target) (\<lambda>_. ins_seeds e console rs)"

definition late_seeds :: "tlb_env \<Rightarrow> int \<Rightarrow> (tlb_tabs, sql_err, unit) dbm" where
  "late_seeds e console =
     bindS (migrateTlbMinikite e) (\<lambda>_. bindS (seedTlbHome e console) (\<lambda>_.
     bindS (seedTlbBoard e console) (\<lambda>_. seedTlbCommonStatic e console)))"

definition console_host :: "tlb_env \<Rightarrow> string" where
  "console_host e = (let t = trim_space (te_tls e) in if t \<noteq> [] then to_lower (te_lower e) t else tlbHost e ''console'')"

definition console_id :: "tlb_env \<Rightarrow> (tlb_tabs, sql_err, int) dbm" where
  "console_id e =
     catchS (queryRow (\<lambda>t. map si_ID (filter (\<lambda>s. te_coll e (si_Name s) = te_coll e ''console'') (tb_sites t))))
       (\<lambda>_. queryRow (\<lambda>t. map si_ID (sort_key si_ID (tb_sites t))))"

definition seedTlb :: "tlb_env \<Rightarrow> (tlb_tabs, sql_err, unit) dbm" where
  "seedTlb e =
     bindS (query (\<lambda>t. length (tb_sites t))) (\<lambda>n.
     bindS (if n = 0 then ins_site e ''console'' (console_host e) else retS 0) (\<lambda>_.
     bindS (console_id e) (\<lambda>console.
     bindS (upd_routes e (\<lambda>r. ro_SiteID r = 0) (\<lambda>r. r\<lparr>ro_SiteID := console\<rparr>)) (\<lambda>_.
     bindS (query (\<lambda>t. length (tb_routes t))) (\<lambda>n.
       if 0 < n then
         bindS (seed_route e console ''platform-connect'' ''/minikitex/platform.v1.PlatformService'' ''platform:8081'') (\<lambda>_.
         late_seeds e console)
       else bindS (ins_seeds e console seed_routes) (\<lambda>_. late_seeds e console))))))"

section \<open>Sites and routes\<close>

definition getTlbSite :: "tlb_env \<Rightarrow> string \<Rightarrow> (tlb_tabs, tlb_err, tlbSite) dbm" where
  "getTlbSite e name =
     orElse (queryRow (\<lambda>t. filter (\<lambda>s. te_coll e (si_Name s) = te_coll e name) (tb_sites t))) (\<lambda>_. NoSite name)"

definition onDb :: "(tlb_err \<Rightarrow> tlb_err api_err) \<Rightarrow> (tlb_tabs, sql_err, 'a) dbm \<Rightarrow> 'a tdb" where
  "onDb conv m = orElse m (\<lambda>e. conv (TlbDb e))"

record site_view =
  sv_site :: tlbSite
  sv_Routes :: int

definition count_routes :: "int \<Rightarrow> tlb_tabs \<Rightarrow> int" where
  "count_routes i t = int (length (filter (\<lambda>r. ro_SiteID r = i) (tb_routes t)))"

definition ListTlbSites :: "tlb_env \<Rightarrow> (site_view list \<times> string) tdb" where
  "ListTlbSites e =
     bindS (onDb internal (query (\<lambda>t. map (\<lambda>s. \<lparr>sv_site = s, sv_Routes = count_routes (si_ID s) t\<rparr>) (sort_key si_ID (tb_sites t)))))
       (\<lambda>sites. retS (sites, tlbZone e))"

definition ShowTlbSite :: "tlb_env \<Rightarrow> string \<Rightarrow> (tlbSite \<times> tlbRoute list \<times> string) tdb" where
  "ShowTlbSite e name =
     bindS (orElse (getTlbSite e name) notFound) (\<lambda>st.
     bindS (onDb internal (query (\<lambda>t. sort_key (\<lambda>r. - int (rune_count (ro_Path r)))
               (sort_key ro_ID (filter (\<lambda>r. ro_SiteID r = si_ID st) (tb_routes t)))))) (\<lambda>routes.
     retS (st, routes, tlbZone e)))"

definition CreateTlbSite :: "tlb_env \<Rightarrow> string \<Rightarrow> string \<Rightarrow> tlbSite tdb" where
  "CreateTlbSite e name0 host0 =
     bindS (liftS (case tlbSiteFromInput e name0 host0 of Inl x \<Rightarrow> Inl (invalid x) | Inr y \<Rightarrow> Inr y)) (\<lambda>(name, host).
     bindS (onDb invalid (ins_site e name host)) (\<lambda>i.
     retS \<lparr>si_ID = i, si_Name = name, si_Host = host\<rparr>))"

definition UpdateTlbSite :: "tlb_env \<Rightarrow> string \<Rightarrow> string \<Rightarrow> site_view tdb" where
  "UpdateTlbSite e name host0 =
     bindS (orElse (getTlbSite e name) notFound) (\<lambda>st.
       if trim_space host0 = [] then failS (invalid NoHost)
       else bindS (liftS (case tlbSiteFromInput e (si_Name st) host0 of Inl x \<Rightarrow> Inl (invalid x) | Inr y \<Rightarrow> Inr y)) (\<lambda>(_, host).
         bindS (onDb invalid (upd_site_host e (si_ID st) host)) (\<lambda>_.
         bindS (catchS (query (count_routes (si_ID st))) (\<lambda>_. retS 0)) (\<lambda>n.
         retS \<lparr>sv_site = st\<lparr>si_Host := host\<rparr>, sv_Routes = n\<rparr>))))"

definition DeleteTlbSite :: "tlb_env \<Rightarrow> string \<Rightarrow> string tdb" where
  "DeleteTlbSite e name =
     bindS (orElse (getTlbSite e name) notFound) (\<lambda>st.
     bindS (onDb internal (del_routes (\<lambda>r. ro_SiteID r = si_ID st))) (\<lambda>_.
     bindS (onDb internal (del_site (si_ID st))) (\<lambda>_.
     retS (si_Name st))))"

definition check_route :: "string \<Rightarrow> string \<Rightarrow> string \<Rightarrow> tlb_err api_err + string \<times> string \<times> string" where
  "check_route name0 path0 target0 =
     (case bindR (checkTlbPath path0) (\<lambda>path. bindR (checkTlbTarget target0) (\<lambda>target.
             bindR (tlbRouteName name0 path) (\<lambda>name. Inr (name, path, target)))) of
        Inl x \<Rightarrow> Inl (invalid x) | Inr y \<Rightarrow> Inr y)"

definition CreateTlbRoute :: "tlb_env \<Rightarrow> string \<Rightarrow> string \<Rightarrow> string \<Rightarrow> string \<Rightarrow> tlbRoute tdb" where
  "CreateTlbRoute e site name0 path0 target0 =
     bindS (orElse (getTlbSite e site) notFound) (\<lambda>st.
     bindS (liftS (check_route name0 path0 target0)) (\<lambda>(name, path, target).
     bindS (onDb invalid (ins_route e (si_ID st) name path target)) (\<lambda>i.
     retS \<lparr>ro_ID = i, ro_SiteID = si_ID st, ro_Name = name, ro_Path = path, ro_Target = target\<rparr>)))"

definition UpdateTlbRoute :: "tlb_env \<Rightarrow> string \<Rightarrow> int \<Rightarrow> string \<Rightarrow> string \<Rightarrow> string \<Rightarrow> tlbRoute tdb" where
  "UpdateTlbRoute e site i name0 path0 target0 =
     bindS (orElse (getTlbSite e site) notFound) (\<lambda>st.
     bindS (liftS (check_route name0 path0 target0)) (\<lambda>(name, path, target).
     bindS (onDb invalid (upd_routes e (\<lambda>r. ro_ID r = i \<and> ro_SiteID r = si_ID st)
                            (\<lambda>r. r\<lparr>ro_Name := name, ro_Path := path, ro_Target := target\<rparr>))) (\<lambda>n.
       if n = 0 then failS (notFound (NoRoute i))
       else retS \<lparr>ro_ID = i, ro_SiteID = si_ID st, ro_Name = name, ro_Path = path, ro_Target = target\<rparr>)))"

definition DeleteTlbRoute :: "tlb_env \<Rightarrow> string \<Rightarrow> int \<Rightarrow> int tdb" where
  "DeleteTlbRoute e site i =
     bindS (orElse (getTlbSite e site) notFound) (\<lambda>st.
     bindS (onDb internal (del_routes (\<lambda>r. ro_ID r = i \<and> ro_SiteID r = si_ID st))) (\<lambda>n.
       if n = 0 then failS (notFound (NoRoute i)) else retS i))"

end
