(* ===== verification/TlbConf.thy ===== *)
theory TlbConf
  imports Tlb "HOL-Library.List_Lexorder"
begin

text \<open>
  The nginx configuration of platform/server/tlb.go (\<open>loadTlb\<close>, \<open>renderTlbNginx\<close>, \<open>PublishTlb\<close>), and
  the upstreams it offers, from the output of docker compose and the deployed apps. The JSON decoder is
  a parameter; of a number it gives the integer part and how \<open>fmt.Sprint\<close> writes it.
\<close>

section \<open>Loading\<close>

record tlbSiteFull =
  sf_site :: tlbSite
  sf_routes :: "tlbRoute list"

definition loadTlb :: "(tlb_tabs, sql_err, tlbSiteFull list) dbm" where
  "loadTlb =
     bindS (query (\<lambda>t. sort_key si_ID (tb_sites t))) (\<lambda>sites.
     bindS (query tb_routes) (\<lambda>routes.
     retS (map (\<lambda>s. \<lparr>sf_site = s, sf_routes = filter (\<lambda>r. ro_SiteID r = si_ID s) routes\<rparr>) sites)))"

section \<open>Rendering\<close>

definition tlbTLSDir :: "tlb_env \<Rightarrow> string" where
  "tlbTLSDir e = (let name = trim_space (te_tls e) in if name = [] then [] else te_live e @ ''/'' @ name)"

text \<open>\<open>te_cert dir\<close>: the file fullchain.pem exists in \<open>dir\<close>.\<close>

definition tlbTLSOn :: "tlb_env \<Rightarrow> bool" where
  "tlbTLSOn e = (let dir = tlbTLSDir e in dir \<noteq> [] \<and> te_cert e dir)"

definition tlbSiteTLSDir :: "tlb_env \<Rightarrow> string \<Rightarrow> string" where
  "tlbSiteTLSDir e host =
     (case str_fields host of
        [] \<Rightarrow> tlbTLSDir e
      | f # _ \<Rightarrow>
          (let h = to_lower (te_lower e) (trim_suffix f ''.''); dir = te_live e @ ''/'' @ h in
           if h \<noteq> [] \<and> h \<noteq> ''_'' \<and> \<not> contains_any h (''/*'' @ [CHR 0x5C]) \<and> \<not> str_contains h ''..'' \<and> te_cert e dir
           then dir else tlbTLSDir e))"

text \<open>\<open>regexp.QuoteMeta\<close>.\<close>

definition quoteMeta :: "string \<Rightarrow> string" where
  "quoteMeta s = concat (map (\<lambda>c. if c \<in> set (''.+*?()|[]{}^$'' @ [CHR 0x5C]) then [CHR 0x5C, c] else [c]) s)"

definition tlbStrip :: "string \<Rightarrow> string" where
  "tlbStrip path0 =
     (let path = trim_right_set ''/'' path0 in
      if path = [] then []
      else [CHR 0x0A] @ ''            rewrite ^'' @ quoteMeta path @ ''/?(.*)$ /$1 break;'')"

definition conf_head :: string where
  "conf_head = unlines
     [''worker_processes auto;'', ''error_log /dev/stderr warn;'', ''pid /run/nginx/nginx.pid;'',
      ''events {'', ''    worker_connections 1024;'', ''}'',
      ''http {'', ''    include /etc/nginx/mime.types;'', ''    default_type application/octet-stream;'',
      ''    sendfile on;'', ''    resolver 127.0.0.11 valid=10s ipv6=off;'']"

definition conf_redirect :: string where
  "conf_redirect = unlines
     [[], ''    server {'', ''        listen 80 default_server;'', ''        server_name _;'',
      ''        location /.well-known/acme-challenge/ {'', ''            root /acme;'', ''        }'',
      ''        location / {'', ''            return 301 https://$host$request_uri;'', ''        }'', ''    }'']"

definition conf_listen :: "bool \<Rightarrow> bool \<Rightarrow> string" where
  "conf_listen tls first =
     (if tls then (if first then ''listen 443 ssl default_server;'' else ''listen 443 ssl;'')
      else (if first then ''listen 80 default_server;'' else ''listen 80;''))"

definition conf_site_head :: "tlb_env \<Rightarrow> bool \<Rightarrow> string \<Rightarrow> string" where
  "conf_site_head e first host =
     unlines [[], ''    server {'',
       ''        '' @ conf_listen (tlbTLSOn e) first @ (if tlbTLSOn e then [CHR 0x0A] @ ''        http2 on;'' else []),
       ''        server_name '' @ host @ '';'', ''        client_max_body_size 32m;''] @
     (if tlbTLSOn e
      then (let dir = tlbSiteTLSDir e host in unlines
        [''        ssl_certificate '' @ dir @ ''/fullchain.pem;'', ''        ssl_certificate_key '' @ dir @ ''/privkey.pem;'',
         ''        ssl_protocols TLSv1.2 TLSv1.3;''])
      else unlines
        [''        location /.well-known/acme-challenge/ {'', ''            root /acme;'', ''        }''])"

definition conf_route :: "tlbRoute \<Rightarrow> string" where
  "conf_route r = unlines
     [[], ''        location '' @ ro_Path r @ '' {'',
      ''            set $tlb_upstream '' @ ro_Target r @ '';'' @ tlbStrip (ro_Path r),
      ''            proxy_pass http://$tlb_upstream;'', ''            proxy_http_version 1.1;'',
      ''            proxy_set_header Host $http_host;'',
      ''            proxy_set_header X-Forwarded-For $proxy_add_x_forwarded_for;'',
      ''            proxy_set_header X-Forwarded-Proto $scheme;'', ''            proxy_buffering off;'',
      ''            proxy_read_timeout 3600s;'', ''        }'']"

text \<open>A site without routes gets no server, but it counts as the first one.\<close>

definition conf_site :: "tlb_env \<Rightarrow> bool \<Rightarrow> tlbSiteFull \<Rightarrow> string" where
  "conf_site e first st =
     (if sf_routes st = [] then []
      else conf_site_head e first (si_Host (sf_site st)) @
           concat (map conf_route (te_sort e (sf_routes st))) @ ln ''    }'')"

definition renderTlbNginx :: "tlb_env \<Rightarrow> tlbSiteFull list \<Rightarrow> string" where
  "renderTlbNginx e sites =
     conf_head @ (if tlbTLSOn e then conf_redirect else []) @
     concat (map (\<lambda>(i, st). conf_site e (i = 0) st) (enumerate 0 sites)) @ ln ''}''"

record publish_resp =
  pb_Sites :: int
  pb_Routes :: int

text \<open>\<open>nginx\<close> is the command that tests the configuration and loads it; the last component of the
  answer is the configuration handed to it.\<close>

definition PublishTlb :: "tlb_env \<Rightarrow> (string \<Rightarrow> string option) \<Rightarrow> (publish_resp \<times> string) tdb" where
  "PublishTlb e nginx =
     bindS (onDb internal loadTlb) (\<lambda>sites.
       let n = length (concat (map sf_routes sites)); conf = renderTlbNginx e sites in
       if sites = [] then failS (invalid NothingToPublish)
       else if n = 0 then failS (invalid NoRoutes)
       else (case nginx conf of
               Some out \<Rightarrow> failS (internal (NginxFails out))
             | None \<Rightarrow> retS (\<lparr>pb_Sites = int (length sites), pb_Routes = int n\<rparr>, conf)))"

section \<open>Ports of compose services\<close>

datatype json =
    JNull
  | JBool bool
  | JNum int string
  | JStr string
  | JArr "json list"
  | JObj "(string \<times> json) list"

text \<open>\<open>fmt.Sprint\<close> of what is no string or number is the parameter \<open>sp\<close>.\<close>

definition sprint :: "(json \<Rightarrow> string) \<Rightarrow> json \<Rightarrow> string" where
  "sprint sp v = (case v of JStr s \<Rightarrow> s | JNum _ s \<Rightarrow> s | _ \<Rightarrow> sp v)"

definition member :: "json \<Rightarrow> string \<Rightarrow> json" where
  "member v k = (case v of JObj m \<Rightarrow> (case map_of m k of Some x \<Rightarrow> x | None \<Rightarrow> JNull) | _ \<Rightarrow> JNull)"

definition hostPort :: "string \<Rightarrow> string" where
  "hostPort s0 =
     (let s1 = trim_suffix (trim_suffix (trim_space s0) ''/tcp'') ''/udp'';
          s = (case last_index s1 CHR '':'' of Some i \<Rightarrow> drop (i + 1) s1 | None \<Rightarrow> s1)
      in if s = [] then []
         else (case go_atoi s of (n, ok) \<Rightarrow> if \<not> ok \<or> n \<le> 0 \<or> 65535 < n then [] else go_itoa n))"

definition jsonPort :: "(json \<Rightarrow> string) \<Rightarrow> json \<Rightarrow> string" where
  "jsonPort sp v =
     (case v of JNum i _ \<Rightarrow> go_itoa i | JStr s \<Rightarrow> s | JNull \<Rightarrow> [] | _ \<Rightarrow> sp v)"

definition envMap :: "(json \<Rightarrow> string) \<Rightarrow> json \<Rightarrow> (string \<times> string) list" where
  "envMap sp v =
     (case v of
        JObj m \<Rightarrow> map (\<lambda>(k, x). (k, sprint sp x)) (filter (\<lambda>(k, x). x \<noteq> JNull) m)
      | JArr xs \<Rightarrow> fold (\<lambda>x m. case str_cut (case x of JStr s \<Rightarrow> s | _ \<Rightarrow> []) ''='' of
                            (k, val, ok) \<Rightarrow> if ok then al_put k val m else m) xs []
      | _ \<Rightarrow> [])"

definition env_get :: "(string \<times> string) list \<Rightarrow> string \<Rightarrow> string" where
  "env_get m k = (case map_of m k of Some v \<Rightarrow> v | None \<Rightarrow> [])"

definition add_port :: "string \<Rightarrow> string \<Rightarrow> string list \<Rightarrow> string list" where
  "add_port skip p0 out =
     (let p = hostPort p0 in if p = [] \<or> p = skip \<or> p \<in> set out then out else out @ [p])"

definition arr :: "json \<Rightarrow> json list" where "arr v = (case v of JArr xs \<Rightarrow> xs | _ \<Rightarrow> [])"

definition serviceListenPorts :: "(json \<Rightarrow> string) \<Rightarrow> json \<Rightarrow> string list" where
  "serviceListenPorts sp svc =
     (case svc of
        JObj _ \<Rightarrow>
          (let env = envMap sp (member svc ''environment'');
               skip = hostPort (env_get env ''METRICS'');
               out1 = add_port skip (env_get env ''LISTEN'') [];
               out2 = fold (\<lambda>x. add_port skip (sprint sp x)) (arr (member svc ''expose'')) out1
           in fold (\<lambda>x. case x of JObj _ \<Rightarrow> add_port skip (jsonPort sp (member x ''target''))
                                 | _ \<Rightarrow> add_port skip (sprint sp x)) (arr (member svc ''ports'')) out2)
      | _ \<Rightarrow> [])"

definition composeServicePorts :: "(json \<Rightarrow> string) \<Rightarrow> json option \<Rightarrow> (string \<times> string list) list" where
  "composeServicePorts sp cfg =
     (case cfg of
        None \<Rightarrow> []
      | Some v \<Rightarrow>
          (case member v ''services'' of
             JObj svcs \<Rightarrow> filter (\<lambda>(_, ps). ps \<noteq> []) (map (\<lambda>(n, svc). (n, serviceListenPorts sp svc)) svcs)
           | _ \<Rightarrow> []))"

section \<open>Upstreams\<close>

definition tlbSkipSvc :: "string list" where
  "tlbSkipSvc = [''tlb'', ''mysql'', ''consul'', ''etcd'', ''jaeger'', ''loki'', ''promtail'', ''prometheus'',
     ''grafana'', ''adminer'', ''gateway'']"

definition tlbListenPort :: "string \<Rightarrow> string" where
  "tlbListenPort name =
     (if name = ''platform'' then ''8081'' else if name = ''order'' then ''8080''
      else if name = ''etcdui'' then ''2381'' else ''80'')"

definition add_name :: "string \<Rightarrow> string list \<Rightarrow> string list" where
  "add_name n0 names =
     (let n = trim_space n0 in
      if n = [] \<or> n \<in> set tlbSkipSvc \<or> has_prefix n ''user-'' \<or> n \<in> set names then names else names @ [n])"

record upstream =
  up_Name :: string
  up_Target :: string

text \<open>
  \<open>cfg\<close> is the outcome of \<open>compose config\<close> in JSON (None: the command failed) and \<open>svcs\<close> that of
  \<open>compose config --services\<close>; \<open>apps\<close> are the compose columns of the apps, if they can be read.
\<close>

definition upstream_names ::
  "(json \<Rightarrow> string) \<Rightarrow> json option option \<Rightarrow> string option \<Rightarrow> string list option \<Rightarrow> string list" where
  "upstream_names sp cfg svcs apps =
     (let n1 = fold add_name [''platform'', ''platform-web'', ''home'', ''home-web'', ''order''] [];
          n2 = (case cfg of
                  Some v \<Rightarrow> fold add_name (map fst (composeServicePorts sp v)) n1
                | None \<Rightarrow> (case svcs of Some out \<Rightarrow> fold add_name (split_on CHR 0x0A out) n1 | None \<Rightarrow> n1))
      in case apps of None \<Rightarrow> n2 | Some cs \<Rightarrow> fold add_name (concat (map parseCompose cs)) n2)"

definition upstream_ports :: "(json \<Rightarrow> string) \<Rightarrow> json option option \<Rightarrow> string \<Rightarrow> string list" where
  "upstream_ports sp cfg n =
     (let ports = (case cfg of Some v \<Rightarrow> composeServicePorts sp v | None \<Rightarrow> []);
          ps0 = (case map_of ports n of Some ps \<Rightarrow> ps | None \<Rightarrow> [])
      in if ps0 = [] then [tlbListenPort n] else ps0)"

definition ListTlbUpstreams ::
  "(json \<Rightarrow> string) \<Rightarrow> json option option \<Rightarrow> string option \<Rightarrow> string list option \<Rightarrow> upstream list" where
  "ListTlbUpstreams sp cfg svcs apps =
     concat (map (\<lambda>n. map (\<lambda>p. \<lparr>up_Name = n, up_Target = n @ '':'' @ p\<rparr>) (upstream_ports sp cfg n))
       (sort_key (map ordc) (upstream_names sp cfg svcs apps)))"

end
