(* ===== verification/Triples.thy ===== *)
theory Triples
  imports Platform
begin

text \<open>
  Hoare triples for the calls of \<open>Sql\<close>: what holds of the tables after a call that may fail at any
  of its statements, one rule per construct.
\<close>

text \<open>From tables with \<open>P\<close> the call ends in tables with \<open>Q x\<close> and the result \<open>x\<close>, or in tables with \<open>E\<close>
  and an error, whatever statements fail.\<close>

definition validS :: "('t \<Rightarrow> bool) \<Rightarrow> ('t, 'e, 'a) dbm \<Rightarrow> ('a \<Rightarrow> 't \<Rightarrow> bool) \<Rightarrow> ('t \<Rightarrow> bool) \<Rightarrow> bool" where
  "validS P m Q E \<longleftrightarrow>
     (\<forall>s. P (db_tab s) \<longrightarrow> (case m s of (Inl e, s') \<Rightarrow> E (db_tab s') | (Inr x, s') \<Rightarrow> Q x (db_tab s')))"

named_theorems vrules

lemma validSI:
  assumes "\<And>s e s'. P (db_tab s) \<Longrightarrow> m s = (Inl e, s') \<Longrightarrow> E (db_tab s')"
    and "\<And>s x s'. P (db_tab s) \<Longrightarrow> m s = (Inr x, s') \<Longrightarrow> Q x (db_tab s')"
  shows "validS P m Q E"
  using assms by (auto simp: validS_def split: prod.splits sum.splits)

lemma validSD:
  assumes "validS P m Q E" and "P (db_tab s)"
  shows "m s = (Inl e, s') \<Longrightarrow> E (db_tab s')" and "m s = (Inr x, s') \<Longrightarrow> Q x (db_tab s')"
  using assms(1) [unfolded validS_def, rule_format, OF assms(2)] by simp_all

lemma valid_bind [vrules]:
  assumes m: "validS P m R E" and f: "\<And>x. validS (R x) (f x) Q E"
  shows "validS P (bindS m f) Q E"
proof (rule validSI)
  fix s e s' assume "P (db_tab s)" "bindS m f s = (Inl e, s')"
  then show "E (db_tab s')"
    using validSD [OF m] validSD [OF f] by (auto simp: bindS_def split: prod.splits sum.splits) blast
next
  fix s x s' assume "P (db_tab s)" "bindS m f s = (Inr x, s')"
  then show "Q x (db_tab s')"
    using validSD [OF m] validSD [OF f] by (auto simp: bindS_def split: prod.splits sum.splits) blast
qed

lemma valid_catch [vrules]:
  assumes m: "validS P m Q R" and h: "\<And>e. validS R (h e) Q E"
  shows "validS P (catchS m h) Q E"
proof (rule validSI)
  fix s e s' assume "P (db_tab s)" "catchS m h s = (Inl e, s')"
  then show "E (db_tab s')"
    using validSD [OF m] validSD [OF h] by (auto simp: catchS_def split: prod.splits sum.splits) blast
next
  fix s x s' assume "P (db_tab s)" "catchS m h s = (Inr x, s')"
  then show "Q x (db_tab s')"
    using validSD [OF m] validSD [OF h] by (auto simp: catchS_def split: prod.splits sum.splits) blast
qed

lemma valid_basic:
  "(\<And>t. P t \<Longrightarrow> Q x t) \<Longrightarrow> validS P (retS x) Q E"
  "(\<And>t. P t \<Longrightarrow> E t) \<Longrightarrow> validS P (failS e) Q E"
  "(\<And>t x. P t \<Longrightarrow> r = Inr x \<Longrightarrow> Q x t) \<Longrightarrow> (\<And>t. P t \<Longrightarrow> E t) \<Longrightarrow> validS P (liftS r) Q E"
  by (auto simp: validS_def retS_def failS_def liftS_def split: sum.splits)

lemma valid_orElse [vrules]: "validS P m Q E \<Longrightarrow> validS P (orElse m h) Q E"
  unfolding orElse_def by (rule valid_catch) (auto intro: valid_basic)

lemma valid_stmt:
  "(\<And>t x t'. P t \<Longrightarrow> f t = Inr (x, t') \<Longrightarrow> Q x t') \<Longrightarrow> (\<And>t. P t \<Longrightarrow> E t) \<Longrightarrow> validS P (stmt f) Q E"
  by (auto simp: validS_def stmt_def Let_def split: list.splits option.splits sum.splits prod.splits)

lemma valid_query: "(\<And>t. P t \<Longrightarrow> Q (f t) t) \<Longrightarrow> (\<And>t. P t \<Longrightarrow> E t) \<Longrightarrow> validS P (query f) Q E"
  unfolding query_def by (rule valid_stmt) auto

lemma valid_queryRow: "(\<And>t x. P t \<Longrightarrow> x \<in> set (f t) \<Longrightarrow> Q x t) \<Longrightarrow> (\<And>t. P t \<Longrightarrow> E t) \<Longrightarrow> validS P (queryRow f) Q E"
  unfolding queryRow_def by (rule valid_stmt) (auto split: list.splits)

lemma valid_exec: "(\<And>t. P t \<Longrightarrow> Q () (f t)) \<Longrightarrow> (\<And>t. P t \<Longrightarrow> E t) \<Longrightarrow> validS P (execS f) Q E"
  unfolding execS_def by (rule valid_stmt) auto

lemma valid_ignore:
  assumes m: "validS P m (\<lambda>_. Q) Q"
  shows "validS P (ignoreS m) (\<lambda>_. Q) E"
proof (rule validSI)
  fix s x s' assume "P (db_tab s)" "ignoreS m s = (Inr x, s')"
  then show "Q (db_tab s')" using validSD [OF m] by (cases "m s"; cases "fst (m s)") (auto simp: ignoreS_def)
qed (simp add: ignoreS_def)

text \<open>A transaction keeps what held at its start unless its body and its commit succeed.\<close>

lemma valid_transaction:
  assumes "validS P body Q (\<lambda>_. True)"
  shows "validS P (transaction conv body) Q P"
proof (rule validSI)
  fix s e s' assume "P (db_tab s)" "transaction conv body s = (Inl e, s')"
  then show "P (db_tab s')" using transaction_atomic by metis
next
  fix s x s' assume p: "P (db_tab s)" and t: "transaction conv body s = (Inr x, s')"
  then obtain s1 s2 where s1: "stmt (\<lambda>t. Inr ((), t)) s = (Inr (), s1)" "body s1 = (Inr x, s2)" "stmt (\<lambda>t. Inr ((), t)) s2 = (Inr (), s')"
    by (auto simp: transaction_def split: prod.splits sum.splits)
  have "db_tab s1 = db_tab s" "db_tab s' = db_tab s2"
    using s1(1,3) by (auto simp: stmt_def Let_def split: list.splits option.splits)
  then show "Q x (db_tab s')" using validSD(2) [OF assms, of s1] p s1(2) by simp
qed

lemma valid_weaken: "validS P' m Q' E' \<Longrightarrow> (\<And>t. P t \<Longrightarrow> P' t) \<Longrightarrow> (\<And>x t. Q' x t \<Longrightarrow> Q x t) \<Longrightarrow> (\<And>t. E' t \<Longrightarrow> E t) \<Longrightarrow> validS P m Q E"
  by (fastforce simp: validS_def split: prod.splits sum.splits)

lemma valid_case_prod: "(\<And>a b. validS P (f a b) Q E) \<Longrightarrow> validS P (case x of (a, b) \<Rightarrow> f a b) Q E"
  by (cases x) simp

lemma valid_at: "(\<And>t1. P t1 \<Longrightarrow> validS (\<lambda>t. t = t1) m Q E) \<Longrightarrow> validS P m Q E"
  by (simp add: validS_def)

lemma valid_pre: "(B \<Longrightarrow> validS P m Q E) \<Longrightarrow> validS (\<lambda>t. P t \<and> B) m Q E"
  by (auto simp: validS_def)

lemma validS_snd: "validS P m (\<lambda>_. E) E \<Longrightarrow> P (db_tab d) \<Longrightarrow> E (db_tab (snd (m d)))"
  unfolding validS_def by (cases "m d"; cases "fst (m d)") force+

lemmas valid_steps = valid_bind valid_catch valid_orElse

end
