(* ===== verification/TlbOk.thy ===== *)
theory TlbOk
  imports Tlb Triples "HOL-Library.Multiset"
begin

text \<open>
  The tables of the load balancer stay well-formed under the seeds and all calls of
  platform/server/tlb.go, on a database that may fail at any statement.
\<close>

section \<open>Well-formed tables\<close>

definition conf_char :: "char \<Rightarrow> bool" where "conf_char c \<longleftrightarrow> alpha_digit c \<or> c \<in> set ''._-/: ''"

definition conf_text :: "string \<Rightarrow> bool" where "conf_text s \<longleftrightarrow> list_all conf_char s"

lemma conf_text_simps [simp]: "conf_text []" "conf_text (s @ t) \<longleftrightarrow> conf_text s \<and> conf_text t"
  by (simp_all add: conf_text_def)

lemma conf_text_Cons: "conf_text (c # s) \<longleftrightarrow> conf_char c \<and> conf_text s"
  by (simp add: conf_text_def)

text \<open>What the process is given: variables and a directory of such characters, a sort that permutes.\<close>

definition tlb_env_ok :: "tlb_env \<Rightarrow> bool" where
  "tlb_env_ok e \<longleftrightarrow> conf_text (trim_space (te_zone e)) \<and> conf_text (trim_space (te_tls e)) \<and> conf_text (te_live e) \<and>
     (\<forall>rs. mset (te_sort e rs) = mset rs)"

lemma conf_char_ascii: "conf_char c \<Longrightarrow> is_ascii_c c"
  by (auto simp: conf_char_def alpha_digit_def is_lower_c_def is_upper_c_def is_digit_c_def is_ascii_c_def ordc_def)

lemma conf_char_lower: "conf_char c \<Longrightarrow> conf_char (lower_c c)"
proof (cases "is_upper_c c")
  case True
  then have "is_lower_c (lower_c c)" by (simp add: lower_c_def is_upper_c_def is_lower_c_def)
  then show ?thesis by (simp add: conf_char_def alpha_digit_def)
qed (simp add: lower_c_def)

lemma conf_text_lower: "conf_text s \<Longrightarrow> conf_text (to_lower u s)"
  using conf_char_ascii conf_char_lower by (auto simp: to_lower_def conf_text_def is_ascii_def list_all_iff)

lemma lower_Nil [simp]: "conf_text s \<Longrightarrow> to_lower u s = [] \<longleftrightarrow> s = []"
  using conf_char_ascii by (auto simp: to_lower_def conf_text_def is_ascii_def list_all_iff)

lemma tlbZone_conf: "tlb_env_ok e \<Longrightarrow> conf_text (tlbZone e)"
proof -
  have "conf_text tlbZoneDefault" by code_simp
  then show "tlb_env_ok e \<Longrightarrow> conf_text (tlbZone e)" by (auto simp: tlb_env_ok_def tlbZone_def Let_def conf_text_lower)
qed

definition host_ok :: "string \<Rightarrow> bool" where "host_ok h \<longleftrightarrow> h \<noteq> [] \<and> conf_text h"

definition tlb_inv :: "tlb_env \<Rightarrow> tlb_tabs \<Rightarrow> bool" where
  "tlb_inv e t \<longleftrightarrow>
     distinct (map si_ID (tb_sites t)) \<and> distinct (map (\<lambda>s. te_coll e (si_Name s)) (tb_sites t)) \<and>
     distinct (map (\<lambda>s. te_coll e (si_Host s)) (tb_sites t)) \<and>
     (\<forall>s\<in>set (tb_sites t). si_ID s < tb_nextSite t \<and> host_ok (si_Host s)) \<and>
     distinct (map ro_ID (tb_routes t)) \<and> distinct (map (\<lambda>r. (ro_SiteID r, te_coll e (ro_Path r))) (tb_routes t)) \<and>
     (\<forall>r\<in>set (tb_routes t). ro_ID r < tb_nextRoute t \<and> tlbPath (ro_Path r) \<and> tlbTarget (ro_Target r) \<and>
        ro_SiteID r \<in> si_ID ` set (tb_sites t))"

section \<open>What the checks let through\<close>

lemma conf_chars [simp]:
  "path_char c \<Longrightarrow> conf_char c" "target_char c \<Longrightarrow> conf_char c" "is_digit_c c \<Longrightarrow> conf_char c" "lower_digit c \<Longrightarrow> conf_char c"
  by (auto simp: path_char_def target_char_def conf_char_def alpha_digit_def lower_digit_def)

lemma conf_marks [simp]:
  "conf_char CHR ''/''" "conf_char CHR '':''" "conf_char CHR ''-''" "conf_char CHR ''.''" "conf_char CHR '' ''"
  by (simp_all add: conf_char_def)

lemma conf_text_all: "list_all P s \<Longrightarrow> (\<And>c. P c \<Longrightarrow> conf_char c) \<Longrightarrow> conf_text s"
  by (auto simp: conf_text_def list_all_iff)

lemma conf_text_join: "conf_text sep \<Longrightarrow> list_all conf_text xs \<Longrightarrow> conf_text (str_join sep xs)"
  by (induction sep xs rule: str_join.induct) auto

lemma checkTlbPath_ok: "checkTlbPath p0 = Inr p \<Longrightarrow> conf_text p \<and> tlbPath p"
  by (auto simp: checkTlbPath_def Let_def tlbPath_def conf_text_Cons intro: conf_text_all split: if_splits list.splits)

lemma tlbTarget_conf: "tlbTarget t \<Longrightarrow> conf_text t"
proof -
  assume t: "tlbTarget t"
  then obtain port where port: "dropWhile target_char t = CHR '':'' # port" "list_all is_digit_c port"
    by (auto simp: tlbTarget_def split: list.splits)
  have "conf_text (takeWhile target_char t)" using set_takeWhileD by (fastforce simp: conf_text_def list_all_iff)
  moreover have "conf_text (dropWhile target_char t)" using port by (auto simp: conf_text_Cons intro: conf_text_all)
  ultimately show ?thesis by (metis conf_text_simps(2) takeWhile_dropWhile_id)
qed

lemma checkTlbTarget_ok: "checkTlbTarget t0 = Inr t \<Longrightarrow> conf_text t \<and> tlbTarget t"
  using tlbTarget_conf by (auto simp: checkTlbTarget_def Let_def split: if_splits)

lemma tlbSub_conf: "tlbSub s \<Longrightarrow> conf_text s"
  unfolding tlbSub_def by (auto intro!: conf_text_all [of "\<lambda>c. lower_digit c \<or> c = CHR ''-''"])

lemma checkTlbSub_ok: "checkTlbSub e n0 = Inr n \<Longrightarrow> tlbSub n"
  by (auto simp: checkTlbSub_def Let_def split: if_splits)

lemma tlbHostName_conf: "tlbHostName h \<Longrightarrow> conf_text h"
proof -
  assume "tlbHostName h"
  then have "list_all conf_text (split_on CHR ''.'' h)"
    using tlbSub_conf by (auto simp: tlbHostName_def Let_def list_all_iff)
  then have "conf_text (str_join ''.'' (split_on CHR ''.'' h))" by (intro conf_text_join) (simp_all add: conf_text_Cons)
  then show ?thesis by (simp add: join_split_on)
qed

lemma host_names_join: "list_all tlbHostName hs \<Longrightarrow> hs \<noteq> [] \<Longrightarrow> str_join '' '' hs \<noteq> []"
proof (induction "'' ''" hs rule: str_join.induct)
  case (2 x)
  then show ?case by (auto simp: tlbHostName_def)
qed auto

lemma check_hosts_ok: "check_hosts ps = Inr out \<Longrightarrow> list_all tlbHostName out \<and> length out = length ps"
  by (induction ps arbitrary: out) (auto simp: Let_def bindR_def split: if_splits sum.splits)

lemma checkTlbHost_ok: "checkTlbHost e h0 = Inr h \<Longrightarrow> host_ok h \<and> (\<exists>hs. hs \<noteq> [] \<and> list_all tlbHostName hs \<and> h = str_join '' '' hs)"
proof -
  assume "checkTlbHost e h0 = Inr h"
  then obtain out where out: "check_hosts (str_fields (to_lower (te_lower e) (trim_space h0))) = Inr out" "h = str_join '' '' out"
    "str_fields (to_lower (te_lower e) (trim_space h0)) \<noteq> []"
    by (auto simp: checkTlbHost_def Let_def bindR_def split: if_splits sum.splits)
  note ok = check_hosts_ok [OF out(1)]
  then have "list_all conf_text out" using tlbHostName_conf by (auto simp: list_all_iff)
  then have "conf_text h" unfolding out(2) by (intro conf_text_join) (simp_all add: conf_text_Cons)
  moreover have "out \<noteq> []" using ok out(3) by (metis length_0_conv)
  moreover have "h \<noteq> []" unfolding out(2) using host_names_join ok calculation(2) by blast
  ultimately show ?thesis using ok out by (intro conjI exI [of _ out]) (auto simp: host_ok_def)
qed

lemma tlbHost_conf: "tlb_env_ok e \<Longrightarrow> tlbSub n \<Longrightarrow> host_ok (tlbHost e n)"
  by (simp add: host_ok_def tlbHost_def tlbSub_conf tlbZone_conf conf_text_Cons)

lemma tlbSiteFromInput_ok:
  "tlb_env_ok e \<Longrightarrow> tlbSiteFromInput e n0 h0 = Inr (n, h) \<Longrightarrow> tlbSub n \<and> host_ok h"
  by (auto simp: tlbSiteFromInput_def Let_def bindR_def tlbHost_conf split: if_splits sum.splits
      dest!: checkTlbSub_ok checkTlbHost_ok)

lemma check_route_ok: "check_route n0 p0 t0 = Inr (n, p, t) \<Longrightarrow> tlbPath p \<and> tlbTarget t"
  by (auto simp: check_route_def bindR_def split: sum.splits dest: checkTlbPath_ok checkTlbTarget_ok)

section \<open>Statements on well-formed tables\<close>

lemma ins_site_valid:
  "host_ok host \<Longrightarrow> validS (tlb_inv e) (ins_site e name host) (\<lambda>_. tlb_inv e) (tlb_inv e)"
  unfolding ins_site_def
  by (rule valid_stmt) (fastforce simp: tlb_inv_def list_ex_iff split: if_splits)+

lemma tlb_inv_sites:
  assumes "tlb_inv e t" and "map si_ID ss = map si_ID (tb_sites t)"
    and "map (\<lambda>s. te_coll e (si_Name s)) ss = map (\<lambda>s. te_coll e (si_Name s)) (tb_sites t)"
    and "distinct (map (\<lambda>s. te_coll e (si_Host s)) ss)"
    and "\<forall>s\<in>set ss. si_ID s < tb_nextSite t \<and> host_ok (si_Host s)"
  shows "tlb_inv e (t\<lparr>tb_sites := ss\<rparr>)"
proof -
  have "si_ID ` set ss = si_ID ` set (tb_sites t)" using assms(2) by (metis list.set_map)
  then show ?thesis using assms by (simp add: tlb_inv_def)
qed

lemma upd_site_host_valid:
  assumes "host_ok host"
  shows "validS (tlb_inv e) (upd_site_host e i host) (\<lambda>_. tlb_inv e) (tlb_inv e)"
  unfolding upd_site_host_def
proof (rule valid_stmt)
  fix t x t' assume inv: "tlb_inv e t"
    and f: "(if \<not> fits 255 host then Inl DataTooLong
     else if list_ex (\<lambda>s. si_ID s \<noteq> i \<and> te_coll e (si_Host s) = te_coll e host) (tb_sites t) then Inl Duplicate
     else Inr ((), t\<lparr>tb_sites := map (\<lambda>s. if si_ID s = i then s\<lparr>si_Host := host\<rparr> else s) (tb_sites t)\<rparr>)) = Inr (x, t')"
  let ?g = "\<lambda>s. if si_ID s = i then s\<lparr>si_Host := host\<rparr> else s"
  have free: "\<And>s. s \<in> set (tb_sites t) \<Longrightarrow> si_ID s \<noteq> i \<Longrightarrow> te_coll e (si_Host s) \<noteq> te_coll e host"
    and t': "t' = t\<lparr>tb_sites := map ?g (tb_sites t)\<rparr>"
    using f by (auto simp: list_ex_iff split: if_splits)
  have g: "si_ID (?g s) = si_ID s" "si_Name (?g s) = si_Name s" for s by simp_all
  have m: "map si_ID (map ?g ss) = map si_ID ss" "map (\<lambda>s. te_coll e (si_Name s)) (map ?g ss) = map (\<lambda>s. te_coll e (si_Name s)) ss" for ss by (simp_all add: comp_def)
  have hosts: "distinct (map (\<lambda>s. te_coll e (si_Host s)) (map ?g (tb_sites t)))"
  proof -
    have "distinct (map si_ID (tb_sites t))" "distinct (map (\<lambda>s. te_coll e (si_Host s)) (tb_sites t))" using inv by (simp_all add: tlb_inv_def)
    then show ?thesis using free by (auto simp: distinct_map inj_on_def comp_def) metis+
  qed
  have "\<forall>s\<in>set (map ?g (tb_sites t)). si_ID s < tb_nextSite t \<and> host_ok (si_Host s)"
    using inv assms by (auto simp: tlb_inv_def)
  then show "tlb_inv e t'" unfolding t' by (rule tlb_inv_sites [OF inv m(1) m(2) hosts])
qed

lemma ins_route_valid:
  assumes "tlbPath path" and "tlbTarget target"
  shows "validS (\<lambda>t. tlb_inv e t \<and> site \<in> si_ID ` set (tb_sites t)) (ins_route e site name path target)
    (\<lambda>_ t. tlb_inv e t \<and> site \<in> si_ID ` set (tb_sites t)) (\<lambda>t. tlb_inv e t \<and> site \<in> si_ID ` set (tb_sites t))"
  unfolding ins_route_def
  by (rule valid_stmt)
    (use assms in \<open>fastforce simp: tlb_inv_def list_ex_iff same_place_def Let_def split: if_splits\<close>)+

lemma tlb_inv_routes:
  assumes "tlb_inv e t" and "distinct (map ro_ID rs)" and "distinct (map (\<lambda>r. (ro_SiteID r, te_coll e (ro_Path r))) rs)"
    and "\<And>r. r \<in> set rs \<Longrightarrow> ro_ID r < tb_nextRoute t \<and> tlbPath (ro_Path r) \<and> tlbTarget (ro_Target r) \<and>
        ro_SiteID r \<in> si_ID ` set (tb_sites t)"
  shows "tlb_inv e (t\<lparr>tb_routes := rs\<rparr>)"
  using assms by (simp add: tlb_inv_def)

lemma upd_routes_valid:
  assumes id: "\<And>r. ro_ID (f r) = ro_ID r"
    and ok: "\<And>t r. Q t \<Longrightarrow> tlb_inv e t \<Longrightarrow> r \<in> set (tb_routes t) \<Longrightarrow> P r \<Longrightarrow>
      tlbPath (ro_Path (f r)) \<and> tlbTarget (ro_Target (f r)) \<and> ro_SiteID (f r) \<in> si_ID ` set (tb_sites t)"
    and Q: "\<And>t rs. Q t \<Longrightarrow> Q (t\<lparr>tb_routes := rs\<rparr>)"
  shows "validS (\<lambda>t. tlb_inv e t \<and> Q t) (upd_routes e P f) (\<lambda>_ t. tlb_inv e t \<and> Q t) (\<lambda>t. tlb_inv e t \<and> Q t)"
  unfolding upd_routes_def
proof (rule valid_stmt)
  fix t x t' assume inv: "tlb_inv e t \<and> Q t"
    and f: "(let rs = map (\<lambda>r. if P r then f r else r) (tb_routes t) in
     if list_ex (\<lambda>r. \<not> fits 64 (ro_Name r) \<or> \<not> fits 255 (ro_Path r) \<or> \<not> fits 255 (ro_Target r)) rs then Inl DataTooLong
     else if \<not> distinct (map (\<lambda>r. (ro_SiteID r, te_coll e (ro_Path r))) rs) then Inl Duplicate
     else Inr (int (length (filter (\<lambda>r. P r \<and> f r \<noteq> r) (tb_routes t))), t\<lparr>tb_routes := rs\<rparr>)) = Inr (x, t')"
  let ?rs = "map (\<lambda>r. if P r then f r else r) (tb_routes t)"
  have t': "t' = t\<lparr>tb_routes := ?rs\<rparr>" and d: "distinct (map (\<lambda>r. (ro_SiteID r, te_coll e (ro_Path r))) ?rs)"
    using f by (auto simp: Let_def split: if_splits)
  have "map ro_ID ?rs = map ro_ID (tb_routes t)" using id by simp
  then have ids: "distinct (map ro_ID ?rs)" using inv by (simp only: tlb_inv_def)
  have "tlb_inv e (t\<lparr>tb_routes := ?rs\<rparr>)"
  proof (rule tlb_inv_routes [OF conjunct1 [OF inv] ids d])
    fix r assume "r \<in> set ?rs"
    then obtain q where q: "q \<in> set (tb_routes t)" "r = (if P q then f q else q)" by auto
    show "ro_ID r < tb_nextRoute t \<and> tlbPath (ro_Path r) \<and> tlbTarget (ro_Target r) \<and> ro_SiteID r \<in> si_ID ` set (tb_sites t)"
    proof (cases "P q")
      case True
      then show ?thesis using ok [of t q] inv q id [of q] by (simp add: tlb_inv_def)
    next
      case False
      then show ?thesis using inv q by (simp add: tlb_inv_def)
    qed
  qed
  then show "tlb_inv e t' \<and> Q t'" using inv Q unfolding t' by simp
qed

lemma del_routes_valid:
  assumes "\<And>t rs. Q t \<Longrightarrow> Q (t\<lparr>tb_routes := rs\<rparr>)"
  shows "validS (\<lambda>t. tlb_inv e t \<and> Q t) (del_routes P) (\<lambda>_ t. tlb_inv e t \<and> Q t \<and> (\<forall>r\<in>set (tb_routes t). \<not> P r)) (tlb_inv e)"
  unfolding del_routes_def
  by (rule valid_stmt) (auto simp: tlb_inv_def distinct_map_filter assms)

lemma del_site_valid:
  "validS (\<lambda>t. tlb_inv e t \<and> (\<forall>r\<in>set (tb_routes t). ro_SiteID r \<noteq> i)) (del_site i) (\<lambda>_. tlb_inv e) (tlb_inv e)"
  unfolding del_site_def
  by (rule valid_exec) (fastforce simp: tlb_inv_def distinct_map_filter)+

section \<open>Seeds\<close>

definition has_site :: "int \<Rightarrow> tlb_tabs \<Rightarrow> bool" where "has_site i t \<longleftrightarrow> i \<in> si_ID ` set (tb_sites t)"

lemma has_site_routes [simp]: "has_site i (t\<lparr>tb_routes := rs\<rparr>) = has_site i t"
  by (simp add: has_site_def)

abbreviation seeded :: "tlb_env \<Rightarrow> int \<Rightarrow> tlb_tabs \<Rightarrow> bool" where
  "seeded e i \<equiv> \<lambda>t. tlb_inv e t \<and> has_site i t"

lemma seed_route_valid:
  "tlbPath path \<Longrightarrow> tlbTarget target \<Longrightarrow> validS (seeded e i) (seed_route e i name path target) (\<lambda>_. seeded e i) (tlb_inv e)"
  unfolding seed_route_def has_site_def by (rule valid_ignore) (rule ins_route_valid)

lemma fix_route_valid:
  assumes "\<And>r. ro_ID (f r) = ro_ID r \<and> ro_SiteID (f r) = ro_SiteID r"
    and "\<And>r. (ro_Path (f r) = ro_Path r \<or> tlbPath (ro_Path (f r))) \<and> (ro_Target (f r) = ro_Target r \<or> tlbTarget (ro_Target (f r)))"
  shows "validS (seeded e i) (ignoreS (upd_routes e P f)) (\<lambda>_. seeded e i) (tlb_inv e)"
proof (rule valid_ignore, rule upd_routes_valid)
  show "ro_ID (f r) = ro_ID r" for r using assms(1) by simp
  show "tlbPath (ro_Path (f r)) \<and> tlbTarget (ro_Target (f r)) \<and> ro_SiteID (f r) \<in> si_ID ` set (tb_sites t)"
    if "tlb_inv e t" "r \<in> set (tb_routes t)" for t r
    using that assms(1) [of r] assms(2) [of r] unfolding tlb_inv_def by metis
qed simp

lemma seed_texts [simp]:
  "tlbPath ''/minikitex/api''" "tlbPath ''/minikitex/platform.v1.PlatformService''" "tlbPath ''/minikitex''"
  "tlbTarget ''platform-web:80''" "tlbTarget ''platform:8081''" "tlbPath ''/order''" "tlbTarget ''order:8080''"
  "tlbPath ''/api''" "tlbTarget ''home:80''" "tlbPath ''/home.v1.HomeService''" "tlbPath ''/''" "tlbTarget ''home-web:80''"
  "tlbPath ''/board''" "tlbTarget ''board:8090''" "tlbPath ''/common-static''" "tlbTarget ''common-static:8092''"
  by code_simp+

lemma migrate_valid: "validS (seeded e i) (migrateTlbMinikite e) (\<lambda>_. seeded e i) (tlb_inv e)"
  unfolding migrateTlbMinikite_def by (rule valid_bind fix_route_valid | simp)+

lemma seedTlbHome_valid: "validS (seeded e i) (seedTlbHome e i) (\<lambda>_. seeded e i) (tlb_inv e)"
  unfolding seedTlbHome_def
  by (rule valid_bind seed_route_valid fix_route_valid seed_texts | simp)+

lemma seedTlbBoard_valid: "validS (seeded e i) (seedTlbBoard e i) (\<lambda>_. seeded e i) (tlb_inv e)"
  unfolding seedTlbBoard_def by (rule seed_route_valid seed_texts)+

lemma seedTlbCommonStatic_valid: "validS (seeded e i) (seedTlbCommonStatic e i) (\<lambda>_. seeded e i) (tlb_inv e)"
  unfolding seedTlbCommonStatic_def
  by (rule valid_bind seed_route_valid fix_route_valid seed_texts | simp)+

lemma late_seeds_valid: "validS (seeded e i) (late_seeds e i) (\<lambda>_. seeded e i) (tlb_inv e)"
  unfolding late_seeds_def
  by (rule valid_bind migrate_valid seedTlbHome_valid seedTlbBoard_valid seedTlbCommonStatic_valid)+

lemma ins_seeds_valid:
  "list_all (\<lambda>(_, p, tg). tlbPath p \<and> tlbTarget tg) rs \<Longrightarrow> validS (seeded e i) (ins_seeds e i rs) (\<lambda>_. seeded e i) (tlb_inv e)"
proof (induction rs)
  case Nil
  then show ?case by (auto intro: valid_basic(1))
next
  case (Cons x rs)
  obtain n p tg where x: "x = (n, p, tg)" by (cases x) auto
  have "validS (seeded e i) (ins_route e i n p tg) (\<lambda>_. seeded e i) (tlb_inv e)"
    using Cons.prems x by (intro valid_weaken [OF ins_route_valid]) (auto simp: has_site_def)
  then show ?case using Cons x by (simp, intro valid_bind) auto
qed

lemma seed_routes_conf: "list_all (\<lambda>(_, p, tg). tlbPath p \<and> tlbTarget tg) seed_routes"
  by code_simp

lemma console_sub: "tlbSub ''console''" by code_simp

lemma console_host_conf: "tlb_env_ok e \<Longrightarrow> host_ok (console_host e)"
  using tlbHost_conf [of e "''console''"] console_sub
  by (auto simp: console_host_def host_ok_def Let_def tlb_env_ok_def conf_text_lower)

lemma console_id_valid: "validS (tlb_inv e) (console_id e) (seeded e) (tlb_inv e)"
  unfolding console_id_def by (rule valid_catch [where R = "tlb_inv e"]; rule valid_queryRow) (auto simp: has_site_def)

lemma seedTlb_valid:
  assumes "tlb_env_ok e"
  shows "validS (tlb_inv e) (seedTlb e) (\<lambda>_. tlb_inv e) (tlb_inv e)"
  unfolding seedTlb_def
proof (rule valid_bind)
  show "validS (tlb_inv e) (query (\<lambda>t. length (tb_sites t))) (\<lambda>_. tlb_inv e) (tlb_inv e)" by (rule valid_query)
next
  fix n
  let ?rest = "\<lambda>console. bindS (upd_routes e (\<lambda>r. ro_SiteID r = 0) (\<lambda>r. r\<lparr>ro_SiteID := console\<rparr>)) (\<lambda>_.
     bindS (query (\<lambda>t. length (tb_routes t))) (\<lambda>n.
       if 0 < n then
         bindS (seed_route e console ''platform-connect'' ''/minikitex/platform.v1.PlatformService'' ''platform:8081'') (\<lambda>_.
         late_seeds e console)
       else bindS (ins_seeds e console seed_routes) (\<lambda>_. late_seeds e console)))"
  have first: "validS (tlb_inv e) (if n = 0 then ins_site e ''console'' (console_host e) else retS 0) (\<lambda>_. tlb_inv e) (tlb_inv e)"
    using ins_site_valid [OF console_host_conf [OF assms]] by (auto intro: valid_basic(1))
  have late: "validS (seeded e c) (late_seeds e c) (\<lambda>_. tlb_inv e) (tlb_inv e)" for c
    by (rule valid_weaken [OF late_seeds_valid]) auto
  have fill: "validS (seeded e c) (ins_seeds e c seed_routes) (\<lambda>_. seeded e c) (tlb_inv e)" for c
    by (rule ins_seeds_valid [OF seed_routes_conf])
  have own: "validS (seeded e c) (upd_routes e (\<lambda>r. ro_SiteID r = 0) (\<lambda>r. r\<lparr>ro_SiteID := c\<rparr>)) (\<lambda>_. seeded e c) (tlb_inv e)" for c
    by (rule valid_weaken [OF upd_routes_valid [where Q = "has_site c"]]) (auto simp: tlb_inv_def has_site_def)
  have rest: "validS (seeded e c) (?rest c) (\<lambda>_. tlb_inv e) (tlb_inv e)" for c
  proof (rule valid_bind [OF own], rule valid_bind [where R = "\<lambda>_. seeded e c"])
    show "validS (seeded e c) (query (\<lambda>t. length (tb_routes t))) (\<lambda>_. seeded e c) (tlb_inv e)" by (rule valid_query) auto
    fix n :: nat
    show "validS (seeded e c) (if 0 < n then
         bindS (seed_route e c ''platform-connect'' ''/minikitex/platform.v1.PlatformService'' ''platform:8081'') (\<lambda>_. late_seeds e c)
       else bindS (ins_seeds e c seed_routes) (\<lambda>_. late_seeds e c)) (\<lambda>_. tlb_inv e) (tlb_inv e)"
      using valid_bind [OF seed_route_valid late] valid_bind [OF fill late] by simp
  qed
  show "validS (tlb_inv e) (bindS (if n = 0 then ins_site e ''console'' (console_host e) else retS 0) (\<lambda>_.
     bindS (console_id e) ?rest)) (\<lambda>_. tlb_inv e) (tlb_inv e)"
    by (rule valid_bind [OF first], rule valid_bind [OF console_id_valid rest])
qed

section \<open>Calls\<close>

datatype tlb_op =
    SeedTlb
  | CreateSite string string
  | UpdateSite string string
  | DeleteSite string
  | CreateRoute string string string string
  | UpdateRoute string int string string string
  | DeleteRoute string int

fun tlb_exec :: "tlb_env \<Rightarrow> tlb_op \<Rightarrow> tlb_tabs db \<Rightarrow> tlb_tabs db" where
  "tlb_exec e SeedTlb d = snd (seedTlb e d)"
| "tlb_exec e (CreateSite n h) d = snd (CreateTlbSite e n h d)"
| "tlb_exec e (UpdateSite n h) d = snd (UpdateTlbSite e n h d)"
| "tlb_exec e (DeleteSite n) d = snd (DeleteTlbSite e n d)"
| "tlb_exec e (CreateRoute s n p tg) d = snd (CreateTlbRoute e s n p tg d)"
| "tlb_exec e (UpdateRoute s i n p tg) d = snd (UpdateTlbRoute e s i n p tg d)"
| "tlb_exec e (DeleteRoute s i) d = snd (DeleteTlbRoute e s i d)"

text \<open>The tables after any calls, with a database that may fail at any statement of each.\<close>

inductive tlb_reach :: "tlb_env \<Rightarrow> tlb_tabs \<Rightarrow> bool" for e where
  tlb_start: "tlb_reach e tlb_migrate"
| tlb_call: "tlb_reach e t \<Longrightarrow> tlb_reach e (db_tab (tlb_exec e op \<lparr>db_tab = t, db_faults = faults\<rparr>))"

lemma onDb_valid: "validS P m Q E \<Longrightarrow> validS P (onDb conv m) Q E"
  unfolding onDb_def by (rule valid_orElse)

lemma onDb_pre: "(B \<Longrightarrow> validS P m Q E) \<Longrightarrow> validS (\<lambda>t. P t \<and> B) (onDb conv m) Q E"
  by (rule valid_pre) (rule onDb_valid)

lemma get_site_valid:
  "validS (tlb_inv e) (orElse (getTlbSite e n) notFound) (\<lambda>st. seeded e (si_ID st)) (tlb_inv e)"
  unfolding getTlbSite_def by (intro valid_orElse valid_queryRow) (auto simp: has_site_def)

lemma CreateTlbSite_valid:
  assumes "tlb_env_ok e"
  shows "validS (tlb_inv e) (CreateTlbSite e n h) (\<lambda>_. tlb_inv e) (tlb_inv e)"
  unfolding CreateTlbSite_def
proof (rule valid_bind [where R = "\<lambda>x t. tlb_inv e t \<and> host_ok (snd x)"])
  show "validS (tlb_inv e) (liftS (case tlbSiteFromInput e n h of Inl x \<Rightarrow> Inl (invalid x) | Inr y \<Rightarrow> Inr y))
    (\<lambda>x t. tlb_inv e t \<and> host_ok (snd x)) (tlb_inv e)"
    by (rule valid_basic(3)) (auto split: sum.splits dest: tlbSiteFromInput_ok [OF assms])
next
  fix x :: "string \<times> string"
  obtain n' h' where x: "x = (n', h')" by (cases x) auto
  have "validS (\<lambda>t. tlb_inv e t \<and> host_ok h') (onDb invalid (ins_site e n' h')) (\<lambda>_. tlb_inv e) (tlb_inv e)"
    by (rule valid_pre, rule onDb_valid, rule ins_site_valid)
  then show "validS (\<lambda>t. tlb_inv e t \<and> host_ok (snd x)) (case x of (name, host) \<Rightarrow>
       bindS (onDb invalid (ins_site e name host)) (\<lambda>i. retS \<lparr>si_ID = i, si_Name = name, si_Host = host\<rparr>)) (\<lambda>_. tlb_inv e) (tlb_inv e)"
    unfolding x by (auto intro!: valid_bind valid_basic(1))
qed

lemma UpdateTlbSite_valid:
  assumes "tlb_env_ok e"
  shows "validS (tlb_inv e) (UpdateTlbSite e n h) (\<lambda>_. tlb_inv e) (tlb_inv e)"
  unfolding UpdateTlbSite_def
proof (rule valid_bind [where R = "\<lambda>_. tlb_inv e"])
  show "validS (tlb_inv e) (orElse (getTlbSite e n) notFound) (\<lambda>_. tlb_inv e) (tlb_inv e)"
    by (rule valid_weaken [OF get_site_valid]) auto
next
  fix st :: tlbSite
  let ?m = "liftS (case tlbSiteFromInput e (si_Name st) h of Inl x \<Rightarrow> Inl (invalid x) | Inr y \<Rightarrow> Inr y)"
  let ?r = "\<lambda>(_ :: string, host). bindS (onDb invalid (upd_site_host e (si_ID st) host)) (\<lambda>_.
         bindS (catchS (query (count_routes (si_ID st))) (\<lambda>_. retS 0)) (\<lambda>n.
         retS \<lparr>sv_site = st\<lparr>si_Host := host\<rparr>, sv_Routes = n\<rparr>))"
  have m: "validS (tlb_inv e) ?m (\<lambda>x t. tlb_inv e t \<and> host_ok (snd x)) (tlb_inv e)"
    by (rule valid_basic(3)) (auto split: sum.splits dest: tlbSiteFromInput_ok [OF assms])
  have c: "validS (tlb_inv e) (catchS (query (count_routes (si_ID st))) (\<lambda>_. retS 0)) (\<lambda>_. tlb_inv e) (tlb_inv e)"
    by (rule valid_catch [where R = "tlb_inv e"]) (auto intro: valid_query valid_basic(1))
  have r: "validS (\<lambda>t. tlb_inv e t \<and> host_ok (snd x)) (?r x) (\<lambda>_. tlb_inv e) (tlb_inv e)" for x
    by (cases x, simp only: prod.case snd_conv, rule valid_bind [OF onDb_pre [OF upd_site_host_valid]], assumption,
        rule valid_bind [OF c], rule valid_basic(1))
  show "validS (tlb_inv e) (if trim_space h = [] then failS (invalid NoHost) else bindS ?m ?r) (\<lambda>_. tlb_inv e) (tlb_inv e)"
    using valid_bind [OF m r] by (auto intro: valid_basic(2))
qed

lemma DeleteTlbSite_valid: "validS (tlb_inv e) (DeleteTlbSite e n) (\<lambda>_. tlb_inv e) (tlb_inv e)"
  unfolding DeleteTlbSite_def
proof (rule valid_bind [OF get_site_valid])
  fix st
  have r: "validS (seeded e i) (onDb internal (del_routes (\<lambda>r. ro_SiteID r = i)))
      (\<lambda>_ t. tlb_inv e t \<and> (\<forall>r\<in>set (tb_routes t). ro_SiteID r \<noteq> i)) (tlb_inv e)" for i
    by (rule valid_weaken [OF onDb_valid [OF del_routes_valid [where Q = "has_site i"]]]) auto
  show "validS (seeded e (si_ID st)) (bindS (onDb internal (del_routes (\<lambda>r. ro_SiteID r = si_ID st)))
      (\<lambda>_. bindS (onDb internal (del_site (si_ID st))) (\<lambda>_. retS (si_Name st)))) (\<lambda>_. tlb_inv e) (tlb_inv e)"
    by (rule valid_bind [OF r], rule valid_bind [OF onDb_valid [OF del_site_valid]], rule valid_basic(1))
qed

lemma check_route_valid:
  "validS P (liftS (check_route n p tg)) (\<lambda>x t. P t \<and> (tlbPath (fst (snd x)) \<and> tlbTarget (snd (snd x)))) P"
  by (rule valid_basic(3)) (auto dest: check_route_ok)

lemma CreateTlbRoute_valid: "validS (tlb_inv e) (CreateTlbRoute e s n p tg) (\<lambda>_. tlb_inv e) (tlb_inv e)"
  unfolding CreateTlbRoute_def
proof (rule valid_bind [OF get_site_valid])
  fix st :: tlbSite
  let ?r = "\<lambda>(name, path, target). bindS (onDb invalid (ins_route e (si_ID st) name path target)) (\<lambda>i.
     retS \<lparr>ro_ID = i, ro_SiteID = si_ID st, ro_Name = name, ro_Path = path, ro_Target = target\<rparr>)"
  have i: "tlbPath p \<and> tlbTarget tg \<Longrightarrow> validS (seeded e (si_ID st)) (ins_route e (si_ID st) n p tg) (\<lambda>_. tlb_inv e) (tlb_inv e)" for n p tg
    by (rule valid_weaken [OF ins_route_valid]) (auto simp: has_site_def)
  have r: "validS (\<lambda>t. seeded e (si_ID st) t \<and> (tlbPath (fst (snd x)) \<and> tlbTarget (snd (snd x)))) (?r x) (\<lambda>_. tlb_inv e) (tlb_inv e)" for x
    by (cases x, simp only: prod.case fst_conv snd_conv, rule valid_bind [OF onDb_pre [OF i]], assumption, rule valid_basic(1))
  show "validS (seeded e (si_ID st)) (bindS (liftS (check_route n p tg)) ?r) (\<lambda>_. tlb_inv e) (tlb_inv e)"
    by (rule valid_bind [OF valid_weaken [OF check_route_valid [where P = "seeded e (si_ID st)"]] r]) auto
qed

lemma UpdateTlbRoute_valid: "validS (tlb_inv e) (UpdateTlbRoute e s i n p tg) (\<lambda>_. tlb_inv e) (tlb_inv e)"
  unfolding UpdateTlbRoute_def
proof (rule valid_bind [where R = "\<lambda>_. tlb_inv e"])
  show "validS (tlb_inv e) (orElse (getTlbSite e s) notFound) (\<lambda>_. tlb_inv e) (tlb_inv e)"
    by (rule valid_weaken [OF get_site_valid]) auto
next
  fix st :: tlbSite
  let ?u = "\<lambda>name path target. onDb invalid (upd_routes e (\<lambda>r. ro_ID r = i \<and> ro_SiteID r = si_ID st)
                            (\<lambda>r. r\<lparr>ro_Name := name, ro_Path := path, ro_Target := target\<rparr>))"
  let ?r = "\<lambda>(name, path, target). bindS (?u name path target) (\<lambda>n.
       if n = 0 then failS (notFound (NoRoute i))
       else retS \<lparr>ro_ID = i, ro_SiteID = si_ID st, ro_Name = name, ro_Path = path, ro_Target = target\<rparr>)"
  have u: "validS (tlb_inv e) (upd_routes e (\<lambda>r. ro_ID r = i \<and> ro_SiteID r = si_ID st)
      (\<lambda>r. r\<lparr>ro_Name := n, ro_Path := p, ro_Target := tg\<rparr>)) (\<lambda>_. tlb_inv e) (tlb_inv e)"
    if "tlbPath p \<and> tlbTarget tg" for n p tg
  proof (rule valid_weaken [OF upd_routes_valid [where Q = "\<lambda>_. True"]])
    show "tlbPath (ro_Path (r\<lparr>ro_Name := n, ro_Path := p, ro_Target := tg\<rparr>)) \<and>
        tlbTarget (ro_Target (r\<lparr>ro_Name := n, ro_Path := p, ro_Target := tg\<rparr>)) \<and>
        ro_SiteID (r\<lparr>ro_Name := n, ro_Path := p, ro_Target := tg\<rparr>) \<in> si_ID ` set (tb_sites t)"
      if "tlb_inv e t" "r \<in> set (tb_routes t)" for t r
      using that \<open>tlbPath p \<and> tlbTarget tg\<close> by (simp add: tlb_inv_def)
  qed auto
  have r: "validS (\<lambda>t. tlb_inv e t \<and> (tlbPath (fst (snd x)) \<and> tlbTarget (snd (snd x)))) (?r x) (\<lambda>_. tlb_inv e) (tlb_inv e)" for x
    by (cases x, simp only: prod.case fst_conv snd_conv, rule valid_bind [OF onDb_pre [OF u]], assumption)
      (auto intro: valid_basic)
  show "validS (tlb_inv e) (bindS (liftS (check_route n p tg)) ?r) (\<lambda>_. tlb_inv e) (tlb_inv e)"
    by (rule valid_bind [OF check_route_valid r])
qed

lemma DeleteTlbRoute_valid: "validS (tlb_inv e) (DeleteTlbRoute e s i) (\<lambda>_. tlb_inv e) (tlb_inv e)"
  unfolding DeleteTlbRoute_def
proof (rule valid_bind [OF get_site_valid])
  fix st :: tlbSite
  have r: "validS (seeded e (si_ID st)) (onDb internal (del_routes P)) (\<lambda>_. tlb_inv e) (tlb_inv e)" for P
    by (rule valid_weaken [OF onDb_valid [OF del_routes_valid [where Q = "has_site (si_ID st)"]]]) auto
  show "validS (seeded e (si_ID st)) (bindS (onDb internal (del_routes (\<lambda>r. ro_ID r = i \<and> ro_SiteID r = si_ID st)))
      (\<lambda>n. if n = 0 then failS (notFound (NoRoute i)) else retS i)) (\<lambda>_. tlb_inv e) (tlb_inv e)"
    by (rule valid_bind [OF r]) (auto intro: valid_basic)
qed

lemma tlb_exec_inv:
  "tlb_env_ok e \<Longrightarrow> tlb_inv e (db_tab d) \<Longrightarrow> tlb_inv e (db_tab (tlb_exec e op d))"
  by (cases op) (simp_all add: validS_snd [OF seedTlb_valid] validS_snd [OF CreateTlbSite_valid]
      validS_snd [OF UpdateTlbSite_valid] validS_snd [OF DeleteTlbSite_valid] validS_snd [OF CreateTlbRoute_valid]
      validS_snd [OF UpdateTlbRoute_valid] validS_snd [OF DeleteTlbRoute_valid])

lemma tlb_inv_start: "tlb_inv e tlb_migrate"
  by (simp add: tlb_inv_def tlb_migrate_def)

text \<open>C29 After any calls and restarts, with a database that may fail at any statement, the tables are well-formed: ids, site names, hosts and the pairs of site and path are unique, ids are below the counters, each route belongs to a site, hosts are texts of the admitted characters, paths and targets pass the checks.\<close>

theorem tlb_tables_ok:
  assumes "tlb_reach e t" and "tlb_env_ok e"
  shows "tlb_inv e t"
  using assms(1) by induction (simp_all add: tlb_inv_start tlb_exec_inv [OF assms(2)])

definition demo_tlb :: tlb_env where
  "demo_tlb = \<lparr>te_zone = ''example.com'', te_tls = [], te_live = ''/live'', te_cert = (\<lambda>_. False), te_lower = id, te_coll = id, te_sort = id\<rparr>"

lemma demo_tlb_ok: "tlb_env_ok demo_tlb"
proof -
  have "conf_text (trim_space (te_zone demo_tlb))" "conf_text (trim_space (te_tls demo_tlb))" "conf_text (te_live demo_tlb)"
    by code_simp+
  then show ?thesis by (simp add: tlb_env_ok_def demo_tlb_def)
qed

definition demo_tlb_db :: "tlb_tabs db" where
  "demo_tlb_db = healthy (db_tab (tlb_exec demo_tlb (CreateRoute ''shop'' [] ''/web'' ''web:80'')
     (healthy (db_tab (tlb_exec demo_tlb (CreateSite ''shop'' []) (healthy tlb_migrate))))))"

lemma demo_tlb_reach: "tlb_reach demo_tlb (db_tab demo_tlb_db)"
  unfolding demo_tlb_db_def db.select_convs by (intro tlb_call tlb_start)

lemma demo_tlb_tab_val: "db_tab demo_tlb_db = \<lparr>tb_sites = [\<lparr>si_ID = 1, si_Name = ''shop'', si_Host = ''shop.example.com''\<rparr>],
    tb_routes = [\<lparr>ro_ID = 1, ro_SiteID = 1, ro_Name = ''web'', ro_Path = ''/web'', ro_Target = ''web:80''\<rparr>],
    tb_nextSite = 2, tb_nextRoute = 2\<rparr>"
  by code_simp

theorem tlb_tables_ok_witness: "tlb_inv demo_tlb (db_tab demo_tlb_db)"
  by (rule tlb_tables_ok [OF demo_tlb_reach demo_tlb_ok])

end
