(* ===== verification/TlbConfOk.thy ===== *)
theory TlbConfOk
  imports TlbConf TlbOk
begin

text \<open>
  What nginx is given: however sites and routes have come into the tables, the configuration has the
  braces and directives of the template and nothing else. And the ports the upstreams are offered with.
\<close>

section \<open>The punctuation of the configuration\<close>

definition punct :: "char \<Rightarrow> bool" where
  "punct c \<longleftrightarrow> c \<in> set ''{};#'' \<or> c = CHR 0x22 \<or> c = CHR 0x27"

abbreviation skel :: "string \<Rightarrow> string" where "skel \<equiv> filter punct"

fun nest :: "int \<Rightarrow> string \<Rightarrow> int option" where
  "nest d [] = Some d"
| "nest d (c # s) = (if c = CHR ''{'' then nest (d + 1) s
     else if c = CHR ''}'' then (if d \<le> 0 then None else nest (d - 1) s) else nest d s)"

lemma punct_conf [simp]: "conf_char c \<Longrightarrow> \<not> punct c"
  by (auto simp: punct_def conf_char_def alpha_digit_def is_lower_c_def is_upper_c_def is_digit_c_def ordc_def)

lemma skel_conf [simp]: "conf_text s \<Longrightarrow> skel s = []"
  by (auto simp: conf_text_def list_all_iff filter_empty_conv)

lemma nest_skel: "nest d (skel s) = nest d s"
  by (induction s arbitrary: d) (auto simp: punct_def)

lemma count_skel: "punct c \<Longrightarrow> count_list (skel s) c = count_list s c"
  by (induction s) auto

lemma nest_append: "nest d (s @ t) = (case nest d s of None \<Rightarrow> None | Some k \<Rightarrow> nest k t)"
  by (induction s arbitrary: d) auto

lemma skel_quote [simp]: "conf_text s \<Longrightarrow> skel (quoteMeta s) = []"
proof -
  have "set (quoteMeta s) \<subseteq> insert (CHR 0x5C) (set s)" by (auto simp: quoteMeta_def split: if_splits)
  moreover have "\<not> punct (CHR 0x5C)" by (simp add: punct_def)
  ultimately show "conf_text s \<Longrightarrow> skel (quoteMeta s) = []"
    unfolding filter_empty_conv conf_text_def list_all_iff using punct_conf by blast
qed

definition sk_strip :: "string" where "sk_strip = '';''"

lemma conf_text_subset: "set s \<subseteq> set t \<Longrightarrow> conf_text t \<Longrightarrow> conf_text s"
  by (auto simp: conf_text_def list_all_iff)

lemma set_trim_right: "set (trim_right_set cs s) \<subseteq> set s"
  by (auto simp: trim_right_set_def dest: set_dropWhileD)

lemma skel_strip: "conf_text p \<Longrightarrow> skel (tlbStrip p) = (if tlbStrip p = [] then [] else sk_strip)"
  using conf_text_subset [OF set_trim_right] unfolding tlbStrip_def Let_def sk_strip_def
  by (auto simp: punct_def)

lemma skel_route: "conf_text (ro_Path r) \<Longrightarrow> conf_text (ro_Target r) \<Longrightarrow>
  skel (conf_route r) = ''{;'' @ (if tlbStrip (ro_Path r) = [] then [] else '';'') @ '';;;;;;;}''"
  by (simp add: conf_route_def ln_def punct_def skel_strip sk_strip_def) 

lemma skel_head: "skel conf_head = '';;;{;}{;;;;''"
  by (simp add: conf_head_def ln_def punct_def)

lemma skel_redirect: "skel conf_redirect = ''{;;{;}{;}}''"
  by (simp add: conf_redirect_def ln_def punct_def)

lemma skel_site: "conf_text host \<Longrightarrow> conf_text (tlbSiteTLSDir e host) \<Longrightarrow> 
  skel (conf_site_head e first host) = (if tlbTLSOn e then ''{;;;;;;;'' else ''{;;;{;}'')"
  by (simp add: conf_site_head_def conf_listen_def Let_def ln_def punct_def)

lemma fields_from_sub: "f \<in> set (fields_from cur s) \<Longrightarrow> set f \<subseteq> set cur \<union> set s"
proof (induction cur s rule: fields_from.induct)
  case (1 cur s)
  have d: "set (drop n s) \<subseteq> set s" for n by (rule set_drop_subset)
  show ?case
    using 1(3) 1(1) 1(2) d [of 1] d [of "ws_head s"]
    by (subst (asm) fields_from.simps) (cases s; fastforce split: if_splits)
qed

lemma str_fields_sub: "f \<in> set (str_fields s) \<Longrightarrow> set f \<subseteq> set s"
  using fields_from_sub [of f "[]" s] by (simp add: str_fields_def)

lemma tls_dir_conf: "tlb_env_ok e \<Longrightarrow> conf_text (tlbTLSDir e)"
  by (simp add: tlbTLSDir_def Let_def tlb_env_ok_def conf_text_Cons)

lemma site_dir_conf: "tlb_env_ok e \<Longrightarrow> conf_text host \<Longrightarrow> conf_text (tlbSiteTLSDir e host)"
proof -
  assume e: "tlb_env_ok e" and h: "conf_text host"
  have "conf_text (te_live e @ ''/'' @ to_lower (te_lower e) (trim_suffix f s))" if f: "f \<in> set (str_fields host)" for f s
  proof -
    have "set (trim_suffix f s) \<subseteq> set host"
      using str_fields_sub [OF f] by (auto simp: trim_suffix_def dest: in_set_takeD)
    then have "conf_text (trim_suffix f s)" using h by (rule conf_text_subset)
    then show ?thesis using e by (simp add: tlb_env_ok_def conf_text_lower conf_text_Cons)
  qed
  then have "conf_text (te_live e @ ''/'' @ to_lower (te_lower e) (trim_suffix (hd (str_fields host)) ''.''))" if "str_fields host \<noteq> []"
    using that by (cases "str_fields host") auto
  then show ?thesis using tls_dir_conf [OF e] unfolding tlbSiteTLSDir_def Let_def by (auto split: list.split simp del: append_Cons)
qed

lemma tlbPath_conf: "tlbPath p \<Longrightarrow> conf_text p"
  by (auto simp: tlbPath_def conf_text_Cons intro: conf_text_all split: list.splits)

definition bal :: "string \<Rightarrow> bool" where "bal s \<longleftrightarrow> (\<forall>d\<ge>0. nest d s = Some d)"

lemma bal_append: "bal s \<Longrightarrow> bal t \<Longrightarrow> bal (s @ t)"
  by (simp add: bal_def nest_append)

lemma bal_concat: "(\<And>s. s \<in> set ss \<Longrightarrow> bal s) \<Longrightarrow> bal (concat ss)"
  by (induction ss) (auto intro: bal_append simp: bal_def [of "[]"])

lemma bal_skel: "bal (skel s) = bal s"
  by (simp add: bal_def nest_skel)

definition full_ok :: "tlbSiteFull \<Rightarrow> bool" where
  "full_ok st \<longleftrightarrow> host_ok (si_Host (sf_site st)) \<and> (\<forall>r\<in>set (sf_routes st). tlbPath (ro_Path r) \<and> tlbTarget (ro_Target r))"

lemma full_route: "full_ok st \<Longrightarrow> r \<in> set (sf_routes st) \<Longrightarrow> conf_text (ro_Path r) \<and> conf_text (ro_Target r)"
  by (auto simp: full_ok_def tlbPath_conf tlbTarget_conf)

lemma set_te_sort: "tlb_env_ok e \<Longrightarrow> set (te_sort e rs) = set rs"
  by (metis set_mset_mset tlb_env_ok_def)

lemma sum_te_sort: "tlb_env_ok e \<Longrightarrow> sum_list (map f (te_sort e rs)) = sum_list (map (f :: tlbRoute \<Rightarrow> nat) rs)"
  by (metis mset_map sum_mset_sum_list tlb_env_ok_def)

lemma count_concat: "count_list (concat (map f xs)) c = sum_list (map (\<lambda>x. count_list (f x) c) xs)"
  by (induction xs) (simp_all add: count_list_append)

definition semis :: "tlbRoute \<Rightarrow> nat" where "semis r = (if tlbStrip (ro_Path r) = [] then 8 else 9)"

definition clean :: "string \<Rightarrow> bool" where
  "clean s \<longleftrightarrow> CHR 0x22 \<notin> set s \<and> CHR 0x27 \<notin> set s \<and> CHR ''#'' \<notin> set s"

lemma clean_append [simp]: "clean (s @ t) \<longleftrightarrow> clean s \<and> clean t"
  by (auto simp: clean_def)

lemma clean_concat: "clean (concat ss) \<longleftrightarrow> (\<forall>s\<in>set ss. clean s)"
  by (auto simp: clean_def)

text \<open>A text with balanced braces, without quotes and comments, with so many blocks and directives.\<close>

definition shape :: "string \<Rightarrow> nat \<Rightarrow> nat \<Rightarrow> bool" where
  "shape s blocks dirs \<longleftrightarrow> bal s \<and> clean s \<and> count_list s CHR ''{'' = blocks \<and> count_list s CHR '';'' = dirs"

lemma shape_skel: "shape (skel s) b n = shape s b n"
proof -
  have p: "punct CHR '';''" "punct CHR ''{''" "punct (CHR 0x22)" "punct (CHR 0x27)" "punct CHR ''#''" by (simp_all add: punct_def)
  then have "clean (skel s) = clean s" by (simp add: clean_def)
  then show ?thesis using p by (simp add: shape_def bal_skel count_skel)
qed

lemma shape_append: "shape s b n \<Longrightarrow> shape t b' n' \<Longrightarrow> shape (s @ t) (b + b') (n + n')"
  by (simp add: shape_def bal_append count_list_append)

lemma shape_Nil: "shape [] 0 0"
  by (simp add: shape_def bal_def clean_def)

lemma shape_concat:
  "(\<And>x. x \<in> set xs \<Longrightarrow> shape (f x) (b x) (n x)) \<Longrightarrow> shape (concat (map f xs)) (sum_list (map b xs)) (sum_list (map n xs))"
  by (induction xs) (auto intro: shape_append shape_Nil)

lemma shape_block:
  assumes "shape s b n" and "\<And>d. 0 \<le> d \<Longrightarrow> nest d h = Some (d + 1)" and "clean h"
    and "count_list h CHR ''{'' = b'" and "count_list h CHR '';'' = n'" and "skel c = ''}''"
  shows "shape (h @ s @ c) (b' + b) (n' + n)"
proof -
  have "shape (h @ s @ ''}'') (b' + b) (n' + n)"
    using assms by (simp add: shape_def bal_def nest_append clean_def count_list_append)
  then have "shape (skel (h @ s @ c)) (b' + b) (n' + n)"
    unfolding shape_skel [symmetric, of "h @ s @ ''}''"] using assms(6) by (simp add: punct_def)
  then show ?thesis by (simp only: shape_skel)
qed

lemma shape_route:
  assumes "conf_text (ro_Path r)" and "conf_text (ro_Target r)"
  shows "shape (conf_route r) 1 (semis r)"
  unfolding shape_skel [symmetric, of "conf_route r"] skel_route [OF assms]
  by (simp add: shape_def bal_def clean_def semis_def)

lemma head_facts:
  assumes "skel h = k" and "\<And>d. 0 \<le> d \<Longrightarrow> nest d k = Some (d + 1)" and "clean k"
  shows "\<And>d. 0 \<le> d \<Longrightarrow> nest d h = Some (d + 1)" and "clean h"
    and "count_list h CHR ''{'' = count_list k CHR ''{''" and "count_list h CHR '';'' = count_list k CHR '';''"
  using assms(2,3) unfolding assms(1) [symmetric]
  by (simp_all add: nest_skel count_skel punct_def clean_def)

definition site_blocks :: "tlb_env \<Rightarrow> tlbSiteFull \<Rightarrow> nat" where
  "site_blocks e st = (if sf_routes st = [] then 0 else (if tlbTLSOn e then 1 else 2) + length (sf_routes st))"

definition site_dirs :: "tlb_env \<Rightarrow> tlbSiteFull \<Rightarrow> nat" where
  "site_dirs e st = (if sf_routes st = [] then 0 else (if tlbTLSOn e then 7 else 4) + sum_list (map semis (sf_routes st)))"

lemma shape_site:
  assumes e: "tlb_env_ok e" and st: "full_ok st"
  shows "shape (conf_site e first st) (site_blocks e st) (site_dirs e st)"
proof (cases "sf_routes st = []")
  case True
  then show ?thesis by (simp add: conf_site_def site_blocks_def site_dirs_def shape_Nil)
next
  case False
  let ?h = "conf_site_head e first (si_Host (sf_site st))"
  have host: "conf_text (si_Host (sf_site st))" using st by (simp add: full_ok_def host_ok_def)
  note k = skel_site [OF host site_dir_conf [OF e host], of first]
  have h: "\<And>d. 0 \<le> d \<Longrightarrow> nest d ?h = Some (d + 1)" "clean ?h"
    "count_list ?h CHR ''{'' = (if tlbTLSOn e then 1 else 2)" "count_list ?h CHR '';'' = (if tlbTLSOn e then 7 else 4)"
    by (subst head_facts [OF k]; simp add: clean_def)+
  have "shape (concat (map conf_route (te_sort e (sf_routes st)))) (sum_list (map (\<lambda>_. 1) (te_sort e (sf_routes st))))
      (sum_list (map semis (te_sort e (sf_routes st))))"
    using full_route [OF st] set_te_sort [OF e] by (intro shape_concat shape_route) auto
  moreover have "sum_list (map (\<lambda>_. 1 :: nat) (te_sort e (sf_routes st))) = length (sf_routes st)"
    unfolding sum_te_sort [OF e] by (simp add: sum_list_triv)
  ultimately have r: "shape (concat (map conf_route (te_sort e (sf_routes st)))) (length (sf_routes st)) (sum_list (map semis (sf_routes st)))"
    unfolding sum_te_sort [OF e] by simp
  show ?thesis
    using shape_block [OF r h(1,2) h(3) h(4)] False
    by (simp add: conf_site_def site_blocks_def site_dirs_def ln_def punct_def)
qed

lemma map_enumerate: "map f xs = map (\<lambda>(i, x). f x) (enumerate n xs)"
  by (induction xs arbitrary: n) auto

lemma shape_conf:
  assumes e: "tlb_env_ok e" and sts: "\<And>st. st \<in> set sites \<Longrightarrow> full_ok st"
  shows "shape (renderTlbNginx e sites) ((if tlbTLSOn e then 5 else 2) + sum_list (map (site_blocks e) sites))
    ((if tlbTLSOn e then 12 else 8) + sum_list (map (site_dirs e) sites))"
proof -
  have s: "shape (concat (map (\<lambda>(i, st). conf_site e (i = 0) st) (enumerate n sites)))
      (sum_list (map (site_blocks e) sites)) (sum_list (map (site_dirs e) sites))" for n
    unfolding map_enumerate [of _ sites n]
    by (rule shape_concat) (auto intro!: shape_site [OF e] sts simp: in_set_enumerate_eq)
  let ?h = "conf_head @ (if tlbTLSOn e then conf_redirect else [])"
  have k: "skel ?h = '';;;{;}{;;;;'' @ (if tlbTLSOn e then ''{;;{;}{;}}'' else [])"
    by (simp add: skel_head skel_redirect)
  have h: "\<And>d. 0 \<le> d \<Longrightarrow> nest d ?h = Some (d + 1)" "clean ?h"
    "count_list ?h CHR ''{'' = (if tlbTLSOn e then 5 else 2)" "count_list ?h CHR '';'' = (if tlbTLSOn e then 12 else 8)"
    by (subst head_facts [OF k]; simp add: clean_def)+
  show ?thesis
    using shape_block [OF s h(1,2) h(3) h(4)] by (simp add: renderTlbNginx_def ln_def punct_def)
qed

section \<open>Publishing\<close>

text \<open>The sites of tables, with their routes.\<close>

definition full_sites :: "tlb_tabs \<Rightarrow> tlbSiteFull list" where
  "full_sites t = map (\<lambda>s. \<lparr>sf_site = s, sf_routes = filter (\<lambda>r. ro_SiteID r = si_ID s) (tb_routes t)\<rparr>) (sort_key si_ID (tb_sites t))"

lemma query_Inr: "query f s = (Inr x, s') \<Longrightarrow> x = f (db_tab s) \<and> db_tab s' = db_tab s"
  by (auto simp: query_def stmt_def Let_def split: list.splits option.splits)

lemma loadTlb_Inr: "loadTlb s = (Inr x, s') \<Longrightarrow> x = full_sites (db_tab s) \<and> db_tab s' = db_tab s"
  by (auto simp: loadTlb_def bindS_def retS_def full_sites_def split: prod.splits sum.splits dest!: query_Inr)

lemma full_sites_ok: "tlb_inv e t \<Longrightarrow> st \<in> set (full_sites t) \<Longrightarrow> full_ok st"
  by (auto simp: full_sites_def full_ok_def tlb_inv_def)

lemma split_by_key:
  assumes "distinct ks" and "\<And>x. x \<in> set xs \<Longrightarrow> k x \<in> set ks"
  shows "mset (concat (map (\<lambda>i. filter (\<lambda>x. k x = i) xs) ks)) = mset xs"
  using assms
proof (induction ks arbitrary: xs)
  case Nil
  then have "xs = []" by (cases xs) auto
  then show ?case by simp
next
  case (Cons i ks)
  let ?rest = "filter (\<lambda>x. k x \<noteq> i) xs"
  have f: "filter (\<lambda>x. k x = j) xs = filter (\<lambda>x. k x = j) ?rest" if "j \<in> set ks" for j
    using that Cons.prems(1) by (auto simp: intro: filter_cong)
  have "mset (concat (map (\<lambda>i. filter (\<lambda>x. k x = i) ?rest) ks)) = mset ?rest"
    using Cons.prems by (intro Cons.IH) auto
  moreover have "map (\<lambda>i. filter (\<lambda>x. k x = i) ?rest) ks = map (\<lambda>i. filter (\<lambda>x. k x = i) xs) ks"
    using f by (simp add: map_eq_conv)
  ultimately have "mset (concat (map (\<lambda>i. filter (\<lambda>x. k x = i) xs) ks)) = mset ?rest" by (simp only:)
  then show ?case using multiset_partition [of "mset xs" "\<lambda>x. k x = i"] by simp
qed

lemma full_sites_routes:
  assumes "tlb_inv e t"
  shows "mset (concat (map sf_routes (full_sites t))) = mset (tb_routes t)"
proof -
  have "mset (concat (map (\<lambda>i. filter (\<lambda>r. ro_SiteID r = i) (tb_routes t)) (map si_ID (sort_key si_ID (tb_sites t))))) = mset (tb_routes t)"
    by (rule split_by_key) (use assms in \<open>auto simp: tlb_inv_def distinct_map\<close>)
  then show ?thesis by (simp add: full_sites_def comp_def)
qed

lemma sum_site_blocks:
  "sum_list (map (site_blocks e) sts) =
     (if tlbTLSOn e then 1 else 2) * length (filter (\<lambda>st. sf_routes st \<noteq> []) sts) + length (concat (map sf_routes sts))"
  by (induction sts) (auto simp: site_blocks_def)

lemma sum_site_dirs:
  "sum_list (map (site_dirs e) sts) =
     (if tlbTLSOn e then 7 else 4) * length (filter (\<lambda>st. sf_routes st \<noteq> []) sts) + sum_list (map semis (concat (map sf_routes sts)))"
  by (induction sts) (auto simp: site_dirs_def)

text \<open>The sites that get a server: those with routes.\<close>

definition served :: "tlb_tabs \<Rightarrow> nat" where
  "served t = length (filter (\<lambda>s. \<exists>r\<in>set (tb_routes t). ro_SiteID r = si_ID s) (tb_sites t))"

lemma length_filter_sort: "length (filter P (sort_key k xs)) = length (filter P xs)"
  by (metis mset_filter mset_sort size_mset)

lemma served_full: "length (filter (\<lambda>st. sf_routes st \<noteq> []) (full_sites t)) = served t"
  by (simp add: full_sites_def served_def filter_map comp_def filter_empty_conv length_filter_sort)

lemma PublishTlb_Inr:
  assumes "PublishTlb e nginx d = (Inr (r, conf), d')"
  shows "db_tab d' = db_tab d" and "conf = renderTlbNginx e (full_sites (db_tab d))" and "nginx conf = None"
    and "pb_Sites r = int (length (tb_sites (db_tab d)))"
    and "pb_Routes r = int (length (concat (map sf_routes (full_sites (db_tab d)))))" and "pb_Routes r \<noteq> 0"
proof -
  obtain sts d1 where l: "onDb internal loadTlb d = (Inr sts, d1)"
    using assms unfolding PublishTlb_def bindS_def by (auto split: prod.splits sum.splits)
  have "loadTlb d = (Inr sts, d1)" using l by (auto simp: onDb_def orElse_def catchS_def failS_def split: prod.splits sum.splits)
  note s = loadTlb_Inr [OF this]
  have "(let n = length (concat (map sf_routes sts)); conf = renderTlbNginx e sts in
       if sts = [] then failS (invalid NothingToPublish)
       else if n = 0 then failS (invalid NoRoutes)
       else (case nginx conf of
               Some out \<Rightarrow> failS (internal (NginxFails out))
             | None \<Rightarrow> retS (\<lparr>pb_Sites = int (length sts), pb_Routes = int n\<rparr>, conf))) d1 = (Inr (r, conf), d')"
    using assms l unfolding PublishTlb_def bindS_def by simp
  then have "nginx conf = None \<and> conf = renderTlbNginx e sts \<and> d' = d1 \<and> length (concat (map sf_routes sts)) \<noteq> 0 \<and>
      r = \<lparr>pb_Sites = int (length sts), pb_Routes = int (length (concat (map sf_routes sts)))\<rparr>"
    unfolding Let_def retS_def failS_def
    by (auto split: if_splits option.splits)
  then show "db_tab d' = db_tab d" "conf = renderTlbNginx e (full_sites (db_tab d))" "nginx conf = None"
    "pb_Sites r = int (length (tb_sites (db_tab d)))"
    "pb_Routes r = int (length (concat (map sf_routes (full_sites (db_tab d)))))" "pb_Routes r \<noteq> 0"
    using s by (auto simp: full_sites_def)
qed

text \<open>C28 Whatever calls have filled the tables, on a database that may fail at any statement: when PublishTlb succeeds, the configuration it hands to nginx covers all sites and routes, its braces are balanced, it holds no quotes and comments, and the numbers of its blocks and directives are those of the template for the sites served and the routes, so that no name, host, path or target that was entered has added configuration of its own.\<close>

theorem PublishTlb_conf:
  assumes "tlb_reach e (db_tab d)" and "tlb_env_ok e" and "PublishTlb e nginx d = (Inr (r, conf), d')"
  shows "db_tab d' = db_tab d \<and> nginx conf = None \<and>
    pb_Sites r = int (length (tb_sites (db_tab d))) \<and> pb_Routes r = int (length (tb_routes (db_tab d))) \<and>
    nest 0 conf = Some 0 \<and> clean conf \<and>
    count_list conf CHR ''{'' = (if tlbTLSOn e then 5 else 2) + (if tlbTLSOn e then 1 else 2) * served (db_tab d) +
       length (tb_routes (db_tab d)) \<and>
    count_list conf CHR '';'' = (if tlbTLSOn e then 12 else 8) + (if tlbTLSOn e then 7 else 4) * served (db_tab d) +
       sum_list (map semis (tb_routes (db_tab d)))"
proof -
  let ?t = "db_tab d"
  have inv: "tlb_inv e ?t" using assms(1,2) by (induction rule: tlb_reach.induct) (simp_all add: tlb_inv_start tlb_exec_inv)
  note p = PublishTlb_Inr [OF assms(3)]
  note m = full_sites_routes [OF inv]
  have len: "length (concat (map sf_routes (full_sites ?t))) = length (tb_routes ?t)" using m by (metis size_mset)
  have semis: "sum_list (map semis (concat (map sf_routes (full_sites ?t)))) = sum_list (map semis (tb_routes ?t))"
    using m by (metis mset_map sum_mset_sum_list)
  have "shape conf ((if tlbTLSOn e then 5 else 2) + sum_list (map (site_blocks e) (full_sites ?t)))
    ((if tlbTLSOn e then 12 else 8) + sum_list (map (site_dirs e) (full_sites ?t)))"
    unfolding p(2) by (rule shape_conf [OF assms(2) full_sites_ok [OF inv]])
  then show ?thesis
    unfolding shape_def bal_def sum_site_blocks sum_site_dirs served_full len semis
    using p(1,3,4,5) len by simp
qed

theorem PublishTlb_conf_witness:
  "\<exists>r conf d'. PublishTlb demo_tlb (\<lambda>_. None) demo_tlb_db = (Inr (r, conf), d') \<and>
     nest 0 conf = Some 0 \<and> count_list conf CHR '';'' = 21"
proof -
  have "isOk (fst (PublishTlb demo_tlb (\<lambda>_. None) demo_tlb_db))" by code_simp
  then obtain r conf d' where p: "PublishTlb demo_tlb (\<lambda>_. None) demo_tlb_db = (Inr (r, conf), d')"
    by (cases "PublishTlb demo_tlb (\<lambda>_. None) demo_tlb_db") (auto simp: isOk_iff)
  have t: "served (db_tab demo_tlb_db) = 1 \<and> sum_list (map semis (tb_routes (db_tab demo_tlb_db))) = 9 \<and> \<not> tlbTLSOn demo_tlb"
    by code_simp
  from PublishTlb_conf [OF demo_tlb_reach demo_tlb_ok p] p t show ?thesis by auto
qed

section \<open>Ports and upstreams\<close>

definition port_ok :: "string \<Rightarrow> bool" where
  "port_ok p \<longleftrightarrow> (\<exists>n. 1 \<le> n \<and> n \<le> 65535 \<and> p = go_itoa n)"

lemma hostPort_ok: "hostPort s = [] \<or> port_ok (hostPort s)"
proof -
  have "(if t = [] then [] else (case go_atoi t of (n, ok) \<Rightarrow> if \<not> ok \<or> n \<le> 0 \<or> 65535 < n then [] else go_itoa n)) = [] \<or>
    port_ok (if t = [] then [] else (case go_atoi t of (n, ok) \<Rightarrow> if \<not> ok \<or> n \<le> 0 \<or> 65535 < n then [] else go_itoa n))" for t
    by (cases "go_atoi t") (auto simp: port_ok_def intro!: exI [of _ "fst (go_atoi t)"])
  then show ?thesis unfolding hostPort_def Let_def .
qed

definition ports_ok :: "string \<Rightarrow> string list \<Rightarrow> bool" where
  "ports_ok skip out \<longleftrightarrow> distinct out \<and> (\<forall>p\<in>set out. port_ok p \<and> p \<noteq> skip)"

lemma add_port_ok: "ports_ok skip out \<Longrightarrow> ports_ok skip (add_port skip p out)"
  using hostPort_ok [of p] by (auto simp: ports_ok_def add_port_def Let_def)

lemma fold_inv: "P a \<Longrightarrow> (\<And>x a. P a \<Longrightarrow> P (f x a)) \<Longrightarrow> P (fold f xs a)"
  by (induction xs arbitrary: a) auto

lemma serviceListenPorts_ok:
  "ports_ok (hostPort (env_get (envMap sp (member svc ''environment'')) ''METRICS'')) (serviceListenPorts sp svc)"
  unfolding serviceListenPorts_def Let_def
  by (auto split: json.split intro!: fold_inv [of "ports_ok _"] add_port_ok) (auto simp: ports_ok_def)

lemma composeServicePorts_ok:
  "map_of (composeServicePorts sp cfg) n = Some ps \<Longrightarrow> ps \<noteq> [] \<and> distinct ps \<and> (\<forall>p\<in>set ps. port_ok p)"
proof -
  assume "map_of (composeServicePorts sp cfg) n = Some ps"
  then have "(n, ps) \<in> set (composeServicePorts sp cfg)" by (rule map_of_SomeD)
  then obtain svc where "ps \<noteq> []" "ps = serviceListenPorts sp svc"
    by (auto simp: composeServicePorts_def split: option.splits json.splits)
  then show ?thesis using serviceListenPorts_ok [of sp svc] by (simp add: ports_ok_def)
qed

lemma tlbListenPort_ok: "port_ok (tlbListenPort n)"
proof -
  have "go_itoa 8081 = ''8081''" "go_itoa 8080 = ''8080''" "go_itoa 2381 = ''2381''" "go_itoa 80 = ''80''"
    by (simp_all add: go_itoa_def nat_str.simps, code_simp+)
  then show ?thesis unfolding port_ok_def tlbListenPort_def
    by (intro exI [of _ "if n = ''platform'' then 8081 else if n = ''order'' then 8080 else if n = ''etcdui'' then 2381 else 80"]) simp
qed

definition names_ok :: "string list \<Rightarrow> bool" where
  "names_ok ns \<longleftrightarrow> distinct ns \<and> (\<forall>n\<in>set ns. n \<noteq> [] \<and> n \<notin> set tlbSkipSvc \<and> \<not> has_prefix n ''user-'')"

lemma add_name_ok: "names_ok ns \<Longrightarrow> names_ok (add_name n ns)"
  by (auto simp: names_ok_def add_name_def Let_def)

lemma upstream_names_ok: "names_ok (upstream_names sp cfg svcs apps)"
proof -
  have f: "names_ok ns \<Longrightarrow> names_ok (fold add_name xs ns)" for xs ns
    by (rule fold_inv) (auto intro: add_name_ok)
  have "names_ok []" by (simp add: names_ok_def)
  then show ?thesis unfolding upstream_names_def Let_def
    by (auto intro!: f add_name_ok split: option.split)
qed

lemma port_digits: "port_ok p \<Longrightarrow> p \<noteq> [] \<and> list_all is_digit_c p"
  by (auto simp: port_ok_def go_itoa_def nat_str_digits)

lemma target_ok:
  assumes "list_all target_char n" and "n \<noteq> []" and "port_ok p"
  shows "tlbTarget (n @ CHR '':'' # p)"
proof -
  have "\<not> target_char CHR '':''" by (simp add: target_char_def alpha_digit_def is_lower_c_def is_upper_c_def is_digit_c_def ordc_def)
  moreover have "\<forall>c\<in>set n. target_char c" using assms(1) by (simp add: list_all_iff)
  ultimately show ?thesis using assms(2) port_digits [OF assms(3)] by (simp add: tlbTarget_def takeWhile_append dropWhile_append)
qed

lemma target_plain: "list_all target_char n \<Longrightarrow> port_ok p \<Longrightarrow> list_all plain_c (n @ CHR '':'' # p)"
  using port_digits [of p] by (auto simp: list_all_iff plain_c_def target_char_def is_digit_c_def alpha_digit_def is_lower_c_def is_upper_c_def ordc_def)

lemma upstream_ports_ok: "p \<in> set (upstream_ports sp cfg n) \<Longrightarrow> port_ok p"
proof -
  assume p: "p \<in> set (upstream_ports sp cfg n)"
  show "port_ok p"
  proof (cases "\<exists>v ps. cfg = Some v \<and> map_of (composeServicePorts sp v) n = Some ps")
    case True
    then obtain v ps where v: "cfg = Some v" "map_of (composeServicePorts sp v) n = Some ps" by blast
    have "upstream_ports sp cfg n = ps" using composeServicePorts_ok [OF v(2)] v by (simp add: upstream_ports_def)
    then show ?thesis using composeServicePorts_ok [OF v(2)] p by simp
  next
    case False
    then have "upstream_ports sp cfg n = [tlbListenPort n]" by (auto simp: upstream_ports_def split: option.split)
    then show ?thesis using tlbListenPort_ok p by simp
  qed
qed


definition demo_compose :: json where
  "demo_compose = JObj [(''services'', JObj [(''shop'', JObj [(''expose'', JArr [JStr ''9000/tcp'', JStr ''70000''])])])]"


end
