(* ===== verification/Config.thy ===== *)
theory Config
  imports GoStrings "HOL-Library.List_Lexorder"
begin

text \<open>
  config/etcd.go: the etcd client over its HTTP gateway and the variable that follows a key, and
  discovery/client.go: registration and lookup in Consul. The servers are parameters: \<open>post\<close> is what
  a request brings back, \<open>wo_watch\<close> the stream of a watch up to its end. Decoding of JSON is a
  parameter, encoding of JSON is written out (\<open>jq\<close> quotes a string that may need escapes).
\<close>

section \<open>Base64\<close>

text \<open>\<open>base64.StdEncoding\<close>: the decoder skips line breaks and wants the padding.\<close>

definition b64_chars :: string where
  "b64_chars = ''ABCDEFGHIJKLMNOPQRSTUVWXYZabcdefghijklmnopqrstuvwxyz0123456789+/''"

definition b64_char :: "nat \<Rightarrow> char" where "b64_char n = b64_chars ! n"

definition b64_val :: "char \<Rightarrow> nat option" where
  "b64_val c = (if c \<in> set b64_chars then Some (length (takeWhile (\<lambda>x. x \<noteq> c) b64_chars)) else None)"

fun b64_enc :: "nat list \<Rightarrow> string" where
  "b64_enc [] = []"
| "b64_enc [a] = [b64_char (a div 4), b64_char (a mod 4 * 16), CHR ''='', CHR ''='']"
| "b64_enc [a, b] = [b64_char (a div 4), b64_char (a mod 4 * 16 + b div 16), b64_char (b mod 16 * 4), CHR ''='']"
| "b64_enc (a # b # c # r) =
     [b64_char (a div 4), b64_char (a mod 4 * 16 + b div 16), b64_char (b mod 16 * 4 + c div 64), b64_char (c mod 64)] @ b64_enc r"

fun b64_dec :: "string \<Rightarrow> nat list option" where
  "b64_dec [] = Some []"
| "b64_dec (p # q # r # s # t) =
     (case (b64_val p, b64_val q, b64_val r, b64_val s) of
        (Some x, Some y, Some z, Some w) \<Rightarrow>
          map_option (\<lambda>bs. [x * 4 + y div 16, y mod 16 * 16 + z div 4, z mod 4 * 64 + w] @ bs) (b64_dec t)
      | (Some x, Some y, Some z, None) \<Rightarrow>
          if s = CHR ''='' \<and> t = [] then Some [x * 4 + y div 16, y mod 16 * 16 + z div 4] else None
      | (Some x, Some y, None, _) \<Rightarrow>
          if r = CHR ''='' \<and> s = CHR ''='' \<and> t = [] then Some [x * 4 + y div 16] else None
      | _ \<Rightarrow> None)"
| "b64_dec _ = None"

definition b64 :: "string \<Rightarrow> string" where "b64 s = b64_enc (map ordc s)"

definition unb64 :: "string \<Rightarrow> string option" where
  "unb64 s = map_option (map char_of) (b64_dec (filter (\<lambda>c. c \<noteq> CHR 0x0D \<and> c \<noteq> CHR 0x0A) s))"

section \<open>Requests\<close>

datatype cfg_err = CTransport string | CStatus int string | CJson | CBase64 | CStream string

datatype http_out = HErr string | HResp int string

record event =
  ev_Type :: string
  ev_Value :: string

datatype watch_out = WFail string | WStatus int string | WStream "event list list" string

record rangeResp =
  rr_Revision :: string
  rr_Kvs :: "(string \<times> string) list"

text \<open>The etcd server and its decoder, as one round of requests finds them.\<close>

record world =
  wo_post :: "string \<Rightarrow> string \<Rightarrow> http_out"
  wo_watch :: "string \<Rightarrow> string \<Rightarrow> watch_out"
  wo_range :: "string \<Rightarrow> rangeResp option"

definition quoted :: "string \<Rightarrow> string" where "quoted s = [CHR 0x22] @ s @ [CHR 0x22]"

definition jobj :: "(string \<times> string) list \<Rightarrow> string" where
  "jobj kvs = ''{'' @ str_join '','' (map (\<lambda>(k, v). quoted k @ '':'' @ v) kvs) @ ''}''"

definition post :: "world \<Rightarrow> string \<Rightarrow> string \<Rightarrow> cfg_err + string" where
  "post w url body =
     (case wo_post w url body of
        HErr e \<Rightarrow> Inl (CTransport e)
      | HResp st b \<Rightarrow> if 300 \<le> st then Inl (CStatus st b) else Inr b)"

definition endpoint :: "string \<Rightarrow> string \<Rightarrow> string" where "endpoint base p = trim_right_set ''/'' base @ p"

definition range_req :: "world \<Rightarrow> string \<Rightarrow> string \<Rightarrow> cfg_err + rangeResp" where
  "range_req w base body =
     bindR (post w (endpoint base ''/v3/kv/range'') body) (\<lambda>raw.
       case wo_range w raw of None \<Rightarrow> Inl CJson | Some r \<Rightarrow> Inr r)"

definition key_body :: "string \<Rightarrow> string" where "key_body key = jobj [(''key'', quoted (b64 key))]"

definition etcd_Get :: "world \<Rightarrow> string \<Rightarrow> string \<Rightarrow> cfg_err + string \<times> bool \<times> int" where
  "etcd_Get w base key =
     bindR (range_req w base (key_body key)) (\<lambda>resp.
       let rv = fst (go_atoi (rr_Revision resp)) in
       case rr_Kvs resp of
         [] \<Rightarrow> Inr ([], False, rv)
       | (_, v) # _ \<Rightarrow> (case unb64 v of None \<Rightarrow> Inl CBase64 | Some x \<Rightarrow> Inr (x, True, rv)))"

definition etcd_Put :: "world \<Rightarrow> string \<Rightarrow> string \<Rightarrow> string \<Rightarrow> cfg_err + unit" where
  "etcd_Put w base key val =
     bindR (post w (endpoint base ''/v3/kv/put'') (jobj [(''key'', quoted (b64 key)), (''value'', quoted (b64 val))])) (\<lambda>_. Inr ())"

definition etcd_List :: "world \<Rightarrow> string \<Rightarrow> cfg_err + (string \<times> string) list" where
  "etcd_List w base =
     bindR (range_req w base (jobj [(''key'', quoted (b64 [CHR 0x00])), (''range_end'', quoted (b64 [CHR 0x00]))])) (\<lambda>resp.
       Inr (concat (map (\<lambda>(k, v). case (unb64 k, unb64 v) of (Some k', Some v') \<Rightarrow> [(k', v')] | _ \<Rightarrow> []) (rr_Kvs resp))))"

definition etcd_Delete :: "world \<Rightarrow> string \<Rightarrow> string \<Rightarrow> cfg_err + unit" where
  "etcd_Delete w base key = bindR (post w (endpoint base ''/v3/kv/deleterange'') (key_body key)) (\<lambda>_. Inr ())"

definition watch_body :: "string \<Rightarrow> int \<Rightarrow> string" where
  "watch_body key start = jobj [(''create_request'', jobj [(''key'', quoted (b64 key)), (''start_revision'', go_itoa start)])]"

definition on_event :: "(string \<Rightarrow> bool \<Rightarrow> 's \<Rightarrow> 's) \<Rightarrow> event \<Rightarrow> 's \<Rightarrow> 's" where
  "on_event fn ev x =
     (if ev_Type ev = ''DELETE'' then fn [] True x
      else case unb64 (ev_Value ev) of None \<Rightarrow> x | Some v \<Rightarrow> fn v False x)"

text \<open>\<open>watch\<close> ends with an error, always.\<close>

definition watch :: "world \<Rightarrow> string \<Rightarrow> string \<Rightarrow> int \<Rightarrow> (string \<Rightarrow> bool \<Rightarrow> 's \<Rightarrow> 's) \<Rightarrow> 's \<Rightarrow> 's \<times> cfg_err" where
  "watch w base key start fn x =
     (case wo_watch w (endpoint base ''/v3/watch'') (watch_body key start) of
        WFail e \<Rightarrow> (x, CTransport e)
      | WStatus st b \<Rightarrow> (x, CStatus st b)
      | WStream msgs e \<Rightarrow> (fold (fold (on_event fn)) msgs x, CStream e))"

section \<open>Variables\<close>

record cvar =
  cv_fallback :: string
  cv_v :: string
  cv_log :: "(string \<times> string) list"

definition NewVar :: "string \<Rightarrow> cvar" where
  "NewVar fallback = \<lparr>cv_fallback = fallback, cv_v = fallback, cv_log = []\<rparr>"

definition var_Get :: "cvar \<Rightarrow> string" where "var_Get x = cv_v x"

definition var_set :: "string \<Rightarrow> cvar \<Rightarrow> cvar" where
  "var_set s x = (if cv_v x = s then x else x\<lparr>cv_v := s, cv_log := cv_log x @ [(cv_v x, s)]\<rparr>)"

definition var_event :: "string \<Rightarrow> bool \<Rightarrow> cvar \<Rightarrow> cvar" where
  "var_event val del x = (if del then var_set (cv_fallback x) x else var_set val x)"

definition var_sync :: "world \<Rightarrow> string \<Rightarrow> string \<Rightarrow> cvar \<Rightarrow> cvar \<times> cfg_err" where
  "var_sync w base key x =
     (case etcd_Get w base key of
        Inl e \<Rightarrow> (x, e)
      | Inr (val, ok, rv) \<Rightarrow>
          watch w base key (wrap64 (rv + 1)) var_event (if ok then var_set val x else x))"

text \<open>\<open>Watch\<close> never returns: the variable after \<open>n\<close> rounds, \<open>ws i\<close> being the server in round \<open>i\<close>.\<close>

fun var_Watch :: "(nat \<Rightarrow> world) \<Rightarrow> string \<Rightarrow> string \<Rightarrow> nat \<Rightarrow> cvar \<Rightarrow> cvar" where
  "var_Watch ws base key 0 x = x"
| "var_Watch ws base key (Suc n) x = fst (var_sync (ws n) base key (var_Watch ws base key n x))"

section \<open>Consul\<close>

text \<open>\<open>net.SplitHostPort\<close> and \<open>net.JoinHostPort\<close>.\<close>

datatype addr_err = MissingPort | TooManyColons | MissingBracket | StrayBracket | BadPort

definition index_of :: "char \<Rightarrow> string \<Rightarrow> nat option" where
  "index_of c s = (if c \<in> set s then Some (length (takeWhile (\<lambda>x. x \<noteq> c) s)) else None)"

definition SplitHostPort :: "string \<Rightarrow> addr_err + string \<times> string" where
  "SplitHostPort a =
     (case last_index a CHR '':'' of
        None \<Rightarrow> Inl MissingPort
      | Some i \<Rightarrow>
          bindR (if hd a = CHR ''['' then
                   (case index_of CHR '']'' a of
                      None \<Rightarrow> Inl MissingBracket
                    | Some e \<Rightarrow>
                        if e + 1 = length a then Inl MissingPort
                        else if e + 1 = i then Inr (take (e - 1) (drop 1 a), 1, e + 1)
                        else if a ! (e + 1) = CHR '':'' then Inl TooManyColons else Inl MissingPort)
                 else if CHR '':'' \<in> set (take i a) then Inl TooManyColons else Inr (take i a, 0, 0))
            (\<lambda>(host, j, k).
               if CHR ''['' \<in> set (drop j a) \<or> CHR '']'' \<in> set (drop k a) then Inl StrayBracket
               else Inr (host, drop (i + 1) a)))"

definition JoinHostPort :: "string \<Rightarrow> string \<Rightarrow> string" where
  "JoinHostPort host port = (if CHR '':'' \<in> set host then ''['' @ host @ '']:'' @ port else host @ '':'' @ port)"

text \<open>\<open>url.PathEscape\<close>.\<close>

definition path_plain :: "char \<Rightarrow> bool" where "path_plain c \<longleftrightarrow> alpha_digit c \<or> c \<in> set ''-_.~$&+=:@''"

definition upper_hex :: "nat \<Rightarrow> char" where "upper_hex n = ''0123456789ABCDEF'' ! n"

definition PathEscape :: "string \<Rightarrow> string" where
  "PathEscape s = concat (map (\<lambda>c. if path_plain c then [c] else [CHR ''%'', upper_hex (ordc c div 16), upper_hex (ordc c mod 16)]) s)"

datatype disc_err = DAddr addr_err | DHttp string | DStatus int | DJson

text \<open>\<open>send\<close> is the HTTP client: method, URL and body.\<close>

type_synonym consul = "string \<Rightarrow> string \<Rightarrow> string \<Rightarrow> http_out"

definition put :: "consul \<Rightarrow> string \<Rightarrow> string \<Rightarrow> disc_err + unit" where
  "put send url body =
     (case send ''PUT'' url body of HErr e \<Rightarrow> Inl (DHttp e) | HResp st _ \<Rightarrow> if 300 \<le> st then Inl (DStatus st) else Inr ())"

definition register_body :: "(string \<Rightarrow> string) \<Rightarrow> string \<Rightarrow> string \<Rightarrow> int \<Rightarrow> string" where
  "register_body jq name host port =
     jobj [(''Address'', jq host), (''Check'', jobj [(''DeregisterCriticalServiceAfter'', quoted ''1m''), (''TTL'', quoted ''8s'')]),
           (''ID'', jq host), (''Name'', jq name), (''Port'', go_itoa port)]"

definition disc_Register :: "consul \<Rightarrow> (string \<Rightarrow> string) \<Rightarrow> string \<Rightarrow> string \<Rightarrow> string \<Rightarrow> disc_err + unit" where
  "disc_Register send jq base name addr =
     (case SplitHostPort addr of
        Inl e \<Rightarrow> Inl (DAddr e)
      | Inr (host, portStr) \<Rightarrow>
          (case go_atoi portStr of (port, ok) \<Rightarrow>
             if \<not> ok then Inl (DAddr BadPort)
             else bindR (put send (base @ ''/v1/agent/service/register'') (register_body jq name host port)) (\<lambda>_.
                  put send (base @ ''/v1/agent/check/pass/service:'' @ PathEscape host) [])))"

text \<open>\<open>rows\<close> decodes the answer: the addresses and ports of the instances that pass.\<close>

definition disc_Lookup :: "consul \<Rightarrow> (string \<Rightarrow> (string \<times> int) list option) \<Rightarrow> string \<Rightarrow> string \<Rightarrow> disc_err + string list" where
  "disc_Lookup send rows base name =
     (case send ''GET'' (endpoint base ''/v1/health/service/'' @ PathEscape name @ ''?passing=true'') [] of
        HErr e \<Rightarrow> Inl (DHttp e)
      | HResp st b \<Rightarrow>
          if 300 \<le> st then Inl (DStatus st)
          else (case rows b of
                  None \<Rightarrow> Inl DJson
                | Some rs \<Rightarrow> Inr (sort_key (map ordc)
                    (map (\<lambda>(a, p). JoinHostPort a (go_itoa p)) (filter (\<lambda>(a, p). a \<noteq> [] \<and> p \<noteq> 0) rs)))))"

end
