(* ===== verification/ConfigOk.thy ===== *)
theory ConfigOk
  imports Config "HOL-Library.Sublist"
begin

text \<open>
  Base64 is undone by its decoder; a variable follows its key in etcd, round by round and in the end;
  the addresses of a lookup in Consul can be dialled.
\<close>

section \<open>Base64\<close>

lemma b64_chars_ok: "\<forall>n\<in>set [0..<64]. b64_val (b64_char n) = Some n"
  by code_simp

lemma b64_val_char [simp]: "n < 64 \<Longrightarrow> b64_val (b64_char n) = Some n"
  using b64_chars_ok by simp

lemma b64_pad [simp]: "b64_val CHR ''='' = None"
  by code_simp

lemma b64_bounds [simp]:
  fixes a b :: nat
  shows "a < 256 \<Longrightarrow> a div 4 < 64" "a mod 4 * 16 < 64" "b < 256 \<Longrightarrow> a mod 4 * 16 + b div 16 < 64"
    "a mod 16 * 4 < 64" "b < 256 \<Longrightarrow> a mod 16 * 4 + b div 64 < 64"
proof -
  have m: "a mod 4 < 4" "a mod 16 < 16" by simp_all
  show "a < 256 \<Longrightarrow> a div 4 < 64" by simp
  show "a mod 4 * 16 < 64" "a mod 16 * 4 < 64" using m by linarith+
  assume b: "b < 256"
  then have "b div 16 < 16" "b div 64 < 4" by simp_all
  then show "a mod 4 * 16 + b div 16 < 64" "a mod 16 * 4 + b div 64 < 64" using m by linarith+
qed

lemma b64_arith [simp]:
  fixes b c :: nat
  assumes "b < 256"
  shows "b div 16 div 16 = 0" "b div 16 mod 16 * 16 + b mod 16 = b" "b div 64 mod 4 * 64 + b mod 64 = b"
    "c < 256 \<Longrightarrow> b div 16 mod 16 * 16 + (b mod 16 + c div 64 div 4) = b"
proof -
  have "b div 16 < 16" "b div 64 < 4" "c < 256 \<Longrightarrow> c div 64 < 4" using assms by simp_all
  then show "b div 16 div 16 = 0" "b div 16 mod 16 * 16 + b mod 16 = b" "b div 64 mod 4 * 64 + b mod 64 = b"
    "c < 256 \<Longrightarrow> b div 16 mod 16 * 16 + (b mod 16 + c div 64 div 4) = b" by simp_all
qed

lemma b64_dec_enc: "\<forall>b\<in>set bs. b < 256 \<Longrightarrow> b64_dec (b64_enc bs) = Some bs"
  by (induction bs rule: b64_enc.induct) (simp_all del: One_nat_def)

lemma b64_char_plain: "n < 64 \<Longrightarrow> b64_char n \<noteq> CHR 0x0D \<and> b64_char n \<noteq> CHR 0x0A \<and> b64_char n \<noteq> CHR 0x22 \<and> b64_char n \<noteq> CHR 0x5C"
proof -
  have "\<forall>n\<in>set [0..<64]. b64_char n \<noteq> CHR 0x0D \<and> b64_char n \<noteq> CHR 0x0A \<and> b64_char n \<noteq> CHR 0x22 \<and> b64_char n \<noteq> CHR 0x5C" by code_simp
  then show "n < 64 \<Longrightarrow> ?thesis" by simp
qed

lemma b64_enc_plain: "\<forall>b\<in>set bs. b < 256 \<Longrightarrow> c \<in> set (b64_enc bs) \<Longrightarrow> c \<noteq> CHR 0x0D \<and> c \<noteq> CHR 0x0A"
  by (induction bs rule: b64_enc.induct) (auto simp: b64_char_plain)

lemma ordc_bound: "ordc c < 256" by (simp add: ordc_def)

lemma unb64_b64: "unb64 (b64 s) = Some s"
proof -
  have "\<forall>b\<in>set (map ordc s). b < 256" using ordc_bound by auto
  note e = b64_enc_plain [OF this] b64_dec_enc [OF this]
  have "filter (\<lambda>c. c \<noteq> CHR 0x0D \<and> c \<noteq> CHR 0x0A) (b64 s) = b64 s" using e(1) by (simp add: filter_id_conv b64_def)
  then show ?thesis using e(2) by (simp add: unb64_def b64_def ordc_def comp_def)
qed

section \<open>An etcd server\<close>

text \<open>
  What etcd documents: \<open>H\<close> is the sequence of all changes of keys, each of which raises the revision
  by one from 1; a range answers with the state and revision after \<open>n\<close> of them, and a watch
  that starts at a revision delivers the changes of the key from there on, in order, until it breaks.
\<close>

type_synonym changes = "(string \<times> string option) list"

definition kv_at :: "changes \<Rightarrow> string \<Rightarrow> string option" where
  "kv_at H key = fold (\<lambda>(k, v) acc. if k = key then v else acc) H None"

definition ev_of :: "string option \<Rightarrow> event" where
  "ev_of v = (case v of None \<Rightarrow> \<lparr>ev_Type = ''DELETE'', ev_Value = []\<rparr> | Some x \<Rightarrow> \<lparr>ev_Type = ''PUT'', ev_Value = b64 x\<rparr>)"

definition of_key :: "string \<Rightarrow> changes \<Rightarrow> string option list" where
  "of_key key H = map snd (filter (\<lambda>c. fst c = key) H)"

definition range_ok :: "string \<Rightarrow> string \<Rightarrow> world \<Rightarrow> bool" where
  "range_ok base key w \<longleftrightarrow> (case wo_post w (endpoint base ''/v3/kv/range'') (key_body key) of HErr _ \<Rightarrow> False | HResp st _ \<Rightarrow> st < 300)"

definition etcd_answers :: "changes \<Rightarrow> string \<Rightarrow> string \<Rightarrow> world \<Rightarrow> nat \<Rightarrow> bool" where
  "etcd_answers H base key w n \<longleftrightarrow> n \<le> length H \<and> int (length H) + 2 < 2 ^ 63 \<and>
     (\<forall>st raw. wo_post w (endpoint base ''/v3/kv/range'') (key_body key) = HResp st raw \<longrightarrow> st < 300 \<longrightarrow>
        wo_range w raw = Some \<lparr>rr_Revision = go_itoa (int n + 1),
          rr_Kvs = (case kv_at (take n H) key of None \<Rightarrow> [] | Some v \<Rightarrow> [(b64 key, b64 v)])\<rparr>) \<and>
     (\<forall>msgs err. wo_watch w (endpoint base ''/v3/watch'') (watch_body key (int n + 2)) = WStream msgs err \<longrightarrow>
        prefix (concat msgs) (map ev_of (of_key key (drop n H))))"

lemma kv_at_append: "kv_at (s @ t) key = (if of_key key t = [] then kv_at s key else last (of_key key t))"
proof (induction t rule: rev_induct)
  case (snoc c t)
  have "kv_at (s @ t @ [c]) key = (if fst c = key then snd c else kv_at (s @ t) key)"
    unfolding kv_at_def by (cases c) (simp add: fold_append)
  then show ?case using snoc by (auto simp: of_key_def)
qed (simp add: of_key_def)

lemma prefix_filter: "prefix ys (filter P xs) \<Longrightarrow> \<exists>k\<le>length xs. ys = filter P (take k xs)"
proof (induction xs arbitrary: ys)
  case (Cons x xs)
  show ?case
  proof (cases "P x \<and> ys \<noteq> []")
    case True
    then obtain zs where "ys = x # zs" "prefix zs (filter P xs)" using Cons.prems by (cases ys) auto
    then show ?thesis using Cons.IH [of zs] True by (metis Suc_le_mono filter.simps(2) length_Cons take_Suc_Cons)
  next
    case False
    then show ?thesis
    proof (cases "ys = []")
      case True
      then show ?thesis by (intro exI [of _ 0]) simp
    next
      case nonempty: False
      then show ?thesis using Cons False by (metis Suc_le_mono filter.simps(2) length_Cons take_Suc_Cons)
    qed
  qed
qed simp

lemma fold_events:
  "cv_fallback (fold (on_event var_event) (map ev_of vs) x) = cv_fallback x"
  "cv_v (fold (on_event var_event) (map ev_of vs) x) =
     (if vs = [] then cv_v x else case last vs of None \<Rightarrow> cv_fallback x | Some v \<Rightarrow> v)"
proof (induction vs arbitrary: x)
  have e: "on_event var_event (ev_of v) x = (case v of None \<Rightarrow> var_set (cv_fallback x) x | Some s \<Rightarrow> var_set s x)" for v x
    by (simp add: on_event_def ev_of_def unb64_b64 var_event_def split: option.split)
  case (Cons v vs)
  { case 1 show ?case using Cons(1) [of "on_event var_event (ev_of v) x"] by (simp add: e var_set_def split: option.split) }
  { case 2 show ?case
      using Cons(2) [of "on_event var_event (ev_of v) x"] by (auto simp: e var_set_def split: option.split) }
qed simp_all

lemma fold_fold: "fold (fold f) xss x = fold f (concat xss) x"
  by (induction xss arbitrary: x) simp_all

lemma get_answer:
  assumes "etcd_answers H base key w n" and "range_ok base key w"
  shows "etcd_Get w base key = Inr (case kv_at (take n H) key of None \<Rightarrow> ([], False, int n + 1) | Some v \<Rightarrow> (v, True, int n + 1))"
proof -
  have n: "- (2 ^ 63) \<le> int n + 1" "int n + 1 < 2 ^ 63" using assms(1) by (simp_all add: etcd_answers_def)
  obtain st raw where p: "wo_post w (endpoint base ''/v3/kv/range'') (key_body key) = HResp st raw" "st < 300"
    using assms(2) by (auto simp: range_ok_def split: http_out.splits)
  then show ?thesis
    using assms(1) atoi_itoa [OF n]
    by (auto simp: etcd_answers_def etcd_Get_def range_req_def post_def unb64_b64 split: option.split)
qed

lemma get_fails: "\<not> range_ok base key w \<Longrightarrow> \<exists>e. etcd_Get w base key = Inl e"
  by (auto simp: range_ok_def etcd_Get_def range_req_def post_def split: http_out.splits)

lemma sync_value:
  assumes a: "etcd_answers H base key w n" and ok: "range_ok base key w"
  obtains k where "k \<le> length H - n"
    and "cv_fallback (fst (var_sync w base key x)) = cv_fallback x"
    and "cv_v (fst (var_sync w base key x)) =
      (let vs = of_key key (take k (drop n H)) in
       if vs \<noteq> [] then (case last vs of None \<Rightarrow> cv_fallback x | Some v \<Rightarrow> v)
       else (case kv_at (take n H) key of None \<Rightarrow> cv_v x | Some v \<Rightarrow> v))"
proof -
  let ?x = "case kv_at (take n H) key of None \<Rightarrow> x | Some v \<Rightarrow> var_set v x"
  let ?wo = "wo_watch w (endpoint base ''/v3/watch'') (watch_body key (int n + 2))"
  have x: "cv_fallback ?x = cv_fallback x" "cv_v ?x = (case kv_at (take n H) key of None \<Rightarrow> cv_v x | Some v \<Rightarrow> v)"
    by (simp_all add: var_set_def split: option.split)
  have "wrap64 (int n + 1 + 1) = int n + 2" using a by (simp add: wrap64_id etcd_answers_def)
  then have s: "fst (var_sync w base key x) = fst (watch w base key (int n + 2) var_event ?x)"
    unfolding var_sync_def get_answer [OF a ok] by (simp split: option.split)
  show thesis
  proof (cases ?wo)
    case (WStream msgs err)
    then have "prefix (concat msgs) (map ev_of (of_key key (drop n H)))" using a by (simp add: etcd_answers_def)
    then obtain vs where vs: "prefix vs (of_key key (drop n H))" "concat msgs = map ev_of vs" by (metis prefix_map_rightE)
    then obtain cs where "prefix cs (filter (\<lambda>c. fst c = key) (drop n H))" "vs = map snd cs" unfolding of_key_def by (metis prefix_map_rightE)
    then obtain k where k: "k \<le> length H - n" "vs = of_key key (take k (drop n H))" using prefix_filter unfolding of_key_def by (metis length_drop)
    have f: "fst (var_sync w base key x) = fold (on_event var_event) (map ev_of vs) ?x"
      unfolding s watch_def WStream fold_fold using vs(2) WStream by simp
    have "cv_fallback (fst (var_sync w base key x)) = cv_fallback x"
      "cv_v (fst (var_sync w base key x)) =
      (let vs = of_key key (take k (drop n H)) in
       if vs \<noteq> [] then (case last vs of None \<Rightarrow> cv_fallback x | Some v \<Rightarrow> v)
       else (case kv_at (take n H) key of None \<Rightarrow> cv_v x | Some v \<Rightarrow> v))"
      unfolding f fold_events x k(2) [symmetric] Let_def by simp_all
    then show thesis by (rule that [OF k(1)])
  qed (use that [of 0] s x in \<open>simp_all add: watch_def of_key_def\<close>)
qed

text \<open>After a round the variable has the value of etcd at some revision of the round; if the range fails,
  or the key is missing there and no change of it arrives, it has the value it had.\<close>

lemma config_follows:
  assumes "etcd_answers H base key w n"
  shows "\<exists>m. n \<le> m \<and> m \<le> length H \<and>
     var_Get (fst (var_sync w base key x)) =
       (if \<not> range_ok base key w then var_Get x
        else case kv_at (take m H) key of
          Some v \<Rightarrow> v
        | None \<Rightarrow> if of_key key (drop n (take m H)) = [] then var_Get x else cv_fallback x)"
proof (cases "range_ok base key w")
  case False
  then obtain e where "etcd_Get w base key = Inl e" using get_fails by blast
  then show ?thesis using False assms by (intro exI [of _ n]) (simp add: var_sync_def etcd_answers_def)
next
  case True
  obtain k where k: "k \<le> length H - n"
    and v: "cv_v (fst (var_sync w base key x)) =
      (let vs = of_key key (take k (drop n H)) in
       if vs \<noteq> [] then (case last vs of None \<Rightarrow> cv_fallback x | Some v \<Rightarrow> v)
       else (case kv_at (take n H) key of None \<Rightarrow> cv_v x | Some v \<Rightarrow> v))"
    using sync_value [OF assms True] by blast
  have n: "n \<le> length H" using assms by (simp add: etcd_answers_def)
  have t: "take (n + k) H = take n H @ take k (drop n H)" "drop n (take (n + k) H) = take k (drop n H)"
    using n by (simp_all add: take_add)
  show ?thesis
    by (intro exI [of _ "n + k"])
      (use k n v True in \<open>auto simp: t kv_at_append var_Get_def Let_def split: option.split\<close>)
qed

lemma sync_stable:
  assumes a: "etcd_answers H base key w (length H)"
  shows "var_Get (fst (var_sync w base key x)) =
     (if range_ok base key w then case kv_at H key of Some v \<Rightarrow> v | None \<Rightarrow> var_Get x else var_Get x)"
proof (cases "range_ok base key w")
  case True
  show ?thesis
    by (rule sync_value [OF a True, of x]) (use True in \<open>auto simp: of_key_def var_Get_def split: option.split\<close>)
next
  case False
  then obtain e where "etcd_Get w base key = Inl e" using get_fails by blast
  then show ?thesis using False by (simp add: var_sync_def)
qed


definition demo_changes :: changes where "demo_changes = [(''mode'', Some ''a''), (''x'', Some ''1''), (''mode'', Some ''b'')]"

text \<open>A server that has seen \<open>n\<close> of the changes and breaks every watch after the changes it still has.\<close>

definition demo_world :: "changes \<Rightarrow> string \<Rightarrow> nat \<Rightarrow> world" where
  "demo_world H key n =
     \<lparr>wo_post = (\<lambda>_ _. HResp 200 []),
      wo_watch = (\<lambda>_ _. WStream (map (\<lambda>v. [ev_of v]) (of_key key (drop n H))) ''EOF''),
      wo_range = (\<lambda>_. Some \<lparr>rr_Revision = go_itoa (int n + 1),
        rr_Kvs = (case kv_at (take n H) key of None \<Rightarrow> [] | Some v \<Rightarrow> [(b64 key, b64 v)])\<rparr>)\<rparr>"

lemma demo_world_answers: "n \<le> length H \<Longrightarrow> int (length H) + 2 < 2 ^ 63 \<Longrightarrow> etcd_answers H base key (demo_world H key n) n"
  by (simp add: etcd_answers_def demo_world_def comp_def concat_map_singleton)

lemma demo_world_ok: "range_ok base key (demo_world H key n)"
  by (simp add: range_ok_def demo_world_def)


section \<open>Addresses\<close>

lemma last_index_append: "c \<notin> set t \<Longrightarrow> last_index (s @ c # t) c = Some (length s)"
proof (induction s)
  case Nil
  have "c \<notin> set t \<Longrightarrow> last_index t c = None" by (induction t) auto
  with Nil show ?case by simp
qed simp

lemma itoa_chars: "c \<in> set (go_itoa i) \<Longrightarrow> is_digit_c c \<or> c = CHR ''-''"
  using nat_str_digits by (auto simp: go_itoa_def list_all_iff split: if_splits)

lemma itoa_plain: "CHR '':'' \<notin> set (go_itoa i)" "CHR ''['' \<notin> set (go_itoa i)" "CHR '']'' \<notin> set (go_itoa i)"
  by (rule notI, drule itoa_chars, simp add: is_digit_c_def ordc_def)+

lemma split_join:
  assumes "CHR ''['' \<notin> set h" and "CHR '']'' \<notin> set h"
  shows "SplitHostPort (JoinHostPort h (go_itoa p)) = Inr (h, go_itoa p)"
proof (cases "CHR '':'' \<in> set h")
  case True
  let ?a = "''['' @ h @ '']:'' @ go_itoa p"
  have i: "last_index ?a CHR '':'' = Some (length h + 2)"
    using last_index_append [OF itoa_plain(1), of "''['' @ h @ '']''" p] by simp
  have "takeWhile (\<lambda>x. x \<noteq> CHR '']'') ?a = ''['' @ h" using assms(2) by (simp add: takeWhile_append)
  then have e: "index_of CHR '']'' ?a = Some (length h + 1)" by (simp add: index_of_def)
  show ?thesis using True assms itoa_plain [of p] i e by (simp add: JoinHostPort_def SplitHostPort_def bindR_def)
next
  case False
  let ?a = "h @ '':'' @ go_itoa p"
  have i: "last_index ?a CHR '':'' = Some (length h)"
    using last_index_append [OF itoa_plain(1), of h p] by simp
  have h: "hd ?a \<noteq> CHR ''[''" using assms(1) by (cases h) auto
  show ?thesis using False assms itoa_plain [of p] i h by (simp add: JoinHostPort_def SplitHostPort_def bindR_def)
qed

lemma Lookup_dialable:
  assumes "disc_Lookup send rows base name = Inr addrs" and "a \<in> set addrs"
    and "\<And>b rs h p. rows b = Some rs \<Longrightarrow> (h, p) \<in> set rs \<Longrightarrow> CHR ''['' \<notin> set h \<and> CHR '']'' \<notin> set h"
  obtains h p where "SplitHostPort a = Inr (h, go_itoa p)" and "h \<noteq> []" and "p \<noteq> 0"
proof -
  obtain b rs where rs: "rows b = Some rs"
    "addrs = sort_key (map ordc) (map (\<lambda>(a, p). JoinHostPort a (go_itoa p)) (filter (\<lambda>(a, p). a \<noteq> [] \<and> p \<noteq> 0) rs))"
    using assms(1) by (auto simp: disc_Lookup_def split: http_out.splits if_splits option.splits)
  then obtain h p where h: "(h, p) \<in> set rs" "h \<noteq> []" "p \<noteq> 0" "a = JoinHostPort h (go_itoa p)"
    using assms(2) by auto
  then have "CHR ''['' \<notin> set h" "CHR '']'' \<notin> set h" using assms(3) [OF rs(1)] by blast+
  from that [of h p] split_join [OF this] h show thesis by simp
qed

end
