(* ===== verification/Live.thy ===== *)
theory Live
  imports Platform
begin

text \<open>
  The running log of a build or deployment in platform/server/ops.go (\<open>liveRun\<close>) and the streams that
  follow it in http.go (\<open>watchLive\<close>, \<open>followLive\<close>). A watcher has a channel; what is sent on its stream
  is kept with the channel. Each operation runs under the mutex of the log: an interleaving is a list of them.
\<close>

section \<open>The text\<close>

abbreviation CR :: char where "CR \<equiv> CHR 0x0D"
abbreviation NL :: char where "NL \<equiv> CHR 0x0A"

text \<open>\<open>strings.ReplaceAll\<close> of CR LF by LF.\<close>

fun crlf :: "string \<Rightarrow> string" where
  "crlf (a # b # s) = (if a = CR \<and> b = NL then NL # crlf s else a # crlf (b # s))"
| "crlf s = s"

text \<open>One byte of \<open>absorb\<close> on the lines that are complete and the current one.\<close>

definition absorb_byte :: "char \<Rightarrow> string \<times> string \<Rightarrow> string \<times> string" where
  "absorb_byte c = (\<lambda>(buf, cur).
     if c = CR then (buf, []) else if c = NL then (buf @ cur @ [NL], []) else (buf, cur @ [c]))"

definition absorb :: "string \<Rightarrow> string \<times> string \<Rightarrow> string \<times> string" where
  "absorb s = fold absorb_byte (crlf s)"

section \<open>Watchers\<close>

text \<open>The channel of a watcher (64 texts at most), whether it is closed, and the text its stream has had.\<close>

record chan =
  ch_queue :: "string list"
  ch_closed :: bool
  ch_text :: string

record liveRun =
  lr_buf :: string
  lr_cur :: string
  lr_sent :: nat
  lr_subs :: "nat list"
  lr_closed :: bool

text \<open>The log and all channels made for it; a channel is a number.\<close>

record hub =
  hb_run :: liveRun
  hb_chans :: "chan list"

definition new_hub :: hub where
  "new_hub = \<lparr>hb_run = \<lparr>lr_buf = [], lr_cur = [], lr_sent = 0, lr_subs = [], lr_closed = False\<rparr>, hb_chans = []\<rparr>"

definition live_String :: "liveRun \<Rightarrow> string" where "live_String l = lr_buf l @ lr_cur l"

definition upd_chan :: "nat \<Rightarrow> (chan \<Rightarrow> chan) \<Rightarrow> hub \<Rightarrow> hub" where
  "upd_chan i f h = h\<lparr>hb_chans := (hb_chans h)[i := f (hb_chans h ! i)]\<rparr>"

text \<open>\<open>select { case ch <- delta: default: }\<close>.\<close>

definition offer :: "string \<Rightarrow> chan \<Rightarrow> chan" where
  "offer delta c = (if length (ch_queue c) < 64 then c\<lparr>ch_queue := ch_queue c @ [delta]\<rparr> else c)"

definition live_Write :: "string \<Rightarrow> hub \<Rightarrow> hub" where
  "live_Write p h =
     (let l = hb_run h; (buf, cur) = absorb p (lr_buf l, lr_cur l); full = buf @ cur; l1 = l\<lparr>lr_buf := buf, lr_cur := cur\<rparr> in
      if lr_sent l < length full
      then fold (\<lambda>i. upd_chan i (offer (drop (lr_sent l) full))) (lr_subs l) (h\<lparr>hb_run := l1\<lparr>lr_sent := length full\<rparr>\<rparr>)
      else h\<lparr>hb_run := l1\<rparr>)"

text \<open>\<open>subscribe\<close>, and the snapshot on the stream of the watcher.\<close>

definition live_subscribe :: "hub \<Rightarrow> hub" where
  "live_subscribe h =
     (let l = hb_run h; i = length (hb_chans h); c = \<lparr>ch_queue = [], ch_closed = lr_closed l, ch_text = live_String l\<rparr> in
      h\<lparr>hb_chans := hb_chans h @ [c], hb_run := (if lr_closed l then l else l\<lparr>lr_subs := lr_subs l @ [i]\<rparr>)\<rparr>)"

definition live_cancel :: "nat \<Rightarrow> hub \<Rightarrow> hub" where
  "live_cancel i h = h\<lparr>hb_run := (hb_run h)\<lparr>lr_subs := remove1 i (lr_subs (hb_run h))\<rparr>\<rparr>"

definition live_finish :: "hub \<Rightarrow> hub" where
  "live_finish h =
     (if lr_closed (hb_run h) then h
      else (fold (\<lambda>i. upd_chan i (\<lambda>c. c\<lparr>ch_closed := True\<rparr>)) (lr_subs (hb_run h)) h)
             \<lparr>hb_run := (hb_run h)\<lparr>lr_closed := True, lr_subs := []\<rparr>\<rparr>)"

text \<open>\<open>case delta, ok := <-ch\<close>: the next text goes onto the stream.\<close>

definition live_recv :: "nat \<Rightarrow> hub \<Rightarrow> hub" where
  "live_recv i = upd_chan i (\<lambda>c. case ch_queue c of [] \<Rightarrow> c | d # q \<Rightarrow> c\<lparr>ch_queue := q, ch_text := ch_text c @ d\<rparr>)"

section \<open>Streams\<close>

record build_view =
  bv_Status :: string
  bv_Log :: string
  bv_Error :: string

datatype run_event = Text string | Done string string

definition text_ev :: "string \<Rightarrow> run_event list" where "text_ev s = (if s = [] then [] else [Text s])"

definition doneFrom :: "build_view \<Rightarrow> run_event" where
  "doneFrom b =
     Done (bv_Status b)
       (if bv_Error b = [] \<and> bv_Status b \<noteq> [] \<and> bv_Status b \<noteq> ''ok'' \<and> bv_Status b \<noteq> ''running'' then bv_Status b else bv_Error b)"

definition doneFollow :: "build_view \<Rightarrow> run_event" where
  "doneFollow b =
     Done (bv_Status b) (if bv_Error b = [] \<and> bv_Status b \<noteq> [] \<and> bv_Status b \<noteq> ''ok'' then bv_Status b else bv_Error b)"

text \<open>A stream that follows a live log: the snapshot, the texts of its channel until it is closed, the record
  that is read then; an error of that read ends the stream.\<close>

definition stream_live :: "string \<Rightarrow> string list \<Rightarrow> (build_view \<Rightarrow> run_event) \<Rightarrow> 'e + build_view \<Rightarrow> run_event list \<times> 'e option" where
  "stream_live snap deltas fin b =
     (let evs = text_ev snap @ concat (map text_ev deltas) in
      case b of Inl e \<Rightarrow> (evs, Some e) | Inr v \<Rightarrow> (evs @ [fin v], None))"

definition followLive :: "string \<Rightarrow> string \<Rightarrow> string list \<Rightarrow> 'e + build_view \<Rightarrow> run_event list \<times> 'e option" where
  "followLive already snap deltas b = stream_live (trim_prefix snap already) deltas doneFollow b"

text \<open>Without a live log the record is polled: in each round what is read, and the log if there is one by then,
  with what it will bring. The rounds stop where the client goes away.\<close>

type_synonym 'e tick = "('e + build_view) \<times> (string \<times> string list \<times> ('e + build_view)) option"

fun poll :: "string \<Rightarrow> 'e tick list \<Rightarrow> run_event list \<times> 'e option" where
  "poll prev [] = ([], None)"
| "poll prev ((r, live) # ts) =
     (case r of
        Inl e \<Rightarrow> ([], Some e)
      | Inr b \<Rightarrow>
          (let evs = (if bv_Log b \<noteq> prev then [Text (trim_prefix (bv_Log b) prev)] else []) in
           if bv_Status b \<noteq> ''running'' then (evs @ [doneFrom b], None)
           else (case live of
                   Some (snap, deltas, fin) \<Rightarrow> (case followLive (bv_Log b) snap deltas fin of (rest, e) \<Rightarrow> (evs @ rest, e))
                 | None \<Rightarrow> (case poll (bv_Log b) ts of (rest, e) \<Rightarrow> (evs @ rest, e)))))"

definition watchLive ::
  "(string \<times> string list \<times> ('e + build_view)) option \<Rightarrow> 'e + build_view \<Rightarrow> 'e tick list \<Rightarrow> run_event list \<times> 'e option" where
  "watchLive live first ts =
     (case live of
        Some (snap, deltas, fin) \<Rightarrow> stream_live snap deltas doneFrom fin
      | None \<Rightarrow>
          (case first of
             Inl e \<Rightarrow> ([], Some e)
           | Inr b \<Rightarrow>
               if bv_Status b \<noteq> ''running'' then (text_ev (bv_Log b) @ [doneFrom b], None)
               else (case poll (bv_Log b) ts of (evs, e) \<Rightarrow> (text_ev (bv_Log b) @ evs, e))))"

end
