(* ===== verification/Repo.thy ===== *)
theory Repo
  imports Live
begin

text \<open>
  platform/server/ops.go, the parts that work on text: checks of branches, labels and script paths, the
  output of \<open>git ls-remote\<close>, paths (\<open>path/filepath\<close>), and how a build runs (\<open>gitSync\<close>, \<open>compileJob\<close>): what it
  writes to its log and how it ends, given the outcome of the commands and files it uses.
\<close>

section \<open>Paths\<close>

text \<open>\<open>filepath.Clean\<close> and \<open>filepath.Join\<close> on Unix.\<close>

definition clean_seg :: "bool \<Rightarrow> string \<Rightarrow> string list \<Rightarrow> string list" where
  "clean_seg rooted s out =
     (if s = [] \<or> s = ''.'' then out
      else if s = ''..'' then
        (if out \<noteq> [] \<and> last out \<noteq> ''..'' then butlast out else if rooted then out else out @ [''..''])
      else out @ [s])"

definition path_Clean :: "string \<Rightarrow> string" where
  "path_Clean p =
     (if p = [] then ''.''
      else (let rooted = (hd p = CHR ''/''); segs = fold (clean_seg rooted) (split_on CHR ''/'' p) [];
                s = (if rooted then ''/'' else []) @ str_join ''/'' segs in
            if s = [] then ''.'' else s))"

definition path_Join :: "string list \<Rightarrow> string" where
  "path_Join es = (case dropWhile (\<lambda>e. e = []) es of [] \<Rightarrow> [] | es1 \<Rightarrow> path_Clean (str_join ''/'' es1))"

text \<open>\<open>filepath.Dir\<close> and \<open>filepath.Base\<close>.\<close>

definition path_Dir :: "string \<Rightarrow> string" where
  "path_Dir p = path_Clean (case last_index p CHR ''/'' of None \<Rightarrow> [] | Some i \<Rightarrow> take (i + 1) p)"

definition path_Base :: "string \<Rightarrow> string" where
  "path_Base p =
     (if p = [] then ''.''
      else (let q = trim_right_set ''/'' p; b = (case last_index q CHR ''/'' of None \<Rightarrow> q | Some i \<Rightarrow> drop (i + 1) q) in
            if b = [] then ''/'' else b))"

section \<open>Checks\<close>

datatype ops_err =
    LabelRequired | BadLabel | BranchRequired | BadBranch | BadScmName | GitURLRequired | BadScriptPath
  | GitFails string | OpsDb sql_err | UnknownScm string | UnknownDeploy string | StillUsed string
  | BuildNotFound | DeployNotFound | BuildRunning | DeployRunning | BadDeployName | ScmErr ops_err
  | BadComposeService string | BadVersion | NoArtifactRow string string | ArtifactStatus string | NoArtifactFile string

definition checkLabel :: "string \<Rightarrow> ops_err + unit" where
  "checkLabel s0 =
     (let s = trim_space s0 in
      if s = [] then Inl LabelRequired else if \<not> jobName s then Inl BadLabel else Inr ())"

definition checkBranch :: "string \<Rightarrow> ops_err + unit" where
  "checkBranch s0 =
     (let s = trim_space s0 in
      if s = [] then Inl BranchRequired
      else if str_contains s ''..'' \<or> has_prefix s ''-'' \<or> contains_any s ([CHR '' '', CHR 0x09, CHR 0x0A] @ ''~^:?*['' @ [CHR 0x5C])
      then Inl BadBranch else Inr ())"

definition checkScriptRel :: "string \<Rightarrow> ops_err + unit" where
  "checkScriptRel rel0 =
     (let rel = trim_space rel0 in
      if rel = [] \<or> has_prefix rel ''/'' \<or> str_contains rel ''..'' then Inl BadScriptPath else Inr ())"

section \<open>Git\<close>

record git_branch =
  gb_Name :: string
  gb_Commit :: string

definition tab :: string where "tab = [CHR 0x09]"

definition ls_line :: "string \<Rightarrow> string \<times> git_branch list \<Rightarrow> string \<times> git_branch list" where
  "ls_line line0 = (\<lambda>(def, branches).
     let line = trim_space line0 in
     if line = [] then (def, branches)
     else if has_prefix line ''ref: '' then
       (trim_prefix (fst (str_cut (trim_prefix line ''ref: '') tab)) ''refs/heads/'', branches)
     else (case str_cut line tab of
             (hash, ref, ok) \<Rightarrow>
               if \<not> ok \<or> \<not> has_prefix ref ''refs/heads/'' then (def, branches)
               else (def, branches @ [\<lparr>gb_Name = trim_prefix ref ''refs/heads/'', gb_Commit = hash\<rparr>])))"

definition parseGitLsRemote :: "string \<Rightarrow> string \<times> git_branch list" where
  "parseGitLsRemote out = fold ls_line (split_on CHR 0x0A out) ([], [])"

definition normalizeGitURL :: "(string \<Rightarrow> string) \<Rightarrow> string \<Rightarrow> string" where
  "normalizeGitURL u s0 =
     (let s = trim_space (to_lower u s0);
          s = trim_prefix (trim_prefix (trim_prefix (trim_prefix (trim_suffix s ''.git'') ''git@'') ''ssh://'') ''https://'') ''http://''
      in trim_set ''/'' (map (\<lambda>c. if c = CHR '':'' then CHR ''/'' else c) s))"

definition gitRemoteMatches :: "(string \<Rightarrow> string) \<Rightarrow> string \<Rightarrow> string \<Rightarrow> bool" where
  "gitRemoteMatches u origin want \<longleftrightarrow> normalizeGitURL u origin = normalizeGitURL u want"

section \<open>Runs with a log\<close>

text \<open>What is written, in order, and the error or the result. A command is a run too.\<close>

type_synonym 'a logged = "string list \<times> (string + 'a)"

definition retL :: "'a \<Rightarrow> 'a logged" where "retL x = ([], Inr x)"
definition failL :: "string \<Rightarrow> 'a logged" where "failL e = ([], Inl e)"
definition sayL :: "string \<Rightarrow> unit logged" where "sayL s = ([s], Inr ())"

definition bindL :: "'a logged \<Rightarrow> ('a \<Rightarrow> 'b logged) \<Rightarrow> 'b logged" where
  "bindL m f = (case m of (ws, Inl e) \<Rightarrow> (ws, Inl e) | (ws, Inr x) \<Rightarrow> (case f x of (ws', r) \<Rightarrow> (ws @ ws', r)))"

text \<open>\<open>fmt.Errorf("what: %w", err)\<close>.\<close>

definition wrapL :: "string \<Rightarrow> 'a logged \<Rightarrow> 'a logged" where
  "wrapL what m = (case m of (ws, Inl e) \<Rightarrow> (ws, Inl (what @ '': '' @ e)) | (ws, Inr x) \<Rightarrow> (ws, Inr x))"

definition okL :: "string option \<Rightarrow> unit logged" where
  "okL e = (case e of None \<Rightarrow> retL () | Some x \<Rightarrow> failL x)"

text \<open>What a sync finds: a clone with its origin, and the outcome of each command and file operation.\<close>

record sync_env =
  sy_lower :: "string \<Rightarrow> string"
  sy_origin :: "string option"
  sy_git :: "string list \<Rightarrow> unit logged"
  sy_removeAll :: "string option"
  sy_mkdirAll :: "string option"

definition gitSync :: "sync_env \<Rightarrow> string \<Rightarrow> string \<Rightarrow> string \<Rightarrow> string \<Rightarrow> string logged" where
  "gitSync s root name url branch =
     (let work = path_Join [root, ''scm-work'', name] in
      bindL (if (case sy_origin s of None \<Rightarrow> False | Some o1 \<Rightarrow> gitRemoteMatches (sy_lower s) o1 url)
             then bindL (sayL (ln ''$ git fetch origin'')) (\<lambda>_. wrapL ''git fetch'' (sy_git s [''fetch'', ''--progress'', ''origin'']))
             else bindL (okL (sy_removeAll s)) (\<lambda>_. bindL (okL (sy_mkdirAll s)) (\<lambda>_.
                  bindL (sayL (ln (''$ git clone --progress '' @ url))) (\<lambda>_.
                  wrapL ''git clone'' (sy_git s [''clone'', ''--progress'', url, work]))))) (\<lambda>_.
      bindL (if branch \<noteq> [] then
               bindL (sayL (ln (''$ git checkout '' @ branch))) (\<lambda>_.
               wrapL (''git checkout '' @ branch) (sy_git s [''checkout'', ''-B'', branch, ''origin/'' @ branch]))
             else bindL (sayL (ln ''$ git reset --hard origin/HEAD'')) (\<lambda>_.
               wrapL ''git pull'' (sy_git s [''reset'', ''--hard'', ''origin/HEAD'']))) (\<lambda>_.
      retL work)))"

datatype file_stat = Missing | IsDir | IsFile

definition scriptInRepo :: "(string \<Rightarrow> file_stat) \<Rightarrow> string \<Rightarrow> string \<Rightarrow> string + string" where
  "scriptInRepo stat repo rel =
     (if \<not> isOk (checkScriptRel rel) then Inl ''script path must be relative to repo''
      else (let p = path_Join [repo, path_Clean rel] in
            case stat p of
              Missing \<Rightarrow> Inl (''script not found: '' @ rel)
            | IsDir \<Rightarrow> Inl (''script is a directory: '' @ rel)
            | IsFile \<Rightarrow> Inr p))"

definition image_marker :: "string \<Rightarrow> string" where
  "image_marker commit = ln ''minikitex-image'' @ ln (''commit='' @ commit)"

text \<open>\<open>raw\<close>: the first 512 bytes of the artifact.\<close>

definition imageArtifactCommit :: "string option \<Rightarrow> string" where
  "imageArtifactCommit file =
     (case file of
        None \<Rightarrow> []
      | Some content \<Rightarrow>
          (let raw = take 512 content in
           if \<not> has_prefix raw (ln ''minikitex-image'') then []
           else (case find (\<lambda>l. has_prefix l ''commit='') (split_on CHR 0x0A raw) of
                   Some l \<Rightarrow> trim_space (drop 7 l)
                 | None \<Rightarrow> [])))"

record scmJob =
  sj_ID :: int
  sj_Name :: string
  sj_GitURL :: string
  sj_ScriptPath :: string
  sj_Branch :: string
  sj_Label :: string

record compile_env =
  ce_sync :: sync_env
  ce_revParse :: "string option"
  ce_stat :: "string \<Rightarrow> file_stat"
  ce_mkdirAll :: "string option"
  ce_writeMarker :: "string option"
  ce_arch :: string
  ce_run :: "string list \<Rightarrow> string \<Rightarrow> unit logged"
  ce_built :: bool

text \<open>The commit is kept when a later step fails.\<close>

definition compile_rest :: "compile_env \<Rightarrow> scmJob \<Rightarrow> string \<Rightarrow> string \<Rightarrow> string \<Rightarrow> string \<Rightarrow> unit logged" where
  "compile_rest e job ver binPath repo commit =
     (case scriptInRepo (ce_stat e) repo (sj_ScriptPath job) of
        Inl x \<Rightarrow> failL x
      | Inr _ \<Rightarrow>
        bindL (okL (ce_mkdirAll e)) (\<lambda>_.
          if sj_Label job = ''image'' then
            bindL (sayL (ln (''image artifact @ '' @ commit @ '' (scm-work/'' @ sj_Name job @ '')''))) (\<lambda>_. okL (ce_writeMarker e))
          else
            bindL (sayL (ln (''$ sh '' @ sj_ScriptPath job) @ ln (''(dir='' @ repo @ '' out='' @ path_Dir binPath @ '')''))) (\<lambda>_.
            bindL (ce_run e [''CGO_ENABLED=0'', ''GOOS=linux'', ''GOARCH='' @ ce_arch e, ''SCM_NAME='' @ sj_Name job,
                             ''SCM_VERSION='' @ ver, ''SCM_OUT='' @ path_Dir binPath, ''SCM_REPO='' @ repo] (sj_ScriptPath job)) (\<lambda>_.
            if ce_built e then retL ()
            else failL (''script ok but missing '' @ binPath @ ''; write the binary to $SCM_OUT/$SCM_NAME'')))))"

definition compileJob :: "compile_env \<Rightarrow> string \<Rightarrow> scmJob \<Rightarrow> string \<Rightarrow> string \<Rightarrow> string \<Rightarrow> string list \<times> string \<times> string option" where
  "compileJob e root job branch ver binPath =
     (case gitSync (ce_sync e) root (sj_Name job) (sj_GitURL job) branch of
        (ws, Inl x) \<Rightarrow> (ws, [], Some x)
      | (ws, Inr repo) \<Rightarrow>
          (let commit = (case ce_revParse e of None \<Rightarrow> [] | Some out \<Rightarrow> trim_space out);
               said = (case ce_revParse e of None \<Rightarrow> [] | Some _ \<Rightarrow> [ln (''commit '' @ commit)])
           in case compile_rest e job ver binPath repo commit of
                (ws', Inl x) \<Rightarrow> (ws @ said @ ws', commit, Some x)
              | (ws', Inr _) \<Rightarrow> (ws @ said @ ws', commit, None)))"

end
