(* ===== verification/BamFiles.thy ===== *)
theory BamFiles
  imports Repo
begin

text \<open>
  platform/server/bam.go, the parts without tables: checks of names and files of a module, what is read
  from a compiled proto file, the files of a repository, and the archive of one language. The compiler of
  proto files, directory walks and the zip format are parameters; descriptors are what protoreflect offers.
\<close>

section \<open>Checks\<close>

definition path_byte :: "char \<Rightarrow> bool" where "path_byte c \<longleftrightarrow> alpha_digit c \<or> c \<in> set ''._/-''"

text \<open>The expressions \<open>bamName\<close> and \<open>bamPath\<close>.\<close>

definition bamName :: "string \<Rightarrow> bool" where
  "bamName s \<longleftrightarrow> s \<noteq> [] \<and> is_lower_c (hd s) \<and>
     list_all (\<lambda>g. g \<noteq> [] \<and> list_all lower_digit g) (split_on CHR ''.'' (replace_byte CHR ''_'' CHR ''.'' s))"

definition bamPath :: "string \<Rightarrow> bool" where
  "bamPath s \<longleftrightarrow> s \<noteq> [] \<and> alpha_digit (hd s) \<and> list_all path_byte s \<and> has_suffix s ''.proto''"

datatype bam_err =
    BadModuleName | ChooseRepo | BadProtoDir | OpsErr ops_err | ModuleExists string | DirTaken string string
  | SyncErr string string | NoProtoDir string | NoProtoIn string | WalkErr string
  | NoFiles | TooManyFiles | BadProtoPath string | DuplicatePath string | TooLarge string
  | BamDb sql_err | NoModule string | EditInRepo | NoBamVersion string int | ProtoError string
  | NotGenerated string int | GenNotOk | NoTool string | FsErr string | BadLang | NoLang string | ZipErr string

definition checkBamName :: "string \<Rightarrow> bam_err + unit" where
  "checkBamName name = (if name = [] \<or> \<not> bamName name \<or> 64 < int (length name) then Inl BadModuleName else Inr ())"

definition checkProtoDir :: "string \<Rightarrow> bam_err + unit" where
  "checkProtoDir rel0 =
     (let rel = trim_space rel0 in
      if rel = [] \<or> has_prefix rel ''/'' \<or> str_contains rel ''..'' then Inl BadProtoDir else Inr ())"

type_synonym bamFile = "string \<times> string"

fun bam_files_loop :: "string list \<Rightarrow> bamFile list \<Rightarrow> bam_err + bamFile list" where
  "bam_files_loop seen [] = Inr []"
| "bam_files_loop seen ((path, content) # fs) =
     (let p = trim_prefix (trim_space path) ''/'' in
      if \<not> bamPath p \<or> str_contains p ''..'' \<or> str_contains p ''//'' then Inl (BadProtoPath path)
      else if p \<in> set seen then Inl (DuplicatePath p)
      else if 2 ^ 20 < int (length content) then Inl (TooLarge p)
      else bindR (bam_files_loop (p # seen) fs) (\<lambda>out. Inr ((p, content) # out)))"

definition checkBamFiles :: "bamFile list \<Rightarrow> bam_err + bamFile list" where
  "checkBamFiles files =
     (if files = [] then Inl NoFiles
      else if 20 < int (length files) then Inl TooManyFiles
      else bam_files_loop [] files)"

section \<open>What a module offers\<close>

datatype proto_kind = MessageKind string | EnumKind string | ScalarKind string

text \<open>\<open>Leading\<close>: the leading comment that the source locations of the file have for the descriptor.\<close>

record msg_field =
  mf_Number :: int
  mf_Name :: string
  mf_Kind :: proto_kind
  mf_Map :: "(proto_kind \<times> proto_kind) option"
  mf_Repeated :: bool
  mf_Leading :: string

record msg_desc =
  md_Name :: string
  md_Fields :: "msg_field list"

datatype http_rule =
    HGet string | HPut string | HPost string | HDelete string | HPatch string
  | HCustom "(string \<times> string) option" | HNone

record method_desc =
  me_Name :: string
  me_Input :: msg_desc
  me_Output :: msg_desc
  me_Leading :: string
  me_StreamServer :: bool
  me_StreamClient :: bool
  me_Http :: "http_rule option"

record file_desc =
  fd_Path :: string
  fd_Services :: "(string \<times> method_desc list) list"

record bamField =
  fi_Id :: int
  fi_Type :: string
  fi_Name :: string
  fi_Comment :: string

record bamRpc =
  rp_Service :: string
  rp_Name :: string
  rp_Req :: string
  rp_Resp :: string
  rp_Comment :: string
  rp_Stream :: bool
  rp_ReqFields :: "bamField list"
  rp_RespFields :: "bamField list"
  rp_HttpMethod :: string
  rp_Uri :: string

definition kindName :: "proto_kind \<Rightarrow> string" where
  "kindName k = (case k of MessageKind n \<Rightarrow> n | EnumKind n \<Rightarrow> n | ScalarKind n \<Rightarrow> n)"

definition fieldType :: "msg_field \<Rightarrow> string" where
  "fieldType f =
     (case mf_Map f of
        Some (k, v) \<Rightarrow> ''map<'' @ kindName k @ '','' @ kindName v @ ''>''
      | None \<Rightarrow> if mf_Repeated f then ''repeated '' @ kindName (mf_Kind f) else kindName (mf_Kind f))"

definition commentOf :: "string \<Rightarrow> string" where
  "commentOf leading = trim_space (replace_byte CHR 0x0A CHR '' '' (trim_space leading))"

definition wrap32 :: "int \<Rightarrow> int" where "wrap32 x = (x + 2 ^ 31) mod 2 ^ 32 - 2 ^ 31"

definition fieldsOfMsg :: "msg_desc \<Rightarrow> bamField list" where
  "fieldsOfMsg m = map (\<lambda>f. \<lparr>fi_Id = wrap32 (mf_Number f), fi_Type = fieldType f, fi_Name = mf_Name f,
     fi_Comment = commentOf (mf_Leading f)\<rparr>) (md_Fields m)"

definition httpOf :: "method_desc \<Rightarrow> string \<times> string" where
  "httpOf m =
     (case me_Http m of
        None \<Rightarrow> ([], [])
      | Some (HGet u) \<Rightarrow> (''GET'', u)
      | Some (HPut u) \<Rightarrow> (''PUT'', u)
      | Some (HPost u) \<Rightarrow> (''POST'', u)
      | Some (HDelete u) \<Rightarrow> (''DELETE'', u)
      | Some (HPatch u) \<Rightarrow> (''PATCH'', u)
      | Some (HCustom None) \<Rightarrow> ([], [])
      | Some (HCustom (Some (k, p))) \<Rightarrow> (k, p)
      | Some HNone \<Rightarrow> ([], []))"

definition rpc_of :: "string \<Rightarrow> method_desc \<Rightarrow> bamRpc" where
  "rpc_of svc m =
     \<lparr>rp_Service = svc, rp_Name = me_Name m, rp_Req = md_Name (me_Input m), rp_Resp = md_Name (me_Output m),
      rp_Comment = commentOf (me_Leading m), rp_Stream = (me_StreamServer m \<or> me_StreamClient m),
      rp_ReqFields = fieldsOfMsg (me_Input m), rp_RespFields = fieldsOfMsg (me_Output m),
      rp_HttpMethod = fst (httpOf m), rp_Uri = snd (httpOf m)\<rparr>"

definition rpcs_of :: "file_desc list \<Rightarrow> bamRpc list" where
  "rpcs_of fds =
     concat (map (\<lambda>fd. if has_prefix (fd_Path fd) ''google/'' then []
       else concat (map (\<lambda>(svc, ms). map (rpc_of svc) ms) (fd_Services fd))) fds)"

text \<open>\<open>compile\<close>: \<open>protocompile\<close> on the names of the files and what reads a file.\<close>

type_synonym compiler = "string list \<Rightarrow> (string \<Rightarrow> string option) \<Rightarrow> string + file_desc list"

definition proto_source :: "(string \<Rightarrow> string option) \<Rightarrow> string \<Rightarrow> bamFile list \<Rightarrow> string \<Rightarrow> string option" where
  "proto_source read root files path =
     (case map_of (rev files) path of
        Some c \<Rightarrow> Some c
      | None \<Rightarrow> read (path_Join [root, ''proto'', path]))"

definition compileBam :: "compiler \<Rightarrow> (string \<Rightarrow> string option) \<Rightarrow> string \<Rightarrow> bamFile list \<Rightarrow> bamRpc list \<times> int \<times> string" where
  "compileBam compile read root files =
     (case compile (map fst files) (proto_source read root files) of
        Inl e \<Rightarrow> ([], 0, e)
      | Inr fds \<Rightarrow>
          (let rpcs = rpcs_of fds in (rpcs, wrap32 (int (length (filter (\<lambda>r. rp_Uri r \<noteq> []) rpcs))), [])))"

section \<open>Files of a repository\<close>

text \<open>\<open>filepath.Rel\<close> on Unix.\<close>

fun drop_common :: "string list \<Rightarrow> string list \<Rightarrow> string list \<times> string list" where
  "drop_common (b # bs) (t # ts) = (if b = t then drop_common bs ts else (b # bs, t # ts))"
| "drop_common bs ts = (bs, ts)"

definition rel_segs :: "string \<Rightarrow> string list" where
  "rel_segs p = (if p = [] then [] else if p = ''/'' then [[]] else split_on CHR ''/'' p)"

definition path_Rel :: "string \<Rightarrow> string \<Rightarrow> string + string" where
  "path_Rel base0 targ0 =
     (let base1 = path_Clean base0; targ = path_Clean targ0; base = (if base1 = ''.'' then [] else base1) in
      if targ = base1 then Inr ''.''
      else if has_prefix base ''/'' \<noteq> has_prefix targ ''/'' then Inl (''Rel: can't make '' @ targ0 @ '' relative to '' @ base0)
      else (case drop_common (rel_segs base) (rel_segs targ) of
        (bs, ts) \<Rightarrow>
          if ts \<noteq> [] \<and> bs \<noteq> [] \<and> hd bs = ''..'' then Inl (''Rel: can't make '' @ targ0 @ '' relative to '' @ base0)
          else Inr (str_join ''/'' (map (\<lambda>_. ''..'') bs @ ts))))"

text \<open>Cleaning does not make a path longer, and its directory is shorter unless it is a root.\<close>

definition seg_weight :: "string list \<Rightarrow> nat" where "seg_weight ss = sum_list (map (\<lambda>s. length s + 1) ss)"

lemma seg_weight_simps [simp]:
  "seg_weight [] = 0" "seg_weight (s # ss) = length s + 1 + seg_weight ss" "seg_weight (xs @ ys) = seg_weight xs + seg_weight ys"
  by (simp_all add: seg_weight_def)

lemma seg_weight_butlast: "seg_weight (butlast ss) \<le> seg_weight ss"
  by (cases ss rule: rev_cases) simp_all

lemma clean_seg_weight: "seg_weight (clean_seg r s out) \<le> seg_weight out + (if s = [] then 0 else length s + 1)"
  using seg_weight_butlast [of out] by (auto simp: clean_seg_def)

lemma clean_segs_weight: "seg_weight (fold (clean_seg r) ss out) \<le> seg_weight out + seg_weight (filter (\<lambda>s. s \<noteq> []) ss)"
proof (induction ss arbitrary: out)
  case (Cons s ss)
  have "seg_weight (fold (clean_seg r) (s # ss) out) \<le> seg_weight (clean_seg r s out) + seg_weight (filter (\<lambda>s. s \<noteq> []) ss)"
    using Cons.IH by simp
  then show ?case using clean_seg_weight [of r s out] by auto
qed simp

lemma split_weight: "seg_weight (split_on c s) = length s + 1"
  by (induction s) (auto split: list.splits)

lemma join_weight: "ss \<noteq> [] \<Longrightarrow> length (str_join ''/'' ss) + 1 = seg_weight ss"
  by (induction "''/''" ss rule: str_join.induct) auto

lemma filter_weight: "seg_weight (filter (\<lambda>s. s \<noteq> []) ss) + length (filter (\<lambda>s. s = []) ss) = seg_weight ss"
  by (induction ss) auto

lemma path_Clean_length:
  assumes "p \<noteq> []"
  shows "length (path_Clean p) + length (filter (\<lambda>s. s = []) (split_on CHR ''/'' p)) \<le>
    max (length p + (if hd p = CHR ''/'' then 1 else 0)) (1 + length (filter (\<lambda>s. s = []) (split_on CHR ''/'' p)))"
proof -
  let ?ss = "split_on CHR ''/'' p" and ?r = "hd p = CHR ''/''"
  let ?segs = "fold (clean_seg ?r) ?ss []"
  have w: "seg_weight ?segs + length (filter (\<lambda>s. s = []) ?ss) \<le> length p + 1"
    using clean_segs_weight [of ?r ?ss "[]"] filter_weight [of ?ss] split_weight [of "CHR ''/''" p] by simp
  show ?thesis
  proof (cases "?segs = []")
    case False
    then show ?thesis using w join_weight [OF False] assms by (auto simp: path_Clean_def Let_def)
  qed (use assms in \<open>auto simp: path_Clean_def Let_def\<close>)
qed

lemma last_index_Some: "last_index s c = Some i \<Longrightarrow> i < length s \<and> s ! i = c"
  by (induction s arbitrary: i) (auto split: option.splits if_splits)

lemma split_on_end: "split_on c (s @ [c]) = split_on c s @ [[]]"
  by (induction s) (auto split: list.splits simp: split_on_not_Nil)

lemma path_Dir_length: "path_Dir d \<noteq> d \<Longrightarrow> path_Dir d \<noteq> ''.'' \<Longrightarrow> length (path_Dir d) < length d"
proof -
  assume n: "path_Dir d \<noteq> d" "path_Dir d \<noteq> ''.''"
  obtain i where i: "last_index d CHR ''/'' = Some i"
    using n(2) by (auto simp: path_Dir_def path_Clean_def split: option.splits)
  define p where "p = take (i + 1) d"
  have il: "i < length d" "d ! i = CHR ''/''" using last_index_Some [OF i] by auto
  then have p: "p = take i d @ [CHR ''/'']" by (simp add: p_def take_Suc_conv_app_nth)
  have dir: "path_Dir d = path_Clean p" by (simp add: path_Dir_def i p_def)
  have lp: "length p \<le> length d" using il by (simp add: p_def)
  let ?e = "length (filter (\<lambda>s. s = []) (split_on CHR ''/'' p))"
  have len: "length (path_Clean p) + ?e \<le> max (length p + (if hd p = CHR ''/'' then 1 else 0)) (1 + ?e)"
    by (rule path_Clean_length) (simp add: p)
  obtain ss where ss: "split_on CHR ''/'' p = ss @ [[]]" using split_on_end p by auto
  show "length (path_Dir d) < length d"
  proof (cases "take i d = []")
    case True
    then have ps: "p = ''/''" by (simp add: p)
    have "path_Clean ''/'' = ''/''" by (simp add: path_Clean_def clean_seg_def)
    then have "path_Dir d = ''/''" using dir ps by simp
    moreover from this have "d \<noteq> ''/''" using n(1) by auto
    moreover have "d \<noteq> []" using il by auto
    ultimately show ?thesis using lp ps il True by (cases d; cases "tl d") auto
  next
    case False
    then have h: "hd p = hd (take i d)" by (simp add: p)
    have two: "(if hd p = CHR ''/'' then 2 else 1) \<le> ?e"
    proof (cases "hd p = CHR ''/''")
      case True
      obtain u where u: "take i d = CHR ''/'' # u" using False True h by (cases "take i d") auto
      have "split_on CHR ''/'' p = [] # split_on CHR ''/'' (u @ [CHR ''/''])" by (simp add: p u)
      then show ?thesis by (simp add: True split_on_end)
    qed (simp add: ss)
    have "1 < length p" using False by (simp add: p)
    then show ?thesis using len two lp dir by (auto split: if_splits)
  qed
qed

text \<open>The loop of \<open>protoModuleRoot\<close> on directories upwards; \<open>has d\<close>: there is a buf.yaml.\<close>

function module_root_loop :: "(string \<Rightarrow> bool) \<Rightarrow> string \<Rightarrow> string option" where
  "module_root_loop has d =
     (if has d then Some d
      else if path_Dir d = d \<or> path_Dir d = ''.'' then None
      else module_root_loop has (path_Dir d))"
  by pat_completeness auto
termination by (relation "measure (\<lambda>(_, d). length d)") (simp_all add: path_Dir_length)

declare module_root_loop.simps [simp del]

definition protoModuleRoot :: "(string \<Rightarrow> file_stat) \<Rightarrow> string \<Rightarrow> string \<Rightarrow> string" where
  "protoModuleRoot stat repo protoDir =
     (let slash = path_Clean protoDir in
      case module_root_loop (\<lambda>d. repo \<noteq> [] \<and> stat (path_Join [repo, d, ''buf.yaml'']) \<noteq> Missing) slash of
        Some d \<Rightarrow> d
      | None \<Rightarrow> if slash = ''proto'' \<or> has_prefix slash ''proto/'' then ''proto'' else slash)"

text \<open>What \<open>filepath.WalkDir\<close> visits, in its order: the path, whether it is a directory, the error it is
  visited with, and what \<open>os.ReadFile\<close> gives.\<close>

record walk_entry =
  we_Path :: string
  we_Dir :: bool
  we_Err :: "string option"
  we_Read :: "string + string"

definition lift_err :: "('d \<Rightarrow> 'e) \<Rightarrow> 'd + 'a \<Rightarrow> 'e + 'a" where
  "lift_err f r = (case r of Inl e \<Rightarrow> Inl (f e) | Inr x \<Rightarrow> Inr x)"

fun collect_loop :: "string \<Rightarrow> walk_entry list \<Rightarrow> string + bamFile list" where
  "collect_loop root [] = Inr []"
| "collect_loop root (w # ws) =
     (case we_Err w of
        Some e \<Rightarrow> Inl e
      | None \<Rightarrow>
        if we_Dir w \<or> \<not> has_suffix (path_Base (we_Path w)) ''.proto'' then collect_loop root ws
        else bindR (path_Rel root (we_Path w)) (\<lambda>rel.
          if has_prefix rel ''google/'' then collect_loop root ws
          else bindR (we_Read w) (\<lambda>b. bindR (collect_loop root ws) (\<lambda>fs. Inr ((rel, b) # fs)))))"

definition collectBamFiles :: "(string \<Rightarrow> file_stat) \<Rightarrow> (string \<Rightarrow> walk_entry list) \<Rightarrow> string \<Rightarrow> string \<Rightarrow> bam_err + bamFile list" where
  "collectBamFiles stat walk repo protoDir =
     bindR (checkProtoDir protoDir) (\<lambda>_.
     let absDir = path_Join [repo, protoDir] in
     if stat absDir \<noteq> IsDir then Inl (NoProtoDir protoDir)
     else let rootAbs = path_Join [repo, protoModuleRoot stat repo protoDir] in
       bindR (lift_err WalkErr (collect_loop rootAbs (walk absDir))) (\<lambda>files.
       if files = [] then Inl (NoProtoIn protoDir) else checkBamFiles files))"

definition gitHead :: "string option \<Rightarrow> string" where
  "gitHead out = (case out of None \<Rightarrow> [] | Some s \<Rightarrow> trim_space s)"

section \<open>Archives\<close>

record zip_file =
  zf_Name :: string
  zf_Dir :: bool
  zf_Read :: "string + string"

text \<open>\<open>archive/zip\<close>: the files of an archive, the error of \<open>Create\<close> for a name, the bytes of an archive.\<close>

record zip_env =
  ze_read :: "string \<Rightarrow> string + zip_file list"
  ze_create :: "string \<Rightarrow> string option"
  ze_close :: "(string \<times> string) list \<Rightarrow> string + string"

fun filter_zip_loop :: "zip_env \<Rightarrow> string \<Rightarrow> zip_file list \<Rightarrow> string + (string \<times> string) list" where
  "filter_zip_loop z lang [] = Inr []"
| "filter_zip_loop z lang (f # fs) =
     (let isTS = has_prefix (zf_Name f) ''ts/'' in
      if zf_Dir f \<or> (lang = ''go'' \<and> isTS) \<or> (lang = ''ts'' \<and> \<not> isTS) then filter_zip_loop z lang fs
      else let name = (if lang = ''ts'' then trim_prefix (zf_Name f) ''ts/'' else zf_Name f) in
        bindR (zf_Read f) (\<lambda>b.
        case ze_create z name of
          Some e \<Rightarrow> Inl e
        | None \<Rightarrow> bindR (filter_zip_loop z lang fs) (\<lambda>out. Inr ((name, b) # out))))"

definition filterZipLang :: "(string \<Rightarrow> string) \<Rightarrow> zip_env \<Rightarrow> string \<Rightarrow> string \<Rightarrow> bam_err + string" where
  "filterZipLang u z zipb lang0 =
     (let lang = to_lower u (trim_space lang0) in
      if lang = [] \<or> lang = ''all'' then Inr zipb
      else if lang \<noteq> ''go'' \<and> lang \<noteq> ''ts'' then Inl BadLang
      else bindR (lift_err ZipErr (ze_read z zipb)) (\<lambda>files.
        bindR (lift_err ZipErr (filter_zip_loop z lang files)) (\<lambda>out.
        bindR (lift_err ZipErr (ze_close z out)) (\<lambda>b.
        if out = [] then Inl (NoLang lang) else Inr b))))"

fun zip_dir_loop :: "zip_env \<Rightarrow> string \<Rightarrow> walk_entry list \<Rightarrow> string + (string \<times> string) list" where
  "zip_dir_loop z root [] = Inr []"
| "zip_dir_loop z root (w # ws) =
     (case we_Err w of
        Some e \<Rightarrow> Inl e
      | None \<Rightarrow>
        if we_Dir w then zip_dir_loop z root ws
        else bindR (path_Rel root (we_Path w)) (\<lambda>rel.
          bindR (we_Read w) (\<lambda>b.
          case ze_create z rel of
            Some e \<Rightarrow> Inl e
          | None \<Rightarrow> bindR (zip_dir_loop z root ws) (\<lambda>out. Inr ((rel, b) # out)))))"

definition zipDir :: "zip_env \<Rightarrow> (string \<Rightarrow> walk_entry list) \<Rightarrow> string \<Rightarrow> string + string" where
  "zipDir z walk root = bindR (zip_dir_loop z root (walk root)) (ze_close z)"

fun listRel :: "string \<Rightarrow> walk_entry list \<Rightarrow> string list \<times> string option" where
  "listRel root [] = ([], None)"
| "listRel root (w # ws) =
     (case we_Err w of
        Some e \<Rightarrow> ([], Some e)
      | None \<Rightarrow>
        if we_Dir w then listRel root ws
        else (case path_Rel root (we_Path w) of
                Inl e \<Rightarrow> ([], Some e)
              | Inr rel \<Rightarrow> (case listRel root ws of (out, e) \<Rightarrow> (rel # out, e))))"

section \<open>Requests\<close>

definition bamPathName :: "string \<Rightarrow> string \<Rightarrow> string option" where
  "bamPathName path suf =
     (if \<not> has_prefix path ''/api/bam/modules/'' \<or> \<not> has_suffix path suf then None
      else let name = trim_suffix (trim_prefix path ''/api/bam/modules/'') suf in
        if name = [] \<or> str_contains name ''/'' then None else Some name)"

definition bamZipName :: "string \<Rightarrow> string option" where "bamZipName path = bamPathName path ''/download.zip''"
definition bamPullName :: "string \<Rightarrow> string option" where "bamPullName path = bamPathName path ''/pull.zip''"

text \<open>The status of an answer; errors that are not Connect errors do not occur here.\<close>

definition http_status :: "connect_code \<Rightarrow> int" where
  "http_status c = (case c of CodeNotFound \<Rightarrow> 404 | CodeInvalidArgument \<Rightarrow> 400 | CodeUnauthenticated \<Rightarrow> 401 | CodeInternal \<Rightarrow> 500)"

record git_hook =
  gh_Ref :: string
  gh_After :: string
  gh_Deleted :: bool
  gh_CloneURL :: string
  gh_RepoGitHTTPURL :: string
  gh_SSHURL :: string
  gh_ProjGitHTTPURL :: string
  gh_ProjHTTPURL :: string

text \<open>\<open>json.Unmarshal\<close> into the struct is a parameter. Branch, commit, URL.\<close>

definition parseGitHook :: "(string \<Rightarrow> git_hook option) \<Rightarrow> string \<Rightarrow> string \<times> string \<times> string" where
  "parseGitHook unmarshal raw =
     (case unmarshal raw of
        None \<Rightarrow> ([], [], [])
      | Some gh \<Rightarrow>
          if gh_Deleted gh then ([], [], [])
          else let branch = trim_prefix (gh_Ref gh) ''refs/heads/'' in
            if branch = gh_Ref gh then ([], [], [])
            else (branch, gh_After gh,
              if gh_CloneURL gh \<noteq> [] then gh_CloneURL gh
              else if gh_RepoGitHTTPURL gh \<noteq> [] then gh_RepoGitHTTPURL gh
              else if gh_ProjGitHTTPURL gh \<noteq> [] then gh_ProjGitHTTPURL gh
              else if gh_ProjHTTPURL gh \<noteq> [] then gh_ProjHTTPURL gh
              else gh_SSHURL gh))"

section \<open>The configuration of the generator\<close>

definition gen_plugin :: "string \<Rightarrow> string list \<Rightarrow> string" where
  "gen_plugin local rest = unlines ([''  - local: '' @ local] @ rest)"

definition bamGenYAML :: "(string \<Rightarrow> bool) \<Rightarrow> (string \<Rightarrow> file_stat) \<Rightarrow> string \<Rightarrow> string" where
  "bamGenYAML look stat root =
     (let q = [CHR 0x22]; web = path_Join [root, ''platform'', ''web''];
          go = [''    out: gen'', ''    opt:'', ''      - paths=source_relative''];
          ts = [''    out: gen/ts'', ''    opt:'', ''      - target=ts'', ''      - import_extension=none''];
          npx = (\<lambda>dir. ''['' @ q @ ''npx'' @ q @ '', '' @ q @ ''--prefix'' @ q @ '', '' @ q @ dir @ q @ '', '' @ q @ ''protoc-gen-es'' @ q @ '']'');
          base = unlines [''version: v2'', ''plugins:''] @ gen_plugin ''protoc-gen-go'' go @ gen_plugin ''protoc-gen-connect-go'' go
      in if look ''protoc-gen-es'' then base @ gen_plugin ''protoc-gen-es'' ts
         else if stat (path_Join [web, ''node_modules'', ''@bufbuild'', ''protoc-gen-es'']) \<noteq> Missing then base @ gen_plugin (npx web) ts
         else if stat ''/opt/buf-es/node_modules/@bufbuild/protoc-gen-es'' \<noteq> Missing then base @ gen_plugin (npx ''/opt/buf-es'') ts
         else base)"

end
