(* ===== verification/Ops.thy ===== *)
theory Ops
  imports Repo "HOL-Library.List_Lexorder"
begin

text \<open>
  platform/server/ops.go: source repositories (jobs), builds, applications and deployments, in four
  tables, and the logs of running builds and deployments. \<open>op_hubs\<close> are the logs that were made, \<open>op_lives\<close>
  the map \<open>lives\<close> from ids to them. A handler starts a run and returns; the run ends with a step of its
  own (\<open>end_build\<close>, \<open>end_deploy\<close>). The columns \<open>created_at\<close> are left out; the time of a request is an argument.
\<close>

section \<open>State\<close>

record buildRow =
  bd_ID :: int
  bd_Service :: string
  bd_Version :: string
  bd_BinPath :: string
  bd_Status :: string
  bd_Log :: string
  bd_Branch :: string
  bd_Commit :: string

record appRow =
  ap_ID :: int
  ap_Name :: string
  ap_ScmName :: string
  ap_Compose :: string

record deployRow =
  dp_ID :: int
  dp_Service :: string
  dp_Version :: string
  dp_Status :: string
  dp_Log :: string

record ops_tabs =
  op_jobs :: "scmJob list"
  op_builds :: "buildRow list"
  op_apps :: "appRow list"
  op_deploys :: "deployRow list"
  op_nextJob :: int
  op_nextBuild :: int
  op_nextApp :: int
  op_nextDeploy :: int
  op_hubs :: "hub list"
  op_lives :: "(int \<times> nat) list"

definition ops_migrate :: ops_tabs where
  "ops_migrate = \<lparr>op_jobs = [], op_builds = [], op_apps = [], op_deploys = [],
     op_nextJob = 1, op_nextBuild = 1, op_nextApp = 1, op_nextDeploy = 1, op_hubs = [], op_lives = []\<rparr>"

text \<open>What the process is given: its directory, what the collation compares, \<open>git ls-remote --exit-code\<close>
  (the output of a failure), \<open>git ls-remote --symref\<close>, and the files that exist.\<close>

record ops_env =
  oe_root :: string
  oe_coll :: "string \<Rightarrow> string"
  oe_head :: "string \<Rightarrow> string option"
  oe_refs :: "string \<Rightarrow> string + string"
  oe_exists :: "string \<Rightarrow> bool"

type_synonym 'a odb = "(ops_tabs, ops_err api_err, 'a) dbm"

definition same :: "ops_env \<Rightarrow> string \<Rightarrow> string \<Rightarrow> bool" where "same e a b \<longleftrightarrow> oe_coll e a = oe_coll e b"

definition col :: "nat \<Rightarrow> string \<Rightarrow> bool" where "col n s \<longleftrightarrow> int (rune_count s) \<le> int n"

definition onOps :: "(ops_err \<Rightarrow> ops_err api_err) \<Rightarrow> (ops_tabs, sql_err, 'a) dbm \<Rightarrow> 'a odb" where
  "onOps conv m = orElse m (\<lambda>x. conv (OpsDb x))"

definition modS :: "('t \<Rightarrow> 't) \<Rightarrow> ('t, 'e, unit) dbm" where
  "modS f s = (Inr (), s\<lparr>db_tab := f (db_tab s)\<rparr>)"

definition checkS :: "ops_err + unit \<Rightarrow> unit odb" where
  "checkS r = liftS (case r of Inl x \<Rightarrow> Inl (invalid x) | Inr u \<Rightarrow> Inr u)"

definition guardS :: "bool \<Rightarrow> ops_err \<Rightarrow> unit odb" where
  "guardS b x = (if b then retS () else failS (invalid x))"

section \<open>Jobs\<close>

definition add_job :: "ops_env \<Rightarrow> string \<Rightarrow> string \<Rightarrow> string \<Rightarrow> string \<Rightarrow> ops_tabs \<Rightarrow> sql_err + int \<times> ops_tabs" where
  "add_job e name url script lab t =
     (if \<not> col 64 name \<or> \<not> col 512 url \<or> \<not> col 255 script \<or> \<not> col 64 lab then Inl DataTooLong
     else if list_ex (\<lambda>j. same e (sj_Name j) name) (op_jobs t) then Inl Duplicate
     else Inr (op_nextJob t, t\<lparr>op_nextJob := op_nextJob t + 1, op_jobs := op_jobs t @
       [\<lparr>sj_ID = op_nextJob t, sj_Name = name, sj_GitURL = url, sj_ScriptPath = script, sj_Branch = [], sj_Label = lab\<rparr>]\<rparr>))"

definition ins_job :: "ops_env \<Rightarrow> string \<Rightarrow> string \<Rightarrow> string \<Rightarrow> string \<Rightarrow> (ops_tabs, sql_err, int) dbm" where
  "ins_job e name url script lab = stmt (add_job e name url script lab)"

definition getJob :: "ops_env \<Rightarrow> string \<Rightarrow> (ops_tabs, ops_err, scmJob) dbm" where
  "getJob e name =
     orElse (queryRow (\<lambda>t. filter (\<lambda>j. same e (sj_Name j) name) (op_jobs t)))
       (\<lambda>x. if x = NoRows then UnknownScm name else OpsDb x)"

definition ListJobs :: "scmJob list odb" where
  "ListJobs = onOps internal (query (\<lambda>t. rev (sort_key sj_ID (op_jobs t))))"

definition lsRemote :: "ops_env \<Rightarrow> string \<Rightarrow> unit odb" where
  "lsRemote e url = (case oe_head e url of None \<Rightarrow> retS () | Some out \<Rightarrow> failS (invalid (GitFails out)))"

definition CreateJob :: "ops_env \<Rightarrow> string \<Rightarrow> string \<Rightarrow> string \<Rightarrow> string \<Rightarrow> scmJob odb" where
  "CreateJob e name0 url0 script0 label0 =
     (let name = trim_space name0; url = trim_space url0; script = trim_space script0; lab = trim_space label0 in
      bindS (guardS (jobName name) BadScmName) (\<lambda>_.
      bindS (guardS (url \<noteq> []) GitURLRequired) (\<lambda>_.
      bindS (checkS (checkScriptRel script)) (\<lambda>_.
      bindS (checkS (checkLabel lab)) (\<lambda>_.
      bindS (lsRemote e url) (\<lambda>_.
      bindS (onOps invalid (ins_job e name url script lab)) (\<lambda>i.
      retS \<lparr>sj_ID = i, sj_Name = name, sj_GitURL = url, sj_ScriptPath = script, sj_Branch = [], sj_Label = lab\<rparr>)))))))"

definition ShowJob :: "ops_env \<Rightarrow> string \<Rightarrow> scmJob odb" where
  "ShowJob e name = orElse (getJob e name) notFound"

definition upd_job :: "ops_env \<Rightarrow> string \<Rightarrow> string \<Rightarrow> string \<Rightarrow> string \<Rightarrow> (ops_tabs, sql_err, unit) dbm" where
  "upd_job e name url script lab = stmt (\<lambda>t.
     if list_ex (\<lambda>j. same e (sj_Name j) name) (op_jobs t) \<and> (\<not> col 512 url \<or> \<not> col 255 script \<or> \<not> col 64 lab)
     then Inl DataTooLong
     else Inr ((), t\<lparr>op_jobs := map (\<lambda>j. if same e (sj_Name j) name
            then j\<lparr>sj_GitURL := url, sj_ScriptPath := script, sj_Label := lab\<rparr> else j) (op_jobs t)\<rparr>))"

definition UpdateJob :: "ops_env \<Rightarrow> string \<Rightarrow> string \<Rightarrow> string \<Rightarrow> string \<Rightarrow> scmJob odb" where
  "UpdateJob e name url0 script0 label0 =
     bindS (orElse (getJob e name) notFound) (\<lambda>j.
     let url = trim_space url0; script = trim_space script0; lab = trim_space label0 in
     bindS (guardS (url \<noteq> []) GitURLRequired) (\<lambda>_.
     bindS (checkS (checkScriptRel script)) (\<lambda>_.
     bindS (checkS (checkLabel lab)) (\<lambda>_.
     bindS (if url \<noteq> sj_GitURL j then lsRemote e url else retS ()) (\<lambda>_.
     bindS (onOps internal (upd_job e (sj_Name j) url script lab)) (\<lambda>_.
     retS (j\<lparr>sj_GitURL := url, sj_ScriptPath := script, sj_Label := lab\<rparr>)))))))"

text \<open>The directories of the job are removed then; the answer is its name.\<close>

definition DeleteJob :: "ops_env \<Rightarrow> string \<Rightarrow> string odb" where
  "DeleteJob e name =
     bindS (orElse (getJob e name) notFound) (\<lambda>j.
     bindS (onOps internal (query (\<lambda>t. map ap_Name (filter (\<lambda>a. same e (ap_ScmName a) (sj_Name j)) (op_apps t))))) (\<lambda>used.
     case used of
       u # _ \<Rightarrow> failS (invalid (StillUsed u))
     | [] \<Rightarrow>
         bindS (onOps internal (execS (\<lambda>t. t\<lparr>op_builds := filter (\<lambda>b. \<not> same e (bd_Service b) (sj_Name j)) (op_builds t)\<rparr>))) (\<lambda>_.
         bindS (onOps internal (execS (\<lambda>t. t\<lparr>op_jobs := filter (\<lambda>k. \<not> same e (sj_Name k) (sj_Name j)) (op_jobs t)\<rparr>))) (\<lambda>_.
         retS (sj_Name j)))))"

definition ListBranches :: "ops_env \<Rightarrow> string \<Rightarrow> (string \<times> git_branch list) odb" where
  "ListBranches e name =
     bindS (orElse (getJob e name) notFound) (\<lambda>j.
       case oe_refs e (sj_GitURL j) of
         Inl out \<Rightarrow> failS (invalid (GitFails out))
       | Inr out \<Rightarrow> retS (parseGitLsRemote out))"

section \<open>Live logs\<close>

definition live_of :: "ops_tabs \<Rightarrow> int \<Rightarrow> string option" where
  "live_of t i = map_option (\<lambda>h. live_String (hb_run (op_hubs t ! h))) (map_of (op_lives t) i)"

text \<open>\<open>live := &liveRun{}; lives.Store(id, live)\<close>: the number of the new log.\<close>

definition new_live :: "int \<Rightarrow> (ops_tabs, 'e, nat) dbm" where
  "new_live i = bindS (modS (\<lambda>t. t\<lparr>op_lives := al_put i (length (op_hubs t)) (op_lives t), op_hubs := op_hubs t @ [new_hub]\<rparr>))
     (\<lambda>_ s. (Inr (length (op_hubs (db_tab s)) - 1), s))"

definition with_hub :: "nat \<Rightarrow> (hub \<Rightarrow> hub) \<Rightarrow> ops_tabs \<Rightarrow> ops_tabs" where
  "with_hub h f t = t\<lparr>op_hubs := (op_hubs t)[h := f (op_hubs t ! h)]\<rparr>"

definition drop_live :: "int \<Rightarrow> ops_tabs \<Rightarrow> ops_tabs" where
  "drop_live i t = t\<lparr>op_lives := filter (\<lambda>kv. fst kv \<noteq> i) (op_lives t)\<rparr>"

section \<open>Builds\<close>

definition ListBuilds :: "ops_env \<Rightarrow> string \<Rightarrow> buildRow list odb" where
  "ListBuilds e service0 =
     (let svc = trim_space service0 in
      onOps internal (query (\<lambda>t. take 50 (rev (sort_key bd_ID (filter (\<lambda>b. svc = [] \<or> same e (bd_Service b) svc) (op_builds t)))))))"

definition view_error :: "string \<Rightarrow> string" where
  "view_error status = (if status = ''fail'' then ''fail'' else [])"

definition loadBuild :: "int \<Rightarrow> (buildRow \<times> string) odb" where
  "loadBuild i =
     bindS (orElse (queryRow (\<lambda>t. filter (\<lambda>b. bd_ID b = i) (op_builds t)))
              (\<lambda>x. if x = NoRows then notFound BuildNotFound else internal (OpsDb x))) (\<lambda>b.
     bindS (\<lambda>s. (Inr (live_of (db_tab s) (bd_ID b)), s)) (\<lambda>live.
     retS (case live of None \<Rightarrow> b | Some l \<Rightarrow> b\<lparr>bd_Log := l\<rparr>, view_error (bd_Status b))))"

definition GetBuild :: "int \<Rightarrow> (buildRow \<times> string) odb" where "GetBuild i = loadBuild i"

definition count_running :: "ops_env \<Rightarrow> string \<Rightarrow> ops_tabs \<Rightarrow> nat" where
  "count_running e svc t = length (filter (\<lambda>b. same e (bd_Service b) svc \<and> same e (bd_Status b) ''running'') (op_builds t))"

definition idleBuild :: "ops_env \<Rightarrow> string \<Rightarrow> unit odb" where
  "idleBuild e svc =
     bindS (onOps internal (query (count_running e svc))) (\<lambda>n. if 0 < n then failS (invalid BuildRunning) else retS ())"

definition idleDeploy :: "ops_env \<Rightarrow> string \<Rightarrow> unit odb" where
  "idleDeploy e svc =
     bindS (onOps internal (query (\<lambda>t. length (filter (\<lambda>d. same e (dp_Service d) svc \<and> same e (dp_Status d) ''running'') (op_deploys t)))))
       (\<lambda>n. if 0 < n then failS (invalid DeployRunning) else retS ())"

definition ins_build :: "string \<Rightarrow> string \<Rightarrow> string \<Rightarrow> string \<Rightarrow> (ops_tabs, sql_err, int) dbm" where
  "ins_build svc ver bin branch = stmt (\<lambda>t.
     if \<not> col 64 svc \<or> \<not> col 64 ver \<or> \<not> col 255 bin \<or> \<not> col 255 branch then Inl DataTooLong
     else Inr (op_nextBuild t, t\<lparr>op_nextBuild := op_nextBuild t + 1, op_builds := op_builds t @
       [\<lparr>bd_ID = op_nextBuild t, bd_Service = svc, bd_Version = ver, bd_BinPath = bin, bd_Status = ''running'', bd_Log = [],
         bd_Branch = branch, bd_Commit = []\<rparr>]\<rparr>))"

definition artifact :: "ops_env \<Rightarrow> string \<Rightarrow> string \<Rightarrow> string" where
  "artifact e name ver = path_Join [oe_root e, ''artifacts'', name, ver, name]"

text \<open>The answer, with the number of the log that the run writes to.\<close>

definition CreateBuild :: "ops_env \<Rightarrow> string \<Rightarrow> string \<Rightarrow> string \<Rightarrow> (buildRow \<times> scmJob \<times> nat) odb" where
  "CreateBuild e ver name branch0 =
     bindS (orElse (getJob e name) invalid) (\<lambda>job.
     let branch = trim_space branch0; bin = artifact e (sj_Name job) ver in
     bindS (checkS (checkBranch branch)) (\<lambda>_.
     bindS (idleBuild e (sj_Name job)) (\<lambda>_.
     bindS (onOps internal (ins_build (sj_Name job) ver bin branch)) (\<lambda>i.
     bindS (new_live i) (\<lambda>h.
     retS (\<lparr>bd_ID = i, bd_Service = sj_Name job, bd_Version = ver, bd_BinPath = bin, bd_Status = ''running'', bd_Log = [],
            bd_Branch = branch, bd_Commit = []\<rparr>, job, h))))))"

text \<open>A column of 16 MB at most.\<close>

definition mediumtext :: "string \<Rightarrow> bool" where "mediumtext s \<longleftrightarrow> int (length s) < 2 ^ 24"

definition upd_build :: "int \<Rightarrow> string \<Rightarrow> string \<Rightarrow> nat \<Rightarrow> string \<Rightarrow> (ops_tabs, sql_err, unit) dbm" where
  "upd_build i bin status h commit = stmt (\<lambda>t.
     let l = live_String (hb_run (op_hubs t ! h)) in
     if list_ex (\<lambda>b. bd_ID b = i) (op_builds t) \<and> (\<not> col 255 bin \<or> \<not> mediumtext l \<or> \<not> col 64 commit) then Inl DataTooLong
     else Inr ((), t\<lparr>op_builds := map (\<lambda>b. if bd_ID b = i
            then b\<lparr>bd_BinPath := bin, bd_Status := status, bd_Log := l, bd_Commit := commit\<rparr> else b) (op_builds t)\<rparr>))"

definition say_err :: "nat \<Rightarrow> string option \<Rightarrow> (ops_tabs, 'e, unit) dbm" where
  "say_err h err = (case err of None \<Rightarrow> retS () | Some x \<Rightarrow> modS (with_hub h (live_Write (ln x))))"

definition status_of :: "string option \<Rightarrow> string" where
  "status_of err = (case err of None \<Rightarrow> ''ok'' | Some _ \<Rightarrow> ''fail'')"

text \<open>The end of \<open>runBuild\<close>: \<open>commit\<close> and \<open>err\<close> are those of \<open>compileJob\<close>, whose writes have gone to the log.\<close>

definition end_build :: "int \<Rightarrow> nat \<Rightarrow> string \<Rightarrow> string \<Rightarrow> string option \<Rightarrow> (ops_tabs, 'e, unit) dbm" where
  "end_build i h bin commit err =
     bindS (say_err h err) (\<lambda>_.
     bindS (ignoreS (upd_build i bin (status_of err) h commit)) (\<lambda>_.
     bindS (modS (with_hub h live_finish)) (\<lambda>_.
     modS (drop_live i))))"

text \<open>One write of a run to its log.\<close>

definition run_write :: "nat \<Rightarrow> string \<Rightarrow> (ops_tabs, 'e, unit) dbm" where
  "run_write h p = modS (with_hub h (live_Write p))"

section \<open>Applications\<close>

record deployApp =
  da_ID :: int
  da_Name :: string
  da_ScmName :: string
  da_Compose :: "string list"
  da_Label :: string

text \<open>The services that come with the platform.\<close>

definition svc_catalog :: "(string \<times> string list) list" where
  "svc_catalog = [(''user'', [''user'']), (''order'', [''order'']), (''gateway'', [''gateway'']), (''etcdui'', [''etcdui''])]"

definition resolveAppCompose :: "string \<Rightarrow> string \<Rightarrow> ops_err + string list" where
  "resolveAppCompose name raw =
     (let c0 = parseCompose raw;
          c = (if c0 = [] then (case map_of svc_catalog name of Some cs \<Rightarrow> cs | None \<Rightarrow> [name]) else c0)
      in case find (\<lambda>s. \<not> jobName s) c of Some s \<Rightarrow> Inl (BadComposeService s) | None \<Rightarrow> Inr c)"

definition composeDropped :: "string list \<Rightarrow> string list \<Rightarrow> string list" where
  "composeDropped old next = filter (\<lambda>c. c \<notin> set next) old"

definition extraCompose :: "string list \<Rightarrow> string list \<Rightarrow> string list" where
  "extraCompose compose main = filter (\<lambda>c. c \<notin> set main \<and> jobName c) compose"

definition app_of :: "ops_env \<Rightarrow> ops_tabs \<Rightarrow> appRow \<Rightarrow> deployApp" where
  "app_of e t a =
     \<lparr>da_ID = ap_ID a, da_Name = ap_Name a, da_ScmName = ap_ScmName a, da_Compose = parseCompose (ap_Compose a),
      da_Label = (case filter (\<lambda>j. same e (sj_Name j) (ap_ScmName a)) (op_jobs t) of [] \<Rightarrow> [] | j # _ \<Rightarrow> sj_Label j)\<rparr>"

definition getApp :: "ops_env \<Rightarrow> string \<Rightarrow> (ops_tabs, ops_err, deployApp) dbm" where
  "getApp e name =
     orElse (queryRow (\<lambda>t. map (app_of e t) (filter (\<lambda>a. same e (ap_Name a) name) (op_apps t))))
       (\<lambda>x. if x = NoRows then UnknownDeploy name else OpsDb x)"

definition ListApps :: "ops_env \<Rightarrow> deployApp list odb" where
  "ListApps e = onOps internal (query (\<lambda>t. map (app_of e t) (rev (sort_key ap_ID (op_apps t)))))"

definition add_app :: "ops_env \<Rightarrow> string \<Rightarrow> string \<Rightarrow> string \<Rightarrow> ops_tabs \<Rightarrow> sql_err + int \<times> ops_tabs" where
  "add_app e name scm compose t =
     (if \<not> col 64 name \<or> \<not> col 64 scm \<or> \<not> col 255 compose then Inl DataTooLong
     else if list_ex (\<lambda>a. same e (ap_Name a) name) (op_apps t) then Inl Duplicate
     else Inr (op_nextApp t, t\<lparr>op_nextApp := op_nextApp t + 1,
       op_apps := op_apps t @ [\<lparr>ap_ID = op_nextApp t, ap_Name = name, ap_ScmName = scm, ap_Compose = compose\<rparr>]\<rparr>))"

definition ins_app :: "ops_env \<Rightarrow> string \<Rightarrow> string \<Rightarrow> string \<Rightarrow> (ops_tabs, sql_err, int) dbm" where
  "ins_app e name scm compose = stmt (add_app e name scm compose)"

definition CreateApp :: "ops_env \<Rightarrow> string \<Rightarrow> string \<Rightarrow> string \<Rightarrow> deployApp odb" where
  "CreateApp e name0 scm0 compose0 =
     (let name = trim_space name0; scm = trim_space scm0 in
      bindS (guardS (jobName name) BadDeployName) (\<lambda>_.
      bindS (orElse (getJob e scm) (\<lambda>x. invalid (ScmErr x))) (\<lambda>_.
      bindS (liftS (case resolveAppCompose name compose0 of Inl x \<Rightarrow> Inl (invalid x) | Inr c \<Rightarrow> Inr c)) (\<lambda>compose.
      bindS (onOps invalid (ins_app e name scm (str_join '','' compose))) (\<lambda>i.
      retS \<lparr>da_ID = i, da_Name = name, da_ScmName = scm, da_Compose = compose, da_Label = []\<rparr>)))))"

definition ShowApp :: "ops_env \<Rightarrow> string \<Rightarrow> deployApp odb" where
  "ShowApp e name = orElse (getApp e name) notFound"

definition upd_app :: "ops_env \<Rightarrow> string \<Rightarrow> string \<Rightarrow> string \<Rightarrow> (ops_tabs, sql_err, unit) dbm" where
  "upd_app e name scm compose = stmt (\<lambda>t.
     if list_ex (\<lambda>a. same e (ap_Name a) name) (op_apps t) \<and> (\<not> col 64 scm \<or> \<not> col 255 compose) then Inl DataTooLong
     else Inr ((), t\<lparr>op_apps := map (\<lambda>a. if same e (ap_Name a) name then a\<lparr>ap_ScmName := scm, ap_Compose := compose\<rparr> else a) (op_apps t)\<rparr>))"

text \<open>The answer, with the services whose containers and files are dropped.\<close>

definition UpdateApp :: "ops_env \<Rightarrow> string \<Rightarrow> string \<Rightarrow> string \<Rightarrow> (deployApp \<times> string list) odb" where
  "UpdateApp e name scm0 compose0 =
     bindS (orElse (getApp e name) notFound) (\<lambda>a.
     let scm = trim_space scm0 in
     bindS (orElse (getJob e scm) (\<lambda>x. invalid (ScmErr x))) (\<lambda>_.
     bindS (liftS (case resolveAppCompose (da_Name a) compose0 of Inl x \<Rightarrow> Inl (invalid x) | Inr c \<Rightarrow> Inr c)) (\<lambda>compose.
     bindS (onOps internal (upd_app e (da_Name a) scm (str_join '','' compose))) (\<lambda>_.
     bindS (orElse (getApp e (da_Name a)) internal) (\<lambda>a'.
     retS (a', composeDropped (da_Compose a) compose))))))"

definition DeleteApp :: "ops_env \<Rightarrow> string \<Rightarrow> (string \<times> string list) odb" where
  "DeleteApp e name =
     bindS (orElse (getApp e name) notFound) (\<lambda>a.
     bindS (onOps internal (execS (\<lambda>t. t\<lparr>op_deploys := filter (\<lambda>d. \<not> same e (dp_Service d) (da_Name a)) (op_deploys t)\<rparr>))) (\<lambda>_.
     bindS (onOps internal (execS (\<lambda>t. t\<lparr>op_apps := filter (\<lambda>b. \<not> same e (ap_Name b) (da_Name a)) (op_apps t)\<rparr>))) (\<lambda>_.
     retS (da_Name a, da_Compose a))))"

section \<open>Deployments\<close>

definition ListDeploys :: "ops_env \<Rightarrow> string \<Rightarrow> deployRow list odb" where
  "ListDeploys e service0 =
     (let svc = trim_space service0 in
      onOps internal (query (\<lambda>t. take 50 (rev (sort_key dp_ID (filter (\<lambda>d. svc = [] \<or> same e (dp_Service d) svc) (op_deploys t)))))))"

definition loadDeploy :: "int \<Rightarrow> (deployRow \<times> string) odb" where
  "loadDeploy i =
     bindS (orElse (queryRow (\<lambda>t. filter (\<lambda>d. dp_ID d = i) (op_deploys t)))
              (\<lambda>x. if x = NoRows then notFound DeployNotFound else internal (OpsDb x))) (\<lambda>d.
     bindS (\<lambda>s. (Inr (live_of (db_tab s) (dp_ID d)), s)) (\<lambda>live.
     retS (case live of None \<Rightarrow> d | Some l \<Rightarrow> d\<lparr>dp_Log := l\<rparr>, view_error (dp_Status d))))"

definition GetDeploy :: "int \<Rightarrow> (deployRow \<times> string) odb" where "GetDeploy i = loadDeploy i"

definition ins_deploy :: "string \<Rightarrow> string \<Rightarrow> (ops_tabs, sql_err, int) dbm" where
  "ins_deploy svc ver = stmt (\<lambda>t.
     if \<not> col 64 svc \<or> \<not> col 64 ver then Inl DataTooLong
     else Inr (op_nextDeploy t, t\<lparr>op_nextDeploy := op_nextDeploy t + 1, op_deploys := op_deploys t @
       [\<lparr>dp_ID = op_nextDeploy t, dp_Service = svc, dp_Version = ver, dp_Status = ''running'', dp_Log = []\<rparr>]\<rparr>))"

text \<open>A run that a request has started: a deployment of an artifact, or a build and then a deployment.\<close>

datatype run =
    RunDeploy int deployApp string string string nat
  | RunBuildDeploy int int scmJob deployApp string string string string nat

definition deploy_label :: "scmJob \<Rightarrow> string" where
  "deploy_label job = (if sj_Label job = [] then ''golang'' else sj_Label job)"

definition started :: "int \<Rightarrow> deployApp \<Rightarrow> string \<Rightarrow> deployRow" where
  "started i app ver = \<lparr>dp_ID = i, dp_Service = da_Name app, dp_Version = ver, dp_Status = ''running'', dp_Log = []\<rparr>"

text \<open>An INSERT that fails marks the build; the error of that UPDATE is not looked at.\<close>

definition fail_build :: "int \<Rightarrow> (ops_tabs, 'e, unit) dbm" where
  "fail_build i = ignoreS (execS (\<lambda>t. t\<lparr>op_builds := map (\<lambda>b. if bd_ID b = i then b\<lparr>bd_Status := ''fail''\<rparr> else b) (op_builds t)\<rparr>))"

definition createBuildDeploy :: "ops_env \<Rightarrow> string \<Rightarrow> deployApp \<Rightarrow> string \<Rightarrow> (deployRow \<times> run) odb" where
  "createBuildDeploy e ver app branch =
     bindS (checkS (checkBranch branch)) (\<lambda>_.
     bindS (orElse (getJob e (da_ScmName app)) invalid) (\<lambda>job.
     bindS (idleBuild e (sj_Name job)) (\<lambda>_.
     let bin = artifact e (sj_Name job) ver in
     bindS (onOps internal (ins_build (sj_Name job) ver bin branch)) (\<lambda>b.
     bindS (catchS (ins_deploy (da_Name app) ver) (\<lambda>x. bindS (fail_build b) (\<lambda>_. failS (internal (OpsDb x))))) (\<lambda>i.
     bindS (new_live i) (\<lambda>h.
     retS (started i app ver, RunBuildDeploy b i job app branch ver bin (deploy_label job) h)))))))"

definition latest_status :: "ops_env \<Rightarrow> string \<Rightarrow> string \<Rightarrow> ops_tabs \<Rightarrow> string list" where
  "latest_status e svc ver t =
     map bd_Status (rev (sort_key bd_ID (filter (\<lambda>b. same e (bd_Service b) svc \<and> same e (bd_Version b) ver) (op_builds t))))"

definition CreateDeploy :: "ops_env \<Rightarrow> string \<Rightarrow> string \<Rightarrow> string \<Rightarrow> string \<Rightarrow> (deployRow \<times> run) odb" where
  "CreateDeploy e now service version0 branch0 =
     bindS (orElse (getApp e service) invalid) (\<lambda>app.
     bindS (idleDeploy e (da_Name app)) (\<lambda>_.
     let branch = trim_space branch0; ver = trim_space version0; src = artifact e (da_ScmName app) ver in
     if branch \<noteq> [] then createBuildDeploy e now app branch
     else
       bindS (guardS (ver \<noteq> [] \<and> \<not> str_contains ver ''/'' \<and> \<not> str_contains ver ''..'') BadVersion) (\<lambda>_.
       bindS (orElse (queryRow (latest_status e (da_ScmName app) ver))
                (\<lambda>x. if x = NoRows then invalid (NoArtifactRow (da_ScmName app) ver) else internal (OpsDb x))) (\<lambda>st.
       bindS (guardS (st = ''ok'') (ArtifactStatus st)) (\<lambda>_.
       bindS (guardS (oe_exists e src) (NoArtifactFile src)) (\<lambda>_.
       bindS (orElse (getJob e (da_ScmName app)) invalid) (\<lambda>job.
       bindS (onOps internal (ins_deploy (da_Name app) ver)) (\<lambda>i.
       bindS (new_live i) (\<lambda>h.
       retS (started i app ver, RunDeploy i app ver src (deploy_label job) h)))))))))) "

definition upd_deploy :: "int \<Rightarrow> string \<Rightarrow> nat \<Rightarrow> (ops_tabs, sql_err, unit) dbm" where
  "upd_deploy i status h = stmt (\<lambda>t.
     let l = live_String (hb_run (op_hubs t ! h)) in
     if list_ex (\<lambda>d. dp_ID d = i) (op_deploys t) \<and> \<not> mediumtext l then Inl DataTooLong
     else Inr ((), t\<lparr>op_deploys := map (\<lambda>d. if dp_ID d = i then d\<lparr>dp_Status := status, dp_Log := l\<rparr> else d) (op_deploys t)\<rparr>))"

text \<open>\<open>finish\<close> of \<open>runDeploy\<close>, and its end, with the log dropped.\<close>

definition finish_deploy :: "int \<Rightarrow> nat \<Rightarrow> string option \<Rightarrow> (ops_tabs, 'e, unit) dbm" where
  "finish_deploy i h err =
     bindS (say_err h err) (\<lambda>_.
     bindS (ignoreS (upd_deploy i (status_of err) h)) (\<lambda>_.
     modS (with_hub h live_finish)))"

definition end_deploy :: "int \<Rightarrow> nat \<Rightarrow> string option \<Rightarrow> (ops_tabs, 'e, unit) dbm" where
  "end_deploy i h err = bindS (finish_deploy i h err) (\<lambda>_. modS (drop_live i))"

text \<open>The middle of \<open>runBuildDeploy\<close>: the build has ended; the deployment goes on unless it failed.\<close>

definition mid_build_deploy :: "int \<Rightarrow> int \<Rightarrow> nat \<Rightarrow> string \<Rightarrow> string \<Rightarrow> string option \<Rightarrow> (ops_tabs, 'e, bool) dbm" where
  "mid_build_deploy b i h bin commit err =
     bindS (say_err h err) (\<lambda>_.
     bindS (ignoreS (upd_build b bin (status_of err) h commit)) (\<lambda>_.
     if err = None then retS True
     else
       bindS (ignoreS (upd_deploy i ''fail'' h)) (\<lambda>_.
       bindS (modS (with_hub h live_finish)) (\<lambda>_.
       bindS (modS (drop_live i)) (\<lambda>_.
       retS False)))))"

definition lookupBuildCommit :: "ops_env \<Rightarrow> string \<Rightarrow> string \<Rightarrow> (ops_tabs, 'e, string) dbm" where
  "lookupBuildCommit e svc ver =
     catchS (queryRow (\<lambda>t. map (\<lambda>b. trim_space (bd_Commit b)) (rev (sort_key bd_ID (filter (\<lambda>b. same e (bd_Service b) svc \<and>
                same e (bd_Version b) ver \<and> same e (bd_Status b) ''ok'') (op_builds t))))))
       (\<lambda>_. retS [])"

section \<open>Seeds\<close>

definition seed_jobs :: "(string \<times> string \<times> string \<times> string \<times> string) list" where
  "seed_jobs =
     [(''platform-web'', ''scripts/scm/platform-web.sh'', ''node'', ''platform-web'', ''platform-web''),
      (''platform-api'', ''Dockerfile.platform'', ''image'', ''platform'', ''platform''),
      (''home-web'', ''scripts/scm/home-web.sh'', ''node'', ''home-web'', ''home-web''),
      (''home-api'', ''scripts/scm/home-api.sh'', ''golang'', ''home'', ''home''),
      (''tlb'', ''Dockerfile.tlb'', ''image'', ''tlb'', ''tlb''),
      (''user'', ''scripts/scm/user.sh'', ''golang'', ''user'', ''user''),
      (''order'', ''scripts/scm/order.sh'', ''golang'', ''order'', ''order''),
      (''gateway'', ''scripts/scm/gateway.sh'', ''golang'', ''gateway'', ''gateway''),
      (''etcdui'', ''scripts/scm/etcdui.sh'', ''golang'', ''etcdui'', ''etcdui'')]"

text \<open>\<open>INSERT IGNORE\<close>: a duplicate is no error, and values that are too long are cut by MySQL; those of the
  seeds are short, the URL of the repository apart.\<close>

definition insertIgnore :: "(ops_tabs \<Rightarrow> sql_err + int \<times> ops_tabs) \<Rightarrow> (ops_tabs, sql_err, unit) dbm" where
  "insertIgnore f = stmt (\<lambda>t. case f t of
     Inr (_, t') \<Rightarrow> Inr ((), t')
   | Inl x \<Rightarrow> if x = Duplicate then Inr ((), t) else Inl x)"

fun seed_each :: "ops_env \<Rightarrow> string \<Rightarrow> (string \<times> string \<times> string \<times> string \<times> string) list \<Rightarrow> (ops_tabs, sql_err, unit) dbm" where
  "seed_each e url [] = retS ()"
| "seed_each e url ((name, script, lab, app, compose) # js) =
     bindS (insertIgnore (add_job e name (take 512 url) script lab)) (\<lambda>_.
     bindS (insertIgnore (add_app e app name compose)) (\<lambda>_. seed_each e url js))"

definition seedRelease :: "ops_env \<Rightarrow> string \<Rightarrow> (ops_tabs, sql_err, unit) dbm" where
  "seedRelease e url =
     bindS (seed_each e url seed_jobs) (\<lambda>_.
     ignoreS (execS (\<lambda>t. t\<lparr>op_jobs := map (\<lambda>j.
       if same e (sj_Name j) ''home-api'' \<and> (same e (sj_ScriptPath j) ''Dockerfile.home'' \<or> same e (sj_Label j) ''image'')
       then j\<lparr>sj_ScriptPath := ''scripts/scm/home-api.sh'', sj_Label := ''golang''\<rparr> else j) (op_jobs t)\<rparr>)))"

end
