(* ===== verification/Bam.thy ===== *)
theory Bam
  imports BamFiles Ops
begin

text \<open>
  platform/server/bam.go and bam_watch.go: modules of proto files with numbered versions, the code generated
  for them, and the watch that follows the branches of their repositories. The tables stand next to those of
  ops.go (\<open>bt_ops\<close>), whose jobs name the repositories. \<open>bt_disk\<close> is the list of the changes made to the disk
  by a generation; \<open>bam_env\<close> says what the commands, the disk and the compiler answer during one call. The
  mutex \<open>bamGenMu\<close> makes generations run one after the other.
\<close>

section \<open>State\<close>

record bamModule =
  bm_ID :: int
  bm_Name :: string
  bm_Version :: int
  bm_Rpcs :: int
  bm_HttpApis :: int
  bm_ScmName :: string
  bm_Branch :: string
  bm_ProtoDir :: string
  bm_Commit :: string

record bamFileRow =
  bf_Module :: int
  bf_Version :: int
  bf_Path :: string
  bf_Content :: string

record bamGenRow =
  bg_Module :: int
  bg_Version :: int
  bg_Status :: string
  bg_Log :: string
  bg_Dir :: string

record bamRevRow =
  rv_Module :: int
  rv_Version :: int
  rv_Branch :: string
  rv_Commit :: string
  rv_Rpcs :: int
  rv_HttpApis :: int

record bamRefRow =
  gr_Scm :: string
  gr_Branch :: string
  gr_Commit :: string

datatype fs_op = MkdirTemp | MkdirAll string | WriteFile string string | RemoveAll string | RunBuf string "string list"

record bam_tabs =
  bt_ops :: ops_tabs
  bt_modules :: "bamModule list"
  bt_files :: "bamFileRow list"
  bt_gens :: "bamGenRow list"
  bt_revs :: "bamRevRow list"
  bt_refs :: "bamRefRow list"
  bt_next :: int
  bt_disk :: "fs_op list"

definition bam_migrate :: bam_tabs where
  "bam_migrate = \<lparr>bt_ops = ops_migrate, bt_modules = [], bt_files = [], bt_gens = [], bt_revs = [], bt_refs = [], bt_next = 1, bt_disk = []\<rparr>"

record bam_env =
  be_ops :: ops_env
  be_compile :: compiler
  be_read :: "string \<Rightarrow> string option"
  be_sync :: "string \<Rightarrow> sync_env"
  be_head :: "string \<Rightarrow> string option"
  be_stat :: "string \<Rightarrow> file_stat"
  be_walk :: "string \<Rightarrow> walk_entry list"
  be_fs :: "fs_op \<Rightarrow> string option"
  be_work :: string
  be_look :: "string \<Rightarrow> bool"
  be_buf :: "string list \<Rightarrow> string"
  be_zip :: zip_env

type_synonym 'a bdb = "(bam_tabs, bam_err api_err, 'a) dbm"

definition bam_root :: "bam_env \<Rightarrow> string" where "bam_root e = oe_root (be_ops e)"
definition sameB :: "bam_env \<Rightarrow> string \<Rightarrow> string \<Rightarrow> bool" where "sameB e a b \<longleftrightarrow> same (be_ops e) a b"

text \<open>A statement on the tables of ops.go.\<close>

definition onJobs :: "(ops_tabs, 'e, 'a) dbm \<Rightarrow> (bam_tabs, 'e, 'a) dbm" where
  "onJobs m s =
     (case m \<lparr>db_tab = bt_ops (db_tab s), db_faults = db_faults s\<rparr> of
        (r, s') \<Rightarrow> (r, \<lparr>db_tab = (db_tab s)\<lparr>bt_ops := db_tab s'\<rparr>, db_faults = db_faults s'\<rparr>))"

definition onBam :: "(bam_tabs, sql_err, 'a) dbm \<Rightarrow> 'a bdb" where
  "onBam m = orElse m (\<lambda>x. internal (BamDb x))"

definition checkB :: "bam_err + 'a \<Rightarrow> 'a bdb" where
  "checkB r = liftS (lift_err invalid r)"

text \<open>A row, or none: \<open>sql.ErrNoRows\<close> told apart from other errors.\<close>

definition rowOr :: "(bam_tabs \<Rightarrow> 'a list) \<Rightarrow> bam_err api_err \<Rightarrow> 'a bdb" where
  "rowOr f miss = orElse (queryRow f) (\<lambda>x. if x = NoRows then miss else internal (BamDb x))"

definition opt_row :: "(bam_tabs \<Rightarrow> 'a list) \<Rightarrow> 'a option bdb" where
  "opt_row f = onBam (query (\<lambda>t. case f t of [] \<Rightarrow> None | x # _ \<Rightarrow> Some x))"

section \<open>Versions\<close>

definition col32 :: "int \<Rightarrow> bool" where "col32 x \<longleftrightarrow> - (2 ^ 31) \<le> x \<and> x < 2 ^ 31"

definition ins_module :: "bam_env \<Rightarrow> string \<Rightarrow> int \<Rightarrow> int \<Rightarrow> string \<Rightarrow> string \<Rightarrow> string \<Rightarrow> string \<Rightarrow> (bam_tabs, sql_err, int) dbm" where
  "ins_module e name rpcs http scm branch dir commit = stmt (\<lambda>t.
     if \<not> col 64 name \<or> \<not> col 64 scm \<or> \<not> col 255 branch \<or> \<not> col 255 dir \<or> \<not> col 64 commit \<or> \<not> col32 rpcs \<or> \<not> col32 http then Inl DataTooLong
     else if list_ex (\<lambda>m. sameB e (bm_Name m) name) (bt_modules t) then Inl Duplicate
     else Inr (bt_next t, t\<lparr>bt_next := bt_next t + 1, bt_modules := bt_modules t @
       [\<lparr>bm_ID = bt_next t, bm_Name = name, bm_Version = 1, bm_Rpcs = rpcs, bm_HttpApis = http, bm_ScmName = scm,
         bm_Branch = branch, bm_ProtoDir = dir, bm_Commit = commit\<rparr>]\<rparr>))"

definition upd_module :: "int \<Rightarrow> (bamModule \<Rightarrow> bamModule) \<Rightarrow> bool \<Rightarrow> (bam_tabs, sql_err, unit) dbm" where
  "upd_module i f fits = stmt (\<lambda>t.
     if \<not> fits then Inl DataTooLong
     else Inr ((), t\<lparr>bt_modules := map (\<lambda>m. if bm_ID m = i then f m else m) (bt_modules t)\<rparr>))"

definition ins_file :: "bam_env \<Rightarrow> int \<Rightarrow> int \<Rightarrow> bamFile \<Rightarrow> (bam_tabs, sql_err, unit) dbm" where
  "ins_file e i ver f = stmt (\<lambda>t.
     if \<not> col 255 (fst f) \<or> \<not> mediumtext (snd f) then Inl DataTooLong
     else if list_ex (\<lambda>r. bf_Module r = i \<and> bf_Version r = ver \<and> sameB e (bf_Path r) (fst f)) (bt_files t) then Inl Duplicate
     else Inr ((), t\<lparr>bt_files := bt_files t @ [\<lparr>bf_Module = i, bf_Version = ver, bf_Path = fst f, bf_Content = snd f\<rparr>]\<rparr>))"

fun ins_files :: "bam_env \<Rightarrow> int \<Rightarrow> int \<Rightarrow> bamFile list \<Rightarrow> (bam_tabs, sql_err, unit) dbm" where
  "ins_files e i ver [] = retS ()"
| "ins_files e i ver (f # fs) = bindS (ins_file e i ver f) (\<lambda>_. ins_files e i ver fs)"

definition ins_rev :: "int \<Rightarrow> int \<Rightarrow> string \<Rightarrow> string \<Rightarrow> int \<Rightarrow> int \<Rightarrow> (bam_tabs, sql_err, unit) dbm" where
  "ins_rev i ver branch commit rpcs http = stmt (\<lambda>t.
     if \<not> col 255 branch \<or> \<not> col 64 commit \<or> \<not> col32 rpcs \<or> \<not> col32 http then Inl DataTooLong
     else if list_ex (\<lambda>r. rv_Module r = i \<and> rv_Version r = ver) (bt_revs t) then Inl Duplicate
     else Inr ((), t\<lparr>bt_revs := bt_revs t @ [\<lparr>rv_Module = i, rv_Version = ver, rv_Branch = branch, rv_Commit = commit,
       rv_Rpcs = rpcs, rv_HttpApis = http\<rparr>]\<rparr>))"

definition compile_files :: "bam_env \<Rightarrow> bamFile list \<Rightarrow> bamRpc list \<times> int \<times> string" where
  "compile_files e files = compileBam (be_compile e) (be_read e) (bam_root e) files"

text \<open>The counts that are stored: none for files that do not compile.\<close>

definition api_counts :: "bam_env \<Rightarrow> bamFile list \<Rightarrow> int \<times> int" where
  "api_counts e files =
     (case compile_files e files of (rpcs, http, err) \<Rightarrow> if err \<noteq> [] then (0, 0) else (wrap32 (int (length rpcs)), http))"

text \<open>The body of the transaction of \<open>writeModule\<close>.\<close>

definition write_body :: "bam_env \<Rightarrow> string \<Rightarrow> bamFile list \<Rightarrow> string \<Rightarrow> string \<Rightarrow> string \<Rightarrow> string \<Rightarrow> (int \<times> int) bdb" where
  "write_body e name files scm branch dir commit =
     (case api_counts e files of (rpcs, http) \<Rightarrow>
      bindS (opt_row (\<lambda>t. map (\<lambda>m. (bm_ID m, bm_Version m)) (filter (\<lambda>m. sameB e (bm_Name m) name) (bt_modules t)))) (\<lambda>cur.
      bindS (case cur of
          None \<Rightarrow> bindS (onBam (ins_module e name rpcs http scm branch dir commit)) (\<lambda>i. retS (i, 1))
        | Some (i, v) \<Rightarrow>
            bindS (onBam (if scm \<noteq> [] then
                upd_module i (\<lambda>m. m\<lparr>bm_Version := v + 1, bm_Rpcs := rpcs, bm_HttpApis := http, bm_ScmName := scm, bm_Branch := branch,
                    bm_ProtoDir := dir, bm_Commit := commit\<rparr>)
                  (col32 (v + 1) \<and> col32 rpcs \<and> col32 http \<and> col 64 scm \<and> col 255 branch \<and> col 255 dir \<and> col 64 commit)
              else
                upd_module i (\<lambda>m. m\<lparr>bm_Version := v + 1, bm_Rpcs := rpcs, bm_HttpApis := http\<rparr>)
                  (col32 (v + 1) \<and> col32 rpcs \<and> col32 http))) (\<lambda>_. retS (i, v + 1))) (\<lambda>(i, ver).
      bindS (onBam (ins_files e i ver files)) (\<lambda>_.
      bindS (onBam (ins_rev i ver branch commit rpcs http)) (\<lambda>_.
      retS (i, ver))))))"

definition writeModule :: "bam_env \<Rightarrow> string \<Rightarrow> bamFile list \<Rightarrow> string \<Rightarrow> string \<Rightarrow> string \<Rightarrow> string \<Rightarrow> bamModule bdb" where
  "writeModule e name files scm branch dir commit =
     bindS (transaction (\<lambda>x. internal (BamDb x)) (write_body e name files scm branch dir commit)) (\<lambda>(i, ver).
     retS (case api_counts e files of (rpcs, http) \<Rightarrow>
       \<lparr>bm_ID = i, bm_Name = name, bm_Version = wrap32 ver, bm_Rpcs = rpcs, bm_HttpApis = http, bm_ScmName = scm, bm_Branch = branch,
        bm_ProtoDir = dir, bm_Commit = commit\<rparr>))"

definition getBamModule :: "bam_env \<Rightarrow> string \<Rightarrow> bamModule bdb" where
  "getBamModule e name =
     bindS (checkB (checkBamName name)) (\<lambda>_.
     rowOr (\<lambda>t. filter (\<lambda>m. sameB e (bm_Name m) name) (bt_modules t)) (notFound (NoModule name)))"

text \<open>A version with the status of its generation.\<close>

definition listBamRevs :: "int \<Rightarrow> bam_tabs \<Rightarrow> (bamRevRow \<times> string) list" where
  "listBamRevs i t =
     map (\<lambda>r. (r, case filter (\<lambda>g. bg_Module g = rv_Module r \<and> bg_Version g = rv_Version r) (bt_gens t) of [] \<Rightarrow> [] | g # _ \<Rightarrow> bg_Status g))
       (rev (sort_key rv_Version (filter (\<lambda>r. rv_Module r = i) (bt_revs t))))"

record bamDetail =
  dt_Module :: bamModule
  dt_Files :: "bamFile list"
  dt_Rpcs :: "bamRpc list"
  dt_ParseError :: string
  dt_GenStatus :: string
  dt_GenDir :: string
  dt_Versions :: "(bamRevRow \<times> string) list"

definition files_of :: "bam_env \<Rightarrow> int \<Rightarrow> int \<Rightarrow> bam_tabs \<Rightarrow> bamFile list" where
  "files_of e i ver t =
     map (\<lambda>r. (bf_Path r, bf_Content r)) (sort_key (\<lambda>r. map ordc (oe_coll (be_ops e) (bf_Path r)))
       (filter (\<lambda>r. bf_Module r = i \<and> bf_Version r = ver) (bt_files t)))"

text \<open>The module as it was at a version, and then its files, the result of their compilation and its versions.\<close>

definition at_version :: "string \<Rightarrow> bamModule \<Rightarrow> int \<Rightarrow> bamModule bdb" where
  "at_version name m ver =
     (if ver \<noteq> bm_Version m then
        bindS (rowOr (\<lambda>t. filter (\<lambda>r. rv_Module r = bm_ID m \<and> rv_Version r = ver) (bt_revs t)) (notFound (NoBamVersion name ver))) (\<lambda>r.
        retS (m\<lparr>bm_Version := ver, bm_Branch := rv_Branch r, bm_Commit := rv_Commit r, bm_Rpcs := rv_Rpcs r, bm_HttpApis := rv_HttpApis r\<rparr>))
      else retS m)"

definition detail :: "bam_env \<Rightarrow> bamModule \<Rightarrow> bamDetail bdb" where
  "detail e m0 =
     bindS (onBam (query (files_of e (bm_ID m0) (bm_Version m0)))) (\<lambda>files.
     case compile_files e files of (rpcs, http, err) \<Rightarrow>
     let m = m0\<lparr>bm_Rpcs := fst (api_counts e files), bm_HttpApis := snd (api_counts e files)\<rparr> in
     bindS (opt_row (\<lambda>t. map (\<lambda>g. (bg_Status g, bg_Dir g))
         (filter (\<lambda>g. bg_Module g = bm_ID m \<and> bg_Version g = bm_Version m) (bt_gens t)))) (\<lambda>gen.
     bindS (onBam (query (listBamRevs (bm_ID m)))) (\<lambda>vers.
     retS \<lparr>dt_Module = m, dt_Files = files, dt_Rpcs = rpcs, dt_ParseError = err,
           dt_GenStatus = (case gen of None \<Rightarrow> [] | Some g \<Rightarrow> fst g), dt_GenDir = (case gen of None \<Rightarrow> [] | Some g \<Rightarrow> snd g),
           dt_Versions = vers\<rparr>)))"

definition loadBam :: "bam_env \<Rightarrow> string \<Rightarrow> int \<Rightarrow> bamDetail bdb" where
  "loadBam e name ver0 =
     bindS (getBamModule e name) (\<lambda>m.
     bindS (at_version name m (if ver0 \<le> 0 then bm_Version m else ver0)) (detail e))"

section \<open>Handlers\<close>

definition ListBamModules :: "bamModule list bdb" where
  "ListBamModules = onBam (query (\<lambda>t. sort_key bm_ID (bt_modules t)))"

definition syncBamRepo :: "bam_env \<Rightarrow> string \<Rightarrow> string \<Rightarrow> (bam_tabs, bam_err api_err, string list \<times> (bam_err + string)) dbm" where
  "syncBamRepo e scm branch =
     catchS (bindS (onJobs (getJob (be_ops e) scm)) (\<lambda>job.
        let name = ''bam-'' @ sj_Name job in
        case gitSync (be_sync e name) (bam_root e) name (sj_GitURL job) branch of
          (ws, Inl x) \<Rightarrow> retS (ws, Inl (SyncErr [] x))
        | (ws, Inr repo) \<Rightarrow> retS (ws, Inr repo)))
       (\<lambda>x. retS ([], Inl (OpsErr x)))"

definition CreateBamModule :: "bam_env \<Rightarrow> string \<Rightarrow> string \<Rightarrow> string \<Rightarrow> string \<Rightarrow> bamModule bdb" where
  "CreateBamModule e name0 scm0 dir0 branch0 =
     (let name = trim_space name0; scm = trim_space scm0; dir = trim_set ''/'' (trim_space dir0); branch = trim_space branch0 in
      bindS (checkB (checkBamName name)) (\<lambda>_.
      bindS (checkB (guardR (scm \<noteq> []) ChooseRepo)) (\<lambda>_.
      bindS (checkB (checkProtoDir dir)) (\<lambda>_.
      bindS (checkB (if branch \<noteq> [] then lift_err OpsErr (checkBranch branch) else Inr ())) (\<lambda>_.
      bindS (onBam (query (\<lambda>t. length (filter (\<lambda>m. sameB e (bm_Name m) name) (bt_modules t))))) (\<lambda>n.
      bindS (checkB (guardR (n = 0) (ModuleExists name))) (\<lambda>_.
      bindS (opt_row (\<lambda>t. map bm_Name (filter (\<lambda>m. sameB e (bm_ScmName m) scm \<and> sameB e (bm_ProtoDir m) dir) (bt_modules t)))) (\<lambda>taken.
      bindS (checkB (case taken of Some x \<Rightarrow> Inl (DirTaken dir x) | None \<Rightarrow> Inr ())) (\<lambda>_.
      bindS (syncBamRepo e scm branch) (\<lambda>(_, synced).
      bindS (checkB synced) (\<lambda>repo.
      bindS (checkB (collectBamFiles (be_stat e) (be_walk e) repo dir)) (\<lambda>files.
      writeModule e name files scm branch dir (gitHead (be_head e repo))))))))))))))"

definition GetBamModule :: "bam_env \<Rightarrow> string \<Rightarrow> int \<Rightarrow> bamDetail bdb" where
  "GetBamModule e name ver = loadBam e (trim_space name) ver"

definition SaveBamModule :: "bam_env \<Rightarrow> string \<Rightarrow> bamFile list \<Rightarrow> bamDetail bdb" where
  "SaveBamModule e name0 files0 =
     (let name = trim_space name0 in
      bindS (checkB (checkBamName name)) (\<lambda>_.
      bindS (checkB (checkBamFiles files0)) (\<lambda>files.
      bindS (rowOr (\<lambda>t. map bm_ScmName (filter (\<lambda>m. sameB e (bm_Name m) name) (bt_modules t))) (notFound (NoModule name))) (\<lambda>scm.
      bindS (checkB (guardR (scm = []) EditInRepo)) (\<lambda>_.
      bindS (writeModule e name files [] [] [] []) (\<lambda>_.
      loadBam e name 0))))))"

text \<open>\<open>file\<close>: the text of platform.proto, if it can be read.\<close>

definition seedBam :: "bam_env \<Rightarrow> string option \<Rightarrow> unit bdb" where
  "seedBam e file =
     bindS (onBam (query (\<lambda>t. length (bt_modules t)))) (\<lambda>n.
     if 0 < n then retS ()
     else case file of
       None \<Rightarrow> retS ()
     | Some text \<Rightarrow> bindS (writeModule e ''platform'' [(''platform/v1/platform.proto'', text)] [] [] [] []) (\<lambda>_. retS ()))"

end
