(* ===== verification/BamGen.thy ===== *)
theory BamGen
  imports Bam
begin

text \<open>
  Generation of code for a module, its download, and the watch of the repositories (bam.go, bam_watch.go).
  Every change to the disk is an \<open>fs_op\<close>; it is added to \<open>bt_disk\<close> whether it fails or not.
\<close>

section \<open>Disk\<close>

definition doFs :: "bam_env \<Rightarrow> fs_op \<Rightarrow> (bam_tabs, string, unit) dbm" where
  "doFs e op s =
     (case be_fs e op of None \<Rightarrow> Inr () | Some x \<Rightarrow> Inl x, s\<lparr>db_tab := (db_tab s)\<lparr>bt_disk := bt_disk (db_tab s) @ [op]\<rparr>\<rparr>)"

definition onFs :: "(bam_tabs, string, 'a) dbm \<Rightarrow> 'a bdb" where
  "onFs m = orElse m (\<lambda>x. internal (FsErr x))"

fun copy_loop :: "bam_env \<Rightarrow> string \<Rightarrow> string \<Rightarrow> walk_entry list \<Rightarrow> (bam_tabs, string, unit) dbm" where
  "copy_loop e src dst [] = retS ()"
| "copy_loop e src dst (w # ws) =
     (case we_Err w of
        Some x \<Rightarrow> failS x
      | None \<Rightarrow>
        bindS (liftS (path_Rel src (we_Path w))) (\<lambda>rel.
        let to = path_Join [dst, rel] in
        bindS (if we_Dir w then doFs e (MkdirAll to)
               else bindS (liftS (we_Read w)) (\<lambda>b.
                    bindS (doFs e (MkdirAll (path_Dir to))) (\<lambda>_. doFs e (WriteFile to b)))) (\<lambda>_.
        copy_loop e src dst ws)))"

definition copyTree :: "bam_env \<Rightarrow> string \<Rightarrow> string \<Rightarrow> (bam_tabs, string, unit) dbm" where
  "copyTree e src dst = copy_loop e src dst (be_walk e src)"

definition copyGoogleAPI :: "bam_env \<Rightarrow> string \<Rightarrow> (bam_tabs, string, unit) dbm" where
  "copyGoogleAPI e protoDir =
     (let src = path_Join [bam_root e, ''proto'', ''google''] in
      if be_stat e src = Missing then failS (''stat '' @ src @ '': no such file or directory'')
      else copyTree e src (path_Join [protoDir, ''google'']))"

fun write_protos :: "bam_env \<Rightarrow> string \<Rightarrow> bamFile list \<Rightarrow> (bam_tabs, string, unit) dbm" where
  "write_protos e protoDir [] = retS ()"
| "write_protos e protoDir (f # fs) =
     (let dst = path_Join [protoDir, fst f] in
      bindS (doFs e (MkdirAll (path_Dir dst))) (\<lambda>_.
      bindS (doFs e (WriteFile dst (snd f))) (\<lambda>_.
      write_protos e protoDir fs)))"

section \<open>Generation\<close>

definition buf_yaml :: string where
  "buf_yaml = unlines [''version: v2'', ''modules:'', ''  - path: proto'', ''lint:'', ''  use:'', ''    - MINIMAL'']"

definition art_dir :: "bam_env \<Rightarrow> bamModule \<Rightarrow> string" where
  "art_dir e m = path_Join [bam_root e, ''artifacts'', ''bam'', bm_Name m, ''v'' @ go_itoa (bm_Version m)]"

definition ins_gen :: "int \<Rightarrow> int \<Rightarrow> string \<Rightarrow> string \<Rightarrow> string \<Rightarrow> (bam_tabs, sql_err, unit) dbm" where
  "ins_gen i ver status log dir = stmt (\<lambda>t.
     if \<not> mediumtext log \<or> \<not> col 512 dir then Inl DataTooLong
     else let row = \<lparr>bg_Module = i, bg_Version = ver, bg_Status = status, bg_Log = log, bg_Dir = dir\<rparr> in
       if list_ex (\<lambda>g. bg_Module g = i \<and> bg_Version g = ver) (bt_gens t)
       then Inr ((), t\<lparr>bt_gens := map (\<lambda>g. if bg_Module g = i \<and> bg_Version g = ver then row else g) (bt_gens t)\<rparr>)
       else Inr ((), t\<lparr>bt_gens := bt_gens t @ [row]\<rparr>))"

record gen_response =
  gn_Version :: int
  gn_Status :: string
  gn_Log :: string
  gn_Dir :: string
  gn_Files :: "string list"

definition need_tool :: "bam_env \<Rightarrow> string \<Rightarrow> unit bdb" where
  "need_tool e tool = checkB (guardR (be_look e tool) (NoTool tool))"

text \<open>The sources are put into \<open>protoDir\<close>; the result is what buf is told to generate.\<close>

definition put_sources :: "bam_env \<Rightarrow> bamDetail \<Rightarrow> string \<Rightarrow> string \<Rightarrow> (bam_tabs, string, string) dbm" where
  "put_sources e d repo protoDir =
     (let dir = bm_ProtoDir (dt_Module d) in
      if repo \<noteq> [] \<and> dir \<noteq> [] then
        let rootRel = protoModuleRoot (be_stat e) repo dir in
        bindS (copyTree e (path_Join [repo, rootRel]) protoDir) (\<lambda>_.
        retS (case path_Rel rootRel dir of
                Inl _ \<Rightarrow> ''proto''
              | Inr rel \<Rightarrow> if rel \<noteq> ''.'' then path_Join [''proto'', rel] else ''proto''))
      else bindS (write_protos e protoDir (dt_Files d)) (\<lambda>_. retS ''proto''))"

text \<open>The run of buf: its log, and whether it is ok.\<close>

definition run_buf :: "bam_env \<Rightarrow> string \<Rightarrow> (bam_tabs, string, string \<times> bool) dbm" where
  "run_buf e pathArg =
     (let args = [''generate'', ''--path'', pathArg] @
            (if be_stat e (path_Join [be_work e, ''proto'', ''google'']) \<noteq> Missing then [''--exclude-path'', ''proto/google''] else [])
      in catchS (bindS (doFs e (RunBuf (be_work e) args)) (\<lambda>_. retS (be_buf e args, True)))
           (\<lambda>x. retS (trim_space (be_buf e args @ [CHR 0x0A] @ x), False)))"

definition keep_artifact :: "bam_env \<Rightarrow> string \<Rightarrow> string \<times> bool \<Rightarrow> (string \<times> bool) bdb" where
  "keep_artifact e art = (\<lambda>(log, ok).
     bindS (ignoreS (doFs e (RemoveAll art))) (\<lambda>_.
     if \<not> ok then retS (log, False)
     else bindS (onFs (doFs e (MkdirAll art))) (\<lambda>_.
       catchS (bindS (copyTree e (path_Join [be_work e, ''gen'']) art) (\<lambda>_. retS (log, True)))
         (\<lambda>x. retS (trim_space (log @ [CHR 0x0A] @ x), False)))))"

text \<open>The body of \<open>runBamGen\<close> once the work directory is there.\<close>

definition gen_in :: "bam_env \<Rightarrow> bamDetail \<Rightarrow> string \<Rightarrow> gen_response bdb" where
  "gen_in e d repo =
     (let m = dt_Module d; work = be_work e; protoDir = path_Join [work, ''proto'']; art = art_dir e m in
      bindS (onFs (doFs e (MkdirAll protoDir))) (\<lambda>_.
      bindS (onFs (put_sources e d repo protoDir)) (\<lambda>pathArg.
      bindS (onFs (copyGoogleAPI e protoDir)) (\<lambda>_.
      bindS (onFs (doFs e (WriteFile (path_Join [work, ''buf.yaml'']) buf_yaml))) (\<lambda>_.
      bindS (onFs (doFs e (WriteFile (path_Join [work, ''buf.gen.yaml'']) (bamGenYAML (be_look e) (be_stat e) (bam_root e))))) (\<lambda>_.
      bindS (onFs (run_buf e pathArg)) (\<lambda>out.
      bindS (keep_artifact e art out) (\<lambda>(log, ok).
      let status = (if ok then ''ok'' else ''fail'') in
      bindS (onBam (ins_gen (bm_ID m) (bm_Version m) status log art)) (\<lambda>_.
      retS \<lparr>gn_Version = bm_Version m, gn_Status = status, gn_Log = log, gn_Dir = art,
            gn_Files = fst (listRel art (be_walk e art))\<rparr>)))))))))"

text \<open>\<open>defer os.RemoveAll(work)\<close>\<close>

definition removing_work :: "bam_env \<Rightarrow> 'a bdb \<Rightarrow> 'a bdb" where
  "removing_work e m s = (case m s of (r, s1) \<Rightarrow> (r, snd (doFs e (RemoveAll (be_work e)) s1)))"

definition runBamGen :: "bam_env \<Rightarrow> bamDetail \<Rightarrow> string \<Rightarrow> gen_response bdb" where
  "runBamGen e d repo =
     bindS (need_tool e ''buf'') (\<lambda>_.
     bindS (need_tool e ''protoc-gen-go'') (\<lambda>_.
     bindS (need_tool e ''protoc-gen-connect-go'') (\<lambda>_.
     bindS (onFs (doFs e MkdirTemp)) (\<lambda>_.
     removing_work e (gen_in e d repo)))))"

text \<open>The end of \<open>syncAndGen\<close>, on the module as it is loaded then.\<close>

definition gen_loaded :: "bam_env \<Rightarrow> bamDetail \<Rightarrow> string \<Rightarrow> string \<Rightarrow> gen_response bdb" where
  "gen_loaded e d repo gitLog =
     bindS (checkB (if dt_ParseError d \<noteq> [] then Inl (ProtoError (dt_ParseError d)) else Inr ())) (\<lambda>_.
     bindS (runBamGen e d repo) (\<lambda>out.
     retS (if gitLog \<noteq> [] then out\<lparr>gn_Log := gitLog @ gn_Log out\<rparr> else out)))"

text \<open>Whether the code that is there was generated from the commit.\<close>

definition up_to_date :: "bam_env \<Rightarrow> bamDetail \<Rightarrow> string \<Rightarrow> string \<Rightarrow> bool" where
  "up_to_date e d commit br \<longleftrightarrow>
     commit \<noteq> [] \<and> commit = bm_Commit (dt_Module d) \<and> br = bm_Branch (dt_Module d) \<and> dt_GenStatus d = ''ok'' \<and> dt_GenDir d \<noteq> [] \<and>
     be_stat e (dt_GenDir d) = IsDir"

definition syncAndGen :: "bam_env \<Rightarrow> string \<Rightarrow> string \<Rightarrow> gen_response bdb" where
  "syncAndGen e name branch0 =
     bindS (loadBam e name 0) (\<lambda>d.
     let m = dt_Module d; b = trim_space branch0; br = (if b = [] then bm_Branch m else b) in
     bindS (checkB (if b = [] then Inr () else lift_err OpsErr (checkBranch b))) (\<lambda>_.
     if bm_ScmName m = [] then gen_loaded e d [] []
     else
       bindS (syncBamRepo e (bm_ScmName m) br) (\<lambda>(ws, synced).
       let gitLog = concat ws in
       bindS (checkB (lift_err (\<lambda>x. case x of SyncErr _ y \<Rightarrow> SyncErr gitLog y | y \<Rightarrow> y) synced)) (\<lambda>repo.
       let commit = gitHead (be_head e repo) in
       if up_to_date e d commit br then
         retS \<lparr>gn_Version = bm_Version m, gn_Status = ''ok'', gn_Log = gitLog, gn_Dir = dt_GenDir d, gn_Files = []\<rparr>
       else
         bindS (checkB (collectBamFiles (be_stat e) (be_walk e) repo (bm_ProtoDir m))) (\<lambda>files.
         bindS (writeModule e name files (bm_ScmName m) br (bm_ProtoDir m) commit) (\<lambda>_.
         bindS (loadBam e name 0) (\<lambda>d1. gen_loaded e d1 repo gitLog)))))))"

definition GenerateBam :: "bam_env \<Rightarrow> string \<Rightarrow> gen_response bdb" where
  "GenerateBam e name = syncAndGen e (trim_space name) []"

section \<open>Downloads\<close>

definition bamZip :: "bam_env \<Rightarrow> string \<Rightarrow> int \<Rightarrow> (string \<times> string) bdb" where
  "bamZip e name ver0 =
     bindS (getBamModule e name) (\<lambda>m.
     let ver = (if ver0 \<le> 0 then bm_Version m else ver0) in
     bindS (rowOr (\<lambda>t. filter (\<lambda>g. bg_Module g = bm_ID m \<and> bg_Version g = ver) (bt_gens t)) (notFound (NotGenerated name ver))) (\<lambda>g.
     bindS (checkB (guardR (bg_Status g = ''ok'' \<and> bg_Dir g \<noteq> []) GenNotOk)) (\<lambda>_.
     bindS (liftS (lift_err (\<lambda>x. internal (ZipErr x)) (zipDir (be_zip e) (be_walk e) (bg_Dir g)))) (\<lambda>zip.
     retS (name @ ''-v'' @ go_itoa ver @ ''.zip'', zip)))))"

definition DownloadBam :: "bam_env \<Rightarrow> string \<Rightarrow> int \<Rightarrow> (string \<times> string) bdb" where
  "DownloadBam e name ver = bamZip e (trim_space name) ver"

text \<open>An answer of the plain HTTP handlers: status 404 and no body, the status of an error, or a file.\<close>

datatype http_answer = HttpNotFound | HttpError int bam_err | HttpFile string string | HttpNoContent

definition answer :: "http_answer bdb \<Rightarrow> (bam_tabs, unit, http_answer) dbm" where
  "answer m = catchS m (\<lambda>(code, x). retS (HttpError (http_status code) x))"

definition handleBamZip :: "bam_env \<Rightarrow> string \<Rightarrow> string \<Rightarrow> (bam_tabs, unit, http_answer) dbm" where
  "handleBamZip e path version =
     (case bamZipName path of
        None \<Rightarrow> retS HttpNotFound
      | Some name \<Rightarrow>
          let q = trim_space version in
          answer (bindS (bamZip e name (if q \<noteq> [] then fst (go_atoi q) else 0)) (\<lambda>(fn, zip). retS (HttpFile fn zip))))"

definition handleBamPull :: "bam_env \<Rightarrow> (string \<Rightarrow> string) \<Rightarrow> string \<Rightarrow> string \<Rightarrow> string \<Rightarrow> (bam_tabs, unit, http_answer) dbm" where
  "handleBamPull e u path branch lang =
     (case bamPullName path of
        None \<Rightarrow> retS HttpNotFound
      | Some name \<Rightarrow>
          answer
            (bindS (syncAndGen e name (trim_space branch)) (\<lambda>out.
             bindS (checkB (if gn_Status out \<noteq> ''ok'' then Inl (ProtoError (gn_Log out)) else Inr ())) (\<lambda>_.
             bindS (bamZip e name (gn_Version out)) (\<lambda>(fn, zip).
             bindS (checkB (filterZipLang u (be_zip e) zip (trim_space lang))) (\<lambda>zip'.
             retS (HttpFile fn zip')))))))"

section \<open>The watch\<close>

text \<open>Errors of the watch are logged only; the type of a step is that of its error.\<close>

type_synonym 'a wdb = "(bam_tabs, bam_err api_err, 'a) dbm"

fun gen_each :: "bam_env \<Rightarrow> string \<Rightarrow> string list \<Rightarrow> nat \<Rightarrow> nat wdb" where
  "gen_each e branch [] ok = retS ok"
| "gen_each e branch (n # ns) ok =
     bindS (catchS (bindS (syncAndGen e n branch) (\<lambda>_. retS True)) (\<lambda>_. retS False)) (\<lambda>b.
     gen_each e branch ns (if b then ok + 1 else ok))"

definition ins_ref :: "bam_env \<Rightarrow> bool \<Rightarrow> string \<Rightarrow> string \<Rightarrow> string \<Rightarrow> (bam_tabs, sql_err, unit) dbm" where
  "ins_ref e upsert scm branch commit = stmt (\<lambda>t.
     if \<not> col 64 scm \<or> \<not> col 255 branch \<or> \<not> col 64 commit then Inl DataTooLong
     else if list_ex (\<lambda>r. sameB e (gr_Scm r) scm \<and> sameB e (gr_Branch r) branch) (bt_refs t) then
       if upsert then Inr ((), t\<lparr>bt_refs := map (\<lambda>r. if sameB e (gr_Scm r) scm \<and> sameB e (gr_Branch r) branch then r\<lparr>gr_Commit := commit\<rparr> else r) (bt_refs t)\<rparr>)
       else Inl Duplicate
     else Inr ((), t\<lparr>bt_refs := bt_refs t @ [\<lparr>gr_Scm = scm, gr_Branch = branch, gr_Commit = commit\<rparr>]\<rparr>))"

definition genScmBranch :: "bam_env \<Rightarrow> string \<Rightarrow> string \<Rightarrow> string \<Rightarrow> unit wdb" where
  "genScmBranch e scm branch commit =
     bindS (onBam (query (\<lambda>t. map bm_Name (filter (\<lambda>m. sameB e (bm_ScmName m) scm) (bt_modules t))))) (\<lambda>mods.
     if mods = [] then retS ()
     else bindS (gen_each e branch mods 0) (\<lambda>ok.
       if ok = 0 then failS (internal (SyncErr branch scm))
       else onBam (ins_ref e True scm branch commit)))"

fun poll_branches :: "bam_env \<Rightarrow> string \<Rightarrow> git_branch list \<Rightarrow> unit wdb" where
  "poll_branches e scm [] = retS ()"
| "poll_branches e scm (b # bs) =
     (if gb_Name b = [] \<or> gb_Commit b = [] then poll_branches e scm bs
      else bindS (opt_row (\<lambda>t. map gr_Commit (filter (\<lambda>r. sameB e (gr_Scm r) scm \<and> sameB e (gr_Branch r) (gb_Name b)) (bt_refs t)))) (\<lambda>old.
        bindS (case old of
            None \<Rightarrow> onBam (ins_ref e False scm (gb_Name b) (gb_Commit b))
          | Some c \<Rightarrow> if c = gb_Commit b then retS () else genScmBranch e scm (gb_Name b) (gb_Commit b)) (\<lambda>_.
        poll_branches e scm bs)))"

definition pollScm :: "bam_env \<Rightarrow> string \<Rightarrow> unit wdb" where
  "pollScm e scm =
     bindS (orElse (onJobs (getJob (be_ops e) scm)) (\<lambda>x. internal (OpsErr x))) (\<lambda>job.
     case oe_refs (be_ops e) (sj_GitURL job) of
       Inl out \<Rightarrow> failS (internal (OpsErr (GitFails out)))
     | Inr out \<Rightarrow> poll_branches e scm (snd (parseGitLsRemote out)))"

fun poll_each :: "bam_env \<Rightarrow> string list \<Rightarrow> (bam_tabs, unit, unit) dbm" where
  "poll_each e [] = retS ()"
| "poll_each e (n # ns) = bindS (ignoreS (pollScm e n)) (\<lambda>_. poll_each e ns)"

text \<open>\<open>SELECT DISTINCT\<close> compares as the collation does; of equal names the first is taken here.\<close>

fun distinct_by :: "('a \<Rightarrow> 'b) \<Rightarrow> 'a list \<Rightarrow> 'a list" where
  "distinct_by f [] = []"
| "distinct_by f (x # xs) = x # filter (\<lambda>y. f y \<noteq> f x) (distinct_by f xs)"

definition pollBamGit :: "bam_env \<Rightarrow> (bam_tabs, unit, unit) dbm" where
  "pollBamGit e =
     catchS (bindS (query (\<lambda>t. distinct_by (oe_coll (be_ops e)) (filter (\<lambda>n. \<not> sameB e n []) (map bm_ScmName (bt_modules t))))) (\<lambda>names s.
        (case poll_each e names s of (_, s') \<Rightarrow> (Inr (), s')))) (\<lambda>_. retS ())"

fun hook_each :: "bam_env \<Rightarrow> string \<Rightarrow> string \<Rightarrow> string list \<Rightarrow> unit wdb" where
  "hook_each e branch commit [] = retS ()"
| "hook_each e branch commit (n # ns) = bindS (genScmBranch e n branch commit) (\<lambda>_. hook_each e branch commit ns)"

definition handleBamHook :: "bam_env \<Rightarrow> (string \<Rightarrow> string) \<Rightarrow> (string \<Rightarrow> git_hook option) \<Rightarrow> string \<Rightarrow> (bam_tabs, unit, http_answer) dbm" where
  "handleBamHook e u unmarshal raw =
     (case parseGitHook unmarshal raw of (branch, commit, url) \<Rightarrow>
      if branch = [] \<or> commit = [] \<or> trim_set ''0'' commit = [] then retS HttpNoContent
      else catchS (bindS (onBam (query (\<lambda>t. map sj_Name (filter (\<lambda>j. normalizeGitURL u (sj_GitURL j) = normalizeGitURL u url) (op_jobs (bt_ops t))))))
             (\<lambda>scms. bindS (hook_each e branch commit scms) (\<lambda>_. retS HttpNoContent)))
           (\<lambda>(_, x). retS (HttpError 500 x)))"

end
