(* ===== verification/LiveOk.thy ===== *)
theory LiveOk
  imports Live "HOL-Library.Sublist"
begin

text \<open>
  The log of a run is what a terminal would show, and watchers see all of it, as long as no carriage
  return is written and no channel overflows.
\<close>

section \<open>The log as lines\<close>

text \<open>What a terminal shows: of each line the text after its last carriage return.\<close>

fun after_cr :: "string \<Rightarrow> string \<Rightarrow> string" where
  "after_cr cur [] = cur"
| "after_cr cur (c # s) = (if c = CR then after_cr [] s else if c = NL then cur @ [NL] @ after_cr [] s else after_cr (cur @ [c]) s)"

definition shown :: "string \<Rightarrow> string" where
  "shown s = str_join [NL] (map (\<lambda>l. last (split_on CR l)) (split_on NL (crlf s)))"

text \<open>Writes of a log: pieces of the output of the commands.\<close>

fun cuts_crlf :: "string list \<Rightarrow> bool" where
  "cuts_crlf (p # q # ps) = ((p \<noteq> [] \<and> last p = CR \<and> q \<noteq> [] \<and> hd q = NL) \<or> q = [] \<or> cuts_crlf (q # ps))"
| "cuts_crlf _ = False"

lemma crlf_append: "\<not> (s \<noteq> [] \<and> last s = CR \<and> t \<noteq> [] \<and> hd t = NL) \<Longrightarrow> crlf (s @ t) = crlf s @ crlf t"
proof (induction s rule: crlf.induct)
  case (1 a b s)
  then show ?case by (cases "s = []") auto
next
  case "2_2"
  then show ?case by (cases t) auto
qed auto

lemma absorb_append:
  "\<not> (s \<noteq> [] \<and> last s = CR \<and> t \<noteq> [] \<and> hd t = NL) \<Longrightarrow> absorb (s @ t) x = absorb t (absorb s x)"
  by (simp add: absorb_def crlf_append)

lemma fold_absorb: "\<not> cuts_crlf ps \<Longrightarrow> fold absorb ps x = absorb (concat ps) x"
proof (induction ps arbitrary: x rule: cuts_crlf.induct)
  case (1 p q ps)
  then have "fold absorb (q # ps) (absorb p x) = absorb (concat (q # ps)) (absorb p x)" by simp
  moreover have "\<not> (p \<noteq> [] \<and> last p = CR \<and> concat (q # ps) \<noteq> [] \<and> hd (concat (q # ps)) = NL)" using 1(2) by (cases q) auto
  ultimately show ?case by (simp add: absorb_append)
qed (simp_all add: absorb_def)

lemma absorb_bytes: "(case fold absorb_byte s (buf, cur) of (b, c) \<Rightarrow> b @ c) = buf @ after_cr cur s"
  by (induction s arbitrary: buf cur) (auto simp: absorb_byte_def)

lemma split_on_prefix: "c \<notin> set p \<Longrightarrow> split_on c (p @ s) = (p @ hd (split_on c s)) # tl (split_on c s)"
  by (induction p) (auto split: list.splits)

lemma str_join_Cons: "xs \<noteq> [] \<Longrightarrow> str_join sep (x # xs) = x @ sep @ str_join sep xs"
  by (cases xs) simp_all

lemma after_cr_lines:
  "CR \<notin> set cur \<Longrightarrow> NL \<notin> set cur \<Longrightarrow>
   after_cr cur s = str_join [NL] (map (\<lambda>l. last (split_on CR l)) (split_on NL (cur @ s)))"
proof (induction s arbitrary: cur)
  case Nil
  then show ?case by (simp add: split_on_segment)
next
  case (Cons c s)
  have split_cur: "last (split_on CR cur) = cur" using Cons.prems(1) by (simp add: split_on_segment)
  consider "c = CR" | "c = NL" | "c \<noteq> CR" "c \<noteq> NL" by blast
  then show ?case
  proof cases
    case 1
    obtain y ys where y: "split_on NL s = y # ys" by (cases "split_on NL s") auto
    have "split_on NL ((cur @ [CR]) @ s) = (cur @ CR # y) # ys"
      using Cons.prems y by (subst split_on_prefix) auto
    moreover have "last (split_on CR (cur @ CR # y)) = last (split_on CR y)" using Cons.prems by (simp add: split_on_append)
    ultimately show ?thesis using Cons.IH [of "[]"] 1 y by (cases ys) simp_all
  next
    case 2
    then show ?thesis using Cons.IH [of "[]"] Cons.prems split_cur by (simp add: split_on_append str_join_Cons)
  next
    case 3
    then show ?thesis using Cons.IH [of "cur @ [c]"] Cons.prems by simp
  qed
qed

lemma fold_upd_run [simp]: "hb_run (fold (\<lambda>i. upd_chan i f) is h) = hb_run h"
  by (induction "is" arbitrary: h) (simp_all add: upd_chan_def)

definition log_pair :: "hub \<Rightarrow> string \<times> string" where "log_pair h = (lr_buf (hb_run h), lr_cur (hb_run h))"

lemma write_pair: "log_pair (live_Write p h) = absorb p (log_pair h)"
  by (simp add: live_Write_def log_pair_def Let_def split: prod.split)

lemma writes_pair: "log_pair (fold live_Write ps h) = fold absorb ps (log_pair h)"
  by (induction ps arbitrary: h) (simp_all add: write_pair)


text \<open>A line whose CR LF is cut between two writes is lost.\<close>

lemma cut_line_lost:
  "live_String (hb_run (fold live_Write [''done'' @ [CR], [NL]] new_hub)) = [NL]"
  "live_String (hb_run (fold live_Write [''done'' @ [CR, NL]] new_hub)) = ''done'' @ [NL]"
  by code_simp+


section \<open>What watchers see\<close>

text \<open>Interleavings in which no carriage return is written, no channel is full when something is written,
  and nothing is written after \<open>finish\<close>.\<close>

inductive live_trace :: "hub \<Rightarrow> bool" where
  live_new: "live_trace new_hub"
| live_writes: "live_trace h \<Longrightarrow> CR \<notin> set p \<Longrightarrow> \<not> lr_closed (hb_run h) \<Longrightarrow>
    \<forall>i\<in>set (lr_subs (hb_run h)). length (ch_queue (hb_chans h ! i)) < 64 \<Longrightarrow> live_trace (live_Write p h)"
| live_subs: "live_trace h \<Longrightarrow> live_trace (live_subscribe h)"
| live_cancels: "live_trace h \<Longrightarrow> live_trace (live_cancel i h)"
| live_recvs: "live_trace h \<Longrightarrow> i < length (hb_chans h) \<Longrightarrow> live_trace (live_recv i h)"
| live_finishes: "live_trace h \<Longrightarrow> live_trace (live_finish h)"

definition will_have :: "chan \<Rightarrow> string" where "will_have c = ch_text c @ concat (ch_queue c)"

definition live_inv :: "hub \<Rightarrow> bool" where
  "live_inv h \<longleftrightarrow>
     (let l = hb_run h; cs = hb_chans h in
      lr_sent l = length (live_String l) \<and> distinct (lr_subs l) \<and>
      (\<forall>i\<in>set (lr_subs l). i < length cs \<and> \<not> ch_closed (cs ! i) \<and> will_have (cs ! i) = live_String l) \<and>
      (\<forall>c\<in>set cs. prefix (will_have c) (live_String l) \<and>
         (ch_closed c \<longrightarrow> lr_closed l \<and> will_have c = live_String l)) \<and>
      (lr_closed l \<longrightarrow> lr_subs l = []))"

lemma chans_fold:
  assumes "distinct is" and "\<forall>i\<in>set is. i < length (hb_chans h)"
  shows "length (hb_chans (fold (\<lambda>i. upd_chan i f) is h)) = length (hb_chans h)"
    and "j < length (hb_chans h) \<Longrightarrow>
      hb_chans (fold (\<lambda>i. upd_chan i f) is h) ! j = (if j \<in> set is then f (hb_chans h ! j) else hb_chans h ! j)"
  using assms by (induction "is" arbitrary: h) (auto simp: upd_chan_def nth_list_update)

lemma absorb_plain:
  assumes "CR \<notin> set p"
  shows "(case absorb p (buf, cur) of (b, c) \<Rightarrow> b @ c) = buf @ cur @ p"
proof -
  have "CR \<notin> set s \<Longrightarrow> crlf s = s" for s by (induction s rule: crlf.induct) auto
  moreover have "CR \<notin> set s \<Longrightarrow> after_cr cur s = cur @ s" for cur s by (induction s arbitrary: cur) auto
  ultimately show ?thesis using assms by (simp add: absorb_def absorb_bytes)
qed

lemma will_offer: "length (ch_queue c) < 64 \<Longrightarrow> will_have (offer d c) = will_have c @ d \<and> ch_closed (offer d c) = ch_closed c"
  by (simp add: will_have_def offer_def)

lemma live_inv_write:
  assumes inv: "live_inv h" and p: "CR \<notin> set p" and o: "\<not> lr_closed (hb_run h)"
    and room: "\<forall>i\<in>set (lr_subs (hb_run h)). length (ch_queue (hb_chans h ! i)) < 64"
  shows "live_inv (live_Write p h)"
proof -
  let ?l = "hb_run h" and ?full = "live_String (hb_run h) @ p"
  obtain b c where bc: "absorb p (lr_buf ?l, lr_cur ?l) = (b, c)" by (cases "absorb p (lr_buf ?l, lr_cur ?l)") auto
  have full: "b @ c = ?full" using absorb_plain [OF p, of "lr_buf ?l" "lr_cur ?l"] bc by (simp add: live_String_def)
  have sent: "lr_sent ?l = length (live_String ?l)" using inv by (simp add: live_inv_def Let_def)
  have delta: "drop (lr_sent ?l) (b @ c) = p" unfolding full sent by simp
  show ?thesis
  proof (cases "p = []")
    case True
    then have "live_Write p h = h" using bc sent by (simp add: absorb_def live_Write_def Let_def live_String_def)
    then show ?thesis using inv by simp
  next
    case False
    let ?h1 = "h\<lparr>hb_run := ?l\<lparr>lr_buf := b, lr_cur := c, lr_sent := length (b @ c)\<rparr>\<rparr>"
    let ?h2 = "fold (\<lambda>i. upd_chan i (offer p)) (lr_subs ?l) ?h1"
    have lens: "length b + length c = length (live_String ?l) + length p" using full by (metis length_append)
    have w: "live_Write p h = ?h2" using False bc delta full sent lens by (simp add: live_Write_def Let_def)
    have subs: "distinct (lr_subs ?l)" "\<forall>i\<in>set (lr_subs ?l). i < length (hb_chans ?h1)"
      using inv by (simp_all add: live_inv_def Let_def)
    have len: "length (hb_chans ?h2) = length (hb_chans h)" using chans_fold(1) [OF subs] by simp
    have at: "hb_chans ?h2 ! j = (if j \<in> set (lr_subs ?l) then offer p (hb_chans h ! j) else hb_chans h ! j)"
      if "j < length (hb_chans h)" for j using chans_fold(2) [OF subs, of j "offer p"] that by simp
    have log: "live_String (hb_run ?h2) = ?full" using full by (simp add: live_String_def)
    have sub_ok: "will_have (hb_chans ?h2 ! i) = ?full \<and> \<not> ch_closed (hb_chans ?h2 ! i) \<and> i < length (hb_chans h)"
      if "i \<in> set (lr_subs ?l)" for i
      using that inv room will_offer [of "hb_chans h ! i" p] at [of i] by (auto simp: live_inv_def Let_def)
    have all_ok: "prefix (will_have (hb_chans ?h2 ! i)) ?full \<and> \<not> ch_closed (hb_chans ?h2 ! i)" if "i < length (hb_chans h)" for i
    proof (cases "i \<in> set (lr_subs ?l)")
      case True
      then show ?thesis using sub_ok by simp
    next
      case False
      have "hb_chans h ! i \<in> set (hb_chans h)" using that by simp
      then have "prefix (will_have (hb_chans h ! i)) (live_String ?l)" "\<not> ch_closed (hb_chans h ! i)"
        using inv o by (auto simp: live_inv_def Let_def)
      then show ?thesis using False at [OF that] by (simp add: prefix_prefix)
    qed
    have r: "lr_subs (hb_run ?h2) = lr_subs ?l" "lr_closed (hb_run ?h2) = lr_closed ?l" "lr_sent (hb_run ?h2) = length ?full"
      using full by (simp_all)
    show ?thesis unfolding w live_inv_def Let_def log r
      using subs(1) sub_ok all_ok o len by (auto simp: in_set_conv_nth)
  qed
qed

lemma live_inv_finish: "live_inv h \<Longrightarrow> live_inv (live_finish h)"
proof (cases "lr_closed (hb_run h)")
  case False
  assume inv: "live_inv h"
  let ?l = "hb_run h" and ?h2 = "fold (\<lambda>i. upd_chan i (\<lambda>c. c\<lparr>ch_closed := True\<rparr>)) (lr_subs (hb_run h)) h"
  have subs: "distinct (lr_subs ?l)" "\<forall>i\<in>set (lr_subs ?l). i < length (hb_chans h)" using inv by (simp_all add: live_inv_def Let_def)
  have len: "length (hb_chans ?h2) = length (hb_chans h)" using chans_fold(1) [OF subs] by simp
  have all_ok: "prefix (will_have (hb_chans ?h2 ! i)) (live_String ?l) \<and> (ch_closed (hb_chans ?h2 ! i) \<longrightarrow> will_have (hb_chans ?h2 ! i) = live_String ?l)"
    if i: "i < length (hb_chans h)" for i
  proof -
    have "hb_chans h ! i \<in> set (hb_chans h)" using i by simp
    then show ?thesis using inv chans_fold(2) [OF subs i, of "\<lambda>c. c\<lparr>ch_closed := True\<rparr>"]
      by (auto simp: live_inv_def Let_def will_have_def)
  qed
  have f: "live_finish h = ?h2\<lparr>hb_run := ?l\<lparr>lr_closed := True, lr_subs := []\<rparr>\<rparr>" using False by (simp add: live_finish_def)
  have "lr_sent ?l = length (live_String ?l)" using inv by (simp add: live_inv_def Let_def)
  then show ?thesis unfolding f live_inv_def Let_def using all_ok len
    by (auto simp: live_String_def in_set_conv_nth)
qed (simp add: live_finish_def)

lemma live_inv_recv: "live_inv h \<Longrightarrow> i < length (hb_chans h) \<Longrightarrow> live_inv (live_recv i h)"
proof -
  assume inv: "live_inv h" and i: "i < length (hb_chans h)"
  let ?f = "\<lambda>c. case ch_queue c of [] \<Rightarrow> c | d # q \<Rightarrow> c\<lparr>ch_queue := q, ch_text := ch_text c @ d\<rparr>"
  have f: "will_have (?f c) = will_have c" "ch_closed (?f c) = ch_closed c" for c :: chan
    by (auto simp: will_have_def split: list.split)
  have ci: "hb_chans h ! i \<in> set (hb_chans h)" using i by simp
  have "\<forall>c\<in>set ((hb_chans h)[i := ?f (hb_chans h ! i)]). prefix (will_have c) (live_String (hb_run h)) \<and>
         (ch_closed c \<longrightarrow> lr_closed (hb_run h) \<and> will_have c = live_String (hb_run h))"
  proof
    fix c assume "c \<in> set ((hb_chans h)[i := ?f (hb_chans h ! i)])"
    then have "c = ?f (hb_chans h ! i) \<or> c \<in> set (hb_chans h)" using set_update_subset_insert by fastforce
    then show "prefix (will_have c) (live_String (hb_run h)) \<and> (ch_closed c \<longrightarrow> lr_closed (hb_run h) \<and> will_have c = live_String (hb_run h))"
      using inv ci f by (auto simp only: live_inv_def Let_def)
  qed
  then show ?thesis using inv f i
    by (auto simp: live_inv_def Let_def live_recv_def upd_chan_def nth_list_update)
qed

lemma live_trace_inv: "live_trace h \<Longrightarrow> live_inv h"
proof (induction rule: live_trace.induct)
  case (live_subs h)
  then show ?case
    by (auto simp: live_subscribe_def live_inv_def Let_def will_have_def live_String_def nth_append)
next
  case (live_cancels h i)
  then show ?case
    by (auto simp: live_cancel_def live_inv_def Let_def live_String_def notin_set_remove1 dest: set_remove1_subset [THEN subsetD])
qed (auto simp: live_inv_write live_inv_finish live_inv_recv, simp add: live_inv_def new_hub_def live_String_def)


definition demo_hub :: hub where
  "demo_hub = live_recv 0 (live_finish (live_recv 0 (live_Write ''two'' (live_subscribe (live_Write ''one '' new_hub)))))"


text \<open>After a carriage return the log is shorter than what has been sent, and watchers miss text.\<close>

lemma progress_garbles:
  "ch_text (hb_chans (live_recv 0 (live_recv 0 (live_Write ''x'' (live_Write (CR # ''ok'' @ [NL]) (live_Write ''90%'' (live_subscribe new_hub)))))) ! 0) = ''90%x''"
  "live_String (hb_run (live_Write ''x'' (live_Write (CR # ''ok'' @ [NL]) (live_Write ''90%'' (live_subscribe new_hub))))) = ''ok'' @ [NL] @ ''x''"
  by code_simp+

end
