(* ===== verification/OpsOk.thy ===== *)
theory OpsOk
  imports Ops LiveOk Triples
begin

text \<open>
  Jobs, builds, applications and deployments: the tables stay well-formed under all calls and runs,
  only artifacts of successful builds are deployed, and which log a page shows.
\<close>

section \<open>Names\<close>

lemma jobName_plain: "jobName s \<Longrightarrow> list_all plain_c s"
  by (auto simp: jobName_def plain_c_def alpha_digit_def is_lower_c_def is_upper_c_def is_digit_c_def ordc_def list_all_iff)

lemma jobName_no_comma: "jobName s \<Longrightarrow> CHR '','' \<notin> set s"
  by (auto simp: jobName_def alpha_digit_def is_lower_c_def is_upper_c_def is_digit_c_def ordc_def list_all_iff)

lemma jobName_trim: "jobName s \<Longrightarrow> trim_space s = s \<and> s \<noteq> []"
  using jobName_plain by (simp add: jobName_def)

lemma split_comma_join: "list_all jobName cs \<Longrightarrow> cs \<noteq> [] \<Longrightarrow> split_on CHR '','' (str_join '','' cs) = cs"
proof (induction "'',''" cs rule: str_join.induct)
  case (3 x y ys)
  then show ?case using jobName_no_comma [of x] split_on_append [of "CHR '',''" x "str_join '','' (y # ys)"] by simp
qed (simp_all add: jobName_no_comma split_on_segment)

lemma parseCompose_join: "list_all jobName cs \<Longrightarrow> parseCompose (str_join '','' cs) = cs"
proof (cases "cs = []")
  case False
  assume cs: "list_all jobName cs"
  have "map trim_space cs = cs" using cs jobName_trim by (induction cs) auto
  moreover have "filter (\<lambda>p. p \<noteq> []) cs = cs" using cs jobName_trim by (induction cs) auto
  ultimately show ?thesis using split_comma_join [OF cs False] by (simp add: parseCompose_def)
qed (simp add: parseCompose_def)

lemma resolve_ok: "resolveAppCompose name raw = Inr cs \<Longrightarrow> list_all jobName cs"
  by (auto simp: resolveAppCompose_def Let_def find_None_iff list_all_iff split: option.splits)

section \<open>Well-formed tables\<close>

definition jobs_ok :: "ops_env \<Rightarrow> int \<Rightarrow> scmJob list \<Rightarrow> bool" where
  "jobs_ok e n js \<longleftrightarrow> distinct (map (\<lambda>j. oe_coll e (sj_Name j)) js) \<and> (\<forall>j\<in>set js. sj_ID j < n \<and> jobName (sj_Name j))"

definition builds_ok :: "ops_env \<Rightarrow> int \<Rightarrow> buildRow list \<Rightarrow> bool" where
  "builds_ok e n bs \<longleftrightarrow> distinct (map bd_ID bs) \<and>
     (\<forall>b\<in>set bs. bd_ID b < n \<and> bd_Status b \<in> {''running'', ''ok'', ''fail''}) \<and>
     distinct (map (\<lambda>b. oe_coll e (bd_Service b)) (filter (\<lambda>b. bd_Status b = ''running'') bs))"

definition apps_ok :: "ops_env \<Rightarrow> int \<Rightarrow> scmJob list \<Rightarrow> appRow list \<Rightarrow> bool" where
  "apps_ok e n js as \<longleftrightarrow> distinct (map (\<lambda>a. oe_coll e (ap_Name a)) as) \<and>
     (\<forall>a\<in>set as. ap_ID a < n \<and> jobName (ap_Name a) \<and> list_all jobName (parseCompose (ap_Compose a)) \<and>
        (\<exists>j\<in>set js. same e (sj_Name j) (ap_ScmName a)))"

definition deploys_ok :: "ops_env \<Rightarrow> int \<Rightarrow> deployRow list \<Rightarrow> bool" where
  "deploys_ok e n ds \<longleftrightarrow> distinct (map dp_ID ds) \<and>
     (\<forall>d\<in>set ds. dp_ID d < n \<and> dp_Status d \<in> {''running'', ''ok'', ''fail''}) \<and>
     distinct (map (\<lambda>d. oe_coll e (dp_Service d)) (filter (\<lambda>d. dp_Status d = ''running'') ds))"

definition ops_inv :: "ops_env \<Rightarrow> ops_tabs \<Rightarrow> bool" where
  "ops_inv e t \<longleftrightarrow> jobs_ok e (op_nextJob t) (op_jobs t) \<and> builds_ok e (op_nextBuild t) (op_builds t) \<and>
     apps_ok e (op_nextApp t) (op_jobs t) (op_apps t) \<and> deploys_ok e (op_nextDeploy t) (op_deploys t)"

abbreviation keeps :: "ops_env \<Rightarrow> (ops_tabs, 'e, 'a) dbm \<Rightarrow> bool" where
  "keeps e m \<equiv> validS (ops_inv e) m (\<lambda>_. ops_inv e) (ops_inv e)"

text \<open>Facts about the tables that a handler has read.\<close>

definition has_job :: "ops_env \<Rightarrow> string \<Rightarrow> ops_tabs \<Rightarrow> bool" where
  "has_job e name t \<longleftrightarrow> (\<exists>j\<in>set (op_jobs t). same e (sj_Name j) name)"

definition idle_b :: "ops_env \<Rightarrow> string \<Rightarrow> ops_tabs \<Rightarrow> bool" where
  "idle_b e svc t \<longleftrightarrow> (\<forall>b\<in>set (op_builds t). bd_Status b = ''running'' \<longrightarrow> \<not> same e (bd_Service b) svc)"

definition idle_d :: "ops_env \<Rightarrow> string \<Rightarrow> ops_tabs \<Rightarrow> bool" where
  "idle_d e svc t \<longleftrightarrow> (\<forall>d\<in>set (op_deploys t). dp_Status d = ''running'' \<longrightarrow> \<not> same e (dp_Service d) svc)"

definition no_app :: "ops_env \<Rightarrow> string \<Rightarrow> ops_tabs \<Rightarrow> bool" where
  "no_app e name t \<longleftrightarrow> (\<forall>a\<in>set (op_apps t). \<not> same e (ap_ScmName a) name)"

lemmas tab_facts = has_job_def idle_b_def idle_d_def no_app_def

section \<open>Statements\<close>

lemma ins_job_valid:
  "jobName name \<Longrightarrow> validS (ops_inv e) (ins_job e name url script lab) (\<lambda>_. ops_inv e) (ops_inv e)"
  unfolding ins_job_def add_job_def
  by (rule valid_stmt) (fastforce simp: ops_inv_def jobs_ok_def apps_ok_def same_def list_ex_iff split: if_splits)+

lemma apps_ok_jobs: "apps_ok e n js as \<Longrightarrow> map sj_Name js = map sj_Name js' \<Longrightarrow> apps_ok e n js' as"
proof -
  assume a: "apps_ok e n js as" and m: "map sj_Name js = map sj_Name js'"
  have "(\<exists>j\<in>set js. same e (sj_Name j) s) \<longleftrightarrow> (\<exists>j\<in>set js'. same e (sj_Name j) s)" for s
    using arg_cong [OF m, of set] by (auto simp: image_iff) (metis imageI image_iff list.set_map)+
  then show ?thesis using a by (simp add: apps_ok_def)
qed

lemma upd_jobs_inv:
  assumes "ops_inv e t" and "map sj_Name js = map sj_Name (op_jobs t)" and "map sj_ID js = map sj_ID (op_jobs t)"
  shows "ops_inv e (t\<lparr>op_jobs := js\<rparr>)"
proof -
  have d: "map (\<lambda>j. oe_coll e (sj_Name j)) js = map (\<lambda>j. oe_coll e (sj_Name j)) (op_jobs t)"
    using arg_cong [OF assms(2), of "map (oe_coll e)"] by (simp add: comp_def)
  have "\<forall>j\<in>set (op_jobs t). sj_ID j < op_nextJob t \<and> jobName (sj_Name j)" using assms(1) by (simp add: ops_inv_def jobs_ok_def)
  then have "\<forall>i\<in>set (map sj_ID (op_jobs t)). i < op_nextJob t" "\<forall>s\<in>set (map sj_Name (op_jobs t)). jobName s" by auto
  then have "\<forall>j\<in>set js. sj_ID j < op_nextJob t \<and> jobName (sj_Name j)" unfolding assms(2,3) [symmetric] by auto
  then have "jobs_ok e (op_nextJob t) js" using assms(1) d by (simp add: ops_inv_def jobs_ok_def)
  then show ?thesis using assms apps_ok_jobs [of e _ "op_jobs t" _ js] by (simp add: ops_inv_def)
qed

lemma upd_job_valid: "keeps e (upd_job e name url script lab)"
  unfolding upd_job_def
proof (rule valid_stmt)
  fix t x t' assume "ops_inv e t" "(if list_ex (\<lambda>j. same e (sj_Name j) name) (op_jobs t) \<and> (\<not> col 512 url \<or> \<not> col 255 script \<or> \<not> col 64 lab)
     then Inl DataTooLong
     else Inr ((), t\<lparr>op_jobs := map (\<lambda>j. if same e (sj_Name j) name
            then j\<lparr>sj_GitURL := url, sj_ScriptPath := script, sj_Label := lab\<rparr> else j) (op_jobs t)\<rparr>)) = Inr (x, t')"
  then show "ops_inv e t'" by (auto intro!: upd_jobs_inv split: if_splits)
qed

lemma ins_build_valid:
  "validS (\<lambda>t. ops_inv e t \<and> idle_b e svc t) (ins_build svc ver bin br) (\<lambda>_. ops_inv e) (ops_inv e)"
  unfolding ins_build_def
  by (rule valid_stmt) (force simp: ops_inv_def builds_ok_def idle_b_def same_def split: if_splits)+

lemma ins_deploy_valid:
  "validS (\<lambda>t. ops_inv e t \<and> idle_d e svc t) (ins_deploy svc ver) (\<lambda>_. ops_inv e) (ops_inv e)"
  unfolding ins_deploy_def
  by (rule valid_stmt) (force simp: ops_inv_def deploys_ok_def idle_d_def same_def split: if_splits)+

lemma ins_app_valid:
  "jobName name \<Longrightarrow> list_all jobName cs \<Longrightarrow>
   validS (\<lambda>t. ops_inv e t \<and> has_job e scm t) (ins_app e name scm (str_join '','' cs)) (\<lambda>_. ops_inv e) (ops_inv e)"
  unfolding ins_app_def add_app_def
  by (rule valid_stmt) (fastforce simp: ops_inv_def apps_ok_def has_job_def same_def list_ex_iff parseCompose_join split: if_splits)+

text \<open>Rows of builds and deployments may be removed, and their status may leave \<open>running\<close>.\<close>

lemma filter_both: "filter P (filter Q xs) = filter Q (filter P xs)"
  by (simp add: conj_commute)

lemma builds_ok_filter: "builds_ok e n bs \<Longrightarrow> builds_ok e n (filter P bs)"
  unfolding builds_ok_def filter_both [of "\<lambda>b. bd_Status b = ''running''" P] by (simp del: filter_filter add: distinct_map_filter)

lemma deploys_ok_filter: "deploys_ok e n ds \<Longrightarrow> deploys_ok e n (filter P ds)"
  unfolding deploys_ok_def filter_both [of "\<lambda>d. dp_Status d = ''running''" P] by (simp del: filter_filter add: distinct_map_filter)

lemma filter_map_if:
  assumes "\<And>x. P x \<Longrightarrow> \<not> Q (f x)"
  shows "filter Q (map (\<lambda>x. if P x then f x else x) xs) = filter (\<lambda>x. \<not> P x) (filter Q xs)"
  using assms by (induction xs) auto

lemma builds_ok_end:
  assumes "builds_ok e n bs" and "\<And>b. bd_ID (f b) = bd_ID b \<and> bd_Status (f b) \<in> {''ok'', ''fail''}"
  shows "builds_ok e n (map (\<lambda>b. if bd_ID b = i then f b else b) bs)"
proof -
  let ?bs = "map (\<lambda>b. if bd_ID b = i then f b else b) bs"
  have st: "bd_Status (f b) \<noteq> ''running''" for b using assms(2) [of b] by auto
  have r: "filter (\<lambda>b. bd_Status b = ''running'') ?bs = filter (\<lambda>b. bd_ID b \<noteq> i) (filter (\<lambda>b. bd_Status b = ''running'') bs)"
    by (rule filter_map_if) (rule st)
  have "map bd_ID ?bs = map bd_ID bs" using assms(2) by auto
  moreover have "\<forall>b\<in>set ?bs. bd_ID b < n \<and> bd_Status b \<in> {''running'', ''ok'', ''fail''}"
    using assms by (force simp: builds_ok_def)
  ultimately show ?thesis using assms(1) unfolding builds_ok_def r by (simp only: distinct_map_filter)
qed

lemma deploys_ok_end:
  assumes "deploys_ok e n ds" and "\<And>d. dp_ID (f d) = dp_ID d \<and> dp_Status (f d) \<in> {''ok'', ''fail''}"
  shows "deploys_ok e n (map (\<lambda>d. if dp_ID d = i then f d else d) ds)"
proof -
  let ?ds = "map (\<lambda>d. if dp_ID d = i then f d else d) ds"
  have st: "dp_Status (f d) \<noteq> ''running''" for d using assms(2) [of d] by auto
  have r: "filter (\<lambda>d. dp_Status d = ''running'') ?ds = filter (\<lambda>d. dp_ID d \<noteq> i) (filter (\<lambda>d. dp_Status d = ''running'') ds)"
    by (rule filter_map_if) (rule st)
  have "map dp_ID ?ds = map dp_ID ds" using assms(2) by auto
  moreover have "\<forall>d\<in>set ?ds. dp_ID d < n \<and> dp_Status d \<in> {''running'', ''ok'', ''fail''}"
    using assms by (force simp: deploys_ok_def)
  ultimately show ?thesis using assms(1) unfolding deploys_ok_def r by (simp only: distinct_map_filter)
qed

lemma status_of_in: "status_of err \<in> {''ok'', ''fail''}"
  by (simp add: status_of_def split: option.split)

lemma upd_build_valid: "keeps e (upd_build i bin (status_of err) h commit)"
  unfolding upd_build_def
proof (rule valid_stmt)
  fix t x t' assume "ops_inv e t" and f: "(let l = live_String (hb_run (op_hubs t ! h)) in
     if list_ex (\<lambda>b. bd_ID b = i) (op_builds t) \<and> (\<not> col 255 bin \<or> \<not> mediumtext l \<or> \<not> col 64 commit) then Inl DataTooLong
     else Inr ((), t\<lparr>op_builds := map (\<lambda>b. if bd_ID b = i
            then b\<lparr>bd_BinPath := bin, bd_Status := status_of err, bd_Log := l, bd_Commit := commit\<rparr> else b) (op_builds t)\<rparr>)) = Inr (x, t')"
  have "builds_ok e (op_nextBuild t) (map (\<lambda>b. if bd_ID b = i then b\<lparr>bd_BinPath := bin, bd_Status := status_of err, bd_Log := l, bd_Commit := commit\<rparr> else b) (op_builds t))" for l
    using \<open>ops_inv e t\<close> status_of_in [of err] by (intro builds_ok_end) (auto simp: ops_inv_def)
  then show "ops_inv e t'" using \<open>ops_inv e t\<close> f by (auto simp: ops_inv_def Let_def split: if_splits)
qed

lemma upd_deploy_valid: "st \<in> {''ok'', ''fail''} \<Longrightarrow> keeps e (upd_deploy i st h)"
  unfolding upd_deploy_def
proof (rule valid_stmt)
  fix t x t' assume st: "st \<in> {''ok'', ''fail''}" and "ops_inv e t" and f: "(let l = live_String (hb_run (op_hubs t ! h)) in
     if list_ex (\<lambda>d. dp_ID d = i) (op_deploys t) \<and> \<not> mediumtext l then Inl DataTooLong
     else Inr ((), t\<lparr>op_deploys := map (\<lambda>d. if dp_ID d = i then d\<lparr>dp_Status := st, dp_Log := l\<rparr> else d) (op_deploys t)\<rparr>)) = Inr (x, t')"
  have "deploys_ok e (op_nextDeploy t) (map (\<lambda>d. if dp_ID d = i then d\<lparr>dp_Status := st, dp_Log := l\<rparr> else d) (op_deploys t))" for l
    using \<open>ops_inv e t\<close> st by (intro deploys_ok_end) (auto simp: ops_inv_def)
  then show "ops_inv e t'" using \<open>ops_inv e t\<close> f by (auto simp: ops_inv_def Let_def split: if_splits)
qed

lemma fail_build_valid: "validS (ops_inv e) (fail_build i) (\<lambda>_. ops_inv e) E"
  unfolding fail_build_def
  by (rule valid_ignore, rule valid_exec) (auto simp: ops_inv_def intro!: builds_ok_end)

lemma upd_app_valid:
  assumes "list_all jobName cs"
  shows "validS (\<lambda>t. ops_inv e t \<and> has_job e scm t) (upd_app e name scm (str_join '','' cs)) (\<lambda>_. ops_inv e) (ops_inv e)"
  unfolding upd_app_def
proof (rule valid_stmt)
  fix t x t' assume inv: "ops_inv e t \<and> has_job e scm t" and f: "(if list_ex (\<lambda>a. same e (ap_Name a) name) (op_apps t) \<and> (\<not> col 64 scm \<or> \<not> col 255 (str_join '','' cs)) then Inl DataTooLong
     else Inr ((), t\<lparr>op_apps := map (\<lambda>a. if same e (ap_Name a) name then a\<lparr>ap_ScmName := scm, ap_Compose := str_join '','' cs\<rparr> else a) (op_apps t)\<rparr>)) = Inr (x, t')"
  let ?as = "map (\<lambda>a. if same e (ap_Name a) name then a\<lparr>ap_ScmName := scm, ap_Compose := str_join '','' cs\<rparr> else a) (op_apps t)"
  have "map (\<lambda>a. oe_coll e (ap_Name a)) ?as = map (\<lambda>a. oe_coll e (ap_Name a)) (op_apps t)" by simp
  then have "apps_ok e (op_nextApp t) (op_jobs t) ?as"
    using inv parseCompose_join [OF assms] assms by (auto simp: ops_inv_def apps_ok_def has_job_def simp del: map_map)
  then show "ops_inv e t'" using inv f by (auto simp: ops_inv_def split: if_splits)
qed auto

section \<open>Handlers\<close>

lemma valid_reads: "reads m \<Longrightarrow> validS P m (\<lambda>_. P) P"
  unfolding reads_def by (rule validSI) (metis snd_conv)+

lemma valid_onOps: "validS P m Q E \<Longrightarrow> validS P (onOps conv m) Q E"
  unfolding onOps_def by (rule valid_orElse)

lemma valid_mod: "(\<And>t. P t \<Longrightarrow> Q () (f t)) \<Longrightarrow> validS P (modS f) Q E"
  by (simp add: validS_def modS_def)

lemma valid_guard: "validS P (guardS b x) (\<lambda>_ t. P t \<and> b) P"
  unfolding guardS_def by (auto intro: valid_basic)

lemma valid_check: "validS P (checkS r) (\<lambda>_. P) P"
  unfolding checkS_def by (auto intro: valid_basic(3))

lemma valid_ret: "validS P (retS x) (\<lambda>_. P) E"
  by (rule valid_basic(1))

lemma valid_fail: "validS P (failS x) Q P"
  by (rule valid_basic(2))

lemma valid_lsRemote: "validS P (lsRemote e url) (\<lambda>_. P) P"
  unfolding lsRemote_def by (auto intro: valid_ret valid_fail split: option.split)

lemma valid_getJob: "validS P (orElse (getJob e name) f) (\<lambda>j t. P t \<and> j \<in> set (op_jobs t) \<and> same e (sj_Name j) name) P"
  unfolding getJob_def by (intro valid_orElse valid_queryRow) auto

lemma valid_getApp: "validS P (orElse (getApp e name) f) (\<lambda>_. P) P"
  unfolding getApp_def by (intro valid_orElse valid_queryRow) auto

lemma valid_resolve:
  "validS P (liftS (case resolveAppCompose name raw of Inl x \<Rightarrow> Inl (invalid x) | Inr c \<Rightarrow> Inr c)) (\<lambda>cs t. P t \<and> list_all jobName cs) P"
  by (rule valid_basic(3)) (auto dest: resolve_ok split: sum.splits)

lemma CreateJob_valid: "keeps e (CreateJob e n u s l)"
proof -
  have i: "validS (\<lambda>t. ops_inv e t \<and> jobName n') (onOps invalid (ins_job e n' u' s' l')) (\<lambda>_. ops_inv e) (ops_inv e)" for n' u' s' l'
    by (rule valid_pre, rule valid_onOps, rule ins_job_valid)
  let ?P = "\<lambda>t. ops_inv e t \<and> jobName (trim_space n)"
  have g: "validS (ops_inv e) (guardS (jobName (trim_space n)) BadScmName) (\<lambda>_. ?P) (ops_inv e)" by (rule valid_guard)
  have g2: "validS ?P (guardS b x) (\<lambda>_. ?P) (ops_inv e)" for b x by (rule valid_weaken [OF valid_guard [of ?P]]) auto
  have c: "validS ?P (checkS r) (\<lambda>_. ?P) (ops_inv e)" for r by (rule valid_weaken [OF valid_check [of ?P]]) auto
  have ls: "validS ?P (lsRemote e url) (\<lambda>_. ?P) (ops_inv e)" for url by (rule valid_weaken [OF valid_lsRemote [of ?P]]) auto
  show ?thesis unfolding CreateJob_def Let_def
    by (rule valid_bind [OF g], rule valid_bind [OF g2], rule valid_bind [OF c], rule valid_bind [OF c],
        rule valid_bind [OF ls], rule valid_bind [OF i], rule valid_ret)
qed

lemma UpdateJob_valid: "keeps e (UpdateJob e n u s l)"
proof -
  have j: "validS (ops_inv e) (orElse (getJob e n) notFound) (\<lambda>_. ops_inv e) (ops_inv e)"
    by (rule valid_weaken [OF valid_getJob]) auto
  have g: "validS (ops_inv e) (guardS b x) (\<lambda>_. ops_inv e) (ops_inv e)" for b x by (rule valid_weaken [OF valid_guard]) auto
  have ls: "validS (ops_inv e) (if b then lsRemote e url else retS ()) (\<lambda>_. ops_inv e) (ops_inv e)" for b url
    by (simp add: valid_lsRemote valid_ret)
  show ?thesis unfolding UpdateJob_def Let_def
    by (rule valid_bind [OF j], rule valid_bind [OF g], rule valid_bind [OF valid_check], rule valid_bind [OF valid_check],
        rule valid_bind [OF ls], rule valid_bind [OF valid_onOps [OF upd_job_valid]], rule valid_ret)
qed

lemma del_job_valid:
  "validS (\<lambda>t. ops_inv e t \<and> no_app e name t)
     (execS (\<lambda>t. t\<lparr>op_jobs := filter (\<lambda>k. \<not> same e (sj_Name k) name) (op_jobs t)\<rparr>)) (\<lambda>_. ops_inv e) (ops_inv e)"
proof (rule valid_exec)
  fix t assume t: "ops_inv e t \<and> no_app e name t"
  have "jobs_ok e (op_nextJob t) (filter (\<lambda>k. \<not> same e (sj_Name k) name) (op_jobs t))"
    using t by (simp add: ops_inv_def jobs_ok_def distinct_map_filter)
  moreover have "apps_ok e (op_nextApp t) (filter (\<lambda>k. \<not> same e (sj_Name k) name) (op_jobs t)) (op_apps t)"
    using t by (fastforce simp: ops_inv_def apps_ok_def no_app_def same_def)
  ultimately show "ops_inv e (t\<lparr>op_jobs := filter (\<lambda>k. \<not> same e (sj_Name k) name) (op_jobs t)\<rparr>)"
    using t by (simp add: ops_inv_def)
qed simp

lemma DeleteJob_valid: "keeps e (DeleteJob e n)"
proof -
  have j: "validS (ops_inv e) (orElse (getJob e n) notFound) (\<lambda>_. ops_inv e) (ops_inv e)"
    by (rule valid_weaken [OF valid_getJob]) auto
  let ?Q = "\<lambda>j t. ops_inv e t \<and> no_app e (sj_Name j) t"
  have q: "validS (ops_inv e) (onOps internal (query (\<lambda>t. map ap_Name (filter (\<lambda>a. same e (ap_ScmName a) (sj_Name j)) (op_apps t)))))
      (\<lambda>used t. ops_inv e t \<and> (used = [] \<longrightarrow> no_app e (sj_Name j) t)) (ops_inv e)" for j
    by (intro valid_onOps valid_query) (auto simp: no_app_def filter_empty_conv)
  have b: "validS (?Q j) (onOps internal (execS (\<lambda>t. t\<lparr>op_builds := filter P (op_builds t)\<rparr>))) (\<lambda>_. ?Q j) (ops_inv e)" for j P
    by (intro valid_onOps valid_exec) (auto simp: ops_inv_def no_app_def builds_ok_filter)
  have d: "validS (?Q j) (bindS (onOps internal (execS (\<lambda>t. t\<lparr>op_builds := filter (\<lambda>b. \<not> same e (bd_Service b) (sj_Name j)) (op_builds t)\<rparr>))) (\<lambda>_.
         bindS (onOps internal (execS (\<lambda>t. t\<lparr>op_jobs := filter (\<lambda>k. \<not> same e (sj_Name k) (sj_Name j)) (op_jobs t)\<rparr>))) (\<lambda>_.
         retS (sj_Name j)))) (\<lambda>_. ops_inv e) (ops_inv e)" for j
    by (rule valid_bind [OF b], rule valid_bind [OF valid_onOps [OF del_job_valid]], rule valid_ret)
  have c: "validS (\<lambda>t. ops_inv e t \<and> (used = [] \<longrightarrow> no_app e (sj_Name j) t)) (case used of
       u # _ \<Rightarrow> failS (invalid (StillUsed u))
     | [] \<Rightarrow>
         bindS (onOps internal (execS (\<lambda>t. t\<lparr>op_builds := filter (\<lambda>b. \<not> same e (bd_Service b) (sj_Name j)) (op_builds t)\<rparr>))) (\<lambda>_.
         bindS (onOps internal (execS (\<lambda>t. t\<lparr>op_jobs := filter (\<lambda>k. \<not> same e (sj_Name k) (sj_Name j)) (op_jobs t)\<rparr>))) (\<lambda>_.
         retS (sj_Name j)))) (\<lambda>_. ops_inv e) (ops_inv e)" for used j
    using d [of j] by (cases used) (auto intro: valid_basic(2))
  show ?thesis unfolding DeleteJob_def by (rule valid_bind [OF j], rule valid_bind [OF q], rule c)
qed

lemma valid_idleBuild: "validS P (idleBuild e svc) (\<lambda>_ t. P t \<and> idle_b e svc t) P"
proof -
  have q: "validS P (onOps internal (query (count_running e svc))) (\<lambda>n t. P t \<and> n = count_running e svc t) P"
    by (intro valid_onOps valid_query) auto
  have r: "validS (\<lambda>t. P t \<and> n = count_running e svc t) (if 0 < n then failS (invalid BuildRunning) else retS ())
      (\<lambda>_ t. P t \<and> idle_b e svc t) P" for n
    by (auto intro!: valid_basic simp: count_running_def idle_b_def filter_empty_conv same_def)
  show ?thesis unfolding idleBuild_def by (rule valid_bind [OF q r])
qed

lemma valid_idleDeploy: "validS P (idleDeploy e svc) (\<lambda>_ t. P t \<and> idle_d e svc t) P"
proof -
  let ?n = "\<lambda>t. length (filter (\<lambda>d. same e (dp_Service d) svc \<and> same e (dp_Status d) ''running'') (op_deploys t))"
  have q: "validS P (onOps internal (query ?n)) (\<lambda>n t. P t \<and> n = ?n t) P"
    by (intro valid_onOps valid_query) auto
  have r: "validS (\<lambda>t. P t \<and> n = ?n t) (if 0 < n then failS (invalid DeployRunning) else retS ()) (\<lambda>_ t. P t \<and> idle_d e svc t) P" for n
    by (auto intro!: valid_basic simp: idle_d_def filter_empty_conv same_def)
  show ?thesis unfolding idleDeploy_def by (rule valid_bind [OF q r])
qed

lemma new_live_valid: "validS (ops_inv e) (new_live i) (\<lambda>_. ops_inv e) E"
  by (auto simp: validS_def new_live_def bindS_def modS_def ops_inv_def)

lemma CreateBuild_valid: "keeps e (CreateBuild e ver n br)"
proof -
  have j: "validS (ops_inv e) (orElse (getJob e n) invalid) (\<lambda>_. ops_inv e) (ops_inv e)"
    by (rule valid_weaken [OF valid_getJob]) auto
  show ?thesis unfolding CreateBuild_def Let_def
    by (rule valid_bind [OF j], rule valid_bind [OF valid_check], rule valid_bind [OF valid_idleBuild],
        rule valid_bind [OF valid_onOps [OF ins_build_valid]], rule valid_bind [OF new_live_valid], rule valid_ret)
qed

lemma mod_hub_valid: "validS (ops_inv e) (modS (with_hub h f)) (\<lambda>_. ops_inv e) E"
  by (rule valid_mod) (simp add: ops_inv_def with_hub_def)

lemma drop_live_valid: "validS (ops_inv e) (modS (drop_live i)) (\<lambda>_. ops_inv e) E"
  by (rule valid_mod) (simp add: ops_inv_def drop_live_def)

lemma say_err_valid: "validS (ops_inv e) (say_err h err) (\<lambda>_. ops_inv e) E"
  unfolding say_err_def by (auto intro: mod_hub_valid valid_ret split: option.split)

lemma end_build_valid: "keeps e (end_build i h bin commit err)"
  unfolding end_build_def
  by (rule valid_bind [OF say_err_valid], rule valid_bind [OF valid_ignore [OF upd_build_valid]],
      rule valid_bind [OF mod_hub_valid], rule drop_live_valid)

lemma CreateApp_valid: "keeps e (CreateApp e n s c)"
proof -
  let ?n = "trim_space n" and ?s = "trim_space s"
  let ?P = "\<lambda>t. ops_inv e t \<and> jobName ?n" and ?R = "\<lambda>t. (ops_inv e t \<and> has_job e ?s t) \<and> jobName ?n"
  have g: "validS (ops_inv e) (guardS (jobName ?n) BadDeployName) (\<lambda>_. ?P) (ops_inv e)" by (rule valid_guard)
  have j: "validS ?P (orElse (getJob e ?s) f) (\<lambda>_. ?R) (ops_inv e)" for f
    by (rule valid_weaken [OF valid_getJob [of ?P]]) (auto simp: has_job_def)
  have r: "validS ?R (liftS (case resolveAppCompose ?n c of Inl x \<Rightarrow> Inl (invalid x) | Inr c \<Rightarrow> Inr c))
      (\<lambda>cs t. (ops_inv e t \<and> has_job e ?s t) \<and> (jobName ?n \<and> list_all jobName cs)) (ops_inv e)"
    by (rule valid_weaken [OF valid_resolve [of ?R]]) auto
  have i: "validS (\<lambda>t. (ops_inv e t \<and> has_job e ?s t) \<and> (jobName ?n \<and> list_all jobName cs))
      (onOps invalid (ins_app e ?n ?s (str_join '','' cs))) (\<lambda>_. ops_inv e) (ops_inv e)" for cs
    by (rule valid_pre, rule valid_onOps, rule ins_app_valid) auto
  show ?thesis unfolding CreateApp_def Let_def
    by (rule valid_bind [OF g], rule valid_bind [OF j], rule valid_bind [OF r], rule valid_bind [OF i], rule valid_ret)
qed

lemma UpdateApp_valid: "keeps e (UpdateApp e n s c)"
proof -
  let ?s = "trim_space s"
  have j: "validS (ops_inv e) (orElse (getJob e ?s) f) (\<lambda>_ t. ops_inv e t \<and> has_job e ?s t) (ops_inv e)" for f
    by (rule valid_weaken [OF valid_getJob]) (auto simp: has_job_def)
  have r: "validS (\<lambda>t. ops_inv e t \<and> has_job e ?s t) (liftS (case resolveAppCompose m c of Inl x \<Rightarrow> Inl (invalid x) | Inr c \<Rightarrow> Inr c))
      (\<lambda>cs t. (ops_inv e t \<and> has_job e ?s t) \<and> list_all jobName cs) (ops_inv e)" for m
    by (rule valid_weaken [OF valid_resolve [of "\<lambda>t. ops_inv e t \<and> has_job e ?s t"]]) auto
  have u: "validS (\<lambda>t. (ops_inv e t \<and> has_job e ?s t) \<and> list_all jobName cs)
      (onOps internal (upd_app e m ?s (str_join '','' cs))) (\<lambda>_. ops_inv e) (ops_inv e)" for cs m
    by (rule valid_pre, rule valid_onOps, rule upd_app_valid)
  show ?thesis unfolding UpdateApp_def Let_def
    by (rule valid_bind [OF valid_getApp], rule valid_bind [OF j], rule valid_bind [OF r], rule valid_bind [OF u],
        rule valid_bind [OF valid_getApp], rule valid_ret)
qed

lemma DeleteApp_valid: "keeps e (DeleteApp e n)"
proof -
  have d: "keeps e (onOps internal (execS (\<lambda>t. t\<lparr>op_deploys := filter P (op_deploys t)\<rparr>)))" for P
    by (intro valid_onOps valid_exec) (auto simp: ops_inv_def deploys_ok_filter)
  have a: "keeps e (onOps internal (execS (\<lambda>t. t\<lparr>op_apps := filter P (op_apps t)\<rparr>)))" for P
    by (intro valid_onOps valid_exec) (auto simp: ops_inv_def apps_ok_def distinct_map_filter)
  show ?thesis unfolding DeleteApp_def
    by (rule valid_bind [OF valid_getApp], rule valid_bind [OF d], rule valid_bind [OF a], rule valid_ret)
qed

lemma ins_build_idle_valid:
  "validS (\<lambda>t. (ops_inv e t \<and> idle_d e d t) \<and> idle_b e svc t) (ins_build svc ver bin br) (\<lambda>_ t. ops_inv e t \<and> idle_d e d t) (ops_inv e)"
  unfolding ins_build_def
  by (rule valid_stmt) (force simp: ops_inv_def builds_ok_def idle_b_def idle_d_def same_def split: if_splits)+

lemma createBuildDeploy_valid:
  "validS (\<lambda>t. ops_inv e t \<and> idle_d e (da_Name app) t) (createBuildDeploy e ver app br) (\<lambda>_. ops_inv e) (ops_inv e)"
proof -
  let ?P = "\<lambda>t. ops_inv e t \<and> idle_d e (da_Name app) t"
  have c: "validS ?P (checkS r) (\<lambda>_. ?P) (ops_inv e)" for r by (rule valid_weaken [OF valid_check [of ?P]]) auto
  have j: "validS ?P (orElse (getJob e n) f) (\<lambda>_. ?P) (ops_inv e)" for n f
    by (rule valid_weaken [OF valid_getJob [of ?P]]) auto
  have i: "validS ?P (idleBuild e n) (\<lambda>_ t. ?P t \<and> idle_b e n t) (ops_inv e)" for n
    by (rule valid_weaken [OF valid_idleBuild [of ?P]]) auto
  have d: "validS ?P (catchS (ins_deploy (da_Name app) ver) (\<lambda>x. bindS (fail_build b) (\<lambda>_. failS (internal (OpsDb x))))) (\<lambda>_. ops_inv e) (ops_inv e)" for b
    by (rule valid_catch [OF ins_deploy_valid], rule valid_bind [OF fail_build_valid], rule valid_fail)
  show ?thesis unfolding createBuildDeploy_def Let_def
    by (rule valid_bind [OF c], rule valid_bind [OF j], rule valid_bind [OF i], rule valid_bind [OF valid_onOps [OF ins_build_idle_valid]],
        rule valid_bind [OF d], rule valid_bind [OF new_live_valid], rule valid_ret)
qed

lemma CreateDeploy_valid: "keeps e (CreateDeploy e now svc ver br)"
proof -
  let ?P = "\<lambda>app t. ops_inv e t \<and> idle_d e (da_Name app) t"
  have i: "validS (ops_inv e) (idleDeploy e (da_Name app)) (\<lambda>_. ?P app) (ops_inv e)" for app
    by (rule valid_idleDeploy)
  have g: "validS (?P app) (guardS b x) (\<lambda>_. ?P app) (ops_inv e)" for app b x by (rule valid_weaken [OF valid_guard [of "?P app"]]) auto
  have q: "validS (?P app) (orElse (queryRow f) h) (\<lambda>_. ?P app) (ops_inv e)" for app h and f :: "ops_tabs \<Rightarrow> string list"
    by (intro valid_orElse valid_queryRow) auto
  have j: "validS (?P app) (orElse (getJob e n) f) (\<lambda>_. ?P app) (ops_inv e)" for app n f
    by (rule valid_weaken [OF valid_getJob [of "?P app"]]) auto
  have v: "validS (?P app) (bindS (guardS b1 x1) (\<lambda>_. bindS (orElse (queryRow q) h) (\<lambda>st.
       bindS (guardS (st = ''ok'') (ArtifactStatus st)) (\<lambda>_. bindS (guardS b2 x2) (\<lambda>_.
       bindS (orElse (getJob e n) f) (\<lambda>job. bindS (onOps internal (ins_deploy (da_Name app) v)) (\<lambda>i.
       bindS (new_live i) (\<lambda>h. retS (r job i h))))))))) (\<lambda>_. ops_inv e) (ops_inv e)" for app b1 x1 q h b2 x2 n f v r
    by (rule valid_bind [OF g], rule valid_bind [OF q], rule valid_bind [OF g], rule valid_bind [OF g], rule valid_bind [OF j],
        rule valid_bind [OF valid_onOps [OF ins_deploy_valid]], rule valid_bind [OF new_live_valid], rule valid_ret)
  show ?thesis unfolding CreateDeploy_def Let_def
    by (rule valid_bind [OF valid_getApp], rule valid_bind [OF i])
      (auto intro: createBuildDeploy_valid v)
qed

lemma finish_deploy_valid: "keeps e (finish_deploy i h err)"
  unfolding finish_deploy_def
  by (rule valid_bind [OF say_err_valid], rule valid_bind [OF valid_ignore [OF upd_deploy_valid [OF status_of_in]]], rule mod_hub_valid)

lemma end_deploy_valid: "keeps e (end_deploy i h err)"
  unfolding end_deploy_def by (rule valid_bind [OF finish_deploy_valid], rule drop_live_valid)

lemma mid_valid: "keeps e (mid_build_deploy b i h bin commit err)"
proof -
  have f: "keeps e (bindS (ignoreS (upd_deploy i ''fail'' h)) (\<lambda>_. bindS (modS (with_hub h live_finish)) (\<lambda>_. bindS (modS (drop_live i)) (\<lambda>_. retS False))))"
    by (rule valid_bind [OF valid_ignore [OF upd_deploy_valid]], simp, rule valid_bind [OF mod_hub_valid], rule valid_bind [OF drop_live_valid], rule valid_ret)
  show ?thesis unfolding mid_build_deploy_def
    by (rule valid_bind [OF say_err_valid], rule valid_bind [OF valid_ignore [OF upd_build_valid]]) (auto intro: f valid_ret)
qed

section \<open>Seeds\<close>

lemma seed_job_valid:
  "jobName name \<Longrightarrow> validS (ops_inv e) (insertIgnore (add_job e name url script lab)) (\<lambda>_ t. ops_inv e t \<and> has_job e name t) (ops_inv e)"
  unfolding insertIgnore_def add_job_def
  by (rule valid_stmt)
    (fastforce simp: ops_inv_def jobs_ok_def apps_ok_def has_job_def same_def list_ex_iff split: if_splits sum.splits)+

lemma seed_app_valid:
  "jobName name \<Longrightarrow> list_all jobName (parseCompose c) \<Longrightarrow>
   validS (\<lambda>t. ops_inv e t \<and> has_job e scm t) (insertIgnore (add_app e name scm c)) (\<lambda>_. ops_inv e) (ops_inv e)"
  unfolding insertIgnore_def add_app_def
  by (rule valid_stmt)
    (fastforce simp: ops_inv_def apps_ok_def has_job_def same_def list_ex_iff split: if_splits sum.splits)+

lemma seed_each_valid:
  "list_all (\<lambda>(name, _, _, app, c). jobName name \<and> jobName app \<and> list_all jobName (parseCompose c)) js \<Longrightarrow> keeps e (seed_each e url js)"
proof (induction js)
  case Nil
  then show ?case by (auto intro: valid_ret)
next
  case (Cons x js)
  obtain name script lab app c where x: "x = (name, script, lab, app, c)" by (metis prod_cases5)
  have n: "jobName name" "jobName app" "list_all jobName (parseCompose c)" using Cons.prems x by auto
  have "keeps e (seed_each e url js)" using Cons by simp
  then show ?case unfolding x seed_each.simps
    by (intro valid_bind [OF seed_job_valid [OF n(1)]] valid_bind [OF seed_app_valid [OF n(2,3)]])
qed

lemma seed_jobs_ok: "list_all (\<lambda>(name, _, _, app, c). jobName name \<and> jobName app \<and> list_all jobName (parseCompose c)) seed_jobs"
  by code_simp

lemma seedRelease_valid: "keeps e (seedRelease e url)"
proof -
  have f: "validS (ops_inv e) (ignoreS (execS (\<lambda>t. t\<lparr>op_jobs := map (\<lambda>j.
       if same e (sj_Name j) ''home-api'' \<and> (same e (sj_ScriptPath j) ''Dockerfile.home'' \<or> same e (sj_Label j) ''image'')
       then j\<lparr>sj_ScriptPath := ''scripts/scm/home-api.sh'', sj_Label := ''golang''\<rparr> else j) (op_jobs t)\<rparr>))) (\<lambda>_. ops_inv e) (ops_inv e)"
    by (intro valid_ignore valid_exec) (auto intro!: upd_jobs_inv)
  show ?thesis unfolding seedRelease_def by (rule valid_bind [OF seed_each_valid [OF seed_jobs_ok] f])
qed

section \<open>Calls\<close>

datatype ops_op =
    OSeed string
  | ORestart
  | OCreateJob string string string string
  | OUpdateJob string string string string
  | ODeleteJob string
  | OCreateBuild string string string
  | OWrite nat string
  | OEndBuild int nat string string "string option"
  | OCreateApp string string string
  | OUpdateApp string string string
  | ODeleteApp string
  | OCreateDeploy string string string string
  | OMid int int nat string string "string option"
  | OFinishDeploy int nat "string option"
  | OEndDeploy int nat "string option"

text \<open>A restart of the process loses the logs in memory, and the runs with them.\<close>

fun ops_exec :: "ops_env \<Rightarrow> ops_op \<Rightarrow> ops_tabs db \<Rightarrow> ops_tabs db" where
  "ops_exec e (OSeed url) d = snd (seedRelease e url d)"
| "ops_exec e ORestart d = d\<lparr>db_tab := (db_tab d)\<lparr>op_hubs := [], op_lives := []\<rparr>\<rparr>"
| "ops_exec e (OCreateJob n u s l) d = snd (CreateJob e n u s l d)"
| "ops_exec e (OUpdateJob n u s l) d = snd (UpdateJob e n u s l d)"
| "ops_exec e (ODeleteJob n) d = snd (DeleteJob e n d)"
| "ops_exec e (OCreateBuild ver n b) d = snd (CreateBuild e ver n b d)"
| "ops_exec e (OWrite h p) d = snd ((run_write h p :: (ops_tabs, unit, unit) dbm) d)"
| "ops_exec e (OEndBuild i h bin c err) d = snd ((end_build i h bin c err :: (ops_tabs, unit, unit) dbm) d)"
| "ops_exec e (OCreateApp n s c) d = snd (CreateApp e n s c d)"
| "ops_exec e (OUpdateApp n s c) d = snd (UpdateApp e n s c d)"
| "ops_exec e (ODeleteApp n) d = snd (DeleteApp e n d)"
| "ops_exec e (OCreateDeploy now s v b) d = snd (CreateDeploy e now s v b d)"
| "ops_exec e (OMid b i h bin c err) d = snd ((mid_build_deploy b i h bin c err :: (ops_tabs, unit, bool) dbm) d)"
| "ops_exec e (OFinishDeploy i h err) d = snd ((finish_deploy i h err :: (ops_tabs, unit, unit) dbm) d)"
| "ops_exec e (OEndDeploy i h err) d = snd ((end_deploy i h err :: (ops_tabs, unit, unit) dbm) d)"

inductive ops_reach :: "ops_env \<Rightarrow> ops_tabs \<Rightarrow> bool" for e where
  ops_start: "ops_reach e ops_migrate"
| ops_call: "ops_reach e t \<Longrightarrow> ops_reach e (db_tab (ops_exec e op \<lparr>db_tab = t, db_faults = faults\<rparr>))"

lemma run_write_valid: "keeps e (run_write h p)"
  unfolding run_write_def by (rule mod_hub_valid)

lemma ops_exec_inv: "ops_inv e (db_tab d) \<Longrightarrow> ops_inv e (db_tab (ops_exec e op d))"
proof (cases op)
  case ORestart
  then show "ops_inv e (db_tab d) \<Longrightarrow> ?thesis" by (simp add: ops_inv_def)
qed (simp_all only: ops_exec.simps validS_snd [OF seedRelease_valid] validS_snd [OF CreateJob_valid] validS_snd [OF UpdateJob_valid]
      validS_snd [OF DeleteJob_valid] validS_snd [OF CreateBuild_valid] validS_snd [OF run_write_valid] validS_snd [OF end_build_valid]
      validS_snd [OF CreateApp_valid] validS_snd [OF UpdateApp_valid] validS_snd [OF DeleteApp_valid] validS_snd [OF CreateDeploy_valid]
      validS_snd [OF mid_valid] validS_snd [OF finish_deploy_valid] validS_snd [OF end_deploy_valid])


section \<open>Logs of other runs\<close>

definition run_hub :: "run \<Rightarrow> nat" where
  "run_hub r = (case r of RunDeploy _ _ _ _ _ h \<Rightarrow> h | RunBuildDeploy _ _ _ _ _ _ _ _ h \<Rightarrow> h)"

definition fresh_live :: "int \<Rightarrow> nat \<Rightarrow> ops_tabs \<Rightarrow> bool" where
  "fresh_live i h t \<longleftrightarrow> map_of (op_lives t) i = Some h \<and> h < length (op_hubs t) \<and> op_hubs t ! h = new_hub"

lemma valid_any: "validS P m (\<lambda>_ _. True) (\<lambda>_. True)"
  by (auto simp: validS_def split: prod.split sum.split)

lemma new_live_fresh: "validS P (new_live i) (fresh_live i) (\<lambda>_. True)"
  by (auto simp: validS_def new_live_def bindS_def modS_def fresh_live_def map_of_al_put nth_append)

definition logged_fresh :: "deployRow \<times> run \<Rightarrow> ops_tabs \<Rightarrow> bool" where
  "logged_fresh x t \<longleftrightarrow> fresh_live (dp_ID (fst x)) (run_hub (snd x)) t"

lemma CreateDeploy_fresh: "validS P (CreateDeploy e now svc ver br) logged_fresh (\<lambda>_. True)"
proof -
  have n: "validS P (bindS (new_live i) (\<lambda>h. retS (started i app v, r h))) logged_fresh (\<lambda>_. True)"
    if "\<And>h. run_hub (r h) = h" for P i app v r
    by (rule valid_bind [OF new_live_fresh], rule valid_basic(1)) (simp add: logged_fresh_def started_def that)
  have b: "validS P (createBuildDeploy e now app branch) logged_fresh (\<lambda>_. True)" for P app branch
    unfolding createBuildDeploy_def Let_def
    by (rule valid_bind [OF valid_any], rule valid_bind [OF valid_any], rule valid_bind [OF valid_any], rule valid_bind [OF valid_any],
        rule valid_bind [OF valid_any], rule n) (simp add: run_hub_def)
  show ?thesis unfolding CreateDeploy_def Let_def
  proof (rule valid_bind [OF valid_any], rule valid_bind [OF valid_any], goal_cases)
    case (1 app u)
    show ?case
    proof (cases "trim_space br = []")
      case True
      then have e: "\<not> trim_space br \<noteq> []" by simp
      show ?thesis unfolding if_not_P [OF e]
        by (rule valid_bind [OF valid_any], rule valid_bind [OF valid_any], rule valid_bind [OF valid_any], rule valid_bind [OF valid_any],
            rule valid_bind [OF valid_any], rule valid_bind [OF valid_any], rule n) (simp add: run_hub_def)
    qed (simp add: b)
  qed
qed

text \<open>Builds and deployments share one map of live logs under their ids, which are counted apart: once a deployment has been created, the page of the build with the same id shows what the deployment writes, in place of its own log.\<close>

lemma build_shows_deploy_log:
  assumes "CreateDeploy e now svc ver br d = (Inr (row, r), d')" and "b \<in> set (op_builds (db_tab d'))"
    and "bd_ID b = dp_ID row" and "distinct (map bd_ID (op_builds (db_tab d')))" and "CR \<notin> set p"
  shows "fst (GetBuild (bd_ID b) (healthy (db_tab (snd ((run_write (run_hub r) p :: (ops_tabs, unit, unit) dbm) d'))))) =
    Inr (b\<lparr>bd_Log := p\<rparr>, view_error (bd_Status b))"
proof -
  let ?i = "dp_ID row" and ?h = "run_hub r" and ?t = "db_tab d'"
  let ?t1 = "with_hub ?h (live_Write p) ?t"
  have f: "fresh_live ?i ?h ?t"
    using validSD(2) [OF CreateDeploy_fresh [of "\<lambda>_. True"], OF _ assms(1)] by (simp add: logged_fresh_def)
  have w: "db_tab (snd ((run_write ?h p :: (ops_tabs, unit, unit) dbm) d')) = ?t1" by (simp add: run_write_def modS_def)
  have "live_String (hb_run (live_Write p new_hub)) = p"
    using absorb_plain [OF assms(5), of "[]" "[]"] write_pair [of p new_hub]
    by (simp add: log_pair_def new_hub_def live_String_def split: prod.splits)
  then have live: "live_of ?t1 ?i = Some p"
    using f by (simp add: live_of_def with_hub_def fresh_live_def)
  have "filter (\<lambda>c. bd_ID c = bd_ID b) (op_builds ?t) = [b]"
    using filter_key [OF assms(4,2)] .
  then have "filter (\<lambda>c. bd_ID c = ?i) (op_builds ?t1) = [b]" using assms(3) by (simp add: with_hub_def)
  then show ?thesis
    unfolding w using live assms(3)
    by (simp add: GetBuild_def loadBuild_def bindS_def orElse_def catchS_def retS_def)
qed

definition demo_ops :: ops_env where
  "demo_ops = \<lparr>oe_root = ''/w'', oe_coll = (\<lambda>s. s), oe_head = (\<lambda>_. None), oe_refs = Inr, oe_exists = (\<lambda>_. True)\<rparr>"

definition demo_ops_tab :: ops_tabs where
  "demo_ops_tab = fold (\<lambda>op t. db_tab (ops_exec demo_ops op (healthy t)))
     [OCreateJob ''a'' ''git@x:a.git'' ''build.sh'' ''golang'', OCreateApp ''app'' ''a'' [], OCreateBuild ''v1'' ''a'' ''main'',
      OEndBuild 1 0 ''/w/artifacts/a/v1/a'' ''c0ffee'' None] ops_migrate"

lemma demo_ops_reach: "ops_reach demo_ops demo_ops_tab"
  unfolding demo_ops_tab_def fold_simps by (intro ops_call ops_start)


lemma build_shows_deploy_log_witness:
  "\<exists>row r d' b. CreateDeploy demo_ops ''v2'' ''app'' ''v1'' [] (healthy demo_ops_tab) = (Inr (row, r), d') \<and>
     b \<in> set (op_builds (db_tab d')) \<and> bd_Status b = ''ok'' \<and>
     fst (GetBuild (bd_ID b) (healthy (db_tab (snd ((run_write (run_hub r) ''deploying'' :: (ops_tabs, unit, unit) dbm) d'))))) =
       Inr (b\<lparr>bd_Log := ''deploying''\<rparr>, [])"
proof -
  let ?c = "CreateDeploy demo_ops ''v2'' ''app'' ''v1'' [] (healthy demo_ops_tab)"
  have v: "isOk (fst ?c)" "map bd_ID (op_builds (db_tab (snd ?c))) = [1]" "map bd_Status (op_builds (db_tab (snd ?c))) = [''ok'']"
    "(case fst ?c of Inr x \<Rightarrow> dp_ID (fst x) = 1 | _ \<Rightarrow> False)" by code_simp+
  obtain row r d' where c: "?c = (Inr (row, r), d')"
    using v(1) by (cases ?c; cases "fst ?c") (auto simp: isOk_iff)
  obtain b where b: "op_builds (db_tab d') = [b]" "bd_ID b = 1" "bd_Status b = ''ok''"
    using v(2,3) unfolding c by auto
  have "dp_ID row = 1" using v(4) unfolding c by simp
  moreover have "CR \<notin> set ''deploying''" by simp
  ultimately have "fst (GetBuild (bd_ID b) (healthy (db_tab (snd ((run_write (run_hub r) ''deploying'' :: (ops_tabs, unit, unit) dbm) d'))))) =
    Inr (b\<lparr>bd_Log := ''deploying''\<rparr>, view_error (bd_Status b))"
    using build_shows_deploy_log [OF c, of b "''deploying''"] b by simp
  then show ?thesis using c b by (intro exI [of _ row] exI [of _ r] exI [of _ d'] exI [of _ b]) (simp add: view_error_def)
qed

section \<open>What may be deployed\<close>

definition deployable :: "ops_env \<Rightarrow> buildRow list \<Rightarrow> string \<Rightarrow> deployRow \<times> run \<Rightarrow> bool" where
  "deployable e bs ver x \<longleftrightarrow>
     (\<exists>app lab h b. snd x = RunDeploy (dp_ID (fst x)) app ver (artifact e (da_ScmName app) ver) lab h \<and>
        dp_Version (fst x) = ver \<and> \<not> str_contains ver ''/'' \<and> \<not> str_contains ver ''..'' \<and>
        b \<in> set bs \<and> same e (bd_Service b) (da_ScmName app) \<and> same e (bd_Version b) ver \<and> bd_Status b = ''ok'' \<and>
        (\<forall>b'\<in>set bs. same e (bd_Service b') (da_ScmName app) \<and> same e (bd_Version b') ver \<longrightarrow> bd_ID b' \<le> bd_ID b) \<and>
        oe_exists e (artifact e (da_ScmName app) ver))"

lemma latest_statusD:
  assumes "latest_status e svc ver t = st # rest"
  shows "\<exists>b\<in>set (op_builds t). same e (bd_Service b) svc \<and> same e (bd_Version b) ver \<and> bd_Status b = st \<and>
    (\<forall>b'\<in>set (op_builds t). same e (bd_Service b') svc \<and> same e (bd_Version b') ver \<longrightarrow> bd_ID b' \<le> bd_ID b)"
proof -
  let ?bs = "sort_key bd_ID (filter (\<lambda>b. same e (bd_Service b) svc \<and> same e (bd_Version b) ver) (op_builds t))"
  obtain b bs where r: "rev ?bs = b # bs" "bd_Status b = st" using assms by (auto simp: latest_status_def)
  then have bs: "?bs = rev bs @ [b]" by (metis rev_eq_Cons_iff)
  have "sorted (map bd_ID ?bs)" by (rule sorted_sort_key)
  then have "\<forall>b'\<in>set (rev bs). bd_ID b' \<le> bd_ID b" unfolding bs by (simp add: sorted_append)
  then have "\<forall>b'\<in>set ?bs. bd_ID b' \<le> bd_ID b" unfolding bs by simp
  moreover have "b \<in> set ?bs" unfolding bs by simp
  ultimately show ?thesis using r(2) by (intro bexI [of _ b]) auto
qed

lemma CreateDeploy_deployable:
  assumes "trim_space br = []"
  shows "validS (\<lambda>t. op_builds t = bs) (CreateDeploy e now svc ver br) (\<lambda>x _. deployable e bs (trim_space ver) x) (\<lambda>_. True)"
proof -
  let ?v = "trim_space ver" and ?P = "\<lambda>t. op_builds t = bs"
  let ?ok = "?v \<noteq> [] \<and> \<not> str_contains ?v ''/'' \<and> \<not> str_contains ?v ''..''"
  have keep: "validS ?P m (\<lambda>_. ?P) (\<lambda>_. True)" if "validS ?P m (\<lambda>_. ?P) ?P" for m
    by (rule valid_weaken [OF that]) auto
  define st_ok :: "deployApp \<Rightarrow> string \<Rightarrow> bool" where "st_ok app st \<longleftrightarrow> (\<exists>b\<in>set bs. same e (bd_Service b) (da_ScmName app) \<and> same e (bd_Version b) ?v \<and> bd_Status b = st \<and>
     (\<forall>b'\<in>set bs. same e (bd_Service b') (da_ScmName app) \<and> same e (bd_Version b') ?v \<longrightarrow> bd_ID b' \<le> bd_ID b))" for app st
  have g: "validS (\<lambda>_. B) (guardS b x) (\<lambda>_ _. B \<and> b) (\<lambda>_. True)" for B b x
    unfolding guardS_def by (auto intro: valid_basic)
  have q: "validS (\<lambda>t. ?P t \<and> ?ok) (orElse (queryRow (latest_status e (da_ScmName app) ?v)) f) (\<lambda>st _. ?ok \<and> st_ok app st) (\<lambda>_. True)" for app f
    by (intro valid_orElse, unfold queryRow_def, rule valid_stmt)
      (auto simp: st_ok_def split: list.splits dest!: latest_statusD)
  have any: "validS (\<lambda>_. B) m (\<lambda>_ _. B) (\<lambda>_. True)" for m B
    by (auto simp: validS_def split: prod.split sum.split)
  have fin: "validS (\<lambda>_. ((?ok \<and> st_ok app st) \<and> st = ''ok'') \<and> oe_exists e (artifact e (da_ScmName app) ?v))
      (retS (started i app ?v, RunDeploy i app ?v (artifact e (da_ScmName app) ?v) lab h))
      (\<lambda>x _. deployable e bs ?v x) (\<lambda>_. True)" for app st i lab h
    by (rule valid_basic(1)) (auto simp: deployable_def started_def st_ok_def)
  have eq: "\<not> trim_space br \<noteq> []" using assms by simp
  have g1: "validS ?P (guardS ?ok BadVersion) (\<lambda>_ t. ?P t \<and> ?ok) (\<lambda>_. True)"
    by (rule valid_weaken [OF valid_guard]) auto
  have a: "validS ?P (orElse (getApp e svc) invalid) (\<lambda>_. ?P) (\<lambda>_. True)" by (rule keep) (rule valid_getApp)
  have i: "validS ?P (idleDeploy e s) (\<lambda>_. ?P) (\<lambda>_. True)" for s
    by (rule valid_weaken [OF valid_idleDeploy [of ?P]]) auto
  show ?thesis unfolding CreateDeploy_def Let_def if_not_P [OF eq]
    by (rule valid_bind [OF a], rule valid_bind [OF i], rule valid_bind [OF g1], rule valid_bind [OF q], rule valid_bind [OF g],
        rule valid_bind [OF g], rule valid_bind [OF any], rule valid_bind [OF any], rule valid_bind [OF any], rule fin)
qed



text \<open>A run that a restart has cut off stays \<open>running\<close> and blocks all later builds of its job.\<close>

lemma lost_build_blocks:
  assumes "b \<in> set (op_builds t)" and "bd_Status b = ''running''" and "same e (bd_Service b) svc"
  shows "fst (idleBuild e svc (healthy t)) = Inl (invalid BuildRunning)"
proof -
  have "filter (\<lambda>b. same e (bd_Service b) svc \<and> same e (bd_Status b) ''running'') (op_builds t) \<noteq> []"
    using assms by (auto simp: filter_empty_conv same_def)
  then show ?thesis
    by (simp add: idleBuild_def bindS_def onOps_def orElse_def catchS_def count_running_def failS_def)
qed

end
