(* ===== verification/BamOk.thy ===== *)
theory BamOk
  imports BamGen OpsOk
begin

text \<open>
  The versions of modules: the tables stay well-formed under all calls, and a version that has been written
  reads the same for good.
\<close>

section \<open>Well-formed tables\<close>

definition version_keys :: "bamModule list \<Rightarrow> (int \<times> int) set" where
  "version_keys ms = {(i, v). \<exists>m\<in>set ms. bm_ID m = i \<and> 1 \<le> v \<and> v \<le> bm_Version m}"

definition file_ver :: "bamFileRow \<Rightarrow> int \<times> int" where "file_ver r = (bf_Module r, bf_Version r)"
definition rev_ver :: "bamRevRow \<Rightarrow> int \<times> int" where "rev_ver r = (rv_Module r, rv_Version r)"
definition gen_ver :: "bamGenRow \<Rightarrow> int \<times> int" where "gen_ver g = (bg_Module g, bg_Version g)"

definition proto_path :: "string \<Rightarrow> bool" where
  "proto_path p \<longleftrightarrow> bamPath p \<and> \<not> str_contains p ''..'' \<and> \<not> str_contains p ''//''"

definition module_ok :: "bamRevRow list \<Rightarrow> int \<Rightarrow> bamModule \<Rightarrow> bool" where
  "module_ok revs n m \<longleftrightarrow> bm_ID m < n \<and> isOk (checkBamName (bm_Name m)) \<and> 1 \<le> bm_Version m \<and> bm_Version m < 2 ^ 31 \<and>
     (bm_ScmName m = [] \<longrightarrow> bm_Branch m = [] \<and> bm_Commit m = []) \<and>
     (\<exists>r\<in>set revs. rev_ver r = (bm_ID m, bm_Version m) \<and> rv_Branch r = bm_Branch m \<and> rv_Commit r = bm_Commit m)"

definition bam_inv :: "(string \<Rightarrow> string) \<Rightarrow> bam_tabs \<Rightarrow> bool" where
  "bam_inv c t \<longleftrightarrow>
     distinct (map bm_ID (bt_modules t)) \<and> distinct (map (\<lambda>m. c (bm_Name m)) (bt_modules t)) \<and>
     (\<forall>m\<in>set (bt_modules t). module_ok (bt_revs t) (bt_next t) m) \<and>
     distinct (map rev_ver (bt_revs t)) \<and> rev_ver ` set (bt_revs t) = version_keys (bt_modules t) \<and>
     distinct (map (\<lambda>r. (file_ver r, c (bf_Path r))) (bt_files t)) \<and> file_ver ` set (bt_files t) = version_keys (bt_modules t) \<and>
     (\<forall>r\<in>set (bt_files t). proto_path (bf_Path r)) \<and>
     distinct (map gen_ver (bt_gens t)) \<and> gen_ver ` set (bt_gens t) \<subseteq> version_keys (bt_modules t) \<and>
     (\<forall>g\<in>set (bt_gens t). bg_Status g = ''ok'' \<or> bg_Status g = ''fail'')"

text \<open>Later tables: no module is lost, and the versions that are there keep their rows.\<close>

definition later :: "bam_tabs \<Rightarrow> bam_tabs \<Rightarrow> bool" where
  "later t t' \<longleftrightarrow>
     (\<forall>m\<in>set (bt_modules t). \<exists>m'\<in>set (bt_modules t'). bm_ID m' = bm_ID m \<and> bm_Name m' = bm_Name m \<and> bm_Version m \<le> bm_Version m') \<and>
     (\<forall>k\<in>version_keys (bt_modules t).
        filter (\<lambda>r. file_ver r = k) (bt_files t') = filter (\<lambda>r. file_ver r = k) (bt_files t) \<and>
        filter (\<lambda>r. rev_ver r = k) (bt_revs t') = filter (\<lambda>r. rev_ver r = k) (bt_revs t))"

lemma later_refl: "later t t" by (auto simp: later_def)

lemma later_keys: "later t t' \<Longrightarrow> version_keys (bt_modules t) \<subseteq> version_keys (bt_modules t')"
  unfolding later_def version_keys_def by fastforce

lemma later_trans:
  assumes "later t u" and "later u v"
  shows "later t v"
proof -
  have "\<exists>m'\<in>set (bt_modules v). bm_ID m' = bm_ID m \<and> bm_Name m' = bm_Name m \<and> bm_Version m \<le> bm_Version m'"
    if m: "m \<in> set (bt_modules t)" for m
  proof -
    obtain m1 where "m1 \<in> set (bt_modules u)" "bm_ID m1 = bm_ID m" "bm_Name m1 = bm_Name m" "bm_Version m \<le> bm_Version m1"
      using assms(1) m by (auto simp: later_def)
    moreover from this obtain m2 where "m2 \<in> set (bt_modules v)" "bm_ID m2 = bm_ID m1" "bm_Name m2 = bm_Name m1" "bm_Version m1 \<le> bm_Version m2"
      using assms(2) by (auto simp: later_def)
    ultimately show ?thesis by (intro bexI [of _ m2]) auto
  qed
  moreover have "k \<in> version_keys (bt_modules u)" if "k \<in> version_keys (bt_modules t)" for k
    using later_keys [OF assms(1)] that by blast
  ultimately show ?thesis using assms by (simp add: later_def)
qed

section \<open>Writing a version\<close>

abbreviation coll :: "bam_env \<Rightarrow> string \<Rightarrow> string" where "coll e \<equiv> oe_coll (be_ops e)"

lemma sameB_iff: "sameB e a b \<longleftrightarrow> coll e a = coll e b" by (simp add: sameB_def same_def)

definition new_row :: "int \<Rightarrow> int \<Rightarrow> bamFile \<Rightarrow> bamFileRow" where
  "new_row i ver f = \<lparr>bf_Module = i, bf_Version = ver, bf_Path = fst f, bf_Content = snd f\<rparr>"

text \<open>The rows of modules before and after \<open>writeModule\<close>, for the module \<open>i\<close> at version \<open>ver\<close>.\<close>

definition module_written :: "bam_env \<Rightarrow> string \<Rightarrow> string \<Rightarrow> string \<Rightarrow> string \<Rightarrow> bam_tabs \<Rightarrow> int \<Rightarrow> int \<Rightarrow> bam_tabs \<Rightarrow> bool" where
  "module_written e name scm branch commit t i ver t' \<longleftrightarrow>
     bt_files t' = bt_files t \<and> bt_revs t' = bt_revs t \<and> bt_gens t' = bt_gens t \<and>
     ((\<exists>m. bt_modules t' = bt_modules t @ [m] \<and> bt_next t' = bt_next t + 1 \<and> i = bt_next t \<and> ver = 1 \<and>
         (\<forall>x\<in>set (bt_modules t). coll e (bm_Name x) \<noteq> coll e name) \<and>
         bm_ID m = i \<and> bm_Name m = name \<and> bm_Version m = 1 \<and> bm_ScmName m = scm \<and> bm_Branch m = branch \<and> bm_Commit m = commit) \<or>
      (\<exists>m f. m \<in> set (bt_modules t) \<and> coll e (bm_Name m) = coll e name \<and> bt_modules t' = map (\<lambda>x. if bm_ID x = i then f x else x) (bt_modules t) \<and>
         bt_next t' = bt_next t \<and> i = bm_ID m \<and> ver = bm_Version m + 1 \<and> ver < 2 ^ 31 \<and>
         (\<forall>x. bm_ID (f x) = bm_ID x \<and> bm_Name (f x) = bm_Name x \<and> bm_Version (f x) = ver) \<and>
         (if scm \<noteq> [] then \<forall>x. bm_ScmName (f x) = scm \<and> bm_Branch (f x) = branch \<and> bm_Commit (f x) = commit
          else \<forall>x. bm_ScmName (f x) = bm_ScmName x \<and> bm_Branch (f x) = bm_Branch x \<and> bm_Commit (f x) = bm_Commit x)))"

definition wrote :: "bam_env \<Rightarrow> string \<Rightarrow> bamFile list \<Rightarrow> string \<Rightarrow> string \<Rightarrow> string \<Rightarrow> bam_tabs \<Rightarrow> int \<Rightarrow> int \<Rightarrow> bam_tabs \<Rightarrow> bool" where
  "wrote e name files scm branch commit t i ver t' \<longleftrightarrow>
     (\<exists>t1 r. module_written e name scm branch commit t i ver t1 \<and>
        t' = t1\<lparr>bt_files := bt_files t @ map (new_row i ver) files, bt_revs := bt_revs t @ [r]\<rparr> \<and>
        rev_ver r = (i, ver) \<and> rv_Branch r = branch \<and> rv_Commit r = commit \<and>
        distinct (map (\<lambda>f. coll e (fst f)) files) \<and>
        (\<forall>x\<in>set (bt_files t). file_ver x = (i, ver) \<longrightarrow> coll e (bf_Path x) \<notin> (\<lambda>f. coll e (fst f)) ` set files))"

lemma valid_onBam: "validS P m Q E \<Longrightarrow> validS P (onBam m) Q E"
  unfolding onBam_def by (rule valid_orElse)

lemma valid_opt_row:
  "validS P (opt_row f) (\<lambda>x t. P t \<and> (case x of None \<Rightarrow> f t = [] | Some y \<Rightarrow> y \<in> set (f t))) P"
  unfolding opt_row_def by (rule valid_onBam, rule valid_query) (auto split: list.splits)

lemma ins_files_valid:
  "validS (\<lambda>t. t = t0) (ins_files e i ver fs)
     (\<lambda>_ t. t = t0\<lparr>bt_files := bt_files t0 @ map (new_row i ver) fs\<rparr> \<and> distinct (map (\<lambda>f. coll e (fst f)) fs) \<and>
        (\<forall>x\<in>set (bt_files t0). file_ver x = (i, ver) \<longrightarrow> coll e (bf_Path x) \<notin> (\<lambda>f. coll e (fst f)) ` set fs)) (\<lambda>_. True)"
proof (induction fs arbitrary: t0)
  case Nil
  then show ?case by (auto intro: valid_basic)
next
  case (Cons f fs)
  let ?t1 = "t0\<lparr>bt_files := bt_files t0 @ [new_row i ver f]\<rparr>"
  have one: "validS (\<lambda>t. t = t0) (ins_file e i ver f)
      (\<lambda>_ t. t = ?t1 \<and> (\<forall>x\<in>set (bt_files t0). file_ver x = (i, ver) \<longrightarrow> coll e (bf_Path x) \<noteq> coll e (fst f))) (\<lambda>_. True)"
    unfolding ins_file_def by (rule valid_stmt) (auto simp: new_row_def file_ver_def sameB_iff list_ex_iff split: if_splits)
  have rest: "validS (\<lambda>t. t = ?t1 \<and> (\<forall>x\<in>set (bt_files t0). file_ver x = (i, ver) \<longrightarrow> coll e (bf_Path x) \<noteq> coll e (fst f)))
      (ins_files e i ver fs)
      (\<lambda>_ t. t = t0\<lparr>bt_files := bt_files t0 @ map (new_row i ver) (f # fs)\<rparr> \<and> distinct (map (\<lambda>f. coll e (fst f)) (f # fs)) \<and>
        (\<forall>x\<in>set (bt_files t0). file_ver x = (i, ver) \<longrightarrow> coll e (bf_Path x) \<notin> (\<lambda>f. coll e (fst f)) ` set (f # fs))) (\<lambda>_. True)"
    by (rule valid_pre, rule valid_weaken [OF Cons.IH [of ?t1]]) (auto simp: file_ver_def new_row_def image_iff)
  show ?case unfolding ins_files.simps by (rule valid_bind [OF one rest])
qed

lemma ins_rev_valid:
  "validS (\<lambda>t. t = t0) (ins_rev i ver branch commit rpcs http)
     (\<lambda>_ t. \<exists>r. t = t0\<lparr>bt_revs := bt_revs t0 @ [r]\<rparr> \<and> rev_ver r = (i, ver) \<and> rv_Branch r = branch \<and> rv_Commit r = commit) (\<lambda>_. True)"
  unfolding ins_rev_def by (rule valid_stmt) (auto simp: rev_ver_def split: if_splits)

lemma ins_module_valid:
  assumes "\<forall>x\<in>set (bt_modules t0). coll e (bm_Name x) \<noteq> coll e name"
  shows "validS (\<lambda>t. t = t0) (ins_module e name rpcs http scm branch dir commit)
     (\<lambda>i t. module_written e name scm branch commit t0 i 1 t) (\<lambda>_. True)"
  unfolding ins_module_def using assms by (intro valid_stmt) (auto simp: module_written_def split: if_splits)

lemma upd_module_valid:
  assumes "m \<in> set (bt_modules t0)" and "coll e (bm_Name m) = coll e name" and "fits \<longrightarrow> bm_Version m + 1 < 2 ^ 31"
    and "\<forall>x. bm_ID (f x) = bm_ID x \<and> bm_Name (f x) = bm_Name x \<and> bm_Version (f x) = bm_Version m + 1"
    and "if scm \<noteq> [] then \<forall>x. bm_ScmName (f x) = scm \<and> bm_Branch (f x) = branch \<and> bm_Commit (f x) = commit
          else \<forall>x. bm_ScmName (f x) = bm_ScmName x \<and> bm_Branch (f x) = bm_Branch x \<and> bm_Commit (f x) = bm_Commit x"
  shows "validS (\<lambda>t. t = t0) (upd_module (bm_ID m) f fits)
     (\<lambda>_ t. module_written e name scm branch commit t0 (bm_ID m) (bm_Version m + 1) t) (\<lambda>_. True)"
  unfolding upd_module_def
proof (rule valid_stmt)
  fix t x t' assume "t = t0" and r: "(if \<not> fits then Inl DataTooLong
     else Inr ((), t\<lparr>bt_modules := map (\<lambda>x. if bm_ID x = bm_ID m then f x else x) (bt_modules t)\<rparr>)) = Inr (x, t')"
  then have "fits" "t' = t0\<lparr>bt_modules := map (\<lambda>x. if bm_ID x = bm_ID m then f x else x) (bt_modules t0)\<rparr>" by (auto split: if_splits)
  then show "module_written e name scm branch commit t0 (bm_ID m) (bm_Version m + 1) t'"
    using assms unfolding module_written_def by (intro conjI disjI2 exI [of _ m] exI [of _ f]) simp_all
qed simp

lemma write_body_valid:
  "validS (\<lambda>t. t = t0) (write_body e name files scm branch dir commit)
     (\<lambda>(i, ver) t. wrote e name files scm branch commit t0 i ver t) (\<lambda>_. True)"
proof -
  obtain rpcs http where ac: "api_counts e files = (rpcs, http)" by (cases "api_counts e files")
  let ?E = "\<lambda>_ :: bam_tabs. True"
  have fin: "validS (module_written e name scm branch commit t0 i ver)
      (bindS (onBam (ins_files e i ver files)) (\<lambda>_. bindS (onBam (ins_rev i ver branch commit rpcs http)) (\<lambda>_. retS (i, ver))))
      (\<lambda>(i, ver) t. wrote e name files scm branch commit t0 i ver t) ?E" for i ver
  proof (rule valid_at, goal_cases)
    case (1 t1)
    show ?case
    proof -
      let ?D = "distinct (map (\<lambda>f. coll e (fst f)) files) \<and>
          (\<forall>x\<in>set (bt_files t1). file_ver x = (i, ver) \<longrightarrow> coll e (bf_Path x) \<notin> (\<lambda>f. coll e (fst f)) ` set files)"
      let ?t2 = "t1\<lparr>bt_files := bt_files t1 @ map (new_row i ver) files\<rparr>"
      have r: "validS (\<lambda>t. t = ?t2 \<and> ?D) (onBam (ins_rev i ver branch commit rpcs http))
         (\<lambda>_. wrote e name files scm branch commit t0 i ver) ?E"
      proof (rule valid_pre, rule valid_weaken [OF valid_onBam [OF ins_rev_valid [of ?t2]]])
        fix x t assume d: ?D and "\<exists>r. t = ?t2\<lparr>bt_revs := bt_revs ?t2 @ [r]\<rparr> \<and> rev_ver r = (i, ver) \<and> rv_Branch r = branch \<and> rv_Commit r = commit"
        then obtain r where r: "t = ?t2\<lparr>bt_revs := bt_revs ?t2 @ [r]\<rparr>" "rev_ver r = (i, ver)" "rv_Branch r = branch" "rv_Commit r = commit"
          by blast
        have s: "bt_files t1 = bt_files t0" "bt_revs t1 = bt_revs t0" using 1 by (simp_all add: module_written_def)
        show "wrote e name files scm branch commit t0 i ver t"
          unfolding wrote_def using 1 d r s by (intro exI [of _ t1] exI [of _ r]) simp
      qed auto
      show ?thesis by (rule valid_bind [OF valid_onBam [OF ins_files_valid]], rule valid_bind [OF r], rule valid_basic(1)) simp
    qed
  qed
  let ?q = "opt_row (\<lambda>t. map (\<lambda>m. (bm_ID m, bm_Version m)) (filter (\<lambda>m. sameB e (bm_Name m) name) (bt_modules t)))"
  have q: "validS (\<lambda>t. t = t0) ?q (\<lambda>cur t. t = t0 \<and> (case cur of None \<Rightarrow> \<forall>x\<in>set (bt_modules t0). coll e (bm_Name x) \<noteq> coll e name
      | Some (i, v) \<Rightarrow> \<exists>m\<in>set (bt_modules t0). coll e (bm_Name m) = coll e name \<and> i = bm_ID m \<and> v = bm_Version m)) ?E"
    by (rule valid_weaken [OF valid_opt_row [of "\<lambda>t. t = t0"]]) (auto simp: sameB_iff filter_empty_conv split: option.splits)
  show ?thesis unfolding write_body_def ac prod.case
  proof (rule valid_bind [OF q], rule valid_pre, goal_cases)
    case (1 cur)
    show ?case
    proof (cases cur)
      case None
      then have n: "\<forall>x\<in>set (bt_modules t0). coll e (bm_Name x) \<noteq> coll e name" using 1 by simp
      show ?thesis unfolding None option.case
        by (rule valid_bind [where R = "\<lambda>(i, ver). module_written e name scm branch commit t0 i ver"],
            rule valid_bind [OF valid_onBam [OF ins_module_valid [OF n]]], rule valid_basic(1))
          (auto intro: fin)
    next
      case (Some iv)
      then obtain m where m: "m \<in> set (bt_modules t0)" "coll e (bm_Name m) = coll e name" "iv = (bm_ID m, bm_Version m)"
        using 1 by (cases iv) auto
      show ?thesis unfolding Some option.case m(3) prod.case
        by (rule valid_bind [where R = "\<lambda>(i, ver). module_written e name scm branch commit t0 i ver"],
            rule valid_bind [where R = "\<lambda>_. module_written e name scm branch commit t0 (bm_ID m) (bm_Version m + 1)"],
            rule valid_onBam)
          (auto simp: col32_def intro!: upd_module_valid m valid_basic(1) fin)
    qed
  qed
qed

lemma writeModule_wrote:
  "validS (\<lambda>t. t = t0) (writeModule e name files scm branch dir commit)
     (\<lambda>m t. \<exists>i ver. wrote e name files scm branch commit t0 i ver t) (\<lambda>t. t = t0)"
proof -
  have "validS (\<lambda>t. t = t0) (transaction (\<lambda>x. internal (BamDb x)) (write_body e name files scm branch dir commit))
      (\<lambda>(i, ver) t. wrote e name files scm branch commit t0 i ver t) (\<lambda>t. t = t0)"
    by (rule valid_transaction [OF write_body_valid])
  then show ?thesis unfolding writeModule_def
    by (rule valid_bind) (auto intro!: valid_basic(1))
qed

text \<open>The arguments of \<open>writeModule\<close> that its callers see to.\<close>

definition write_args :: "bam_env \<Rightarrow> string \<Rightarrow> bamFile list \<Rightarrow> string \<Rightarrow> string \<Rightarrow> string \<Rightarrow> bam_tabs \<Rightarrow> bool" where
  "write_args e name files scm branch commit t \<longleftrightarrow>
     isOk (checkBamName name) \<and> files \<noteq> [] \<and> (\<forall>f\<in>set files. proto_path (fst f)) \<and>
     (scm = [] \<longrightarrow> branch = [] \<and> commit = [] \<and> (\<forall>m\<in>set (bt_modules t). coll e (bm_Name m) = coll e name \<longrightarrow> bm_ScmName m = []))"

lemma version_keys_simps:
  "version_keys [] = {}" "version_keys (ms @ [m]) = version_keys ms \<union> {(bm_ID m, v) | v. 1 \<le> v \<and> v \<le> bm_Version m}"
  by (auto simp: version_keys_def)

lemma version_keys_upd:
  assumes "m \<in> set ms" and "distinct (map bm_ID ms)" and "1 \<le> bm_Version m"
    and "\<forall>x. bm_ID (f x) = bm_ID x \<and> bm_Version (f x) = bm_Version m + 1"
  shows "version_keys (map (\<lambda>x. if bm_ID x = bm_ID m then f x else x) ms) = insert (bm_ID m, bm_Version m + 1) (version_keys ms)"
proof -
  have u: "x = m" if "x \<in> set ms" "bm_ID x = bm_ID m" for x
    using assms(1,2) that by (metis distinct_map inj_on_def)
  show ?thesis
  proof (intro subset_antisym subsetI)
    fix k assume "k \<in> version_keys (map (\<lambda>x. if bm_ID x = bm_ID m then f x else x) ms)"
    then obtain x v where x: "x \<in> set ms" "k = (bm_ID x, v)" "1 \<le> v" "v \<le> bm_Version (if bm_ID x = bm_ID m then f x else x)"
      using assms(4) by (auto simp: version_keys_def split: if_splits)
    show "k \<in> insert (bm_ID m, bm_Version m + 1) (version_keys ms)"
    proof (cases "bm_ID x = bm_ID m")
      case True
      then have "x = m" using u x(1) by blast
      then show ?thesis using x assms(4) True by (cases "v = bm_Version m + 1") (auto simp: version_keys_def)
    qed (use x in \<open>auto simp: version_keys_def\<close>)
  next
    fix k assume "k \<in> insert (bm_ID m, bm_Version m + 1) (version_keys ms)"
    then obtain x v where x: "x \<in> set ms" "k = (bm_ID x, v)" "1 \<le> v" "v \<le> bm_Version x \<or> (x = m \<and> v = bm_Version m + 1)"
      using assms(1,3) by (auto simp: version_keys_def)
    let ?g = "\<lambda>x. if bm_ID x = bm_ID m then f x else x"
    have "bm_ID (?g x) = bm_ID x" "v \<le> bm_Version (?g x)" using x assms(4) u [of x] by auto
    moreover have "?g x \<in> set (map ?g ms)" unfolding set_map by (rule imageI) (rule x(1))
    ultimately show "k \<in> version_keys (map ?g ms)"
      unfolding version_keys_def using x(2,3) by blast
  qed
qed

lemma module_written_keys:
  assumes "bam_inv (coll e) t" and "module_written e name scm branch commit t i ver t1"
  shows "version_keys (bt_modules t1) = insert (i, ver) (version_keys (bt_modules t))" and "(i, ver) \<notin> version_keys (bt_modules t)"
proof -
  have ok: "\<And>m. m \<in> set (bt_modules t) \<Longrightarrow> module_ok (bt_revs t) (bt_next t) m" and d: "distinct (map bm_ID (bt_modules t))"
    using assms(1) by (auto simp: bam_inv_def)
  consider (new) m where "bt_modules t1 = bt_modules t @ [m]" "i = bt_next t" "ver = 1" "bm_ID m = i" "bm_Version m = 1"
    | (upd) m f where "m \<in> set (bt_modules t)" "bt_modules t1 = map (\<lambda>x. if bm_ID x = i then f x else x) (bt_modules t)"
        "i = bm_ID m" "ver = bm_Version m + 1" "\<forall>x. bm_ID (f x) = bm_ID x \<and> bm_Version (f x) = bm_Version m + 1"
    using assms(2) by (auto simp: module_written_def)
  then have "version_keys (bt_modules t1) = insert (i, ver) (version_keys (bt_modules t)) \<and> (i, ver) \<notin> version_keys (bt_modules t)"
  proof cases
    case new
    have "{(bm_ID m, v) | v. 1 \<le> v \<and> v \<le> bm_Version m} = {(i, ver)}" using new by auto
    then show ?thesis using new ok by (force simp: version_keys_simps version_keys_def module_ok_def)
  next
    case upd
    have "(i, ver) \<notin> version_keys (bt_modules t)"
      using upd(1,3,4) d by (auto simp: version_keys_def distinct_map inj_on_def)
    then show ?thesis using version_keys_upd [OF upd(1) d _ upd(5)] ok [OF upd(1)] upd(2-4) by (simp add: module_ok_def)
  qed
  then show "version_keys (bt_modules t1) = insert (i, ver) (version_keys (bt_modules t))" "(i, ver) \<notin> version_keys (bt_modules t)" by auto
qed

lemma rev_mono: "module_ok revs n m \<Longrightarrow> set revs \<subseteq> set revs' \<Longrightarrow> n \<le> n' \<Longrightarrow> module_ok revs' n' m"
  unfolding module_ok_def by (auto 0 3)

lemma module_written_rows:
  assumes inv: "bam_inv (coll e) t" and w: "module_written e name scm branch commit t i ver t1" and a: "write_args e name files scm branch commit t"
    and r: "rev_ver r = (i, ver)" "rv_Branch r = branch" "rv_Commit r = commit"
  shows "distinct (map bm_ID (bt_modules t1)) \<and> distinct (map (\<lambda>m. coll e (bm_Name m)) (bt_modules t1)) \<and>
    (\<forall>m\<in>set (bt_modules t1). module_ok (bt_revs t @ [r]) (bt_next t1) m) \<and>
    (\<forall>m\<in>set (bt_modules t). \<exists>m'\<in>set (bt_modules t1). bm_ID m' = bm_ID m \<and> bm_Name m' = bm_Name m \<and> bm_Version m \<le> bm_Version m')"
proof -
  have ok: "\<And>m n'. m \<in> set (bt_modules t) \<Longrightarrow> bt_next t \<le> n' \<Longrightarrow> module_ok (bt_revs t @ [r]) n' m"
    using inv rev_mono [of "bt_revs t" "bt_next t" _ "bt_revs t @ [r]"] by (auto simp: bam_inv_def)
  have ids: "\<And>m. m \<in> set (bt_modules t) \<Longrightarrow> bm_ID m < bt_next t"
    and d: "distinct (map bm_ID (bt_modules t))" and dn: "distinct (map (\<lambda>m. coll e (bm_Name m)) (bt_modules t))"
    using inv by (auto simp: bam_inv_def module_ok_def)
  consider (new) m where "bt_modules t1 = bt_modules t @ [m]" "bt_next t1 = bt_next t + 1" "i = bt_next t" "ver = 1"
      "\<forall>x\<in>set (bt_modules t). coll e (bm_Name x) \<noteq> coll e name"
      "bm_ID m = i" "bm_Name m = name" "bm_Version m = 1" "bm_ScmName m = scm" "bm_Branch m = branch" "bm_Commit m = commit"
    | (upd) m f where "m \<in> set (bt_modules t)" "coll e (bm_Name m) = coll e name"
        "bt_modules t1 = map (\<lambda>x. if bm_ID x = i then f x else x) (bt_modules t)" "bt_next t1 = bt_next t"
        "i = bm_ID m" "ver = bm_Version m + 1" "ver < 2 ^ 31" "\<forall>x. bm_ID (f x) = bm_ID x \<and> bm_Name (f x) = bm_Name x \<and> bm_Version (f x) = ver"
        "if scm \<noteq> [] then \<forall>x. bm_ScmName (f x) = scm \<and> bm_Branch (f x) = branch \<and> bm_Commit (f x) = commit
          else \<forall>x. bm_ScmName (f x) = bm_ScmName x \<and> bm_Branch (f x) = bm_Branch x \<and> bm_Commit (f x) = bm_Commit x"
    using w unfolding module_written_def by blast
  then show ?thesis
  proof cases
    case new
    have "module_ok (bt_revs t @ [r]) (bt_next t1) m"
      using new a r by (auto simp: module_ok_def write_args_def)
    then show ?thesis using new ok ids d dn by (fastforce simp: image_iff)
  next
    case upd
    let ?g = "\<lambda>x. if bm_ID x = i then f x else x"
    have g: "bm_ID (?g x) = bm_ID x" "bm_Name (?g x) = bm_Name x" for x using upd(8) by auto
    have u: "x = m" if "x \<in> set (bt_modules t)" "bm_ID x = i" for x
      using d upd(1,5) that by (metis distinct_map inj_on_def)
    have "bm_ID \<circ> ?g = bm_ID" "(\<lambda>m. coll e (bm_Name m)) \<circ> ?g = (\<lambda>m. coll e (bm_Name m))"
      using g by (auto simp: fun_eq_iff)
    then have d': "distinct (map bm_ID (bt_modules t1))" "distinct (map (\<lambda>m. coll e (bm_Name m)) (bt_modules t1))"
      using d dn by (simp_all only: upd(3) map_map)
    have mok: "module_ok (bt_revs t @ [r]) (bt_next t1) m" using ok [OF upd(1)] upd(4) by simp
    have "module_ok (bt_revs t @ [r]) (bt_next t1) (f m)"
    proof (cases "scm = []")
      case True
      then have "branch = []" "commit = []" "bm_ScmName m = []" using a upd(1,2) by (auto simp: write_args_def)
      then show ?thesis using mok upd(5-9) r True by (auto simp: module_ok_def)
    qed (use mok upd(5-9) r in \<open>auto simp: module_ok_def\<close>)
    then have "\<forall>x\<in>set (bt_modules t1). module_ok (bt_revs t @ [r]) (bt_next t1) x"
      using ok u upd(3,4) by auto
    moreover have "\<exists>m'\<in>set (bt_modules t1). bm_ID m' = bm_ID x \<and> bm_Name m' = bm_Name x \<and> bm_Version x \<le> bm_Version m'"
      if "x \<in> set (bt_modules t)" for x
      using that g [of x] u [of x] upd(3,6,8) by (intro bexI [of _ "?g x"]) auto
    ultimately show ?thesis using d' by blast
  qed
qed

lemma wrote_inv:
  assumes inv: "bam_inv (coll e) t" and w: "wrote e name files scm branch commit t i ver t'" and a: "write_args e name files scm branch commit t"
  shows "bam_inv (coll e) t'" and "later t t'"
proof -
  obtain t1 r where t1: "module_written e name scm branch commit t i ver t1"
    and t': "t' = t1\<lparr>bt_files := bt_files t @ map (new_row i ver) files, bt_revs := bt_revs t @ [r]\<rparr>"
    and r: "rev_ver r = (i, ver)" "rv_Branch r = branch" "rv_Commit r = commit"
    and d: "distinct (map (\<lambda>f. coll e (fst f)) files)"
    using w unfolding wrote_def by blast
  note keys = module_written_keys [OF inv t1]
  note rows = module_written_rows [OF inv t1 a r]
  have g: "bt_gens t1 = bt_gens t" using t1 by (simp add: module_written_def)
  have old: "rev_ver ` set (bt_revs t) = version_keys (bt_modules t)" "file_ver ` set (bt_files t) = version_keys (bt_modules t)"
    using inv by (simp_all add: bam_inv_def)
  then have fresh: "(i, ver) \<notin> rev_ver ` set (bt_revs t)" "(i, ver) \<notin> file_ver ` set (bt_files t)" using keys(2) by simp_all
  have nf: "file_ver ` set (map (new_row i ver) files) = {(i, ver)}"
    using a by (cases files) (auto simp: write_args_def new_row_def file_ver_def)
  have "distinct (map (\<lambda>r. (file_ver r, coll e (bf_Path r))) (map (new_row i ver) files))"
    using d by (simp add: comp_def new_row_def file_ver_def distinct_map inj_on_def)
  then have df: "distinct (map (\<lambda>r. (file_ver r, coll e (bf_Path r))) (bt_files t @ map (new_row i ver) files))"
  proof -
    assume dn: "distinct (map (\<lambda>r. (file_ver r, coll e (bf_Path r))) (map (new_row i ver) files))"
    have "distinct (map (\<lambda>r. (file_ver r, coll e (bf_Path r))) (bt_files t))" using inv by (simp add: bam_inv_def)
    moreover have "\<forall>y\<in>set (map (new_row i ver) files). file_ver y = (i, ver)" by (simp add: new_row_def file_ver_def)
    then have "(\<lambda>r. (file_ver r, coll e (bf_Path r))) ` set (bt_files t) \<inter>
        (\<lambda>r. (file_ver r, coll e (bf_Path r))) ` set (map (new_row i ver) files) = {}"
      using fresh(2) by (auto simp: image_iff)
    ultimately show ?thesis using dn by (simp only: map_append distinct_append set_map simp_thms)
  qed
  have pp: "\<forall>r\<in>set (map (new_row i ver) files). proto_path (bf_Path r)" using a by (auto simp: write_args_def new_row_def)
  have dr: "distinct (map rev_ver (bt_revs t @ [r]))" "rev_ver ` set (bt_revs t @ [r]) = version_keys (bt_modules t1)"
    using inv fresh(1) r(1) keys(1) old(1) by (simp_all add: bam_inv_def)
  have df': "file_ver ` set (bt_files t @ map (new_row i ver) files) = version_keys (bt_modules t1)"
    unfolding set_append image_Un nf old(2) keys(1) by simp
  have dg: "gen_ver ` set (bt_gens t) \<subseteq> version_keys (bt_modules t1)"
    using inv keys(1) by (auto simp: bam_inv_def)
  have sel: "bt_modules t' = bt_modules t1" "bt_next t' = bt_next t1" "bt_files t' = bt_files t @ map (new_row i ver) files"
    "bt_revs t' = bt_revs t @ [r]" "bt_gens t' = bt_gens t" using g by (simp_all add: t')
  have rest: "\<forall>r\<in>set (bt_files t @ map (new_row i ver) files). proto_path (bf_Path r)" "distinct (map gen_ver (bt_gens t))"
    "\<forall>g\<in>set (bt_gens t). bg_Status g = ''ok'' \<or> bg_Status g = ''fail''"
    using inv pp by (auto simp: bam_inv_def)
  show "bam_inv (coll e) t'"
    unfolding bam_inv_def sel using rows dr df df' dg rest by (elim conjE, intro conjI) assumption+
  have "filter (\<lambda>r. file_ver r = k) (map (new_row i ver) files) = []" if "k \<noteq> (i, ver)" for k
    using that by (auto simp: filter_empty_conv new_row_def file_ver_def)
  moreover have "(i, ver) \<noteq> k \<and> k \<noteq> (i, ver)" if "k \<in> version_keys (bt_modules t)" for k using that keys(2) by blast
  ultimately have "\<forall>k\<in>version_keys (bt_modules t). filter (\<lambda>r. file_ver r = k) (bt_files t @ map (new_row i ver) files) = filter (\<lambda>r. file_ver r = k) (bt_files t) \<and>
      filter (\<lambda>r. rev_ver r = k) (bt_revs t @ [r]) = filter (\<lambda>r. rev_ver r = k) (bt_revs t)"
    using r(1) by simp
  then show "later t t'"
    unfolding later_def sel using rows by blast
qed

text \<open>Calls are judged against the tables at some earlier time.\<close>

definition since :: "(string \<Rightarrow> string) \<Rightarrow> bam_tabs \<Rightarrow> bam_tabs \<Rightarrow> bool" where
  "since c t0 t \<longleftrightarrow> bam_inv c t \<and> later t0 t"

abbreviation keepsB :: "(string \<Rightarrow> string) \<Rightarrow> bam_tabs \<Rightarrow> (bam_tabs, 'e, 'a) dbm \<Rightarrow> bool" where
  "keepsB c t0 m \<equiv> validS (since c t0) m (\<lambda>_. since c t0) (since c t0)"

lemma writeModule_keeps:
  "validS (\<lambda>t. since (coll e) t0 t \<and> write_args e name files scm branch commit t)
     (writeModule e name files scm branch dir commit) (\<lambda>_. since (coll e) t0) (since (coll e) t0)"
proof (rule valid_at)
  fix t1 assume t1: "since (coll e) t0 t1 \<and> write_args e name files scm branch commit t1"
  show "validS (\<lambda>t. t = t1) (writeModule e name files scm branch dir commit) (\<lambda>_. since (coll e) t0) (since (coll e) t0)"
    by (rule valid_weaken [OF writeModule_wrote]) (use t1 wrote_inv [of e t1] later_trans in \<open>auto simp: since_def\<close>)
qed

section \<open>Calls keep the versions\<close>

lemma since_trans: "since c t0 t1 \<Longrightarrow> since c t1 t2 \<Longrightarrow> since c t0 t2"
  unfolding since_def using later_trans by blast

lemma since_start: "since c t0 t \<Longrightarrow> since c t t" by (simp add: since_def later_refl)

lemma since_frame:
  "since c t0 t \<Longrightarrow> bt_modules t' = bt_modules t \<Longrightarrow> bt_next t' = bt_next t \<Longrightarrow> bt_files t' = bt_files t \<Longrightarrow> bt_revs t' = bt_revs t \<Longrightarrow>
   bt_gens t' = bt_gens t \<Longrightarrow> since c t0 t'"
  by (simp add: since_def bam_inv_def later_def)

lemma since_key: "since c t0 t \<Longrightarrow> k \<in> version_keys (bt_modules t0) \<Longrightarrow> k \<in> version_keys (bt_modules t)"
  unfolding since_def using later_keys by blast

text \<open>From here on, the tables of this moment are the earlier ones.\<close>

lemma keeps_from: "(\<And>t1. since c t0 t1 \<Longrightarrow> keepsB c t1 m) \<Longrightarrow> keepsB c t0 m"
proof (rule valid_at)
  fix t1 assume k: "\<And>t1. since c t0 t1 \<Longrightarrow> keepsB c t1 m" and t1: "since c t0 t1"
  show "validS (\<lambda>t. t = t1) m (\<lambda>_. since c t0) (since c t0)"
    by (rule valid_weaken [OF k [OF t1]]) (use t1 since_start since_trans in blast)+
qed

lemma reads_keeps: "reads m \<Longrightarrow> validS P m (\<lambda>_. P) P" by (rule valid_reads)

lemma reads_onBam [intro]: "reads m \<Longrightarrow> reads (onBam m)" by (auto simp: onBam_def)
lemma reads_checkB [intro]: "reads (checkB r)" by (auto simp: checkB_def)
lemma reads_rowOr [intro]: "reads (rowOr f x)" by (auto simp: rowOr_def)
lemma reads_opt_row [intro]: "reads (opt_row f)" by (auto simp: opt_row_def)

lemma reads_onJobs [intro]:
  assumes "reads m"
  shows "reads (onJobs m)"
  unfolding reads_def
proof
  fix s :: "bam_tabs db"
  let ?s = "\<lparr>db_tab = bt_ops (db_tab s), db_faults = db_faults s\<rparr>"
  have "db_tab (snd (m ?s)) = bt_ops (db_tab s)" using assms by (simp add: reads_def)
  then show "db_tab (snd (onJobs m s)) = db_tab s" by (cases "m ?s") (simp add: onJobs_def)
qed

lemma reads_getJob [intro]: "reads (getJob e n)" by (auto simp: getJob_def)

lemma reads_getBamModule [intro]: "reads (getBamModule e n)" by (auto simp: getBamModule_def)

lemma reads_at_version [intro]: "reads (at_version n m v)" by (auto simp: at_version_def)

lemma reads_detail [intro]: "reads (detail e m)"
  unfolding detail_def Let_def by (intro reads_bindS) (auto split: prod.split)

lemma reads_loadBam [intro]: "reads (loadBam e n v)" by (auto simp: loadBam_def)

lemma reads_syncBamRepo [intro]: "reads (syncBamRepo e s b)"
  unfolding syncBamRepo_def Let_def by (intro reads_catchS reads_bindS) (auto split: prod.split sum.split)

lemma valid_lift: "validS P (liftS r) (\<lambda>_. P) P"
  by (rule valid_basic(3))

lemma checkB_valid: "validS P (checkB r) (\<lambda>x t. P t \<and> r = Inr x) P"
  unfolding checkB_def by (rule valid_basic(3)) (auto simp: lift_err_def split: sum.splits)

lemma getBamModule_valid:
  "validS P (getBamModule e name) (\<lambda>m t. P t \<and> isOk (checkBamName name) \<and> m \<in> set (bt_modules t) \<and> coll e (bm_Name m) = coll e name) P"
proof -
  have r: "validS (\<lambda>t. P t \<and> isOk (checkBamName name)) (rowOr (\<lambda>t. filter (\<lambda>m. sameB e (bm_Name m) name) (bt_modules t)) x)
      (\<lambda>m t. P t \<and> isOk (checkBamName name) \<and> m \<in> set (bt_modules t) \<and> coll e (bm_Name m) = coll e name) P" for x
    unfolding rowOr_def by (intro valid_orElse valid_queryRow) (auto simp: sameB_iff)
  show ?thesis unfolding getBamModule_def
    by (rule valid_bind [OF valid_weaken [OF checkB_valid [of P]] r]) (auto simp: isOk_def)
qed

definition loaded :: "bam_env \<Rightarrow> string \<Rightarrow> bamDetail \<Rightarrow> bam_tabs \<Rightarrow> bool" where
  "loaded e name d t \<longleftrightarrow> isOk (checkBamName name) \<and>
     (\<exists>m\<in>set (bt_modules t). coll e (bm_Name m) = coll e name \<and> bm_ID m = bm_ID (dt_Module d) \<and> bm_Version m = bm_Version (dt_Module d) \<and>
        bm_Name (dt_Module d) = bm_Name m \<and> bm_ScmName (dt_Module d) = bm_ScmName m \<and> bm_ProtoDir (dt_Module d) = bm_ProtoDir m)"

definition detail_of :: "bam_env \<Rightarrow> bamModule \<Rightarrow> bam_tabs \<Rightarrow> bamDetail \<Rightarrow> bool" where
  "detail_of e m t d \<longleftrightarrow>
     (\<exists>r h. dt_Module d = m\<lparr>bm_Rpcs := r, bm_HttpApis := h\<rparr>) \<and> dt_Files d = files_of e (bm_ID m) (bm_Version m) t \<and>
     dt_Rpcs d = fst (compile_files e (dt_Files d)) \<and> dt_ParseError d = snd (snd (compile_files e (dt_Files d)))"

lemma detail_valid: "validS P (detail e m) (\<lambda>d t. P t \<and> detail_of e m t d) P"
proof -
  let ?P = "\<lambda>files t. P t \<and> files = files_of e (bm_ID m) (bm_Version m) t"
  have keep: "validS (?P files) n (\<lambda>_. ?P files) P" if "reads n" for files and n :: "'x bdb"
    by (rule valid_weaken [OF valid_reads [OF that, of "?P files"]]) auto
  have fin: "validS (?P files)
     (case compile_files e files of (rpcs, http, err) \<Rightarrow>
       bindS (opt_row f) (\<lambda>gen. bindS (onBam (query g)) (\<lambda>vers.
       retS \<lparr>dt_Module = m\<lparr>bm_Rpcs := fst (api_counts e files), bm_HttpApis := snd (api_counts e files)\<rparr>, dt_Files = files, dt_Rpcs = rpcs,
         dt_ParseError = err, dt_GenStatus = st gen, dt_GenDir = dir gen, dt_Versions = vers\<rparr>)))
     (\<lambda>d t. P t \<and> detail_of e m t d) P" for files f g st dir
  proof -
    obtain rpcs http err where c: "compile_files e files = (rpcs, http, err)" by (cases "compile_files e files") auto
    show ?thesis unfolding c prod.case
      by (rule valid_bind [OF keep], blast, rule valid_bind [OF keep], blast, rule valid_basic(1))
        (use c in \<open>auto simp: detail_of_def\<close>)
  qed
  show ?thesis unfolding detail_def Let_def
    by (rule valid_bind [where R = ?P], rule valid_onBam, rule valid_query)
      (simp_all add: fin)
qed

lemma loadBam_detail:
  "validS P (loadBam e name 0)
     (\<lambda>d t. P t \<and> isOk (checkBamName name) \<and> (\<exists>m\<in>set (bt_modules t). coll e (bm_Name m) = coll e name \<and> detail_of e m t d)) P"
proof -
  let ?P = "\<lambda>m t. P t \<and> isOk (checkBamName name) \<and> m \<in> set (bt_modules t) \<and> coll e (bm_Name m) = coll e name"
  let ?Q = "\<lambda>d t. P t \<and> isOk (checkBamName name) \<and> (\<exists>m\<in>set (bt_modules t). coll e (bm_Name m) = coll e name \<and> detail_of e m t d)"
  have d: "validS (?P m) (detail e m) ?Q P" for m
    by (rule valid_weaken [OF detail_valid [of "?P m"]]) auto
  have v: "validS (?P m) (at_version name m (if (0::int) \<le> 0 then bm_Version m else 0)) (\<lambda>m1 t. m1 = m \<and> ?P m t) P" for m
    by (simp add: at_version_def) (rule valid_basic(1), simp)
  have d': "validS (\<lambda>t. m1 = m \<and> ?P m t) (detail e m1) ?Q P" for m m1
    using d [of m] by (auto simp: validS_def)
  show ?thesis unfolding loadBam_def
    by (rule valid_bind [OF getBamModule_valid], rule valid_bind [OF v d'])
qed

lemma loadBam_loaded: "validS P (loadBam e name 0) (\<lambda>d t. P t \<and> loaded e name d t) P"
  by (rule valid_weaken [OF loadBam_detail [of P]]) (auto simp: loaded_def detail_of_def)

lemma load_keeps:
  assumes "\<And>t1 d. since c t0 t1 \<Longrightarrow> loaded e name d t1 \<Longrightarrow> keepsB c t1 (f d)"
  shows "keepsB c t0 (bindS (loadBam e name 0) f)"
proof (rule valid_bind [OF loadBam_loaded], rule valid_at)
  fix d t1 assume t1: "since c t0 t1 \<and> loaded e name d t1"
  show "validS (\<lambda>t. t = t1) (f d) (\<lambda>_. since c t0) (since c t0)"
    by (rule valid_weaken [OF assms [of t1 d]]) (use t1 since_start since_trans in blast)+
qed

lemma bam_files_loop_ok: "bam_files_loop seen fs = Inr out \<Longrightarrow> length out = length fs \<and> (\<forall>f\<in>set out. proto_path (fst f) \<and> fst f \<notin> set seen)"
proof (induction fs arbitrary: seen out)
  case (Cons f fs)
  obtain path content where f: "f = (path, content)" by (cases f)
  let ?p = "trim_prefix (trim_space path) ''/''"
  obtain r where r: "proto_path ?p" "?p \<notin> set seen" "bam_files_loop (?p # seen) fs = Inr r" "out = (?p, content) # r"
    using Cons.prems by (auto simp: f Let_def proto_path_def bindR_eq_Inr split: if_splits)
  then show ?case using Cons.IH [OF r(3)] by auto
qed simp

lemma checkBamFiles_ok: "checkBamFiles files = Inr out \<Longrightarrow> out \<noteq> [] \<and> (\<forall>f\<in>set out. proto_path (fst f))"
  using bam_files_loop_ok by (fastforce simp: checkBamFiles_def split: if_splits)

lemma collectBamFiles_ok: "collectBamFiles stat walk repo dir = Inr out \<Longrightarrow> out \<noteq> [] \<and> (\<forall>f\<in>set out. proto_path (fst f))"
  using checkBamFiles_ok by (auto simp: collectBamFiles_def bindR_eq_Inr Let_def split: if_splits)

text \<open>The disk, the references of branches and the tables of ops.go do not matter for the versions.\<close>

lemma doFs_keeps: "keepsB c t0 (doFs e op)"
  unfolding doFs_def validS_def by (auto split: option.split intro: since_frame)

lemma copy_loop_keeps: "keepsB c t0 (copy_loop e src dst ws)"
proof (induction ws)
  case (Cons w ws)
  have one: "keepsB c t0 (if we_Dir w then doFs e (MkdirAll to)
       else bindS (liftS (we_Read w)) (\<lambda>b. bindS (doFs e (MkdirAll (path_Dir to))) (\<lambda>_. doFs e (WriteFile to b))))" for to
    by (cases "we_Dir w") (simp_all add: doFs_keeps valid_bind [OF valid_lift] valid_bind [OF doFs_keeps])
  show ?case
    by (auto simp: Let_def intro!: valid_fail valid_bind [OF valid_lift] valid_bind [OF one] Cons split: option.split)
qed (auto intro: valid_ret)

lemma write_protos_keeps: "keepsB c t0 (write_protos e dir fs)"
  by (induction fs) (auto simp: Let_def intro!: valid_ret valid_bind doFs_keeps)

lemma onFs_keeps: "keepsB c t0 m \<Longrightarrow> keepsB c t0 (onFs m)"
  unfolding onFs_def by (rule valid_orElse)

lemma put_sources_keeps: "keepsB c t0 (put_sources e d repo dir)"
  unfolding put_sources_def Let_def copyTree_def
  by (auto intro!: valid_bind [OF copy_loop_keeps] valid_bind [OF write_protos_keeps] valid_ret)

lemma copyGoogleAPI_keeps: "keepsB c t0 (copyGoogleAPI e dir)"
  unfolding copyGoogleAPI_def Let_def copyTree_def by (auto intro!: copy_loop_keeps valid_fail)

lemma run_buf_keeps: "keepsB c t0 (run_buf e p)"
  unfolding run_buf_def Let_def by (rule valid_catch [OF valid_bind [OF doFs_keeps]]) (auto intro!: valid_ret)

lemma keep_artifact_keeps: "keepsB c t0 (keep_artifact e art out)"
proof -
  have i: "keepsB c t0 (ignoreS (doFs e (RemoveAll art)) :: (bam_tabs, bam_err api_err, unit) dbm)"
    by (rule valid_ignore [OF doFs_keeps])
  have t: "keepsB c t0 (catchS (bindS (copyTree e a b) (\<lambda>_. retS x)) (\<lambda>y. retS (g y)))" for a b x g
    unfolding copyTree_def by (rule valid_catch [OF valid_bind [OF copy_loop_keeps]]) (auto intro!: valid_ret)
  show ?thesis unfolding keep_artifact_def
    by (cases out) (auto intro!: valid_bind [OF i] valid_bind [OF onFs_keeps [OF doFs_keeps]] valid_ret t)
qed

lemma upd_gen_inv:
  assumes "distinct (map gen_ver gs)" and "gen_ver row = k"
  shows "distinct (map gen_ver (map (\<lambda>g. if gen_ver g = k then row else g) gs))"
    and "gen_ver ` set (map (\<lambda>g. if gen_ver g = k then row else g) gs) = gen_ver ` set gs"
proof -
  have m: "map gen_ver (map (\<lambda>g. if gen_ver g = k then row else g) gs) = map gen_ver gs" using assms(2) by auto
  show "distinct (map gen_ver (map (\<lambda>g. if gen_ver g = k then row else g) gs))" unfolding m by (rule assms(1))
  show "gen_ver ` set (map (\<lambda>g. if gen_ver g = k then row else g) gs) = gen_ver ` set gs"
    using arg_cong [OF m, of set] by (simp only: set_map)
qed

lemma ins_gen_keeps:
  assumes "(i, ver) \<in> version_keys (bt_modules t0)" and "status = ''ok'' \<or> status = ''fail''"
  shows "keepsB c t0 (ins_gen i ver status log dir)"
  unfolding ins_gen_def
proof (rule valid_stmt)
  fix t x t'
  let ?row = "\<lparr>bg_Module = i, bg_Version = ver, bg_Status = status, bg_Log = log, bg_Dir = dir\<rparr>"
  let ?f = "\<lambda>g. if bg_Module g = i \<and> bg_Version g = ver then ?row else g"
  assume t: "since c t0 t" and r: "(if \<not> mediumtext log \<or> \<not> col 512 dir then Inl DataTooLong
     else let row = ?row in
       if list_ex (\<lambda>g. bg_Module g = i \<and> bg_Version g = ver) (bt_gens t)
       then Inr ((), t\<lparr>bt_gens := map (\<lambda>g. if bg_Module g = i \<and> bg_Version g = ver then row else g) (bt_gens t)\<rparr>)
       else Inr ((), t\<lparr>bt_gens := bt_gens t @ [row]\<rparr>)) = Inr (x, t')"
  have k: "(i, ver) \<in> version_keys (bt_modules t)" by (rule since_key [OF t assms(1)])
  have g: "distinct (map gen_ver (bt_gens t))" "gen_ver ` set (bt_gens t) \<subseteq> version_keys (bt_modules t)"
    "\<forall>g\<in>set (bt_gens t). bg_Status g = ''ok'' \<or> bg_Status g = ''fail''"
    using t by (auto simp: since_def bam_inv_def)
  have row: "gen_ver ?row = (i, ver)" by (simp add: gen_ver_def)
  have f: "?f = (\<lambda>g. if gen_ver g = (i, ver) then ?row else g)" by (auto simp: gen_ver_def fun_eq_iff)
  consider "(i, ver) \<notin> gen_ver ` set (bt_gens t)" "t' = t\<lparr>bt_gens := bt_gens t @ [?row]\<rparr>"
    | "t' = t\<lparr>bt_gens := map ?f (bt_gens t)\<rparr>"
  proof (cases "list_ex (\<lambda>g. bg_Module g = i \<and> bg_Version g = ver) (bt_gens t)")
    case True
    then show ?thesis using r that(2) by (simp add: Let_def split: if_splits)
  next
    case False
    then have "(i, ver) \<notin> gen_ver ` set (bt_gens t)" by (auto simp: list_ex_iff gen_ver_def)
    then show ?thesis using r that(1) False by (simp add: Let_def split: if_splits)
  qed
  then have "distinct (map gen_ver (bt_gens t')) \<and> gen_ver ` set (bt_gens t') \<subseteq> version_keys (bt_modules t) \<and>
     (\<forall>g\<in>set (bt_gens t'). bg_Status g = ''ok'' \<or> bg_Status g = ''fail'') \<and> t' = t\<lparr>bt_gens := bt_gens t'\<rparr>"
  proof cases
    case 1
    then show ?thesis using g k row assms(2) by simp
  next
    case 2
    have "bg_Status (?f g) = ''ok'' \<or> bg_Status (?f g) = ''fail''" if "g \<in> set (bt_gens t)" for g
      using g(3) assms(2) that by auto
    then have "\<forall>h\<in>set (map ?f (bt_gens t)). bg_Status h = ''ok'' \<or> bg_Status h = ''fail''" unfolding set_map by blast
    then show ?thesis unfolding 2 using upd_gen_inv [OF g(1) row] g(2) unfolding f by simp
  qed
  then obtain gs where gs: "distinct (map gen_ver gs)" "gen_ver ` set gs \<subseteq> version_keys (bt_modules t)"
     "\<forall>g\<in>set gs. bg_Status g = ''ok'' \<or> bg_Status g = ''fail''" "t' = t\<lparr>bt_gens := gs\<rparr>" by blast
  show "since c t0 t'" using t gs by (simp add: since_def bam_inv_def later_def)
qed simp

lemma gen_in_keeps:
  assumes "(bm_ID (dt_Module d), bm_Version (dt_Module d)) \<in> version_keys (bt_modules t0)"
  shows "keepsB c t0 (gen_in e d repo)"
  unfolding gen_in_def Let_def
  by (intro valid_bind [OF onFs_keeps] valid_bind [OF keep_artifact_keeps] valid_bind [OF valid_onBam [OF ins_gen_keeps [OF assms]]] valid_case_prod)
    (auto intro!: doFs_keeps put_sources_keeps copyGoogleAPI_keeps run_buf_keeps valid_ret)

lemma runBamGen_keeps:
  assumes "(bm_ID (dt_Module d), bm_Version (dt_Module d)) \<in> version_keys (bt_modules t0)"
  shows "keepsB c t0 (runBamGen e d repo)"
proof -
  have w: "keepsB c t0 (removing_work e m)" if "keepsB c t0 m" for m :: "gen_response bdb"
    using that validS_snd [OF doFs_keeps [of c t0 e "RemoveAll (be_work e)"]]
    by (auto simp: validS_def removing_work_def split: prod.splits sum.splits)
  have n: "keepsB c t0 (need_tool e x)" for x
    unfolding need_tool_def by (rule reads_keeps) blast
  show ?thesis unfolding runBamGen_def
    by (intro valid_bind [OF n] valid_bind [OF onFs_keeps [OF doFs_keeps]] w gen_in_keeps assms)
qed

lemma loaded_key: "since c t0 t \<Longrightarrow> loaded e name d t \<Longrightarrow> (bm_ID (dt_Module d), bm_Version (dt_Module d)) \<in> version_keys (bt_modules t)"
proof -
  assume t: "since c t0 t" and "loaded e name d t"
  then obtain m where m: "m \<in> set (bt_modules t)" "bm_ID m = bm_ID (dt_Module d)" "bm_Version m = bm_Version (dt_Module d)"
    by (auto simp: loaded_def)
  have "1 \<le> bm_Version m" using t m(1) by (simp add: since_def bam_inv_def module_ok_def)
  then show ?thesis using m by (auto simp: version_keys_def)
qed

lemma gen_loaded_keeps:
  assumes "(bm_ID (dt_Module d), bm_Version (dt_Module d)) \<in> version_keys (bt_modules t0)"
  shows "keepsB c t0 (gen_loaded e d repo log)"
  unfolding gen_loaded_def
  by (intro valid_bind [OF reads_keeps [OF reads_checkB]] valid_bind [OF runBamGen_keeps [OF assms]] valid_ret)

lemma sync_write_keeps:
  assumes "isOk (checkBamName name)" and "scm \<noteq> []"
  shows "keepsB (coll e) t0
     (bindS (checkB (collectBamFiles stat walk repo dir)) (\<lambda>files.
      bindS (writeModule e name files scm br dir commit) (\<lambda>_.
      bindS (loadBam e name 0) (\<lambda>d1. gen_loaded e d1 repo log))))"
proof -
  have w: "validS (\<lambda>t. since (coll e) t0 t \<and> collectBamFiles stat walk repo dir = Inr files)
      (writeModule e name files scm br dir commit) (\<lambda>_. since (coll e) t0) (since (coll e) t0)" for files
    by (rule valid_weaken [OF writeModule_keeps [of e t0 name files scm br commit]])
      (use assms collectBamFiles_ok [of stat walk repo dir files] in \<open>auto simp: write_args_def\<close>)
  have l: "keepsB (coll e) t0 (bindS (loadBam e name 0) (\<lambda>d1. gen_loaded e d1 repo log))"
    by (rule load_keeps) (simp add: gen_loaded_keeps loaded_key)
  show ?thesis by (rule valid_bind [OF checkB_valid], rule valid_bind [OF w l])
qed

lemma syncAndGen_keeps: "keepsB (coll e) t0 (syncAndGen e name b)"
  unfolding syncAndGen_def Let_def
proof (rule load_keeps, rule valid_bind [OF reads_keeps [OF reads_checkB]], goal_cases)
  case (1 t1 d u)
  have n: "isOk (checkBamName name)" using 1(2) by (simp add: loaded_def)
  have k: "(bm_ID (dt_Module d), bm_Version (dt_Module d)) \<in> version_keys (bt_modules t1)" by (rule loaded_key [OF 1])
  show ?case
  proof (cases "bm_ScmName (dt_Module d) = []")
    case True
    then show ?thesis by (simp add: gen_loaded_keeps [OF k])
  next
    case False
    show ?thesis unfolding if_not_P [OF False]
      by (rule valid_bind [OF reads_keeps [OF reads_syncBamRepo]], rule valid_case_prod, rule valid_bind [OF reads_keeps [OF reads_checkB]])
        (auto intro!: valid_ret sync_write_keeps n False)
  qed
qed

lemma CreateBamModule_keeps: "keepsB (coll e) t0 (CreateBamModule e n s d b)"
proof -
  let ?n = "trim_space n" and ?s = "trim_space s"
  have k: "validS (\<lambda>t. since (coll e) t0 t \<and> A) m (\<lambda>_ t. since (coll e) t0 t \<and> A) (since (coll e) t0)" if "reads m" for m :: "'x bdb" and A
    by (rule valid_weaken [OF reads_keeps [OF that, of "\<lambda>t. since (coll e) t0 t \<and> A"]]) auto
  have c: "validS (\<lambda>t. since (coll e) t0 t \<and> A) (checkB r) (\<lambda>x t. since (coll e) t0 t \<and> A \<and> r = Inr x) (since (coll e) t0)" for r :: "bam_err + 'x" and A
    by (rule valid_weaken [OF checkB_valid [of "\<lambda>t. since (coll e) t0 t \<and> A"]]) auto
  have w: "validS (\<lambda>t. since (coll e) t0 t \<and> ((checkBamName ?n = Inr u \<and> guardR (?s \<noteq> []) ChooseRepo = Inr v)) \<and> collectBamFiles st wk repo dir = Inr files)
      (writeModule e ?n files ?s br dir' commit) (\<lambda>_. since (coll e) t0) (since (coll e) t0)" for u v st wk repo dir files br dir' commit
    by (rule valid_weaken [OF writeModule_keeps [of e t0 ?n files ?s br commit]])
      (use collectBamFiles_ok [of st wk repo dir files] in \<open>auto simp: write_args_def isOk_def guardR_def split: if_splits\<close>)
  have s: "since (coll e) t0 = (\<lambda>t. since (coll e) t0 t \<and> True)" by simp
  have c1: "validS (since (coll e) t0) (checkB r) (\<lambda>x t. since (coll e) t0 t \<and> r = Inr x) (since (coll e) t0)" for r :: "bam_err + 'x"
    by (rule checkB_valid)
  show ?thesis unfolding CreateBamModule_def Let_def
    by (rule valid_bind [OF c1], rule valid_bind [OF c], rule valid_bind [OF k], blast, rule valid_bind [OF k], blast, rule valid_bind [OF k], blast,
        rule valid_bind [OF k], blast, rule valid_bind [OF k], blast, rule valid_bind [OF k], blast, rule valid_bind [OF k], blast,
        rule valid_case_prod, rule valid_bind [OF k], blast, rule valid_bind [OF c], rule w)
qed

lemma SaveBamModule_keeps: "keepsB (coll e) t0 (SaveBamModule e n files0)"
proof -
  let ?n = "trim_space n" and ?I = "since (coll e) t0"
  let ?N = "checkBamName ?n" 
  have c: "validS (\<lambda>t. ?I t \<and> A) (checkB r) (\<lambda>x t. ?I t \<and> A \<and> r = Inr x) ?I" for r :: "bam_err + 'x" and A
    by (rule valid_weaken [OF checkB_valid [of "\<lambda>t. ?I t \<and> A"]]) auto
  let ?own = "\<lambda>scm t. \<forall>m\<in>set (bt_modules t). coll e (bm_Name m) = coll e ?n \<longrightarrow> bm_ScmName m = scm"
  have r: "validS (\<lambda>t. ?I t \<and> A) (rowOr (\<lambda>t. map bm_ScmName (filter (\<lambda>m. sameB e (bm_Name m) ?n) (bt_modules t))) x)
      (\<lambda>scm t. (?I t \<and> ?own scm t) \<and> A) ?I" for A x
    unfolding rowOr_def
  proof (rule valid_orElse, rule valid_queryRow)
    fix t scm assume t: "?I t \<and> A" and "scm \<in> set (map bm_ScmName (filter (\<lambda>m. sameB e (bm_Name m) ?n) (bt_modules t)))"
    then obtain m where m: "m \<in> set (bt_modules t)" "coll e (bm_Name m) = coll e ?n" "bm_ScmName m = scm" by (auto simp: sameB_iff)
    have inj: "inj_on (\<lambda>m. coll e (bm_Name m)) (set (bt_modules t))" using t by (simp add: since_def bam_inv_def distinct_map)
    have "x = m" if "x \<in> set (bt_modules t)" "coll e (bm_Name x) = coll e ?n" for x
      by (rule inj_onD [OF inj]) (use m that in auto)
    then have "?own scm t" using m(3) by blast
    then show "(?I t \<and> ?own scm t) \<and> A" using t by blast
  next
    fix t assume "?I t \<and> A"
    then show "?I t" by blast
  qed
  have g: "validS (\<lambda>t. (?I t \<and> ?own scm t) \<and> A) (checkB (guardR (scm = []) EditInRepo)) (\<lambda>_ t. ?I t \<and> ?own [] t \<and> A) ?I" for scm A
    by (rule valid_weaken [OF checkB_valid [of "\<lambda>t. (?I t \<and> ?own scm t) \<and> A"]]) (auto simp: guardR_def split: if_splits)
  have w: "validS (\<lambda>t. ?I t \<and> ?own [] t \<and> ?N = Inr u \<and> checkBamFiles files0 = Inr files) (writeModule e ?n files [] [] [] []) (\<lambda>_. ?I) ?I" for u files
    by (rule valid_weaken [OF writeModule_keeps [of e t0 ?n files "[]" "[]" "[]"]])
      (use checkBamFiles_ok [of files0 files] in \<open>auto simp: write_args_def isOk_def\<close>)
  show ?thesis unfolding SaveBamModule_def Let_def
    by (rule valid_bind [OF checkB_valid], rule valid_bind [OF c], rule valid_bind [OF r], rule valid_bind [OF g], rule valid_bind [OF w],
        rule reads_keeps) blast
qed

end
