(* ===== verification/BamRuns.thy ===== *)
theory BamRuns
  imports BamOk
begin

text \<open>
  Runs of the module store: seeds, requests, the watch and the hook of the repositories, next to the calls on
  the tables of ops.go. The properties of versions.
\<close>

section \<open>The watch\<close>

lemma seedBam_keeps: "keepsB (coll e) t0 (seedBam e file)"
proof -
  let ?I = "since (coll e) t0"
  have q: "validS ?I (onBam (query (\<lambda>t. length (bt_modules t)))) (\<lambda>n t. ?I t \<and> (n = 0 \<longrightarrow> bt_modules t = [])) ?I"
    by (rule valid_onBam, rule valid_query) auto
  have p: "isOk (checkBamName ''platform'')" "proto_path ''platform/v1/platform.proto''" by code_simp+
  have m: "validS (\<lambda>t. ?I t \<and> bt_modules t = []) (writeModule e ''platform'' [(''platform/v1/platform.proto'', src)] [] [] [] []) (\<lambda>_. ?I) ?I" for src
    by (rule valid_weaken [OF writeModule_keeps [of e t0 "''platform''" "[(''platform/v1/platform.proto'', src)]" "[]" "[]" "[]"]])
      (use p in \<open>auto simp: write_args_def\<close>)
  have w: "validS (\<lambda>t. ?I t \<and> bt_modules t = []) (bindS (writeModule e ''platform'' [(''platform/v1/platform.proto'', src)] [] [] [] []) (\<lambda>_. retS ())) (\<lambda>_. ?I) ?I" for src
    by (rule valid_bind [OF m valid_ret])
  show ?thesis unfolding seedBam_def
  proof (rule valid_bind [OF q])
    fix n :: nat
    show "validS (\<lambda>t. ?I t \<and> (n = 0 \<longrightarrow> bt_modules t = []))
       (if 0 < n then retS () else case file of None \<Rightarrow> retS ()
        | Some src \<Rightarrow> bindS (writeModule e ''platform'' [(''platform/v1/platform.proto'', src)] [] [] [] []) (\<lambda>_. retS ())) (\<lambda>_. ?I) ?I"
    proof (cases "n = 0")
      case True
      then show ?thesis using w by (cases "file") (auto intro: valid_basic(1))
    qed (auto intro: valid_basic(1))
  qed
qed

lemma gen_each_keeps: "keepsB (coll e) t0 (gen_each e branch ns ok)"
proof (induction ns arbitrary: ok)
  case (Cons n ns)
  have "keepsB (coll e) t0 (catchS (bindS (syncAndGen e n branch) (\<lambda>_. retS True)) (\<lambda>_. retS False) :: bool wdb)"
    by (rule valid_catch [OF valid_bind [OF syncAndGen_keeps valid_ret] valid_ret])
  then show ?case unfolding gen_each.simps by (rule valid_bind) (rule Cons)
qed (auto intro: valid_ret)

lemma ins_ref_keeps: "keepsB c t0 (ins_ref e b scm branch commit)"
  unfolding ins_ref_def by (rule valid_stmt) (auto split: if_splits elim!: since_frame)

lemma genScmBranch_keeps: "keepsB (coll e) t0 (genScmBranch e scm branch commit)"
proof -
  have r: "keepsB (coll e) t0 (onBam (query f))" for f :: "bam_tabs \<Rightarrow> 'x" by (rule reads_keeps) blast
  have "keepsB (coll e) t0 (if mods = [] then retS ()
     else bindS (gen_each e branch mods 0) (\<lambda>ok. if ok = 0 then failS x else onBam (ins_ref e True scm branch commit)))" for mods x
    by (auto intro!: valid_ret valid_bind [OF gen_each_keeps] valid_fail valid_onBam ins_ref_keeps)
  then show ?thesis unfolding genScmBranch_def by (rule valid_bind [OF r])
qed

lemma poll_branches_keeps: "keepsB (coll e) t0 (poll_branches e scm bs)"
proof (induction bs)
  case (Cons b bs)
  have r: "keepsB (coll e) t0 (opt_row f)" for f :: "bam_tabs \<Rightarrow> 'x list" by (rule reads_keeps) blast
  have o: "keepsB (coll e) t0 (case old of None \<Rightarrow> onBam (ins_ref e False scm x y)
     | Some c \<Rightarrow> if c = y then retS () else genScmBranch e scm x y)" for old x y
    by (auto intro!: valid_onBam ins_ref_keeps valid_ret genScmBranch_keeps split: option.split)
  show ?case using Cons by (auto intro!: valid_bind [OF r] valid_bind [OF o])
qed (auto intro: valid_ret)

lemma pollScm_keeps: "keepsB (coll e) t0 (pollScm e scm)"
proof -
  have j: "keepsB (coll e) t0 (orElse (onJobs (getJob e' scm)) f)" for e' and f :: "ops_err \<Rightarrow> bam_err api_err" by (rule reads_keeps) blast
  show ?thesis unfolding pollScm_def
    by (rule valid_bind [OF j]) (auto intro!: valid_fail poll_branches_keeps split: sum.split)
qed

lemma poll_each_keeps: "keepsB (coll e) t0 (poll_each e ns)"
  by (induction ns) (auto intro!: valid_ret valid_bind [OF valid_ignore [OF pollScm_keeps]])

lemma pollBamGit_keeps: "keepsB (coll e) t0 (pollBamGit e)"
proof -
  let ?I = "since (coll e) t0"
  have p: "validS ?I (\<lambda>s. case poll_each e ns s of (_, s') \<Rightarrow> (Inr (), s')) (\<lambda>_. ?I) ?I" for ns
    using validS_snd [OF poll_each_keeps [of e t0 ns]] by (auto simp: validS_def split: prod.split) (metis snd_conv)
  have q: "keepsB (coll e) t0 (query f)" for f :: "bam_tabs \<Rightarrow> 'x" by (rule reads_keeps) blast
  show ?thesis unfolding pollBamGit_def by (rule valid_catch [OF valid_bind [OF q p]]) (rule valid_ret)
qed

lemma hook_each_keeps: "keepsB (coll e) t0 (hook_each e branch commit ns)"
  by (induction ns) (auto intro!: valid_ret valid_bind [OF genScmBranch_keeps])

lemma handleBamHook_keeps: "keepsB (coll e) t0 (handleBamHook e u un raw)"
proof -
  have r: "keepsB (coll e) t0 (onBam (query f))" for f :: "bam_tabs \<Rightarrow> 'x" by (rule reads_keeps) blast
  show ?thesis unfolding handleBamHook_def
    by (rule valid_case_prod, rule valid_case_prod)
      (auto intro!: valid_ret valid_catch [OF valid_bind [OF r valid_bind [OF hook_each_keeps]]])
qed

lemma handleBamPull_keeps: "keepsB (coll e) t0 (handleBamPull e u path br lang)"
proof -
  have z: "keepsB (coll e) t0 (bamZip e n v)" for n v
    unfolding bamZip_def Let_def by (rule reads_keeps, intro reads_bindS) (auto split: prod.split)
  have c: "keepsB (coll e) t0 (checkB r)" for r :: "bam_err + 'x" by (rule reads_keeps) blast
  show ?thesis unfolding handleBamPull_def answer_def
    by (auto intro!: valid_ret valid_catch [OF valid_bind [OF syncAndGen_keeps valid_bind [OF c valid_bind [OF z valid_case_prod [OF valid_bind [OF c]]]]]]
        split: option.split)
qed

section \<open>Runs\<close>

datatype bam_op =
    BSeed "string option"
  | BCreate string string string string
  | BSave string "bamFile list"
  | BGenerate string
  | BPull "string \<Rightarrow> string" string string string
  | BPoll
  | BHook "string \<Rightarrow> string" "string \<Rightarrow> git_hook option" string
  | BOps ops_op

fun bam_exec :: "bam_env \<Rightarrow> bam_op \<Rightarrow> bam_tabs db \<Rightarrow> bam_tabs db" where
  "bam_exec e (BSeed f) d = snd (seedBam e f d)"
| "bam_exec e (BCreate n s dir b) d = snd (CreateBamModule e n s dir b d)"
| "bam_exec e (BSave n fs) d = snd (SaveBamModule e n fs d)"
| "bam_exec e (BGenerate n) d = snd (GenerateBam e n d)"
| "bam_exec e (BPull u path b l) d = snd (handleBamPull e u path b l d)"
| "bam_exec e BPoll d = snd (pollBamGit e d)"
| "bam_exec e (BHook u un raw) d = snd (handleBamHook e u un raw d)"
| "bam_exec e (BOps op) d = snd (onJobs (\<lambda>s. (Inr () :: unit + unit, ops_exec (be_ops e) op s)) d)"

text \<open>A call finds the disk, the commands and the database as they are at its time; the collation stays.\<close>

inductive bam_step :: "(string \<Rightarrow> string) \<Rightarrow> bam_tabs \<Rightarrow> bam_tabs \<Rightarrow> bool" for c where
  bam_call: "coll e = c \<Longrightarrow> bam_step c t (db_tab (bam_exec e op \<lparr>db_tab = t, db_faults = faults\<rparr>))"

abbreviation bam_run :: "(string \<Rightarrow> string) \<Rightarrow> bam_tabs \<Rightarrow> bam_tabs \<Rightarrow> bool" where
  "bam_run c \<equiv> (bam_step c)\<^sup>*\<^sup>*"

lemma bam_exec_since: "since (coll e) t0 (db_tab d) \<Longrightarrow> since (coll e) t0 (db_tab (bam_exec e op d))"
proof (cases op)
  case (BOps o')
  then show "since (coll e) t0 (db_tab d) \<Longrightarrow> ?thesis"
    by (auto simp: onJobs_def split: prod.split intro: since_frame)
qed (simp_all only: bam_exec.simps GenerateBam_def validS_snd [OF seedBam_keeps] validS_snd [OF CreateBamModule_keeps] validS_snd [OF SaveBamModule_keeps]
      validS_snd [OF syncAndGen_keeps] validS_snd [OF handleBamPull_keeps] validS_snd [OF pollBamGit_keeps] validS_snd [OF handleBamHook_keeps])

lemma bam_run_since: "bam_run c t t' \<Longrightarrow> since c t0 t \<Longrightarrow> since c t0 t'"
  by (induction rule: rtranclp_induct) (auto elim!: bam_step.cases intro: bam_exec_since)

lemma bam_migrate_inv: "bam_inv c bam_migrate"
  by (simp add: bam_inv_def bam_migrate_def version_keys_def)


section \<open>Properties\<close>

text \<open>C38 After any seeds, requests, polls, hooks and releases, with commands, disk and database that may fail anywhere, the tables of modules are well-formed: names are unique and of the admitted form, the versions of a module are numbered from 1 to its current one without gaps, each has its files, with distinct safe paths, and one entry in the list of versions, the entry of the current version has the branch and commit of the module, and each generation belongs to a version.\<close>

theorem bam_tables_ok:
  assumes "bam_run c bam_migrate t"
  shows "bam_inv c t"
  using bam_run_since [OF assms, of bam_migrate] bam_migrate_inv by (simp add: since_def later_refl)

text \<open>Reading a version.\<close>

lemma filter_one: "distinct (map f xs) \<Longrightarrow> x \<in> set xs \<Longrightarrow> f x = k \<Longrightarrow> filter (\<lambda>y. f y = k) xs = [x]"
  using filter_key [of f xs x] by simp

lemma GetBamModule_files:
  assumes inv: "bam_inv (coll e) t" and name: "isOk (checkBamName (trim_space name))"
    and m: "m \<in> set (bt_modules t)" "coll e (bm_Name m) = coll e (trim_space name)" and v: "1 \<le> v" "v \<le> bm_Version m"
  shows "\<exists>d r. fst (GetBamModule e name v (healthy t)) = Inr d \<and> dt_Files d = files_of e (bm_ID m) v t \<and>
    dt_Rpcs d = fst (compile_files e (dt_Files d)) \<and> dt_ParseError d = snd (snd (compile_files e (dt_Files d))) \<and>
    bm_ID (dt_Module d) = bm_ID m \<and> bm_Name (dt_Module d) = bm_Name m \<and> bm_Version (dt_Module d) = v \<and>
    filter (\<lambda>r. rev_ver r = (bm_ID m, v)) (bt_revs t) = [r] \<and> bm_Branch (dt_Module d) = rv_Branch r \<and> bm_Commit (dt_Module d) = rv_Commit r"
proof -
  have one: "filter (\<lambda>x. sameB e (bm_Name x) (trim_space name)) (bt_modules t) = [m]"
    using filter_one [of "\<lambda>m. coll e (bm_Name m)" "bt_modules t" m] inv m by (simp add: sameB_iff bam_inv_def)
  have g: "getBamModule e (trim_space name) (healthy t) = (Inr m, healthy t)"
    using name one by (auto simp: getBamModule_def checkB_def liftS_def lift_err_def isOk_def bindS_def rowOr_def orElse_def catchS_def split: sum.splits)
  have "(bm_ID m, v) \<in> rev_ver ` set (bt_revs t)" using inv m(1) v by (auto simp: bam_inv_def version_keys_def)
  then obtain r where r: "r \<in> set (bt_revs t)" "rev_ver r = (bm_ID m, v)" by auto
  then have rf: "filter (\<lambda>r. rev_ver r = (bm_ID m, v)) (bt_revs t) = [r]"
    using filter_one [of rev_ver "bt_revs t" r] inv by (simp add: bam_inv_def)
  then have rf': "filter (\<lambda>r. rv_Module r = bm_ID m \<and> rv_Version r = v) (bt_revs t) = [r]" by (simp add: rev_ver_def)
  define m1 where "m1 = (if v = bm_Version m then m else m\<lparr>bm_Version := v, bm_Branch := rv_Branch r, bm_Commit := rv_Commit r, bm_Rpcs := rv_Rpcs r, bm_HttpApis := rv_HttpApis r\<rparr>)"
  have at: "at_version (trim_space name) m v (healthy t) = (Inr m1, healthy t)"
    using rf' by (simp add: at_version_def m1_def bindS_def rowOr_def orElse_def catchS_def retS_def)
  have cur: "bm_Branch m1 = rv_Branch r \<and> bm_Commit m1 = rv_Commit r"
  proof (cases "v = bm_Version m")
    case True
    obtain r' where r': "r' \<in> set (bt_revs t)" "rev_ver r' = (bm_ID m, v)" "rv_Branch r' = bm_Branch m" "rv_Commit r' = bm_Commit m"
      using inv m(1) True by (auto simp: bam_inv_def module_ok_def)
    then have "r' \<in> set (filter (\<lambda>r. rev_ver r = (bm_ID m, v)) (bt_revs t))" by simp
    then have "r' = r" unfolding rf by simp
    then show ?thesis using r' True by (simp add: m1_def)
  qed (simp add: m1_def)
  have s: "bm_ID m1 = bm_ID m" "bm_Name m1 = bm_Name m" "bm_Version m1 = v" by (auto simp: m1_def)
  obtain d where d: "detail e m1 (healthy t) = (Inr d, healthy t)" "detail_of e m1 t d"
  proof -
    obtain rpcs http err where c: "compile_files e (files_of e (bm_ID m1) (bm_Version m1) t) = (rpcs, http, err)" by (metis prod_cases3)
    show ?thesis
      by (rule that, simp add: detail_def bindS_def onBam_def opt_row_def orElse_def catchS_def retS_def c Let_def)
        (simp add: detail_of_def c, rule exI, rule exI, rule refl)
  qed
  have "GetBamModule e name v (healthy t) = (Inr d, healthy t)"
    using g at d(1) v(1) by (simp add: GetBamModule_def loadBam_def bindS_def)
  then show ?thesis using d(2) cur s rf by (auto simp: detail_of_def)
qed

lemma at_version_valid:
  "validS P (at_version name m v) (\<lambda>_ t. P t \<and> (v = bm_Version m \<or> (\<exists>r\<in>set (bt_revs t). rev_ver r = (bm_ID m, v)))) P"
proof -
  have r: "validS P (rowOr (\<lambda>t. filter (\<lambda>r. rv_Module r = bm_ID m \<and> rv_Version r = v) (bt_revs t)) x)
      (\<lambda>_ t. P t \<and> (\<exists>r\<in>set (bt_revs t). rev_ver r = (bm_ID m, v))) P" for x
    unfolding rowOr_def by (intro valid_orElse valid_queryRow) (auto simp: rev_ver_def)
  show ?thesis
    by (cases "v = bm_Version m") (auto simp: at_version_def intro!: valid_basic(1) valid_bind [OF r])
qed

lemma GetBamModule_found:
  assumes inv: "bam_inv (coll e) t" and v: "1 \<le> v" and d: "fst (GetBamModule e name v (healthy t)) = Inr d"
  shows "\<exists>m\<in>set (bt_modules t). coll e (bm_Name m) = coll e (trim_space name) \<and> isOk (checkBamName (trim_space name)) \<and> v \<le> bm_Version m"
proof -
  let ?n = "trim_space name"
  obtain m s where g: "getBamModule e ?n (healthy t) = (Inr m, s)"
    using d by (cases "getBamModule e ?n (healthy t)"; cases "fst (getBamModule e ?n (healthy t))") (auto simp: GetBamModule_def loadBam_def bindS_def)
  have s: "db_tab s = t" "m \<in> set (bt_modules t)" "coll e (bm_Name m) = coll e ?n" "isOk (checkBamName ?n)"
    using validSD(2) [OF getBamModule_valid [of "\<lambda>u. u = t" e ?n], OF _ g] by auto
  have "v \<le> bm_Version m"
  proof (cases "v = bm_Version m")
    case False
    obtain m1 s1 where a: "at_version ?n m v s = (Inr m1, s1)"
      using d g v by (cases "at_version ?n m v s"; cases "fst (at_version ?n m v s)") (auto simp: GetBamModule_def loadBam_def bindS_def)
    have "db_tab s1 = t \<and> (v = bm_Version m \<or> (\<exists>r\<in>set (bt_revs (db_tab s1)). rev_ver r = (bm_ID m, v)))"
      by (rule validSD(2) [OF at_version_valid [of "\<lambda>u. u = t" ?n m v], of s, OF s(1) a])
    then obtain r where "r \<in> set (bt_revs t)" "rev_ver r = (bm_ID m, v)" using False by auto
    moreover have "rev_ver ` set (bt_revs t) = version_keys (bt_modules t)" using inv by (simp add: bam_inv_def)
    ultimately have "(bm_ID m, v) \<in> version_keys (bt_modules t)" by (metis imageI)
    then obtain m2 where m2: "m2 \<in> set (bt_modules t)" "bm_ID m2 = bm_ID m" "v \<le> bm_Version m2" by (auto simp: version_keys_def)
    have "inj_on bm_ID (set (bt_modules t))" using inv by (simp add: bam_inv_def distinct_map)
    then have "m2 = m" by (rule inj_onD) (use m2 s(2) in auto)
    then show ?thesis using m2(3) by simp
  qed simp
  then show ?thesis using s by blast
qed

text \<open>C37 A version of a module that can be read reads the same after any further calls: the same files, compiled with the same result, the same branch and commit.\<close>

theorem bam_versions_immutable:
  assumes "bam_run (coll e) bam_migrate t" and "bam_run (coll e) t t'" and "1 \<le> v"
    and "fst (GetBamModule e name v (healthy t)) = Inr d"
  shows "\<exists>d'. fst (GetBamModule e name v (healthy t')) = Inr d' \<and> dt_Files d' = dt_Files d \<and>
    dt_Rpcs d' = dt_Rpcs d \<and> dt_ParseError d' = dt_ParseError d \<and> bm_ID (dt_Module d') = bm_ID (dt_Module d) \<and>
    bm_Branch (dt_Module d') = bm_Branch (dt_Module d) \<and> bm_Commit (dt_Module d') = bm_Commit (dt_Module d)"
proof -
  have inv: "bam_inv (coll e) t" by (rule bam_tables_ok [OF assms(1)])
  have "since (coll e) t t'" using bam_run_since [OF assms(2), of t] inv by (simp add: since_def later_refl)
  then have inv': "bam_inv (coll e) t'" and later: "later t t'" by (simp_all add: since_def)
  obtain m where m: "m \<in> set (bt_modules t)" "coll e (bm_Name m) = coll e (trim_space name)" "isOk (checkBamName (trim_space name))"
    and v: "v \<le> bm_Version m"
    using GetBamModule_found [OF inv assms(3,4)] by blast
  obtain m' where m': "m' \<in> set (bt_modules t')" "bm_ID m' = bm_ID m" "bm_Name m' = bm_Name m" "bm_Version m \<le> bm_Version m'"
    using later m(1) by (auto simp: later_def)
  have k: "(bm_ID m, v) \<in> version_keys (bt_modules t)" using m(1) v assms(3) by (auto simp: version_keys_def)
  have rows: "filter (\<lambda>r. file_ver r = (bm_ID m, v)) (bt_files t') = filter (\<lambda>r. file_ver r = (bm_ID m, v)) (bt_files t)"
    "filter (\<lambda>r. rev_ver r = (bm_ID m, v)) (bt_revs t') = filter (\<lambda>r. rev_ver r = (bm_ID m, v)) (bt_revs t)"
    using later k by (simp_all add: later_def)
  then have f: "files_of e (bm_ID m) v t' = files_of e (bm_ID m) v t" by (simp add: files_of_def file_ver_def)
  have m2: "coll e (bm_Name m') = coll e (trim_space name)" "v \<le> bm_Version m'" using m m' v by auto
  obtain r where r: "filter (\<lambda>r. rev_ver r = (bm_ID m, v)) (bt_revs t) = [r]" "dt_Files d = files_of e (bm_ID m) v t"
    "dt_Rpcs d = fst (compile_files e (dt_Files d))" "dt_ParseError d = snd (snd (compile_files e (dt_Files d)))"
    "bm_ID (dt_Module d) = bm_ID m" "bm_Branch (dt_Module d) = rv_Branch r" "bm_Commit (dt_Module d) = rv_Commit r"
    using GetBamModule_files [OF inv m(3,1,2) assms(3) v] assms(4) by auto
  obtain d' r' where "fst (GetBamModule e name v (healthy t')) = Inr d'" "filter (\<lambda>r. rev_ver r = (bm_ID m, v)) (bt_revs t') = [r']"
    "dt_Files d' = files_of e (bm_ID m) v t'" "dt_Rpcs d' = fst (compile_files e (dt_Files d'))"
    "dt_ParseError d' = snd (snd (compile_files e (dt_Files d')))" "bm_ID (dt_Module d') = bm_ID m"
    "bm_Branch (dt_Module d') = rv_Branch r'" "bm_Commit (dt_Module d') = rv_Commit r'"
    using GetBamModule_files [OF inv' m(3) m'(1) m2(1) assms(3) m2(2)] m'(2) by auto
  then show ?thesis using r f rows(2) by (intro exI [of _ d']) simp
qed

section \<open>What is saved is what is read\<close>

definition saved :: "bam_env \<Rightarrow> string \<Rightarrow> bamFile list \<Rightarrow> bam_tabs \<Rightarrow> bamDetail \<Rightarrow> bool" where
  "saved e name files t d \<longleftrightarrow>
     (\<exists>m\<in>set (bt_modules t). coll e (bm_Name m) = coll e name \<and> bm_ID (dt_Module d) = bm_ID m \<and> bm_Version (dt_Module d) = bm_Version m + 1 \<and>
        dt_Files d = sort_key (\<lambda>f. map ordc (coll e (fst f))) files)"

lemma sort_key_map_row: "map g (sort_key (\<lambda>x. k (g x)) xs) = sort_key k (map g xs)"
proof -
  have "map g (insort_key (\<lambda>x. k (g x)) y ys) = insort_key k (g y) (map g ys)" for y ys by (induction ys) auto
  then show ?thesis by (induction xs) simp_all
qed

lemma files_of_wrote:
  assumes "bam_inv (coll e) t" and "wrote e name files scm branch commit t i ver t'"
  shows "files_of e i ver t' = sort_key (\<lambda>f. map ordc (coll e (fst f))) files"
proof -
  obtain t1 where t1: "module_written e name scm branch commit t i ver t1" and f: "bt_files t' = bt_files t @ map (new_row i ver) files"
    using assms(2) by (auto simp: wrote_def)
  have "(i, ver) \<notin> file_ver ` set (bt_files t)"
    using module_written_keys(2) [OF assms(1) t1] assms(1) by (simp add: bam_inv_def)
  then have "filter (\<lambda>r. bf_Module r = i \<and> bf_Version r = ver) (bt_files t) = []" by (auto simp: filter_empty_conv file_ver_def)
  moreover have "filter (\<lambda>r. bf_Module r = i \<and> bf_Version r = ver) (map (new_row i ver) files) = map (new_row i ver) files"
    by (auto simp: filter_id_conv new_row_def)
  ultimately have "files_of e i ver t' = map (\<lambda>r. (bf_Path r, bf_Content r)) (sort_key (\<lambda>r. map ordc (coll e (bf_Path r))) (map (new_row i ver) files))"
    by (simp add: files_of_def f)
  also have "\<dots> = sort_key (\<lambda>f. map ordc (coll e (fst f))) (map (\<lambda>r. (bf_Path r, bf_Content r)) (map (new_row i ver) files))"
    using sort_key_map_row [of "\<lambda>r. (bf_Path r, bf_Content r)" "\<lambda>f. map ordc (coll e (fst f))" "map (new_row i ver) files"]
    by (simp only: fst_conv)
  also have "map (\<lambda>r. (bf_Path r, bf_Content r)) (map (new_row i ver) files) = files"
    by (simp add: new_row_def comp_def)
  finally show ?thesis .
qed

lemma wrote_module:
  assumes inv: "bam_inv (coll e) t0" and w: "wrote e n files scm br commit t0 i ver t"
    and m: "m \<in> set (bt_modules t)" "coll e (bm_Name m) = coll e n" and m0: "m0 \<in> set (bt_modules t0)" "coll e (bm_Name m0) = coll e n"
  shows "bm_ID m = i \<and> bm_Version m = ver \<and> bm_ID m0 = i \<and> ver = bm_Version m0 + 1"
proof -
  obtain t1 where t1: "module_written e n scm br commit t0 i ver t1" "bt_modules t = bt_modules t1"
    using w by (auto simp: wrote_def)
  obtain m1 f where f: "m1 \<in> set (bt_modules t0)" "coll e (bm_Name m1) = coll e n" "bt_modules t = map (\<lambda>x. if bm_ID x = i then f x else x) (bt_modules t0)"
      "i = bm_ID m1" "ver = bm_Version m1 + 1" "\<forall>x. bm_ID (f x) = bm_ID x \<and> bm_Name (f x) = bm_Name x \<and> bm_Version (f x) = ver"
  proof -
    have "\<not> (\<forall>x\<in>set (bt_modules t0). coll e (bm_Name x) \<noteq> coll e n)" using m0 by blast
    then have "\<exists>m f. m \<in> set (bt_modules t0) \<and> coll e (bm_Name m) = coll e n \<and> bt_modules t1 = map (\<lambda>x. if bm_ID x = i then f x else x) (bt_modules t0) \<and>
         i = bm_ID m \<and> ver = bm_Version m + 1 \<and> (\<forall>x. bm_ID (f x) = bm_ID x \<and> bm_Name (f x) = bm_Name x \<and> bm_Version (f x) = ver)"
      using t1(1) unfolding module_written_def by blast
    then show ?thesis using that t1(2) by auto
  qed
  have inj: "inj_on (\<lambda>m. coll e (bm_Name m)) (set (bt_modules t0))" using inv by (simp add: bam_inv_def distinct_map)
  have e0: "m0 = m1" by (rule inj_onD [OF inj]) (use m0 f in auto)
  obtain x where x: "x \<in> set (bt_modules t0)" "m = (if bm_ID x = i then f x else x)" using m(1) f(3) by auto
  then have "coll e (bm_Name x) = coll e n" using m(2) f(6) by (auto split: if_splits)
  then have "x = m1" by (intro inj_onD [OF inj]) (use x f in auto)
  then show ?thesis using x f e0 by auto
qed

lemma SaveBamModule_saved:
  "validS (\<lambda>t. t = t0 \<and> bam_inv (coll e) t) (SaveBamModule e name files0)
     (\<lambda>d t. \<exists>files. checkBamFiles files0 = Inr files \<and> saved e (trim_space name) files t0 d) (\<lambda>_. True)"
proof -
  let ?n = "trim_space name" and ?T = "\<lambda>_ :: bam_tabs. True"
  let ?I = "\<lambda>t. t = t0 \<and> bam_inv (coll e) t0"
  let ?H = "\<exists>m\<in>set (bt_modules t0). coll e (bm_Name m) = coll e ?n"
  have c: "validS (\<lambda>t. ?I t \<and> A) (checkB r) (\<lambda>x t. ?I t \<and> A \<and> r = Inr x) ?T" for r :: "bam_err + 'x" and A
    by (rule valid_weaken [OF checkB_valid [of "\<lambda>t. ?I t \<and> A"]]) auto
  have c1: "validS (\<lambda>t. t = t0 \<and> bam_inv (coll e) t) (checkB r) (\<lambda>x t. ?I t \<and> r = Inr x) ?T" for r :: "bam_err + 'x"
    by (rule valid_weaken [OF checkB_valid [of ?I]]) auto
  have r: "validS (\<lambda>t. ?I t \<and> A) (rowOr (\<lambda>t. map bm_ScmName (filter (\<lambda>m. sameB e (bm_Name m) ?n) (bt_modules t))) x)
      (\<lambda>_ t. ?I t \<and> A \<and> ?H) ?T" for A x
    unfolding rowOr_def by (intro valid_orElse valid_queryRow) (auto simp: sameB_iff)
  have g: "validS (\<lambda>t. ?I t \<and> A \<and> ?H) (checkB y) (\<lambda>_ t. (?I t \<and> ?H) \<and> A) ?T" for A and y :: "bam_err + unit"
    by (rule valid_weaken [OF checkB_valid [of "\<lambda>t. ?I t \<and> A \<and> ?H"]]) auto
  have fin: "validS (\<lambda>t. (?I t \<and> ?H) \<and> checkBamName ?n = Inr u \<and> checkBamFiles files0 = Inr files)
      (bindS (writeModule e ?n files [] [] [] []) (\<lambda>_. loadBam e ?n 0))
      (\<lambda>d t. \<exists>files. checkBamFiles files0 = Inr files \<and> saved e ?n files t0 d) ?T" for u files
  proof -
    have w: "validS (\<lambda>t. (?I t \<and> ?H) \<and> checkBamName ?n = Inr u \<and> checkBamFiles files0 = Inr files) (writeModule e ?n files [] [] [] [])
        (\<lambda>_ t. bam_inv (coll e) t0 \<and> ?H \<and> checkBamFiles files0 = Inr files \<and> (\<exists>i ver. wrote e ?n files [] [] [] t0 i ver t)) ?T"
      by (rule valid_at) (rule valid_weaken [OF writeModule_wrote], auto)
    have l: "validS (\<lambda>t. bam_inv (coll e) t0 \<and> ?H \<and> checkBamFiles files0 = Inr files \<and> (\<exists>i ver. wrote e ?n files [] [] [] t0 i ver t))
        (loadBam e ?n 0) (\<lambda>d t. \<exists>files. checkBamFiles files0 = Inr files \<and> saved e ?n files t0 d) ?T"
    proof (rule valid_weaken [OF loadBam_detail [of "\<lambda>t. bam_inv (coll e) t0 \<and> ?H \<and> checkBamFiles files0 = Inr files \<and> (\<exists>i ver. wrote e ?n files [] [] [] t0 i ver t)"]])
      fix d t
      assume "(bam_inv (coll e) t0 \<and> ?H \<and> checkBamFiles files0 = Inr files \<and> (\<exists>i ver. wrote e ?n files [] [] [] t0 i ver t)) \<and>
        isOk (checkBamName ?n) \<and> (\<exists>m\<in>set (bt_modules t). coll e (bm_Name m) = coll e ?n \<and> detail_of e m t d)"
      then obtain i ver m m0 where o: "bam_inv (coll e) t0" "checkBamFiles files0 = Inr files" "wrote e ?n files [] [] [] t0 i ver t"
          "m \<in> set (bt_modules t)" "coll e (bm_Name m) = coll e ?n" "detail_of e m t d" "m0 \<in> set (bt_modules t0)" "coll e (bm_Name m0) = coll e ?n"
        by blast
      have "bm_ID m = i \<and> bm_Version m = ver \<and> bm_ID m0 = i \<and> ver = bm_Version m0 + 1" by (rule wrote_module [OF o(1,3,4,5,7,8)])
      then have "saved e ?n files t0 d"
        using o(6-8) files_of_wrote [OF o(1,3)] by (auto simp: saved_def detail_of_def)
      then show "\<exists>files. checkBamFiles files0 = Inr files \<and> saved e ?n files t0 d" using o(2) by blast
    qed auto
    show ?thesis by (rule valid_bind [OF w l])
  qed
  show ?thesis unfolding SaveBamModule_def Let_def
    by (rule valid_bind [OF c1], rule valid_bind [OF c], rule valid_bind [OF r], rule valid_bind [OF g], rule fin)
qed

text \<open>C39 When SaveBamModule succeeds, its files have passed the checks, and the answer, read back from the database, is the next version of the module with exactly these files, in the order of their paths.\<close>

theorem saved_version_reads_back:
  assumes "bam_run (coll e) bam_migrate (db_tab s)" and "SaveBamModule e name files s = (Inr d, s')"
  shows "\<exists>cleaned. checkBamFiles files = Inr cleaned \<and> saved e (trim_space name) cleaned (db_tab s) d"
  using validSD(2) [OF SaveBamModule_saved [of "db_tab s" e name files], of s] assms(2) bam_tables_ok [OF assms(1)] by blast

section \<open>A run\<close>

definition demo_bam :: bam_env where
  "demo_bam =
     \<lparr>be_ops = demo_ops, be_compile = (\<lambda>_ _. Inr []), be_read = (\<lambda>_. None),
      be_sync = (\<lambda>_. \<lparr>sy_lower = (\<lambda>s. s), sy_origin = None, sy_git = (\<lambda>_. ([], Inr ())), sy_removeAll = None, sy_mkdirAll = None\<rparr>),
      be_head = (\<lambda>_. Some ''c0ffee''), be_stat = (\<lambda>_. IsDir), be_walk = (\<lambda>_. []), be_fs = (\<lambda>_. None), be_work = ''/tmp/gen'',
      be_look = (\<lambda>_. True), be_buf = (\<lambda>_. []),
      be_zip = \<lparr>ze_read = (\<lambda>_. Inr []), ze_create = (\<lambda>_. None), ze_close = (\<lambda>_. Inr [])\<rparr>\<rparr>"

definition demo_after :: "bam_op list \<Rightarrow> bam_tabs" where
  "demo_after ops = fold (\<lambda>op t. db_tab (bam_exec demo_bam op (healthy t))) ops bam_migrate"

definition demo_save :: bam_op where "demo_save = BSave '' platform'' [(''b.proto'', ''B''), ('' /a.proto'', ''A'')]"

lemma demo_steps: "bam_run (coll demo_bam) t (fold (\<lambda>op t. db_tab (bam_exec demo_bam op (healthy t))) ops t)"
proof (induction ops arbitrary: t)
  case (Cons op ops)
  have "bam_step (coll demo_bam) t (db_tab (bam_exec demo_bam op (healthy t)))" by (rule bam_call) simp
  then show ?case using Cons [of "db_tab (bam_exec demo_bam op (healthy t))"] by (simp add: converse_rtranclp_into_rtranclp)
qed simp

lemma demo_after_run: "bam_run (coll demo_bam) bam_migrate (demo_after ops)"
  unfolding demo_after_def by (rule demo_steps)

theorem bam_tables_ok_witness:
  "bam_inv (coll demo_bam) (demo_after [BSeed (Some ''P''), demo_save]) \<and> map bm_Version (bt_modules (demo_after [BSeed (Some ''P''), demo_save])) = [2]"
proof -
  have "map bm_Version (bt_modules (demo_after [BSeed (Some ''P''), demo_save])) = [2]" by code_simp
  then show ?thesis using bam_tables_ok [OF demo_after_run] by simp
qed

theorem bam_versions_immutable_witness:
  "\<exists>d'. fst (GetBamModule demo_bam ''platform'' 1 (healthy (demo_after [BSeed (Some ''P''), demo_save]))) = Inr d' \<and>
     dt_Files d' = [(''platform/v1/platform.proto'', ''P'')]"
proof -
  let ?t = "demo_after [BSeed (Some ''P'')]" and ?t' = "demo_after [BSeed (Some ''P''), demo_save]"
  have r: "bam_run (coll demo_bam) ?t ?t'"
    unfolding demo_after_def fold_simps using demo_steps [of _ "[demo_save]"] by simp
  have v: "case fst (GetBamModule demo_bam ''platform'' 1 (healthy ?t)) of Inr d \<Rightarrow> dt_Files d = [(''platform/v1/platform.proto'', ''P'')] | Inl _ \<Rightarrow> False"
    by code_simp
  then obtain d where d: "fst (GetBamModule demo_bam ''platform'' 1 (healthy ?t)) = Inr d" "dt_Files d = [(''platform/v1/platform.proto'', ''P'')]"
    by (auto split: sum.splits)
  show ?thesis using bam_versions_immutable [OF demo_after_run r _ d(1)] d(2) by auto
qed

theorem saved_version_reads_back_witness:
  "\<exists>d s'. SaveBamModule demo_bam '' platform'' [(''b.proto'', ''B''), ('' /a.proto'', ''A'')] (healthy (demo_after [BSeed (Some ''P'')])) = (Inr d, s') \<and>
     saved demo_bam ''platform'' [(''b.proto'', ''B''), (''a.proto'', ''A'')] (demo_after [BSeed (Some ''P'')]) d"
proof -
  let ?c = "SaveBamModule demo_bam '' platform'' [(''b.proto'', ''B''), ('' /a.proto'', ''A'')] (healthy (demo_after [BSeed (Some ''P'')]))"
  have v: "isOk (fst ?c)" "trim_space '' platform'' = ''platform''"
    "checkBamFiles [(''b.proto'', ''B''), ('' /a.proto'', ''A'')] = Inr [(''b.proto'', ''B''), (''a.proto'', ''A'')]" by code_simp+
  obtain d s' where c: "?c = (Inr d, s')" using v(1) by (cases ?c; cases "fst ?c") (auto simp: isOk_iff)
  show ?thesis
    using saved_version_reads_back [OF _ c] demo_after_run [of "[BSeed (Some ''P'')]"] c v(2,3) by auto
qed

text \<open>A push of proto files that do not compile: the watch writes a new version of the module at every poll,
  and does not remember the commit.\<close>

definition git_env :: "string \<Rightarrow> string \<Rightarrow> bam_env" where
  "git_env commit err = demo_bam\<lparr>
     be_ops := demo_ops\<lparr>oe_refs := (\<lambda>_. Inr (commit @ [CHR 0x09] @ ''refs/heads/main''))\<rparr>,
     be_compile := (\<lambda>_ _. if err = [] then Inr [] else Inl err), be_head := (\<lambda>_. Some commit),
     be_walk := (\<lambda>dir. [\<lparr>we_Path = dir @ ''/x.proto'', we_Dir = False, we_Err = None, we_Read = Inr ''X''\<rparr>])\<rparr>"

definition after_calls :: "(bam_env \<times> bam_op) list \<Rightarrow> bam_tabs" where
  "after_calls calls = fold (\<lambda>(e, op) t. db_tab (bam_exec e op (healthy t))) calls bam_migrate"

lemma watch_repeats_failures:
  "let t = after_calls [(git_env ''c1'' [], BOps (OCreateJob ''r'' ''git@h:r.git'' ''b.sh'' ''golang'')),
     (git_env ''c1'' [], BCreate ''m'' ''r'' ''proto'' []), (git_env ''c1'' [], BPoll),
     (git_env ''c2'' ''syntax error'', BPoll), (git_env ''c2'' ''syntax error'', BPoll), (git_env ''c2'' ''syntax error'', BPoll)]
   in map bm_Version (bt_modules t) = [4] \<and> map gr_Commit (bt_refs t) = [''c1'']"
  by code_simp

end
