(* ===== verification/Deploy.thy ===== *)
theory Deploy
  imports BamFiles Ops TlbConf
begin

text \<open>
  platform/server/ops.go: how a deployment runs. It builds an image, writes the compose file of each service that
  the main file does not have, and starts the services. A run keeps the history of what it has done: texts for the
  log, commands and changes of files. \<open>dep_env\<close> says how files and commands answer after a history.
\<close>

section \<open>Runs with a history\<close>

text \<open>A command has its directory, the variables added to its environment, its standard input and its arguments.\<close>

datatype ev =
    Say string
  | Cmd string "string list" string "string list"
  | Put string string
  | Mkdir string
  | Del string
  | DelAll string

type_synonym hist = "ev list"
type_synonym 'a act = "hist \<Rightarrow> hist \<times> (string + 'a)"

definition retA :: "'a \<Rightarrow> 'a act" where "retA x h = (h, Inr x)"
definition failA :: "string \<Rightarrow> 'a act" where "failA e h = (h, Inl e)"
definition askA :: "(hist \<Rightarrow> 'a) \<Rightarrow> 'a act" where "askA f h = (h, Inr (f h))"
definition bindA :: "'a act \<Rightarrow> ('a \<Rightarrow> 'b act) \<Rightarrow> 'b act" where
  "bindA m f h = (case m h of (h1, Inl e) \<Rightarrow> (h1, Inl e) | (h1, Inr x) \<Rightarrow> f x h1)"
definition tryA :: "'a act \<Rightarrow> (string + 'a) act" where "tryA m h = (case m h of (h1, r) \<Rightarrow> (h1, Inr r))"
definition liftA :: "string + 'a \<Rightarrow> 'a act" where "liftA r h = (h, r)"
definition wrapA :: "string \<Rightarrow> 'a act \<Rightarrow> 'a act" where
  "wrapA what m h = (case m h of (h1, Inl e) \<Rightarrow> (h1, Inl (what @ '': '' @ e)) | (h1, Inr x) \<Rightarrow> (h1, Inr x))"

text \<open>Files and commands: \<open>de_read\<close> answers \<open>Inl None\<close> for a file that is not there, \<open>de_run\<close> gives the pieces of
  the output as they come to the log, and \<open>de_out\<close> the output that is captured; the last event of the history is
  the one that is answered. \<open>de_order\<close> is the order in which a map is read; \<open>de_yaml\<close> and \<open>de_yamlOut\<close> are the YAML library.\<close>

record dep_env =
  de_root :: string
  de_hostEnv :: string
  de_mounts :: "string option"
  de_stat :: "hist \<Rightarrow> string \<Rightarrow> file_stat"
  de_read :: "hist \<Rightarrow> string \<Rightarrow> string option + string"
  de_glob :: "hist \<Rightarrow> string list option"
  de_run :: "hist \<Rightarrow> string list \<times> string option"
  de_out :: "hist \<Rightarrow> string \<times> string option"
  de_fs :: "hist \<Rightarrow> string option"
  de_tmp :: "hist \<Rightarrow> string + string"
  de_order :: "hist \<Rightarrow> (string \<times> string) list \<Rightarrow> (string \<times> string) list"
  de_yaml :: "string \<Rightarrow> string + (string \<times> json) list"
  de_yamlOut :: "json \<Rightarrow> string + string"
  de_sync :: "hist \<Rightarrow> sync_env"

definition sayA :: "string \<Rightarrow> unit act" where "sayA s h = (h @ [Say s], Inr ())"

definition okA :: "string option \<Rightarrow> string + unit" where "okA e = (case e of None \<Rightarrow> Inr () | Some x \<Rightarrow> Inl x)"

text \<open>A command whose output goes to the log, one whose output is captured, and an operation on files.\<close>

definition runA :: "dep_env \<Rightarrow> string \<Rightarrow> string list \<Rightarrow> string \<Rightarrow> string list \<Rightarrow> unit act" where
  "runA e dir env inp argv h =
     (let h1 = h @ [Cmd dir env inp argv] in case de_run e h1 of (ws, r) \<Rightarrow> (h1 @ map Say ws, okA r))"

definition outA :: "dep_env \<Rightarrow> string \<Rightarrow> string list \<Rightarrow> string list \<Rightarrow> (string \<times> string option) act" where
  "outA e dir env argv h = (let h1 = h @ [Cmd dir env [] argv] in (h1, Inr (de_out e h1)))"

definition fsA :: "dep_env \<Rightarrow> ev \<Rightarrow> unit act" where "fsA e x h = (let h1 = h @ [x] in (h1, okA (de_fs e h1)))"

text \<open>\<open>defer os.RemoveAll(dir)\<close>.\<close>

definition deferA :: "ev \<Rightarrow> 'a act \<Rightarrow> 'a act" where "deferA x m h = (case m h of (h1, r) \<Rightarrow> (h1 @ [x], r))"

definition syncA :: "dep_env \<Rightarrow> string \<Rightarrow> string \<Rightarrow> string \<Rightarrow> string act" where
  "syncA e name url branch h = (case gitSync (de_sync e h) (de_root e) name url branch of (ws, r) \<Rightarrow> (h @ map Say ws, r))"

definition fileExists :: "dep_env \<Rightarrow> hist \<Rightarrow> string \<Rightarrow> bool" where "fileExists e h p \<longleftrightarrow> de_stat e h p \<noteq> Missing"

section \<open>Compose commands\<close>

definition work_dir :: "dep_env \<Rightarrow> string \<Rightarrow> string" where "work_dir e scm = path_Join [de_root e, ''scm-work'', scm]"

definition composeProjectDir :: "dep_env \<Rightarrow> string \<Rightarrow> string \<Rightarrow> hist \<Rightarrow> string" where
  "composeProjectDir e lab scm h =
     (if lab = ''image'' \<and> scm \<noteq> [] \<and> fileExists e h (path_Join [work_dir e scm, ''docker-compose.yml'']) then work_dir e scm
      else de_root e)"

definition or_root :: "dep_env \<Rightarrow> string \<Rightarrow> string" where "or_root e dir = (if dir = [] then de_root e else dir)"

definition composeFileArgs :: "dep_env \<Rightarrow> string \<Rightarrow> hist \<Rightarrow> string list" where
  "composeFileArgs e dir h =
     (let files = [path_Join [or_root e dir, ''docker-compose.yml'']]
            @ (case de_glob e h of None \<Rightarrow> [] | Some ms \<Rightarrow> sort_key (map ordc) ms)
            @ (let p = path_Join [de_root e, ''deploy'', ''runtime.yml''] in if fileExists e h p then [p] else [])
      in concat (map (\<lambda>f. [''-f'', f]) files))"

definition composeEnvFileArgs :: "dep_env \<Rightarrow> hist \<Rightarrow> string list" where
  "composeEnvFileArgs e h = (let p = path_Join [de_root e, ''.env''] in if fileExists e h p then [''--env-file'', p] else [])"

definition mountSourceFrom :: "string \<Rightarrow> string \<Rightarrow> string" where
  "mountSourceFrom info dest =
     (case find (\<lambda>fs. 5 \<le> length fs \<and> fs ! 4 = dest \<and> fs ! 3 \<noteq> [] \<and> fs ! 3 \<noteq> dest) (map str_fields (split_on CHR 0x0A info)) of
        Some fs \<Rightarrow> fs ! 3 | None \<Rightarrow> [])"

definition mountSource :: "dep_env \<Rightarrow> string \<Rightarrow> string" where
  "mountSource e dest = (case de_mounts e of None \<Rightarrow> [] | Some info \<Rightarrow> mountSourceFrom info dest)"

definition hostRoot :: "dep_env \<Rightarrow> string" where
  "hostRoot e =
     (let h = trim_space (de_hostEnv e); src = mountSource e ''/work'' in
      if h \<noteq> [] \<and> h \<noteq> ''/work'' then h else if src \<noteq> [] then src else de_root e)"

definition dockerVolumeName :: "string \<Rightarrow> string" where
  "dockerVolumeName src =
     (if has_prefix src ''/var/lib/docker/volumes/'' \<and> has_suffix src ''/_data''
      then trim_suffix (trim_prefix src ''/var/lib/docker/volumes/'') ''/_data'' else [])"

definition composeArgv :: "dep_env \<Rightarrow> string \<Rightarrow> string list \<Rightarrow> hist \<Rightarrow> string list" where
  "composeArgv e dir args h =
     [''compose'', ''--project-directory'', dir] @ composeEnvFileArgs e h @ composeFileArgs e dir h @ args"

definition compose_vars :: "dep_env \<Rightarrow> string \<Rightarrow> string list" where
  "compose_vars e dir = [''HOST_ROOT='' @ hostRoot e, ''PWD='' @ dir]"

definition composeTo :: "dep_env \<Rightarrow> string \<Rightarrow> string list \<Rightarrow> unit act" where
  "composeTo e dir0 args =
     (let dir = or_root e dir0 in
      bindA (askA (composeArgv e dir args)) (\<lambda>argv. runA e dir (compose_vars e dir) [] (''docker'' # argv)))"

definition compose :: "dep_env \<Rightarrow> string list \<Rightarrow> (string \<times> string option) act" where
  "compose e args =
     bindA (askA (composeArgv e (de_root e) args)) (\<lambda>argv.
     outA e (de_root e) (compose_vars e (de_root e)) (''docker'' # argv))"

text \<open>The message in UTF-8, with the path quoted.\<close>

definition bad_host_root :: "string \<Rightarrow> string" where
  "bad_host_root r = ''HOST_ROOT '' @
     [CHR 0xE4, CHR 0xB8, CHR 0x8D, CHR 0xE6, CHR 0x98, CHR 0xAF, CHR 0xE5, CHR 0xAE, CHR 0xBF, CHR 0xE4, CHR 0xB8, CHR 0xBB,
      CHR 0xE6, CHR 0x9C, CHR 0xBA, CHR 0xE8, CHR 0xB7, CHR 0xAF, CHR 0xE5, CHR 0xBE, CHR 0x84] @ '': '' @ [CHR 0x22] @ r @ [CHR 0x22]"

text \<open>Whether the path is in scm-work: its relative path does not lead upwards.\<close>

definition in_scm_work :: "dep_env \<Rightarrow> string \<Rightarrow> bool" where
  "in_scm_work e dir =
     (case path_Rel (path_Join [de_root e, ''scm-work'']) dir of Inl _ \<Rightarrow> False | Inr rel \<Rightarrow> rel \<noteq> ''..'' \<and> \<not> has_prefix rel ''../'')"

definition composeSidecar :: "dep_env \<Rightarrow> string \<Rightarrow> string list \<Rightarrow> unit act" where
  "composeSidecar e dir0 args =
     (let root = hostRoot e; dir = or_root e dir0; vol = dockerVolumeName (mountSource e ''/work/scm-work'') in
      if root = [] \<or> root = ''/work'' then failA (bad_host_root root)
      else bindA (sayA (ln (''$ docker run --rm compose-sidecar HOST_ROOT='' @ root @ '' -w '' @ dir))) (\<lambda>_.
        bindA (askA (composeArgv e dir args)) (\<lambda>argv.
        runA e [] [] []
          ([''docker'', ''run'', ''--rm'', ''-v'', ''/var/run/docker.sock:/var/run/docker.sock'', ''-v'', root @ '':/work''] @
           (if in_scm_work e dir \<and> vol \<noteq> [] then [''-v'', vol @ '':/work/scm-work''] else []) @
           [''-w'', dir, ''-e'', ''HOST_ROOT='' @ root, ''-e'', ''PWD='' @ dir, ''--entrypoint'', ''docker'', ''minikitex-platform:local''] @
           argv))))"

definition composeUp :: "dep_env \<Rightarrow> string list \<Rightarrow> string \<Rightarrow> unit act" where
  "composeUp e services dir0 =
     (let dir = or_root e dir0; args = [''up'', ''--no-deps'', ''--force-recreate'', ''-d''] @ services in
      if ''platform'' \<in> set services then composeSidecar e dir args else composeTo e dir args)"

section \<open>Images\<close>

definition streamGit :: "dep_env \<Rightarrow> string \<Rightarrow> string list \<Rightarrow> unit act" where
  "streamGit e dir args = runA e dir [''GIT_TERMINAL_PROMPT=0''] [] (''git'' # args)"

definition ensureImageWork :: "dep_env \<Rightarrow> scmJob \<Rightarrow> string \<Rightarrow> string act" where
  "ensureImageWork e job commit =
     bindA (askA (\<lambda>h. fileExists e h (path_Join [work_dir e (sj_Name job), ''.git'']))) (\<lambda>cloned.
     bindA (if cloned then retA (work_dir e (sj_Name job)) else syncA e (sj_Name job) (sj_GitURL job) []) (\<lambda>work.
     if commit = [] then
       bindA (sayA (ln (''warning: no git commit recorded; using scm-work/'' @ sj_Name job @ '' HEAD''))) (\<lambda>_. retA work)
     else
       bindA (outA e [] [] [''git'', ''-C'', work, ''rev-parse'', ''HEAD'']) (\<lambda>(out, err).
       if err = None \<and> trim_space out = commit then retA work
       else
         bindA (sayA (ln (''$ git checkout --detach '' @ commit))) (\<lambda>_.
         bindA (tryA (streamGit e work [''checkout'', ''--detach'', commit])) (\<lambda>r.
         if isOk r then retA work
         else
           bindA (sayA (ln ''$ git fetch origin'')) (\<lambda>_.
           bindA (wrapA (''git fetch for checkout '' @ commit) (streamGit e work [''fetch'', ''--progress'', ''origin''])) (\<lambda>_.
           bindA (wrapA (''git checkout '' @ commit) (streamGit e work [''checkout'', ''--detach'', commit])) (\<lambda>_.
           retA work))))))))"

definition file_at :: "dep_env \<Rightarrow> string \<Rightarrow> hist \<Rightarrow> string option" where
  "file_at e p h = (case de_read e h p of Inl _ \<Rightarrow> None | Inr c \<Rightarrow> Some c)"

text \<open>\<open>recorded\<close>: what \<open>lookupBuildCommit\<close> finds.\<close>

definition buildImageArtifact :: "dep_env \<Rightarrow> string \<Rightarrow> scmJob \<Rightarrow> string \<Rightarrow> string \<Rightarrow> string \<Rightarrow> unit act" where
  "buildImageArtifact e src job recorded imageVer imageLocal =
     bindA (askA (file_at e src)) (\<lambda>raw.
     let c = imageArtifactCommit raw; commit = (if c = [] then recorded else c) in
     bindA (ensureImageWork e job commit) (\<lambda>work.
     bindA (askA (\<lambda>h. scriptInRepo (de_stat e h) work (sj_ScriptPath job))) (\<lambda>r.
     bindA (liftA r) (\<lambda>_.
     bindA (sayA (ln (''$ docker build -f '' @ sj_ScriptPath job @ '' (dir='' @ work @ '')''))) (\<lambda>_.
     runA e work [] [] [''docker'', ''build'', ''-t'', imageVer, ''-t'', imageLocal, ''-f'', sj_ScriptPath job, ''.''])))))"

definition nodeWebDockerfile :: string where
  "nodeWebDockerfile =
     ln ''FROM alpine:3.20'' @
     ln ''RUN apk add --no-cache nginx && mkdir -p /run/nginx'' @
     ln ''COPY html /usr/share/nginx/html'' @
     ln ''COPY nginx.conf /etc/nginx/nginx.conf'' @
     ln ''EXPOSE 80'' @
     ln (''CMD ['' @ [CHR 0x22] @ ''nginx'' @ [CHR 0x22] @ '', '' @ [CHR 0x22] @ ''-g'' @ [CHR 0x22] @ '', '' @ [CHR 0x22] @ ''daemon off;'' @ [CHR 0x22] @ '']'')"

definition nodeWebNginx :: string where
  "nodeWebNginx =
     ln ''worker_processes auto;'' @
     ln ''error_log /dev/stderr warn;'' @
     ln ''pid /run/nginx/nginx.pid;'' @
     ln ''events {'' @
     ln ''    worker_connections 1024;'' @
     ln ''}'' @
     ln ''http {'' @
     ln ''    include /etc/nginx/mime.types;'' @
     ln ''    default_type application/octet-stream;'' @
     ln ''    sendfile on;'' @
     ln ''    gzip on;'' @
     ln ''    gzip_vary on;'' @
     ln ''    gzip_min_length 256;'' @
     ln ''    gzip_comp_level 5;'' @
     ln ''    gzip_types text/plain text/css text/xml application/json application/javascript application/xml image/svg+xml;'' @
     ln ''    server {'' @
     ln ''        listen 80;'' @
     ln ''        root /usr/share/nginx/html;'' @
     ln ''        location /assets/ {'' @
     ln (''            add_header Cache-Control '' @ [CHR 0x22] @ ''public, max-age=31536000, immutable'' @ [CHR 0x22] @ '';'') @
     ln ''        }'' @
     ln ''        location / {'' @
     ln (''            add_header Cache-Control '' @ [CHR 0x22] @ ''no-cache'' @ [CHR 0x22] @ '';'') @
     ln ''            try_files $uri $uri/ /index.html;'' @
     ln ''        }'' @
     ln ''    }'' @
     ln ''}''"

definition pythonWebDockerfile :: string where
  "pythonWebDockerfile =
     ln ''FROM alpine:3.20'' @
     ln ''RUN apk add --no-cache python3 py3-pip'' @
     ln ''WORKDIR /app'' @
     ln ''COPY app /app'' @
     ln (''RUN pip3 install --no-cache-dir --break-system-packages '' @ [CHR 0x5C]) @
     ln (''    -i https://pypi.tuna.tsinghua.edu.cn/simple '' @ [CHR 0x5C]) @
     ln ''    -r requirements.txt'' @
     ln ''EXPOSE 80'' @
     ln ''RUN test -f /app/start.sh'' @
     ln (''CMD ['' @ [CHR 0x22] @ ''sh'' @ [CHR 0x22] @ '', '' @ [CHR 0x22] @ ''/app/start.sh'' @ [CHR 0x22] @ '']'')"

definition build_in :: "dep_env \<Rightarrow> string \<Rightarrow> string \<Rightarrow> string \<Rightarrow> unit act" where
  "build_in e tmp imageVer imageLocal = runA e [] [] [] [''docker'', ''build'', ''-t'', imageVer, ''-t'', imageLocal, tmp]"

definition unpack :: "dep_env \<Rightarrow> string \<Rightarrow> string \<Rightarrow> string \<Rightarrow> unit act" where
  "unpack e what src dir =
     bindA (fsA e (Mkdir dir)) (\<lambda>_.
     bindA (sayA (ln (''unpack '' @ src))) (\<lambda>_.
     wrapA (''unpack '' @ what @ '' artifact'') (runA e [] [] [] [''tar'', ''-xf'', src, ''-C'', dir])))"

definition buildNodeImage :: "dep_env \<Rightarrow> string \<Rightarrow> string \<Rightarrow> string \<Rightarrow> unit act" where
  "buildNodeImage e src imageVer imageLocal =
     bindA (askA (de_tmp e)) (\<lambda>t. bindA (liftA t) (\<lambda>tmp.
     let html = path_Join [tmp, ''html''] in
     deferA (DelAll tmp)
       (bindA (unpack e ''node'' src html) (\<lambda>_.
        bindA (askA (\<lambda>h. if fileExists e h (path_Join [html, ''minikitex''])
                         then (case de_read e h (path_Join [de_root e, ''platform/web/nginx.conf'']) of Inr b \<Rightarrow> b | Inl _ \<Rightarrow> nodeWebNginx)
                         else nodeWebNginx)) (\<lambda>conf.
        bindA (fsA e (Put (path_Join [tmp, ''nginx.conf'']) conf)) (\<lambda>_.
        bindA (fsA e (Put (path_Join [tmp, ''Dockerfile'']) nodeWebDockerfile)) (\<lambda>_.
        build_in e tmp imageVer imageLocal)))))))"

definition buildPythonImage :: "dep_env \<Rightarrow> string \<Rightarrow> string \<Rightarrow> string \<Rightarrow> unit act" where
  "buildPythonImage e src imageVer imageLocal =
     bindA (askA (de_tmp e)) (\<lambda>t. bindA (liftA t) (\<lambda>tmp.
     deferA (DelAll tmp)
       (bindA (unpack e ''python'' src (path_Join [tmp, ''app''])) (\<lambda>_.
        bindA (fsA e (Put (path_Join [tmp, ''Dockerfile'']) pythonWebDockerfile)) (\<lambda>_.
        build_in e tmp imageVer imageLocal)))))"

section \<open>Compose files of services\<close>

definition dq :: "string \<Rightarrow> string" where "dq s = [CHR 0x22] @ s @ [CHR 0x22]"

definition service_body :: "string \<Rightarrow> string \<Rightarrow> string \<Rightarrow> string" where
  "service_body svc img lab =
     ln (''  '' @ svc @ '':'') @ ln (''    image: '' @ img) @ ln (''    hostname: '' @ svc) @ ln ''    pull_policy: never'' @
     ln ''    expose:'' @ ln (''      - '' @ dq ''80'') @ ln ''    labels:'' @ ln (''      psm: '' @ svc) @
     (if lab = ''golang'' then ln ''    environment:'' @ ln (''      LISTEN: '' @ dq ''0.0.0.0:80'')
      else if lab = ''python'' then ln ''    environment:'' @ ln (''      LISTEN: '' @ dq ''0.0.0.0:80'') else [])"

definition runtimeServiceYAML :: "string \<Rightarrow> string \<Rightarrow> string \<Rightarrow> string" where
  "runtimeServiceYAML svc img lab = ln ''services:'' @ service_body svc img lab"

text \<open>\<open>strings.SplitAfter(s, "\n")\<close>.\<close>

definition split_after :: "string \<Rightarrow> string list" where
  "split_after s = (let ls = split_on CHR 0x0A s in map ln (butlast ls) @ [last ls])"

type_synonym split_state = "string \<times> string \<times> (string \<times> string) list"

definition flush :: "split_state \<Rightarrow> (string \<times> string) list" where
  "flush st = (case st of (name, b, out) \<Rightarrow> if name \<noteq> [] then al_put name b out else out)"

definition split_line :: "string \<Rightarrow> split_state \<Rightarrow> split_state" where
  "split_line line st =
     (case st of (name, b, out) \<Rightarrow>
        let t = trim_right_set [CHR 0x0A] line in
        if t = ''services:'' then st
        else if has_prefix line ''  '' \<and> \<not> has_prefix line ''    '' \<and> has_suffix t '':''
        then (trim_suffix (trim_space t) '':'', line, flush st)
        else if name \<noteq> [] then (name, b @ line, out) else st)"

definition splitRuntimeServices :: "string \<Rightarrow> (string \<times> string) list" where
  "splitRuntimeServices s = flush (fold split_line (split_after s) ([], [], []))"

definition runtime_dir :: "dep_env \<Rightarrow> string" where "runtime_dir e = path_Join [de_root e, ''deploy'', ''runtime'']"

definition runtime_file :: "dep_env \<Rightarrow> string \<Rightarrow> string" where "runtime_file e svc = path_Join [runtime_dir e, svc @ ''.yml'']"

fun put_bodies :: "dep_env \<Rightarrow> (string \<times> string) list \<Rightarrow> unit act" where
  "put_bodies e [] = retA ()"
| "put_bodies e ((name, body) # rest) =
     bindA (if jobName name then fsA e (Put (runtime_file e name) (ln ''services:'' @ body)) else retA ()) (\<lambda>_. put_bodies e rest)"

definition splitCombinedRuntime :: "dep_env \<Rightarrow> unit act" where
  "splitCombinedRuntime e =
     (let old = path_Join [de_root e, ''deploy'', ''runtime.yml''] in
      bindA (askA (\<lambda>h. de_read e h old)) (\<lambda>r.
        case r of
          Inl None \<Rightarrow> retA ()
        | Inl (Some x) \<Rightarrow> failA x
        | Inr b \<Rightarrow>
            bindA (fsA e (Mkdir (runtime_dir e))) (\<lambda>_.
            bindA (askA (\<lambda>h. de_order e h (splitRuntimeServices b))) (\<lambda>bodies.
            bindA (put_bodies e bodies) (\<lambda>_.
            fsA e (Del old))))))"

definition mainComposeServicesDir :: "dep_env \<Rightarrow> string \<Rightarrow> string list act" where
  "mainComposeServicesDir e dir0 =
     (let dir = or_root e dir0 in
      bindA (outA e dir [''HOST_ROOT='' @ hostRoot e]
              [''docker'', ''compose'', ''-f'', path_Join [dir, ''docker-compose.yml''], ''--project-directory'', dir, ''config'', ''--services''])
        (\<lambda>(b, err). case err of
           Some x \<Rightarrow> failA (''compose config: '' @ ln x @ b)
         | None \<Rightarrow> retA (filter (\<lambda>l. l \<noteq> []) (map trim_space (split_on CHR 0x0A b)))))"

fun drop_each :: "dep_env \<Rightarrow> bool \<Rightarrow> string list \<Rightarrow> unit act" where
  "drop_each e stop [] = retA ()"
| "drop_each e stop (c # cs) =
     bindA (if stop then bindA (compose e [''stop'', c]) (\<lambda>_. bindA (compose e [''rm'', ''-f'', c]) (\<lambda>_. retA ())) else retA ()) (\<lambda>_.
     bindA (tryA (fsA e (Del (runtime_file e c)))) (\<lambda>_. drop_each e stop cs))"

definition dropExtraRuntime :: "dep_env \<Rightarrow> string list \<Rightarrow> unit act" where
  "dropExtraRuntime e services =
     bindA (tryA (splitCombinedRuntime e)) (\<lambda>_.
     bindA (tryA (mainComposeServicesDir e (de_root e))) (\<lambda>r.
     drop_each e (isOk r) (extraCompose services (case r of Inl _ \<Rightarrow> [] | Inr main \<Rightarrow> main))))"

definition overlay_of :: "string \<Rightarrow> string \<Rightarrow> string + string" where
  "overlay_of name b = (if trim_space b = [] then Inl (''empty '' @ name) else Inr b)"

definition composeFromArtifact :: "dep_env \<Rightarrow> string \<Rightarrow> string \<Rightarrow> string act" where
  "composeFromArtifact e src svc =
     (if svc = [] \<or> \<not> jobName svc then failA ''bad service''
      else (let name = ''projects/'' @ svc @ ''/compose.yml'' in
        bindA (outA e [] [] [''tar'', ''-xOf'', src, name]) (\<lambda>(b, err).
        liftA (case err of Some x \<Rightarrow> Inl x | None \<Rightarrow> overlay_of name b))))"

definition composeFromWork :: "dep_env \<Rightarrow> string \<Rightarrow> string \<Rightarrow> string act" where
  "composeFromWork e work svc =
     (if svc = [] \<or> \<not> jobName svc then failA ''bad service''
      else (let p = path_Join [work, ''projects'', svc, ''compose.yml''] in
        bindA (askA (\<lambda>h. de_read e h p)) (\<lambda>r.
        liftA (case r of Inl x \<Rightarrow> Inl (case x of None \<Rightarrow> ''no such file'' | Some y \<Rightarrow> y) | Inr b \<Rightarrow> overlay_of p b))))"

text \<open>The messages of \<open>pinRuntimeImage\<close> are in Chinese; the caller looks only at whether there is an error.\<close>

datatype pin_err = BadYaml string | NoServices | NoService string

definition pinRuntimeImage :: "dep_env \<Rightarrow> string \<Rightarrow> string \<Rightarrow> string \<Rightarrow> pin_err + string" where
  "pinRuntimeImage e raw svc img =
     (case de_yaml e raw of
        Inl x \<Rightarrow> Inl (BadYaml x)
      | Inr doc \<Rightarrow>
          (case map_of doc ''services'' of
             Some (JObj svcs) \<Rightarrow>
               (case map_of svcs svc of
                  Some (JObj one) \<Rightarrow>
                    (let one1 = al_put ''pull_policy'' (JStr ''never'') (al_put ''image'' (JStr img) (filter (\<lambda>kv. fst kv \<noteq> ''build'') one));
                         out = [(''services'', JObj [(svc, JObj one1)])] @
                               (case map_of doc ''volumes'' of None \<Rightarrow> [] | Some v \<Rightarrow> [(''volumes'', v)])
                     in case de_yamlOut e (JObj out) of Inl x \<Rightarrow> Inl (BadYaml x) | Inr s \<Rightarrow> Inr s)
                | _ \<Rightarrow> Inl (NoService svc))
           | _ \<Rightarrow> Inl NoServices))"

text \<open>The file of one service, and those of all.\<close>

definition sync_one :: "dep_env \<Rightarrow> string \<Rightarrow> string \<Rightarrow> string \<Rightarrow> string \<Rightarrow> string \<Rightarrow> unit act" where
  "sync_one e lab src work img c =
     bindA (tryA (if lab = ''image'' then composeFromWork e work c else composeFromArtifact e src c)) (\<lambda>r.
     bindA (case r of
              Inl _ \<Rightarrow> retA (runtimeServiceYAML c img lab)
            | Inr raw \<Rightarrow>
                (case pinRuntimeImage e raw c img of
                   Inl _ \<Rightarrow> retA (runtimeServiceYAML c img lab)
                 | Inr pinned \<Rightarrow>
                     bindA (sayA (ln (''runtime overlay projects/'' @ c @ ''/compose.yml''))) (\<lambda>_. retA pinned))) (\<lambda>body.
     fsA e (Put (runtime_file e c) body)))"

fun sync_each :: "dep_env \<Rightarrow> string \<Rightarrow> string \<Rightarrow> string \<Rightarrow> string \<Rightarrow> string list \<Rightarrow> unit act" where
  "sync_each e lab src work img [] = retA ()"
| "sync_each e lab src work img (c # cs) =
     bindA (sync_one e lab src work img c) (\<lambda>_. sync_each e lab src work img cs)"

definition syncRuntimeCompose :: "dep_env \<Rightarrow> deployApp \<Rightarrow> string \<Rightarrow> string \<Rightarrow> unit act" where
  "syncRuntimeCompose e app lab0 src =
     bindA (splitCombinedRuntime e) (\<lambda>_.
     let lab = (if lab0 = [] then ''golang'' else lab0); work = work_dir e (da_ScmName app) in
     if lab \<notin> set [''node'', ''golang'', ''python'', ''image''] then retA ()
     else
       bindA (askA (\<lambda>h. lab = ''image'' \<and> fileExists e h (path_Join [work, ''docker-compose.yml'']))) (\<lambda>own.
       bindA (if own then sayA (ln (''compose project dir '' @ work @ '' (no HOST compose overwrite)'')) else retA ()) (\<lambda>_.
       bindA (mainComposeServicesDir e (if own then work else de_root e)) (\<lambda>main.
       bindA (fsA e (Mkdir (runtime_dir e))) (\<lambda>_.
       sync_each e lab src work (''minikitex-'' @ da_Name app @ '':local'') (extraCompose (da_Compose app) main))))))"

section \<open>A deployment\<close>

text \<open>What an image built from a repository needs: its job, and the commit that is recorded for the version.\<close>

datatype job_input = NoJob string | JobInput scmJob string | NotAsked

definition imageVer :: "deployApp \<Rightarrow> string \<Rightarrow> string" where "imageVer app ver = ''minikitex-'' @ da_Name app @ '':'' @ ver"
definition imageLocal :: "deployApp \<Rightarrow> string" where "imageLocal app = ''minikitex-'' @ da_Name app @ '':local''"

definition build_line :: "deployApp \<Rightarrow> string \<Rightarrow> string \<Rightarrow> string" where
  "build_line app ver lab =
     ln (''$ docker build -t '' @ imageVer app ver @ '' -t '' @ imageLocal app @ ''  label='' @ lab)"

definition build_image :: "dep_env \<Rightarrow> deployApp \<Rightarrow> string \<Rightarrow> string \<Rightarrow> string \<Rightarrow> job_input \<Rightarrow> unit act" where
  "build_image e app ver src lab inp =
     (if lab = ''node'' then buildNodeImage e src (imageVer app ver) (imageLocal app)
      else if lab = ''python'' then buildPythonImage e src (imageVer app ver) (imageLocal app)
      else if lab = ''image'' then
        (case inp of
           JobInput job recorded \<Rightarrow> buildImageArtifact e src job recorded (imageVer app ver) (imageLocal app)
         | NoJob x \<Rightarrow> failA x
         | NotAsked \<Rightarrow> failA [])
      else
        bindA (sayA (ln (''(context '' @ path_Dir src @ '')''))) (\<lambda>_.
        runA e [] [] (ln ''FROM scratch'' @ ln (''COPY '' @ path_Base src @ '' /app'') @ ln (''ENTRYPOINT ['' @ dq ''/app'' @ '']''))
          [''docker'', ''build'', ''-t'', imageVer app ver, ''-t'', imageLocal app, ''-f'', ''-'', path_Dir src]))"

definition up_line :: "dep_env \<Rightarrow> deployApp \<Rightarrow> string \<Rightarrow> hist \<Rightarrow> string" where
  "up_line e app dir h =
     ln (''$ docker compose'' @ (case composeEnvFileArgs e h of [a, p] \<Rightarrow> '' --env-file '' @ p | _ \<Rightarrow> []) @ '' -f '' @ dir @
         ''/docker-compose.yml up --no-deps --force-recreate -d '' @ str_join '' '' (da_Compose app))"

text \<open>All that comes before the services are started: the project directory.\<close>

definition prepare :: "dep_env \<Rightarrow> deployApp \<Rightarrow> string \<Rightarrow> string \<Rightarrow> string \<Rightarrow> job_input \<Rightarrow> string act" where
  "prepare e app ver src lab inp =
     bindA (build_image e app ver src lab inp) (\<lambda>_.
     bindA (syncRuntimeCompose e app lab src) (\<lambda>_.
     bindA (askA (composeProjectDir e lab (da_ScmName app))) (\<lambda>dir.
     bindA (askA (up_line e app dir)) (\<lambda>l.
     bindA (sayA l) (\<lambda>_. retA dir)))))"

definition job_err :: "(sql_err \<Rightarrow> string) \<Rightarrow> ops_err \<Rightarrow> string" where
  "job_err txt x = (case x of UnknownScm n \<Rightarrow> ''unknown scm '' @ n | OpsDb y \<Rightarrow> txt y | _ \<Rightarrow> [])"

definition deploy_input ::
  "ops_env \<Rightarrow> dep_env \<Rightarrow> (sql_err \<Rightarrow> string) \<Rightarrow> deployApp \<Rightarrow> string \<Rightarrow> string \<Rightarrow> string \<Rightarrow> (ops_tabs, 'e, job_input) dbm" where
  "deploy_input oe e txt app ver src lab =
     (if lab \<noteq> ''image'' then retS NotAsked
      else catchS
        (bindS (getJob oe (da_ScmName app)) (\<lambda>job.
         bindS (if imageArtifactCommit (file_at e src []) = [] then lookupBuildCommit oe (sj_Name job) ver else retS []) (\<lambda>c.
         retS (JobInput job c))))
        (\<lambda>x. retS (NoJob (job_err txt x))))"

text \<open>The texts of a history, written to the log.\<close>

fun log_all :: "nat \<Rightarrow> hist \<Rightarrow> (ops_tabs, 'e, unit) dbm" where
  "log_all l [] = retS ()"
| "log_all l (Say s # h) = bindS (run_write l s) (\<lambda>_. log_all l h)"
| "log_all l (_ # h) = log_all l h"

text \<open>A deployment that replaces this process settles its record before it starts the services. The result is the history.\<close>

definition runDeploy ::
  "ops_env \<Rightarrow> dep_env \<Rightarrow> (sql_err \<Rightarrow> string) \<Rightarrow> int \<Rightarrow> deployApp \<Rightarrow> string \<Rightarrow> string \<Rightarrow> string \<Rightarrow> nat \<Rightarrow> (ops_tabs, 'e, hist) dbm" where
  "runDeploy oe e txt i app ver src lab l =
     bindS (run_write l (build_line app ver lab)) (\<lambda>_.
     bindS (deploy_input oe e txt app ver src lab) (\<lambda>inp.
     case prepare e app ver src lab inp [] of
       (h1, Inl x) \<Rightarrow> bindS (log_all l h1) (\<lambda>_. bindS (end_deploy i l (Some x)) (\<lambda>_. retS h1))
     | (h1, Inr dir) \<Rightarrow>
         bindS (log_all l h1) (\<lambda>_.
         case composeUp e (da_Compose app) dir h1 of
           (h2, r) \<Rightarrow>
             let new = drop (length h1) h2; err = (case r of Inl x \<Rightarrow> Some x | Inr _ \<Rightarrow> None) in
             if ''platform'' \<in> set (da_Compose app) then
               bindS (finish_deploy i l None) (\<lambda>_.
               bindS (log_all l new) (\<lambda>_.
               bindS (if err = None then retS () else finish_deploy i l err) (\<lambda>_.
               bindS (modS (drop_live i)) (\<lambda>_. retS h2))))
             else bindS (log_all l new) (\<lambda>_. bindS (end_deploy i l err) (\<lambda>_. retS h2)))))"

section \<open>Containers that run\<close>

record container =
  ct_Id :: string
  ct_Name :: string
  ct_Service :: string
  ct_Image :: string
  ct_Status :: string
  ct_State :: string

definition jsonPayload :: "string \<Rightarrow> string" where
  "jsonPayload raw =
     (case (str_index raw ''{'', str_index raw ''['') of
        (None, None) \<Rightarrow> trim_space raw
      | (None, Some j) \<Rightarrow> drop j raw
      | (Some i, None) \<Rightarrow> drop i raw
      | (Some i, Some j) \<Rightarrow> if i < j then drop i raw else drop j raw)"

definition psField :: "(json \<Rightarrow> string) \<Rightarrow> (string \<times> json) list \<Rightarrow> string list \<Rightarrow> string" where
  "psField sp one keys =
     (case filter (\<lambda>v. v \<noteq> JNull) (map (member (JObj one)) keys) of [] \<Rightarrow> [] | v # _ \<Rightarrow> sprint sp v)"

definition containerFromPS :: "(json \<Rightarrow> string) \<Rightarrow> (string \<times> json) list \<Rightarrow> container" where
  "containerFromPS sp one =
     \<lparr>ct_Id = psField sp one [''ID'', ''Id''], ct_Name = psField sp one [''Name''], ct_Service = psField sp one [''Service''],
      ct_Image = psField sp one [''Image''], ct_Status = psField sp one [''Status''], ct_State = psField sp one [''State'']\<rparr>"

text \<open>The JSON library: a list of objects, and the objects of a stream with the error that ended it, None for its end.\<close>

record json_lib =
  jl_list :: "string \<Rightarrow> string + (string \<times> json) list list"
  jl_stream :: "string \<Rightarrow> (string \<times> json) list list \<times> string option"
  jl_sprint :: "json \<Rightarrow> string"

definition decodeComposePS :: "json_lib \<Rightarrow> string \<Rightarrow> string + container list" where
  "decodeComposePS jl raw0 =
     (let raw = jsonPayload raw0 in
      if trim_space raw = [] then Inr []
      else if hd raw = CHR ''['' then
        (case jl_list jl raw of Inl x \<Rightarrow> Inl x | Inr xs \<Rightarrow> Inr (map (containerFromPS (jl_sprint jl)) xs))
      else (case jl_stream jl raw of
              (xs, None) \<Rightarrow> Inr (map (containerFromPS (jl_sprint jl)) xs)
            | (xs, Some x) \<Rightarrow> if xs \<noteq> [] then Inr (map (containerFromPS (jl_sprint jl)) xs) else Inl x))"

text \<open>\<open>stderr\<close> of a command that failed, if it said something.\<close>

definition RuntimeOp :: "dep_env \<Rightarrow> json_lib \<Rightarrow> string \<Rightarrow> hist \<Rightarrow> string api_err + container list" where
  "RuntimeOp e jl stderr h =
     (case compose e [''ps'', ''--format'', ''json''] h of
        (_, Inl x) \<Rightarrow> Inl (internal x)
      | (_, Inr (out, Some x)) \<Rightarrow> Inl (internal (if stderr \<noteq> [] then ln x @ stderr else x))
      | (_, Inr (out, None)) \<Rightarrow> (case decodeComposePS jl out of Inl x \<Rightarrow> Inl (internal x) | Inr cs \<Rightarrow> Inr cs))"

section \<open>What a seed uses\<close>

definition seedGitURL :: "string \<Rightarrow> string option \<Rightarrow> string" where
  "seedGitURL env out =
     (let u = trim_space env; v = (case out of None \<Rightarrow> [] | Some s \<Rightarrow> trim_space s) in
      if u \<noteq> [] then u else if v \<noteq> [] then v else ''https://github.com/cool-sai/byte-basic.git'')"

definition dockerArch :: "string option \<Rightarrow> string" where
  "dockerArch out =
     (case out of
        None \<Rightarrow> ''arm64''
      | Some s \<Rightarrow> if trim_space s = ''aarch64'' \<or> trim_space s = ''arm64'' then ''arm64'' else ''amd64'')"

section \<open>Whole runs\<close>

definition runBuild :: "compile_env \<Rightarrow> string \<Rightarrow> int \<Rightarrow> scmJob \<Rightarrow> string \<Rightarrow> string \<Rightarrow> string \<Rightarrow> nat \<Rightarrow> (ops_tabs, 'e, unit) dbm" where
  "runBuild ce root i job branch ver bin l =
     (case compileJob ce root job branch ver bin of
        (ws, commit, err) \<Rightarrow> bindS (log_all l (map Say ws)) (\<lambda>_. end_build i l bin commit err))"

definition runBuildDeploy ::
  "ops_env \<Rightarrow> dep_env \<Rightarrow> (sql_err \<Rightarrow> string) \<Rightarrow> compile_env \<Rightarrow> int \<Rightarrow> int \<Rightarrow> scmJob \<Rightarrow> deployApp \<Rightarrow> string \<Rightarrow> string \<Rightarrow> string \<Rightarrow>
   string \<Rightarrow> nat \<Rightarrow> (ops_tabs, 'e, hist) dbm" where
  "runBuildDeploy oe e txt ce b i job app branch ver bin lab l =
     (case compileJob ce (de_root e) job branch ver bin of
        (ws, commit, err) \<Rightarrow>
          bindS (log_all l (map Say ws)) (\<lambda>_.
          bindS (mid_build_deploy b i l bin commit err) (\<lambda>go.
          if go then runDeploy oe e txt i app ver bin lab l else retS [])))"

end
