(* ===== verification/DeployOk.thy ===== *)
theory DeployOk
  imports Deploy OpsOk "HOL-Library.Multiset"
begin

text \<open>
  Deployments: what they may change on the disk, what a deployment with status ok has done, and the compose
  files that a combined one splits into.
\<close>

section \<open>What a run may do\<close>

text \<open>Every event that a run adds to its history has the property.\<close>

definition adds :: "(ev \<Rightarrow> bool) \<Rightarrow> 'a act \<Rightarrow> bool" where
  "adds P m \<longleftrightarrow> (\<forall>h. \<exists>new. fst (m h) = h @ new \<and> list_all P new)"

named_theorems adds_rules

lemma addsI: "(\<And>h. \<exists>new. fst (m h) = h @ new \<and> list_all P new) \<Longrightarrow> adds P m"
  by (simp add: adds_def)

lemma addsE: "adds P m \<Longrightarrow> m h = (h1, r) \<Longrightarrow> \<exists>new. h1 = h @ new \<and> list_all P new"
  by (metis adds_def fst_conv)

lemma adds_basic [adds_rules]: "adds P (retA x)" "adds P (failA err)" "adds P (askA f)" "adds P (liftA r)"
  by (simp_all add: adds_def retA_def failA_def askA_def liftA_def)

lemma adds_bind [adds_rules]:
  assumes m: "adds P m" and f: "\<And>x. adds P (f x)"
  shows "adds P (bindA m f)"
proof (rule addsI)
  fix h
  obtain h1 r where r: "m h = (h1, r)" by fastforce
  obtain new where new: "h1 = h @ new" "list_all P new" using addsE [OF m r] by blast
  show "\<exists>new. fst (bindA m f h) = h @ new \<and> list_all P new"
  proof (cases r)
    case (Inl err)
    then show ?thesis using r new by (simp add: bindA_def)
  next
    case (Inr x)
    obtain h2 r2 where r2: "f x h1 = (h2, r2)" by fastforce
    obtain new2 where "h2 = h1 @ new2" "list_all P new2" using addsE [OF f r2] by blast
    then have "h2 = h @ (new @ new2) \<and> list_all P (new @ new2)" using new by simp
    then show ?thesis using r r2 Inr by (auto simp: bindA_def)
  qed
qed

lemma adds_ask: "(\<And>h. adds P (f (g h))) \<Longrightarrow> adds P (bindA (askA g) f)"
  by (simp add: adds_def bindA_def askA_def)

lemma adds_try [adds_rules]: "adds P m \<Longrightarrow> adds P (tryA m)"
  by (auto simp: adds_def tryA_def split: prod.splits) (metis fst_conv)

lemma adds_wrap [adds_rules]: "adds P m \<Longrightarrow> adds P (wrapA what m)"
  by (auto simp: adds_def wrapA_def split: prod.splits sum.splits) (metis fst_conv)+

lemma adds_defer: "adds P m \<Longrightarrow> P x \<Longrightarrow> adds P (deferA x m)"
proof (rule addsI)
  fix h assume m: "adds P m" and x: "P x"
  obtain h1 r where r: "m h = (h1, r)" by fastforce
  obtain new where "h1 = h @ new" "list_all P new" using addsE [OF m r] by blast
  then have "fst (deferA x m h) = h @ (new @ [x]) \<and> list_all P (new @ [x])" using r x by (simp add: deferA_def)
  then show "\<exists>new. fst (deferA x m h) = h @ new \<and> list_all P new" by blast
qed

lemma adds_fs: "P x \<Longrightarrow> adds P (fsA e x)"
  by (simp add: adds_def fsA_def Let_def)

section \<open>The files of a deployment\<close>

definition is_tmp :: "dep_env \<Rightarrow> string \<Rightarrow> bool" where "is_tmp e tmp \<longleftrightarrow> (\<exists>h. de_tmp e h = Inr tmp)"

text \<open>Files are written in a temporary directory, or in deploy/runtime under the name of a service.\<close>

definition may_touch :: "dep_env \<Rightarrow> ev \<Rightarrow> bool" where
  "may_touch e x =
     (case x of
        Put p _ \<Rightarrow> (\<exists>svc. jobName svc \<and> p = runtime_file e svc) \<or>
                   (\<exists>tmp f. is_tmp e tmp \<and> f \<in> {''nginx.conf'', ''Dockerfile''} \<and> p = path_Join [tmp, f])
      | Mkdir p \<Rightarrow> p = runtime_dir e \<or> (\<exists>tmp f. is_tmp e tmp \<and> f \<in> {''html'', ''app''} \<and> p = path_Join [tmp, f])
      | Del p \<Rightarrow> p = path_Join [de_root e, ''deploy'', ''runtime.yml'']
      | DelAll p \<Rightarrow> is_tmp e p
      | _ \<Rightarrow> True)"

lemma may_say [simp]: "may_touch e (Say s)" "may_touch e (Cmd dir env inp argv)" "list_all (may_touch e) (map Say ws)"
  by (simp_all add: may_touch_def list_all_length)

lemma may_run [adds_rules]:
  "adds (may_touch e) (sayA s)" "adds (may_touch e) (runA e dir env inp argv)" "adds (may_touch e) (outA e dir env argv)"
  "adds (may_touch e) (syncA e name url branch)"
  by (auto simp: adds_def sayA_def runA_def outA_def syncA_def Let_def split: prod.splits)

lemmas may_git [adds_rules] = may_run(2) [where dir = dir and env = "[''GIT_TERMINAL_PROMPT=0'']" and inp = "[]" and argv = "''git'' # args" for dir args,
  folded streamGit_def]

lemma may_ensure [adds_rules]: "adds (may_touch e) (ensureImageWork e job commit)"
  unfolding ensureImageWork_def by (intro adds_rules) (auto split: prod.splits intro!: adds_rules)

lemma may_image [adds_rules]: "adds (may_touch e) (buildImageArtifact e src job recorded iv il)"
  unfolding buildImageArtifact_def Let_def by (intro adds_rules)

lemma may_unpack: "is_tmp e tmp \<Longrightarrow> f \<in> {''html'', ''app''} \<Longrightarrow> adds (may_touch e) (unpack e what src (path_Join [tmp, f]))"
  unfolding unpack_def by (intro adds_rules adds_fs) (auto simp: may_touch_def)

lemma may_put_tmp: "is_tmp e tmp \<Longrightarrow> f \<in> {''nginx.conf'', ''Dockerfile''} \<Longrightarrow> adds (may_touch e) (fsA e (Put (path_Join [tmp, f]) b))"
  by (rule adds_fs) (auto simp: may_touch_def)

lemma may_tmp:
  assumes "\<And>tmp. is_tmp e tmp \<Longrightarrow> adds (may_touch e) (f tmp)"
  shows "adds (may_touch e) (bindA (askA (de_tmp e)) (\<lambda>t. bindA (liftA t) f))"
proof (rule adds_ask)
  fix h
  show "adds (may_touch e) (bindA (liftA (de_tmp e h)) f)"
  proof (cases "de_tmp e h")
    case (Inr tmp)
    then have "is_tmp e tmp" by (auto simp: is_tmp_def)
    then show ?thesis using assms Inr by (simp add: adds_def bindA_def liftA_def)
  qed (simp add: adds_def bindA_def liftA_def)
qed

lemma may_build_in [adds_rules]: "adds (may_touch e) (build_in e tmp iv il)"
  unfolding build_in_def by (rule adds_rules)

lemma may_tmp_del: "is_tmp e tmp \<Longrightarrow> may_touch e (DelAll tmp)"
  by (simp add: may_touch_def)

lemma may_node [adds_rules]: "adds (may_touch e) (buildNodeImage e src iv il)"
  unfolding buildNodeImage_def Let_def
  by (rule may_tmp, rule adds_defer) (intro adds_rules may_unpack may_put_tmp may_tmp_del; simp)+

lemma may_python [adds_rules]: "adds (may_touch e) (buildPythonImage e src iv il)"
  unfolding buildPythonImage_def
  by (rule may_tmp, rule adds_defer) (intro adds_rules may_unpack may_put_tmp may_tmp_del; simp)+

lemma may_build: "adds (may_touch e) (build_image e app ver src lab inp)"
  unfolding build_image_def by (auto split: job_input.splits intro!: adds_rules)

lemma may_put_runtime: "jobName svc \<Longrightarrow> adds (may_touch e) (fsA e (Put (runtime_file e svc) b))"
  by (rule adds_fs) (auto simp: may_touch_def)

lemma may_mkdir_runtime [adds_rules]: "adds (may_touch e) (fsA e (Mkdir (runtime_dir e)))"
  by (rule adds_fs) (simp add: may_touch_def)

lemma may_put_bodies [adds_rules]: "adds (may_touch e) (put_bodies e bodies)"
  by (induction bodies rule: put_bodies.induct) (auto intro!: adds_rules may_put_runtime)

lemma may_split [adds_rules]: "adds (may_touch e) (splitCombinedRuntime e)"
proof -
  have "adds (may_touch e) (fsA e (Del (path_Join [de_root e, ''deploy'', ''runtime.yml''])))"
    by (rule adds_fs) (simp add: may_touch_def)
  then show ?thesis
    unfolding splitCombinedRuntime_def Let_def by (auto split: sum.splits option.splits intro!: adds_rules)
qed

lemma may_main [adds_rules]: "adds (may_touch e) (mainComposeServicesDir e dir)"
  unfolding mainComposeServicesDir_def Let_def by (auto split: prod.splits option.splits intro!: adds_rules)

lemma may_overlay [adds_rules]: "adds (may_touch e) (composeFromWork e work c)" "adds (may_touch e) (composeFromArtifact e src c)"
  unfolding composeFromWork_def composeFromArtifact_def Let_def by (auto split: prod.splits intro!: adds_rules)

lemma may_sync_one: "jobName c \<Longrightarrow> adds (may_touch e) (sync_one e lab src work img c)"
  unfolding sync_one_def by (auto split: sum.splits intro!: adds_rules may_put_runtime)

lemma may_sync_each: "list_all jobName cs \<Longrightarrow> adds (may_touch e) (sync_each e lab src work img cs)"
  by (induction cs) (auto intro!: adds_rules may_sync_one)

lemma may_sync: "adds (may_touch e) (syncRuntimeCompose e app lab src)"
  unfolding syncRuntimeCompose_def Let_def
  by (auto intro!: adds_rules may_sync_each simp: extraCompose_def list_all_iff)

lemma may_prepare: "adds (may_touch e) (prepare e app ver src lab inp)"
  unfolding prepare_def by (intro adds_rules may_build may_sync)

lemma may_up: "adds (may_touch e) (composeUp e services dir)"
  unfolding composeUp_def composeSidecar_def composeTo_def Let_def by (auto intro!: adds_rules)

section \<open>A run always ends\<close>

definition ends :: "(ops_tabs, 'e, 'a) dbm \<Rightarrow> ('a \<Rightarrow> bool) \<Rightarrow> bool" where
  "ends m Q \<longleftrightarrow> (\<forall>d. \<exists>x d'. m d = (Inr x, d') \<and> Q x)"

lemma ends_bind: "ends m R \<Longrightarrow> (\<And>x. R x \<Longrightarrow> ends (f x) Q) \<Longrightarrow> ends (bindS m f) Q"
  unfolding ends_def bindS_def by (metis (mono_tags, lifting) case_prod_conv sum.simps(6))

lemma bind_ret [simp]: "bindS (retS x) f = f x"
  by (rule ext) (simp add: seqS_defs)

lemma ends_basic:
  "Q x \<Longrightarrow> ends (retS x) Q" "ends (modS f) (\<lambda>_. True)" "ends (ignoreS m) (\<lambda>_. True)"
  by (simp_all add: ends_def retS_def modS_def ignoreS_def)

lemma ends_catch: "(\<And>x. ends (h x) (\<lambda>_. True)) \<Longrightarrow> ends (catchS m h) (\<lambda>_. True)"
  unfolding ends_def catchS_def
  by (metis (mono_tags, lifting) case_prod_conv old.prod.exhaust old.sum.exhaust old.sum.simps(5) old.sum.simps(6))

lemma ends_say_err: "ends (say_err l err) (\<lambda>_. True)"
  by (cases err) (simp_all add: say_err_def ends_basic)

lemma ends_finish: "ends (finish_deploy i l err) (\<lambda>_. True)"
  unfolding finish_deploy_def by (rule ends_bind [OF ends_say_err], rule ends_bind [OF ends_basic(3)], rule ends_basic)

lemma ends_end: "ends (end_deploy i l err) (\<lambda>_. True)"
  unfolding end_deploy_def by (rule ends_bind [OF ends_finish], rule ends_basic)

lemma ends_log: "ends (log_all l h) (\<lambda>_. True)"
proof (induction l h rule: log_all.induct)
  case (2 l s h)
  show ?case by (simp add: run_write_def) (rule ends_bind [OF ends_basic(2)], rule 2)
qed (simp_all add: ends_basic)

lemma ends_input: "ends (deploy_input oe e txt app ver src lab) (\<lambda>_. True)"
  unfolding deploy_input_def by (auto intro!: ends_basic ends_catch)

lemma up_history:
  assumes "prepare e app ver src lab inp [] = (h1, r1)"
  shows "list_all (may_touch e) h1"
    and "composeUp e services dir h1 = (h2, r2) \<Longrightarrow> \<exists>new. h2 = h1 @ new \<and> list_all (may_touch e) h2"
proof -
  show *: "list_all (may_touch e) h1" using addsE [OF may_prepare assms] by auto
  assume "composeUp e services dir h1 = (h2, r2)"
  from addsE [OF may_up this] * show "\<exists>new. h2 = h1 @ new \<and> list_all (may_touch e) h2" by auto
qed

lemma ends_deploy: "ends (runDeploy oe e txt i app ver src lab l) (list_all (may_touch e))"
  unfolding runDeploy_def run_write_def
proof (rule ends_bind [OF ends_basic(2)], rule ends_bind [OF ends_input])
  fix inp :: job_input
  obtain h1 r1 where p: "prepare e app ver src lab inp [] = (h1, r1)" by fastforce
  show "ends (case prepare e app ver src lab inp [] of
       (h1, Inl x) \<Rightarrow> bindS (log_all l h1) (\<lambda>_. bindS (end_deploy i l (Some x)) (\<lambda>_. retS h1))
     | (h1, Inr dir) \<Rightarrow>
         bindS (log_all l h1) (\<lambda>_.
         case composeUp e (da_Compose app) dir h1 of
           (h2, r) \<Rightarrow>
             let new = drop (length h1) h2; err = (case r of Inl x \<Rightarrow> Some x | Inr _ \<Rightarrow> None) in
             if ''platform'' \<in> set (da_Compose app) then
               bindS (finish_deploy i l None) (\<lambda>_.
               bindS (log_all l new) (\<lambda>_.
               bindS (if err = None then retS () else finish_deploy i l err) (\<lambda>_.
               bindS (modS (drop_live i)) (\<lambda>_. retS h2))))
             else bindS (log_all l new) (\<lambda>_. bindS (end_deploy i l err) (\<lambda>_. retS h2))))
      (list_all (may_touch e))"
  proof (cases r1)
    case (Inl x)
    then show ?thesis unfolding p by (auto intro!: ends_bind [OF ends_log] ends_bind [OF ends_end] ends_basic up_history(1) [OF p])
  next
    case (Inr dir)
    obtain h2 r2 where u: "composeUp e (da_Compose app) dir h1 = (h2, r2)" by fastforce
    have t: "list_all (may_touch e) h2" using up_history(2) [OF p u] by blast
    have "ends (if err = None then retS () else finish_deploy i l err) (\<lambda>_. True)" for err
      by (auto intro: ends_basic ends_finish)
    then show ?thesis
      unfolding p Inr u prod.case sum.case Let_def
      by (auto intro!: ends_bind [OF ends_log] ends_bind [OF ends_end] ends_bind [OF ends_finish] ends_bind [OF ends_basic(2)] ends_basic t
            intro: ends_bind)
  qed
qed

section \<open>What a deployment with status ok has done\<close>

text \<open>A command of the history that ended without an error.\<close>

definition passed :: "dep_env \<Rightarrow> (ev \<Rightarrow> bool) \<Rightarrow> hist \<Rightarrow> bool" where
  "passed e C h \<longleftrightarrow> (\<exists>h1 c h2. h = h1 @ c # h2 \<and> C c \<and> snd (de_run e (h1 @ [c])) = None)"

lemma passed_more: "passed e C h \<Longrightarrow> passed e C (h @ new)"
  unfolding passed_def by (metis append.assoc append_Cons)

definition achieves :: "dep_env \<Rightarrow> (ev \<Rightarrow> bool) \<Rightarrow> 'a act \<Rightarrow> bool" where
  "achieves e C m \<longleftrightarrow> (\<forall>h h1 x. m h = (h1, Inr x) \<longrightarrow> passed e C h1)"

lemma bindA_Inr: "bindA m f h = (h2, Inr y) \<longleftrightarrow> (\<exists>h1 x. m h = (h1, Inr x) \<and> f x h1 = (h2, Inr y))"
  by (auto simp: bindA_def split: prod.splits sum.splits)

lemma achieves_last: "(\<And>x. achieves e C (f x)) \<Longrightarrow> achieves e C (bindA m f)"
  unfolding achieves_def bindA_Inr by blast

lemma achieves_first:
  assumes m: "achieves e C m" and f: "\<And>x. adds P (f x)"
  shows "achieves e C (bindA m f)"
  unfolding achieves_def bindA_Inr
proof (intro allI impI, elim exE conjE)
  fix h h1 x h2 y assume "m h = (h2, Inr y)" and r: "f y h2 = (h1, Inr x)"
  then have "passed e C h2" using m unfolding achieves_def by blast
  then show "passed e C h1" using addsE [OF f r] passed_more by blast
qed

lemma achieves_fail: "achieves e C (failA x)" by (simp add: achieves_def failA_def)

lemma achieves_defer: "achieves e C m \<Longrightarrow> achieves e C (deferA x m)"
  unfolding achieves_def deferA_def by (auto split: prod.splits intro: passed_more)

lemma achieves_run: "C (Cmd dir env inp argv) \<Longrightarrow> achieves e C (runA e dir env inp argv)"
  unfolding achieves_def runA_def passed_def by (auto simp: Let_def okA_def split: prod.splits option.splits) force

text \<open>The command that builds the image under both its tags, and the one that starts the services.\<close>

definition builds :: "deployApp \<Rightarrow> string \<Rightarrow> ev \<Rightarrow> bool" where
  "builds app ver c =
     (case c of Cmd _ _ _ argv \<Rightarrow> take 6 argv = [''docker'', ''build'', ''-t'', imageVer app ver, ''-t'', imageLocal app] | _ \<Rightarrow> False)"

definition starts :: "dep_env \<Rightarrow> deployApp \<Rightarrow> ev \<Rightarrow> bool" where
  "starts e app c =
     (case c of
        Cmd dir env _ argv \<Rightarrow>
          take 2 argv = [''docker'', ''compose''] \<and>
          drop (length argv - (4 + length (da_Compose app))) argv = [''up'', ''--no-deps'', ''--force-recreate'', ''-d''] @ da_Compose app \<and>
          env = compose_vars e dir
      | _ \<Rightarrow> False)"

lemma build_image_achieves: "achieves e (builds app ver) (build_image e app ver src lab inp)"
proof -
  have b: "achieves e (builds app ver) (build_in e tmp (imageVer app ver) (imageLocal app))" for tmp
    unfolding build_in_def by (rule achieves_run) (simp add: builds_def)
  have a: "achieves e (builds app ver) (buildImageArtifact e src job c (imageVer app ver) (imageLocal app))" for job c
    unfolding buildImageArtifact_def Let_def by (intro achieves_last achieves_run) (simp add: builds_def)
  show ?thesis
    unfolding build_image_def buildNodeImage_def buildPythonImage_def Let_def
    by (auto split: job_input.splits intro!: achieves_last achieves_defer achieves_fail achieves_run b a simp: builds_def)
qed

lemma prepare_achieves: "achieves e (builds app ver) (prepare e app ver src lab inp)"
  unfolding prepare_def by (rule achieves_first [where P = "may_touch e", OF build_image_achieves]) (intro adds_rules may_sync)

lemma composeTo_starts:
  assumes "composeUp e (da_Compose app) dir h = (h2, Inr ())" and "''platform'' \<notin> set (da_Compose app)"
  shows "\<exists>c rest. h2 = h @ c # rest \<and> starts e app c \<and> snd (de_run e (h @ [c])) = None"
proof -
  define d where "d = or_root e (or_root e dir)"
  define c where "c = Cmd d (compose_vars e d) [] (''docker'' # composeArgv e d ([''up'', ''--no-deps'', ''--force-recreate'', ''-d''] @ da_Compose app) h)"
  obtain ws r where r: "de_run e (h @ [c]) = (ws, r)" by fastforce
  have h2: "h2 = h @ c # map Say ws \<and> okA r = Inr ()"
    using assms r by (simp add: composeUp_def composeTo_def bindA_def askA_def runA_def Let_def d_def c_def)
  have dr: "drop (length (pre @ post) - (4 + length (da_Compose app))) (pre @ post) = post"
    if "length post = 4 + length (da_Compose app)" for pre post :: "string list"
    using that by simp
  have st: "starts e app c"
    using dr [of "[''up'', ''--no-deps'', ''--force-recreate'', ''-d''] @ da_Compose app"
      "''docker'' # [''compose'', ''--project-directory'', d] @ composeEnvFileArgs e h @ composeFileArgs e d h"]
    unfolding c_def starts_def ev.case composeArgv_def by (simp only: append_Cons append_assoc) simp
  have "snd (de_run e (h @ [c])) = None" using r h2 by (simp add: okA_def split: option.splits)
  with st h2 show ?thesis by blast
qed

definition status_in :: "int \<Rightarrow> ops_tabs \<Rightarrow> string list" where
  "status_in i t = map dp_Status (filter (\<lambda>r. dp_ID r = i) (op_deploys t))"

abbreviation not_ok :: "int \<Rightarrow> ops_tabs \<Rightarrow> bool" where "not_ok i t \<equiv> ''ok'' \<notin> set (status_in i t)"

lemma not_ok_mod:
  "validS (not_ok i) (modS (with_hub l f)) (\<lambda>_. not_ok i) E" "validS (not_ok i) (modS (drop_live j)) (\<lambda>_. not_ok i) E"
  by (rule valid_mod, simp add: status_in_def with_hub_def drop_live_def)+

lemma not_ok_log: "validS (not_ok i) (log_all l h) (\<lambda>_. not_ok i) E"
proof (induction l h rule: log_all.induct)
  case (2 l s h)
  show ?case by (simp add: run_write_def) (rule valid_bind [OF not_ok_mod(1)], rule 2)
qed (simp_all add: valid_ret)

lemma not_ok_finish: "validS (not_ok i) (finish_deploy i l (Some x)) (\<lambda>_. not_ok i) E"
proof -
  have m: "set (map dp_Status (filter (\<lambda>r. dp_ID r = i) (map (\<lambda>d. if dp_ID d = i then d\<lparr>dp_Status := st, dp_Log := s\<rparr> else d) rs))) \<subseteq> {st}"
    for st s rs by (induction rs) auto
  have u: "validS (not_ok i) (upd_deploy i ''fail'' l) (\<lambda>_. not_ok i) (not_ok i)"
    unfolding upd_deploy_def
  proof (rule valid_stmt)
    fix t t' :: ops_tabs and x assume "(let s = live_String (hb_run (op_hubs t ! l)) in
      if list_ex (\<lambda>d. dp_ID d = i) (op_deploys t) \<and> \<not> mediumtext s then Inl DataTooLong
      else Inr ((), t\<lparr>op_deploys := map (\<lambda>d. if dp_ID d = i then d\<lparr>dp_Status := ''fail'', dp_Log := s\<rparr> else d) (op_deploys t)\<rparr>)) = Inr (x, t')"
    then have "t' = t\<lparr>op_deploys := map (\<lambda>d. if dp_ID d = i then d\<lparr>dp_Status := ''fail'', dp_Log := live_String (hb_run (op_hubs t ! l))\<rparr> else d) (op_deploys t)\<rparr>" unfolding Let_def by (simp split: if_split_asm)
    then have eq: "op_deploys t' = map (\<lambda>d. if dp_ID d = i then d\<lparr>dp_Status := ''fail'', dp_Log := live_String (hb_run (op_hubs t ! l))\<rparr> else d) (op_deploys t)" by simp
    have "set (status_in i t') \<subseteq> {''fail''}" unfolding status_in_def eq by (rule m)
    then show "not_ok i t'" by auto
  qed
  show ?thesis
    unfolding finish_deploy_def say_err_def status_of_def option.case
    by (rule valid_bind [OF not_ok_mod(1)], rule valid_bind [OF valid_ignore [OF u]], rule not_ok_mod)
qed

lemma not_ok_end: "validS (not_ok i) (end_deploy i l (Some x)) (\<lambda>_. not_ok i) E"
  unfolding end_deploy_def by (rule valid_bind [OF not_ok_finish], rule not_ok_mod)

lemma not_ok_input: "validS (not_ok i) (deploy_input oe e txt app ver src lab) (\<lambda>_. not_ok i) E"
proof -
  have look: "validS (not_ok i) (lookupBuildCommit oe s v :: (ops_tabs, ops_err, string) dbm) (\<lambda>_. not_ok i) (not_ok i)" for s v
    unfolding lookupBuildCommit_def by (rule valid_reads) blast
  have com: "validS (not_ok i) (if b then lookupBuildCommit oe s v else retS [] :: (ops_tabs, ops_err, string) dbm) (\<lambda>_. not_ok i) (not_ok i)" for b s v
    by (cases b) (simp_all add: look valid_ret)
  have job: "validS (not_ok i) (getJob oe n) (\<lambda>_. not_ok i) (not_ok i)" for n
    unfolding getJob_def by (rule valid_reads) blast
  have "validS (not_ok i) (bindS (getJob oe (da_ScmName app)) (\<lambda>job.
      bindS (if imageArtifactCommit (file_at e src []) = [] then lookupBuildCommit oe (sj_Name job) ver else retS []) (\<lambda>c.
      retS (JobInput job c)))) (\<lambda>_. not_ok i) (not_ok i)"
    by (rule valid_bind [OF job], rule valid_bind [OF com], rule valid_ret)
  then show ?thesis unfolding deploy_input_def by (cases "lab = ''image''") (simp_all add: valid_ret valid_catch)
qed

text \<open>What has happened when the record says ok.\<close>

definition deployed :: "dep_env \<Rightarrow> deployApp \<Rightarrow> string \<Rightarrow> hist \<Rightarrow> bool" where
  "deployed e app ver h \<longleftrightarrow>
     (\<exists>h1 h2. h = h1 @ h2 \<and> passed e (builds app ver) h1 \<and>
        (''platform'' \<in> set (da_Compose app) \<or> (\<exists>c rest. h2 = c # rest \<and> starts e app c \<and> snd (de_run e (h1 @ [c])) = None)))"

lemma runDeploy_valid:
  "validS (not_ok i) (runDeploy oe e txt i app ver src lab l) (\<lambda>h t. deployed e app ver h \<or> not_ok i t) (\<lambda>_. True)"
  unfolding runDeploy_def run_write_def
proof (rule valid_bind [OF not_ok_mod(1)], rule valid_bind [OF not_ok_input])
  fix inp :: job_input
  obtain h1 r1 where p: "prepare e app ver src lab inp [] = (h1, r1)" by fastforce
  have end_fail: "validS (not_ok i) (bindS (end_deploy i l (Some x)) (\<lambda>_. retS h)) (\<lambda>h t. deployed e app ver h \<or> not_ok i t) (\<lambda>_. True)" for x h
    by (rule valid_bind [OF not_ok_end], rule valid_basic(1)) simp
  have any: "validS (not_ok i) m (\<lambda>h t. deployed e app ver h \<or> not_ok i t) (\<lambda>_. True)"
    if "ends m (deployed e app ver)" for m :: "(ops_tabs, 'e, hist) dbm"
  proof (rule validSI)
    fix s x s' assume "m s = (Inr x, s')"
    then show "deployed e app ver x \<or> not_ok i (db_tab s')" using that unfolding ends_def by (metis Pair_inject sum.inject(2))
  qed simp
  show "validS (not_ok i) (case prepare e app ver src lab inp [] of
       (h1, Inl x) \<Rightarrow> bindS (log_all l h1) (\<lambda>_. bindS (end_deploy i l (Some x)) (\<lambda>_. retS h1))
     | (h1, Inr dir) \<Rightarrow>
         bindS (log_all l h1) (\<lambda>_.
         case composeUp e (da_Compose app) dir h1 of
           (h2, r) \<Rightarrow>
             let new = drop (length h1) h2; err = (case r of Inl x \<Rightarrow> Some x | Inr _ \<Rightarrow> None) in
             if ''platform'' \<in> set (da_Compose app) then
               bindS (finish_deploy i l None) (\<lambda>_.
               bindS (log_all l new) (\<lambda>_.
               bindS (if err = None then retS () else finish_deploy i l err) (\<lambda>_.
               bindS (modS (drop_live i)) (\<lambda>_. retS h2))))
             else bindS (log_all l new) (\<lambda>_. bindS (end_deploy i l err) (\<lambda>_. retS h2))))
      (\<lambda>h t. deployed e app ver h \<or> not_ok i t) (\<lambda>_. True)"
  proof (cases r1)
    case (Inl x)
    show ?thesis unfolding p Inl prod.case sum.case by (rule valid_bind [OF not_ok_log], rule end_fail)
  next
    case (Inr dir)
    have b: "passed e (builds app ver) h1" using prepare_achieves p Inr unfolding achieves_def by blast
    obtain h2 r2 where u: "composeUp e (da_Compose app) dir h1 = (h2, r2)" by fastforce
    obtain new where new: "h2 = h1 @ new" using up_history(2) [OF p u] by blast
    have fin: "ends (if err = None then retS () else finish_deploy i l err) (\<lambda>_. True)" for err
      by (auto intro: ends_basic ends_finish)
    show ?thesis
    proof (cases "''platform'' \<in> set (da_Compose app) \<or> isOk r2")
      case True
      then have dep: "deployed e app ver h2"
      proof
        assume "isOk r2"
        then have r2: "r2 = Inr ()" by (auto simp: isOk_iff)
        show ?thesis
        proof (cases "''platform'' \<in> set (da_Compose app)")
          case False
          then show ?thesis using composeTo_starts [OF u [unfolded r2] False] b unfolding deployed_def by metis
        qed (use b new in \<open>auto simp: deployed_def\<close>)
      qed (use b new in \<open>auto simp: deployed_def\<close>)
      show ?thesis
        unfolding p Inr u prod.case sum.case Let_def
        by (rule any, rule ends_bind [OF ends_log])
          (auto intro!: ends_bind [OF ends_log] ends_bind [OF ends_end] ends_bind [OF ends_finish] ends_bind [OF fin]
             ends_bind [OF ends_basic(2)] ends_basic(1) dep simp del: not_None_eq)
    next
      case False
      then have np: "''platform'' \<notin> set (da_Compose app)" by blast
      obtain x where r2: "r2 = Inl x" using False by (cases r2) (auto simp: isOk_def)
      show ?thesis
        unfolding p Inr u r2 prod.case sum.case Let_def if_not_P [OF np]
        by (rule valid_bind [OF not_ok_log], rule valid_bind [OF not_ok_log], simp, rule end_fail)
    qed
  qed
qed


text \<open>C40 If a run has brought the record of a deployment to ok, then the command that builds the image of this version has ended without an error and, unless the platform replaces itself, the command that starts all services of the application has ended without an error after it.\<close>

theorem deploy_ok_means_up:
  assumes "runDeploy oe e txt i app ver src lab l d = (Inr h, d')"
    and "''ok'' \<notin> set (status_in i (db_tab d))" and "''ok'' \<in> set (status_in i (db_tab d'))"
  shows "deployed e app ver h"
  using validSD(2) [OF runDeploy_valid assms(2) assms(1)] assms(3) by blast

definition demo_dep :: dep_env where
  "demo_dep = \<lparr>de_root = ''/w'', de_hostEnv = ''/host'', de_mounts = None, de_stat = (\<lambda>_ _. Missing), de_read = (\<lambda>_ _. Inl None),
     de_glob = (\<lambda>_. Some []), de_run = (\<lambda>_. ([], None)), de_out = (\<lambda>_. (''home'', None)), de_fs = (\<lambda>_. None),
     de_tmp = (\<lambda>_. Inr ''/tmp/mk''), de_order = (\<lambda>_ m. m), de_yaml = (\<lambda>_. Inl ''no YAML''), de_yamlOut = (\<lambda>_. Inl []),
     de_sync = (\<lambda>_. \<lparr>sy_lower = (\<lambda>s. s), sy_origin = None, sy_git = (\<lambda>_. ([], Inr ())), sy_removeAll = None, sy_mkdirAll = None\<rparr>)\<rparr>"

definition demo_deploy_tab :: ops_tabs where
  "demo_deploy_tab = ops_migrate\<lparr>op_deploys := [\<lparr>dp_ID = 1, dp_Service = ''app'', dp_Version = ''v1'', dp_Status = ''running'', dp_Log = []\<rparr>],
     op_nextDeploy := 2, op_hubs := [new_hub], op_lives := [(1, 0)]\<rparr>"

definition demo_app :: deployApp where
  "demo_app = \<lparr>da_ID = 1, da_Name = ''app'', da_ScmName = ''a'', da_Compose = [''web''], da_Label = ''golang''\<rparr>"

definition demo_deploy :: "(ops_tabs, unit, hist) dbm" where
  "demo_deploy = runDeploy demo_ops demo_dep (\<lambda>_. []) 1 demo_app ''v1'' ''/w/artifacts/a/v1/a'' ''golang'' 0"

text \<open>The length of a log, for evaluation.\<close>

fun shorter :: "string \<Rightarrow> int \<Rightarrow> bool" where
  "shorter [] n = (0 < n)"
| "shorter (c # s) n = (0 < n \<and> shorter s (n - 1))"

lemma shorter_iff: "shorter s n \<longleftrightarrow> int (length s) < n"
proof (induction s arbitrary: n)
  case (Cons c s)
  have "shorter (c # s) n \<longleftrightarrow> 0 < n \<and> int (length s) < n - 1" by (simp only: shorter.simps Cons)
  also have "\<dots> \<longleftrightarrow> int (length (c # s)) < n" by (simp only: list.size(4)) linarith
  finally show ?case .
qed simp

lemma mediumtext_code [code]: "mediumtext s = shorter s 16777216"
proof -
  have "(2::int) ^ 24 = 16777216" by simp
  then show ?thesis by (simp only: mediumtext_def shorter_iff)
qed

definition demo_h1 :: hist where
  "demo_h1 = fst (prepare demo_dep demo_app ''v1'' ''/w/artifacts/a/v1/a'' ''golang'' NotAsked [])"

definition demo_h2 :: hist where "demo_h2 = fst (composeUp demo_dep [''web''] ''/w'' demo_h1)"

definition demo_said :: "(ops_tabs, unit, unit) dbm" where
  "demo_said = bindS (run_write 0 (build_line demo_app ''v1'' ''golang'')) (\<lambda>_. bindS (log_all 0 demo_h1) (\<lambda>_.
     log_all 0 (drop (length demo_h1) demo_h2)))"

lemma bindS_assoc: "bindS (bindS m f) g = bindS m (\<lambda>x. bindS (f x) g)"
  by (rule ext) (auto simp: bindS_def split: prod.split sum.split)

lemma demo_deploy_steps: "snd (demo_deploy s) = snd (bindS demo_said (\<lambda>_. end_deploy 1 0 None) s)"
proof -
  have p: "prepare demo_dep demo_app ''v1'' ''/w/artifacts/a/v1/a'' ''golang'' NotAsked [] = (demo_h1, Inr ''/w'')"
    unfolding demo_h1_def by (rule prod_eqI) (simp, simp only: snd_conv, code_simp)
  have u: "composeUp demo_dep (da_Compose demo_app) ''/w'' demo_h1 = (demo_h2, Inr ())"
    unfolding demo_h2_def by (rule prod_eqI) (simp add: demo_app_def, simp only: snd_conv, code_simp)
  have w: "''platform'' \<notin> set (da_Compose demo_app)" by (simp add: demo_app_def)
  have d: "demo_deploy = bindS (run_write 0 (build_line demo_app ''v1'' ''golang'')) (\<lambda>_. bindS (log_all 0 demo_h1) (\<lambda>_.
     bindS (log_all 0 (drop (length demo_h1) demo_h2)) (\<lambda>_. bindS (end_deploy 1 0 None) (\<lambda>_. retS demo_h2))))"
    unfolding demo_deploy_def runDeploy_def deploy_input_def by (simp add: p u w)
  have e1: "demo_deploy = bindS (bindS demo_said (\<lambda>_. end_deploy 1 0 None)) (\<lambda>_. retS demo_h2)"
    unfolding d demo_said_def bindS_assoc ..
  have e2: "snd (bindS m (\<lambda>_. retS y) s) = snd (m s)" for m :: "(ops_tabs, unit, unit) dbm" and y :: hist
    by (simp add: bindS_def retS_def split: prod.split sum.split)
  show ?thesis unfolding e1 e2 ..
qed

lemma demo_deploy_ends:
  "status_in 1 (db_tab (snd (demo_deploy (healthy demo_deploy_tab)))) = [''ok'']" "status_in 1 demo_deploy_tab = [''running'']"
  by (simp only: demo_deploy_steps, code_simp) code_simp

theorem deploy_ok_means_up_witness:
  "\<exists>h d'. demo_deploy (healthy demo_deploy_tab) = (Inr h, d') \<and> status_in 1 (db_tab d') = [''ok''] \<and> deployed demo_dep demo_app ''v1'' h"
proof -
  obtain h d' where c: "demo_deploy (healthy demo_deploy_tab) = (Inr h, d')"
    using ends_deploy unfolding ends_def demo_deploy_def by blast
  have v: "status_in 1 (db_tab d') = [''ok'']" using demo_deploy_ends(1) by (simp only: c snd_conv)
  have "deployed demo_dep demo_app ''v1'' h"
    by (rule deploy_ok_means_up [OF c [unfolded demo_deploy_def]]) (simp_all add: demo_deploy_ends(2) v)
  with c v show ?thesis by blast
qed

section \<open>The tables stay well-formed\<close>

lemma log_all_valid: "keeps oe (log_all l h)"
proof (induction l h rule: log_all.induct)
  case (2 l s h)
  show ?case by (simp add: run_write_def) (rule valid_bind [OF mod_hub_valid], rule 2)
qed (simp_all add: valid_ret)

lemma deploy_input_valid: "validS P (deploy_input oe e txt app ver src lab) (\<lambda>_. P) P"
proof -
  have com: "reads (if b then lookupBuildCommit oe s v else retS [] :: (ops_tabs, ops_err, string) dbm)" for b s v
    by (cases b) (simp_all add: lookupBuildCommit_def reads_intros reads_catchS)
  have job: "reads (getJob oe n)" for n unfolding getJob_def by blast
  have "reads (deploy_input oe e txt app ver src lab)"
    unfolding deploy_input_def by (simp add: reads_intros reads_catchS reads_bindS job com)
  then show ?thesis by (rule valid_reads)
qed

text \<open>Whatever a run of a deployment or a build does, the tables keep their invariant.\<close>

lemma runDeploy_keeps: "keeps oe (runDeploy oe e txt i app ver src lab l)"
proof -
  have f: "keeps oe (if err = None then retS () else finish_deploy i l err)" for err
    by (simp add: valid_ret finish_deploy_valid)
  have up: "keeps oe (if ''platform'' \<in> set (da_Compose app) then
               bindS (finish_deploy i l None) (\<lambda>_. bindS (log_all l new) (\<lambda>_.
               bindS (if err = None then retS () else finish_deploy i l err) (\<lambda>_. bindS (modS (drop_live i)) (\<lambda>_. retS h))))
             else bindS (log_all l new) (\<lambda>_. bindS (end_deploy i l err) (\<lambda>_. retS h)))" for new h err
  proof (cases "''platform'' \<in> set (da_Compose app)")
    case True
    show ?thesis unfolding if_P [OF True]
      by (rule valid_bind [OF finish_deploy_valid], rule valid_bind [OF log_all_valid], rule valid_bind [OF f], rule valid_bind [OF drop_live_valid], rule valid_ret)
  next
    case False
    show ?thesis unfolding if_not_P [OF False] by (rule valid_bind [OF log_all_valid], rule valid_bind [OF end_deploy_valid], rule valid_ret)
  qed
  have fin: "keeps oe (case r of (h1, Inl x) \<Rightarrow> bindS (log_all l h1) (\<lambda>_. bindS (end_deploy i l (Some x)) (\<lambda>_. retS h1))
     | (h1, Inr dir) \<Rightarrow>
         bindS (log_all l h1) (\<lambda>_.
         case composeUp e (da_Compose app) dir h1 of
           (h2, r) \<Rightarrow>
             let new = drop (length h1) h2; err = (case r of Inl x \<Rightarrow> Some x | Inr _ \<Rightarrow> None) in
             if ''platform'' \<in> set (da_Compose app) then
               bindS (finish_deploy i l None) (\<lambda>_.
               bindS (log_all l new) (\<lambda>_.
               bindS (if err = None then retS () else finish_deploy i l err) (\<lambda>_.
               bindS (modS (drop_live i)) (\<lambda>_. retS h2))))
             else bindS (log_all l new) (\<lambda>_. bindS (end_deploy i l err) (\<lambda>_. retS h2))))" for r
  proof (cases r)
    case (Pair h1 r1)
    show ?thesis
    proof (cases r1)
      case (Inl x)
      show ?thesis unfolding Pair Inl prod.case sum.case
        by (rule valid_bind [OF log_all_valid], rule valid_bind [OF end_deploy_valid], rule valid_ret)
    next
      case (Inr dir)
      show ?thesis unfolding Pair Inr prod.case sum.case Let_def
        by (rule valid_bind [OF log_all_valid], cases "composeUp e (da_Compose app) dir h1", simp only: prod.case, rule up)
    qed
  qed
  show ?thesis unfolding runDeploy_def
    by (rule valid_bind [OF run_write_valid], rule valid_bind [OF deploy_input_valid], rule fin)
qed

lemma runBuild_keeps: "keeps oe (runBuild ce root i job branch ver bin l)"
  unfolding runBuild_def by (cases "compileJob ce root job branch ver bin") (auto intro: valid_bind log_all_valid end_build_valid)

lemma runBuildDeploy_keeps: "keeps oe (runBuildDeploy oe e txt ce b i job app branch ver bin lab l)"
proof -
  have f: "keeps oe (if go then runDeploy oe e txt i app ver bin lab l else retS [])" for go
    by (simp add: valid_ret runDeploy_keeps)
  show ?thesis unfolding runBuildDeploy_def
    by (cases "compileJob ce (de_root e) job branch ver bin", simp only: prod.case, rule valid_bind [OF log_all_valid], rule valid_bind [OF mid_valid], rule f)
qed

section \<open>The services of a combined compose file\<close>

lemma split_ln: "list_all (\<lambda>l. CHR 0x0A \<notin> set l) ls \<Longrightarrow> split_on CHR 0x0A (concat (map ln ls)) = ls @ [[]]"
  by (induction ls) (simp_all add: ln_def split_on_append)

lemma split_after_ln: "list_all (\<lambda>l. CHR 0x0A \<notin> set l) ls \<Longrightarrow> split_after (concat (map ln ls)) = map ln ls @ [[]]"
  unfolding split_after_def by (simp add: split_ln)

lemma trim_ln: "CHR 0x0A \<notin> set l \<Longrightarrow> trim_right_set [CHR 0x0A] (ln l) = l"
  by (cases l rule: rev_cases) (auto simp: trim_right_set_def ln_def)

definition body_lines :: "string \<Rightarrow> string \<Rightarrow> string \<Rightarrow> string list" where
  "body_lines svc img lab =
     [''    image: '' @ img, ''    hostname: '' @ svc, ''    pull_policy: never'', ''    expose:'', ''      - '' @ dq ''80'', ''    labels:'',
      ''      psm: '' @ svc] @
     (if lab = ''golang'' \<or> lab = ''python'' then [''    environment:'', ''      LISTEN: '' @ dq ''0.0.0.0:80''] else [])"

definition head_line :: "string \<Rightarrow> string" where "head_line svc = ''  '' @ svc @ '':''"

lemma service_body_lines: "service_body svc img lab = concat (map ln (head_line svc # body_lines svc img lab))"
  by (simp add: service_body_def body_lines_def head_line_def)

lemma body_line_kept:
  "l \<in> set (body_lines svc img lab) \<Longrightarrow> CHR 0x0A \<notin> set l \<Longrightarrow> n \<noteq> [] \<Longrightarrow> split_line (ln l) (n, b, out) = (n, b @ ln l, out)"
proof -
  assume l: "l \<in> set (body_lines svc img lab)" "CHR 0x0A \<notin> set l" "n \<noteq> []"
  have "take 4 l = ''    ''" using l(1) by (auto simp: body_lines_def split: if_splits)
  then obtain r where r: "l = ''    '' @ r" by (metis append_take_drop_id)
  have "has_prefix (ln l) ''    ''" "l \<noteq> ''services:''" by (simp_all add: r ln_def has_prefix_def)
  then show ?thesis by (simp add: split_line_def trim_ln [OF l(2)] Let_def l(3))
qed

lemma body_kept:
  assumes "n \<noteq> []" and "CHR 0x0A \<notin> set svc" and "CHR 0x0A \<notin> set img"
  shows "fold split_line (map ln (body_lines svc img lab)) (n, b, out) = (n, b @ concat (map ln (body_lines svc img lab)), out)"
proof -
  have nl: "CHR 0x0A \<notin> set l" if "l \<in> set (body_lines svc img lab)" for l
    using that assms(2,3) by (auto simp: body_lines_def dq_def split: if_splits)
  have "fold split_line (map ln ls) (n, b, out) = (n, b @ concat (map ln ls), out)" if "set ls \<subseteq> set (body_lines svc img lab)" for ls b
    using that
  proof (induction ls arbitrary: b)
    case (Cons l ls)
    then have l: "l \<in> set (body_lines svc img lab)" by simp
    show ?case using Cons body_line_kept [OF l nl [OF l] assms(1)] by simp
  qed simp
  then show ?thesis by blast
qed

lemma jobName_chars: "jobName s \<Longrightarrow> CHR 0x0A \<notin> set s"
  by (auto simp: jobName_def list_all_iff alpha_digit_def is_lower_c_def is_upper_c_def is_digit_c_def ordc_def)

lemma head_starts:
  assumes "jobName svc"
  shows "split_line (ln (head_line svc)) st = (svc, ln (head_line svc), flush st)"
proof -
  have nl: "CHR 0x0A \<notin> set (head_line svc)" using jobName_chars [OF assms] by (simp add: head_line_def)
  obtain c s where svc: "svc = c # s" "plain_c c" using assms jobName_plain [OF assms] by (cases svc) (auto simp: jobName_def)
  have "c \<noteq> CHR '' ''" using svc(2) by (auto simp: plain_c_def ordc_def)
  then have p: "has_prefix (ln (head_line svc)) ''  ''" "\<not> has_prefix (ln (head_line svc)) ''    ''" "head_line svc \<noteq> ''services:''"
    by (simp_all add: head_line_def ln_def has_prefix_def svc(1))
  have sfx: "has_suffix (head_line svc) '':''" by (simp add: head_line_def has_suffix_def)
  have "list_all plain_c (svc @ '':'')" using jobName_plain [OF assms] by (simp add: plain_c_def ordc_def)
  then have w: "trim_right_ws (svc @ '':'') = svc @ '':''" "ws_head (svc @ '':'') = 0"
    using plain_no_ws [of "svc @ '':''"] by (simp_all add: trim_right_ws.simps)
  have h: "ws_head (CHR '' '' # r) = 1" for r by (simp add: ws_head_code plain_c_def ordc_def)
  have "trim_left_ws (head_line svc) = svc @ '':''"
    by (simp add: head_line_def trim_left_ws.simps [of "CHR '' '' # _"] h) (simp add: trim_left_ws.simps w(2))
  then have "trim_space (head_line svc) = svc @ '':''" by (simp add: trim_space_def w(1))
  moreover have "trim_suffix (svc @ '':'') '':'' = svc" by (simp add: trim_suffix_def has_suffix_def)
  ultimately show ?thesis using p sfx by (cases st) (simp add: split_line_def trim_ln [OF nl] Let_def)
qed

definition svc_lines :: "string \<times> string \<times> string \<Rightarrow> string list" where
  "svc_lines s = (case s of (n, img, lab) \<Rightarrow> head_line n # body_lines n img lab)"

lemma service_split:
  assumes "jobName n" and "CHR 0x0A \<notin> set img"
  shows "fold split_line (map ln (svc_lines (n, img, lab))) st = (n, service_body n img lab, flush st)"
proof -
  have n: "n \<noteq> []" using assms(1) by (simp add: jobName_def)
  show ?thesis
    by (simp add: svc_lines_def head_starts [OF assms(1)] body_kept [OF n jobName_chars [OF assms(1)] assms(2)] service_body_lines)
qed

lemma services_split:
  assumes "list_all (\<lambda>(n, img, lab). jobName n \<and> CHR 0x0A \<notin> set img) svcs"
  shows "flush (fold split_line (concat (map (map ln \<circ> svc_lines) svcs)) st) =
    fold (\<lambda>(n, img, lab) m. al_put n (service_body n img lab) m) svcs (flush st)"
  using assms
proof (induction svcs arbitrary: st)
  case (Cons s svcs)
  obtain n img lab where s: "s = (n, img, lab)" by (cases s)
  have n: "jobName n" "CHR 0x0A \<notin> set img" "n \<noteq> []" using Cons.prems by (auto simp: s jobName_def)
  have "flush (n, service_body n img lab, flush st) = al_put n (service_body n img lab) (flush st)" using n(3) by (simp add: flush_def)
  then show ?case using Cons by (simp add: s service_split [OF n(1,2)])
qed simp

lemma al_put_new: "k \<notin> fst ` set m \<Longrightarrow> al_put k v m = m @ [(k, v)]"
  by (induction k v m rule: al_put.induct) auto

lemma put_all_new:
  "distinct (map fst m @ map fst svcs) \<Longrightarrow>
   fold (\<lambda>(n, img, lab) m. al_put n (service_body n img lab) m) svcs m = m @ map (\<lambda>(n, img, lab). (n, service_body n img lab)) svcs"
proof (induction svcs arbitrary: m)
  case (Cons s svcs)
  obtain n img lab where s: "s = (n, img, lab)" by (cases s)
  have "n \<notin> fst ` set m" using Cons.prems by (auto simp: s)
  then show ?case using Cons by (auto simp: s al_put_new)
qed simp

text \<open>A combined file: the services of the single files one after the other.\<close>

definition combined :: "(string \<times> string \<times> string) list \<Rightarrow> string" where
  "combined svcs = ln ''services:'' @ concat (map (\<lambda>(n, img, lab). service_body n img lab) svcs)"

lemma combined_splits:
  assumes "list_all (\<lambda>(n, img, lab). jobName n \<and> CHR 0x0A \<notin> set img) svcs" and "distinct (map fst svcs)"
  shows "splitRuntimeServices (combined svcs) = map (\<lambda>(n, img, lab). (n, service_body n img lab)) svcs"
proof -
  let ?ls = "''services:'' # concat (map svc_lines svcs)"
  have c: "combined svcs = concat (map ln ?ls)"
    unfolding combined_def by (induction svcs) (auto simp: service_body_lines svc_lines_def)
  have "list_all (\<lambda>l. CHR 0x0A \<notin> set l) ?ls"
    using assms(1) jobName_chars by (auto simp: list_all_iff svc_lines_def head_line_def body_lines_def dq_def split: if_splits prod.splits)
  then have sa: "split_after (combined svcs) = map ln ?ls @ [[]]" unfolding c by (rule split_after_ln)
  have first: "split_line (ln ''services:'') st = st" for st
    by (cases st) (simp add: split_line_def trim_ln Let_def)
  have last: "flush (split_line [] st) = flush st" for st
    by (cases st) (simp add: split_line_def flush_def trim_right_set_def has_prefix_def Let_def)
  have m: "map ln (concat (map svc_lines svcs)) = concat (map (map ln \<circ> svc_lines) svcs)" by (simp add: map_concat)
  have "splitRuntimeServices (combined svcs) = flush (fold split_line (concat (map (map ln \<circ> svc_lines) svcs)) ([], [], []))"
    unfolding splitRuntimeServices_def sa by (simp add: first last m)
  also have "\<dots> = fold (\<lambda>(n, img, lab) m. al_put n (service_body n img lab) m) svcs []"
    unfolding services_split [OF assms(1)] by (simp add: flush_def)
  also have "\<dots> = map (\<lambda>(n, img, lab). (n, service_body n img lab)) svcs"
    using put_all_new [of "[]" svcs] assms(2) by simp
  finally show ?thesis .
qed

text \<open>Sections other than \<open>services\<close> are not told apart.\<close>

lemma volumes_split_as_services:
  "splitRuntimeServices (ln ''services:'' @ ln ''  a:'' @ ln ''    image: x'' @ ln ''volumes:'' @ ln ''  data:'') =
     [(''a'', ln ''  a:'' @ ln ''    image: x'' @ ln ''volumes:''), (''data'', ln ''  data:'')]"
  by code_simp

lemma put_bodies_all:
  assumes "\<And>h. de_fs e h = None" and "list_all (\<lambda>(n, b). jobName n) bs"
  shows "put_bodies e bs h = (h @ map (\<lambda>(n, b). Put (runtime_file e n) (ln ''services:'' @ b)) bs, Inr ())"
  using assms(2)
proof (induction bs arbitrary: h)
  case (Cons x bs)
  then show ?case by (cases x) (simp add: bindA_def fsA_def assms(1) okA_def Let_def)
qed (simp add: retA_def)

text \<open>C26 A combined deploy/runtime.yml of distinct services is split into one file for each, with the text the platform writes for that service alone, before it is removed; the order is that in which the map is read.\<close>

theorem combined_runtime_splits:
  assumes "de_read e h (path_Join [de_root e, ''deploy'', ''runtime.yml'']) = Inr (combined svcs)"
    and "\<And>h. de_fs e h = None" and "\<And>h m. mset (de_order e h m) = mset m"
    and "list_all (\<lambda>(n, img, lab). jobName n \<and> CHR 0x0A \<notin> set img) svcs" and "distinct (map fst svcs)"
  shows "\<exists>files. mset files = mset (map (\<lambda>(n, img, lab). (runtime_file e n, runtimeServiceYAML n img lab)) svcs) \<and>
    splitCombinedRuntime e h =
      (h @ Mkdir (runtime_dir e) # map (\<lambda>(p, b). Put p b) files @ [Del (path_Join [de_root e, ''deploy'', ''runtime.yml''])], Inr ())"
proof -
  define bs where "bs = de_order e (h @ [Mkdir (runtime_dir e)]) (splitRuntimeServices (combined svcs))"
  have bs: "mset bs = mset (map (\<lambda>(n, img, lab). (n, service_body n img lab)) svcs)"
    unfolding bs_def assms(3) combined_splits [OF assms(4,5)] ..
  then have "set bs = set (map (\<lambda>(n, img, lab). (n, service_body n img lab)) svcs)" by (rule mset_eq_setD)
  then have j: "list_all (\<lambda>(n, b). jobName n) bs" using assms(4) by (auto simp: list_all_iff)
  let ?f = "\<lambda>(n, b). (runtime_file e n, ln ''services:'' @ b)"
  have "mset (map ?f bs) = image_mset ?f (mset (map (\<lambda>(n, img, lab). (n, service_body n img lab)) svcs))"
    unfolding mset_map bs ..
  also have "\<dots> = mset (map (\<lambda>(n, img, lab). (runtime_file e n, runtimeServiceYAML n img lab)) svcs)"
    unfolding mset_map [symmetric] map_map by (rule arg_cong [where f = mset]) (auto simp: runtimeServiceYAML_def)
  finally have m: "mset (map ?f bs) = mset (map (\<lambda>(n, img, lab). (runtime_file e n, runtimeServiceYAML n img lab)) svcs)" .
  have p: "map (\<lambda>(n, b). Put (runtime_file e n) (ln ''services:'' @ b)) bs = map (\<lambda>(p, b). Put p b) (map ?f bs)" by auto
  have "splitCombinedRuntime e h = (h @ Mkdir (runtime_dir e) # map (\<lambda>(p, b). Put p b) (map ?f bs) @
      [Del (path_Join [de_root e, ''deploy'', ''runtime.yml''])], Inr ())"
    using put_bodies_all [OF assms(2) j, of "h @ [Mkdir (runtime_dir e)]"]
    unfolding splitCombinedRuntime_def p bindA_def askA_def fsA_def Let_def assms(1) by (simp add: assms(2) okA_def bs_def)
  with m show ?thesis by blast
qed

definition demo_services :: "(string \<times> string \<times> string) list" where
  "demo_services = [(''home'', ''minikitex-home:local'', ''golang''), (''home-web'', ''minikitex-home-web:local'', ''node'')]"

definition demo_comb :: dep_env where "demo_comb = demo_dep\<lparr>de_read := \<lambda>_ _. Inr (combined demo_services)\<rparr>"

theorem combined_runtime_splits_witness:
  "\<exists>files. mset files = {#(''/w/deploy/runtime/home.yml'', runtimeServiceYAML ''home'' ''minikitex-home:local'' ''golang''),
      (''/w/deploy/runtime/home-web.yml'', runtimeServiceYAML ''home-web'' ''minikitex-home-web:local'' ''node'')#} \<and>
    splitCombinedRuntime demo_comb [] =
      (Mkdir ''/w/deploy/runtime'' # map (\<lambda>(p, b). Put p b) files @ [Del ''/w/deploy/runtime.yml''], Inr ())"
proof -
  let ?e = demo_comb
  have p: "path_Join [de_root ?e, ''deploy'', ''runtime.yml''] = ''/w/deploy/runtime.yml''" "runtime_dir ?e = ''/w/deploy/runtime''"
    "runtime_file ?e ''home'' = ''/w/deploy/runtime/home.yml''" "runtime_file ?e ''home-web'' = ''/w/deploy/runtime/home-web.yml''"
    by code_simp+
  have s: "list_all (\<lambda>(n, img, lab). jobName n \<and> CHR 0x0A \<notin> set img) demo_services" "distinct (map fst demo_services)" by code_simp+
  have e: "de_read ?e [] q = Inr (combined demo_services)" "de_fs ?e g = None" "mset (de_order ?e g m) = mset m" for q g m
    by (simp_all add: demo_comb_def demo_dep_def)
  show ?thesis
    using combined_runtime_splits [OF e(1) e(2) e(3) s] unfolding p append_Nil by (simp add: demo_services_def p)
qed

end
