(* ===== verification/Gateway.thy ===== *)
theory Gateway
  imports Generic Repo
begin

text \<open>
  example/gateway/main.go: the gateway takes HTTP requests, calls the methods of the backends through the generic
  client and answers in JSON, or with a stream of events for builds and deployments. A client is a connection with
  the specification it was dialled with; \<open>gateway_env\<close> says how the network, JSON and the clock behave.
\<close>

section \<open>Backends\<close>

record backend =
  be_name :: string
  be_addr :: string
  be_spec :: spec

datatype load_err = LoadRead string | LoadIdl idl_err | BadGlob

text \<open>The environment, the files that \<open>filepath.Glob\<close> finds, and the text of a file.\<close>

record load_env =
  le_getenv :: "string \<Rightarrow> string"
  le_lower :: "string \<Rightarrow> string"
  le_upper :: "string \<Rightarrow> string"
  le_glob :: "string \<Rightarrow> string list option"
  le_file :: "string \<Rightarrow> string + string"

definition getenv_or :: "load_env \<Rightarrow> string \<Rightarrow> string \<Rightarrow> string" where
  "getenv_or e k d = (if le_getenv e k \<noteq> [] then le_getenv e k else d)"

definition path_Ext :: "string \<Rightarrow> string" where
  "path_Ext p =
     (let b = (case last_index p CHR ''/'' of None \<Rightarrow> p | Some i \<Rightarrow> drop (i + 1) p) in
      case last_index b CHR ''.'' of None \<Rightarrow> [] | Some i \<Rightarrow> drop i b)"

definition addrFor :: "load_env \<Rightarrow> string \<Rightarrow> string" where
  "addrFor e name =
     getenv_or e (to_upper (le_upper e) name @ ''_ADDR'')
       (if name = ''platform'' then ''127.0.0.1:8887'' else if name = ''user'' then ''127.0.0.1:8888'' else ''127.0.0.1:8889'')"

definition parse_file :: "load_env \<Rightarrow> string \<Rightarrow> load_err + spec" where
  "parse_file e path =
     (case le_file e path of
        Inl x \<Rightarrow> Inl (LoadRead x)
      | Inr s \<Rightarrow> (case Parse (le_upper e) s of Inl x \<Rightarrow> Inl (LoadIdl x) | Inr sp \<Rightarrow> Inr sp))"

definition backend_of :: "load_env \<Rightarrow> string \<Rightarrow> spec \<Rightarrow> backend" where
  "backend_of e path sp =
     (let name = trim_suffix (path_Base path) (path_Ext path) in \<lparr>be_name = name, be_addr = addrFor e name, be_spec = sp\<rparr>)"

fun load_each :: "load_env \<Rightarrow> string list \<Rightarrow> load_err + backend list" where
  "load_each e [] = Inr []"
| "load_each e (path # paths) =
     bindR (parse_file e path) (\<lambda>sp.
     bindR (load_each e paths) (\<lambda>rest.
     Inr (if list_ex (\<lambda>m. m_URI m \<noteq> []) (sp_Methods sp) then backend_of e path sp # rest else rest)))"

definition loadBackends :: "load_env \<Rightarrow> load_err + backend list" where
  "loadBackends e =
     (let one = le_getenv e ''IDL'' in
      if one \<noteq> [] then bindR (parse_file e one) (\<lambda>sp. Inr [backend_of e one sp])
      else (case le_glob e (path_Join [getenv_or e ''IDL_DIR'' ''idl'', ''*.thrift'']) of
              None \<Rightarrow> Inl BadGlob
            | Some paths \<Rightarrow> load_each e paths))"

section \<open>Routes\<close>

definition is_alpha :: "char \<Rightarrow> bool" where "is_alpha c \<longleftrightarrow> is_lower_c c \<or> is_upper_c c"

text \<open>\<open>paramPat.ReplaceAllString(uri, "{$1}")\<close> with the pattern \<open>:([A-Za-z]+)\<close>.\<close>

function param_sub :: "string \<Rightarrow> string" where
  "param_sub [] = []"
| "param_sub (c # s) =
     (if c = CHR '':'' \<and> takeWhile is_alpha s \<noteq> []
      then [CHR 0x7B] @ takeWhile is_alpha s @ [CHR 0x7D] @ param_sub (dropWhile is_alpha s)
      else c # param_sub s)"
  by pat_completeness auto
termination
  by (relation "measure length") (auto simp: le_imp_less_Suc length_dropWhile_le)

record route =
  ro_pattern :: string
  ro_backend :: backend
  ro_method :: imethod

definition route_of :: "backend \<Rightarrow> imethod \<Rightarrow> route" where
  "route_of b m =
     \<lparr>ro_pattern = (if m_HTTPMethod m = [] then ''POST'' else m_HTTPMethod m) @ '' '' @ param_sub (m_URI m),
      ro_backend = b, ro_method = m\<rparr>"

definition routes_of :: "backend \<Rightarrow> route list" where
  "routes_of b = map (route_of b) (filter (\<lambda>m. m_URI m \<noteq> []) (sp_Methods (be_spec b)))"

section \<open>Calls\<close>

text \<open>Each use of the network has its time: \<open>ge_dial\<close> gives the error of a dial, \<open>ge_net\<close> what is behind a
  connection. \<open>ge_text\<close> gives the text of an error that is not the text of a remote one.\<close>

record gateway_env =
  ge_json :: json_env
  ge_marshal :: "any \<Rightarrow> string"
  ge_any :: "string \<Rightarrow> any option"
  ge_sprint :: "any \<Rightarrow> string"
  ge_text :: "generic_err \<Rightarrow> string"
  ge_dial :: "nat \<Rightarrow> string \<Rightarrow> string option"
  ge_net :: "nat \<Rightarrow> nat \<Rightarrow> net"
  ge_done :: "nat \<Rightarrow> bool"

record gw =
  gw_clis :: "(string \<times> nat) list"
  gw_conns :: "(spec \<times> client) list"
  gw_time :: nat

definition gw_new :: gw where "gw_new = \<lparr>gw_clis = [], gw_conns = [], gw_time = 0\<rparr>"

definition tick :: "gw \<Rightarrow> gw" where "tick g = g\<lparr>gw_time := gw_time g + 1\<rparr>"

definition err_text :: "gateway_env \<Rightarrow> generic_err \<Rightarrow> string" where
  "err_text e x =
     (case x of
        GUnknownMethod m \<Rightarrow> ''generic: unknown method '' @ m
      | GCall CallSeq \<Rightarrow> ''runtime: seq mismatch''
      | GCall (CallRemote s) \<Rightarrow> s
      | _ \<Rightarrow> ge_text e x)"

text \<open>\<open>generic.Dial\<close>: the number of the new connection.\<close>

definition dial_once :: "gateway_env \<Rightarrow> string \<Rightarrow> spec \<Rightarrow> gw \<Rightarrow> (string + nat) \<times> gw" where
  "dial_once e addr sp g =
     (case ge_dial e (gw_time g) addr of
        Some x \<Rightarrow> (Inl x, tick g)
      | None \<Rightarrow> (Inr (length (gw_conns g)), tick (g\<lparr>gw_conns := gw_conns g @ [(sp, Dial)]\<rparr>)))"

fun dial_tries :: "gateway_env \<Rightarrow> string \<Rightarrow> spec \<Rightarrow> nat \<Rightarrow> string \<Rightarrow> gw \<Rightarrow> (string + nat) \<times> gw" where
  "dial_tries e addr sp 0 err g = (Inl err, g)"
| "dial_tries e addr sp (Suc n) err g =
     (case dial_once e addr sp g of
        (Inr k, g1) \<Rightarrow> (Inr k, g1)
      | (Inl x, g1) \<Rightarrow> dial_tries e addr sp n x g1)"

definition dial :: "gateway_env \<Rightarrow> string \<Rightarrow> spec \<Rightarrow> gw \<Rightarrow> (string + nat) \<times> gw" where
  "dial e addr sp g = dial_tries e addr sp 50 [] g"

definition ensure :: "gateway_env \<Rightarrow> backend \<Rightarrow> gw \<Rightarrow> (string + nat) \<times> gw" where
  "ensure e b g =
     (case map_of (gw_clis g) (be_addr b) of
        Some k \<Rightarrow> (Inr k, g)
      | None \<Rightarrow>
          (case dial e (be_addr b) (be_spec b) g of
             (Inl x, g1) \<Rightarrow> (Inl x, g1)
           | (Inr k, g1) \<Rightarrow> (Inr k, g1\<lparr>gw_clis := al_put (be_addr b) k (gw_clis g1)\<rparr>)))"

definition on_conn :: "gateway_env \<Rightarrow> ctx \<Rightarrow> string \<Rightarrow> any \<Rightarrow> nat \<Rightarrow> gw \<Rightarrow> (string + any) \<times> gw" where
  "on_conn e c meth req k g =
     (case gw_conns g ! k of
        (sp, cl) \<Rightarrow>
          (case generic_Call (ge_json e) sp (ge_net e (gw_time g) k) c meth req cl of
             (r, cl1) \<Rightarrow>
               ((case r of Inl x \<Rightarrow> Inl (err_text e x) | Inr m \<Rightarrow> Inr (AMap m)),
                tick (g\<lparr>gw_conns := (gw_conns g)[k := (sp, cl1)]\<rparr>))))"

text \<open>\<open>call\<close> with \<open>rpc\<close>: a call that fails is made again on a new connection.\<close>

definition rpc :: "gateway_env \<Rightarrow> ctx \<Rightarrow> backend \<Rightarrow> string \<Rightarrow> any \<Rightarrow> gw \<Rightarrow> (string + any) \<times> gw" where
  "rpc e c b meth req g =
     (case ensure e b g of
        (Inl x, g1) \<Rightarrow> (Inl x, g1)
      | (Inr k, g1) \<Rightarrow>
          (case on_conn e c meth req k g1 of
             (Inr v, g2) \<Rightarrow> (Inr v, g2)
           | (Inl x, g2) \<Rightarrow>
               (case dial_once e (be_addr b) (be_spec b) g2 of
                  (Inl _, g3) \<Rightarrow> (Inl x, g3)
                | (Inr k', g3) \<Rightarrow> on_conn e c meth req k' (g3\<lparr>gw_clis := al_put (be_addr b) k' (gw_clis g3)\<rparr>))))"

section \<open>Errors and answers\<close>

text \<open>\<open>fmt.Sscanf(s, "%d", &n)\<close>: white space, a sign, digits; a line break ends it.\<close>

function scan_skip :: "string \<Rightarrow> string" where
  "scan_skip s = (if ws_head s = 0 \<or> hd s = CHR 0x0A then s else scan_skip (drop (ws_head s) s))"
  by pat_completeness auto
termination
  by (relation "measure length") (auto simp: ws_shrinks)

declare scan_skip.simps [simp del]

definition scan_int :: "string \<Rightarrow> int" where
  "scan_int s0 =
     (let s = scan_skip s0; neg = (s \<noteq> [] \<and> hd s = CHR ''-'');
          t = (if s \<noteq> [] \<and> (hd s = CHR ''-'' \<or> hd s = CHR ''+'') then drop 1 s else s) in
      case digits_int 0 (takeWhile is_digit_c t) of
        Some n \<Rightarrow> if takeWhile is_digit_c t = [] then 0 else if neg then (if n \<le> 2 ^ 63 then - n else 0) else if n < 2 ^ 63 then n else 0
      | None \<Rightarrow> 0)"

definition rpcStatus :: "string \<Rightarrow> int" where
  "rpcStatus msg =
     (case str_cut msg ''HTTP '' of
        (_, after, ok) \<Rightarrow> if \<not> ok then 502 else (let n = scan_int after in if 400 \<le> n \<and> n < 600 then n else 502))"

definition rpcMessage :: "string \<Rightarrow> string" where
  "rpcMessage msg =
     (case str_cut msg ''HTTP '' of
        (_, after, ok) \<Rightarrow> if \<not> ok then msg else (case str_index after '': '' of Some i \<Rightarrow> drop (i + 2) after | None \<Rightarrow> msg))"

definition strID :: "string \<Rightarrow> string" where "strID s = s"

definition jsonID :: "gateway_env \<Rightarrow> any \<Rightarrow> string" where
  "jsonID e v =
     (case v of
        AMap m \<Rightarrow>
          (case map_of m ''id'' of
             None \<Rightarrow> []
           | Some ANil \<Rightarrow> []
           | Some (AStr s) \<Rightarrow> s
           | Some (AFloat x) \<Rightarrow> go_itoa (sint (je_f2i (ge_json e) x))
           | Some (ANum s) \<Rightarrow> s
           | Some (AI64 n) \<Rightarrow> go_itoa (sint n)
           | Some w \<Rightarrow> ge_sprint e w)
      | _ \<Rightarrow> [])"

definition unwrap :: "gateway_env \<Rightarrow> any \<Rightarrow> any" where
  "unwrap e resp =
     (case resp of
        AMap m \<Rightarrow>
          (case map_of m ''body'' of
             Some (AStr body) \<Rightarrow> (case ge_any e body of Some data \<Rightarrow> data | None \<Rightarrow> resp)
           | _ \<Rightarrow> resp)
      | _ \<Rightarrow> resp)"

text \<open>What is written to the client, in order. A body without a status has status 200.\<close>

datatype gw_out = GHeader string string | GStatus int | GJson any | GEvent string any

definition writeJSON :: "any \<Rightarrow> gw_out list" where
  "writeJSON v = [GHeader ''Content-Type'' ''application/json'', GJson v]"

definition writeErr :: "int \<Rightarrow> string \<Rightarrow> gw_out list" where
  "writeErr code err = [GHeader ''Content-Type'' ''application/json'', GStatus code, GJson (AMap [(''error'', AStr err)])]"

definition writeEnvelope :: "gateway_env \<Rightarrow> bool \<Rightarrow> any \<Rightarrow> gw_out list" where
  "writeEnvelope e wrapped resp =
     (if wrapped then writeJSON (AMap [(''error'', AStr []), (''data'', unwrap e resp)]) else writeJSON resp)"

definition cors_headers :: "gw_out list" where
  "cors_headers =
     [GHeader ''Access-Control-Allow-Origin'' ''*'',
      GHeader ''Access-Control-Allow-Headers'' ''Content-Type, Authorization'',
      GHeader ''Access-Control-Allow-Methods'' ''GET,POST,PUT,DELETE,OPTIONS'']"

definition cors :: "string \<Rightarrow> gw_out list \<times> gw \<Rightarrow> gw \<Rightarrow> gw_out list \<times> gw" where
  "cors meth next_out g =
     (if meth = ''OPTIONS'' then (cors_headers @ [GStatus 204], g)
      else (case next_out of (out, g1) \<Rightarrow> (cors_headers @ out, g1)))"

section \<open>Streams\<close>

text \<open>A request: \<open>hr_body\<close> is what the JSON decoder finds in the body, None for its end.\<close>

record http_req =
  hr_name :: string
  hr_id :: string
  hr_auth :: string
  hr_query :: string
  hr_body :: "string + (string \<times> any) list option"
  hr_ctx :: ctx

definition bearer :: "http_req \<Rightarrow> string" where "bearer r = trim_space (trim_prefix (hr_auth r) ''Bearer '')"

definition str_at :: "(string \<times> any) list \<Rightarrow> string \<Rightarrow> string" where
  "str_at m k = (case map_of m k of Some (AStr s) \<Rightarrow> s | _ \<Rightarrow> [])"

definition stream_headers :: "gw_out list" where
  "stream_headers =
     [GHeader ''Content-Type'' ''text/event-stream'', GHeader ''Cache-Control'' ''no-cache'', GHeader ''Connection'' ''keep-alive'',
      GHeader ''X-Accel-Buffering'' ''no'', GStatus 200]"

text \<open>One answer of the backend: the events, the log that has been seen, and whether the stream is over.\<close>

definition poll_answer :: "gateway_env \<Rightarrow> string \<Rightarrow> string + any \<Rightarrow> gw_out list \<times> string \<times> bool" where
  "poll_answer e prev r =
     (case r of
        Inl x \<Rightarrow> ([GEvent ''done'' (AMap [(''status'', AStr ''fail''), (''error'', AStr (rpcMessage x))])], prev, True)
      | Inr resp \<Rightarrow>
          (let data = (case unwrap e resp of AMap m \<Rightarrow> m | _ \<Rightarrow> []);
               logText = str_at data ''log''; st = str_at data ''status'';
               ev = (if logText \<noteq> prev then [GEvent ''log'' (AMap [(''text'', AStr (trim_prefix logText prev))])] else [])
           in if st \<noteq> [] \<and> st \<noteq> ''running'' then (ev @ [GEvent ''done'' (AMap data)], logText, True) else (ev, logText, False)))"

definition poll_req :: "http_req \<Rightarrow> string \<Rightarrow> any" where
  "poll_req r i = AMap [(''id'', AStr i), (''body'', AStr [CHR 0x7B, CHR 0x7D]), (''token'', AStr (bearer r))]"

text \<open>The loop does not end while the run goes on: \<open>fuel\<close> bounds the polls, and the flag says whether it ended.\<close>

fun poll_loop ::
  "gateway_env \<Rightarrow> http_req \<Rightarrow> backend \<Rightarrow> string \<Rightarrow> string \<Rightarrow> nat \<Rightarrow> string \<Rightarrow> gw \<Rightarrow> gw_out list \<times> bool \<times> gw" where
  "poll_loop e r b meth i 0 prev g = ([], False, g)"
| "poll_loop e r b meth i (Suc fuel) prev g =
     (case rpc e (hr_ctx r) b meth (poll_req r i) g of
        (res, g1) \<Rightarrow>
          (case poll_answer e prev res of
             (evs, prev1, over) \<Rightarrow>
               if over \<or> ge_done e (gw_time g1) then (evs, True, g1)
               else (case poll_loop e r b meth i fuel prev1 g1 of (evs2, ended, g2) \<Rightarrow> (evs @ evs2, ended, g2))))"

definition ssePoll ::
  "gateway_env \<Rightarrow> bool \<Rightarrow> nat \<Rightarrow> http_req \<Rightarrow> backend \<Rightarrow> string \<Rightarrow> string \<Rightarrow> gw \<Rightarrow> gw_out list \<times> bool \<times> gw" where
  "ssePoll e flusher fuel r b meth i g =
     (if \<not> flusher then (writeErr 500 ''stream not supported'', True, g)
      else (case poll_loop e r b meth i fuel [] g of (evs, ended, g1) \<Rightarrow> (stream_headers @ evs, ended, g1)))"

section \<open>Requests\<close>

definition apiReq :: "spec \<Rightarrow> string \<Rightarrow> bool" where
  "apiReq sp reqName =
     (case spec_Struct sp reqName of Inl _ \<Rightarrow> False | Inr st \<Rightarrow> FieldByName st ''token'' \<noteq> None)"

definition request_of :: "gateway_env \<Rightarrow> http_req \<Rightarrow> bool \<Rightarrow> (string \<times> any) list \<Rightarrow> any" where
  "request_of e r wrapped body =
     (if wrapped then
        (let raw0 = ge_marshal e (AMap body); raw = (if raw0 = ''null'' \<or> body = [] then [CHR 0x7B, CHR 0x7D] else raw0) in
         AMap [(''name'', AStr (hr_name r)), (''id'', AStr (hr_id r)), (''body'', AStr raw), (''token'', AStr (bearer r)),
               (''query'', AStr (hr_query r))])
      else AMap body)"

definition handle ::
  "gateway_env \<Rightarrow> bool \<Rightarrow> nat \<Rightarrow> http_req \<Rightarrow> backend \<Rightarrow> imethod \<Rightarrow> gw \<Rightarrow> gw_out list \<times> bool \<times> gw" where
  "handle e flusher fuel r b m g =
     (let wrapped = apiReq (be_spec b) (m_Req m) in
      case hr_body r of
        Inl x \<Rightarrow> (writeErr 400 x, True, g)
      | Inr dec \<Rightarrow>
          (let req = request_of e r wrapped (case dec of None \<Rightarrow> [] | Some body \<Rightarrow> body) in
           if m_Name m = ''WatchBuild'' then ssePoll e flusher fuel r b ''GetBuild'' (strID (hr_id r)) g
           else (case rpc e (hr_ctx r) b (m_Name m) req g of
                   (Inl x, g1) \<Rightarrow> (writeErr (rpcStatus x) (rpcMessage x), True, g1)
                 | (Inr resp, g1) \<Rightarrow>
                     if m_Name m = ''CreateDeploy'' then
                       (let i = jsonID e (unwrap e resp) in
                        if i = [] then (writeEnvelope e wrapped resp, True, g1)
                        else ssePoll e flusher fuel r b ''GetDeploy'' i g1)
                     else (writeEnvelope e wrapped resp, True, g1))))"

section \<open>Start\<close>

fun start_backends :: "gateway_env \<Rightarrow> backend list \<Rightarrow> gw \<Rightarrow> (string + route list) \<times> gw" where
  "start_backends e [] g = (Inr [], g)"
| "start_backends e (b # bs) g =
     (case ensure e b g of
        (Inl x, g1) \<Rightarrow> (Inl x, g1)
      | (Inr _, g1) \<Rightarrow>
          (case start_backends e bs g1 of
             (Inl x, g2) \<Rightarrow> (Inl x, g2)
           | (Inr rs, g2) \<Rightarrow> (Inr (routes_of b @ rs), g2)))"

end
