(* ===== verification/GatewayOk.thy ===== *)
theory GatewayOk
  imports Gateway "HOL-Library.Sublist"
begin

text \<open>
  The gateway: its connections, what it answers, that it relays the reply of a backend, and that a stream shows the
  log of a run that only grows.
\<close>

section \<open>Connections\<close>

text \<open>Every client of the table is a connection that was dialled.\<close>

definition gw_inv :: "gw \<Rightarrow> bool" where
  "gw_inv g \<longleftrightarrow> (\<forall>(a, k) \<in> set (gw_clis g). k < length (gw_conns g))"

lemma gw_invD: "gw_inv g \<Longrightarrow> (a, k) \<in> set (gw_clis g) \<Longrightarrow> k < length (gw_conns g)"
  by (auto simp: gw_inv_def)

lemma gw_invI: "(\<And>a k. (a, k) \<in> set (gw_clis g) \<Longrightarrow> k < length (gw_conns g)) \<Longrightarrow> gw_inv g"
  by (auto simp: gw_inv_def)

lemma gw_inv_new: "gw_inv gw_new"
  by (simp add: gw_inv_def gw_new_def)

lemma dial_tries_inv:
  "dial_tries e addr sp n err g = (r, g1) \<Longrightarrow> gw_inv g \<Longrightarrow>
   gw_inv g1 \<and> gw_clis g1 = gw_clis g \<and> (case r of Inl _ \<Rightarrow> True | Inr k \<Rightarrow> k < length (gw_conns g1) \<and> gw_conns g1 ! k = (sp, Dial))"
proof (induction n arbitrary: err g)
  case (Suc n)
  show ?case
  proof (cases "ge_dial e (gw_time g) addr")
    case None
    let ?g = "tick (g\<lparr>gw_conns := gw_conns g @ [(sp, Dial)]\<rparr>)"
    have "gw_inv ?g"
    proof (rule gw_invI)
      fix a k assume "(a, k) \<in> set (gw_clis ?g)"
      then have "k < length (gw_conns g)" using gw_invD [OF Suc.prems(2)] by (simp add: tick_def)
      then show "k < length (gw_conns ?g)" by (simp add: tick_def)
    qed
    moreover have "r = Inr (length (gw_conns g))" "g1 = ?g" using Suc.prems(1) None by (auto simp: dial_once_def)
    ultimately show ?thesis by (simp add: tick_def)
  next
    case (Some x)
    have "gw_inv (tick g)" using Suc.prems(2) by (simp add: gw_inv_def tick_def)
    then show ?thesis using Suc.IH [of x "tick g"] Suc.prems Some by (auto simp: dial_once_def tick_def split: sum.splits)
  qed
qed auto

lemma al_put_conns:
  "gw_inv g \<Longrightarrow> k < length (gw_conns g) \<Longrightarrow> gw_inv (g\<lparr>gw_clis := al_put a k (gw_clis g)\<rparr>)"
  by (auto simp: gw_inv_def dest: al_put_mem)

lemma ensure_inv:
  assumes "ensure e b g = (r, g1)" and "gw_inv g"
  shows "gw_inv g1 \<and> (case r of Inl _ \<Rightarrow> True | Inr k \<Rightarrow> k < length (gw_conns g1) \<and> map_of (gw_clis g1) (be_addr b) = Some k)"
proof (cases "map_of (gw_clis g) (be_addr b)")
  case (Some k)
  then show ?thesis using assms gw_invD [OF assms(2) map_of_SomeD [OF Some]] by (auto simp: ensure_def)
next
  case None
  obtain r1 g2 where d: "dial e (be_addr b) (be_spec b) g = (r1, g2)" by fastforce
  have i: "gw_inv g2 \<and> (case r1 of Inl _ \<Rightarrow> True | Inr k \<Rightarrow> k < length (gw_conns g2))"
    using dial_tries_inv [OF d [unfolded dial_def] assms(2)] by (auto split: sum.splits)
  show ?thesis
    using assms(1) None d i al_put_conns by (cases r1) (auto simp: ensure_def)
qed

lemma on_conn_inv:
  "on_conn e c meth req k g = (r, g1) \<Longrightarrow> gw_inv g \<Longrightarrow>
   gw_inv g1 \<and> length (gw_conns g1) = length (gw_conns g) \<and> gw_clis g1 = gw_clis g"
  by (auto simp: on_conn_def gw_inv_def tick_def split: prod.splits)

lemma rpc_inv:
  assumes "rpc e c b meth req g = (r, g1)" and "gw_inv g"
  shows "gw_inv g1"
proof -
  obtain r0 g0 where e: "ensure e b g = (r0, g0)" by fastforce
  have i0: "gw_inv g0" using ensure_inv [OF e assms(2)] by blast
  show ?thesis
  proof (cases r0)
    case (Inl x)
    then show ?thesis using assms(1) e i0 by (simp add: rpc_def)
  next
    case (Inr k)
    obtain r2 g2 where o2: "on_conn e c meth req k g0 = (r2, g2)" by fastforce
    have i2: "gw_inv g2" using on_conn_inv [OF o2 i0] by blast
    show ?thesis
    proof (cases r2)
      case (Inr v)
      then show ?thesis using assms(1) e \<open>r0 = Inr k\<close> o2 i2 by (simp add: rpc_def)
    next
      case (Inl x)
      obtain r3 g3 where d: "dial_once e (be_addr b) (be_spec b) g2 = (r3, g3)" by fastforce
      have t: "dial_tries e (be_addr b) (be_spec b) 1 [] g2 = (r3, g3)" using d by (simp split: sum.split)
      have i3: "gw_inv g3" "r3 = Inr k' \<Longrightarrow> k' < length (gw_conns g3)" for k'
        using dial_tries_inv [OF t i2] by auto
      show ?thesis
      proof (cases r3)
        case (Inr k')
        obtain r4 g4 where o4: "on_conn e c meth req k' (g3\<lparr>gw_clis := al_put (be_addr b) k' (gw_clis g3)\<rparr>) = (r4, g4)" by fastforce
        have "gw_inv g4" using on_conn_inv [OF o4 al_put_conns [OF i3(1) i3(2) [OF Inr]]] by blast
        then show ?thesis using assms(1) e \<open>r0 = Inr k\<close> o2 Inl d Inr o4 by (simp add: rpc_def)
      qed (use assms(1) e \<open>r0 = Inr k\<close> o2 Inl d i3 in \<open>simp add: rpc_def\<close>)
    qed
  qed
qed

lemma poll_loop_inv: "poll_loop e r b meth i fuel prev g = (out, ended, g1) \<Longrightarrow> gw_inv g \<Longrightarrow> gw_inv g1"
proof (induction fuel arbitrary: prev g out ended)
  case (Suc fuel)
  obtain res g2 where p: "rpc e (hr_ctx r) b meth (poll_req r i) g = (res, g2)" by fastforce
  have i2: "gw_inv g2" using rpc_inv [OF p Suc.prems(2)] .
  obtain evs prev1 over where a: "poll_answer e prev res = (evs, prev1, over)" by (cases "poll_answer e prev res")
  show ?case
  proof (cases "over \<or> ge_done e (gw_time g2)")
    case True
    then show ?thesis using Suc.prems(1) p a i2 by auto
  next
    case False
    obtain evs2 ended2 g3 where l: "poll_loop e r b meth i fuel prev1 g2 = (evs2, ended2, g3)" by (cases "poll_loop e r b meth i fuel prev1 g2")
    have "g3 = g1" using Suc.prems(1) p a False l by simp
    then show ?thesis using Suc.IH [of prev1 g2 evs2 ended2] l i2 by simp
  qed
qed simp

lemma ssePoll_inv: "ssePoll e fl fuel r b meth i g = (out, ended, g1) \<Longrightarrow> gw_inv g \<Longrightarrow> gw_inv g1"
  unfolding ssePoll_def using poll_loop_inv by (fastforce split: if_splits prod.splits)

text \<open>The connections that a handler uses exist, whatever the network does.\<close>

lemma handle_inv:
  assumes "handle e fl fuel r b m g = (out, ended, g1)" and "gw_inv g"
  shows "gw_inv g1"
proof (cases "hr_body r")
  case (Inl x)
  then show ?thesis using assms by (simp add: handle_def Let_def)
next
  case (Inr dec)
  define req where "req = request_of e r (apiReq (be_spec b) (m_Req m)) (case dec of None \<Rightarrow> [] | Some body \<Rightarrow> body)"
  show ?thesis
  proof (cases "m_Name m = ''WatchBuild''")
    case True
    then have "ssePoll e fl fuel r b ''GetBuild'' (strID (hr_id r)) g = (out, ended, g1)"
      using assms(1) Inr by (simp add: handle_def Let_def)
    then show ?thesis using ssePoll_inv assms(2) by blast
  next
    case False
    obtain res g2 where p: "rpc e (hr_ctx r) b (m_Name m) req g = (res, g2)" by fastforce
    have i2: "gw_inv g2" using rpc_inv [OF p assms(2)] .
    have h: "handle e fl fuel r b m g = (case res of
        Inl x \<Rightarrow> (writeErr (rpcStatus x) (rpcMessage x), True, g2)
      | Inr resp \<Rightarrow>
          if m_Name m = ''CreateDeploy'' then
            (let i = jsonID e (unwrap e resp) in
             if i = [] then (writeEnvelope e (apiReq (be_spec b) (m_Req m)) resp, True, g2)
             else ssePoll e fl fuel r b ''GetDeploy'' i g2)
          else (writeEnvelope e (apiReq (be_spec b) (m_Req m)) resp, True, g2))"
      using False Inr p unfolding req_def by (simp add: handle_def Let_def)
    show ?thesis
      using assms(1) i2 ssePoll_inv [OF _ i2] unfolding h by (cases res) (auto simp: Let_def split: if_splits)
  qed
qed

section \<open>Answers\<close>

lemma rpcStatus_range: "400 \<le> rpcStatus msg \<and> rpcStatus msg < 600"
  by (auto simp: rpcStatus_def Let_def split: prod.splits)

text \<open>A handler that does not stream writes one JSON body, with an error between 400 and 599 or status 200.\<close>

lemma handle_answers:
  assumes "m_Name m \<noteq> ''WatchBuild''" and "m_Name m \<noteq> ''CreateDeploy''"
  shows "\<exists>out g1. handle e fl fuel r b m g = (out, True, g1) \<and>
    ((\<exists>v. out = writeJSON v) \<or> (\<exists>code err. 400 \<le> code \<and> code < 600 \<and> out = writeErr code err))"
proof (cases "hr_body r")
  case (Inl x)
  have "(400::int) \<le> 400 \<and> (400::int) < 600" by simp
  then show ?thesis using Inl by (auto simp: handle_def Let_def)
next
  case (Inr dec)
  define req where "req = request_of e r (apiReq (be_spec b) (m_Req m)) (case dec of None \<Rightarrow> [] | Some body \<Rightarrow> body)"
  obtain res g1 where p: "rpc e (hr_ctx r) b (m_Name m) req g = (res, g1)" by fastforce
  show ?thesis
  proof (cases res)
    case (Inl x)
    have "handle e fl fuel r b m g = (writeErr (rpcStatus x) (rpcMessage x), True, g1)"
      using assms Inr p Inl unfolding req_def by (simp add: handle_def Let_def)
    then show ?thesis using rpcStatus_range [of x] by blast
  next
    case (Inr resp)
    have "handle e fl fuel r b m g = (writeEnvelope e (apiReq (be_spec b) (m_Req m)) resp, True, g1)"
      using assms \<open>hr_body r = Inr dec\<close> p Inr unfolding req_def by (simp add: handle_def Let_def)
    then show ?thesis by (auto simp: writeEnvelope_def)
  qed
qed

section \<open>A backend behind the gateway\<close>

lemma small_frame:
  assumes "length (m_Name m) < 60" and "length (outgoingHdr c) \<le> 24" and "length q < 60000"
  shows "frame_ok (call_msg c (m_Name m) q cl)"
  using assms by (simp add: frame_ok_def frame_len_def call_msg_def maxFrame_def)

text \<open>A method that answers \<open>res\<close> to the body \<open>q\<close>, whatever middlewares the server has.\<close>

definition serves :: "'s server \<Rightarrow> string \<Rightarrow> byte list \<Rightarrow> 's world \<Rightarrow> string + byte list \<Rightarrow> bool" where
  "serves sv n q w res \<longleftrightarrow>
     (\<forall>x\<in>set (sv_mws sv). transparent x) \<and>
     (\<exists>f. app_handler (lookup_handler sv n) (\<lambda>_. f) \<and> fst (f q (w_app w)) = res)"

lemma Call_serves:
  assumes s: "serves sv (m_Name m) q w res" and cl: "cl_in cl = []"
    and sizes: "length (m_Name m) < 60" "length (outgoingHdr c) \<le> 24" "length q < 60000"
      "(case res of Inl err \<Rightarrow> length err | Inr p \<Rightarrow> length p) < 60000"
  shows "Call (\<lambda>s. (True, fst (serve sv s w))) c (m_Name m) q cl =
    (case res of Inl err \<Rightarrow> Inl (CallRemote err) | Inr p \<Rightarrow> Inr p, \<lparr>cl_seq = cl_seq cl + 1, cl_in = []\<rparr>)"
proof -
  let ?msg = "call_msg c (m_Name m) q cl"
  from s obtain f where f: "app_handler (lookup_handler sv (m_Name m)) (\<lambda>_. f)" "fst (f q (w_app w)) = res"
    and mws: "\<forall>x\<in>set (sv_mws sv). transparent x" by (auto simp: serves_def)
  have a: "app_handler (chain (sv_mws sv) (lookup_handler sv (m_Name m))) (\<lambda>_. f)" by (rule chain_app [OF mws f(1)])
  have fr: "frame_ok (fst (reply_to sv ?msg w))"
    by (rule reply_frame_len [OF _ refl])
      (use sizes in \<open>simp_all add: call_msg_def app_handlerD [OF a] f(2) split: sum.splits\<close>)
  have sq: "mg_seq ?msg = cl_seq cl + 1" by (simp add: call_msg_def)
  have "result_of (mg_seq ?msg) (fst (reply_to sv ?msg w)) = (case res of Inl err \<Rightarrow> Inl (CallRemote err) | Inr p \<Rightarrow> Inr p)"
    unfolding result_of_reply by (simp add: call_msg_def app_handlerD [OF a] f(2))
  then show ?thesis
    unfolding Call_served [OF cl small_frame [OF sizes(1-3)] fr] sq by simp
qed

definition relayed :: "spec \<Rightarrow> imethod \<Rightarrow> string + byte list \<Rightarrow> (string + (string \<times> any) list) option" where
  "relayed sp m res =
     (case res of
        Inl err \<Rightarrow> Some (Inl err)
      | Inr p \<Rightarrow> (case Decode sp (m_Resp m) p of Inl _ \<Rightarrow> None | Inr mp \<Rightarrow> Some (Inr mp)))"

lemma on_conn_serves:
  assumes conn: "gw_conns g ! k = (sp, cl)" "k < length (gw_conns g)" "cl_in cl = []"
    and m: "spec_Method sp (m_Name m) = Some m" and enc: "Encode (ge_json e) sp (m_Req m) req = Inr q"
    and net: "ge_net e (gw_time g) k = (\<lambda>s. (True, fst (serve sv s w)))"
    and s: "serves sv (m_Name m) q w res"
    and sizes: "length (m_Name m) < 60" "length (outgoingHdr c) \<le> 24" "length q < 60000"
      "(case res of Inl err \<Rightarrow> length err | Inr p \<Rightarrow> length p) < 60000"
    and r: "relayed sp m res = Some r"
  shows "\<exists>g1. on_conn e c (m_Name m) req k g = (case r of Inl err \<Rightarrow> Inl err | Inr mp \<Rightarrow> Inr (AMap mp), g1)"
proof -
  have c: "Call (ge_net e (gw_time g) k) c (m_Name m) q cl =
    (case res of Inl err \<Rightarrow> Inl (CallRemote err) | Inr p \<Rightarrow> Inr p, \<lparr>cl_seq = cl_seq cl + 1, cl_in = []\<rparr>)"
    unfolding net by (rule Call_serves [OF s conn(3) sizes])
  show ?thesis
    using r unfolding relayed_def on_conn_def conn(1) generic_Call_def prod.case m option.case enc sum.case c
    by (cases res) (auto simp: err_text_def split: sum.splits)
qed

text \<open>The connection to the backend, if there is one, waits for a call.\<close>

definition ready :: "backend \<Rightarrow> gw \<Rightarrow> bool" where
  "ready b g \<longleftrightarrow> gw_inv g \<and>
     (\<forall>k. map_of (gw_clis g) (be_addr b) = Some k \<longrightarrow> fst (gw_conns g ! k) = be_spec b \<and> cl_in (snd (gw_conns g ! k)) = [])"

lemma dial_ok:
  assumes "\<And>t. ge_dial e t addr = None"
  shows "dial_once e addr sp g = (Inr (length (gw_conns g)), tick (g\<lparr>gw_conns := gw_conns g @ [(sp, Dial)]\<rparr>))"
    and "dial e addr sp g = (Inr (length (gw_conns g)), tick (g\<lparr>gw_conns := gw_conns g @ [(sp, Dial)]\<rparr>))"
proof -
  show d: "dial_once e addr sp g = (Inr (length (gw_conns g)), tick (g\<lparr>gw_conns := gw_conns g @ [(sp, Dial)]\<rparr>))"
    by (simp add: dial_once_def assms)
  have "dial_tries e addr sp (Suc 49) [] g = (Inr (length (gw_conns g)), tick (g\<lparr>gw_conns := gw_conns g @ [(sp, Dial)]\<rparr>))"
    unfolding dial_tries.simps(2) d by simp
  then show "dial e addr sp g = (Inr (length (gw_conns g)), tick (g\<lparr>gw_conns := gw_conns g @ [(sp, Dial)]\<rparr>))"
    by (simp add: dial_def)
qed

lemma ensure_ready:
  assumes "ready b g" and "\<And>t. ge_dial e t (be_addr b) = None"
  shows "\<exists>k g1 cl. ensure e b g = (Inr k, g1) \<and> k < length (gw_conns g1) \<and> gw_conns g1 ! k = (be_spec b, cl) \<and> cl_in cl = [] \<and> gw_inv g1"
proof (cases "map_of (gw_clis g) (be_addr b)")
  case (Some k)
  then have "ensure e b g = (Inr k, g)" by (simp add: ensure_def)
  moreover have "k < length (gw_conns g)" using assms(1) gw_invD [OF _ map_of_SomeD [OF Some]] by (auto simp: ready_def)
  ultimately show ?thesis using assms(1) Some by (metis prod.collapse ready_def)
next
  case None
  obtain g1 where e: "ensure e b g = (Inr (length (gw_conns g)), g1)"
    and g1: "g1 = (tick (g\<lparr>gw_conns := gw_conns g @ [(be_spec b, Dial)]\<rparr>))\<lparr>gw_clis := al_put (be_addr b) (length (gw_conns g)) (gw_clis g)\<rparr>"
    using None by (simp add: ensure_def dial_ok(2) [OF assms(2)] tick_def)
  have "gw_inv g1" using ensure_inv [OF e] assms(1) by (simp add: ready_def)
  then show ?thesis using e by (intro exI [of _ "length (gw_conns g)"] exI [of _ g1] exI [of _ Dial]) (simp add: g1 tick_def Dial_def)
qed

text \<open>C16 A request for a method of a backend reaches its handler through the generic client, the frames and the server's loop, and the client gets what the handler answers: the reply as JSON, or an error with the text and the status that the handler's text holds (after a second attempt on a new connection).\<close>

theorem gateway_relays_reply:
  assumes "ready b g" and dial: "\<And>t. ge_dial e t (be_addr b) = None"
    and net: "\<And>t k. ge_net e t k = (\<lambda>s. (True, fst (serve sv s (ws t))))"
    and s: "\<And>t. serves sv (m_Name m) q (ws t) res"
    and m: "spec_Method (be_spec b) (m_Name m) = Some m" "m_Name m \<noteq> ''WatchBuild''" "m_Name m \<noteq> ''CreateDeploy''"
    and body: "hr_body r = Inr (Some bd)"
    and enc: "Encode (ge_json e) (be_spec b) (m_Req m) (request_of e r (apiReq (be_spec b) (m_Req m)) bd) = Inr q"
    and sizes: "length (m_Name m) < 60" "length (outgoingHdr (hr_ctx r)) \<le> 24" "length q < 60000"
      "(case res of Inl err \<Rightarrow> length err | Inr p \<Rightarrow> length p) < 60000"
    and rel: "relayed (be_spec b) m res = Some x"
  shows "fst (handle e fl fuel r b m g) =
    (case x of Inr mp \<Rightarrow> writeEnvelope e (apiReq (be_spec b) (m_Req m)) (AMap mp) | Inl err \<Rightarrow> writeErr (rpcStatus err) (rpcMessage err))"
proof -
  let ?req = "request_of e r (apiReq (be_spec b) (m_Req m)) bd"
  obtain k g1 cl where en: "ensure e b g = (Inr k, g1)" "k < length (gw_conns g1)" "gw_conns g1 ! k = (be_spec b, cl)" "cl_in cl = []"
    using ensure_ready [OF assms(1) dial] by blast
  obtain g2 where c1: "on_conn e (hr_ctx r) (m_Name m) ?req k g1 = (case x of Inl err \<Rightarrow> Inl err | Inr mp \<Rightarrow> Inr (AMap mp), g2)"
    using on_conn_serves [OF en(3,2,4) m(1) enc net s sizes rel] by blast
  let ?g3 = "(tick (g2\<lparr>gw_conns := gw_conns g2 @ [(be_spec b, Dial)]\<rparr>))\<lparr>gw_clis := al_put (be_addr b) (length (gw_conns g2)) (gw_clis g2)\<rparr>"
  have n: "gw_conns ?g3 ! length (gw_conns g2) = (be_spec b, Dial)" "length (gw_conns g2) < length (gw_conns ?g3)" "cl_in Dial = []"
    by (simp_all add: tick_def Dial_def)
  obtain g4 where c2: "on_conn e (hr_ctx r) (m_Name m) ?req (length (gw_conns g2)) ?g3 = (case x of Inl err \<Rightarrow> Inl err | Inr mp \<Rightarrow> Inr (AMap mp), g4)"
    using on_conn_serves [OF n m(1) enc net s sizes rel] by blast
  have "fst (rpc e (hr_ctx r) b (m_Name m) ?req g) = (case x of Inl err \<Rightarrow> Inl err | Inr mp \<Rightarrow> Inr (AMap mp))"
  proof (cases x)
    case (Inl err)
    have "rpc e (hr_ctx r) b (m_Name m) ?req g = on_conn e (hr_ctx r) (m_Name m) ?req (length (gw_conns g2)) ?g3"
      unfolding rpc_def en(1) prod.case sum.case c1 Inl dial_ok(1) [OF dial] by (simp add: tick_def)
    then show ?thesis by (simp add: c2 Inl)
  qed (simp add: rpc_def en(1) c1)
  then show ?thesis
    using m(2,3) by (cases x; cases "rpc e (hr_ctx r) b (m_Name m) ?req g") (simp_all add: handle_def body Let_def)
qed

definition user_spec :: spec where
  "user_spec =
     \<lparr>sp_Service = ''UserService'',
      sp_Methods = [\<lparr>m_Name = ''GetUser'', m_Req = ''GetUserReq'', m_Resp = ''GetUserResp'', m_HTTPMethod = ''POST'', m_URI = ''/user/get''\<rparr>],
      sp_Structs =
        [(''GetUserReq'', \<lparr>st_Name = ''GetUserReq'', st_Fields = [\<lparr>f_ID = 1, f_Type = ''i64'', f_Name = ''id''\<rparr>]\<rparr>),
         (''GetUserResp'', \<lparr>st_Name = ''GetUserResp'', st_Fields = [\<lparr>f_ID = 1, f_Type = ''i64'', f_Name = ''id''\<rparr>,
            \<lparr>f_ID = 2, f_Type = ''string'', f_Name = ''name''\<rparr>]\<rparr>)]\<rparr>"

definition user_backend :: backend where
  "user_backend = \<lparr>be_name = ''user'', be_addr = ''127.0.0.1:8888'', be_spec = user_spec\<rparr>"

definition user_server :: "nat server" where "user_server = user_NewServer (rt_env_of (\<lambda>_. [])) demo_user_service"

definition demo_gate :: gateway_env where
  "demo_gate =
     \<lparr>ge_json = demo_env, ge_marshal = (\<lambda>_. []), ge_any = (\<lambda>_. None), ge_sprint = (\<lambda>_. []), ge_text = (\<lambda>_. []),
      ge_dial = (\<lambda>_ _. None), ge_net = (\<lambda>_ _ s. (True, fst (serve user_server s demo_world))), ge_done = (\<lambda>_. False)\<rparr>"

definition demo_req :: http_req where
  "demo_req = \<lparr>hr_name = [], hr_id = [], hr_auth = [], hr_query = [], hr_body = Inr (Some [(''id'', AI64 5)]), hr_ctx = Background\<rparr>"

theorem gateway_relays_reply_witness:
  "fst (handle demo_gate True 1 demo_req user_backend (hd (sp_Methods user_spec)) gw_new) =
     writeJSON (AMap [(''id'', AI64 5), (''name'', AStr ''demo'')])"
proof -
  let ?m = "hd (sp_Methods user_spec)" and ?q = "EncodeGetUserReq \<lparr>getUserReq_ID = 5\<rparr>"
  let ?p = "EncodeGetUserResp \<lparr>getUserResp_ID = 5, getUserResp_Name = ''demo''\<rparr>"
  have n: "m_Name ?m = ''GetUser''" by (simp add: user_spec_def)
  have s: "serves user_server (m_Name ?m) ?q demo_world (Inr ?p)" for t :: nat
    unfolding serves_def
  proof (intro conjI exI)
    show "\<forall>x\<in>set (sv_mws user_server). transparent x"
      unfolding user_server_def user_NewServer_get by (rule NewServer_transparent)
    show "app_handler (lookup_handler user_server (m_Name ?m)) (\<lambda>_. handler_spec DecodeGetUserReq
        (\<lambda>q s. (if getUserReq_ID q = 0 then Inl ''no user'' else Inr \<lparr>getUserResp_ID = getUserReq_ID q, getUserResp_Name = ''demo''\<rparr>, s)) EncodeGetUserResp)"
      unfolding n lookup_handler_def user_server_def user_NewServer_get option.case by (rule gen_handler_app [OF demo_user_app])
    show "fst (handler_spec DecodeGetUserReq
        (\<lambda>q s. (if getUserReq_ID q = 0 then Inl ''no user'' else Inr \<lparr>getUserResp_ID = getUserReq_ID q, getUserResp_Name = ''demo''\<rparr>, s)) EncodeGetUserResp
        ?q (w_app demo_world)) = Inr ?p"
      by code_simp
  qed
  have e: "Encode (ge_json demo_gate) (be_spec user_backend) (m_Req ?m) (request_of demo_gate demo_req (apiReq (be_spec user_backend) (m_Req ?m)) [(''id'', AI64 5)]) = Inr ?q"
    "relayed (be_spec user_backend) ?m (Inr ?p) = Some (Inr [(''id'', AI64 5), (''name'', AStr ''demo'')])"
    "apiReq (be_spec user_backend) (m_Req ?m) = False" "length ?q \<le> 30" "length ?p \<le> 30"
    by code_simp+
  then have len: "length ?q < 60000" "length ?p < 60000" by linarith+
  have h: "hr_body demo_req = Inr (Some [(''id'', AI64 5)])" "ready user_backend gw_new" "ge_dial demo_gate t a = None"
    "ge_net demo_gate t k = (\<lambda>s. (True, fst (serve user_server s demo_world)))" "hr_ctx demo_req = Background" for t a k
    by (simp_all add: demo_req_def ready_def gw_inv_new demo_gate_def) (simp add: gw_new_def)
  have r: "fst (handle demo_gate True 1 demo_req user_backend ?m gw_new) =
      writeEnvelope demo_gate (apiReq (be_spec user_backend) (m_Req ?m)) (AMap [(''id'', AI64 5), (''name'', AStr ''demo'')])"
    using gateway_relays_reply [where ws = "\<lambda>_. demo_world", OF h(2,3,4) s _ _ _ h(1) e(1) _ _ len(1) _ e(2)] len(2)
    by (simp add: n h(5) Background_def outgoingHdr_def) (simp add: user_spec_def user_backend_def spec_Method_def)
  show ?thesis unfolding r by (simp add: writeEnvelope_def e(3))
qed

section \<open>Streams\<close>

text \<open>The text of an event with a piece of the log, and whether an event is the last one of a stream.\<close>

definition event_text :: "gw_out \<Rightarrow> string" where
  "event_text x = (case x of GEvent n (AMap [(_, AStr s)]) \<Rightarrow> if n = ''log'' then s else [] | _ \<Rightarrow> [])"

definition is_done :: "gw_out \<Rightarrow> bool" where
  "is_done x = (case x of GEvent n _ \<Rightarrow> n = ''done'' | _ \<Rightarrow> False)"

definition log_of :: "gateway_env \<Rightarrow> any \<Rightarrow> string" where
  "log_of e resp = str_at (case unwrap e resp of AMap m \<Rightarrow> m | _ \<Rightarrow> []) ''log''"

text \<open>The logs that the polls of a stream get from the backend.\<close>

fun polled :: "gateway_env \<Rightarrow> http_req \<Rightarrow> backend \<Rightarrow> string \<Rightarrow> string \<Rightarrow> nat \<Rightarrow> gw \<Rightarrow> string list" where
  "polled e r b meth i 0 g = []"
| "polled e r b meth i (Suc fuel) g =
     (case rpc e (hr_ctx r) b meth (poll_req r i) g of
        (res, g1) \<Rightarrow>
          (case res of Inl _ \<Rightarrow> [] | Inr resp \<Rightarrow> [log_of e resp]) @
          (if snd (snd (poll_answer e [] res)) \<or> ge_done e (gw_time g1) then [] else polled e r b meth i fuel g1))"

text \<open>A log that only grows.\<close>

fun grows :: "string \<Rightarrow> string list \<Rightarrow> bool" where
  "grows prev [] = True"
| "grows prev (l # ls) = (prefix prev l \<and> grows l ls)"

lemma poll_answer_over: "snd (snd (poll_answer e prev res)) = snd (snd (poll_answer e [] res))"
  by (simp add: poll_answer_def Let_def split: sum.split)

lemma done_no_text: "event_text (GEvent ''done'' d) = []"
  by (simp add: event_text_def split: any.split list.split prod.split)

lemma poll_answer_text:
  assumes "poll_answer e prev res = (evs, prev1, over)" and "grows prev (case res of Inl _ \<Rightarrow> [] | Inr resp \<Rightarrow> [log_of e resp])"
  shows "prev @ concat (map event_text evs) = prev1"
    and "prev1 = (case res of Inl _ \<Rightarrow> prev | Inr resp \<Rightarrow> log_of e resp)"
    and "\<exists>logs tail. evs = logs @ tail \<and> list_all (\<lambda>x. \<not> is_done x) logs \<and> (if over then \<exists>d. tail = [GEvent ''done'' d] else tail = [])"
proof -
  have t: "prev @ event_text (GEvent ''log'' (AMap [(''text'', AStr (trim_prefix l prev))])) = l" if "prefix prev l" for l
    using that by (auto simp: event_text_def prefix_def)
  show "prev @ concat (map event_text evs) = prev1" "prev1 = (case res of Inl _ \<Rightarrow> prev | Inr resp \<Rightarrow> log_of e resp)"
    using assms by (auto simp: poll_answer_def Let_def log_of_def done_no_text t split: sum.splits if_splits)
  have d: "list_all (\<lambda>x. \<not> is_done x) (if l \<noteq> prev then [GEvent ''log'' v] else [])" for l v
    by (simp add: is_done_def)
  show "\<exists>logs tail. evs = logs @ tail \<and> list_all (\<lambda>x. \<not> is_done x) logs \<and> (if over then \<exists>d. tail = [GEvent ''done'' d] else tail = [])"
  proof (cases res)
    case (Inl x)
    then show ?thesis using assms(1) by (intro exI [of _ "[]"] exI [of _ evs]) (auto simp: poll_answer_def)
  next
    case (Inr resp)
    let ?ev = "if log_of e resp \<noteq> prev then [GEvent ''log'' (AMap [(''text'', AStr (trim_prefix (log_of e resp) prev))])] else []"
    show ?thesis
    proof (cases over)
      case True
      then show ?thesis using assms(1) Inr d
        by (intro exI [of _ ?ev] exI [of _ "drop (length ?ev) evs"]) (auto simp: poll_answer_def Let_def log_of_def split: if_splits)
    next
      case False
      then show ?thesis using assms(1) Inr d
        by (intro exI [of _ ?ev] exI [of _ "[]"]) (auto simp: poll_answer_def Let_def log_of_def split: if_splits)
    qed
  qed
qed

lemma poll_loop_text:
  assumes "poll_loop e r b meth i fuel prev g = (out, ended, g1)" and "grows prev (polled e r b meth i fuel g)"
  shows "prev @ concat (map event_text out) = last (prev # polled e r b meth i fuel g) \<and>
    (\<exists>logs tail. out = logs @ tail \<and> list_all (\<lambda>x. \<not> is_done x) logs \<and> (tail = [] \<or> ended \<and> (\<exists>d. tail = [GEvent ''done'' d])))"
  using assms
proof (induction fuel arbitrary: prev g out)
  case (Suc fuel)
  obtain res g2 where p: "rpc e (hr_ctx r) b meth (poll_req r i) g = (res, g2)" by fastforce
  obtain evs prev1 over where a: "poll_answer e prev res = (evs, prev1, over)" by (cases "poll_answer e prev res")
  let ?l = "case res of Inl _ \<Rightarrow> [] | Inr resp \<Rightarrow> [log_of e resp]"
  have over: "snd (snd (poll_answer e [] res)) = over" using poll_answer_over [of e prev res] a by simp
  let ?rest = "if over \<or> ge_done e (gw_time g2) then [] else polled e r b meth i fuel g2"
  have pl: "polled e r b meth i (Suc fuel) g = ?l @ ?rest" by (simp add: p over)
  have g: "grows prev ?l" "grows (last (prev # ?l)) ?rest"
    using Suc.prems(2) unfolding pl by (auto split: sum.splits)
  note t = poll_answer_text [OF a g(1)]
  have prev1: "prev1 = last (prev # ?l)" using t(2) by (simp split: sum.splits)
  obtain logs tail where lt: "evs = logs @ tail" "list_all (\<lambda>x. \<not> is_done x) logs" "if over then \<exists>d. tail = [GEvent ''done'' d] else tail = []"
    using t(3) by blast
  show ?case
  proof (cases "over \<or> ge_done e (gw_time g2)")
    case True
    then have o: "out = evs" "ended" using Suc.prems(1) p a by auto
    have "prev @ concat (map event_text out) = last (prev # polled e r b meth i (Suc fuel) g)"
      using True t(1) prev1 o unfolding pl by simp
    moreover have "\<exists>logs tail. out = logs @ tail \<and> list_all (\<lambda>x. \<not> is_done x) logs \<and> (tail = [] \<or> ended \<and> (\<exists>d. tail = [GEvent ''done'' d]))"
      using lt o by (auto split: if_splits)
    ultimately show ?thesis ..
  next
    case False
    obtain out2 ended2 g3 where l: "poll_loop e r b meth i fuel prev1 g2 = (out2, ended2, g3)" by (cases "poll_loop e r b meth i fuel prev1 g2")
    have o: "out = evs @ out2" "ended2 = ended" "g3 = g1" using Suc.prems(1) p a False l by auto
    have "grows prev1 (polled e r b meth i fuel g2)" using g(2) False prev1 by simp
    note ih = Suc.IH [OF l [unfolded o(2,3)] this]
    have m: "last (prev # ?l @ polled e r b meth i fuel g2) = last (last (prev # ?l) # polled e r b meth i fuel g2)"
      by (simp split: sum.splits)
    have "prev @ concat (map event_text out) = last (prev1 # polled e r b meth i fuel g2)"
      unfolding o(1) map_append concat_append append_assoc [symmetric] t(1) by (rule conjunct1 [OF ih])
    then have "prev @ concat (map event_text out) = last (prev # polled e r b meth i (Suc fuel) g)"
      unfolding pl prev1 using False m by simp
    moreover obtain logs2 tail2 where "out2 = logs2 @ tail2" "list_all (\<lambda>x. \<not> is_done x) logs2" "tail2 = [] \<or> ended \<and> (\<exists>d. tail2 = [GEvent ''done'' d])"
      using conjunct2 [OF ih] by blast
    then have "\<exists>logs tail. out = logs @ tail \<and> list_all (\<lambda>x. \<not> is_done x) logs \<and> (tail = [] \<or> ended \<and> (\<exists>d. tail = [GEvent ''done'' d]))"
      using lt False o(1) by (intro exI [of _ "logs @ logs2"] exI [of _ tail2]) auto
    ultimately show ?thesis ..
  qed
qed auto

text \<open>C18 While the log of a run only grows, the pieces in the events of a stream put together are the log that the last poll got; a stream has at most one final event, which is its last.\<close>

theorem stream_shows_log:
  assumes "ssePoll e True fuel r b meth i g = (out, ended, g1)" and "grows [] (polled e r b meth i fuel g)"
  shows "concat (map event_text out) = last ([] # polled e r b meth i fuel g) \<and>
    (\<exists>logs tail. out = logs @ tail \<and> list_all (\<lambda>x. \<not> is_done x) logs \<and> (tail = [] \<or> ended \<and> (\<exists>d. tail = [GEvent ''done'' d])))"
proof -
  obtain evs where l: "poll_loop e r b meth i fuel [] g = (evs, ended, g1)" and o: "out = stream_headers @ evs"
    using assms(1) by (auto simp: ssePoll_def split: prod.splits)
  have h: "concat (map event_text stream_headers) = []" "list_all (\<lambda>x. \<not> is_done x) stream_headers"
    by (simp_all add: stream_headers_def event_text_def is_done_def)
  obtain logs tail where "evs = logs @ tail" "list_all (\<lambda>x. \<not> is_done x) logs" "tail = [] \<or> ended \<and> (\<exists>d. tail = [GEvent ''done'' d])"
    using poll_loop_text [OF l assms(2)] by blast
  then have "\<exists>logs tail. out = logs @ tail \<and> list_all (\<lambda>x. \<not> is_done x) logs \<and> (tail = [] \<or> ended \<and> (\<exists>d. tail = [GEvent ''done'' d]))"
    using h(2) o by (intro exI [of _ "stream_headers @ logs"] exI [of _ tail]) auto
  then show ?thesis using poll_loop_text [OF l assms(2)] h(1) o by simp
qed

text \<open>A log whose last line was rewritten is sent as a whole once more.\<close>

lemma rewritten_log_repeated:
  assumes "\<not> prefix prev (log_of e resp)"
  shows "\<exists>evs over. poll_answer e prev (Inr resp) = (GEvent ''log'' (AMap [(''text'', AStr (log_of e resp))]) # evs, log_of e resp, over)"
proof -
  have "trim_prefix (log_of e resp) prev = log_of e resp" "log_of e resp \<noteq> prev"
    using assms by (auto simp: trim_prefix_def has_prefix_iff prefix_def)
  then show ?thesis by (auto simp: poll_answer_def log_of_def Let_def)
qed

definition build_backend :: backend where
  "build_backend = \<lparr>be_name = ''platform'', be_addr = ''a'', be_spec =
     \<lparr>sp_Service = ''P'', sp_Methods = [\<lparr>m_Name = ''GetBuild'', m_Req = ''Req'', m_Resp = ''Resp'', m_HTTPMethod = [], m_URI = []\<rparr>],
      sp_Structs = [(''Req'', \<lparr>st_Name = ''Req'', st_Fields = [\<lparr>f_ID = 1, f_Type = ''string'', f_Name = ''id''\<rparr>]\<rparr>),
        (''Resp'', \<lparr>st_Name = ''Resp'', st_Fields = [\<lparr>f_ID = 1, f_Type = ''string'', f_Name = ''body''\<rparr>]\<rparr>)]\<rparr>\<rparr>"

text \<open>A build whose log is "ab" at the first poll, and "abcd" at its end.\<close>

definition demo_stream :: gateway_env where
  "demo_stream = demo_gate\<lparr>
     ge_any := \<lambda>s. Some (AMap [(''log'', AStr s), (''status'', AStr (if s = ''ab'' then ''running'' else ''ok''))]),
     ge_net := \<lambda>t _ _. (True, writeFrame \<lparr>mg_typ = MsgReply, mg_seq = word_of_nat t, mg_method = [], mg_hdr = [],
       mg_body = Bytes (Stop (FieldString 1 (if t = 1 then ''ab'' else ''abcd'') NewWriter))\<rparr>)\<rparr>"

definition demo_gw :: "nat \<Rightarrow> gw" where
  "demo_gw n = \<lparr>gw_clis = [(''a'', 0)], gw_conns = [(be_spec build_backend, \<lparr>cl_seq = word_of_nat n, cl_in = []\<rparr>)], gw_time = Suc n\<rparr>"

definition demo_log :: "nat \<Rightarrow> string" where "demo_log n = (if n = 0 then ''ab'' else ''abcd'')"

lemma demo_rpc:
  "rpc demo_stream c build_backend ''GetBuild'' (poll_req demo_req ''7'') (demo_gw n) = (Inr (AMap [(''body'', AStr (demo_log n))]), demo_gw (Suc n))"
proof -
  let ?cl = "\<lparr>cl_seq = word_of_nat n, cl_in = []\<rparr>" and ?sp = "be_spec build_backend"
  let ?reply = "\<lparr>mg_typ = MsgReply, mg_seq = word_of_nat (Suc n), mg_method = [], mg_hdr = [], mg_body = Bytes (Stop (FieldString 1 (demo_log n) NewWriter))\<rparr>"
  obtain q where q: "Encode (ge_json demo_stream) ?sp ''Req'' (poll_req demo_req ''7'') = Inr q"
  proof -
    have "isOk (Encode (ge_json demo_stream) ?sp ''Req'' (poll_req demo_req ''7''))" by code_simp
    then show ?thesis using that by (auto simp: isOk_iff)
  qed
  have b: "length (Bytes (Stop (FieldString 1 (demo_log n) NewWriter))) \<le> 30" by (cases "n = 0") (simp add: demo_log_def, code_simp, simp add: demo_log_def, code_simp)
  have fr: "frame_ok ?reply" using b by (simp add: frame_ok_def frame_len_def maxFrame_def)
  have net: "ge_net demo_stream (Suc n) 0 (writeFrame (call_msg c ''GetBuild'' q ?cl)) = (True, writeFrame ?reply)"
    by (simp add: demo_stream_def demo_log_def)
  have "Call (ge_net demo_stream (Suc n) 0) c ''GetBuild'' q ?cl = (result_of (cl_seq ?cl + 1) ?reply, \<lparr>cl_seq = cl_seq ?cl + 1, cl_in = []\<rparr>)"
    by (rule Call_read [where net = "ge_net demo_stream (Suc n) 0" and m = ?reply and arr = "writeFrame ?reply"], rule net, simp, rule fr)
  then have call: "Call (ge_net demo_stream (Suc n) 0) c ''GetBuild'' q ?cl = (Inr (mg_body ?reply), \<lparr>cl_seq = word_of_nat (Suc n), cl_in = []\<rparr>)"
    by (simp add: result_of_def MsgReply_def MsgException_def add.commute)
  have dec: "Decode ?sp ''Resp'' (mg_body ?reply) = Inr [(''body'', AStr (demo_log n))]"
    by (cases "n = 0") (simp add: demo_log_def, code_simp, simp add: demo_log_def, code_simp)
  have m: "spec_Method ?sp ''GetBuild'' = Some \<lparr>m_Name = ''GetBuild'', m_Req = ''Req'', m_Resp = ''Resp'', m_HTTPMethod = [], m_URI = []\<rparr>"
    by (simp add: build_backend_def spec_Method_def)
  have "on_conn demo_stream c ''GetBuild'' (poll_req demo_req ''7'') 0 (demo_gw n) = (Inr (AMap [(''body'', AStr (demo_log n))]), demo_gw (Suc n))"
    using call dec by (simp add: on_conn_def demo_gw_def generic_Call_def m q tick_def)
  moreover have "ensure demo_stream build_backend (demo_gw n) = (Inr 0, demo_gw n)"
    by (simp add: ensure_def demo_gw_def build_backend_def)
  ultimately show ?thesis by (simp add: rpc_def)
qed

lemma demo_answers:
  "log_of demo_stream (AMap [(''body'', AStr (demo_log n))]) = demo_log n"
  "snd (snd (poll_answer demo_stream prev (Inr (AMap [(''body'', AStr (demo_log n))])))) \<longleftrightarrow> n \<noteq> 0"
  by (simp_all add: log_of_def unwrap_def demo_stream_def str_at_def poll_answer_def Let_def demo_log_def)

theorem stream_shows_log_witness:
  "\<exists>out g1. ssePoll demo_stream True 5 demo_req build_backend ''GetBuild'' ''7'' (demo_gw 0) = (out, True, g1) \<and> concat (map event_text out) = ''abcd''"
proof -
  have d: "ge_done demo_stream t = False" for t by (simp add: demo_stream_def demo_gate_def)
  have "polled demo_stream demo_req build_backend ''GetBuild'' ''7'' (Suc (Suc k)) (demo_gw 0) = [''ab'', ''abcd'']" for k
    by (simp add: demo_rpc demo_answers d) (simp add: demo_log_def)
  from this [of 3] have p: "polled demo_stream demo_req build_backend ''GetBuild'' ''7'' 5 (demo_gw 0) = [''ab'', ''abcd'']"
    by simp
  obtain out ended g1 where s: "ssePoll demo_stream True 5 demo_req build_backend ''GetBuild'' ''7'' (demo_gw 0) = (out, ended, g1)"
    by (cases "ssePoll demo_stream True 5 demo_req build_backend ''GetBuild'' ''7'' (demo_gw 0)")
  have "fst (snd (ssePoll demo_stream True (Suc (Suc k)) demo_req build_backend ''GetBuild'' ''7'' (demo_gw 0)))" for k
  proof -
    obtain x1 a where 1: "poll_answer demo_stream [] (Inr (AMap [(''body'', AStr (demo_log 0))])) = (x1, a, False)"
      using demo_answers(2) [of "[]" 0] by (metis prod.collapse)
    obtain x2 a2 where 2: "poll_answer demo_stream a (Inr (AMap [(''body'', AStr (demo_log (Suc 0)))])) = (x2, a2, True)"
      using demo_answers(2) [of a "Suc 0"] by (metis prod.collapse nat.distinct(2))
    show ?thesis by (simp add: ssePoll_def demo_rpc d 1 2)
  qed
  from this [of 3] have e: "ended" by (simp add: s)
  from stream_shows_log [OF s] p have "concat (map event_text out) = ''abcd''" by simp
  with s e show ?thesis by simp
qed

end
