(* ===== verification/Spec2Isabelle.thy ===== *)
theory Spec2Isabelle
  imports ContentClientsOk BoardRuns Tokens TlbConfOk ConfigOk BamRuns DeployOk GatewayOk
begin

text \<open>
  Verification library of the repository byte-basic (module minikitex): an RPC framework with its IDL and
  code generator, the content board, and the platform that builds, deploys and publishes services.

  Conventions. A Go string is an Isabelle \<open>string\<close>, a list of bytes; a byte is \<open>8 word\<close>. Integers on the wire
  are words; \<open>int\<close> of Go is \<open>int\<close> with \<open>wrap64\<close> (or \<open>wrap32\<close> for int32) where it can overflow. A fallible function returns
  \<open>err + 'a\<close>, with the error datatype of its component; a panic is an error of its own. A Go map is an
  association list. State is passed explicitly in records. What is not under src/ (MySQL, etcd, Consul, git, docker, buf,
  nginx, protocompile, JSON decoders, templates, the disk, the clock, randomness) is a field of an environment
  record or an argument; hypotheses about them are named predicates on the environment.

  Foundations. Prelude: the result type, big-endian integers, list lemmas. GoStrings: \<open>strings\<close>, \<open>strconv\<close>, white
  space in UTF-8. Sql: statements on tables with a schedule of faults, transactions. Triples: Hoare triples
  for handlers on such a database. Platform: Connect codes and shared text functions.

  Framework.
  Idl models idl/idl.go: every accepted specification is well formed.
  Wire (wire/wire.go) has the writer and the reader of struct bodies; its locale \<open>field_codec\<close> is what the two
  struct codecs use.
  Codec and Codegen model what cmd/gen/main.go generates, gen/user and gen/order; the locales \<open>struct_codec\<close> and \<open>rpc_codec\<close>.
  Generic models generic/*.go: the codec of maps is the generated one.
  Frame (runtime/frame.go): frames are read back as written.
  Runtime (runtime/server.go, client.go, middleware.go, trace.go): the connection loop, the middlewares (locale
  \<open>transparent\<close>), the client; loops over input end because each frame shortens it.
  Config and ConfigOk: config/etcd.go and discovery/client.go; a variable follows its key.

  Board (projects/board).
  Content (checks of content.go), ContentMem (content_mem.go), ContentTree (the tree a store holds), ContentRuns
  (runs of the memory store), ContentSql (content_mysql.go), ContentSqlOk and ContentSqlRuns (the MySQL store simulates
  the memory store), ContentClients and ContentClientsOk (content_flatten.go and content_nav.go over the interface,
  as locales).
  BoardKinds and BoardSpec (board.go: the contract of \<open>Board\<close> as a locale), BoardMem (mem.go), BoardSql and
  BoardSqlOk (mysql.go), BoardRuns (both keep the contract).
  Tokens (tokens.go, file.go): access tokens in memory and in their file.

  Platform (platform/server).
  Tlb, TlbConf (tlb.go: sites, routes, the nginx configuration, upstreams), TlbOk (the tables), TlbConfOk (the text).
  Repo (paths, checks, git, builds of ops.go), Live and LiveOk (the log of a run and its watchers, ops.go and
  http.go), Ops and OpsOk (jobs, builds, applications, deployments of ops.go).
  BamFiles, Bam, BamGen (bam.go, bam_watch.go: proto modules, versions, generation, the watch), BamOk and BamRuns (the
  tables, and that versions do not change).

  Interaction. Clients and handlers meet stores through locales that the models interpret. Handlers of the platform share the
  tables of ops.go: \<open>onJobs\<close> runs a call on them inside the larger state of bam.go. Runs of builds and deployments are steps
  of their own between calls; each theorem on reachable states ranges over all interleavings of these steps,
  with a database that may fail at any statement, unless it says healthy.

  Fuel and bounds. No definition uses fuel: loops are structural on their input, or functions with a measure (the
  reader loops on the rest of the input, \<open>del_loop\<close> on the live nodes, \<open>module_root_loop\<close> on the length of the path).
  Bounds are those of the code and of the columns of its tables.

  Not modelled. Listening, TLS, HTTP/2, signals and the process environment; the embedded web pages; the
  stubs that protoc generates (gen/home, gen/platform); the command lines cmd/bam, example/client and
  example/generic, which only print answers; the text of the files that cmd/gen writes (their meaning is Codec);
  requests of other clients between two statements of one handler; the columns created_at.
\<close>

end
